(* ===== verification/Prelude.thy ===== *)
theory Prelude
  imports Main "HOL-Library.AList" "HOL-Library.Word"
begin

section \<open>Shared vocabulary: errors, results, Python strings, dictionaries and ranges\<close>

text \<open>
  What every component of the development uses: the exception classes of
  \<^verbatim>\<open>marketdata_provider/errors.py\<close> and \<^verbatim>\<open>contracts/errors.py\<close> as one datatype, a
  result type in which a raised exception is the left value, the few string methods the
  source calls, insertion-ordered dictionaries as association lists, and \<open>range\<close>.
  Strings are ASCII: a Python \<open>str\<close> is a \<^typ>\<open>string\<close> whose characters are code points
  below 128. An exception carries the literal text of its message up to the first
  interpolated value.
\<close>

named_theorems res_simps \<open>rewriting results and the binds over them\<close>
named_theorems dict_simps \<open>lookup and keys of insertion-ordered dictionaries\<close>

subsection \<open>Exceptions and results\<close>

datatype error =
    MarketDataError string
  | MDSymbolAmbiguous string
  | MDSymbolUnsupported string
  | MDTimeframeUnsupported string
  | MDInvalidExchangeResponse string
  | MDPaginationStalled string
  | MDValidationError string
  | MDMissingFinality string
  | MDBarConflict string
  | MDIntrabarDataUnavailable string
  | MDRuntimeIntrabarUnsupported string
  | MDNetworkUnavailable string
  | MDUnsupportedFeature string
  | MDCacheConflict string
  | MDWsRestCandleMismatch string
  | MDSymbolNotTradableForStream string
  | InvalidInstrumentError string
  | InvalidTimeframeError string
  | InvalidBarError string
  | InvalidBarQueryError string
  | CoverageValidationError string
  | PyValueError string
  | PyTypeError string
  | PyKeyError string
  | PyStructError string
  | PyZeroDivisionError string
  | PyOverflowError string
  | PyIndexError string
  | PyRuntimeError string
  | PyStopIteration
  | SqlIntegrityError string
  | PyAssertionError
  | PyInvalidOperation
  | PyAttributeError string
  | PyFileNotFoundError string

type_synonym 'a res = "error + 'a"

fun bindR :: "'a res \<Rightarrow> ('a \<Rightarrow> 'b res) \<Rightarrow> 'b res" where
  "bindR (Inl e) f = Inl e"
| "bindR (Inr x) f = f x"

lemma bindR_Inr [res_simps]: "bindR m f = Inr y \<longleftrightarrow> (\<exists>x. m = Inr x \<and> f x = Inr y)"
  by (cases m) auto

lemma bindR_Inl [res_simps]:
  "bindR m f = Inl e \<longleftrightarrow> m = Inl e \<or> (\<exists>x. m = Inr x \<and> f x = Inl e)"
  by (cases m) auto

lemma bindR_cong [fundef_cong]:
  "m = m' \<Longrightarrow> (\<And>x. m' = Inr x \<Longrightarrow> f x = g x) \<Longrightarrow> bindR m f = bindR m' g"
  by (cases m') auto

lemma bindR_assoc: "bindR (bindR m f) g = bindR m (\<lambda>x. bindR (f x) g)"
  by (cases m) auto

lemma if_Inr [res_simps]: "((if b then Inl e else m) = Inr x) \<longleftrightarrow> \<not> b \<and> m = Inr x"
  by simp

text \<open>A comprehension whose element expression may raise: left to right, first error wins.\<close>

fun mapR :: "('a \<Rightarrow> 'b res) \<Rightarrow> 'a list \<Rightarrow> 'b list res" where
  "mapR f [] = Inr []"
| "mapR f (x # xs) = bindR (f x) (\<lambda>y. bindR (mapR f xs) (\<lambda>ys. Inr (y # ys)))"

lemma mapR_cong [fundef_cong]:
  "xs = ys \<Longrightarrow> (\<And>x. x \<in> set ys \<Longrightarrow> f x = g x) \<Longrightarrow> mapR f xs = mapR g ys"
  by (hypsubst_thin, induction ys) auto

lemma mapR_Inr: "(\<And>x. x \<in> set xs \<Longrightarrow> f x = Inr (g x)) \<Longrightarrow> mapR f xs = Inr (map g xs)"
  by (induction xs) auto

lemma mapR_list_all2: "mapR f xs = Inr ys \<longleftrightarrow> list_all2 (\<lambda>x y. f x = Inr y) xs ys"
  by (induction xs arbitrary: ys) (auto simp: res_simps list_all2_Cons1)

lemma mapR_length: "mapR f xs = Inr ys \<Longrightarrow> length ys = length xs"
  by (auto simp: mapR_list_all2 dest: list_all2_lengthD)

lemma mapR_map: "mapR f xs = Inr ys \<Longrightarrow> (\<And>x y. f x = Inr y \<Longrightarrow> g y = h x) \<Longrightarrow> map g ys = map h xs"
  by (induction xs arbitrary: ys) (auto simp: res_simps)

lemma mapR_append: "mapR f (xs @ ys) = bindR (mapR f xs) (\<lambda>a. bindR (mapR f ys) (\<lambda>b. Inr (a @ b)))"
proof (induction xs)
  case Nil
  show ?case by (cases "mapR f ys") auto
next
  case (Cons x xs)
  then show ?case by (simp add: bindR_assoc)
qed

subsection \<open>Python strings\<close>

definition char_code :: "char \<Rightarrow> nat" where
  "char_code c = of_char c"

text \<open>ASCII whitespace as \<open>str.strip\<close> sees it: tab to carriage return, the four separators, space.\<close>

definition py_isspace :: "char \<Rightarrow> bool" where
  "py_isspace c \<longleftrightarrow> (let n = char_code c in (9 \<le> n \<and> n \<le> 13) \<or> (28 \<le> n \<and> n \<le> 32))"

definition py_strip :: "string \<Rightarrow> string" where
  "py_strip s = rev (dropWhile py_isspace (rev (dropWhile py_isspace s)))"

definition char_lower :: "char \<Rightarrow> char" where
  "char_lower c = (let n = char_code c in if 65 \<le> n \<and> n \<le> 90 then char_of (n + 32) else c)"

definition char_upper :: "char \<Rightarrow> char" where
  "char_upper c = (let n = char_code c in if 97 \<le> n \<and> n \<le> 122 then char_of (n - 32) else c)"

definition py_lower :: "string \<Rightarrow> string" where
  "py_lower s = map char_lower s"

definition py_upper :: "string \<Rightarrow> string" where
  "py_upper s = map char_upper s"

definition is_digit :: "char \<Rightarrow> bool" where
  "is_digit c \<longleftrightarrow> (let n = char_code c in 48 \<le> n \<and> n \<le> 57)"

definition py_isdigit :: "string \<Rightarrow> bool" where
  "py_isdigit s \<longleftrightarrow> s \<noteq> [] \<and> list_all is_digit s"

definition digit_val :: "char \<Rightarrow> nat" where
  "digit_val c = char_code c - 48"

definition nat_of_digits :: "string \<Rightarrow> nat" where
  "nat_of_digits s = foldl (\<lambda>a c. a * 10 + digit_val c) 0 s"

definition digit_char :: "nat \<Rightarrow> char" where
  "digit_char n = char_of (48 + n)"

fun str_of_nat :: "nat \<Rightarrow> string" where
  "str_of_nat n = (if n < 10 then [digit_char n] else str_of_nat (n div 10) @ [digit_char (n mod 10)])"

declare str_of_nat.simps [simp del]

definition str_of_int :: "int \<Rightarrow> string" where
  "str_of_int i = (if i < 0 then CHR ''-'' # str_of_nat (nat (- i)) else str_of_nat (nat i))"

text \<open>\<open>s.split(sep)\<close> for a one-character separator.\<close>

fun py_split :: "char \<Rightarrow> string \<Rightarrow> string list" where
  "py_split sep [] = [[]]"
| "py_split sep (c # cs) =
     (if c = sep then [] # py_split sep cs
      else (case py_split sep cs of [] \<Rightarrow> [[c]] | w # ws \<Rightarrow> (c # w) # ws))"

text \<open>\<open>value or default\<close> on an optional string: \<open>None\<close> and the empty string are falsy.\<close>

fun str_or :: "string option \<Rightarrow> string \<Rightarrow> string" where
  "str_or None d = d"
| "str_or (Some s) d = (if s = [] then d else s)"

text \<open>\<open>a or b\<close> on optional integers: \<open>None\<close> and 0 are falsy.\<close>

fun int_or :: "int option \<Rightarrow> int option \<Rightarrow> int option" where
  "int_or None d = d"
| "int_or (Some n) d = (if n = 0 then d else Some n)"

lemma char_code_lt [simp]: "char_code c < 256"
  by (simp add: char_code_def)

lemma char_code_char_of [simp]: "n < 256 \<Longrightarrow> char_code (char_of n) = n"
  by (simp add: char_code_def)

lemma char_code_inj: "char_code a = char_code b \<longleftrightarrow> a = b"
  by (simp add: char_code_def)

lemma digit_char_props:
  assumes "n < 10"
  shows "is_digit (digit_char n)" and "digit_val (digit_char n) = n"
  using assms by (simp_all add: is_digit_def digit_val_def digit_char_def Let_def)

lemma nat_of_digits_snoc: "nat_of_digits (s @ [c]) = nat_of_digits s * 10 + digit_val c"
  by (simp add: nat_of_digits_def)

lemma str_of_nat_digits: "py_isdigit (str_of_nat n)"
proof (induction n rule: str_of_nat.induct)
  case (1 n)
  then show ?case
    by (subst str_of_nat.simps) (auto simp: py_isdigit_def digit_char_props)
qed

lemma nat_of_str_of_nat [simp]: "nat_of_digits (str_of_nat n) = n"
proof (induction n rule: str_of_nat.induct)
  case (1 n)
  show ?case
  proof (cases "n < 10")
    case True
    then show ?thesis
      by (subst str_of_nat.simps) (simp add: nat_of_digits_def digit_char_props)
  next
    case False
    with 1 have "nat_of_digits (str_of_nat (n div 10)) = n div 10" by simp
    with False show ?thesis
      by (subst str_of_nat.simps) (simp add: nat_of_digits_snoc digit_char_props)
  qed
qed

lemma str_of_nat_inj: "str_of_nat m = str_of_nat n \<longleftrightarrow> m = n"
  by (metis nat_of_str_of_nat)

text \<open>Decimal digits computed on binary integers: the form that evaluates on large numbers.\<close>

function int_digits :: "int \<Rightarrow> string" where
  "int_digits n = (if n < 10 then [digit_char (nat n)] else int_digits (n div 10) @ [digit_char (nat (n mod 10))])"
  by auto
termination by (relation "measure nat") auto

declare int_digits.simps [simp del]

lemma int_digits_nat: "0 \<le> n \<Longrightarrow> int_digits n = str_of_nat (nat n)"
proof (induction n rule: int_digits.induct)
  case (1 n)
  then show ?case
    by (subst int_digits.simps, subst str_of_nat.simps)
      (auto simp: nat_div_distrib nat_mod_distrib nat_less_iff)
qed

lemma str_of_int_code [code]:
  "str_of_int i = (if i < 0 then CHR ''-'' # int_digits (- i) else int_digits i)"
  by (simp add: str_of_int_def int_digits_nat)

definition int_of_digits :: "string \<Rightarrow> int" where
  "int_of_digits s = int (nat_of_digits s)"

lemma int_of_digits_code [code]: "int_of_digits s = foldl (\<lambda>a c. a * 10 + int (digit_val c)) 0 s"
proof -
  have "int (foldl (\<lambda>a c. a * 10 + digit_val c) n s) = foldl (\<lambda>a c. a * 10 + int (digit_val c)) (int n) s" for n
    by (induction s arbitrary: n) simp_all
  from this [of 0] show ?thesis by (simp add: int_of_digits_def nat_of_digits_def)
qed

lemma int_of_digits_str [simp]: "int_of_digits (str_of_nat n) = int n"
  by (simp add: int_of_digits_def)

text \<open>\<open>int(s)\<close> on ASCII text without underscores: outer white space, an optional sign, digits.\<close>

definition py_int :: "string \<Rightarrow> int res" where
  "py_int s =
     (let t = py_strip s in
      if py_isdigit t then Inr (int_of_digits t)
      else if t \<noteq> [] \<and> hd t = CHR ''-'' \<and> py_isdigit (tl t) then Inr (- int_of_digits (tl t))
      else if t \<noteq> [] \<and> hd t = CHR ''+'' \<and> py_isdigit (tl t) then Inr (int_of_digits (tl t))
      else Inl (PyValueError ''invalid literal for int() with base 10: ''))"

lemma str_of_nat_nonempty [simp]: "str_of_nat n \<noteq> []"
  using str_of_nat_digits [of n] by (simp add: py_isdigit_def)

lemma str_of_nat_digit_set: "c \<in> set (str_of_nat n) \<Longrightarrow> is_digit c"
  using str_of_nat_digits [of n] by (simp add: py_isdigit_def list_all_iff)

lemma char_lower_idem [simp]: "char_lower (char_lower c) = char_lower c"
  by (auto simp: char_lower_def Let_def)

lemma char_upper_idem [simp]: "char_upper (char_upper c) = char_upper c"
  by (auto simp: char_upper_def Let_def)

lemma py_lower_idem [simp]: "py_lower (py_lower s) = py_lower s"
  by (simp add: py_lower_def)

lemma py_upper_idem [simp]: "py_upper (py_upper s) = py_upper s"
  by (simp add: py_upper_def)

lemma py_isspace_lower [simp]: "py_isspace (char_lower c) = py_isspace c"
  by (auto simp: char_lower_def py_isspace_def Let_def)

lemma py_isspace_upper [simp]: "py_isspace (char_upper c) = py_isspace c"
  by (auto simp: char_upper_def py_isspace_def Let_def)

lemma dropWhile_map_inv:
  "(\<And>c. P (f c) = P c) \<Longrightarrow> dropWhile P (map f s) = map f (dropWhile P s)"
  by (induction s) auto

lemma py_strip_lower: "py_strip (py_lower s) = py_lower (py_strip s)"
  by (simp add: py_strip_def py_lower_def dropWhile_map_inv rev_map)

lemma py_strip_upper: "py_strip (py_upper s) = py_upper (py_strip s)"
  by (simp add: py_strip_def py_upper_def dropWhile_map_inv rev_map)

lemma dropWhile_id: "(s \<noteq> [] \<Longrightarrow> \<not> P (hd s)) \<Longrightarrow> dropWhile P s = s"
  by (cases s) auto

lemma py_strip_ends:
  assumes "s \<noteq> []" and "\<not> py_isspace (hd s)" and "\<not> py_isspace (last s)"
  shows "py_strip s = s"
proof -
  have "dropWhile py_isspace s = s" using assms by (simp add: dropWhile_id)
  moreover have "dropWhile py_isspace (rev s) = rev s"
    using assms by (intro dropWhile_id) (simp add: hd_rev)
  ultimately show ?thesis by (simp add: py_strip_def)
qed

lemma py_strip_idem [simp]: "py_strip (py_strip s) = py_strip s"
proof (cases "py_strip s = []")
  case True
  moreover have "py_strip [] = []" by (simp add: py_strip_def)
  ultimately show ?thesis by simp
next
  case False
  define t where "t = dropWhile py_isspace s"
  have strip: "py_strip s = rev (dropWhile py_isspace (rev t))" by (simp add: py_strip_def t_def)
  with False have ne: "dropWhile py_isspace (rev t) \<noteq> []" by simp
  have last: "\<not> py_isspace (last (py_strip s))"
    using hd_dropWhile [of py_isspace "rev t"] ne by (simp add: strip last_rev)
  have "t \<noteq> []" using ne by auto
  then have hd_t: "\<not> py_isspace (hd t)" unfolding t_def by (rule hd_dropWhile)
  obtain k where "py_strip s = take k t"
    by (metis strip dropWhile_eq_drop rev_drop rev_rev_ident length_rev)
  with False have "hd (py_strip s) = hd t" by (cases k; cases t) auto
  with hd_t last False show ?thesis by (intro py_strip_ends) auto
qed

lemma digit_not_space: "is_digit c \<Longrightarrow> \<not> py_isspace c"
  by (auto simp: is_digit_def py_isspace_def Let_def)

lemma py_strip_digits: "py_isdigit s \<Longrightarrow> py_strip s = s"
  by (rule py_strip_ends) (auto simp: py_isdigit_def list_all_iff digit_not_space)

lemma py_int_str_of_int [simp]: "py_int (str_of_int i) = Inr i"
proof (cases "i < 0")
  case True
  define s where "s = str_of_nat (nat (- i))"
  have s: "py_isdigit s" "int_of_digits s = - i" using True by (simp_all add: s_def str_of_nat_digits)
  have "\<not> py_isspace CHR ''-''" "\<not> is_digit CHR ''-''" by code_simp+
  with s have "py_strip (CHR ''-'' # s) = CHR ''-'' # s" "\<not> py_isdigit (CHR ''-'' # s)"
    by (auto simp: py_isdigit_def list_all_iff digit_not_space intro!: py_strip_ends)
  with s True show ?thesis by (simp add: py_int_def str_of_int_def s_def [symmetric] Let_def)
next
  case False
  then show ?thesis
    using str_of_nat_digits [of "nat i"] by (simp add: py_int_def str_of_int_def py_strip_digits)
qed

lemma str_of_int_inj: "str_of_int i = str_of_int j \<longleftrightarrow> i = j"
  using py_int_str_of_int by (metis sum.inject(2))

lemma py_split_nonempty [simp]: "py_split sep s \<noteq> []"
  by (induction s) (auto split: list.splits)

lemma py_split_no_sep: "sep \<notin> set s \<Longrightarrow> py_split sep s = [s]"
  by (induction s) auto

lemma py_split_append: "sep \<notin> set s \<Longrightarrow> py_split sep (s @ sep # t) = s # py_split sep t"
  by (induction s) auto

subsection \<open>Insertion-ordered dictionaries\<close>

text \<open>
  A Python dictionary keeps insertion order and overwrites a present key in place, which is
  \<^const>\<open>AList.update\<close>. \<open>dict_of key xs\<close> is the comprehension
  \<^verbatim>\<open>{key(x): x for x in xs}\<close>, \<open>sorted_vals d\<close> is
  \<^verbatim>\<open>[d[k] for k in sorted(d)]\<close>.
\<close>

definition dict_of :: "('a \<Rightarrow> 'k) \<Rightarrow> 'a list \<Rightarrow> ('k \<times> 'a) list" where
  "dict_of key xs = foldl (\<lambda>d x. AList.update (key x) x d) [] xs"

definition dict_extend :: "('a \<Rightarrow> 'k) \<Rightarrow> ('k \<times> 'a) list \<Rightarrow> 'a list \<Rightarrow> ('k \<times> 'a) list" where
  "dict_extend key d xs = foldl (\<lambda>d x. AList.update (key x) x d) d xs"

definition sorted_vals :: "('k::linorder \<times> 'a) list \<Rightarrow> 'a list" where
  "sorted_vals d = map (\<lambda>k. the (map_of d k)) (sort (map fst d))"

text \<open>The keys are distinct and every value sits under its own key.\<close>

definition keyed :: "('a \<Rightarrow> 'k) \<Rightarrow> ('k \<times> 'a) list \<Rightarrow> bool" where
  "keyed key d \<longleftrightarrow> distinct (map fst d) \<and> (\<forall>(k, v) \<in> set d. key v = k)"

lemma dict_of_extend: "dict_of key xs = dict_extend key [] xs"
  by (simp add: dict_of_def dict_extend_def)

lemma dict_extend_simps [simp]:
  "dict_extend key d [] = d"
  "dict_extend key d (x # xs) = dict_extend key (AList.update (key x) x d) xs"
  by (simp_all add: dict_extend_def)

lemma dict_extend_append: "dict_extend key d (xs @ ys) = dict_extend key (dict_extend key d xs) ys"
  by (simp add: dict_extend_def)

lemma keyed_Nil [simp]: "keyed key []"
  by (simp add: keyed_def)

lemma set_update_subset: "set (AList.update k x d) \<subseteq> insert (k, x) (set d)"
  by (induction d) auto

lemma keyed_update: "keyed key d \<Longrightarrow> key x = k \<Longrightarrow> keyed key (AList.update k x d)"
  using set_update_subset [of k x d] unfolding keyed_def
  by (auto simp: distinct_update)

lemma keyed_extend: "keyed key d \<Longrightarrow> keyed key (dict_extend key d xs)"
  by (induction xs arbitrary: d) (auto simp: keyed_update)

lemma keyed_dict_of: "keyed key (dict_of key xs)"
  by (simp add: dict_of_extend keyed_extend)

lemma dict_extend_get [dict_simps]:
  "map_of (dict_extend key d xs) k =
     (case find (\<lambda>x. key x = k) (rev xs) of None \<Rightarrow> map_of d k | Some x \<Rightarrow> Some x)"
proof (induction xs arbitrary: d)
  case Nil
  show ?case by simp
next
  case (Cons x xs)
  have split: "find P (ys @ [x]) = (case find P ys of None \<Rightarrow> if P x then Some x else None | Some y \<Rightarrow> Some y)" for P ys
    by (induction ys) auto
  from Cons show ?case
    by (auto simp: split update_conv' split: option.splits)
qed

lemma dict_of_get [dict_simps]: "map_of (dict_of key xs) k = find (\<lambda>x. key x = k) (rev xs)"
  by (simp add: dict_of_extend dict_extend_get split: option.splits)

lemma dict_extend_keys [dict_simps]: "fst ` set (dict_extend key d xs) = fst ` set d \<union> key ` set xs"
proof (induction xs arbitrary: d)
  case Nil
  show ?case by simp
next
  case (Cons x xs)
  then show ?case by (auto simp: dom_update [unfolded dom_map_of_conv_image_fst])
qed

lemma keyed_get: "keyed key d \<Longrightarrow> map_of d k = Some v \<Longrightarrow> key v = k"
  by (auto simp: keyed_def dest: map_of_SomeD)

lemma sorted_vals_keys:
  assumes "keyed key d"
  shows "map key (sorted_vals d) = sort (map fst d)"
proof -
  have "key (the (map_of d k)) = k" if "k \<in> fst ` set d" for k
    using that assms keyed_get by (metis domD dom_map_of_conv_image_fst option.sel)
  then have "map (key \<circ> (\<lambda>k. the (map_of d k))) (sort (map fst d)) = sort (map fst d)"
    by (intro map_idI) simp
  then show ?thesis by (simp add: sorted_vals_def)
qed

lemma sorted_vals_strict:
  assumes "keyed key d"
  shows "sorted_wrt (<) (map key (sorted_vals d))"
  using assms by (simp add: sorted_vals_keys strict_sorted_iff keyed_def)

lemma sorted_vals_set:
  assumes "keyed key d"
  shows "x \<in> set (sorted_vals d) \<longleftrightarrow> map_of d (key x) = Some x"
proof
  assume "x \<in> set (sorted_vals d)"
  then obtain k where k: "k \<in> fst ` set d" "x = the (map_of d k)" by (auto simp: sorted_vals_def)
  then obtain v where v: "map_of d k = Some v" by (metis domD dom_map_of_conv_image_fst)
  with assms have "key v = k" by (rule keyed_get)
  with k v show "map_of d (key x) = Some x" by simp
next
  assume *: "map_of d (key x) = Some x"
  then have "key x \<in> set (map fst d)" by (metis domI dom_map_of_conv_image_fst set_map)
  with * show "x \<in> set (sorted_vals d)" by (force simp: sorted_vals_def)
qed

lemma update_nonexist: "k \<notin> fst ` set d \<Longrightarrow> AList.update k v d = d @ [(k, v)]"
  by (induction d) auto

lemma dict_extend_fresh:
  "distinct (map key xs) \<Longrightarrow> (\<forall>x \<in> set xs. key x \<notin> fst ` set d) \<Longrightarrow>
   dict_extend key d xs = d @ map (\<lambda>x. (key x, x)) xs"
proof (induction xs arbitrary: d)
  case Nil
  show ?case by simp
next
  case (Cons x xs)
  have "AList.update (key x) x d = d @ [(key x, x)]"
    using Cons.prems by (simp add: update_nonexist)
  moreover have "dict_extend key (d @ [(key x, x)]) xs = (d @ [(key x, x)]) @ map (\<lambda>x. (key x, x)) xs"
    using Cons.prems by (intro Cons.IH) (force simp: image_iff)+
  ultimately show ?case by simp
qed

lemma dict_of_distinct: "distinct (map key xs) \<Longrightarrow> dict_of key xs = map (\<lambda>x. (key x, x)) xs"
  by (simp add: dict_of_extend dict_extend_fresh)

lemma sorted_vals_dict_of_sorted:
  assumes "sorted_wrt (<) (map key xs)"
  shows "sorted_vals (dict_of key xs) = xs"
proof -
  have d: "distinct (map key xs)" and s: "sorted (map key xs)"
    using assms by (simp_all add: strict_sorted_iff)
  have "the (map_of (map (\<lambda>x. (key x, x)) xs) (key x)) = x" if "x \<in> set xs" for x
  proof -
    have "map_of (map (\<lambda>x. (key x, x)) xs) (key x) = Some x"
      using d that by (intro map_of_is_SomeI) (auto simp: comp_def)
    then show ?thesis by simp
  qed
  then show ?thesis
    using s by (simp add: dict_of_distinct [OF d] sorted_vals_def comp_def sorted_sort_id map_idI)
qed

subsection \<open>Ranges and sorted lists\<close>

text \<open>\<open>range(start, stop, step)\<close>; a zero step raises \<open>ValueError\<close>.\<close>

definition py_range :: "int \<Rightarrow> int \<Rightarrow> int \<Rightarrow> int list res" where
  "py_range start stop step =
     (if step = 0 then Inl (PyValueError ''range() arg 3 must not be zero'')
      else if 0 < step then
        Inr (map (\<lambda>i. start + int i * step) [0..<nat ((stop - start + step - 1) div step)])
      else
        Inr (map (\<lambda>i. start + int i * step) [0..<nat ((start - stop - step - 1) div (- step))]))"

definition range_pos :: "int \<Rightarrow> int \<Rightarrow> int \<Rightarrow> int list" where
  "range_pos start stop step = map (\<lambda>i. start + int i * step) [0..<nat ((stop - start + step - 1) div step)]"

lemma py_range_pos: "0 < step \<Longrightarrow> py_range start stop step = Inr (range_pos start stop step)"
  by (simp add: py_range_def range_pos_def)

lemma range_count:
  fixes n step :: int
  assumes "0 < step" and "0 \<le> i"
  shows "i < (n + step - 1) div step \<longleftrightarrow> i * step < n"
proof -
  define q where "q = (n + step - 1) div step"
  define r where "r = (n + step - 1) mod step"
  have eq: "n + step - 1 = q * step + r" and r: "0 \<le> r" "r < step"
    using assms(1) by (simp_all add: q_def r_def)
  have "i < q \<longleftrightarrow> i * step < n"
  proof
    assume "i < q"
    then have "(i + 1) * step \<le> q * step" using assms(1) by (intro mult_right_mono) auto
    with eq r show "i * step < n" by (simp add: algebra_simps)
  next
    assume *: "i * step < n"
    show "i < q"
    proof (rule ccontr)
      assume "\<not> i < q"
      then have "q * step \<le> i * step" using assms(1) by (intro mult_right_mono) auto
      with * eq r show False by linarith
    qed
  qed
  then show ?thesis by (simp add: q_def)
qed

lemma range_pos_mem:
  assumes "0 < step"
  shows "x \<in> set (range_pos start stop step) \<longleftrightarrow> start \<le> x \<and> x < stop \<and> step dvd x - start"
proof
  assume "x \<in> set (range_pos start stop step)"
  then obtain i where i: "x = start + int i * step" "int i < (stop - start + step - 1) div step"
    unfolding range_pos_def by (clarsimp simp: zless_nat_eq_int_zless) blast
  then have "int i * step < stop - start" using range_count [OF assms, of "int i" "stop - start"] by simp
  with i assms show "start \<le> x \<and> x < stop \<and> step dvd x - start" by auto
next
  assume *: "start \<le> x \<and> x < stop \<and> step dvd x - start"
  then obtain k where k: "x - start = step * k" by blast
  with * assms have k0: "0 \<le> k" by (metis diff_ge_0_iff_ge zero_le_mult_iff linorder_not_less)
  have "k * step < stop - start" using k * by (simp add: mult.commute)
  then have "k < (stop - start + step - 1) div step"
    using range_count [OF assms k0] by simp
  with k k0 show "x \<in> set (range_pos start stop step)"
    by (auto simp: range_pos_def image_iff mult.commute intro!: bexI [of _ "nat k"])
qed

lemma range_pos_sorted: "0 < step \<Longrightarrow> sorted_wrt (<) (range_pos start stop step)"
  by (auto simp: range_pos_def sorted_wrt_iff_nth_less)

lemma range_pos_Nil: "0 < step \<Longrightarrow> stop \<le> start \<Longrightarrow> range_pos start stop step = []"
  using range_pos_mem [of step _ start stop] by (cases "range_pos start stop step") force+

lemma sorted_wrt_less_map_filter:
  "sorted_wrt (<) (map f xs) \<Longrightarrow> sorted_wrt (<) (map f (filter P xs))"
  by (induction xs) auto

subsection \<open>Interface: text codecs\<close>

text \<open>
  A pair of an encoder and a fallible decoder that agree on the valid values. What a client may
  rely on: encodings of distinct valid values differ, and decoding is onto the valid values.
\<close>

locale codec =
  fixes encode :: "'a \<Rightarrow> 'b" and decode :: "'b \<Rightarrow> 'a res" and valid :: "'a \<Rightarrow> bool"
  assumes decode_encode: "valid x \<Longrightarrow> decode (encode x) = Inr x"
begin

lemma encode_inj: "valid x \<Longrightarrow> valid y \<Longrightarrow> encode x = encode y \<longleftrightarrow> x = y"
  using decode_encode by (metis sum.inject(2))

lemma decode_list: "list_all valid xs \<Longrightarrow> mapR (\<lambda>x. decode (encode x)) xs = Inr xs"
  by (induction xs) (auto simp: decode_encode)

end

end
