(* ===== verification/Calendar.thy ===== *)
theory Calendar
  imports Prelude
begin

section \<open>The proleptic Gregorian calendar of Python's datetime module\<close>

text \<open>
  The parts of the standard library that \<^verbatim>\<open>timeframes/__init__.py\<close> uses: the
  proleptic ordinal of a date, its inverse (the 400-year cycle arithmetic of
  \<open>datetime\<close>), \<open>weekday\<close> and \<open>calendar.monthrange\<close>. The theorems say that the two
  conversions are inverse on every ordinal, so that a date is determined by its day.
\<close>

definition is_leap :: "int \<Rightarrow> bool" where
  "is_leap y \<longleftrightarrow> y mod 4 = 0 \<and> (y mod 100 \<noteq> 0 \<or> y mod 400 = 0)"

definition days_before_year :: "int \<Rightarrow> int" where
  "days_before_year y = (y - 1) * 365 + (y - 1) div 4 - (y - 1) div 100 + (y - 1) div 400"

definition month_start :: "int \<Rightarrow> int" where
  "month_start m = (if m = 1 then 0 else if m = 2 then 31 else if m = 3 then 59
     else if m = 4 then 90 else if m = 5 then 120 else if m = 6 then 151
     else if m = 7 then 181 else if m = 8 then 212 else if m = 9 then 243
     else if m = 10 then 273 else if m = 11 then 304 else 334)"

definition month_len :: "bool \<Rightarrow> int \<Rightarrow> int" where
  "month_len leap m = (if m = 2 then (if leap then 29 else 28)
     else if m = 4 \<or> m = 6 \<or> m = 9 \<or> m = 11 then 30 else 31)"

definition days_in_month :: "int \<Rightarrow> int \<Rightarrow> int" where
  "days_in_month y m = month_len (is_leap y) m"

definition leap_month_start :: "bool \<Rightarrow> int \<Rightarrow> int" where
  "leap_month_start leap m = month_start m + (if 2 < m \<and> leap then 1 else 0)"

definition ymd2ord :: "int \<Rightarrow> int \<Rightarrow> int \<Rightarrow> int" where
  "ymd2ord y m d = days_before_year y + leap_month_start (is_leap y) m + d"

text \<open>Month and day from a zero-based day of the year: the guess \<open>(n + 50) >> 5\<close>, corrected once.\<close>

definition month_day :: "bool \<Rightarrow> int \<Rightarrow> int \<times> int" where
  "month_day leap n =
     (let m = (n + 50) div 32; p = leap_month_start leap m
      in if n < p then (m - 1, n - (p - month_len leap (m - 1)) + 1) else (m, n - p + 1))"

definition ord2ymd :: "int \<Rightarrow> int \<times> int \<times> int" where
  "ord2ymd n =
     (let n0 = n - 1;
          n400 = n0 div 146097; a = n0 mod 146097;
          n100 = a div 36524; b = a mod 36524;
          n4 = b div 1461; c = b mod 1461;
          n1 = c div 365; r = c mod 365;
          year = n400 * 400 + 1 + n100 * 100 + n4 * 4 + n1
      in if n1 = 4 \<or> n100 = 4 then (year - 1, 12, 31)
         else (let leap = (n1 = 3 \<and> (n4 \<noteq> 24 \<or> n100 = 3)); md = month_day leap r
               in (year, fst md, snd md)))"

text \<open>\<open>date.weekday()\<close>: Monday is 0, and the ordinal 1 (0001-01-01) is a Monday.\<close>

definition weekday :: "int \<Rightarrow> int" where
  "weekday n = (n + 6) mod 7"

definition valid_ymd :: "int \<Rightarrow> int \<Rightarrow> int \<Rightarrow> bool" where
  "valid_ymd y m d \<longleftrightarrow> 1 \<le> m \<and> m \<le> 12 \<and> 1 \<le> d \<and> d \<le> days_in_month y m"

subsection \<open>The month table\<close>

definition month_day_ok :: "bool \<Rightarrow> int \<Rightarrow> bool" where
  "month_day_ok leap n =
     (let md = month_day leap n
      in 1 \<le> fst md \<and> fst md \<le> 12 \<and> 1 \<le> snd md \<and> snd md \<le> month_len leap (fst md) \<and>
         leap_month_start leap (fst md) + snd md = n + 1)"

lemma month_day_table: "list_all (\<lambda>n. month_day_ok True n \<and> month_day_ok False n) [0..364]"
  by code_simp

lemma month_day_correct:
  assumes "0 \<le> n" and "n \<le> 364"
  shows "month_day_ok leap n"
proof -
  have "n \<in> set [0..364]" using assms by simp
  then have "month_day_ok True n \<and> month_day_ok False n"
    using month_day_table unfolding list_all_iff by blast
  then show ?thesis by (cases leap) auto
qed

lemma month_cases:
  assumes "1 \<le> m" and "m \<le> (12::int)"
  shows "m \<in> {1, 2, 3, 4, 5, 6, 7, 8, 9, 10, 11, 12}"
proof -
  have "m \<in> set [1..12]" using assms by simp
  moreover have "set [1..12] = {1, 2, 3, 4, 5, 6, 7, 8, 9, 10, 11, (12::int)}" by code_simp
  ultimately show ?thesis by (simp only:)
qed

lemma leap_month_start_step:
  assumes "1 \<le> m" and "m \<le> 12" and "m < m'" and "m' \<le> 12"
  shows "leap_month_start leap m + month_len leap m \<le> leap_month_start leap m'"
  using month_cases [of m] month_cases [of m'] assms
  by (auto simp: leap_month_start_def month_start_def month_len_def)

lemma leap_month_start_bounds:
  assumes "1 \<le> m" and "m \<le> 12"
  shows "0 \<le> leap_month_start leap m"
    and "leap_month_start leap m + month_len leap m \<le> (if leap then 366 else 365)"
  using month_cases [OF assms] by (auto simp: leap_month_start_def month_start_def month_len_def)

subsection \<open>Ordinals and dates are inverse\<close>

lemma div_pred:
  fixes y N :: int
  assumes "0 < N"
  shows "y div N = (y - 1) div N + (if y mod N = 0 then 1 else 0)"
proof -
  have y: "y = N * (y div N) + y mod N" by simp
  have r: "0 \<le> y mod N" "y mod N < N" using assms by simp_all
  show ?thesis
  proof (cases "y mod N = 0")
    case True
    have "(y - 1) div N = y div N - 1"
      using y True assms by (intro int_div_pos_eq [where r = "N - 1"]) (simp_all add: algebra_simps)
    with True show ?thesis by simp
  next
    case False
    have "(y - 1) div N = y div N"
      using y r False by (intro int_div_pos_eq [where r = "y mod N - 1"]) simp_all
    with False show ?thesis by simp
  qed
qed

lemma days_before_year_parts:
  assumes "0 \<le> b" "b \<le> 3" "0 \<le> c" "c \<le> 24" "0 \<le> d" "d \<le> 3"
  shows "days_before_year (a * 400 + 1 + b * 100 + c * 4 + d) =
    146097 * a + 36524 * b + 1461 * c + 365 * d"
proof -
  let ?y = "a * 400 + b * 100 + c * 4 + d"
  have "?y div 4 = 100 * a + 25 * b + c"
    using assms by (intro int_div_pos_eq [where r = d]) simp_all
  moreover have "?y div 100 = 4 * a + b"
    using assms by (intro int_div_pos_eq [where r = "c * 4 + d"]) simp_all
  moreover have "?y div 400 = a"
    using assms by (intro int_div_pos_eq [where r = "b * 100 + c * 4 + d"]) simp_all
  moreover have "a * 400 + 1 + b * 100 + c * 4 + d - 1 = ?y" by simp
  ultimately show ?thesis by (simp only: days_before_year_def) simp
qed

lemma mod_top_zero:
  fixes x N :: int
  assumes "0 < x" and "x \<le> N"
  shows "(x + N * k) mod N = 0 \<longleftrightarrow> x = N"
  using assms by (cases "x = N") simp_all

lemma is_leap_parts:
  assumes "0 \<le> b" "b \<le> 3" "0 \<le> c" "c \<le> 24" "0 \<le> d" "d \<le> 3"
  shows "is_leap (a * 400 + 1 + b * 100 + c * 4 + d) \<longleftrightarrow> d = 3 \<and> (c \<noteq> 24 \<or> b = 3)"
proof -
  let ?y = "a * 400 + 1 + b * 100 + c * 4 + d"
  have "?y mod 4 = 0 \<longleftrightarrow> d + 1 = 4"
    using mod_top_zero [of "d + 1" 4 "100 * a + 25 * b + c"] assms by (simp add: algebra_simps)
  moreover have "?y mod 100 = 0 \<longleftrightarrow> c * 4 + d + 1 = 100"
    using mod_top_zero [of "c * 4 + d + 1" 100 "4 * a + b"] assms by (simp add: algebra_simps)
  moreover have "?y mod 400 = 0 \<longleftrightarrow> b * 100 + c * 4 + d + 1 = 400"
    using mod_top_zero [of "b * 100 + c * 4 + d + 1" 400 a] assms by (simp add: algebra_simps)
  ultimately show ?thesis using assms unfolding is_leap_def by auto
qed

lemma leap_count:
  fixes p q r :: bool
  assumes "r \<Longrightarrow> q" and "q \<Longrightarrow> p"
  shows "(365::int) + (if p then 1 else 0) - (if q then 1 else 0) + (if r then 1 else 0) =
         (if p \<and> (\<not> q \<or> r) then 366 else 365)"
  using assms by (cases p; cases q; cases r) simp_all

lemma days_before_year_Suc:
  "days_before_year (y + 1) = days_before_year y + (if is_leap y then 366 else 365)"
proof -
  have m: "y mod 400 = 0 \<Longrightarrow> y mod 100 = 0" "y mod 100 = 0 \<Longrightarrow> y mod 4 = 0"
    by (simp add: mod_eq_0_iff_dvd, erule dvd_trans [rotated], simp)+
  define k4 k100 k400 :: int
    where "k4 = (if y mod 4 = 0 then 1 else 0)" and "k100 = (if y mod 100 = 0 then 1 else 0)"
      and "k400 = (if y mod 400 = 0 then 1 else 0)"
  define p4 p100 p400 where "p4 = (y - 1) div 4" and "p100 = (y - 1) div 100" and "p400 = (y - 1) div 400"
  have d: "y div 4 = p4 + k4" "y div 100 = p100 + k100" "y div 400 = p400 + k400"
    unfolding k4_def k100_def k400_def p4_def p100_def p400_def by (rule div_pred, simp)+
  have "days_before_year (y + 1) = y * 365 + (p4 + k4) - (p100 + k100) + (p400 + k400)"
    by (simp only: days_before_year_def add_diff_cancel_right' d)
  moreover have "days_before_year y = (y - 1) * 365 + p4 - p100 + p400"
    by (simp only: days_before_year_def p4_def p100_def p400_def)
  ultimately have "days_before_year (y + 1) = days_before_year y + 365 + k4 - k100 + k400"
    by (simp add: algebra_simps)
  moreover have "365 + k4 - k100 + k400 = (if is_leap y then 366 else 365)"
    unfolding is_leap_def k4_def k100_def k400_def by (rule leap_count [OF m])
  ultimately show ?thesis by simp
qed

lemma days_before_year_mono: "y < y' \<Longrightarrow> days_before_year (y + 1) \<le> days_before_year y'"
proof (induction "nat (y' - y - 1)" arbitrary: y')
  case 0
  then have "y' = y + 1" by simp
  then show ?case by simp
next
  case (Suc k)
  then have "days_before_year (y + 1) \<le> days_before_year (y' - 1)" by (intro Suc.hyps) auto
  also have "\<dots> \<le> days_before_year y'" using days_before_year_Suc [of "y' - 1"] by simp
  finally show ?case .
qed

lemma ord2ymd_correct:
  assumes "ord2ymd n = (y, m, d)"
  shows "valid_ymd y m d" and "ymd2ord y m d = n"
proof -
  define n0 where "n0 = n - 1"
  define A where "A = n0 div 146097"
  define a where "a = n0 mod 146097"
  define B where "B = a div 36524"
  define b where "b = a mod 36524"
  define C where "C = b div 1461"
  define c where "c = b mod 1461"
  define D where "D = c div 365"
  define r where "r = c mod 365"
  note defs = n0_def A_def a_def B_def b_def C_def c_def D_def r_def
  have eqs: "n0 = 146097 * A + a" "a = 36524 * B + b" "b = 1461 * C + c" "c = 365 * D + r"
    and rem: "0 \<le> a" "a < 146097" "0 \<le> b" "b < 36524" "0 \<le> c" "c < 1461" "0 \<le> r" "r < 365"
    by (simp_all add: A_def a_def B_def b_def C_def c_def D_def r_def)
  have n: "n = 146097 * A + 36524 * B + 1461 * C + 365 * D + r + 1" using eqs n0_def by linarith
  have bnd: "0 \<le> B" "B \<le> 4" "0 \<le> C" "C \<le> 24" "0 \<le> D" "D \<le> 4" "0 \<le> r" "r \<le> 364"
    "D = 4 \<Longrightarrow> C \<noteq> 24 \<and> r = 0"
    using eqs rem by auto
  have B4: "C = 0 \<and> D = 0 \<and> r = 0" if "B = 4"
  proof -
    have "b = 0" using that eqs rem by linarith
    moreover from this have "C = 0" using eqs rem by linarith
    moreover from calculation have "c = 0" using eqs by linarith
    moreover from this have "D = 0" using eqs rem by linarith
    ultimately show ?thesis using eqs by simp
  qed
  have res: "ord2ymd n =
      (let year = A * 400 + 1 + B * 100 + C * 4 + D
       in if D = 4 \<or> B = 4 then (year - 1, 12, 31)
          else let md = month_day (D = 3 \<and> (C \<noteq> 24 \<or> B = 3)) r in (year, fst md, snd md))"
    by (simp add: ord2ymd_def Let_def defs)
  have "valid_ymd y m d \<and> ymd2ord y m d = n"
  proof (cases "B = 4")
    case True
    then have z: "y = A * 400 + 1 + 3 * 100 + 24 * 4 + 3" "m = 12" "d = 31"
      using res assms B4 by auto
    have "is_leap y" unfolding z(1) by (subst is_leap_parts) auto
    moreover have "days_before_year y = 146097 * A + 36524 * 3 + 1461 * 24 + 365 * 3"
      unfolding z(1) by (subst days_before_year_parts) auto
    ultimately show ?thesis
      using z n B4 True
      by (simp add: valid_ymd_def days_in_month_def month_len_def ymd2ord_def leap_month_start_def month_start_def)
  next
    case B: False
    show ?thesis
    proof (cases "D = 4")
      case True
      then have z: "y = A * 400 + 1 + B * 100 + C * 4 + 3" "m = 12" "d = 31"
        using res assms by auto
      have "is_leap y" unfolding z(1) using bnd B True by (subst is_leap_parts) auto
      moreover have "days_before_year y = 146097 * A + 36524 * B + 1461 * C + 365 * 3"
        unfolding z(1) using bnd B by (subst days_before_year_parts) auto
      ultimately show ?thesis
        using z n bnd True
        by (simp add: valid_ymd_def days_in_month_def month_len_def ymd2ord_def leap_month_start_def month_start_def)
    next
      case D: False
      let ?leap = "D = 3 \<and> (C \<noteq> 24 \<or> B = 3)"
      have z: "y = A * 400 + 1 + B * 100 + C * 4 + D" "m = fst (month_day ?leap r)" "d = snd (month_day ?leap r)"
        using res assms B D by (cases "month_day ?leap r"; simp add: Let_def)+
      have l: "is_leap y = ?leap" unfolding z(1) using bnd B D by (intro is_leap_parts) auto
      have dy: "days_before_year y = 146097 * A + 36524 * B + 1461 * C + 365 * D"
        unfolding z(1) using bnd B D by (intro days_before_year_parts) auto
      have "month_day_ok ?leap r" using bnd by (intro month_day_correct) auto
      then show ?thesis
        using z l dy n
        by (simp add: month_day_ok_def Let_def valid_ymd_def days_in_month_def ymd2ord_def)
    qed
  qed
  then show "valid_ymd y m d" and "ymd2ord y m d = n" by auto
qed

lemma ymd2ord_in_year:
  assumes "valid_ymd y m d"
  shows "days_before_year y < ymd2ord y m d" and "ymd2ord y m d \<le> days_before_year (y + 1)"
  using assms leap_month_start_bounds [of m "is_leap y"]
  by (auto simp: valid_ymd_def ymd2ord_def days_in_month_def days_before_year_Suc split: if_splits)

lemma ymd2ord_inj:
  assumes v: "valid_ymd y m d" "valid_ymd y' m' d'" and eq: "ymd2ord y m d = ymd2ord y' m' d'"
  shows "y = y' \<and> m = m' \<and> d = d'"
proof -
  have "\<not> y < y'" "\<not> y' < y"
    using days_before_year_mono [of y y'] days_before_year_mono [of y' y]
      ymd2ord_in_year [OF v(1)] ymd2ord_in_year [OF v(2)] eq by linarith+
  then have y: "y = y'" by simp
  have "\<not> m < m'" "\<not> m' < m"
    using v eq leap_month_start_step [of m m' "is_leap y"] leap_month_start_step [of m' m "is_leap y"]
    unfolding y by (auto simp: valid_ymd_def ymd2ord_def days_in_month_def)
  then have "m = m'" by simp
  with y eq show ?thesis by (simp add: ymd2ord_def)
qed

lemma ord2ymd_ymd2ord:
  assumes "valid_ymd y m d"
  shows "ord2ymd (ymd2ord y m d) = (y, m, d)"
proof -
  obtain y' m' d' where o: "ord2ymd (ymd2ord y m d) = (y', m', d')" by (metis prod_cases3)
  from ymd2ord_inj [OF ord2ymd_correct(1) [OF o] assms ord2ymd_correct(2) [OF o]] o
  show ?thesis by simp
qed

text \<open>The day after the last day of a month is the first of the next month.\<close>

definition next_month :: "int \<Rightarrow> int \<Rightarrow> int \<times> int" where
  "next_month y m = (if m = 12 then (y + 1, 1) else (y, m + 1))"

lemma ymd2ord_month_end:
  assumes "1 \<le> m" and "m \<le> 12"
  shows "ymd2ord y m (days_in_month y m) + 1 =
    ymd2ord (fst (next_month y m)) (snd (next_month y m)) 1"
proof (cases "m = 12")
  case True
  then show ?thesis
    by (simp add: next_month_def ymd2ord_def days_before_year_Suc leap_month_start_def
        month_start_def days_in_month_def month_len_def)
next
  case False
  with month_cases [OF assms] show ?thesis
    by (auto simp: next_month_def ymd2ord_def leap_month_start_def month_start_def
        days_in_month_def month_len_def)
qed

lemma valid_next_month:
  assumes "1 \<le> m" and "m \<le> 12"
  shows "valid_ymd (fst (next_month y m)) (snd (next_month y m)) 1"
  using assms by (auto simp: valid_ymd_def next_month_def days_in_month_def month_len_def)

end
