(* ===== verification/Timeframes.thy ===== *)
theory Timeframes
  imports Calendar
begin

section \<open>Timeframes, bar close times and the pagination cursor\<close>

text \<open>
  Models \<^verbatim>\<open>timeframes/__init__.py\<close> (all of it but the ISO-8601 branch of
  \<open>parse_time_ms\<close>) and \<^verbatim>\<open>pagination/__init__.py\<close>. A time is an \<^typ>\<open>int\<close> of
  milliseconds since 1970-01-01 UTC. \<open>datetime.fromtimestamp(ms / 1000, UTC)\<close> is modelled by
  the day it falls on: within the years 1 to 9999 the quotient is a double whose error is
  below a millisecond, so the day is the floor of the exact quotient, and outside these years
  the call raises.
\<close>

subsection \<open>Names of timeframes\<close>

definition match_count_unit :: "string \<Rightarrow> string \<Rightarrow> (nat \<times> char) option" where
  "match_count_unit units s =
     (if s \<noteq> [] \<and> py_isdigit (butlast s) \<and> last s \<in> set units
      then Some (nat_of_digits (butlast s), last s) else None)"

definition canonical_timeframe :: "string \<Rightarrow> string res" where
  "canonical_timeframe tf =
     (let raw = py_strip tf in
      if raw \<in> {''D'', ''1D'', ''1d''} then Inr ''1D''
      else if raw \<in> {''W'', ''1W'', ''1w''} then Inr ''1W''
      else if raw \<in> {''M'', ''1M''} then Inr ''1M''
      else if py_isdigit raw then Inr (str_of_nat (nat_of_digits raw) @ ''m'')
      else case match_count_unit ''smhdSMHD'' raw of
             None \<Rightarrow> Inl (MDTimeframeUnsupported ''Unsupported timeframe: '')
           | Some (n, u) \<Rightarrow>
               (let unit = char_lower u in
                if unit = CHR ''d'' then
                  (if n = 1 then Inr ''1D''
                   else Inl (MDTimeframeUnsupported ''Only 1D calendar timeframe supported in Stage A''))
                else Inr (str_of_nat n @ [unit])))"

definition normalize_timeframe :: "string \<Rightarrow> string res" where
  "normalize_timeframe tf = canonical_timeframe tf"

definition is_calendar_timeframe :: "string \<Rightarrow> bool res" where
  "is_calendar_timeframe tf =
     bindR (canonical_timeframe tf) (\<lambda>c. Inr (c \<in> {''1D'', ''1W'', ''1M''}))"

definition fixed_units :: "(char \<times> int) list" where
  "fixed_units = [(CHR ''s'', 1000), (CHR ''m'', 60000), (CHR ''h'', 3600000)]"

definition timeframe_ms :: "string \<Rightarrow> int res" where
  "timeframe_ms tf =
     bindR (canonical_timeframe tf) (\<lambda>c.
       if c = ''1D'' then Inr 86400000
       else if c = ''1W'' then Inr (7 * 86400000)
       else if c = ''1M'' then Inl (MDTimeframeUnsupported ''1M has variable length; use close_time_ms'')
       else case match_count_unit ''smh'' c of
              None \<Rightarrow> Inl PyAssertionError
            | Some (n, u) \<Rightarrow> Inr (int n * the (map_of fixed_units u)))"

definition timeframe_to_ms :: "string \<Rightarrow> int res" where
  "timeframe_to_ms tf = timeframe_ms tf"

text \<open>The integer branch of \<open>parse_time_ms\<close>: seconds up to 10^12, milliseconds above.\<close>

definition parse_time_ms_int :: "int \<Rightarrow> int" where
  "parse_time_ms_int value = (if value > 1000000000000 then value else value * 1000)"

subsection \<open>Close times\<close>

definition day_ms :: int where
  "day_ms = 86400000"

text \<open>\<open>_dt\<close>: the calendar date of a timestamp; 719163 is the ordinal of 1970-01-01.\<close>

definition dt :: "int \<Rightarrow> (int \<times> int \<times> int) res" where
  "dt ms =
     (let n = ms div day_ms + 719163
      in if 1 \<le> n \<and> n \<le> 3652059 then Inr (ord2ymd n) else Inl (PyValueError ''year ''))"

text \<open>\<open>_ms(datetime(y, m, d, tzinfo=UTC))\<close>: midnight of a date.\<close>

definition ms_of_date :: "int \<Rightarrow> int \<Rightarrow> int \<Rightarrow> int" where
  "ms_of_date y m d = (ymd2ord y m d - 719163) * day_ms"

definition close_time_ms :: "int \<Rightarrow> string \<Rightarrow> int res" where
  "close_time_ms open_time_ms tf =
     bindR (canonical_timeframe tf) (\<lambda>c.
     bindR (dt open_time_ms) (\<lambda>(year, month, day).
       if c = ''1D'' then Inr (ms_of_date year month day + 86400000 - 1)
       else if c = ''1W'' then
         (let monday = ms_of_date year month day - weekday (ymd2ord year month day) * 86400000
          in Inr (monday + 7 * 86400000 - 1))
       else if c = ''1M'' then
         (let last = days_in_month year month
          in Inr (ms_of_date year month last + 86400000 - 1))
       else bindR (timeframe_ms c) (\<lambda>w. Inr (open_time_ms + w - 1))))"

definition next_open_time_ms :: "int \<Rightarrow> string \<Rightarrow> int res" where
  "next_open_time_ms open_time_ms tf = bindR (close_time_ms open_time_ms tf) (\<lambda>c. Inr (c + 1))"

subsection \<open>Exchange intervals\<close>

definition binance_intervals :: "(string \<times> string) list" where
  "binance_intervals =
    [(''1s'', ''1s''), (''1'', ''1m''), (''1m'', ''1m''), (''3'', ''3m''), (''3m'', ''3m''),
     (''5'', ''5m''), (''5m'', ''5m''), (''15'', ''15m''), (''15m'', ''15m''), (''30'', ''30m''),
     (''30m'', ''30m''), (''60'', ''1h''), (''60m'', ''1h''), (''1h'', ''1h''), (''120'', ''2h''),
     (''120m'', ''2h''), (''2h'', ''2h''), (''240'', ''4h''), (''240m'', ''4h''), (''4h'', ''4h''),
     (''360'', ''6h''), (''360m'', ''6h''), (''6h'', ''6h''), (''720'', ''12h''), (''720m'', ''12h''),
     (''12h'', ''12h''), (''D'', ''1d''), (''1D'', ''1d''), (''1d'', ''1d''), (''W'', ''1w''),
     (''1W'', ''1w''), (''1w'', ''1w''), (''M'', ''1M''), (''1M'', ''1M'')]"

definition bybit_intervals :: "(string \<times> string) list" where
  "bybit_intervals =
    [(''1'', ''1''), (''1m'', ''1''), (''3'', ''3''), (''3m'', ''3''), (''5'', ''5''), (''5m'', ''5''),
     (''15'', ''15''), (''15m'', ''15''), (''30'', ''30''), (''30m'', ''30''), (''60'', ''60''),
     (''1h'', ''60''), (''120'', ''120''), (''2h'', ''120''), (''240'', ''240''), (''4h'', ''240''),
     (''360'', ''360''), (''6h'', ''360''), (''720'', ''720''), (''12h'', ''720''), (''D'', ''D''),
     (''1D'', ''D''), (''1d'', ''D''), (''W'', ''W''), (''1W'', ''W''), (''1w'', ''W''), (''M'', ''M''),
     (''1M'', ''M'')]"

definition raise_tf :: "string \<Rightarrow> string res" where
  "raise_tf tf = Inl (MDTimeframeUnsupported ''Unsupported exchange timeframe: '')"

definition interval_of :: "(string \<times> string) list \<Rightarrow> string \<Rightarrow> string res" where
  "interval_of table tf =
     bindR (canonical_timeframe tf) (\<lambda>c.
       case map_of table tf of Some v \<Rightarrow> Inr v
       | None \<Rightarrow> (case map_of table c of Some v \<Rightarrow> Inr v | None \<Rightarrow> raise_tf tf))"

definition to_binance_interval :: "string \<Rightarrow> string res" where
  "to_binance_interval tf = interval_of binance_intervals tf"

definition to_bybit_interval :: "string \<Rightarrow> string res" where
  "to_bybit_interval tf = interval_of bybit_intervals tf"

definition default_intrabar_tf :: "string \<Rightarrow> string res" where
  "default_intrabar_tf chart_tf =
     bindR (if chart_tf \<noteq> [] then canonical_timeframe chart_tf else Inr ''1m'') (\<lambda>c.
       if c \<in> {''1D'', ''1W'', ''1M''} then Inr ''60m''
       else bindR (timeframe_ms c) (\<lambda>w. Inr (if w div 60000 \<le> 60 then ''1m'' else ''5m'')))"

subsection \<open>The pagination cursor\<close>

record page_request =
  pr_start :: int
  pr_end :: int
  pr_limit :: int

definition next_cursor :: "int \<Rightarrow> string \<Rightarrow> int \<Rightarrow> int res" where
  "next_cursor last_open_time_ms timeframe current_cursor =
     bindR (next_open_time_ms last_open_time_ms timeframe) (\<lambda>nxt.
       if nxt \<le> current_cursor then Inl (MDPaginationStalled ''Pagination cursor stalled at '')
       else Inr nxt)"

subsection \<open>Canonical names\<close>

text \<open>The shape of a canonical name: a calendar name, or a count without leading zeros and a unit.\<close>

definition calendar_names :: "string list" where
  "calendar_names = [''1D'', ''1W'', ''1M'']"

definition fixed_name :: "nat \<Rightarrow> char \<Rightarrow> string" where
  "fixed_name n u = str_of_nat n @ [u]"

lemma match_count_unit_fixed:
  "u \<in> set units \<Longrightarrow> match_count_unit units (fixed_name n u) = Some (n, u)"
  by (simp add: match_count_unit_def fixed_name_def str_of_nat_digits)

lemma match_count_unitD: "match_count_unit units s = Some (n, u) \<Longrightarrow> u \<in> set units"
  by (auto simp: match_count_unit_def split: if_splits)

lemma canonical_timeframe_raw:
  assumes "raw = py_strip tf"
  shows "raw \<in> {''D'', ''1D'', ''1d''} \<Longrightarrow> canonical_timeframe tf = Inr ''1D''"
    and "raw \<in> {''W'', ''1W'', ''1w''} \<Longrightarrow> canonical_timeframe tf = Inr ''1W''"
    and "raw \<in> {''M'', ''1M''} \<Longrightarrow> canonical_timeframe tf = Inr ''1M''"
  unfolding canonical_timeframe_def assms [symmetric] Let_def by auto

lemma lower_unit: "u \<in> set ''smhdSMHD'' \<Longrightarrow> char_lower u \<in> set ''smhd''"
proof -
  have "list_all (\<lambda>u. char_lower u \<in> set ''smhd'') ''smhdSMHD''" by code_simp
  then show "u \<in> set ''smhdSMHD'' \<Longrightarrow> char_lower u \<in> set ''smhd''" by (simp only: list_all_iff)
qed

lemma canonical_name_cases:
  assumes "canonical_timeframe tf = Inr c"
  shows "c \<in> set calendar_names \<or> (\<exists>n u. u \<in> set ''smh'' \<and> c = fixed_name n u)"
proof -
  define raw where "raw = py_strip tf"
  have D: "raw \<in> {''D'', ''1D'', ''1d''} \<Longrightarrow> c = ''1D''"
    and W: "raw \<in> {''W'', ''1W'', ''1w''} \<Longrightarrow> c = ''1W''" and M: "raw \<in> {''M'', ''1M''} \<Longrightarrow> c = ''1M''"
    using canonical_timeframe_raw [OF raw_def] assms by simp_all
  show ?thesis
  proof (cases "raw \<in> {''D'', ''1D'', ''1d''} \<or> raw \<in> {''W'', ''1W'', ''1w''} \<or> raw \<in> {''M'', ''1M''}")
    case True
    then have "c = ''1D'' \<or> c = ''1W'' \<or> c = ''1M''" by (elim disjE) (rule disjI1 [OF D] disjI2 [OF disjI1 [OF W]] disjI2 [OF disjI2 [OF M]], assumption)+
    then show ?thesis by (elim disjE) (simp_all add: calendar_names_def)
  next
    case False
    then have c: "(if py_isdigit raw then Inr (fixed_name (nat_of_digits raw) (CHR ''m''))
      else case match_count_unit ''smhdSMHD'' raw of
             None \<Rightarrow> Inl (MDTimeframeUnsupported ''Unsupported timeframe: '')
           | Some (n, u) \<Rightarrow>
                if char_lower u = CHR ''d'' then
                  (if n = 1 then Inr ''1D''
                   else Inl (MDTimeframeUnsupported ''Only 1D calendar timeframe supported in Stage A''))
                else Inr (fixed_name n (char_lower u))) = Inr c"
      using assms by (simp only: canonical_timeframe_def raw_def [symmetric] Let_def fixed_name_def if_False de_Morgan_disj)
    show ?thesis
    proof (cases "py_isdigit raw")
      case True
      with c show ?thesis by auto
    next
      case nodigits: False
      with c obtain n u where m: "match_count_unit ''smhdSMHD'' raw = Some (n, u)"
        by (cases "match_count_unit ''smhdSMHD'' raw") auto
      then have "char_lower u \<in> set ''smhd''" by (intro lower_unit match_count_unitD)
      with c nodigits m show ?thesis by (auto simp: calendar_names_def split: if_splits)
    qed
  qed
qed

lemma canonical_timeframe_shape:
  assumes "canonical_timeframe tf = Inr c"
  obtains (calendar) "c \<in> set calendar_names"
  | (fixed) n u where "u \<in> set ''smh''" and "c = fixed_name n u"
  using canonical_name_cases [OF assms] that by blast

lemma fixed_name_not_calendar:
  "u \<in> set ''smh'' \<Longrightarrow> fixed_name n u \<notin> {''D'', ''1D'', ''1d'', ''W'', ''1W'', ''1w'', ''M'', ''1M''}"
proof
  assume u: "u \<in> set ''smh''" and "fixed_name n u \<in> {''D'', ''1D'', ''1d'', ''W'', ''1W'', ''1w'', ''M'', ''1M''}"
  then have "last (fixed_name n u) \<in> set ''DdWwM''" by auto
  with u show False by (auto simp: fixed_name_def)
qed

lemma strip_fixed_name:
  assumes "u \<in> set ''smh''"
  shows "py_strip (fixed_name n u) = fixed_name n u"
proof (rule py_strip_ends)
  show "\<not> py_isspace (hd (fixed_name n u))"
    using digit_not_space [OF str_of_nat_digit_set [OF hd_in_set [OF str_of_nat_nonempty]], of n]
    by (simp add: fixed_name_def)
  show "\<not> py_isspace (last (fixed_name n u))"
    using assms by (auto simp: fixed_name_def py_isspace_def char_code_def)
qed (simp add: fixed_name_def)

lemma canonical_fixed_name:
  assumes "u \<in> set ''smh''"
  shows "canonical_timeframe (fixed_name n u) = Inr (fixed_name n u)"
proof -
  have "\<not> is_digit u" "char_lower u = u" "u \<noteq> CHR ''d''" "u \<in> set ''smhdSMHD''"
    using assms by (auto simp: is_digit_def char_lower_def char_code_def)
  moreover from this have "\<not> py_isdigit (fixed_name n u)"
    by (simp add: py_isdigit_def fixed_name_def)
  ultimately show ?thesis
    using fixed_name_not_calendar [OF assms, of n]
    by (simp add: canonical_timeframe_def strip_fixed_name [OF assms] match_count_unit_fixed del: set_simps)
      (simp add: fixed_name_def)
qed

lemma canonical_calendar_name:
  assumes "c \<in> set calendar_names"
  shows "canonical_timeframe c = Inr c"
proof -
  have "canonical_timeframe ''1D'' = Inr ''1D''" "canonical_timeframe ''1W'' = Inr ''1W''"
    "canonical_timeframe ''1M'' = Inr ''1M''" by code_simp+
  then show ?thesis using assms by (auto simp: calendar_names_def)
qed

lemma canonical_fixpoint: "canonical_timeframe tf = Inr c \<Longrightarrow> canonical_timeframe c = Inr c"
  by (elim canonical_timeframe_shape) (simp_all only: canonical_calendar_name canonical_fixed_name)

lemma timeframe_ms_fixed:
  assumes "u \<in> set ''smh''"
  shows "timeframe_ms (fixed_name n u) = Inr (int n * the (map_of fixed_units u))"
  using fixed_name_not_calendar [OF assms, of n] match_count_unit_fixed [OF assms, of n]
  by (simp add: timeframe_ms_def canonical_fixed_name [OF assms])

lemma fixed_units_pos: "u \<in> set ''smh'' \<Longrightarrow> 0 < the (map_of fixed_units u)"
  by (auto simp: fixed_units_def)

lemma timeframe_ms_via_canonical:
  "canonical_timeframe tf = Inr c \<Longrightarrow> timeframe_ms tf = timeframe_ms c"
  by (simp add: timeframe_ms_def canonical_fixpoint)

lemma close_time_via_canonical:
  "canonical_timeframe tf = Inr c \<Longrightarrow> close_time_ms t tf = close_time_ms t c"
  by (simp add: close_time_ms_def canonical_fixpoint)

lemma timeframe_ms_never_asserts: "timeframe_ms tf \<noteq> Inl PyAssertionError"
proof
  assume a: "timeframe_ms tf = Inl PyAssertionError"
  show False
  proof (cases "canonical_timeframe tf")
    case (Inl e)
    then have "e \<noteq> PyAssertionError"
      by (auto simp: canonical_timeframe_def Let_def split: if_splits option.splits)
    with Inl a show False by (simp add: timeframe_ms_def)
  next
    case (Inr c)
    then show False
    proof (cases rule: canonical_timeframe_shape)
      case calendar
      then show ?thesis using a Inr by (auto simp: timeframe_ms_def calendar_names_def)
    next
      case fixed
      then show ?thesis using a
        by (simp add: timeframe_ms_via_canonical [OF Inr] timeframe_ms_fixed)
    qed
  qed
qed

subsection \<open>Calendar periods\<close>

text \<open>The first day (counted from the epoch) after the calendar period that holds a given day.\<close>

definition cal_next :: "string \<Rightarrow> int \<Rightarrow> int" where
  "cal_next c D =
     (if c = ''1D'' then D + 1
      else if c = ''1W'' then D - weekday (D + 719163) + 7
      else (case ord2ymd (D + 719163) of
              (y, m, d) \<Rightarrow> ymd2ord (fst (next_month y m)) (snd (next_month y m)) 1 - 719163))"

lemma cal_next_month:
  assumes "ord2ymd (D + 719163) = (y, m, d)" and "c \<noteq> ''1D''" and "c \<noteq> ''1W''"
  shows "cal_next c D = D - d + days_in_month y m + 1" and "1 \<le> d" and "d \<le> days_in_month y m"
    and "1 \<le> m" and "m \<le> 12"
proof -
  note v = ord2ymd_correct [OF assms(1)]
  show m: "1 \<le> d" "d \<le> days_in_month y m" "1 \<le> m" "m \<le> 12" using v(1) by (simp_all add: valid_ymd_def)
  have "ymd2ord (fst (next_month y m)) (snd (next_month y m)) 1 = ymd2ord y m (days_in_month y m) + 1"
    using ymd2ord_month_end [of m y] m by simp
  also have "\<dots> = ymd2ord y m d - d + days_in_month y m + 1" by (simp add: ymd2ord_def)
  finally show "cal_next c D = D - d + days_in_month y m + 1"
    using assms v(2) by (simp add: cal_next_def)
qed

lemma cal_next_gt: "D < cal_next c D"
proof (cases "c = ''1D'' \<or> c = ''1W''")
  case True
  then show ?thesis by (auto simp: cal_next_def weekday_def)
next
  case False
  obtain y m d where "ord2ymd (D + 719163) = (y, m, d)" by (metis prod_cases3)
  from cal_next_month [OF this, of c] False show ?thesis by simp
qed

lemma weekday_step:
  assumes "0 \<le> k" and "k < 7 - weekday n"
  shows "weekday (n + k) = weekday n + k"
proof -
  have "weekday (n + k) = ((n + 6) mod 7 + k) mod 7"
    by (simp add: weekday_def mod_simps) (simp add: algebra_simps)
  also have "\<dots> = (n + 6) mod 7 + k"
    using assms by (intro mod_pos_pos_trivial) (auto simp: weekday_def)
  finally show ?thesis by (simp add: weekday_def)
qed

lemma cal_next_same:
  assumes "D \<le> D'" and "D' < cal_next c D"
  shows "cal_next c D' = cal_next c D"
proof -
  consider "c = ''1D''" | "c = ''1W''" | (month) "c \<noteq> ''1D''" "c \<noteq> ''1W''" by blast
  then show ?thesis
  proof cases
    case 1
    then show ?thesis using assms by (simp add: cal_next_def)
  next
    case 2
    then have "weekday (D + 719163 + (D' - D)) = weekday (D + 719163) + (D' - D)"
      using assms by (intro weekday_step) (auto simp: cal_next_def)
    then show ?thesis using 2 by (simp add: cal_next_def algebra_simps)
  next
    case month
    obtain y m d where o: "ord2ymd (D + 719163) = (y, m, d)" by (metis prod_cases3)
    note n = cal_next_month [OF o month] and v = ord2ymd_correct [OF o]
    have "valid_ymd y m (d + (D' - D))" using n v(1) assms by (simp add: valid_ymd_def)
    moreover have "ymd2ord y m (d + (D' - D)) = D' + 719163" using v(2) by (simp add: ymd2ord_def)
    ultimately have "ord2ymd (D' + 719163) = (y, m, d + (D' - D))" using ord2ymd_ymd2ord by metis
    from cal_next_month(1) [OF this month] n(1) show ?thesis by simp
  qed
qed

lemma dt_Inr:
  assumes "dt t = Inr (y, m, d)"
  shows "valid_ymd y m d" and "ymd2ord y m d = t div day_ms + 719163"
    and "ord2ymd (t div day_ms + 719163) = (y, m, d)"
  using assms by (auto simp: dt_def Let_def dest: ord2ymd_correct split: if_splits)

lemma close_time_calendar:
  assumes "c \<in> set calendar_names" and "dt t = Inr ymd"
  shows "close_time_ms t c = Inr (cal_next c (t div day_ms) * day_ms - 1)"
proof -
  obtain y m d where ymd: "dt t = Inr (y, m, d)" using assms by (metis prod_cases3)
  note d = dt_Inr [OF ymd]
  have month: "ymd2ord y m (days_in_month y m) = cal_next c (t div day_ms) + 719163 - 1"
    if "c \<noteq> ''1D''" "c \<noteq> ''1W''"
    using cal_next_month [OF d(3) that] d(2) by (simp add: ymd2ord_def)
  show ?thesis
    using assms(1) ymd month d(2)
    by (auto simp: close_time_ms_def canonical_calendar_name ms_of_date_def day_ms_def cal_next_def
          calendar_names_def Let_def algebra_simps)
qed

lemma close_time_fixed:
  assumes "u \<in> set ''smh''" and "dt t = Inr ymd"
  shows "close_time_ms t (fixed_name n u) = Inr (t + int n * the (map_of fixed_units u) - 1)"
  using fixed_name_not_calendar [OF assms(1), of n] assms(2)
  by (cases ymd) (simp add: close_time_ms_def canonical_fixed_name [OF assms(1)] timeframe_ms_fixed [OF assms(1)])

lemma close_time_dt: "close_time_ms t tf = Inr e \<Longrightarrow> \<exists>ymd. dt t = Inr ymd"
  by (auto simp: close_time_ms_def res_simps)

lemma close_time_canonical: "close_time_ms t tf = Inr e \<Longrightarrow> \<exists>c. canonical_timeframe tf = Inr c"
  by (auto simp: close_time_ms_def res_simps)

lemma before_period_end:
  fixes t F :: int
  shows "t \<le> F * day_ms - 1 \<longleftrightarrow> t div day_ms < F"
proof -
  have eq: "t = t div day_ms * day_ms + t mod day_ms" by simp
  have r: "0 \<le> t mod day_ms" "t mod day_ms < day_ms" by (simp_all add: day_ms_def)
  have "t div day_ms < F \<Longrightarrow> t div day_ms * day_ms + day_ms \<le> F * day_ms"
    using mult_right_mono [of "t div day_ms + 1" F day_ms] by (simp add: day_ms_def algebra_simps)
  moreover have "F \<le> t div day_ms \<Longrightarrow> F * day_ms \<le> t div day_ms * day_ms"
    by (intro mult_right_mono) (simp_all add: day_ms_def)
  ultimately show ?thesis using eq r by linarith
qed

lemma close_time_ge_open:
  assumes "close_time_ms t tf = Inr e" and "timeframe_ms tf \<noteq> Inr 0"
  shows "t \<le> e"
proof -
  obtain c ymd where c: "canonical_timeframe tf = Inr c" and d: "dt t = Inr ymd"
    using close_time_canonical close_time_dt assms(1) by blast
  have cl: "close_time_ms t c = Inr e" and ms: "timeframe_ms c \<noteq> Inr 0"
    using assms by (simp_all add: close_time_via_canonical [OF c] timeframe_ms_via_canonical [OF c])
  from c show ?thesis
  proof (cases rule: canonical_timeframe_shape)
    case calendar
    then have "e = cal_next c (t div day_ms) * day_ms - 1" using close_time_calendar d cl by simp
    then show ?thesis using cal_next_gt before_period_end by blast
  next
    case (fixed n u)
    then have "0 < int n * the (map_of fixed_units u)"
      using ms fixed_units_pos [of u] by (auto simp: timeframe_ms_fixed)
    with close_time_fixed [OF fixed(1) d, of n] cl fixed(2) show ?thesis by simp
  qed
qed

text \<open>
  Canonicalisation is idempotent: the name \<open>canonical_timeframe\<close> returns is accepted again
  and returned unchanged, so callers may canonicalise at every layer.
\<close>

theorem canonical_timeframe_idem:
  assumes "canonical_timeframe tf = Inr c"
  shows "canonical_timeframe c = Inr c \<and> timeframe_ms c = timeframe_ms tf \<and>
         close_time_ms t c = close_time_ms t tf"
  using canonical_fixpoint [OF assms] timeframe_ms_via_canonical [OF assms]
    close_time_via_canonical [OF assms, of t] by simp

theorem canonical_timeframe_idem_witness:
  "canonical_timeframe '' 060M '' = Inr ''60m'' \<and> canonical_timeframe ''60m'' = Inr ''60m'' \<and>
   close_time_ms 0 ''60m'' = close_time_ms 0 '' 060M ''"
proof -
  have c: "canonical_timeframe '' 060M '' = Inr ''60m''" by code_simp
  then show ?thesis using canonical_timeframe_idem [OF c, of 0] by simp
qed

text \<open>
  C40. Calendar bars tile the time line. For the daily, weekly and monthly timeframes the close
  time of a bar is not before its open; every later instant of the calendar range up to that
  close has the same close time, and every instant after it closes strictly later.
\<close>

theorem calendar_close_time_tiles:
  assumes "c \<in> set calendar_names" and "close_time_ms t c = Inr e"
    and "t \<le> t'" and "close_time_ms t' c = Inr e'"
  shows "t \<le> e \<and> (t' \<le> e \<longrightarrow> e' = e) \<and> (e < t' \<longrightarrow> e < e')"
proof -
  obtain ymd ymd' where d: "dt t = Inr ymd" "dt t' = Inr ymd'"
    using close_time_dt assms by blast
  have e: "e = cal_next c (t div day_ms) * day_ms - 1" "e' = cal_next c (t' div day_ms) * day_ms - 1"
    using close_time_calendar [OF assms(1) d(1)] close_time_calendar [OF assms(1) d(2)] assms by simp_all
  have le: "t div day_ms \<le> t' div day_ms"
    using assms(3) by (intro zdiv_mono1) (simp_all add: day_ms_def)
  have "t \<le> e" "t' \<le> e'" using e cal_next_gt before_period_end by blast+
  moreover have "e' = e" if "t' \<le> e"
    using cal_next_same [OF le, of c] that e before_period_end by simp
  ultimately show ?thesis by auto
qed

theorem calendar_close_time_tiles_witness:
  "close_time_ms 1709164800000 ''1M'' = Inr 1709251199999 \<and>
   close_time_ms 1709251199999 ''1M'' = Inr 1709251199999 \<and>
   (1709164800000::int) \<le> 1709251199999"
proof -
  have a: "close_time_ms 1709164800000 ''1M'' = Inr 1709251199999" by code_simp
  have b: "close_time_ms 1709251199999 ''1M'' = Inr 1709251199999" by code_simp
  have m: "''1M'' \<in> set calendar_names" by (simp add: calendar_names_def)
  show ?thesis using calendar_close_time_tiles [OF m a _ b] a b by simp
qed

text \<open>
  A monthly bar ends where the next month begins: the open time after a bar that starts in
  month \<open>m\<close> of year \<open>y\<close> is midnight of the first day of the following month (January of the
  next year after December), and the instant lies in its own month.
\<close>

theorem monthly_next_open:
  assumes "dt t = Inr (y, m, d)"
  shows "next_open_time_ms t ''1M'' =
           Inr (ms_of_date (if m = 12 then y + 1 else y) (if m = 12 then 1 else m + 1) 1) \<and>
         ms_of_date y m 1 \<le> t"
proof
  note v = dt_Inr [OF assms]
  have m: "''1M'' \<in> set calendar_names" by (simp add: calendar_names_def)
  show "next_open_time_ms t ''1M'' =
           Inr (ms_of_date (if m = 12 then y + 1 else y) (if m = 12 then 1 else m + 1) 1)"
    using close_time_calendar [OF m assms] v(3)
    by (simp add: next_open_time_ms_def cal_next_def ms_of_date_def next_month_def)
  have "ymd2ord y m 1 \<le> t div day_ms + 719163" using v by (simp add: valid_ymd_def ymd2ord_def)
  then have "(ymd2ord y m 1 - 719163) * day_ms \<le> t div day_ms * day_ms"
    by (intro mult_right_mono) (simp_all add: day_ms_def)
  also have "\<dots> \<le> t" using div_mult_mod_eq [of t day_ms] pos_mod_sign [of day_ms t] by (simp add: day_ms_def)
  finally show "ms_of_date y m 1 \<le> t" by (simp add: ms_of_date_def)
qed

theorem monthly_next_open_witness:
  "dt 1735603200000 = Inr (2024, 12, 31) \<and>
   next_open_time_ms 1735603200000 ''1M'' = Inr (ms_of_date 2025 1 1) \<and> ms_of_date 2025 1 1 = 1735689600000"
proof -
  have d: "dt 1735603200000 = Inr (2024, 12, 31)" by code_simp
  have "ms_of_date 2025 1 1 = 1735689600000" by code_simp
  with monthly_next_open [OF d] d show ?thesis by simp
qed

text \<open>
  The pagination cursor makes progress. With a timeframe whose fixed width is not zero, a
  page whose last bar opens at or after the cursor never stalls: \<open>next_cursor\<close> returns a cursor
  strictly beyond the last bar and the old cursor.
\<close>

theorem next_cursor_progress:
  assumes "next_open_time_ms lst tf = Inr nxt" and "timeframe_ms tf \<noteq> Inr 0" and "cur \<le> lst"
  shows "next_cursor lst tf cur = Inr nxt \<and> lst < nxt \<and> cur < nxt"
proof -
  have "lst \<le> nxt - 1"
    using assms(1,2) by (intro close_time_ge_open) (auto simp: next_open_time_ms_def res_simps)
  with assms show ?thesis by (simp add: next_cursor_def)
qed

theorem next_cursor_progress_witness:
  "next_cursor 1700000000000 ''5m'' 1699999700000 = Inr 1700000300000"
proof -
  have n: "next_open_time_ms 1700000000000 ''5m'' = Inr 1700000300000" by code_simp
  have w: "timeframe_ms ''5m'' = Inr 300000" by code_simp
  show ?thesis using next_cursor_progress [OF n] w by simp
qed

end
