(* ===== verification/PyFloat.thy ===== *)
theory PyFloat
  imports Prelude
begin

section \<open>Python floats\<close>

text \<open>
  A Python \<open>float\<close> is an IEEE-754 binary64 value, here its 64 bits as a word. Comparisons are
  false on NaN and otherwise compare signed magnitudes (so the two zeros are equal). Sum,
  difference, product and quotient are computed exactly, in units of \<open>2 ^ - 1074\<close> (the
  least subnormal), and rounded once to nearest, ties to even. \<open>max\<close> and \<open>min\<close> of two
  arguments follow the interpreter: the second argument wins only if it compares strictly
  greater (smaller).
\<close>

type_synonym float64 = "64 word"

subsection \<open>Classes of values\<close>

definition inf_mag :: int where
  "inf_mag = 9218868437227405312"

definition sign_bit :: int where
  "sign_bit = 9223372036854775808"

definition f_neg :: "float64 \<Rightarrow> bool" where
  "f_neg w \<longleftrightarrow> sign_bit \<le> uint w"

definition f_mag :: "float64 \<Rightarrow> int" where
  "f_mag w = (if f_neg w then uint w - sign_bit else uint w)"

definition f_isnan :: "float64 \<Rightarrow> bool" where
  "f_isnan w \<longleftrightarrow> inf_mag < f_mag w"

definition f_isinf :: "float64 \<Rightarrow> bool" where
  "f_isinf w \<longleftrightarrow> f_mag w = inf_mag"

definition f_isfinite :: "float64 \<Rightarrow> bool" where
  "f_isfinite w \<longleftrightarrow> f_mag w < inf_mag"

definition f_key :: "float64 \<Rightarrow> int" where
  "f_key w = (if f_neg w then - f_mag w else f_mag w)"

subsection \<open>Comparison\<close>

definition f_lt :: "float64 \<Rightarrow> float64 \<Rightarrow> bool" where
  "f_lt a b \<longleftrightarrow> \<not> f_isnan a \<and> \<not> f_isnan b \<and> f_key a < f_key b"

definition f_le :: "float64 \<Rightarrow> float64 \<Rightarrow> bool" where
  "f_le a b \<longleftrightarrow> \<not> f_isnan a \<and> \<not> f_isnan b \<and> f_key a \<le> f_key b"

definition f_eq :: "float64 \<Rightarrow> float64 \<Rightarrow> bool" where
  "f_eq a b \<longleftrightarrow> \<not> f_isnan a \<and> \<not> f_isnan b \<and> f_key a = f_key b"

definition f_max :: "float64 \<Rightarrow> float64 \<Rightarrow> float64" where
  "f_max a b = (if f_lt a b then b else a)"

definition f_min :: "float64 \<Rightarrow> float64 \<Rightarrow> float64" where
  "f_min a b = (if f_lt b a then b else a)"

definition f_zero :: float64 where
  "f_zero = 0"

definition f_truthy :: "float64 \<Rightarrow> bool" where
  "f_truthy w \<longleftrightarrow> f_mag w \<noteq> 0"

subsection \<open>Arithmetic\<close>

definition f_make :: "bool \<Rightarrow> int \<Rightarrow> float64" where
  "f_make neg m = word_of_int (if neg then m + sign_bit else m)"

definition f_nan :: float64 where
  "f_nan = word_of_int 9221120237041090560"

text \<open>A finite magnitude as \<open>m * 2 ^ x\<close> units of \<open>2 ^ - 1074\<close>.\<close>

definition f_parts :: "float64 \<Rightarrow> int \<times> int" where
  "f_parts w =
     (let e = f_mag w div 2 ^ 52; f = f_mag w mod 2 ^ 52
      in if e = 0 then (f, 0) else (2 ^ 52 + f, e - 1))"

definition f_signed :: "float64 \<Rightarrow> int" where
  "f_signed w = (if f_neg w then - fst (f_parts w) else fst (f_parts w))"

function bit_len :: "int \<Rightarrow> int" where
  "bit_len n = (if n \<le> 0 then 0 else 1 + bit_len (n div 2))"
  by auto
termination by (relation "measure nat") auto

declare bit_len.simps [simp del]

definition round_half_even :: "int \<Rightarrow> int \<Rightarrow> int" where
  "round_half_even n d =
     (let q = n div d; r = n mod d
      in if 2 * r < d then q else if d < 2 * r then q + 1 else if even q then q else q + 1)"

text \<open>The magnitude bits nearest to \<open>n / d * 2 ^ x\<close> units, infinity on overflow.\<close>

definition round_mag :: "int \<Rightarrow> int \<Rightarrow> int \<Rightarrow> int" where
  "round_mag n d x =
     (let k = max (bit_len (n div d) - 53) (- x);
          q = (if 0 \<le> k then round_half_even n (d * 2 ^ nat k) else round_half_even (n * 2 ^ nat (- k)) d);
          bits = (k + x) * 2 ^ 52 + q
      in if inf_mag \<le> bits then inf_mag else bits)"

definition f_add :: "float64 \<Rightarrow> float64 \<Rightarrow> float64" where
  "f_add a b =
     (if f_isnan a \<or> f_isnan b then f_nan
      else if f_isinf a then (if f_isinf b \<and> f_neg a \<noteq> f_neg b then f_nan else a)
      else if f_isinf b then b
      else (let xa = snd (f_parts a); xb = snd (f_parts b); x = min xa xb;
                s = f_signed a * 2 ^ nat (xa - x) + f_signed b * 2 ^ nat (xb - x)
            in if s = 0 then f_make (f_neg a \<and> f_neg b) 0
               else f_make (s < 0) (round_mag \<bar>s\<bar> 1 x)))"

definition f_negate :: "float64 \<Rightarrow> float64" where
  "f_negate a = f_make (\<not> f_neg a) (f_mag a)"

definition f_sub :: "float64 \<Rightarrow> float64 \<Rightarrow> float64" where
  "f_sub a b = f_add a (f_negate b)"

definition f_mul :: "float64 \<Rightarrow> float64 \<Rightarrow> float64" where
  "f_mul a b =
     (let neg = (f_neg a \<noteq> f_neg b) in
      if f_isnan a \<or> f_isnan b then f_nan
      else if f_isinf a \<or> f_isinf b then
        (if f_mag a = 0 \<or> f_mag b = 0 then f_nan else f_make neg inf_mag)
      else f_make neg (round_mag (fst (f_parts a) * fst (f_parts b)) 1
                         (snd (f_parts a) + snd (f_parts b) - 1074)))"

text \<open>
  Division raises on a zero divisor. The numerator is scaled by \<open>2 ^ 110\<close> so that the integer
  quotient keeps more than the 53 bits of the result.
\<close>

definition f_div :: "float64 \<Rightarrow> float64 \<Rightarrow> float64 res" where
  "f_div a b =
     (let neg = (f_neg a \<noteq> f_neg b) in
      if f_mag b = 0 then Inl (PyZeroDivisionError ''float division by zero'')
      else if f_isnan a \<or> f_isnan b then Inr f_nan
      else if f_isinf a then Inr (if f_isinf b then f_nan else f_make neg inf_mag)
      else if f_isinf b then Inr (f_make neg 0)
      else Inr (f_make neg (round_mag (fst (f_parts a) * 2 ^ 110) (fst (f_parts b))
                              (snd (f_parts a) - snd (f_parts b) + 964))))"

text \<open>\<open>float(n)\<close>; integers of 1024 bits and more, where Python raises, do not occur.\<close>

definition f_of_int :: "int \<Rightarrow> float64" where
  "f_of_int n = f_make (n < 0) (round_mag \<bar>n\<bar> 1 1074)"

text \<open>\<open>math.floor\<close> raises on NaN and on the infinities.\<close>

definition f_floor :: "float64 \<Rightarrow> int res" where
  "f_floor a =
     (if f_isnan a then Inl (PyValueError ''cannot convert float NaN to integer'')
      else if f_isinf a then Inl (PyOverflowError ''cannot convert float infinity to integer'')
      else (let s = snd (f_parts a) - 1074
            in Inr (if 0 \<le> s then f_signed a * 2 ^ nat s else f_signed a div 2 ^ nat (- s))))"

text \<open>\<open>int(x)\<close> truncates towards zero.\<close>

definition f_int :: "float64 \<Rightarrow> int res" where
  "f_int a =
     (if f_isnan a then Inl (PyValueError ''cannot convert float NaN to integer'')
      else if f_isinf a then Inl (PyOverflowError ''cannot convert float infinity to integer'')
      else (let s = snd (f_parts a) - 1074; m = fst (f_parts a);
                n = (if 0 \<le> s then m * 2 ^ nat s else m div 2 ^ nat (- s))
            in Inr (if f_neg a then - n else n)))"

subsection \<open>Text form\<close>

text \<open>
  \<open>repr(x)\<close>: the shortest decimal that reads back as \<open>x\<close>, the nearest one if several have
  that length; positional notation for decimal exponents from -4 to 15, scientific
  notation outside. \<open>float(s)\<close> of a decimal literal rounds the exact rational value once.
\<close>

text \<open>The magnitude bits nearest to the positive rational \<open>n / d\<close>.\<close>

definition mag_of_ratio :: "int \<Rightarrow> int \<Rightarrow> int" where
  "mag_of_ratio n d = (let s = 64 + bit_len d in round_mag (n * 2 ^ nat s) d (1074 - s))"

definition mag_of_dec :: "int \<Rightarrow> int \<Rightarrow> int" where
  "mag_of_dec D k =
     (if D = 0 then 0
      else if 0 \<le> k then mag_of_ratio (D * 10 ^ nat k) 1 else mag_of_ratio D (10 ^ nat (- k)))"

text \<open>A finite magnitude as a fraction.\<close>

definition f_ratio :: "float64 \<Rightarrow> int \<times> int" where
  "f_ratio w = (case f_parts w of (m, x) \<Rightarrow>
     if 1074 \<le> x then (m * 2 ^ nat (x - 1074), 1) else (m, 2 ^ nat (1074 - x)))"

text \<open>The decimal point \<open>p\<close> with \<open>10 ^ (p - 1) <= n / d < 10 ^ p\<close>.\<close>

fun leading_zeros :: "nat \<Rightarrow> int \<Rightarrow> int \<Rightarrow> int" where
  "leading_zeros 0 n d = 0"
| "leading_zeros (Suc fuel) n d = (if d \<le> n * 10 then 0 else 1 + leading_zeros fuel (n * 10) d)"

definition decimal_point :: "int \<Rightarrow> int \<Rightarrow> int" where
  "decimal_point n d = (if d \<le> n then int (length (int_digits (n div d))) else - leading_zeros 330 n d)"

text \<open>A decimal of \<open>j\<close> digits that reads back as the magnitude \<open>mag\<close>.\<close>

definition try_digits :: "int \<Rightarrow> int \<Rightarrow> int \<Rightarrow> int \<Rightarrow> nat \<Rightarrow> int option" where
  "try_digits mag n d p j =
     (let k = int j - p;
          n' = (if 0 \<le> k then n * 10 ^ nat k else n);
          d' = (if 0 \<le> k then d else d * 10 ^ nat (- k));
          lo = n' div d'; r = n' mod d';
          ok_lo = (mag_of_dec lo (- k) = mag); ok_hi = (mag_of_dec (lo + 1) (- k) = mag)
      in if ok_lo \<and> (\<not> ok_hi \<or> 2 * r < d' \<or> 2 * r = d' \<and> even lo) then Some lo
         else if ok_hi then Some (lo + 1) else None)"

fun first_digits :: "(nat \<Rightarrow> int option) \<Rightarrow> nat list \<Rightarrow> (nat \<times> int) option" where
  "first_digits f [] = None"
| "first_digits f (j # js) = (case f j of Some D \<Rightarrow> Some (j, D) | None \<Rightarrow> first_digits f js)"

definition format_digits :: "string \<Rightarrow> int \<Rightarrow> string" where
  "format_digits ds p =
     (if -4 < p \<and> p \<le> 16 then
        (if p \<le> 0 then ''0.'' @ replicate (nat (- p)) CHR ''0'' @ ds
         else if int (length ds) \<le> p then ds @ replicate (nat p - length ds) CHR ''0'' @ ''.0''
         else take (nat p) ds @ ''.'' @ drop (nat p) ds)
      else (let e = p - 1; es = int_digits \<bar>e\<bar> in
        take 1 ds @ (if 1 < length ds then ''.'' @ drop 1 ds else []) @ ''e'' @
        (if e < 0 then ''-'' else ''+'') @ (if length es < 2 then ''0'' @ es else es)))"

definition f_repr :: "float64 \<Rightarrow> string" where
  "f_repr w =
     (if f_isnan w then ''nan''
      else (if f_neg w then ''-'' else []) @
        (if f_isinf w then ''inf''
         else if f_mag w = 0 then ''0.0''
         else (case f_ratio w of (n, d) \<Rightarrow>
           (let p = decimal_point n d in
            case first_digits (try_digits (f_mag w) n d p) [1..<18] of
              None \<Rightarrow> []
            | Some (j, D) \<Rightarrow>
                (if D = 10 ^ j then format_digits ''1'' (p + 1)
                 else format_digits (int_digits D) p)))))"

text \<open>Reading a decimal literal: integer part, fraction, exponent.\<close>

definition split_at :: "string \<Rightarrow> string \<Rightarrow> string \<times> string option" where
  "split_at seps s =
     (let a = takeWhile (\<lambda>c. c \<notin> set seps) s; b = dropWhile (\<lambda>c. c \<notin> set seps) s
      in (a, case b of [] \<Rightarrow> None | _ # t \<Rightarrow> Some t))"

definition exponent_of :: "string option \<Rightarrow> int option" where
  "exponent_of e =
     (case e of None \<Rightarrow> Some 0
      | Some t \<Rightarrow>
          (let neg = (t \<noteq> [] \<and> hd t = CHR ''-''); u = (if t \<noteq> [] \<and> hd t \<in> set ''+-'' then tl t else t)
           in if py_isdigit u then Some (if neg then - int_of_digits u else int_of_digits u) else None))"

definition mag_of_text :: "string \<Rightarrow> int option" where
  "mag_of_text s =
     (if py_lower s = ''nan'' then Some (uint f_nan)
      else if py_lower s = ''inf'' \<or> py_lower s = ''infinity'' then Some inf_mag
      else (let me = split_at ''eE'' s; fr = split_at ''.'' (fst me);
                whole = fst fr; frac = (case snd fr of None \<Rightarrow> [] | Some t \<Rightarrow> t)
            in if py_isdigit (whole @ frac) then
                 (case exponent_of (snd me) of None \<Rightarrow> None
                  | Some e \<Rightarrow> Some (mag_of_dec (int_of_digits (whole @ frac)) (e - int (length frac))))
               else None))"

definition py_float :: "string \<Rightarrow> float64 res" where
  "py_float s =
     (let t = py_strip s;
          neg = (t \<noteq> [] \<and> hd t = CHR ''-'');
          u = (if t \<noteq> [] \<and> hd t \<in> set ''+-'' then tl t else t)
      in case mag_of_text u of
           None \<Rightarrow> Inl (PyValueError ''could not convert string to float: '')
         | Some m \<Rightarrow> Inr (f_make neg m))"

text \<open>The values whose text reads back; every value that occurs is expected to, and it is decidable for each.\<close>

definition f_text_ok :: "float64 \<Rightarrow> bool" where
  "f_text_ok w \<longleftrightarrow> py_float (f_repr w) = Inr w"

subsection \<open>Order facts\<close>

lemma f_mag_bounds: "0 \<le> f_mag w \<and> f_mag w < sign_bit"
  using uint_bounded [of w] by (simp add: f_mag_def f_neg_def sign_bit_def)

lemma f_lt_irrefl [simp]: "\<not> f_lt a a"
  by (simp add: f_lt_def)

lemma f_lt_nan [simp]: "f_isnan a \<Longrightarrow> \<not> f_lt a b" "f_isnan b \<Longrightarrow> \<not> f_lt a b"
  by (simp_all add: f_lt_def)

lemma f_lt_asym: "f_lt a b \<Longrightarrow> \<not> f_lt b a"
  by (simp add: f_lt_def)

lemma f_le_trans: "f_le a b \<Longrightarrow> f_le b c \<Longrightarrow> f_le a c"
  by (auto simp: f_le_def)

lemma not_f_lt: "\<not> f_isnan a \<Longrightarrow> \<not> f_isnan b \<Longrightarrow> \<not> f_lt a b \<longleftrightarrow> f_le b a"
  by (auto simp: f_lt_def f_le_def)

text \<open>For a bound that is not NaN, the test \<open>high < max(open, close)\<close> fails iff both are below.\<close>

lemma not_lt_max:
  assumes "\<not> f_isnan h" "\<not> f_isnan a" "\<not> f_isnan b"
  shows "\<not> f_lt h (f_max a b) \<longleftrightarrow> f_le a h \<and> f_le b h"
  using assms by (auto simp: f_max_def f_lt_def f_le_def)

lemma not_gt_min:
  assumes "\<not> f_isnan l" "\<not> f_isnan a" "\<not> f_isnan b"
  shows "\<not> f_lt (f_min a b) l \<longleftrightarrow> f_le l a \<and> f_le l b"
  using assms by (auto simp: f_min_def f_lt_def f_le_def)

subsection \<open>Rounding stays in range\<close>

lemma f_make_mag: "0 \<le> m \<Longrightarrow> m < sign_bit \<Longrightarrow> f_mag (f_make neg m) = m"
  by (auto simp: f_make_def f_mag_def f_neg_def sign_bit_def uint_word_of_int take_bit_int_eq_self)

lemma f_make_neg: "0 \<le> m \<Longrightarrow> m < sign_bit \<Longrightarrow> f_neg (f_make neg m) = neg"
  by (auto simp: f_make_def f_neg_def sign_bit_def uint_word_of_int take_bit_int_eq_self)

lemma bit_len_nonneg: "0 \<le> bit_len n"
  by (induction n rule: bit_len.induct) (subst bit_len.simps, auto)

lemma round_half_even_nonneg: "0 \<le> n \<Longrightarrow> 0 < d \<Longrightarrow> 0 \<le> round_half_even n d"
  by (auto simp: round_half_even_def Let_def pos_imp_zdiv_nonneg_iff add_nonneg_nonneg)

lemma round_mag_range:
  assumes "0 \<le> n" and "0 < d"
  shows "0 \<le> round_mag n d x \<and> round_mag n d x \<le> inf_mag"
proof -
  define k where "k = max (bit_len (n div d) - 53) (- x)"
  have "0 \<le> k + x" by (simp add: k_def max_def)
  then have "0 \<le> (k + x) * 2 ^ 52" by (intro mult_nonneg_nonneg) simp_all
  moreover have "0 \<le> round_half_even n (d * 2 ^ nat k)" "0 \<le> round_half_even (n * 2 ^ nat (- k)) d"
    using assms by (simp_all add: round_half_even_nonneg)
  ultimately show ?thesis
    by (simp add: round_mag_def Let_def k_def [symmetric] inf_mag_def)
qed

lemma round_make_not_nan: "0 \<le> n \<Longrightarrow> 0 < d \<Longrightarrow> \<not> f_isnan (f_make neg (round_mag n d x))"
  using round_mag_range [of n d x] by (simp add: f_isnan_def f_make_mag inf_mag_def sign_bit_def)

lemma f_parts_nonneg: "0 \<le> fst (f_parts w)"
  using f_mag_bounds [of w] by (auto simp: f_parts_def Let_def)

lemma f_of_int_not_nan: "\<not> f_isnan (f_of_int n)"
  by (simp add: f_of_int_def round_make_not_nan)

lemma f_mul_not_nan:
  assumes "\<not> f_isnan a" and "f_isfinite b" and "f_mag b \<noteq> 0"
  shows "\<not> f_isnan (f_mul a b)"
proof -
  have "\<not> f_isnan (f_make neg inf_mag)" for neg by (simp add: f_isnan_def f_make_mag inf_mag_def sign_bit_def)
  moreover have "f_isinf a \<Longrightarrow> f_mag a \<noteq> 0" by (simp add: f_isinf_def inf_mag_def)
  ultimately show ?thesis
    using assms f_parts_nonneg
    by (auto simp: f_mul_def Let_def f_isinf_def f_isnan_def [of b] f_isfinite_def round_make_not_nan)
qed

subsection \<open>Integers below \<open>2 ^ 53\<close> are exact\<close>

lemma bit_len_bounds: "0 < n \<Longrightarrow> 1 \<le> bit_len n \<and> 2 ^ nat (bit_len n - 1) \<le> n \<and> n < 2 ^ nat (bit_len n)"
proof (induction n rule: bit_len.induct)
  case (1 n)
  show ?case
  proof (cases "n = 1")
    case True
    then show ?thesis by (simp add: bit_len.simps)
  next
    case False
    define h where "h = n div 2"
    define l where "l = nat (bit_len h - 1)"
    have h: "0 < h" "2 * h \<le> n" "n < 2 * h + 2" using "1.prems" False by (auto simp: h_def)
    have "\<not> n \<le> 0" using "1.prems" by simp
    note IH = "1.IH" [OF this, folded h_def, OF h(1)]
    have hl: "bit_len h = int l + 1" using IH by (simp add: l_def)
    have eq: "bit_len n = int l + 2"
      using \<open>\<not> n \<le> 0\<close> by (subst bit_len.simps) (simp add: h_def [symmetric] hl)
    have e: "nat (bit_len h - 1) = l" "nat (bit_len h) = Suc l" "nat (bit_len n - 1) = Suc l" "nat (bit_len n) = Suc (Suc l)"
      by (simp_all add: hl eq nat_eq_iff)
    show ?thesis using IH h unfolding e by (simp add: eq)
  qed
qed

lemma bit_len_shift: "0 < n \<Longrightarrow> bit_len (n * 2 ^ j) = bit_len n + int j"
proof (induction j)
  case (Suc j)
  have "bit_len (n * 2 ^ Suc j) = 1 + bit_len (n * 2 ^ Suc j div 2)"
  proof -
    have "0 < n * 2 ^ Suc j" using Suc.prems by simp
    then show ?thesis by (subst bit_len.simps) (simp only: linorder_not_less [symmetric] if_False not_True_eq_False)
  qed
  also have "n * 2 ^ Suc j div 2 = n * 2 ^ j" by simp
  finally show ?case using Suc by simp
qed simp

lemma round_half_even_exact: "0 < d \<Longrightarrow> round_half_even (n * d) d = n"
  by (simp add: round_half_even_def)

text \<open>The magnitude of an integer of at most 53 bits, and what its parts are.\<close>

lemma exact_int_parts:
  assumes n: "0 < n" "n < 2 ^ 53" and w: "f_mag w = mag_of_ratio n 1"
  shows "f_isfinite w" and "f_parts w = (n * 2 ^ nat (53 - bit_len n), bit_len n + 1021)"
proof -
  define b where "b = nat (bit_len n)"
  note bl = bit_len_bounds [OF n(1)]
  have bi: "bit_len n = int b" using bl by (simp add: b_def)
  have b1: "1 \<le> b" using bl bi by linarith
  have lo: "2 ^ (b - 1) \<le> n" and hi: "n < 2 ^ b"
  proof -
    have "nat (bit_len n - 1) = b - 1" using bi by linarith
    then show "2 ^ (b - 1) \<le> n" "n < 2 ^ b" using bl by (simp_all add: b_def)
  qed
  have b53: "b \<le> 53"
  proof (rule ccontr)
    assume "\<not> b \<le> 53"
    then have "(2::int) ^ 53 \<le> 2 ^ (b - 1)" by (intro power_increasing) auto
    also have "\<dots> \<le> n" by (rule lo)
    finally show False using n by simp
  qed
  define q where "q = n * 2 ^ (53 - b)"
  have q_lo: "2 ^ 52 \<le> q"
  proof -
    have "(2::int) ^ 52 = 2 ^ (b - 1) * 2 ^ (53 - b)" using b1 b53 by (simp flip: power_add)
    also have "\<dots> \<le> q" unfolding q_def using lo by (intro mult_right_mono) simp_all
    finally show ?thesis .
  qed
  have q_hi: "q < 2 ^ 53"
  proof -
    have "q < 2 ^ b * 2 ^ (53 - b)" unfolding q_def using hi by (intro mult_strict_right_mono) simp_all
    also have "\<dots> = 2 ^ 53" using b53 by (simp flip: power_add)
    finally show ?thesis .
  qed
  have len: "bit_len (n * 2 ^ 65) = int b + 65" using bit_len_shift [OF n(1), of 65] by (simp add: bi)
  have one: "bit_len 1 = 1" by (simp add: bit_len.simps)
  have scale: "n * 2 ^ 65 = q * 2 ^ (b + 12)"
    using b53 by (simp add: q_def mult.assoc flip: power_add)
  have rhe: "round_half_even (n * 2 ^ 65) (1 * 2 ^ nat (int b + 12)) = q"
    using round_half_even_exact [of "2 ^ (b + 12)" q] by (simp only: scale nat_int_add) (simp add: nat_add_distrib)
  have mag: "mag_of_ratio n 1 = (int b + 1021) * 2 ^ 52 + q"
  proof -
    have bits: "(int b + 12 + 1009) * 2 ^ 52 + q < inf_mag"
      using q_hi b53 by (simp add: inf_mag_def)
    have k: "max (int b + 65 - 53) (- 1009) = int b + 12" by simp
    have "mag_of_ratio n 1 = round_mag (n * 2 ^ 65) 1 1009" by (simp add: mag_of_ratio_def one)
    also have "\<dots> = (int b + 12 + 1009) * 2 ^ 52 + q"
      using bits by (simp only: round_mag_def Let_def div_by_1 len k rhe) simp
    finally show ?thesis by simp
  qed
  show "f_isfinite w" using w mag q_hi b53 by (simp add: f_isfinite_def inf_mag_def)
  have e: "f_mag w div 2 ^ 52 = int b + 1022" "f_mag w mod 2 ^ 52 = q - 2 ^ 52"
  proof -
    have eq: "f_mag w = (int b + 1022) * 2 ^ 52 + (q - 2 ^ 52)" using w mag by simp
    show "f_mag w div 2 ^ 52 = int b + 1022"
      unfolding eq using q_lo q_hi by (intro int_div_pos_eq [where r = "q - 2 ^ 52"]) auto
    show "f_mag w mod 2 ^ 52 = q - 2 ^ 52"
      unfolding eq using q_lo q_hi by (intro int_mod_pos_eq [where q = "int b + 1022"]) auto
  qed
  show "f_parts w = (n * 2 ^ nat (53 - bit_len n), bit_len n + 1021)"
  proof -
    have "nat (53 - int b) = 53 - b" using b53 by linarith
    then show ?thesis using e by (simp only: f_parts_def Let_def) (simp add: bi q_def)
  qed
qed

lemma exact_int_trunc:
  assumes "0 \<le> n" and "n < 2 ^ 53" and "w = f_make neg (if n = 0 then 0 else mag_of_ratio n 1)"
  shows "f_int w = Inr (if neg then - n else n)"
proof (cases "n = 0")
  case True
  then have "f_mag w = 0" using assms by (simp add: f_make_mag sign_bit_def)
  then show ?thesis using True
    by (simp add: f_int_def f_isnan_def f_isinf_def inf_mag_def f_parts_def)
next
  case False
  have mr: "0 \<le> mag_of_ratio n 1" "mag_of_ratio n 1 < sign_bit"
  proof -
    have "0 \<le> n * 2 ^ nat (64 + bit_len 1)" using assms(1) by simp
    note r = round_mag_range [OF this zero_less_one, of "1074 - (64 + bit_len 1)"]
    show "0 \<le> mag_of_ratio n 1" using r by (simp only: mag_of_ratio_def Let_def)
    have "inf_mag < sign_bit" by (simp add: inf_mag_def sign_bit_def)
    with r show "mag_of_ratio n 1 < sign_bit" unfolding mag_of_ratio_def Let_def by linarith
  qed
  have w: "f_mag w = mag_of_ratio n 1" "f_neg w = neg"
    using assms(3) False mr by (simp_all add: f_make_mag f_make_neg)
  have n: "0 < n" using False assms(1) by simp
  note p = exact_int_parts [OF n assms(2) w(1)]
  define b where "b = nat (53 - bit_len n)"
  have "bit_len n \<le> 53"
  proof (rule ccontr)
    assume "\<not> bit_len n \<le> 53"
    then have "(2::int) ^ 53 \<le> 2 ^ nat (bit_len n - 1)" by (intro power_increasing) auto
    then show False using bit_len_bounds [OF n] assms(2) by linarith
  qed
  then have s: "bit_len n + 1021 - 1074 = - int b" by (simp add: b_def)
  have "(if 0 \<le> - int b then n * 2 ^ b * 2 ^ nat (- int b) else n * 2 ^ b div 2 ^ nat (- (- int b))) = n"
    by (cases "b = 0") simp_all
  then show ?thesis
    using p(1) w(2) unfolding f_int_def p(2) fst_conv snd_conv b_def [symmetric] s Let_def
    by (simp add: f_isfinite_def f_isnan_def f_isinf_def)
qed

text \<open>\<open>int(float(str(n)))\<close>: the way persisted integers are read.\<close>

lemma takeWhile_all: "(\<And>c. c \<in> set s \<Longrightarrow> P c) \<Longrightarrow> takeWhile P s = s \<and> dropWhile P s = []"
  by (induction s) auto

lemma digit_chars: "is_digit c \<Longrightarrow> c \<notin> set ''eE'' \<and> c \<notin> set ''.'' \<and> c \<notin> set ''+-'' \<and> c \<notin> set ''ni''"
  by (auto simp: is_digit_def char_code_def)

lemma digit_lower: "is_digit c \<Longrightarrow> char_lower c = c"
  by (auto simp: is_digit_def char_lower_def Let_def)

lemma mag_of_digits:
  assumes "py_isdigit s"
  shows "mag_of_text s = Some (mag_of_dec (int_of_digits s) 0)"
proof -
  have d: "\<And>c. c \<in> set s \<Longrightarrow> is_digit c" and ne: "s \<noteq> []" using assms by (auto simp: py_isdigit_def list_all_iff)
  have "py_lower s = s" using d by (simp add: py_lower_def digit_lower map_idI)
  moreover have "hd s \<notin> set ''ni''" using d ne digit_chars by (metis hd_in_set)
  then have "s \<noteq> ''nan''" "s \<noteq> ''inf''" "s \<noteq> ''infinity''" by auto
  moreover have "takeWhile (\<lambda>c. c \<notin> set ''eE'') s = s \<and> dropWhile (\<lambda>c. c \<notin> set ''eE'') s = []"
    "takeWhile (\<lambda>c. c \<notin> set ''.'') s = s \<and> dropWhile (\<lambda>c. c \<notin> set ''.'') s = []"
    by (rule takeWhile_all, use d digit_chars in blast)+
  then have "split_at ''eE'' s = (s, None)" "split_at ''.'' s = (s, None)"
    by (simp_all only: split_at_def Let_def list.case)
  ultimately show ?thesis using assms by (simp add: mag_of_text_def exponent_of_def)
qed

lemma int_via_float:
  assumes "\<bar>n\<bar> < 2 ^ 53"
  shows "bindR (py_float (str_of_int n)) f_int = Inr n"
proof -
  define ds where "ds = str_of_nat (nat \<bar>n\<bar>)"
  have ds: "py_isdigit ds" "int_of_digits ds = \<bar>n\<bar>" by (simp_all add: ds_def str_of_nat_digits)
  have ne: "ds \<noteq> []" "is_digit (hd ds)" using ds(1) by (auto simp: py_isdigit_def list_all_iff)
  have t: "str_of_int n = (if n < 0 then CHR ''-'' # ds else ds)" by (auto simp: str_of_int_def ds_def)
  have "\<not> py_isspace CHR ''-''" by code_simp
  then have "py_strip (CHR ''-'' # ds) = CHR ''-'' # ds"
    using ds(1) ne by (intro py_strip_ends) (auto simp: py_isdigit_def list_all_iff digit_not_space)
  then have strip: "py_strip (str_of_int n) = str_of_int n" using ds(1) t by (simp add: py_strip_digits)
  have m: "mag_of_text ds = Some (if \<bar>n\<bar> = 0 then 0 else mag_of_ratio \<bar>n\<bar> 1)"
    using mag_of_digits [OF ds(1)] by (simp add: mag_of_dec_def ds(2))
  have "hd ds \<notin> set ''+-''" using digit_chars [OF ne(2)] by simp
  then have "py_float (str_of_int n) = Inr (f_make (n < 0) (if \<bar>n\<bar> = 0 then 0 else mag_of_ratio \<bar>n\<bar> 1))"
    using ne m unfolding py_float_def strip Let_def by (cases "n < 0") (simp_all add: t)
  moreover have "f_int (f_make (n < 0) (if \<bar>n\<bar> = 0 then 0 else mag_of_ratio \<bar>n\<bar> 1)) = Inr (if n < 0 then - \<bar>n\<bar> else \<bar>n\<bar>)"
    using assms by (intro exact_int_trunc) auto
  ultimately show ?thesis by simp
qed

end
