(* ===== verification/Contracts.thy ===== *)
theory Contracts
  imports Timeframes PyFloat
begin

section \<open>The public contracts\<close>

text \<open>
  Models the dataclasses of \<^verbatim>\<open>contracts/\<close>: instrument keys, timeframes, bars,
  queries, coverage reports and footprint queries. A frozen dataclass is a record; its
  constructor with \<open>__post_init__\<close> is a \<open>make_...\<close> function that raises or returns the record.
\<close>

subsection \<open>Instruments (\<^verbatim>\<open>contracts/instrument.py\<close>)\<close>

record instrument_key =
  ik_exchange :: string
  ik_market :: string
  ik_symbol :: string

definition make_instrument :: "string \<Rightarrow> string \<Rightarrow> string \<Rightarrow> instrument_key res" where
  "make_instrument exchange market symbol =
     (let exchange = py_lower (py_strip exchange);
          market = py_lower (py_strip market);
          symbol = py_upper (py_strip symbol) in
      if exchange = [] then Inl (InvalidInstrumentError ''exchange must not be empty'')
      else if market = [] then Inl (InvalidInstrumentError ''market must not be empty'')
      else if symbol = [] then Inl (InvalidInstrumentError ''symbol must not be empty'')
      else Inr \<lparr>ik_exchange = exchange, ik_market = market, ik_symbol = symbol\<rparr>)"

definition serialize_instrument :: "instrument_key \<Rightarrow> string" where
  "serialize_instrument k = ik_exchange k @ ''/'' @ ik_market k @ ''/'' @ ik_symbol k"

definition parse_instrument :: "string \<Rightarrow> instrument_key res" where
  "parse_instrument value =
     (case py_split CHR ''/'' value of
        [e, m, s] \<Rightarrow> make_instrument e m s
      | _ \<Rightarrow> Inl (InvalidInstrumentError ''instrument key must be exchange/market/symbol''))"

subsection \<open>Timeframes (\<^verbatim>\<open>contracts/timeframe.py\<close>)\<close>

datatype timeframe_unit = Minute | Hour | Day | Week | Month

record timeframe =
  tf_raw :: string
  tf_canonical :: string
  tf_multiplier :: int
  tf_unit :: timeframe_unit
  tf_duration_ms :: "int option"

definition timeframe_eq :: "timeframe \<Rightarrow> timeframe \<Rightarrow> bool" where
  "timeframe_eq a b \<longleftrightarrow> tf_canonical a = tf_canonical b \<and> tf_multiplier a = tf_multiplier b \<and>
     tf_unit a = tf_unit b \<and> tf_duration_ms a = tf_duration_ms b"

text \<open>Of the exceptions \<open>canonical_timeframe\<close> raises, \<open>parse_timeframe\<close> converts its only one.\<close>

definition unsupported_to_invalid :: "error \<Rightarrow> error" where
  "unsupported_to_invalid e =
     (case e of MDTimeframeUnsupported msg \<Rightarrow> InvalidTimeframeError msg | _ \<Rightarrow> e)"

definition timeframe_shape :: "string \<Rightarrow> (int \<times> timeframe_unit) res" where
  "timeframe_shape canonical =
     (if canonical \<noteq> [] \<and> last canonical = CHR ''m'' then Inr (int (nat_of_digits (butlast canonical)), Minute)
      else if canonical \<noteq> [] \<and> last canonical = CHR ''h'' then Inr (int (nat_of_digits (butlast canonical)), Hour)
      else if canonical = ''1D'' then Inr (1, Day)
      else if canonical = ''1W'' then Inr (1, Week)
      else if canonical = ''1M'' then Inr (1, Month)
      else Inl (InvalidTimeframeError ''unsupported canonical timeframe: ''))"

definition parse_timeframe :: "string \<Rightarrow> timeframe res" where
  "parse_timeframe value =
     (let raw = py_strip value in
      if raw = [] then Inl (InvalidTimeframeError ''timeframe must not be empty'')
      else case canonical_timeframe raw of
             Inl e \<Rightarrow> Inl (unsupported_to_invalid e)
           | Inr canonical \<Rightarrow>
               bindR (timeframe_shape canonical) (\<lambda>(multiplier, unit).
               bindR (if unit = Month then Inr None
                      else bindR (timeframe_ms canonical) (\<lambda>d. Inr (Some d))) (\<lambda>duration.
               Inr \<lparr>tf_raw = raw, tf_canonical = canonical, tf_multiplier = multiplier,
                    tf_unit = unit, tf_duration_ms = duration\<rparr>)))"

subsection \<open>Bars (\<^verbatim>\<open>contracts/bar.py\<close>)\<close>

record contract_bar =
  cb_instrument :: instrument_key
  cb_timeframe :: timeframe
  cb_time :: int
  cb_time_close :: int
  cb_open :: float64
  cb_high :: float64
  cb_low :: float64
  cb_close :: float64
  cb_volume :: "float64 option"
  cb_closed :: bool

definition post_init_contract_bar :: "contract_bar \<Rightarrow> contract_bar res" where
  "post_init_contract_bar b =
     (if cb_time_close b \<le> cb_time b then Inl (InvalidBarError ''time_close must be greater than time'')
      else if f_lt (cb_high b) (f_max (cb_open b) (cb_close b))
        then Inl (InvalidBarError ''high must be >= max(open, close)'')
      else if f_lt (f_min (cb_open b) (cb_close b)) (cb_low b)
        then Inl (InvalidBarError ''low must be <= min(open, close)'')
      else if (case cb_volume b of None \<Rightarrow> False | Some v \<Rightarrow> f_lt v f_zero)
        then Inl (InvalidBarError ''volume must be non-negative or None'')
      else Inr b)"

subsection \<open>Queries (\<^verbatim>\<open>contracts/query.py\<close>)\<close>

record bar_query =
  q_instrument :: instrument_key
  q_timeframe :: timeframe
  q_start_ms :: int
  q_end_ms :: int
  q_source :: string
  q_gap_policy :: string
  q_error_policy :: string

definition post_init_bar_query :: "bar_query \<Rightarrow> bar_query res" where
  "post_init_bar_query q =
     (if q_end_ms q \<le> q_start_ms q then Inl (InvalidBarQueryError ''start_ms must be less than end_ms'')
      else if q_source q \<notin> {''storage'', ''provider'', ''auto''}
        then Inl (InvalidBarQueryError ''unsupported source: '')
      else if q_gap_policy q \<notin> {''fail'', ''allow_with_metadata''}
        then Inl (InvalidBarQueryError ''unsupported gap_policy: '')
      else if q_error_policy q \<noteq> ''raise''
        then Inl (InvalidBarQueryError (''production error_policy must be '' @ CHR 0x27 # ''raise'' @ [CHR 0x27]))
      else Inr q)"

subsection \<open>Series and coverage (\<^verbatim>\<open>contracts/series.py\<close>)\<close>

datatype coverage_status = Valid | Gap | Duplicate | Unordered | Empty

record coverage_report =
  cr_requested_start_ms :: int
  cr_requested_end_ms :: int
  cr_delivered_start_ms :: "int option"
  cr_delivered_end_ms :: "int option"
  cr_missing_intervals :: "(int \<times> int) list"
  cr_duplicate_timestamps :: "int list"
  cr_source_mix :: "string list"
  cr_status :: coverage_status

definition is_complete :: "coverage_report \<Rightarrow> bool" where
  "is_complete r \<longleftrightarrow> cr_status r = Valid \<and> cr_missing_intervals r = [] \<and> cr_duplicate_timestamps r = []"

record bar_series =
  bs_query :: bar_query
  bs_bars :: "contract_bar list"
  bs_coverage :: coverage_report

record store_result =
  sr_success :: bool
  sr_rows_written :: int
  sr_error :: "string option"

subsection \<open>Footprint contracts (\<^verbatim>\<open>contracts/footprint.py\<close>)\<close>

record footprint_query =
  fq_instrument :: instrument_key
  fq_timeframe :: timeframe
  fq_start_ms :: int
  fq_end_ms :: int
  fq_price_bucket :: "float64 option"
  fq_tick_size :: "float64 option"
  fq_ticks_per_row :: int
  fq_source :: string
  fq_gap_policy :: string

definition post_init_footprint_query :: "footprint_query \<Rightarrow> footprint_query res" where
  "post_init_footprint_query q =
     (if fq_end_ms q \<le> fq_start_ms q then Inl (InvalidBarQueryError ''start_ms must be less than end_ms'')
      else if tf_duration_ms (fq_timeframe q) = None
        then Inl (InvalidBarQueryError ''footprint timeframe must have fixed duration'')
      else if fq_source q \<notin> {''storage'', ''provider'', ''auto''}
        then Inl (InvalidBarQueryError ''unsupported footprint source: '')
      else if fq_gap_policy q \<notin> {''fail'', ''allow_with_metadata''}
        then Inl (InvalidBarQueryError ''unsupported gap_policy: '')
      else case fq_price_bucket q of
             None \<Rightarrow>
               (if (case fq_tick_size q of None \<Rightarrow> True | Some t \<Rightarrow> f_le t f_zero)
                  then Inl (InvalidBarQueryError ''price_bucket or positive tick_size is required'')
                else if fq_ticks_per_row q \<le> 0
                  then Inl (InvalidBarQueryError ''ticks_per_row must be positive'')
                else Inr q)
           | Some b \<Rightarrow>
               (if f_le b f_zero then Inl (InvalidBarQueryError ''price_bucket must be positive'') else Inr q))"

definition bucket_size :: "footprint_query \<Rightarrow> float64 res" where
  "bucket_size q =
     (case fq_price_bucket q of Some b \<Rightarrow> Inr b
      | None \<Rightarrow> (case fq_tick_size q of None \<Rightarrow> Inl PyAssertionError
                 | Some t \<Rightarrow> Inr (f_mul t (f_of_int (fq_ticks_per_row q)))))"

record agg_trade =
  at_trade_id :: int
  at_time :: int
  at_price :: float64
  at_quantity :: float64
  at_buyer_maker :: bool

record footprint_level =
  fl_price_low :: float64
  fl_price_high :: float64
  fl_buy_volume :: float64
  fl_sell_volume :: float64
  fl_buy_count :: int
  fl_sell_count :: int

definition total_volume :: "footprint_level \<Rightarrow> float64" where
  "total_volume l = f_add (fl_buy_volume l) (fl_sell_volume l)"

definition volume_delta :: "footprint_level \<Rightarrow> float64" where
  "volume_delta l = f_sub (fl_buy_volume l) (fl_sell_volume l)"

record footprint_bar =
  fb_time :: int
  fb_time_close :: int
  fb_levels :: "footprint_level list"
  fb_trades_count :: int

record footprint_series =
  fs_query :: footprint_query
  fs_bars :: "footprint_bar list"
  fs_coverage :: coverage_report

subsection \<open>Instrument keys are in normal form and round-trip\<close>

text \<open>The fields a constructed key has: stripped, folded to one case, not empty.\<close>

definition instrument_ok :: "instrument_key \<Rightarrow> bool" where
  "instrument_ok k \<longleftrightarrow>
     ik_exchange k \<noteq> [] \<and> py_lower (py_strip (ik_exchange k)) = ik_exchange k \<and>
     ik_market k \<noteq> [] \<and> py_lower (py_strip (ik_market k)) = ik_market k \<and>
     ik_symbol k \<noteq> [] \<and> py_upper (py_strip (ik_symbol k)) = ik_symbol k"

definition slash_free :: "instrument_key \<Rightarrow> bool" where
  "slash_free k \<longleftrightarrow> CHR ''/'' \<notin> set (ik_exchange k) \<and> CHR ''/'' \<notin> set (ik_market k) \<and>
     CHR ''/'' \<notin> set (ik_symbol k)"

lemma make_instrument_ok: "make_instrument e m s = Inr k \<Longrightarrow> instrument_ok k"
  by (auto simp: make_instrument_def instrument_ok_def Let_def py_strip_lower py_strip_upper
      split: if_splits)

lemma make_instrument_fields:
  "instrument_ok k \<Longrightarrow> make_instrument (ik_exchange k) (ik_market k) (ik_symbol k) = Inr k"
  by (simp add: make_instrument_def instrument_ok_def)

lemma parse_serialize_instrument:
  assumes "instrument_ok k \<and> slash_free k"
  shows "parse_instrument (serialize_instrument k) = Inr k"
proof -
  have "py_split CHR ''/'' (serialize_instrument k) = [ik_exchange k, ik_market k, ik_symbol k]"
    using assms unfolding serialize_instrument_def slash_free_def
    by (simp add: py_split_append py_split_no_sep)
  with assms show ?thesis by (simp add: parse_instrument_def make_instrument_fields)
qed

interpretation instrument_text: codec serialize_instrument parse_instrument "\<lambda>k. instrument_ok k \<and> slash_free k"
  by unfold_locales (rule parse_serialize_instrument)

lemma py_split_slashes: "length (py_split sep s) = Suc (count_list s sep)"
  by (induction s) (auto split: list.splits)

lemma parse_instrument_not_three:
  "count_list v CHR ''/'' \<noteq> 2 \<Longrightarrow>
   parse_instrument v = Inl (InvalidInstrumentError ''instrument key must be exchange/market/symbol'')"
  using py_split_slashes [of "CHR ''/''" v]
  by (auto simp: parse_instrument_def split: list.splits)

subsection \<open>Parsed timeframes\<close>

text \<open>What a parsed timeframe satisfies: its fields are functions of the canonical name.\<close>

definition timeframe_ok :: "timeframe \<Rightarrow> bool" where
  "timeframe_ok tf \<longleftrightarrow>
     canonical_timeframe (tf_canonical tf) = Inr (tf_canonical tf) \<and>
     timeframe_shape (tf_canonical tf) = Inr (tf_multiplier tf, tf_unit tf) \<and>
     (case tf_duration_ms tf of
        None \<Rightarrow> tf_unit tf = Month
      | Some d \<Rightarrow> tf_unit tf \<noteq> Month \<and> timeframe_ms (tf_canonical tf) = Inr d \<and> 0 \<le> d)"

lemma timeframe_ms_nonneg: "timeframe_ms tf = Inr d \<Longrightarrow> 0 \<le> d"
proof -
  assume d: "timeframe_ms tf = Inr d"
  then obtain c where c: "canonical_timeframe tf = Inr c" by (auto simp: timeframe_ms_def res_simps)
  then have d': "timeframe_ms c = Inr d" using d by (simp add: timeframe_ms_via_canonical)
  from c show "0 \<le> d"
  proof (cases rule: canonical_timeframe_shape)
    case calendar
    then show ?thesis using d c by (auto simp: timeframe_ms_def calendar_names_def)
  next
    case (fixed n u)
    then show ?thesis using d' fixed_units_pos [of u] by (auto simp: timeframe_ms_fixed)
  qed
qed

lemma parse_timeframe_ok:
  assumes "parse_timeframe v = Inr tf"
  shows "timeframe_ok tf" and "tf_raw tf = py_strip v" and "canonical_timeframe v = Inr (tf_canonical tf)"
proof -
  obtain c where c: "canonical_timeframe (py_strip v) = Inr c"
    using assms by (auto simp: parse_timeframe_def Let_def split: if_splits sum.splits)
  with assms have tf: "tf_canonical tf = c" "tf_raw tf = py_strip v"
    "timeframe_shape c = Inr (tf_multiplier tf, tf_unit tf)"
    "tf_unit tf = Month \<Longrightarrow> tf_duration_ms tf = None"
    "tf_unit tf \<noteq> Month \<Longrightarrow> \<exists>d. timeframe_ms c = Inr d \<and> tf_duration_ms tf = Some d"
    by (auto simp: parse_timeframe_def Let_def res_simps split: if_splits)
  then show "timeframe_ok tf"
    using canonical_fixpoint [OF c] timeframe_ms_nonneg [of c]
    by (cases "tf_unit tf = Month") (auto simp: timeframe_ok_def)
  show "tf_raw tf = py_strip v" by (rule tf)
  show "canonical_timeframe v = Inr (tf_canonical tf)"
    using c tf by (simp add: canonical_timeframe_def)
qed

lemma timeframe_eq_canonical:
  assumes "timeframe_ok a" and "timeframe_ok b"
  shows "timeframe_eq a b \<longleftrightarrow> tf_canonical a = tf_canonical b"
  using assms by (auto simp: timeframe_ok_def timeframe_eq_def split: option.splits)

text \<open>
  Instrument keys round-trip through their text form: a constructed key whose parts hold no
  slash is recovered by \<open>parse\<close> from \<open>serialize\<close>, and re-constructing a key from its own fields
  changes nothing (exchange and market lower case, symbol upper case, no outer white space).
\<close>

theorem instrument_round_trip:
  assumes "make_instrument e m s = Inr k"
  shows "make_instrument (ik_exchange k) (ik_market k) (ik_symbol k) = Inr k \<and>
         (slash_free k \<longrightarrow> parse_instrument (serialize_instrument k) = Inr k)"
  using make_instrument_ok [OF assms] make_instrument_fields instrument_text.decode_encode by simp

theorem instrument_round_trip_witness:
  "make_instrument '' Binance'' ''SPOT'' ''btcusdt '' =
     Inr \<lparr>ik_exchange = ''binance'', ik_market = ''spot'', ik_symbol = ''BTCUSDT''\<rparr> \<and>
   parse_instrument ''binance/spot/BTCUSDT'' =
     Inr \<lparr>ik_exchange = ''binance'', ik_market = ''spot'', ik_symbol = ''BTCUSDT''\<rparr>"
proof -
  have m: "make_instrument '' Binance'' ''SPOT'' ''btcusdt '' =
     Inr \<lparr>ik_exchange = ''binance'', ik_market = ''spot'', ik_symbol = ''BTCUSDT''\<rparr>" by code_simp
  show ?thesis using instrument_round_trip [OF m] m
    by (simp add: slash_free_def serialize_instrument_def)
qed

text \<open>
  A parsed timeframe is determined by its canonical name: it has no fixed duration exactly when
  it is the monthly one, otherwise its duration is that of the canonical name, and two parsed
  timeframes compare equal exactly when their canonical names are the same, however they were
  spelled.
\<close>

theorem parse_timeframe_canonical:
  assumes "parse_timeframe v = Inr a" and "parse_timeframe w = Inr b"
  shows "canonical_timeframe v = Inr (tf_canonical a) \<and>
         (tf_duration_ms a = None \<longleftrightarrow> tf_unit a = Month) \<and>
         (\<forall>d. tf_duration_ms a = Some d \<longrightarrow> timeframe_ms v = Inr d) \<and>
         (timeframe_eq a b \<longleftrightarrow> canonical_timeframe v = canonical_timeframe w)"
  using parse_timeframe_ok [OF assms(1)] parse_timeframe_ok [OF assms(2)] timeframe_eq_canonical [of a b]
    timeframe_ms_via_canonical [of v "tf_canonical a"]
  by (auto simp: timeframe_ok_def split: option.splits)

theorem parse_timeframe_canonical_witness:
  "\<exists>a b. parse_timeframe ''60'' = Inr a \<and> parse_timeframe '' 60M'' = Inr b \<and> timeframe_eq a b \<and>
         tf_duration_ms a = Some 3600000"
proof -
  define a where "a = \<lparr>tf_raw = ''60'', tf_canonical = ''60m'', tf_multiplier = 60, tf_unit = Minute,
    tf_duration_ms = Some 3600000\<rparr>"
  define b where "b = a\<lparr>tf_raw := ''60M''\<rparr>"
  have pa: "parse_timeframe ''60'' = Inr a" unfolding a_def by code_simp
  have pb: "parse_timeframe '' 60M'' = Inr b" unfolding b_def a_def by code_simp
  have "canonical_timeframe ''60'' = canonical_timeframe '' 60M''" by code_simp
  with parse_timeframe_canonical [OF pa pb] pa pb show ?thesis by (auto simp: a_def)
qed

end
