(* ===== verification/Bars.thy ===== *)
theory Bars
  imports Contracts
begin

section \<open>Core bars, their validation and diagnostics\<close>

text \<open>
  Models \<^verbatim>\<open>core/bar.py\<close>, \<^verbatim>\<open>validation/__init__.py\<close> and
  \<^verbatim>\<open>diagnostics/__init__.py\<close>. \<open>MarketBar\<close> extends \<open>Bar\<close> as the source's class
  does; its free-form metadata is a JSON object. \<open>RevisionState\<close> is the enumeration the
  contracts package exports: an original record, a correction, a revocation.
\<close>

datatype json =
    JNull
  | JBool bool
  | JInt int
  | JFloat float64
  | JStr string
  | JArr "json list"
  | JObj "(string \<times> json) list"

datatype revision_state = ORIGINAL | CORRECTED | REVOKED

record bar =
  b_time :: int
  b_open :: float64
  b_high :: float64
  b_low :: float64
  b_close :: float64
  b_volume :: float64
  b_time_close :: "int option"

record market_bar = bar +
  m_exchange :: string
  m_market :: string
  m_symbol :: string
  m_timeframe :: string
  m_source_transport :: string
  m_source_kind :: string
  m_source :: string
  m_is_closed :: "bool option"
  m_provider :: string
  m_provider_revision :: "string option"
  m_revision_state :: revision_state
  m_revision :: int
  m_open_text :: "string option"
  m_high_text :: "string option"
  m_low_text :: "string option"
  m_close_text :: "string option"
  m_volume_text :: "string option"
  m_quote_volume :: "float64 option"
  m_turnover :: "float64 option"
  m_trades_count :: "int option"
  m_taker_buy_base_volume :: "float64 option"
  m_taker_buy_quote_volume :: "float64 option"
  m_downloaded_at :: "int option"
  m_metadata :: "(string \<times> json) list"

fun json_str :: "json option \<Rightarrow> string option" where
  "json_str (Some (JStr s)) = Some s"
| "json_str _ = None"

definition provider_from_metadata :: "(string \<times> json) list \<Rightarrow> string \<Rightarrow> string" where
  "provider_from_metadata metadata provider =
     (if provider \<noteq> [] then provider
      else case json_str (map_of metadata ''provider'') of Some s \<Rightarrow> s | None \<Rightarrow> provider)"

definition revision_from_metadata :: "(string \<times> json) list \<Rightarrow> string option \<Rightarrow> string option" where
  "revision_from_metadata metadata revision =
     (if revision \<noteq> None then revision
      else case json_str (map_of metadata ''provider_revision'') of Some s \<Rightarrow> Some s | None \<Rightarrow> revision)"

definition fill_provider :: "market_bar \<Rightarrow> market_bar" where
  "fill_provider b =
     b\<lparr>m_provider := provider_from_metadata (m_metadata b) (m_provider b),
       m_provider_revision := revision_from_metadata (m_metadata b) (m_provider_revision b)\<rparr>"

definition market_bar_post_init :: "market_bar \<Rightarrow> market_bar res" where
  "market_bar_post_init b0 =
     (if m_is_closed b0 = None then Inl (MDValidationError ''is_closed required'')
      else
        (let b = fill_provider b0
         in if m_revision_state b = ORIGINAL \<and> m_revision b \<noteq> 0
              then Inl (MDValidationError ''ORIGINAL revision must be 0'')
            else if m_revision_state b \<noteq> ORIGINAL \<and> m_revision b < 1
              then Inl (MDValidationError ''corrected/revoked revision must be >= 1'')
            else Inr b))"

definition market_bar_to_bar :: "market_bar \<Rightarrow> bar" where
  "market_bar_to_bar b =
     \<lparr>b_time = b_time b, b_open = b_open b, b_high = b_high b, b_low = b_low b, b_close = b_close b,
      b_volume = b_volume b, b_time_close = b_time_close b\<rparr>"

text \<open>The keyword defaults of the constructor.\<close>

definition market_bar_defaults :: market_bar where
  "market_bar_defaults =
     \<lparr>b_time = 0, b_open = f_zero, b_high = f_zero, b_low = f_zero, b_close = f_zero, b_volume = f_zero,
      b_time_close = None, m_exchange = [], m_market = [], m_symbol = [], m_timeframe = [],
      m_source_transport = ''rest'', m_source_kind = ''trade_kline'', m_source = [], m_is_closed = None,
      m_provider = [], m_provider_revision = None, m_revision_state = ORIGINAL, m_revision = 0,
      m_open_text = None, m_high_text = None, m_low_text = None, m_close_text = None, m_volume_text = None,
      m_quote_volume = None, m_turnover = None, m_trades_count = None, m_taker_buy_base_volume = None,
      m_taker_buy_quote_volume = None, m_downloaded_at = None, m_metadata = []\<rparr>"

subsection \<open>Validation (\<^verbatim>\<open>validation/__init__.py\<close>)\<close>

fun validate_loop :: "int option \<Rightarrow> int set \<Rightarrow> 'a bar_scheme list \<Rightarrow> unit res" where
  "validate_loop prev seen [] = Inr ()"
| "validate_loop prev seen (b # bs) =
     (if b_time b \<in> seen then Inl (MDValidationError ''Duplicate bar time: '')
      else if (case prev of None \<Rightarrow> False | Some p \<Rightarrow> b_time b \<le> p)
        then Inl (MDValidationError ''Bars must be strictly sorted ASC by time'')
      else if f_lt (b_high b) (f_max (b_open b) (b_close b))
        then Inl (MDValidationError ''OHLC high violation at '')
      else if f_lt (f_min (b_open b) (b_close b)) (b_low b)
        then Inl (MDValidationError ''OHLC low violation at '')
      else if (case b_time_close b of None \<Rightarrow> False | Some c \<Rightarrow> c < b_time b)
        then Inl (MDValidationError ''time_close before time at '')
      else validate_loop (Some (b_time b)) (insert (b_time b) seen) bs)"

definition validate_bars :: "'a bar_scheme list \<Rightarrow> bool \<Rightarrow> unit res" where
  "validate_bars bars allow_empty =
     (if bars = [] \<and> \<not> allow_empty then Inl (MDValidationError ''No bars returned'')
      else validate_loop None {} bars)"

fun exclude_loop :: "int \<Rightarrow> 'a bar_scheme list \<Rightarrow> 'a bar_scheme list res" where
  "exclude_loop now [] = Inr []"
| "exclude_loop now (b # bs) =
     (case b_time_close b of
        None \<Rightarrow> Inl (MDValidationError ''time_close required to decide finality'')
      | Some c \<Rightarrow> bindR (exclude_loop now bs) (\<lambda>kept. Inr (if c \<le> now then b # kept else kept)))"

definition exclude_open_candle :: "'a bar_scheme list \<Rightarrow> int option \<Rightarrow> 'a bar_scheme list res" where
  "exclude_open_candle bars server_time_ms =
     (case server_time_ms of
        None \<Rightarrow> Inl (MDValidationError ''server_time_ms required'')
      | Some now \<Rightarrow> exclude_loop now bars)"

subsection \<open>Diagnostics (\<^verbatim>\<open>diagnostics/__init__.py\<close>)\<close>

datatype severity = Info | Warning | Error

record diagnostic =
  d_code :: string
  d_message :: string
  d_severity :: severity
  d_details :: "(string \<times> json) list"

type_synonym diagnostics = "diagnostic list"

definition diag_add :: "diagnostics \<Rightarrow> string \<Rightarrow> string \<Rightarrow> severity \<Rightarrow> (string \<times> json) list \<Rightarrow> diagnostics" where
  "diag_add items code message sev details =
     items @ [\<lparr>d_code = code, d_message = message, d_severity = sev, d_details = details\<rparr>]"

definition warnings_or_errors :: "diagnostics \<Rightarrow> diagnostics" where
  "warnings_or_errors items = filter (\<lambda>d. d_severity d \<in> {Warning, Error}) items"

subsection \<open>What validation accepts\<close>

text \<open>The four tests on one bar, as the code makes them (a NaN never fails a comparison).\<close>

definition bar_sane :: "'a bar_scheme \<Rightarrow> bool" where
  "bar_sane b \<longleftrightarrow> \<not> f_lt (b_high b) (f_max (b_open b) (b_close b)) \<and>
     \<not> f_lt (f_min (b_open b) (b_close b)) (b_low b) \<and>
     (case b_time_close b of None \<Rightarrow> True | Some c \<Rightarrow> b_time b \<le> c)"

definition no_nan :: "'a bar_scheme \<Rightarrow> bool" where
  "no_nan b \<longleftrightarrow> \<not> f_isnan (b_open b) \<and> \<not> f_isnan (b_high b) \<and> \<not> f_isnan (b_low b) \<and> \<not> f_isnan (b_close b)"

lemma bar_sane_ohlc:
  assumes "no_nan b"
  shows "bar_sane b \<longleftrightarrow> f_le (b_open b) (b_high b) \<and> f_le (b_close b) (b_high b) \<and>
     f_le (b_low b) (b_open b) \<and> f_le (b_low b) (b_close b) \<and>
     (case b_time_close b of None \<Rightarrow> True | Some c \<Rightarrow> b_time b \<le> c)"
  using assms unfolding no_nan_def bar_sane_def by (auto simp: not_lt_max not_gt_min)

lemma validate_loop_iff:
  assumes "\<And>t. t \<in> seen \<Longrightarrow> \<exists>p. prev = Some p \<and> t \<le> p"
  shows "validate_loop prev seen bs = Inr () \<longleftrightarrow>
     sorted_wrt (<) (map b_time bs) \<and> (\<forall>b \<in> set bs. bar_sane b) \<and>
     (\<forall>p. prev = Some p \<longrightarrow> (\<forall>b \<in> set bs. p < b_time b))"
  using assms
proof (induction bs arbitrary: prev seen)
  case Nil
  show ?case by simp
next
  case (Cons b bs)
  have IH: "validate_loop (Some (b_time b)) (insert (b_time b) seen) bs = Inr () \<longleftrightarrow>
     sorted_wrt (<) (map b_time bs) \<and> (\<forall>b \<in> set bs. bar_sane b) \<and> (\<forall>x \<in> set bs. b_time b < b_time x)"
    if "\<And>t. t \<in> seen \<Longrightarrow> t \<le> b_time b"
    using that by (subst Cons.IH) auto
  show ?case
  proof (cases "prev")
    case None
    then have "seen = {}" using Cons.prems by auto
    with None IH show ?thesis by (auto simp: bar_sane_def split: option.splits)
  next
    case (Some p)
    show ?thesis
    proof (cases "p < b_time b")
      case True
      with Cons.prems Some have "b_time b \<notin> seen" and le: "\<And>t. t \<in> seen \<Longrightarrow> t \<le> b_time b" by force+
      with True Some IH [OF le] show ?thesis by (force simp: bar_sane_def split: option.splits)
    next
      case False
      with Some show ?thesis by auto
    qed
  qed
qed

lemma exclude_loop_filter:
  "exclude_loop now bs = Inr ks \<longleftrightarrow>
     (\<forall>b \<in> set bs. b_time_close b \<noteq> None) \<and> ks = filter (\<lambda>b. the (b_time_close b) \<le> now) bs"
  by (induction bs arbitrary: ks) (auto simp: res_simps split: option.splits)

text \<open>
  \<open>validate_bars\<close> accepts exactly the sequences it should: with no NaN among the prices, it
  returns without raising iff open times strictly increase, every bar has
  \<open>low <= open, close <= high\<close>, no bar closes before it opens, and the sequence is not
  empty unless that is allowed.
\<close>

theorem validate_bars_exact:
  assumes "\<forall>b \<in> set bars. no_nan b"
  shows "validate_bars bars allow_empty = Inr () \<longleftrightarrow>
     (bars \<noteq> [] \<or> allow_empty) \<and> sorted_wrt (<) (map b_time bars) \<and>
     (\<forall>b \<in> set bars. f_le (b_open b) (b_high b) \<and> f_le (b_close b) (b_high b) \<and>
        f_le (b_low b) (b_open b) \<and> f_le (b_low b) (b_close b) \<and>
        (case b_time_close b of None \<Rightarrow> True | Some c \<Rightarrow> b_time b \<le> c))"
proof -
  have "(\<forall>b \<in> set bars. bar_sane b) \<longleftrightarrow>
     (\<forall>b \<in> set bars. f_le (b_open b) (b_high b) \<and> f_le (b_close b) (b_high b) \<and>
        f_le (b_low b) (b_open b) \<and> f_le (b_low b) (b_close b) \<and>
        (case b_time_close b of None \<Rightarrow> True | Some c \<Rightarrow> b_time b \<le> c))"
    using assms by (intro ball_cong) (simp_all only: bar_sane_ohlc)
  moreover have "validate_loop None {} bars = Inr () \<longleftrightarrow>
     sorted_wrt (<) (map b_time bars) \<and> (\<forall>b \<in> set bars. bar_sane b)"
    by (subst validate_loop_iff) auto
  ultimately show ?thesis by (simp add: validate_bars_def)
qed

theorem validate_bars_exact_witness:
  "\<exists>b::bar. validate_bars [b, b\<lparr>b_time := 120000\<rparr>] False = Inr () \<and> \<not> validate_bars [b, b] False = Inr ()"
proof -
  let ?one = "f_of_int 1" and ?two = "f_of_int 2"
  define b :: bar where "b = \<lparr>b_time = 60000, b_open = ?one, b_high = ?two, b_low = ?one, b_close = ?two,
    b_volume = ?one, b_time_close = None\<rparr>"
  have f: "\<not> f_isnan ?one" "\<not> f_isnan ?two" "f_le ?one ?two" "f_le ?one ?one" "f_le ?two ?two" by code_simp+
  have n: "\<forall>x \<in> set [b, b\<lparr>b_time := 120000\<rparr>]. no_nan x" "\<forall>x \<in> set [b, b]. no_nan x"
    using f by (simp_all add: b_def no_nan_def)
  show ?thesis
    using validate_bars_exact [OF n(1), of False] validate_bars_exact [OF n(2), of False] f
    by (intro exI [of _ b]) (simp add: b_def)
qed

text \<open>
  \<open>exclude_open_candle\<close> keeps, in order, exactly the bars that had closed at the server time,
  and refuses to guess: without a server time, or with one bar of unknown close, it raises.
\<close>

theorem exclude_open_candle_exact:
  "exclude_open_candle bars now = Inr kept \<longleftrightarrow>
     (\<exists>t. now = Some t \<and> (\<forall>b \<in> set bars. b_time_close b \<noteq> None) \<and>
          kept = filter (\<lambda>b. the (b_time_close b) \<le> t) bars)"
  by (auto simp: exclude_open_candle_def exclude_loop_filter split: option.splits)

theorem exclude_open_candle_exact_witness:
  "\<exists>b::bar. exclude_open_candle [b\<lparr>b_time_close := Some 5\<rparr>, b\<lparr>b_time_close := Some 9\<rparr>] (Some 7) =
     Inr [b\<lparr>b_time_close := Some 5\<rparr>]"
proof -
  obtain b :: bar where True by simp
  show ?thesis by (intro exI [of _ b]) (subst exclude_open_candle_exact, simp)
qed

lemma fill_provider_fields [simp]:
  "m_is_closed (fill_provider b) = m_is_closed b" "m_metadata (fill_provider b) = m_metadata b"
  "m_revision_state (fill_provider b) = m_revision_state b" "m_revision (fill_provider b) = m_revision b"
  "market_bar_to_bar (fill_provider b) = market_bar_to_bar b"
  "m_provider (fill_provider b) = provider_from_metadata (m_metadata b) (m_provider b)"
  "m_provider_revision (fill_provider b) = revision_from_metadata (m_metadata b) (m_provider_revision b)"
  by (simp_all add: fill_provider_def market_bar_to_bar_def)

lemma provider_from_metadata_idem [simp]:
  "provider_from_metadata md (provider_from_metadata md p) = provider_from_metadata md p"
  by (simp add: provider_from_metadata_def split: option.splits)

lemma revision_from_metadata_idem [simp]:
  "revision_from_metadata md (revision_from_metadata md r) = revision_from_metadata md r"
  by (simp add: revision_from_metadata_def split: option.splits)

lemma fill_provider_idem [simp]: "fill_provider (fill_provider b) = fill_provider b"
  by (simp add: fill_provider_def)

lemma post_init_Inr:
  "market_bar_post_init b = Inr b' \<longleftrightarrow>
     m_is_closed b \<noteq> None \<and> (m_revision_state b = ORIGINAL \<longleftrightarrow> m_revision b = 0) \<and> 0 \<le> m_revision b \<and>
     b' = fill_provider b"
  by (auto simp: market_bar_post_init_def Let_def)

text \<open>
  A market bar that is constructed has a decided finality and a consistent revision: an original
  has revision 0, a correction or revocation a positive one; the constructor fills an empty
  provider and a missing provider revision from the metadata and changes nothing else.
\<close>

theorem market_bar_post_init_ok:
  assumes "market_bar_post_init b = Inr b'"
  shows "m_is_closed b' \<noteq> None \<and> (m_revision_state b' = ORIGINAL \<longleftrightarrow> m_revision b' = 0) \<and>
     0 \<le> m_revision b' \<and>
     b' = b\<lparr>m_provider := provider_from_metadata (m_metadata b) (m_provider b),
            m_provider_revision := revision_from_metadata (m_metadata b) (m_provider_revision b)\<rparr> \<and>
     market_bar_post_init b' = Inr b'"
  using assms by (auto simp: post_init_Inr) (simp_all add: fill_provider_def)

theorem market_bar_post_init_ok_witness:
  "\<exists>b'. market_bar_post_init (market_bar_defaults\<lparr>m_is_closed := Some True,
      m_metadata := [(''provider'', JStr ''binance'')]\<rparr>) = Inr b' \<and> m_provider b' = ''binance''"
proof -
  let ?b = "market_bar_defaults\<lparr>m_is_closed := Some True, m_metadata := [(''provider'', JStr ''binance'')]\<rparr>"
  have p: "market_bar_post_init ?b = Inr (?b\<lparr>m_provider := ''binance''\<rparr>)"
    by (simp add: market_bar_post_init_def market_bar_defaults_def fill_provider_def
      provider_from_metadata_def revision_from_metadata_def)
  show ?thesis using market_bar_post_init_ok [OF p] p by (simp add: market_bar_defaults_def)
qed

end
