(* ===== verification/Adapters.thy ===== *)
theory Adapters
  imports Bars
begin

section \<open>From core bars to contract series, and the coverage report\<close>

text \<open>
  Models \<^verbatim>\<open>_adapters.py\<close>. The hash of the contracts package is the parameter
  \<open>content_hash\<close> (a JSON payload and a schema id to a text). Comparing the tuple of bars with
  its stable sort is comparing lists: a stable sort by time moves no bar of a sorted tuple and
  puts a bar of another time at some position of an unsorted one, so the comparison does not
  depend on how floats inside the bars compare.
\<close>

definition default_time_close :: "int \<Rightarrow> timeframe \<Rightarrow> int res" where
  "default_time_close open_time_ms timeframe = close_time_ms open_time_ms (tf_canonical timeframe)"

definition core_to_contract_bar ::
  "instrument_key \<Rightarrow> timeframe \<Rightarrow> bool \<Rightarrow> 'a bar_scheme \<Rightarrow> contract_bar res" where
  "core_to_contract_bar instrument timeframe closed b =
     bindR (case b_time_close b of Some c \<Rightarrow> Inr c | None \<Rightarrow> default_time_close (b_time b) timeframe) (\<lambda>time_close.
     post_init_contract_bar
       \<lparr>cb_instrument = instrument, cb_timeframe = timeframe, cb_time = b_time b,
        cb_time_close = time_close, cb_open = b_open b, cb_high = b_high b, cb_low = b_low b,
        cb_close = b_close b, cb_volume = Some (b_volume b), cb_closed = closed\<rparr>)"

definition bar_exclusive_end :: "contract_bar \<Rightarrow> timeframe \<Rightarrow> int" where
  "bar_exclusive_end b timeframe =
     (case tf_duration_ms timeframe of Some d \<Rightarrow> cb_time b + d | None \<Rightarrow> cb_time_close b + 1)"

definition missing_intervals_for :: "bar_query \<Rightarrow> contract_bar list \<Rightarrow> (int \<times> int) list res" where
  "missing_intervals_for query bars =
     (case tf_duration_ms (q_timeframe query) of
        None \<Rightarrow> Inr []
      | Some duration \<Rightarrow>
          bindR (py_range (q_start_ms query) (q_end_ms query) duration) (\<lambda>expected.
            let present = set (map cb_time (filter (\<lambda>b. q_start_ms query \<le> cb_time b \<and> cb_time b < q_end_ms query) bars))
            in Inr (map (\<lambda>start. (start, min (start + duration) (q_end_ms query)))
                     (filter (\<lambda>start. start \<notin> present) expected))))"

definition duplicate_times :: "int list \<Rightarrow> int list" where
  "duplicate_times ts = filter (\<lambda>t. 1 < count_list ts t) (sort (remdups ts))"

definition make_coverage_report :: "bar_query \<Rightarrow> contract_bar list \<Rightarrow> string \<Rightarrow> coverage_report res" where
  "make_coverage_report query bars source =
     (if bars = [] then
        Inr \<lparr>cr_requested_start_ms = q_start_ms query, cr_requested_end_ms = q_end_ms query,
             cr_delivered_start_ms = None, cr_delivered_end_ms = None,
             cr_missing_intervals = [(q_start_ms query, q_end_ms query)],
             cr_duplicate_timestamps = [], cr_source_mix = [source], cr_status = Empty\<rparr>
      else
        (let ordered = sort_key cb_time bars;
             duplicate_timestamps = duplicate_times (map cb_time ordered);
             unordered = (bars \<noteq> ordered) in
         bindR (missing_intervals_for query ordered) (\<lambda>missing_intervals.
           let status = (if duplicate_timestamps \<noteq> [] then Duplicate
                         else if unordered then Unordered
                         else if missing_intervals \<noteq> [] then Gap else Valid)
           in Inr \<lparr>cr_requested_start_ms = q_start_ms query, cr_requested_end_ms = q_end_ms query,
                   cr_delivered_start_ms = Some (cb_time (hd ordered)),
                   cr_delivered_end_ms = Some (bar_exclusive_end (last ordered) (q_timeframe query)),
                   cr_missing_intervals = missing_intervals,
                   cr_duplicate_timestamps = duplicate_timestamps, cr_source_mix = [source],
                   cr_status = status\<rparr>)))"

definition series_of :: "bar_query \<Rightarrow> string \<Rightarrow> contract_bar list \<Rightarrow> bar_series res" where
  "series_of query source contract_bars =
     bindR (make_coverage_report query contract_bars source) (\<lambda>coverage.
       Inr \<lparr>bs_query = query, bs_bars = contract_bars, bs_coverage = coverage\<rparr>)"

text \<open>A core \<open>Bar\<close> has no \<open>is_closed\<close> attribute: it counts as closed.\<close>

definition series_from_core_bars :: "bar_query \<Rightarrow> bar list \<Rightarrow> string \<Rightarrow> bar_series res" where
  "series_from_core_bars query bars source =
     bindR (mapR (core_to_contract_bar (q_instrument query) (q_timeframe query) True) bars)
       (series_of query source)"

definition market_bar_to_contract :: "bar_query \<Rightarrow> market_bar \<Rightarrow> contract_bar res" where
  "market_bar_to_contract query b =
     (let or = (\<lambda>x d. if x \<noteq> [] then x else d); ik = q_instrument query in
      bindR (make_instrument (or (m_exchange b) (ik_exchange ik)) (or (m_market b) (ik_market ik))
               (or (m_symbol b) (ik_symbol ik))) (\<lambda>instrument.
      core_to_contract_bar instrument (q_timeframe query) (m_is_closed b = Some True) b))"

definition series_from_market_bars :: "bar_query \<Rightarrow> market_bar list \<Rightarrow> string \<Rightarrow> bar_series res" where
  "series_from_market_bars query bars source =
     bindR (mapR (market_bar_to_contract query) bars) (series_of query source)"

definition volume_or_zero :: "float64 option \<Rightarrow> float64" where
  "volume_or_zero v = (case v of None \<Rightarrow> f_zero | Some x \<Rightarrow> if f_truthy x then x else f_zero)"

definition contract_bar_payload :: "contract_bar \<Rightarrow> json" where
  "contract_bar_payload b =
     JObj [(''instrument_id'', JStr (serialize_instrument (cb_instrument b))),
           (''timeframe'', JStr (tf_canonical (cb_timeframe b))),
           (''time'', JInt (cb_time b)), (''time_close'', JInt (cb_time_close b)),
           (''open'', JStr (f_repr (cb_open b))), (''high'', JStr (f_repr (cb_high b))),
           (''low'', JStr (f_repr (cb_low b))), (''close'', JStr (f_repr (cb_close b))),
           (''volume'', JStr (f_repr (volume_or_zero (cb_volume b)))), (''closed'', JBool (cb_closed b))]"

definition contract_to_market_bar :: "(json \<Rightarrow> string \<Rightarrow> string) \<Rightarrow> contract_bar \<Rightarrow> market_bar res" where
  "contract_to_market_bar content_hash b =
     market_bar_post_init (market_bar_defaults
       \<lparr>b_time := cb_time b, b_open := cb_open b, b_high := cb_high b, b_low := cb_low b,
        b_close := cb_close b, b_volume := volume_or_zero (cb_volume b),
        b_time_close := Some (cb_time_close b), m_exchange := ik_exchange (cb_instrument b),
        m_market := ik_market (cb_instrument b), m_symbol := ik_symbol (cb_instrument b),
        m_timeframe := tf_canonical (cb_timeframe b), m_source_transport := ''api'',
        m_source_kind := ''trade_kline'', m_is_closed := Some (cb_closed b),
        m_provider := ik_exchange (cb_instrument b),
        m_provider_revision :=
          Some (content_hash (contract_bar_payload b) ''marketdata-provider.compat-v4-bar.v1'')\<rparr>)"

subsection \<open>Duplicates, order and gaps\<close>

lemma count_list_gt1: "distinct xs \<longleftrightarrow> (\<forall>t. count_list xs t \<le> 1)"
proof (induction xs)
  case Nil
  show ?case by simp
next
  case (Cons x xs)
  have "x \<notin> set xs \<longleftrightarrow> count_list xs x = 0" by (simp add: count_list_0_iff)
  then show ?case using Cons by (auto simp: le_Suc_eq split: if_splits)
qed

lemma duplicate_times_Nil: "duplicate_times ts = [] \<longleftrightarrow> distinct ts"
proof -
  have "duplicate_times ts = [] \<longleftrightarrow> (\<forall>t \<in> set ts. count_list ts t \<le> 1)"
    by (auto simp: duplicate_times_def filter_empty_conv not_less)
  also have "\<dots> \<longleftrightarrow> (\<forall>t. count_list ts t \<le> 1)" by (metis count_list_0_iff zero_le)
  finally show ?thesis by (simp add: count_list_gt1)
qed

lemma duplicate_times_mem: "t \<in> set (duplicate_times ts) \<longleftrightarrow> 1 < count_list ts t"
  using count_list_0_iff [of ts t] by (auto simp: duplicate_times_def)

lemma sort_key_fix: "sort_key f xs = xs \<longleftrightarrow> sorted (map f xs)"
  by (metis sorted_sort_key sorted_sort_id sort_key_id_if_sorted)

lemma missing_intervals_fixed:
  assumes "tf_duration_ms (q_timeframe q) = Some d" and "0 < d"
  shows "missing_intervals_for q bars =
    Inr (map (\<lambda>s. (s, min (s + d) (q_end_ms q)))
          (filter (\<lambda>s. s \<notin> cb_time ` set bars) (range_pos (q_start_ms q) (q_end_ms q) d)))"
proof -
  have "filter (\<lambda>s. s \<notin> set (map cb_time (filter (\<lambda>b. q_start_ms q \<le> cb_time b \<and> cb_time b < q_end_ms q) bars)))
          (range_pos (q_start_ms q) (q_end_ms q) d) =
        filter (\<lambda>s. s \<notin> cb_time ` set bars) (range_pos (q_start_ms q) (q_end_ms q) d)"
    using assms(2) by (intro filter_cong) (auto simp: range_pos_mem)
  then show ?thesis using assms by (simp add: missing_intervals_for_def py_range_pos Let_def)
qed

lemma missing_intervals_set:
  "set (map (\<lambda>s. (s, min (s + d) e)) (filter (\<lambda>s. s \<notin> T) xs)) = (\<lambda>s. (s, min (s + d) e)) ` {s \<in> set xs. s \<notin> T}"
  by auto

text \<open>The grid slot of an instant.\<close>

definition slot :: "int \<Rightarrow> int \<Rightarrow> int \<Rightarrow> int" where
  "slot start d x = start + (x - start) div d * d"

lemma slot_props:
  assumes "0 < d" and "start \<le> x"
  shows "start \<le> slot start d x" and "slot start d x \<le> x" and "x < slot start d x + d"
    and "d dvd slot start d x - start"
proof -
  have eq: "x - start = (x - start) div d * d + (x - start) mod d" by simp
  have "0 \<le> (x - start) mod d" "(x - start) mod d < d" using assms by simp_all
  with eq show "slot start d x \<le> x" "x < slot start d x + d" unfolding slot_def by linarith+
  show "start \<le> slot start d x" using assms by (simp add: slot_def pos_imp_zdiv_nonneg_iff)
  show "d dvd slot start d x - start" by (simp add: slot_def)
qed

lemma slot_unique:
  assumes "0 < d" and "start \<le> s" and "d dvd s - start" and "s \<le> x" and "x < s + d"
  shows "s = slot start d x"
proof -
  obtain k where k: "s - start = d * k" using assms(3) by blast
  have "(x - start) div d = k"
    using assms k by (intro int_div_pos_eq [where r = "x - s"]) (auto simp: algebra_simps)
  with k show ?thesis by (simp add: slot_def algebra_simps)
qed

text \<open>
  The reported gaps are exact. For a fixed-duration timeframe, an instant of the requested
  window lies in a reported missing interval iff no delivered bar opens at the start of the grid
  slot that holds the instant; the intervals are reported in increasing order and do not overlap.
\<close>

theorem missing_intervals_exact:
  assumes d: "tf_duration_ms (q_timeframe q) = Some d" "0 < d"
    and m: "missing_intervals_for q bars = Inr ms"
  shows "(\<forall>x. q_start_ms q \<le> x \<and> x < q_end_ms q \<longrightarrow>
            ((\<exists>(a, b) \<in> set ms. a \<le> x \<and> x < b) \<longleftrightarrow> slot (q_start_ms q) d x \<notin> cb_time ` set bars)) \<and>
         sorted_wrt (\<lambda>p r. snd p \<le> fst r) ms"
proof -
  let ?s = "q_start_ms q" and ?e = "q_end_ms q"
  let ?free = "filter (\<lambda>s. s \<notin> cb_time ` set bars) (range_pos ?s ?e d)"
  have ms: "ms = map (\<lambda>s. (s, min (s + d) ?e)) ?free" using m missing_intervals_fixed [OF d] by simp
  have free: "s \<in> set ?free \<longleftrightarrow> ?s \<le> s \<and> s < ?e \<and> d dvd s - ?s \<and> s \<notin> cb_time ` set bars" for s
    using d(2) by (auto simp: range_pos_mem)
  have "(\<exists>(a, b) \<in> set ms. a \<le> x \<and> x < b) \<longleftrightarrow> slot ?s d x \<notin> cb_time ` set bars"
    if x: "?s \<le> x" "x < ?e" for x
  proof -
    have "(\<exists>(a, b) \<in> set ms. a \<le> x \<and> x < b) \<longleftrightarrow> (\<exists>s \<in> set ?free. s \<le> x \<and> x < s + d)"
      using x by (auto simp: ms)
    also have "\<dots> \<longleftrightarrow> slot ?s d x \<in> set ?free"
      using slot_unique [OF d(2)] slot_props [OF d(2) x(1)] free by blast
    also have "\<dots> \<longleftrightarrow> slot ?s d x \<notin> cb_time ` set bars"
      using slot_props [OF d(2) x(1)] x unfolding free by auto
    finally show ?thesis .
  qed
  moreover have "sorted_wrt (\<lambda>p r. snd p \<le> fst r) ms"
  proof -
    have "sorted_wrt (<) ?free" using range_pos_sorted [OF d(2)] by (intro sorted_wrt_filter)
    then have "sorted_wrt (\<lambda>a b. min (a + d) ?e \<le> b) ?free"
    proof (rule sorted_wrt_mono_rel [rotated])
      fix a b assume ab: "a \<in> set ?free" "b \<in> set ?free" "a < b"
      then have "d dvd b - a" unfolding free by (metis dvd_diff diff_diff_eq2 diff_add_cancel add_diff_cancel_right)
      with ab(3) d(2) have "d \<le> b - a" by (intro zdvd_imp_le) auto
      then show "min (a + d) ?e \<le> b" by auto
    qed
    then show ?thesis by (simp add: ms sorted_wrt_map)
  qed
  ultimately show ?thesis by blast
qed

theorem missing_intervals_exact_witness:
  "\<exists>q bars ms. missing_intervals_for q bars = Inr ms \<and> (120000, 150000) \<in> set ms \<and>
     slot (q_start_ms q) 60000 130000 \<notin> cb_time ` set bars"
proof -
  define tf where "tf = \<lparr>tf_raw = ''1m'', tf_canonical = ''1m'', tf_multiplier = 1, tf_unit = Minute,
    tf_duration_ms = Some 60000\<rparr>"
  define ik where "ik = \<lparr>ik_exchange = ''binance'', ik_market = ''spot'', ik_symbol = ''BTCUSDT''\<rparr>"
  define q where "q = \<lparr>q_instrument = ik, q_timeframe = tf, q_start_ms = 60000, q_end_ms = 150000,
    q_source = ''auto'', q_gap_policy = ''fail'', q_error_policy = ''raise''\<rparr>"
  define b where "b = \<lparr>cb_instrument = ik, cb_timeframe = tf, cb_time = 60000, cb_time_close = 119999,
    cb_open = 0, cb_high = 0, cb_low = 0, cb_close = 0, cb_volume = None, cb_closed = True\<rparr>"
  have d: "tf_duration_ms (q_timeframe q) = Some 60000" "(0::int) < 60000" by (simp_all add: q_def tf_def)
  have m: "missing_intervals_for q [b] = Inr [(120000, 150000)]"
    unfolding q_def b_def tf_def ik_def by code_simp
  have "q_start_ms q = 60000" "q_end_ms q = 150000" by (simp_all add: q_def)
  with missing_intervals_exact [OF d m] have "slot (q_start_ms q) 60000 130000 \<notin> cb_time ` set [b]"
    by (elim conjE allE [of _ 130000]) simp
  with m show ?thesis by (intro exI [of _ q] exI [of _ "[b]"] exI [of _ "[(120000, 150000)]"]) simp
qed

lemma report_complete_iff:
  assumes d: "tf_duration_ms (q_timeframe q) = Some d" "0 < d"
    and r: "make_coverage_report q bars source = Inr r"
  shows "is_complete r \<longleftrightarrow> bars \<noteq> [] \<and> sorted_wrt (<) (map cb_time bars) \<and>
     (\<forall>t. q_start_ms q \<le> t \<and> t < q_end_ms q \<and> d dvd t - q_start_ms q \<longrightarrow> t \<in> cb_time ` set bars)"
proof (cases "bars = []")
  case True
  then show ?thesis using r by (auto simp: make_coverage_report_def is_complete_def)
next
  case False
  define ordered where "ordered = sort_key cb_time bars"
  have st: "set ordered = set bars" and di: "distinct (map cb_time ordered) \<longleftrightarrow> distinct (map cb_time bars)"
    by (auto simp: ordered_def distinct_map inj_on_def)
  define ms where "ms = map (\<lambda>s. (s, min (s + d) (q_end_ms q)))
          (filter (\<lambda>s. s \<notin> cb_time ` set bars) (range_pos (q_start_ms q) (q_end_ms q) d))"
  have "missing_intervals_for q ordered = Inr ms"
    using missing_intervals_fixed [OF d, of ordered] by (simp add: st ms_def)
  then have "is_complete r \<longleftrightarrow> duplicate_times (map cb_time ordered) = [] \<and> bars = ordered \<and> ms = []"
    using r False
    by (auto simp: make_coverage_report_def is_complete_def ordered_def [symmetric] Let_def split: if_splits)
  also have "\<dots> \<longleftrightarrow> distinct (map cb_time bars) \<and> sorted (map cb_time bars) \<and> ms = []"
    using sort_key_fix [of cb_time bars] by (auto simp: duplicate_times_Nil di ordered_def)
  also have "\<dots> \<longleftrightarrow> sorted_wrt (<) (map cb_time bars) \<and>
     (\<forall>t. q_start_ms q \<le> t \<and> t < q_end_ms q \<and> d dvd t - q_start_ms q \<longrightarrow> t \<in> cb_time ` set bars)"
    using d(2) by (auto simp: ms_def strict_sorted_iff filter_empty_conv range_pos_mem)
  finally show ?thesis using False by simp
qed

text \<open>
  C25. A coverage report is complete exactly when the delivery is: some bar was delivered, open times
  strictly increase as delivered, and every grid slot of the requested window has its bar.
\<close>

theorem coverage_complete_exact:
  assumes d: "tf_duration_ms (q_timeframe q) = Some d" "0 < d"
    and r: "make_coverage_report q bars source = Inr r"
  shows "is_complete r \<longleftrightarrow> bars \<noteq> [] \<and> sorted_wrt (<) (map cb_time bars) \<and>
     (\<forall>t. q_start_ms q \<le> t \<and> t < q_end_ms q \<and> d dvd t - q_start_ms q \<longrightarrow> t \<in> cb_time ` set bars)"
  by (rule report_complete_iff [OF assms])

theorem coverage_complete_exact_witness:
  "\<exists>q b r. make_coverage_report q [b] ''storage'' = Inr r \<and> is_complete r \<and> cb_time b = 60000"
proof -
  define tf where "tf = \<lparr>tf_raw = ''1m'', tf_canonical = ''1m'', tf_multiplier = 1, tf_unit = Minute,
    tf_duration_ms = Some 60000\<rparr>"
  define ik where "ik = \<lparr>ik_exchange = ''binance'', ik_market = ''spot'', ik_symbol = ''BTCUSDT''\<rparr>"
  define q where "q = \<lparr>q_instrument = ik, q_timeframe = tf, q_start_ms = 60000, q_end_ms = 120000,
    q_source = ''auto'', q_gap_policy = ''fail'', q_error_policy = ''raise''\<rparr>"
  define b where "b = \<lparr>cb_instrument = ik, cb_timeframe = tf, cb_time = 60000, cb_time_close = 119999,
    cb_open = 0, cb_high = 0, cb_low = 0, cb_close = 0, cb_volume = None, cb_closed = True\<rparr>"
  have d: "tf_duration_ms (q_timeframe q) = Some 60000" "(0::int) < 60000" by (simp_all add: q_def tf_def)
  have "\<exists>r. make_coverage_report q [b] ''storage'' = Inr r"
    using missing_intervals_fixed [OF d] by (simp add: make_coverage_report_def Let_def)
  then obtain r where r: "make_coverage_report q [b] ''storage'' = Inr r" by blast
  have "t = 60000" if t: "60000 \<le> t" "t < 120000" "60000 dvd t - 60000" for t :: int
  proof -
    obtain k where k: "t - 60000 = 60000 * k" using t(3) by blast
    with t(1,2) have "0 \<le> k" "k < 1" by linarith+
    with k show ?thesis by simp
  qed
  then have "is_complete r"
    using coverage_complete_exact [OF d r] by (auto simp: q_def b_def)
  with r show ?thesis by (intro exI [of _ q] exI [of _ b] exI [of _ r]) (simp add: b_def)
qed

end
