(* ===== verification/Footprint.thy ===== *)
theory Footprint
  imports Adapters "HOL-Library.Multiset"
begin

section \<open>Footprints: aggregation of trades and the footprint store\<close>

text \<open>
  Models \<^verbatim>\<open>footprint/aggregate.py\<close> and \<^verbatim>\<open>store/footprint_store.py\<close>. Price
  buckets are keyed by floats: a key is found when it compares equal. Sorting compares the
  signed magnitudes of the keys; a NaN key, which only an infinite bucket size produces, is
  outside the model. The store is a map from a data path to the rows of the CSV file and to
  its manifest; a row is the list of its nine fields as text (they hold no comma, quote or line
  break, so the CSV framing adds nothing). Writing through a temporary file and
  \<open>os.replace\<close> is one step.
\<close>

subsection \<open>Aggregation (\<^verbatim>\<open>footprint/aggregate.py\<close>)\<close>

record level_acc =
  la_buy :: float64
  la_sell :: float64
  la_buys :: int
  la_sells :: int

type_synonym price_levels = "(float64 \<times> level_acc) list"
type_synonym footprint_acc = "(int \<times> price_levels) list \<times> (int \<times> int) list"

definition new_level :: level_acc where
  "new_level = \<lparr>la_buy = f_zero, la_sell = f_zero, la_buys = 0, la_sells = 0\<rparr>"

definition add_trade :: "agg_trade \<Rightarrow> level_acc \<Rightarrow> level_acc" where
  "add_trade t l =
     (if at_buyer_maker t
      then l\<lparr>la_sell := f_add (la_sell l) (at_quantity t), la_sells := la_sells l + 1\<rparr>
      else l\<lparr>la_buy := f_add (la_buy l) (at_quantity t), la_buys := la_buys l + 1\<rparr>)"

text \<open>\<open>levels.setdefault(price, [0.0, 0.0, 0, 0])\<close>, then the in-place update of the level.\<close>

fun update_level :: "float64 \<Rightarrow> agg_trade \<Rightarrow> price_levels \<Rightarrow> price_levels" where
  "update_level p t [] = [(p, add_trade t new_level)]"
| "update_level p t ((k, l) # ls) = (if f_eq k p then (k, add_trade t l) # ls else (k, l) # update_level p t ls)"

definition dict_get :: "('k \<times> 'v) list \<Rightarrow> 'k \<Rightarrow> 'v \<Rightarrow> 'v" where
  "dict_get d k dflt = (case map_of d k of Some v \<Rightarrow> v | None \<Rightarrow> dflt)"

definition price_bucket_of :: "float64 \<Rightarrow> float64 \<Rightarrow> float64 res" where
  "price_bucket_of price bucket =
     bindR (f_div price bucket) (\<lambda>r. bindR (f_floor r) (\<lambda>n. Inr (f_mul (f_of_int n) bucket)))"

definition aggregate_step ::
  "footprint_query \<Rightarrow> int \<Rightarrow> float64 \<Rightarrow> footprint_acc \<Rightarrow> agg_trade \<Rightarrow> footprint_acc res" where
  "aggregate_step q duration bucket acc t =
     (case acc of (buckets, counts) \<Rightarrow>
       if \<not> (fq_start_ms q \<le> at_time t \<and> at_time t < fq_end_ms q) then Inr acc
       else if duration = 0 then Inl (PyZeroDivisionError ''integer division or modulo by zero'')
       else
         (let bar_time = at_time t div duration * duration in
          if \<not> (fq_start_ms q \<le> bar_time \<and> bar_time < fq_end_ms q) then Inr acc
          else bindR (price_bucket_of (at_price t) bucket) (\<lambda>price_low.
            Inr (AList.update bar_time (update_level price_low t (dict_get buckets bar_time [])) buckets,
                 AList.update bar_time (dict_get counts bar_time 0 + 1) counts))))"

fun aggregate_loop ::
  "footprint_query \<Rightarrow> int \<Rightarrow> float64 \<Rightarrow> footprint_acc \<Rightarrow> agg_trade list \<Rightarrow> footprint_acc res" where
  "aggregate_loop q duration bucket acc [] = Inr acc"
| "aggregate_loop q duration bucket acc (t # ts) =
     bindR (aggregate_step q duration bucket acc t) (\<lambda>acc'. aggregate_loop q duration bucket acc' ts)"

definition footprint_levels :: "float64 \<Rightarrow> price_levels \<Rightarrow> footprint_level list" where
  "footprint_levels bucket levels =
     map (\<lambda>(price, l). \<lparr>fl_price_low = price, fl_price_high = f_add price bucket, fl_buy_volume = la_buy l,
            fl_sell_volume = la_sell l, fl_buy_count = la_buys l, fl_sell_count = la_sells l\<rparr>)
         (sort_key (\<lambda>kv. f_key (fst kv)) levels)"

definition footprint_bars :: "int \<Rightarrow> float64 \<Rightarrow> footprint_acc \<Rightarrow> footprint_bar list" where
  "footprint_bars duration bucket acc =
     map (\<lambda>t. \<lparr>fb_time = t, fb_time_close = t + duration,
               fb_levels = footprint_levels bucket (dict_get (fst acc) t []),
               fb_trades_count = dict_get (snd acc) t 0\<rparr>) (sort (map fst (fst acc)))"

definition query_duration :: "footprint_query \<Rightarrow> int" where
  "query_duration q = (case tf_duration_ms (fq_timeframe q) of Some d \<Rightarrow> d | None \<Rightarrow> 0)"

definition aggregate_trades_to_footprint :: "agg_trade list \<Rightarrow> footprint_query \<Rightarrow> footprint_bar list res" where
  "aggregate_trades_to_footprint trades q =
     bindR (bucket_size q) (\<lambda>bucket.
     bindR (aggregate_loop q (query_duration q) bucket ([], []) trades) (\<lambda>acc.
     Inr (footprint_bars (query_duration q) bucket acc)))"

subsection \<open>The store (\<^verbatim>\<open>store/footprint_store.py\<close>)\<close>

type_synonym footprint_row = "string list"

record footprint_manifest =
  fm_schema_version :: string
  fm_exchange :: string
  fm_market :: string
  fm_symbol :: string
  fm_raw_source :: string
  fm_timeframe :: string
  fm_price_bucket :: float64
  fm_start_time :: "int option"
  fm_end_time :: "int option"
  fm_rows_count :: int
  fm_checksum :: string

record footprint_store =
  fps_files :: "(string \<times> footprint_row list) list"
  fps_manifests :: "(string \<times> footprint_manifest) list"

definition footprint_coverage :: "footprint_query \<Rightarrow> footprint_bar list \<Rightarrow> coverage_report res" where
  "footprint_coverage q bars =
     bindR (py_range (fq_start_ms q) (fq_end_ms q) (query_duration q)) (\<lambda>starts.
       let missing = map (\<lambda>s. (s, min (s + query_duration q) (fq_end_ms q)))
                       (filter (\<lambda>s. s \<notin> set (map fb_time bars)) starts)
       in Inr \<lparr>cr_requested_start_ms = fq_start_ms q, cr_requested_end_ms = fq_end_ms q,
               cr_delivered_start_ms = (if bars = [] then None else Some (fb_time (hd bars))),
               cr_delivered_end_ms = (if bars = [] then None else Some (fb_time_close (last bars))),
               cr_missing_intervals = missing, cr_duplicate_timestamps = [], cr_source_mix = [''footprint''],
               cr_status = (if bars = [] then Empty else if missing \<noteq> [] then Gap else Valid)\<rparr>)"

definition replace_dots :: "string \<Rightarrow> string" where
  "replace_dots s = map (\<lambda>c. if c = CHR ''.'' then CHR ''_'' else c) s"

definition footprint_path :: "footprint_query \<Rightarrow> string res" where
  "footprint_path q =
     bindR (bucket_size q) (\<lambda>b.
       Inr (''footprint-v1/exchange='' @ ik_exchange (fq_instrument q) @
            ''/market='' @ ik_market (fq_instrument q) @ ''/symbol='' @ ik_symbol (fq_instrument q) @
            ''/raw_source=agg_trades/timeframe='' @ tf_canonical (fq_timeframe q) @
            ''/bucket='' @ replace_dots (f_repr b) @ ''/footprint.csv''))"

definition footprint_row_of :: "footprint_bar \<Rightarrow> footprint_level \<Rightarrow> footprint_row" where
  "footprint_row_of b l =
     [str_of_int (fb_time b), str_of_int (fb_time_close b), f_repr (fl_price_low l), f_repr (fl_price_high l),
      f_repr (fl_buy_volume l), f_repr (fl_sell_volume l), str_of_int (fl_buy_count l),
      str_of_int (fl_sell_count l), str_of_int (fb_trades_count b)]"

definition footprint_rows :: "footprint_bar list \<Rightarrow> footprint_row list" where
  "footprint_rows bars = concat (map (\<lambda>b. map (footprint_row_of b) (fb_levels b)) bars)"

text \<open>One pass of the reader: open time, close time, trade count and level of a row in the window.\<close>

definition parse_footprint_row ::
  "footprint_query \<Rightarrow> footprint_row \<Rightarrow> (int \<times> int \<times> int \<times> footprint_level) option res" where
  "parse_footprint_row q row =
     (case row of [time, time_close, price_low, price_high, buy_volume, sell_volume, buy_count, sell_count, trades_count] \<Rightarrow>
        bindR (py_int time) (\<lambda>t.
        if \<not> (fq_start_ms q \<le> t \<and> t < fq_end_ms q) then Inr None
        else
          bindR (py_int time_close) (\<lambda>c. bindR (py_int trades_count) (\<lambda>n.
          bindR (py_float price_low) (\<lambda>pl. bindR (py_float price_high) (\<lambda>ph.
          bindR (py_float buy_volume) (\<lambda>bv. bindR (py_float sell_volume) (\<lambda>sv.
          bindR (py_int buy_count) (\<lambda>bc. bindR (py_int sell_count) (\<lambda>sc.
          Inr (Some (t, c, n, \<lparr>fl_price_low = pl, fl_price_high = ph, fl_buy_volume = bv, fl_sell_volume = sv,
                               fl_buy_count = bc, fl_sell_count = sc\<rparr>)))))))))))
      | _ \<Rightarrow> Inl (PyKeyError ''footprint row''))"

definition add_parsed_row ::
  "(int \<times> int \<times> int \<times> footprint_level list) list \<Rightarrow> (int \<times> int \<times> int \<times> footprint_level) option \<Rightarrow>
   (int \<times> int \<times> int \<times> footprint_level list) list" where
  "add_parsed_row d r =
     (case r of None \<Rightarrow> d
      | Some (t, c, n, l) \<Rightarrow>
          AList.update t (c, n, (case map_of d t of Some (_, _, ls) \<Rightarrow> ls @ [l] | None \<Rightarrow> [l])) d)"

definition read_footprint_bars :: "footprint_query \<Rightarrow> footprint_row list \<Rightarrow> footprint_bar list res" where
  "read_footprint_bars q rows =
     bindR (mapR (parse_footprint_row q) rows) (\<lambda>parsed.
       let d = foldl add_parsed_row [] parsed
       in Inr (map (\<lambda>t. case dict_get d t (0, 0, []) of (c, n, ls) \<Rightarrow>
                 \<lparr>fb_time = t, fb_time_close = c,
                  fb_levels = sort_key (\<lambda>l. f_key (fl_price_low l)) ls, fb_trades_count = n\<rparr>)
                (sort (map fst d))))"

definition footprint_read :: "footprint_store \<Rightarrow> footprint_query \<Rightarrow> footprint_series res" where
  "footprint_read st q =
     bindR (footprint_path q) (\<lambda>path.
     bindR (case map_of (fps_files st) path of None \<Rightarrow> Inr [] | Some rows \<Rightarrow> read_footprint_bars q rows) (\<lambda>bars.
     bindR (footprint_coverage q bars) (\<lambda>cov.
     Inr \<lparr>fs_query = q, fs_bars = bars, fs_coverage = cov\<rparr>)))"

definition merge_footprint_bars :: "footprint_bar list \<Rightarrow> footprint_bar list \<Rightarrow> footprint_bar list" where
  "merge_footprint_bars existing new = sorted_vals (dict_extend fb_time (dict_of fb_time existing) new)"

text \<open>The digest over the sorted-key JSON lines of the levels; \<open>sha256\<close> is \<open>hashlib.sha256(...).hexdigest()\<close>.\<close>

definition json_float_text :: "float64 \<Rightarrow> string" where
  "json_float_text x =
     (if f_isnan x then ''NaN'' else if f_isinf x then (if f_neg x then ''-Infinity'' else ''Infinity'')
      else f_repr x)"

definition json_field :: "string \<Rightarrow> string \<Rightarrow> string" where
  "json_field k v = CHR 0x22 # k @ CHR 0x22 # CHR '':'' # v"

definition footprint_line :: "footprint_bar \<Rightarrow> footprint_level \<Rightarrow> string" where
  "footprint_line b l =
     ''{'' @ json_field ''buy_count'' (str_of_int (fl_buy_count l)) @ '','' @
     json_field ''buy_volume'' (json_float_text (fl_buy_volume l)) @ '','' @
     json_field ''price_high'' (json_float_text (fl_price_high l)) @ '','' @
     json_field ''price_low'' (json_float_text (fl_price_low l)) @ '','' @
     json_field ''sell_count'' (str_of_int (fl_sell_count l)) @ '','' @
     json_field ''sell_volume'' (json_float_text (fl_sell_volume l)) @ '','' @
     json_field ''time'' (str_of_int (fb_time b)) @ '','' @
     json_field ''time_close'' (str_of_int (fb_time_close b)) @ ''}'' @ [CHR 0x0A]"

definition footprint_checksum :: "(string \<Rightarrow> string) \<Rightarrow> footprint_bar list \<Rightarrow> string" where
  "footprint_checksum sha256 bars = sha256 (concat (map (\<lambda>b. concat (map (footprint_line b) (fb_levels b))) bars))"

definition footprint_write ::
  "(string \<Rightarrow> string) \<Rightarrow> footprint_series \<Rightarrow> footprint_store \<Rightarrow> (store_result \<times> footprint_store) res" where
  "footprint_write sha256 series st =
     (let q = fs_query series in
      bindR (footprint_read st q) (\<lambda>old.
      bindR (footprint_path q) (\<lambda>path.
      bindR (bucket_size q) (\<lambda>bucket.
        let bars = merge_footprint_bars (fs_bars old) (fs_bars series);
            manifest = \<lparr>fm_schema_version = ''footprint-v1-csv-1'', fm_exchange = ik_exchange (fq_instrument q),
              fm_market = ik_market (fq_instrument q), fm_symbol = ik_symbol (fq_instrument q),
              fm_raw_source = ''agg_trades'', fm_timeframe = tf_canonical (fq_timeframe q),
              fm_price_bucket = bucket,
              fm_start_time = (if bars = [] then None else Some (fb_time (hd bars))),
              fm_end_time = (if bars = [] then None else Some (fb_time_close (last bars))),
              fm_rows_count = int (length (footprint_rows bars)), fm_checksum = footprint_checksum sha256 bars\<rparr>
        in Inr (\<lparr>sr_success = True, sr_rows_written = int (length (fs_bars series)), sr_error = None\<rparr>,
                st\<lparr>fps_files := AList.update path (footprint_rows bars) (fps_files st),
                   fps_manifests := AList.update path manifest (fps_manifests st)\<rparr>)))))"

definition footprint_store_coverage :: "footprint_store \<Rightarrow> footprint_query \<Rightarrow> coverage_report res" where
  "footprint_store_coverage st q = bindR (footprint_read st q) (\<lambda>s. Inr (fs_coverage s))"

subsection \<open>Aggregation accounts for every trade\<close>

definition bar_time_of :: "int \<Rightarrow> agg_trade \<Rightarrow> int" where
  "bar_time_of duration t = at_time t div duration * duration"

text \<open>The trades that are counted: in the window, and their bar opens in the window.\<close>

definition counted :: "footprint_query \<Rightarrow> int \<Rightarrow> agg_trade \<Rightarrow> bool" where
  "counted q duration t \<longleftrightarrow> fq_start_ms q \<le> at_time t \<and> at_time t < fq_end_ms q \<and>
     fq_start_ms q \<le> bar_time_of duration t \<and> bar_time_of duration t < fq_end_ms q"

definition trades_of :: "footprint_query \<Rightarrow> int \<Rightarrow> int \<Rightarrow> agg_trade list \<Rightarrow> agg_trade list" where
  "trades_of q duration T ts = filter (\<lambda>t. counted q duration t \<and> bar_time_of duration t = T) ts"

definition level_buys :: "price_levels \<Rightarrow> int" where
  "level_buys ls = sum_list (map (\<lambda>kl. la_buys (snd kl)) ls)"

definition level_sells :: "price_levels \<Rightarrow> int" where
  "level_sells ls = sum_list (map (\<lambda>kl. la_sells (snd kl)) ls)"

definition level_keys_ok :: "price_levels \<Rightarrow> bool" where
  "level_keys_ok ls \<longleftrightarrow> distinct (map (\<lambda>kl. f_key (fst kl)) ls) \<and> (\<forall>kl \<in> set ls. \<not> f_isnan (fst kl))"

lemma update_level_counts:
  "level_buys (update_level p t ls) = level_buys ls + (if at_buyer_maker t then 0 else 1)"
  "level_sells (update_level p t ls) = level_sells ls + (if at_buyer_maker t then 1 else 0)"
  by (induction p t ls rule: update_level.induct)
    (auto simp: level_buys_def level_sells_def add_trade_def new_level_def)

lemma update_level_keys:
  "(\<lambda>kl. f_key (fst kl)) ` set (update_level p t ls) \<subseteq> insert (f_key p) ((\<lambda>kl. f_key (fst kl)) ` set ls)"
  by (induction p t ls rule: update_level.induct) auto

lemma update_level_keys_ok: "level_keys_ok ls \<Longrightarrow> \<not> f_isnan p \<Longrightarrow> level_keys_ok (update_level p t ls)"
proof (induction p t ls rule: update_level.induct)
  case (1 p t)
  then show ?case by (simp add: level_keys_ok_def)
next
  case (2 p t k l ls)
  show ?case
  proof (cases "f_eq k p")
    case True
    then show ?thesis using "2.prems" by (auto simp: level_keys_ok_def)
  next
    case False
    with "2.prems" have "f_key k \<noteq> f_key p" by (auto simp: level_keys_ok_def f_eq_def)
    moreover have "level_keys_ok (update_level p t ls)"
      using 2 False by (auto simp: level_keys_ok_def)
    ultimately show ?thesis
      using False "2.prems" update_level_keys [of p t ls] by (auto simp: level_keys_ok_def)
  qed
qed

definition acc_ok :: "footprint_query \<Rightarrow> int \<Rightarrow> agg_trade list \<Rightarrow> footprint_acc \<Rightarrow> bool" where
  "acc_ok q duration ts acc \<longleftrightarrow>
     distinct (map fst (fst acc)) \<and>
     fst ` set (fst acc) = bar_time_of duration ` {t \<in> set ts. counted q duration t} \<and>
     (\<forall>T. dict_get (snd acc) T 0 = int (length (trades_of q duration T ts)) \<and>
          level_buys (dict_get (fst acc) T []) = int (length (filter (\<lambda>t. \<not> at_buyer_maker t) (trades_of q duration T ts))) \<and>
          level_sells (dict_get (fst acc) T []) = int (length (filter at_buyer_maker (trades_of q duration T ts))) \<and>
          level_keys_ok (dict_get (fst acc) T []))"

lemma dict_get_update: "dict_get (AList.update k v d) k' dflt = (if k' = k then v else dict_get d k' dflt)"
  by (simp add: dict_get_def update_conv')

lemma trades_of_snoc:
  "trades_of q d T (ts @ [t]) = trades_of q d T ts @ (if counted q d t \<and> bar_time_of d t = T then [t] else [])"
  by (simp add: trades_of_def)

lemma acc_ok_Nil: "acc_ok q d [] ([], [])"
  by (simp add: acc_ok_def trades_of_def dict_get_def level_buys_def level_sells_def level_keys_ok_def)

lemma acc_ok_skip:
  assumes "acc_ok q d ts acc" and "\<not> counted q d t"
  shows "acc_ok q d (ts @ [t]) acc"
proof -
  have "{x \<in> set (ts @ [t]). counted q d x} = {x \<in> set ts. counted q d x}" using assms(2) by auto
  then show ?thesis using assms by (simp add: acc_ok_def trades_of_snoc)
qed

lemma acc_ok_add:
  assumes ok: "acc_ok q d ts (buckets, counts)" and c: "counted q d t" and p: "\<not> f_isnan p"
  shows "acc_ok q d (ts @ [t])
    (AList.update (bar_time_of d t) (update_level p t (dict_get buckets (bar_time_of d t) [])) buckets,
     AList.update (bar_time_of d t) (dict_get counts (bar_time_of d t) 0 + 1) counts)"
proof -
  have keys: "fst ` set (AList.update k v buckets) = insert k (fst ` set buckets)" for k v
    using dom_update [of k v buckets] by (simp add: dom_map_of_conv_image_fst)
  have "{x \<in> set (ts @ [t]). counted q d x} = insert t {x \<in> set ts. counted q d x}" using c by auto
  then show ?thesis
    using assms
    by (auto simp: acc_ok_def dict_get_update trades_of_snoc update_level_counts update_level_keys_ok
        keys distinct_update)
qed

subsection \<open>Bucket prices are not NaN\<close>

lemma price_bucket_not_nan:
  assumes "price_bucket_of p b = Inr x" and "f_isfinite b"
  shows "\<not> f_isnan x"
proof -
  have "f_mag b \<noteq> 0" using assms(1) by (auto simp: price_bucket_of_def f_div_def Let_def)
  then show ?thesis using assms f_of_int_not_nan f_mul_not_nan
    by (auto simp: price_bucket_of_def res_simps)
qed

lemma acc_ok_step:
  assumes "acc_ok q d ts acc" and "aggregate_step q d b acc t = Inr acc'" and "f_isfinite b" and "d \<noteq> 0"
  shows "acc_ok q d (ts @ [t]) acc'"
proof (cases "counted q d t")
  case True
  obtain buckets counts where acc: "acc = (buckets, counts)" by (cases acc)
  obtain p where p: "price_bucket_of (at_price t) b = Inr p"
    and a: "acc' = (AList.update (bar_time_of d t) (update_level p t (dict_get buckets (bar_time_of d t) [])) buckets,
       AList.update (bar_time_of d t) (dict_get counts (bar_time_of d t) 0 + 1) counts)"
    using assms True by (auto simp: aggregate_step_def acc counted_def bar_time_of_def Let_def res_simps)
  show ?thesis
    using acc_ok_add [OF assms(1) [unfolded acc] True price_bucket_not_nan [OF p assms(3)]] by (simp add: a)
next
  case False
  then have "acc' = acc"
    using assms by (auto simp: aggregate_step_def counted_def bar_time_of_def Let_def split: prod.splits if_splits)
  then show ?thesis using acc_ok_skip [OF assms(1) False] by simp
qed

lemma acc_ok_loop:
  assumes "f_isfinite b" and "d \<noteq> 0"
  shows "acc_ok q d ts acc \<Longrightarrow> aggregate_loop q d b acc us = Inr acc' \<Longrightarrow> acc_ok q d (ts @ us) acc'"
proof (induction us arbitrary: ts acc)
  case Nil
  then show ?case by simp
next
  case (Cons u us)
  then obtain acc1 where s: "aggregate_step q d b acc u = Inr acc1" "aggregate_loop q d b acc1 us = Inr acc'"
    by (auto simp: res_simps)
  from Cons.IH [OF acc_ok_step [OF Cons.prems(1) s(1) assms] s(2)] show ?case by simp
qed

lemma sum_list_sort_key: "sum_list (map f (sort_key g xs)) = (sum_list (map f xs) :: int)"
  by (metis mset_map mset_sort sum_mset_sum_list)

lemma footprint_levels_counts:
  "sum_list (map fl_buy_count (footprint_levels b ls)) = level_buys ls"
  "sum_list (map fl_sell_count (footprint_levels b ls)) = level_sells ls"
proof -
  have "map fl_buy_count (footprint_levels b ls) = map (\<lambda>kl. la_buys (snd kl)) (sort_key (\<lambda>kv. f_key (fst kv)) ls)"
    "map fl_sell_count (footprint_levels b ls) = map (\<lambda>kl. la_sells (snd kl)) (sort_key (\<lambda>kv. f_key (fst kv)) ls)"
    by (auto simp: footprint_levels_def)
  then show "sum_list (map fl_buy_count (footprint_levels b ls)) = level_buys ls"
    "sum_list (map fl_sell_count (footprint_levels b ls)) = level_sells ls"
    by (simp_all only: sum_list_sort_key level_buys_def level_sells_def)
qed

lemma footprint_levels_sorted:
  assumes "level_keys_ok ls"
  shows "sorted_wrt f_lt (map fl_price_low (footprint_levels b ls))"
proof -
  define xs where "xs = sort_key (\<lambda>kv. f_key (fst kv)) ls"
  have "sorted (map (\<lambda>kv. f_key (fst kv)) xs)" "distinct (map (\<lambda>kv. f_key (fst kv)) xs)"
    using assms by (auto simp: xs_def level_keys_ok_def distinct_map inj_on_def)
  then have "sorted_wrt (\<lambda>a b. f_key (fst a) < f_key (fst b)) xs"
    using strict_sorted_iff [of "map (\<lambda>kv. f_key (fst kv)) xs"] by (simp add: sorted_wrt_map)
  moreover have "\<not> f_isnan (fst kl)" if "kl \<in> set xs" for kl
    using that assms by (auto simp: xs_def level_keys_ok_def)
  ultimately have "sorted_wrt (\<lambda>a b. f_lt (fst a) (fst b)) xs"
    by (auto elim!: sorted_wrt_mono_rel [rotated] simp: f_lt_def)
  then show ?thesis
    by (simp add: footprint_levels_def xs_def [symmetric] sorted_wrt_map split_def)
qed

lemma sorted_grid: "distinct (map fst (d::(int \<times> 'a) list)) \<Longrightarrow> sorted_wrt (<) (sort (map fst d))"
  by (simp add: strict_sorted_iff)

text \<open>
  Footprint aggregation accounts for every trade. For a fixed duration and a finite bucket size,
  the bars come out strictly ordered in time; there is a bar exactly for the times at which a
  counted trade falls; a bar's trade count, and the buy and sell counts over its levels, are the
  numbers of such trades; and its levels are strictly ordered by price.
\<close>

theorem aggregate_accounts:
  assumes "aggregate_trades_to_footprint trades q = Inr bars" and "bucket_size q = Inr b" and "f_isfinite b"
    and "tf_duration_ms (fq_timeframe q) = Some d" and "d \<noteq> 0"
  shows "sorted_wrt (<) (map fb_time bars) \<and>
     set (map fb_time bars) = bar_time_of d ` {t \<in> set trades. counted q d t} \<and>
     (\<forall>x \<in> set bars. fb_trades_count x = int (length (trades_of q d (fb_time x) trades)) \<and>
        sum_list (map fl_buy_count (fb_levels x)) =
          int (length (filter (\<lambda>t. \<not> at_buyer_maker t) (trades_of q d (fb_time x) trades))) \<and>
        sum_list (map fl_sell_count (fb_levels x)) =
          int (length (filter at_buyer_maker (trades_of q d (fb_time x) trades))) \<and>
        sorted_wrt f_lt (map fl_price_low (fb_levels x)))"
proof -
  have d: "query_duration q = d" using assms(4) by (simp add: query_duration_def)
  obtain acc where l: "aggregate_loop q d b ([], []) trades = Inr acc" and bars: "bars = footprint_bars d b acc"
    using assms(1,2) by (auto simp: aggregate_trades_to_footprint_def res_simps d)
  have ok: "acc_ok q d trades acc" using acc_ok_loop [OF assms(3,5) acc_ok_Nil l] by simp
  have times: "map fb_time bars = sort (map fst (fst acc))"
    by (simp add: bars footprint_bars_def comp_def)
  show ?thesis
    using ok unfolding times
    by (auto simp: acc_ok_def sorted_grid bars footprint_bars_def footprint_levels_counts footprint_levels_sorted)
qed

theorem aggregate_accounts_witness:
  "\<exists>q t bars. aggregate_trades_to_footprint [t, t] q = Inr bars \<and> length bars = 1 \<and>
     fb_trades_count (hd bars) = 2"
proof -
  define tf where "tf = \<lparr>tf_raw = ''1m'', tf_canonical = ''1m'', tf_multiplier = 1, tf_unit = Minute,
    tf_duration_ms = Some 60000\<rparr>"
  define ik where "ik = \<lparr>ik_exchange = ''binance'', ik_market = ''spot'', ik_symbol = ''BTCUSDT''\<rparr>"
  define b where "b = f_of_int 10"
  define q where "q = \<lparr>fq_instrument = ik, fq_timeframe = tf, fq_start_ms = 60000, fq_end_ms = 180000,
    fq_price_bucket = Some b, fq_tick_size = None, fq_ticks_per_row = 1, fq_source = ''auto'', fq_gap_policy = ''fail''\<rparr>"
  define t where "t = \<lparr>at_trade_id = 7, at_time = 70000, at_price = f_of_int 25, at_quantity = f_of_int 3, at_buyer_maker = True\<rparr>"
  have bs: "bucket_size q = Inr b" by (simp add: bucket_size_def q_def)
  have fin: "f_isfinite b" unfolding b_def by code_simp
  have dur: "tf_duration_ms (fq_timeframe q) = Some 60000" "(60000::int) \<noteq> 0" by (simp_all add: q_def tf_def)
  have pb: "price_bucket_of (at_price t) b = Inr (f_of_int 20)" unfolding t_def b_def by code_simp
  have st: "aggregate_step q 60000 b acc t = Inr
      (AList.update 60000 (update_level (f_of_int 20) t (dict_get (fst acc) 60000 [])) (fst acc),
       AList.update 60000 (dict_get (snd acc) 60000 0 + 1) (snd acc))" for acc
    using pb by (cases acc) (simp add: aggregate_step_def q_def t_def)
  have "\<exists>bars. aggregate_trades_to_footprint [t, t] q = Inr bars"
    by (simp add: aggregate_trades_to_footprint_def bs st query_duration_def dur)
  then obtain bars where r: "aggregate_trades_to_footprint [t, t] q = Inr bars" by blast
  have c: "counted q 60000 t" "bar_time_of 60000 t = 60000" by (simp_all add: counted_def bar_time_of_def q_def t_def)
  note a = aggregate_accounts [OF r bs fin dur]
  have s: "set (map fb_time bars) = {60000}" "distinct (map fb_time bars)"
    using a c by (auto simp: strict_sorted_iff)
  then obtain x where x: "bars = [x]" "fb_time x = 60000"
    by (cases bars; cases "tl bars") (auto simp: insert_eq_iff)
  then have "fb_trades_count x = 2" using a c by (simp add: trades_of_def)
  with r x show ?thesis by (intro exI [of _ q] exI [of _ t] exI [of _ bars]) simp
qed

subsection \<open>Reading back what was written\<close>

definition level_text_ok :: "footprint_level \<Rightarrow> bool" where
  "level_text_ok l \<longleftrightarrow> f_text_ok (fl_price_low l) \<and> f_text_ok (fl_price_high l) \<and>
     f_text_ok (fl_buy_volume l) \<and> f_text_ok (fl_sell_volume l)"

text \<open>A bar as the aggregation produces it: some level, levels ordered by price, texts that read back.\<close>

definition storable_bar :: "footprint_bar \<Rightarrow> bool" where
  "storable_bar b \<longleftrightarrow> fb_levels b \<noteq> [] \<and> sorted (map (\<lambda>l. f_key (fl_price_low l)) (fb_levels b)) \<and>
     list_all level_text_ok (fb_levels b)"

definition in_window :: "footprint_query \<Rightarrow> footprint_bar \<Rightarrow> bool" where
  "in_window q b \<longleftrightarrow> fq_start_ms q \<le> fb_time b \<and> fb_time b < fq_end_ms q"

lemma parse_row_of:
  assumes "level_text_ok l"
  shows "parse_footprint_row q (footprint_row_of b l) =
    Inr (if in_window q b then Some (fb_time b, fb_time_close b, fb_trades_count b, l) else None)"
  using assms
  by (simp add: parse_footprint_row_def footprint_row_of_def level_text_ok_def f_text_ok_def in_window_def)

lemma mapR_concat_rows:
  "list_all (\<lambda>b. list_all level_text_ok (fb_levels b)) bars \<Longrightarrow>
   mapR (parse_footprint_row q) (footprint_rows bars) =
   Inr (concat (map (\<lambda>b. map (\<lambda>l. if in_window q b then Some (fb_time b, fb_time_close b, fb_trades_count b, l) else None)
      (fb_levels b)) bars))"
proof (induction bars)
  case Nil
  show ?case by (simp add: footprint_rows_def)
next
  case (Cons b bars)
  have "mapR (parse_footprint_row q) (map (footprint_row_of b) (fb_levels b)) =
    Inr (map (\<lambda>l. if in_window q b then Some (fb_time b, fb_time_close b, fb_trades_count b, l) else None) (fb_levels b))"
    using Cons.prems by (subst mapR_Inr [where g = "\<lambda>r. the (case parse_footprint_row q r of Inr x \<Rightarrow> Some x | Inl _ \<Rightarrow> None)"])
      (auto simp: list_all_iff parse_row_of)
  with Cons show ?case by (simp add: footprint_rows_def mapR_append)
qed

lemma add_rows_fresh:
  assumes "fb_time b \<notin> fst ` set d" and "ls \<noteq> []"
  shows "foldl add_parsed_row d (map (\<lambda>l. Some (fb_time b, c, n, l)) ls) = d @ [(fb_time b, c, n, ls)]"
proof -
  have snoc: "foldl add_parsed_row (d @ [(fb_time b, c, n, ks)]) (map (\<lambda>l. Some (fb_time b, c, n, l)) ls) =
      d @ [(fb_time b, c, n, ks @ ls)]" for ks ls
  proof (induction ls arbitrary: ks)
    case Nil
    show ?case by simp
  next
    case (Cons l ls)
    have "map_of d (fb_time b) = None" using assms(1) by (simp add: map_of_eq_None_iff)
    moreover have "AList.update (fb_time b) v (d @ [(fb_time b, w)]) = d @ [(fb_time b, v)]" for v w
      using assms(1) by (induction d) auto
    ultimately show ?case using Cons [of "ks @ [l]"] by (simp add: add_parsed_row_def map_add_def)
  qed
  obtain l ls' where "ls = l # ls'" using assms(2) by (cases ls) auto
  moreover have "map_of d (fb_time b) = None" using assms(1) by (simp add: map_of_eq_None_iff)
  ultimately show ?thesis
    using snoc [of "[l]" ls'] assms(1) by (simp add: add_parsed_row_def update_nonexist)
qed

lemma add_rows_none: "foldl add_parsed_row d (map (\<lambda>l. None) ls) = d"
  by (induction ls) (simp_all add: add_parsed_row_def)

lemma add_rows_bars:
  assumes "distinct (map fb_time bars)" and "\<forall>b \<in> set bars. fb_time b \<notin> fst ` set d \<and> fb_levels b \<noteq> []"
  shows "foldl add_parsed_row d (concat (map (\<lambda>b. map (\<lambda>l. if in_window q b then
       Some (fb_time b, fb_time_close b, fb_trades_count b, l) else None) (fb_levels b)) bars)) =
     d @ map (\<lambda>b. (fb_time b, fb_time_close b, fb_trades_count b, fb_levels b)) (filter (in_window q) bars)"
  using assms
proof (induction bars arbitrary: d)
  case Nil
  show ?case by simp
next
  case (Cons b bars)
  have d: "distinct (map fb_time bars)" using Cons.prems(1) by simp
  show ?case
  proof (cases "in_window q b")
    case True
    define d1 where "d1 = d @ [(fb_time b, fb_time_close b, fb_trades_count b, fb_levels b)]"
    have "foldl add_parsed_row d (map (\<lambda>l. Some (fb_time b, fb_time_close b, fb_trades_count b, l)) (fb_levels b)) = d1"
      unfolding d1_def using Cons.prems(2) by (intro add_rows_fresh) simp_all
    moreover have "fb_time x \<notin> fst ` set d1 \<and> fb_levels x \<noteq> []" if x: "x \<in> set bars" for x
    proof -
      have "fb_time x \<in> fb_time ` set bars" using x by (rule imageI)
      moreover have "fb_time b \<notin> fb_time ` set bars" using Cons.prems(1) by simp
      ultimately have "fb_time x \<noteq> fb_time b" by metis
      then show ?thesis using Cons.prems(2) x by (auto simp: d1_def)
    qed
    ultimately show ?thesis using True Cons.IH [OF d, of d1] by (simp add: d1_def)
  next
    case False
    have "\<forall>x \<in> set bars. fb_time x \<notin> fst ` set d \<and> fb_levels x \<noteq> []" using Cons.prems(2) by simp
    with False Cons.IH [OF d, of d] show ?thesis by (simp add: add_rows_none)
  qed
qed

lemma read_footprint_rows:
  assumes sorted: "sorted_wrt (<) (map fb_time bars)" and ok: "list_all storable_bar bars"
  shows "read_footprint_bars q (footprint_rows bars) = Inr (filter (in_window q) bars)"
proof -
  define kept where "kept = filter (in_window q) bars"
  define D where "D = map (\<lambda>b. (fb_time b, fb_time_close b, fb_trades_count b, fb_levels b)) kept"
  have ks: "sorted_wrt (<) (map fb_time kept)" unfolding kept_def using sorted by (rule sorted_wrt_less_map_filter)
  then have dist: "distinct (map fb_time kept)" by (simp add: strict_sorted_iff)
  have fsts: "map fst D = map fb_time kept" by (simp add: D_def comp_def)
  have get: "dict_get D (fb_time b) (0, 0, []) = (fb_time_close b, fb_trades_count b, fb_levels b)" if "b \<in> set kept" for b
  proof -
    have "map_of D (fb_time b) = Some (fb_time_close b, fb_trades_count b, fb_levels b)"
      using that dist by (intro map_of_is_SomeI) (auto simp: D_def comp_def)
    then show ?thesis by (simp add: dict_get_def)
  qed
  have p: "mapR (parse_footprint_row q) (footprint_rows bars) = Inr (concat (map (\<lambda>b. map (\<lambda>l. if in_window q b
      then Some (fb_time b, fb_time_close b, fb_trades_count b, l) else None) (fb_levels b)) bars))"
    using ok by (intro mapR_concat_rows) (auto simp: list_all_iff storable_bar_def)
  have f: "foldl add_parsed_row [] (concat (map (\<lambda>b. map (\<lambda>l. if in_window q b
      then Some (fb_time b, fb_time_close b, fb_trades_count b, l) else None) (fb_levels b)) bars)) = D"
    using sorted ok unfolding D_def kept_def
    by (subst add_rows_bars) (auto simp: strict_sorted_iff list_all_iff storable_bar_def)
  have rebuilt: "\<lparr>fb_time = fb_time b, fb_time_close = fb_time_close b,
      fb_levels = sort_key (\<lambda>l. f_key (fl_price_low l)) (fb_levels b), fb_trades_count = fb_trades_count b\<rparr> = b"
    if "b \<in> set kept" for b
    using that ok by (auto simp: kept_def list_all_iff storable_bar_def sort_key_fix)
  have "sort (map fst D) = map fb_time kept" using ks by (simp add: fsts strict_sorted_iff sorted_sort_id)
  then show ?thesis
    unfolding read_footprint_bars_def p kept_def [symmetric]
    by (simp add: f Let_def comp_def get rebuilt map_idI)
qed

lemma merge_footprint_bars_props:
  assumes "list_all P old" and "list_all P new"
  shows "sorted_wrt (<) (map fb_time (merge_footprint_bars old new))" and "list_all P (merge_footprint_bars old new)"
proof -
  define d where "d = dict_extend fb_time (dict_of fb_time old) new"
  have k: "keyed fb_time d" unfolding d_def by (intro keyed_extend keyed_dict_of)
  show "sorted_wrt (<) (map fb_time (merge_footprint_bars old new))"
    unfolding merge_footprint_bars_def d_def [symmetric] using k by (rule sorted_vals_strict)
  have "x \<in> set old \<union> set new" if "x \<in> set (sorted_vals d)" for x
  proof -
    have "find (\<lambda>y. fb_time y = fb_time x) (rev new) = Some x \<or> find (\<lambda>y. fb_time y = fb_time x) (rev old) = Some x"
      using that sorted_vals_set [OF k] by (simp add: d_def dict_extend_get dict_of_get split: option.splits)
    then show ?thesis by (auto simp: find_Some_iff) (metis nth_mem set_rev length_rev)+
  qed
  then show "list_all P (merge_footprint_bars old new)"
    using assms by (auto simp: merge_footprint_bars_def d_def [symmetric] list_all_iff)
qed

lemma footprint_coverage_total:
  "tf_duration_ms (fq_timeframe q) = Some d \<Longrightarrow> 0 < d \<Longrightarrow> \<exists>r. footprint_coverage q bars = Inr r"
  by (simp add: footprint_coverage_def query_duration_def py_range_pos Let_def)

text \<open>The file of a query holds the rows of these bars (or does not exist yet).\<close>

definition file_holds :: "footprint_store \<Rightarrow> footprint_query \<Rightarrow> footprint_bar list \<Rightarrow> bool" where
  "file_holds st q old \<longleftrightarrow> list_all storable_bar old \<and> sorted_wrt (<) (map fb_time old) \<and>
     (case footprint_path q of Inl _ \<Rightarrow> False
      | Inr path \<Rightarrow> (case map_of (fps_files st) path of None \<Rightarrow> old = [] | Some rows \<Rightarrow> rows = footprint_rows old))"

lemma footprint_read_file:
  assumes "file_holds st q old" and "tf_duration_ms (fq_timeframe q) = Some d" and "0 < d"
  shows "\<exists>s. footprint_read st q = Inr s \<and> fs_bars s = filter (in_window q) old"
proof -
  obtain path where path: "footprint_path q = Inr path"
    and f: "case map_of (fps_files st) path of None \<Rightarrow> old = [] | Some rows \<Rightarrow> rows = footprint_rows old"
    using assms(1) by (auto simp: file_holds_def split: sum.splits)
  have b: "(case map_of (fps_files st) path of None \<Rightarrow> Inr [] | Some rows \<Rightarrow> read_footprint_bars q rows) =
      Inr (filter (in_window q) old)"
    using f read_footprint_rows [of old q] assms(1) by (auto simp: file_holds_def split: option.splits)
  obtain r where "footprint_coverage q (filter (in_window q) old) = Inr r"
    using footprint_coverage_total [OF assms(2,3)] by blast
  then show ?thesis by (simp add: footprint_read_def path b)
qed

lemma footprint_write_file:
  assumes h: "file_holds st q old" and d: "tf_duration_ms (fq_timeframe q) = Some d" "0 < d"
    and s: "fs_query series = q" "list_all storable_bar (fs_bars series)"
  shows "\<exists>r st'. footprint_write sha256 series st = Inr (r, st') \<and>
     file_holds st' q (merge_footprint_bars (filter (in_window q) old) (fs_bars series))"
proof -
  obtain o' where o': "footprint_read st q = Inr o'" "fs_bars o' = filter (in_window q) old"
    using footprint_read_file [OF h d] by blast
  obtain path where path: "footprint_path q = Inr path"
    using h by (auto simp: file_holds_def split: sum.splits)
  then obtain b where b: "bucket_size q = Inr b" by (auto simp: footprint_path_def res_simps)
  have "list_all storable_bar (filter (in_window q) old)" using h by (auto simp: file_holds_def list_all_iff)
  note m = merge_footprint_bars_props [OF this s(2)]
  show ?thesis
    using o' path b m
    by (simp add: footprint_write_def s Let_def file_holds_def update_conv')
qed

text \<open>
  A footprint series reads back as it was written. On a store whose file holds well-formed bars,
  writing a series of well-formed bars for a fixed-duration query succeeds, and any later read of
  the same file returns, restricted to its window, the new bars merged over the stored bars of the
  written window: a new bar replaces a stored one of the same time.
\<close>

theorem footprint_write_read:
  assumes "file_holds st q old" and "tf_duration_ms (fq_timeframe q) = Some d" and "0 < d"
    and "fs_query series = q" and "list_all storable_bar (fs_bars series)"
    and "footprint_path q' = footprint_path q" and "tf_duration_ms (fq_timeframe q') = Some d"
  shows "\<exists>r st' s. footprint_write sha256 series st = Inr (r, st') \<and> footprint_read st' q' = Inr s \<and>
     fs_bars s = filter (in_window q') (merge_footprint_bars (filter (in_window q) old) (fs_bars series))"
proof -
  obtain r st' where w: "footprint_write sha256 series st = Inr (r, st')"
    "file_holds st' q (merge_footprint_bars (filter (in_window q) old) (fs_bars series))"
    using footprint_write_file [OF assms(1-5)] by blast
  then have "file_holds st' q' (merge_footprint_bars (filter (in_window q) old) (fs_bars series))"
    by (simp add: file_holds_def assms(6))
  from footprint_read_file [OF this assms(7,3)] w(1) show ?thesis by blast
qed

lemma sample_prices:
  "f_text_ok (f_of_int 20)" "f_text_ok (f_of_int 30)" "f_text_ok (f_of_int 1)" "f_text_ok f_zero"
  by code_simp+

theorem footprint_write_read_witness:
  "\<exists>q series st r st' s. footprint_write (\<lambda>x. x) series st = Inr (r, st') \<and> footprint_read st' q = Inr s \<and>
     fs_bars s = fs_bars series \<and> length (fs_bars s) = 1"
proof -
  define tf where "tf = \<lparr>tf_raw = ''1m'', tf_canonical = ''1m'', tf_multiplier = 1, tf_unit = Minute,
    tf_duration_ms = Some 60000\<rparr>"
  define ik where "ik = \<lparr>ik_exchange = ''binance'', ik_market = ''spot'', ik_symbol = ''BTCUSDT''\<rparr>"
  define q where "q = \<lparr>fq_instrument = ik, fq_timeframe = tf, fq_start_ms = 60000, fq_end_ms = 180000,
    fq_price_bucket = Some (f_of_int 10), fq_tick_size = None, fq_ticks_per_row = 1, fq_source = ''auto'', fq_gap_policy = ''fail''\<rparr>"
  define l where "l = \<lparr>fl_price_low = f_of_int 20, fl_price_high = f_of_int 30, fl_buy_volume = f_of_int 1,
    fl_sell_volume = f_zero, fl_buy_count = 2, fl_sell_count = 0\<rparr>"
  define b where "b = \<lparr>fb_time = 60000, fb_time_close = 120000, fb_levels = [l], fb_trades_count = 2\<rparr>"
  obtain c :: coverage_report where True by simp
  define series where "series = \<lparr>fs_query = q, fs_bars = [b], fs_coverage = c\<rparr>"
  define st where "st = \<lparr>fps_files = [], fps_manifests = []\<rparr>"
  from sample_prices have ok: "list_all storable_bar (fs_bars series)"
    by (simp add: series_def b_def l_def storable_bar_def level_text_ok_def)
  have "file_holds st q []"
    by (simp add: file_holds_def st_def footprint_path_def bucket_size_def q_def)
  then have "\<exists>r st' s. footprint_write (\<lambda>x. x) series st = Inr (r, st') \<and> footprint_read st' q = Inr s \<and>
     fs_bars s = filter (in_window q) (merge_footprint_bars (filter (in_window q) []) (fs_bars series))"
    using ok by (intro footprint_write_read [where d = 60000]) (simp_all add: q_def tf_def series_def)
  moreover have "filter (in_window q) (merge_footprint_bars (filter (in_window q) []) (fs_bars series)) = [b]"
    by (simp add: merge_footprint_bars_def dict_of_def sorted_vals_def series_def in_window_def q_def b_def)
  ultimately show ?thesis by (fastforce simp: series_def)
qed

text \<open>
  A write forgets every stored bar outside its own window. The merge starts from the bars the
  store reads for the written query, so after writing a series whose bars lie in its window, no read
  of that file returns a bar outside the window, whatever the file held before.
\<close>

theorem footprint_write_forgets:
  assumes "file_holds st q old" and "tf_duration_ms (fq_timeframe q) = Some d" and "0 < d"
    and "fs_query series = q" and "list_all storable_bar (fs_bars series)" and "list_all (in_window q) (fs_bars series)"
    and "footprint_path q' = footprint_path q" and "tf_duration_ms (fq_timeframe q') = Some d"
  shows "\<exists>r st' s. footprint_write sha256 series st = Inr (r, st') \<and> footprint_read st' q' = Inr s \<and>
     list_all (in_window q) (fs_bars s)"
proof -
  obtain r st' where w: "footprint_write sha256 series st = Inr (r, st')"
    "file_holds st' q (merge_footprint_bars (filter (in_window q) old) (fs_bars series))"
    using footprint_write_file [OF assms(1-5)] by blast
  then have f: "file_holds st' q' (merge_footprint_bars (filter (in_window q) old) (fs_bars series))"
    by (simp add: file_holds_def assms(7))
  have "list_all (in_window q) (filter (in_window q) old)" by (auto simp: list_all_iff)
  from merge_footprint_bars_props(2) [OF this assms(6)]
  have all: "list_all (in_window q) (merge_footprint_bars (filter (in_window q) old) (fs_bars series))" .
  obtain s where s: "footprint_read st' q' = Inr s"
    "fs_bars s = filter (in_window q') (merge_footprint_bars (filter (in_window q) old) (fs_bars series))"
    using footprint_read_file [OF f assms(8,3)] by blast
  have "list_all (in_window q) (fs_bars s)" using all unfolding s(2) by (simp add: list_all_iff)
  with w(1) s(1) show ?thesis by blast
qed

theorem footprint_write_forgets_witness:
  "\<exists>q q' series st b0 r st' s. footprint_write (\<lambda>x. x) series st = Inr (r, st') \<and> file_holds st q [b0] \<and>
     footprint_read st' q' = Inr s \<and> in_window q' b0 \<and> b0 \<notin> set (fs_bars s)"
proof -
  define tf where "tf = \<lparr>tf_raw = ''1m'', tf_canonical = ''1m'', tf_multiplier = 1, tf_unit = Minute,
    tf_duration_ms = Some 60000\<rparr>"
  define ik where "ik = \<lparr>ik_exchange = ''binance'', ik_market = ''spot'', ik_symbol = ''BTCUSDT''\<rparr>"
  define q where "q = \<lparr>fq_instrument = ik, fq_timeframe = tf, fq_start_ms = 120000, fq_end_ms = 180000,
    fq_price_bucket = Some (f_of_int 10), fq_tick_size = None, fq_ticks_per_row = 1, fq_source = ''auto'', fq_gap_policy = ''fail''\<rparr>"
  define q' where "q' = q\<lparr>fq_start_ms := 60000\<rparr>"
  define l where "l = \<lparr>fl_price_low = f_of_int 20, fl_price_high = f_of_int 30, fl_buy_volume = f_of_int 1,
    fl_sell_volume = f_zero, fl_buy_count = 2, fl_sell_count = 0\<rparr>"
  define b0 where "b0 = \<lparr>fb_time = 60000, fb_time_close = 120000, fb_levels = [l], fb_trades_count = 2\<rparr>"
  define b where "b = \<lparr>fb_time = 120000, fb_time_close = 180000, fb_levels = [l], fb_trades_count = 2\<rparr>"
  obtain c :: coverage_report where True by simp
  define series where "series = \<lparr>fs_query = q, fs_bars = [b], fs_coverage = c\<rparr>"
  obtain path where path: "footprint_path q = Inr path" by (simp add: footprint_path_def bucket_size_def q_def)
  define st where "st = \<lparr>fps_files = [(path, footprint_rows [b0])], fps_manifests = []\<rparr>"
  from sample_prices have ok: "list_all storable_bar (fs_bars series)" "list_all storable_bar [b0]"
    by (simp_all add: series_def b_def b0_def l_def storable_bar_def level_text_ok_def)
  then have h: "file_holds st q [b0]" by (simp add: file_holds_def st_def path)
  have out: "\<not> in_window q b0" "in_window q' b0" by (simp_all add: in_window_def q_def q'_def b0_def)
  have "\<exists>r st' s. footprint_write (\<lambda>x. x) series st = Inr (r, st') \<and> footprint_read st' q' = Inr s \<and>
     list_all (in_window q) (fs_bars s)"
    using ok(1) by (intro footprint_write_forgets [OF h, where d = 60000])
      (simp_all add: q_def q'_def tf_def series_def in_window_def b_def footprint_path_def bucket_size_def)
  with h out show ?thesis by (fastforce simp: list_all_iff)
qed

end
