(* ===== verification/Csv.thy ===== *)
theory Csv
  imports Prelude
begin

section \<open>CSV text\<close>

text \<open>
  The \<open>csv\<close> module in its default dialect, as the segment store uses it: rows end in
  carriage return and line feed, a field is quoted when it holds a comma, a double quote or a line
  break, and an embedded quote is doubled. The reader is the module's state machine over the
  whole text. The round trip of this theory is what the store's reads rest on.
\<close>

definition comma :: char where "comma = CHR '',''"
definition dquote :: char where "dquote = CHR 0x22"
definition cr :: char where "cr = CHR 0x0D"
definition lf :: char where "lf = CHR 0x0A"

definition csv_special :: "char \<Rightarrow> bool" where
  "csv_special c \<longleftrightarrow> c = comma \<or> c = dquote \<or> c = cr \<or> c = lf"

subsection \<open>Writing\<close>

fun csv_escape :: "string \<Rightarrow> string" where
  "csv_escape [] = []"
| "csv_escape (c # cs) = (if c = dquote then dquote # dquote # csv_escape cs else c # csv_escape cs)"

definition csv_field :: "string \<Rightarrow> string" where
  "csv_field f = (if list_ex csv_special f then dquote # csv_escape f @ [dquote] else f)"

fun csv_join :: "string list \<Rightarrow> string" where
  "csv_join [] = []"
| "csv_join [f] = csv_field f"
| "csv_join (f # g # fs) = csv_field f @ comma # csv_join (g # fs)"

definition csv_line :: "string list \<Rightarrow> string" where
  "csv_line fs = csv_join fs @ [cr, lf]"

definition csv_text :: "string list list \<Rightarrow> string" where
  "csv_text rows = concat (map csv_line rows)"

subsection \<open>Reading\<close>

datatype csv_state = StartRecord | StartField | InField | InQuoted | QuoteInQuoted

text \<open>
  The state, the field being read and the fields of the record so far (both reversed). A carriage
  return followed by a line feed is one line end. A blank line gives no row, as in \<open>DictReader\<close>.
\<close>

fun drop_lf :: "char \<Rightarrow> string \<Rightarrow> string" where
  "drop_lf c (d # cs) = (if c = cr \<and> d = lf then cs else d # cs)"
| "drop_lf c [] = []"

lemma drop_lf_le: "length (drop_lf c cs) \<le> length cs"
  by (cases cs) auto

function csv_read :: "csv_state \<Rightarrow> string \<Rightarrow> string list \<Rightarrow> string \<Rightarrow> string list list" where
  "csv_read s f fs [] =
     (case s of StartRecord \<Rightarrow> [] | _ \<Rightarrow> [rev (rev f # fs)])"
| "csv_read s f fs (c # cs) =
     (if s = InQuoted then
        (if c = dquote then csv_read QuoteInQuoted f fs cs else csv_read InQuoted (c # f) fs cs)
      else if c = cr \<or> c = lf then
        (if s = StartRecord then csv_read StartRecord [] [] (drop_lf c cs)
         else rev (rev f # fs) # csv_read StartRecord [] [] (drop_lf c cs))
      else if c = comma then csv_read StartField [] (rev f # fs) cs
      else if c = dquote then
        (case s of
           QuoteInQuoted \<Rightarrow> csv_read InQuoted (dquote # f) fs cs
         | InField \<Rightarrow> csv_read InField (dquote # f) fs cs
         | _ \<Rightarrow> csv_read InQuoted f fs cs)
      else csv_read InField (c # f) fs cs)"
  by pat_completeness auto
termination
  by (relation "measure (\<lambda>(s, f, fs, cs). length cs)") (auto simp: drop_lf_le less_Suc_eq_le)

definition csv_parse :: "string \<Rightarrow> string list list" where
  "csv_parse text = csv_read StartRecord [] [] text"

subsection \<open>The reader inverts the writer\<close>

lemma special_distinct [simp]:
  "comma \<noteq> dquote" "dquote \<noteq> comma" "cr \<noteq> lf" "lf \<noteq> cr" "comma \<noteq> cr" "cr \<noteq> comma"
  "comma \<noteq> lf" "lf \<noteq> comma" "dquote \<noteq> cr" "cr \<noteq> dquote" "dquote \<noteq> lf" "lf \<noteq> dquote"
  by (simp_all add: comma_def dquote_def cr_def lf_def)

lemma csv_read_quoted:
  "csv_read InQuoted f fs (csv_escape w @ dquote # rest) = csv_read QuoteInQuoted (rev w @ f) fs rest"
  by (induction w arbitrary: f) simp_all

lemma csv_read_plain:
  "\<not> list_ex csv_special w \<Longrightarrow> csv_read InField f fs (w @ rest) = csv_read InField (rev w @ f) fs rest"
  by (induction w arbitrary: f) (auto simp: csv_special_def)

lemma csv_read_field_start:
  assumes "s = StartField \<or> s = StartRecord \<and> w \<noteq> []"
  shows "\<exists>s' \<in> {StartField, InField, QuoteInQuoted}. csv_read s [] fs (csv_field w @ rest) = csv_read s' (rev w) fs rest"
proof (cases "list_ex csv_special w")
  case True
  have "csv_read s [] fs (csv_field w @ rest) = csv_read InQuoted [] fs (csv_escape w @ dquote # rest)"
    using True assms by (auto simp: csv_field_def)
  then show ?thesis by (simp add: csv_read_quoted)
next
  case False
  show ?thesis
  proof (cases w)
    case Nil
    then show ?thesis using assms by (auto simp: csv_field_def)
  next
    case (Cons c cs)
    with False assms have "csv_read s [] fs (csv_field w @ rest) = csv_read InField [c] fs (cs @ rest)"
      by (auto simp: csv_field_def csv_special_def)
    also have "\<dots> = csv_read InField (rev w) fs rest"
      using False Cons by (subst csv_read_plain) auto
    finally show ?thesis by blast
  qed
qed

declare csv_read.simps [simp del]

lemma field_read:
  assumes "s = StartField \<or> s = StartRecord \<and> w \<noteq> []"
  obtains s' where "s' \<in> {StartField, InField, QuoteInQuoted}"
    and "csv_read s [] fs (csv_field w @ rest) = csv_read s' (rev w) fs rest"
  using csv_read_field_start [OF assms, of fs rest] by blast

lemma csv_read_comma:
  "s \<in> {StartField, InField, QuoteInQuoted} \<Longrightarrow> csv_read s f fs (comma # t) = csv_read StartField [] (rev f # fs) t"
  by (auto simp: csv_read.simps)

lemma csv_read_newline:
  "s \<in> {StartField, InField, QuoteInQuoted} \<Longrightarrow>
   csv_read s f fs (cr # lf # t) = rev (rev f # fs) # csv_read StartRecord [] [] t"
  by (auto simp: csv_read.simps)

text \<open>A row that reads back: at least one field, and not a single empty one.\<close>

definition csv_row_ok :: "string list \<Rightarrow> bool" where
  "csv_row_ok fs \<longleftrightarrow> fs \<noteq> [] \<and> hd fs \<noteq> []"

lemma csv_read_join:
  assumes "ws \<noteq> []" and "s = StartField \<or> s = StartRecord \<and> hd ws \<noteq> []"
  shows "csv_read s [] fs (csv_join ws @ cr # lf # t) = (rev fs @ ws) # csv_read StartRecord [] [] t"
  using assms
proof (induction ws arbitrary: s fs rule: csv_join.induct)
  case 1
  then show ?case by simp
next
  case (2 w)
  obtain s' where "s' \<in> {StartField, InField, QuoteInQuoted}"
    "csv_read s [] fs (csv_field w @ cr # lf # t) = csv_read s' (rev w) fs (cr # lf # t)"
    using field_read [of s w fs "cr # lf # t"] "2.prems" by auto
  then show ?case by (simp only: csv_read_newline csv_join.simps) simp
next
  case (3 w v ws)
  obtain s' where "s' \<in> {StartField, InField, QuoteInQuoted}"
    "csv_read s [] fs (csv_field w @ comma # csv_join (v # ws) @ cr # lf # t) =
     csv_read s' (rev w) fs (comma # csv_join (v # ws) @ cr # lf # t)"
    using field_read [of s w fs "comma # csv_join (v # ws) @ cr # lf # t"] "3.prems"
    by auto
  moreover have "csv_read StartField [] (w # fs) (csv_join (v # ws) @ cr # lf # t) =
      (rev (w # fs) @ v # ws) # csv_read StartRecord [] [] t"
    by (rule "3.IH") simp_all
  ultimately show ?case by (simp only: csv_read_comma csv_join.simps append_assoc append_Cons) simp
qed

text \<open>A single line without its line end, as a reader over one stripped line sees it.\<close>

lemma csv_read_eof:
  "s \<in> {StartField, InField, QuoteInQuoted} \<Longrightarrow> csv_read s f fs [] = [rev (rev f # fs)]"
  by (auto simp: csv_read.simps)

lemma csv_read_join_eof:
  assumes "ws \<noteq> []" and "s = StartField \<or> s = StartRecord \<and> hd ws \<noteq> []"
  shows "csv_read s [] fs (csv_join ws) = [rev fs @ ws]"
  using assms
proof (induction ws arbitrary: s fs rule: csv_join.induct)
  case 1
  then show ?case by simp
next
  case (2 w)
  obtain s' where "s' \<in> {StartField, InField, QuoteInQuoted}" "csv_read s [] fs (csv_field w @ []) = csv_read s' (rev w) fs []"
    using field_read [of s w fs "[]"] "2.prems" by auto
  then show ?case by (simp add: csv_read_eof)
next
  case (3 w v ws)
  obtain s' where "s' \<in> {StartField, InField, QuoteInQuoted}"
    "csv_read s [] fs (csv_field w @ comma # csv_join (v # ws)) = csv_read s' (rev w) fs (comma # csv_join (v # ws))"
    using field_read [of s w fs "comma # csv_join (v # ws)"] "3.prems" by auto
  moreover have "csv_read StartField [] (w # fs) (csv_join (v # ws)) = [rev (w # fs) @ v # ws]"
    by (rule "3.IH") simp_all
  ultimately show ?case by (simp only: csv_read_comma csv_join.simps) simp
qed

lemma csv_parse_join: "csv_row_ok ws \<Longrightarrow> csv_parse (csv_join ws) = [ws]"
  by (simp add: csv_parse_def csv_row_ok_def csv_read_join_eof)

lemma csv_parse_append:
  assumes "list_all csv_row_ok rows"
  shows "csv_parse (csv_text rows @ t) = rows @ csv_parse t"
  using assms
proof (induction rows)
  case Nil
  show ?case by (simp add: csv_text_def)
next
  case (Cons r rows)
  then have "csv_read StartRecord [] [] (csv_join r @ cr # lf # csv_text rows @ t) = r # csv_parse (csv_text rows @ t)"
    by (subst csv_read_join) (simp_all add: csv_row_ok_def csv_parse_def)
  with Cons show ?case by (simp add: csv_text_def csv_line_def csv_parse_def)
qed

lemma csv_parse_text: "list_all csv_row_ok rows \<Longrightarrow> csv_parse (csv_text rows) = rows"
  using csv_parse_append [of rows "[]"] by (simp add: csv_parse_def csv_read.simps)

interpretation csv_codec: codec csv_text "\<lambda>t. Inr (csv_parse t)" "list_all csv_row_ok"
  by unfold_locales (simp add: csv_parse_text)

end
