(* ===== verification/SegmentRows.thy ===== *)
theory SegmentRows
  imports Bars Csv
begin

section \<open>Persisted rows\<close>

text \<open>
  Models \<^verbatim>\<open>store/segment_rows.py\<close>, the field list of
  \<^verbatim>\<open>store/segment_checksums.py\<close>, the row writing of
  \<^verbatim>\<open>SegmentStore._atomic_write_csv\<close> and \<^verbatim>\<open>csv_append_payload\<close>, and
  \<^verbatim>\<open>read_csv\<close>. A cell is \<open>None\<close> (a short row) or a text. The texts of the enumeration
  \<open>RevisionState\<close> belong to the contracts package: they are the parameter \<open>rs\<close>.
\<close>

definition persisted_fields :: "string list" where
  "persisted_fields =
     [''time'', ''open'', ''high'', ''low'', ''close'', ''volume'', ''time_close'', ''exchange'', ''market'',
      ''symbol'', ''timeframe'', ''quote_volume'', ''turnover'', ''trades_count'', ''taker_buy_base_volume'',
      ''taker_buy_quote_volume'', ''source_transport'', ''source_kind'', ''is_closed'', ''provider'',
      ''provider_revision'', ''revision_state'', ''revision'', ''open_text'', ''high_text'', ''low_text'',
      ''close_text'', ''volume_text'', ''downloaded_at'']"

subsection \<open>Writing a row\<close>

text \<open>What the CSV writer prints: nothing for \<open>None\<close>, \<open>repr\<close> for floats, \<open>str\<close> otherwise.\<close>

definition cell_opt :: "('a \<Rightarrow> string) \<Rightarrow> 'a option \<Rightarrow> string" where
  "cell_opt f v = (case v of None \<Rightarrow> [] | Some x \<Rightarrow> f x)"

definition cell_bool :: "bool \<Rightarrow> string" where
  "cell_bool b = (if b then ''True'' else ''False'')"

definition bar_row :: "(revision_state \<Rightarrow> string) \<Rightarrow> market_bar \<Rightarrow> string list" where
  "bar_row rs b =
     [str_of_int (b_time b), f_repr (b_open b), f_repr (b_high b), f_repr (b_low b), f_repr (b_close b),
      f_repr (b_volume b), cell_opt str_of_int (b_time_close b), m_exchange b, m_market b, m_symbol b,
      m_timeframe b, cell_opt f_repr (m_quote_volume b), cell_opt f_repr (m_turnover b),
      cell_opt str_of_int (m_trades_count b), cell_opt f_repr (m_taker_buy_base_volume b),
      cell_opt f_repr (m_taker_buy_quote_volume b), m_source_transport b, m_source_kind b,
      cell_opt cell_bool (m_is_closed b), m_provider b, cell_opt id (m_provider_revision b),
      rs (m_revision_state b), str_of_int (m_revision b), cell_opt id (m_open_text b),
      cell_opt id (m_high_text b), cell_opt id (m_low_text b), cell_opt id (m_close_text b),
      cell_opt id (m_volume_text b), cell_opt str_of_int (m_downloaded_at b)]"

definition csv_append_payload :: "(revision_state \<Rightarrow> string) \<Rightarrow> market_bar list \<Rightarrow> string" where
  "csv_append_payload rs bars = csv_text (map (bar_row rs) bars)"

definition csv_file :: "(revision_state \<Rightarrow> string) \<Rightarrow> market_bar list \<Rightarrow> string" where
  "csv_file rs bars = csv_text [persisted_fields] @ csv_append_payload rs bars"

subsection \<open>Reading a row\<close>

type_synonym csv_dict = "(string \<times> string option) list"

definition cell :: "csv_dict \<Rightarrow> string \<Rightarrow> string option" where
  "cell r name = (case map_of r name of Some (Some v) \<Rightarrow> if v = [] then None else Some v | _ \<Rightarrow> None)"

definition cell_text :: "csv_dict \<Rightarrow> string \<Rightarrow> string \<Rightarrow> string" where
  "cell_text r name dflt = (case cell r name of Some v \<Rightarrow> v | None \<Rightarrow> dflt)"

definition required_number :: "csv_dict \<Rightarrow> string \<Rightarrow> string res" where
  "required_number r name =
     (case map_of r name of None \<Rightarrow> Inl (PyKeyError name) | Some None \<Rightarrow> Inr ''None'' | Some (Some v) \<Rightarrow> Inr v)"

definition opt_float :: "csv_dict \<Rightarrow> string \<Rightarrow> float64 option res" where
  "opt_float r name = (case cell r name of None \<Rightarrow> Inr None | Some v \<Rightarrow> bindR (py_float v) (\<lambda>x. Inr (Some x)))"

definition int_of_text :: "string \<Rightarrow> int res" where
  "int_of_text v = bindR (py_float v) f_int"

definition opt_int :: "csv_dict \<Rightarrow> string \<Rightarrow> int option res" where
  "opt_int r name = (case cell r name of None \<Rightarrow> Inr None | Some v \<Rightarrow> bindR (int_of_text v) (\<lambda>x. Inr (Some x)))"

definition parse_bool :: "string option \<Rightarrow> bool res" where
  "parse_bool v =
     (case v of None \<Rightarrow> Inl (MDMissingFinality ''persisted bar is missing is_closed/finality'')
      | Some s \<Rightarrow>
          (if s = [] then Inl (MDMissingFinality ''persisted bar is missing is_closed/finality'')
           else Inr (py_lower (py_strip s) \<in> {''true'', ''1'', ''1.0'', ''yes'', ''y''})))"

text \<open>\<open>RevisionState(text)\<close>: the member with that value.\<close>

definition revision_state_of :: "(revision_state \<Rightarrow> string) \<Rightarrow> string \<Rightarrow> revision_state option" where
  "revision_state_of rs s = find (\<lambda>m. rs m = s) [ORIGINAL, CORRECTED, REVOKED]"

definition row_to_bar :: "(revision_state \<Rightarrow> string) \<Rightarrow> csv_dict \<Rightarrow> market_bar res" where
  "row_to_bar rs r =
     (if cell r ''time_close'' = None then Inl (MDValidationError ''persisted bar is missing time_close'')
      else if cell_text r ''provider'' [] = [] then Inl (MDValidationError ''persisted bar is missing provider'')
      else if cell_text r ''provider_revision'' [] = [] then Inl (MDValidationError ''persisted bar is missing provider_revision'')
      else if cell r ''revision_state'' = None then Inl (MDValidationError ''persisted bar is missing revision_state'')
      else if cell r ''revision'' = None then Inl (MDValidationError ''persisted bar is missing revision'')
      else case revision_state_of rs (cell_text r ''revision_state'' []) of
        None \<Rightarrow> Inl (MDValidationError ''invalid persisted revision_state'')
      | Some revision_state \<Rightarrow>
        bindR (bindR (required_number r ''time'') int_of_text) (\<lambda>time.
        bindR (bindR (required_number r ''open'') py_float) (\<lambda>o'.
        bindR (bindR (required_number r ''high'') py_float) (\<lambda>h.
        bindR (bindR (required_number r ''low'') py_float) (\<lambda>l.
        bindR (bindR (required_number r ''close'') py_float) (\<lambda>c.
        bindR (bindR (required_number r ''volume'') py_float) (\<lambda>v.
        bindR (opt_int r ''time_close'') (\<lambda>time_close.
        bindR (canonical_timeframe (cell_text r ''timeframe'' ''1m'')) (\<lambda>timeframe.
        bindR (opt_float r ''quote_volume'') (\<lambda>quote_volume.
        bindR (opt_float r ''turnover'') (\<lambda>turnover.
        bindR (opt_int r ''trades_count'') (\<lambda>trades_count.
        bindR (opt_float r ''taker_buy_base_volume'') (\<lambda>tb.
        bindR (opt_float r ''taker_buy_quote_volume'') (\<lambda>tq.
        bindR (parse_bool (case map_of r ''is_closed'' of Some x \<Rightarrow> x | None \<Rightarrow> None)) (\<lambda>is_closed.
        bindR (int_of_text (cell_text r ''revision'' ''0'')) (\<lambda>revision.
        bindR (opt_int r ''downloaded_at'') (\<lambda>downloaded_at.
        market_bar_post_init
         \<lparr>b_time = time, b_open = o', b_high = h, b_low = l, b_close = c, b_volume = v,
          b_time_close = time_close, m_exchange = py_lower (cell_text r ''exchange'' []),
          m_market = py_lower (cell_text r ''market'' []), m_symbol = py_upper (cell_text r ''symbol'' []),
          m_timeframe = timeframe, m_source_transport = cell_text r ''source_transport'' ''ws'',
          m_source_kind = cell_text r ''source_kind'' ''trade_kline'', m_source = [],
          m_is_closed = Some is_closed, m_provider = cell_text r ''provider'' [],
          m_provider_revision = Some (cell_text r ''provider_revision'' []),
          m_revision_state = revision_state, m_revision = revision,
          m_open_text = cell r ''open_text'', m_high_text = cell r ''high_text'',
          m_low_text = cell r ''low_text'', m_close_text = cell r ''close_text'',
          m_volume_text = cell r ''volume_text'', m_quote_volume = quote_volume, m_turnover = turnover,
          m_trades_count = trades_count, m_taker_buy_base_volume = tb, m_taker_buy_quote_volume = tq,
          m_downloaded_at = downloaded_at, m_metadata = []\<rparr>)))))))))))))))))"

text \<open>\<open>DictReader\<close>: the first row names the fields; missing cells of a short row are \<open>None\<close>.\<close>

fun dict_row :: "string list \<Rightarrow> string list \<Rightarrow> csv_dict" where
  "dict_row [] _ = []"
| "dict_row (n # ns) [] = (n, None) # dict_row ns []"
| "dict_row (n # ns) (v # vs) = (n, Some v) # dict_row ns vs"

definition dict_rows :: "string \<Rightarrow> csv_dict list" where
  "dict_rows text = (case csv_parse text of [] \<Rightarrow> [] | names # rows \<Rightarrow> map (dict_row names) rows)"

definition read_csv :: "(revision_state \<Rightarrow> string) \<Rightarrow> string \<Rightarrow> market_bar list res" where
  "read_csv rs text = mapR (row_to_bar rs) (dict_rows text)"

subsection \<open>Rows read back\<close>

definition bar_dict :: "(revision_state \<Rightarrow> string) \<Rightarrow> market_bar \<Rightarrow> csv_dict" where
  "bar_dict rs b = dict_row persisted_fields (bar_row rs b)"

text \<open>The lookups of one written row, one fact per persisted field.\<close>

lemma row_lookup:
  "map_of (bar_dict rs b) ''time'' = Some (Some (str_of_int (b_time b)))"
  "map_of (bar_dict rs b) ''open'' = Some (Some (f_repr (b_open b)))"
  "map_of (bar_dict rs b) ''high'' = Some (Some (f_repr (b_high b)))"
  "map_of (bar_dict rs b) ''low'' = Some (Some (f_repr (b_low b)))"
  "map_of (bar_dict rs b) ''close'' = Some (Some (f_repr (b_close b)))"
  "map_of (bar_dict rs b) ''volume'' = Some (Some (f_repr (b_volume b)))"
  "map_of (bar_dict rs b) ''time_close'' = Some (Some (cell_opt str_of_int (b_time_close b)))"
  "map_of (bar_dict rs b) ''exchange'' = Some (Some (m_exchange b))"
  "map_of (bar_dict rs b) ''market'' = Some (Some (m_market b))"
  "map_of (bar_dict rs b) ''symbol'' = Some (Some (m_symbol b))"
  "map_of (bar_dict rs b) ''timeframe'' = Some (Some (m_timeframe b))"
  "map_of (bar_dict rs b) ''quote_volume'' = Some (Some (cell_opt f_repr (m_quote_volume b)))"
  "map_of (bar_dict rs b) ''turnover'' = Some (Some (cell_opt f_repr (m_turnover b)))"
  "map_of (bar_dict rs b) ''trades_count'' = Some (Some (cell_opt str_of_int (m_trades_count b)))"
  "map_of (bar_dict rs b) ''taker_buy_base_volume'' = Some (Some (cell_opt f_repr (m_taker_buy_base_volume b)))"
  "map_of (bar_dict rs b) ''taker_buy_quote_volume'' = Some (Some (cell_opt f_repr (m_taker_buy_quote_volume b)))"
  "map_of (bar_dict rs b) ''source_transport'' = Some (Some (m_source_transport b))"
  "map_of (bar_dict rs b) ''source_kind'' = Some (Some (m_source_kind b))"
  "map_of (bar_dict rs b) ''is_closed'' = Some (Some (cell_opt cell_bool (m_is_closed b)))"
  "map_of (bar_dict rs b) ''provider'' = Some (Some (m_provider b))"
  "map_of (bar_dict rs b) ''provider_revision'' = Some (Some (cell_opt id (m_provider_revision b)))"
  "map_of (bar_dict rs b) ''revision_state'' = Some (Some (rs (m_revision_state b)))"
  "map_of (bar_dict rs b) ''revision'' = Some (Some (str_of_int (m_revision b)))"
  "map_of (bar_dict rs b) ''open_text'' = Some (Some (cell_opt id (m_open_text b)))"
  "map_of (bar_dict rs b) ''high_text'' = Some (Some (cell_opt id (m_high_text b)))"
  "map_of (bar_dict rs b) ''low_text'' = Some (Some (cell_opt id (m_low_text b)))"
  "map_of (bar_dict rs b) ''close_text'' = Some (Some (cell_opt id (m_close_text b)))"
  "map_of (bar_dict rs b) ''volume_text'' = Some (Some (cell_opt id (m_volume_text b)))"
  "map_of (bar_dict rs b) ''downloaded_at'' = Some (Some (cell_opt str_of_int (m_downloaded_at b)))"
  by (simp_all add: bar_dict_def persisted_fields_def bar_row_def)

text \<open>The enumeration's texts: distinct and not empty.\<close>

definition rs_ok :: "(revision_state \<Rightarrow> string) \<Rightarrow> bool" where
  "rs_ok rs \<longleftrightarrow> rs ORIGINAL \<noteq> [] \<and> rs CORRECTED \<noteq> [] \<and> rs REVOKED \<noteq> [] \<and>
     rs ORIGINAL \<noteq> rs CORRECTED \<and> rs ORIGINAL \<noteq> rs REVOKED \<and> rs CORRECTED \<noteq> rs REVOKED"

definition int53 :: "int \<Rightarrow> bool" where
  "int53 n \<longleftrightarrow> \<bar>n\<bar> < 2 ^ 53"

definition opt_all :: "('a \<Rightarrow> bool) \<Rightarrow> 'a option \<Rightarrow> bool" where
  "opt_all P v = (case v of None \<Rightarrow> True | Some x \<Rightarrow> P x)"

text \<open>
  A bar that survives persistence unchanged: complete identity in canonical form, a close time, a
  decided finality, floats and integers whose texts are exact, no empty optional text, and none
  of the runtime-only fields.
\<close>

definition storable :: "market_bar \<Rightarrow> bool" where
  "storable b \<longleftrightarrow>
     int53 (b_time b) \<and> list_all f_text_ok [b_open b, b_high b, b_low b, b_close b, b_volume b] \<and>
     b_time_close b \<noteq> None \<and> opt_all int53 (b_time_close b) \<and>
     py_lower (m_exchange b) = m_exchange b \<and> py_lower (m_market b) = m_market b \<and>
     py_upper (m_symbol b) = m_symbol b \<and> m_timeframe b \<noteq> [] \<and>
     canonical_timeframe (m_timeframe b) = Inr (m_timeframe b) \<and>
     opt_all f_text_ok (m_quote_volume b) \<and> opt_all f_text_ok (m_turnover b) \<and> opt_all int53 (m_trades_count b) \<and>
     opt_all f_text_ok (m_taker_buy_base_volume b) \<and> opt_all f_text_ok (m_taker_buy_quote_volume b) \<and>
     m_source_transport b \<noteq> [] \<and> m_source_kind b \<noteq> [] \<and> m_is_closed b \<noteq> None \<and> m_provider b \<noteq> [] \<and>
     m_provider_revision b \<noteq> None \<and> m_provider_revision b \<noteq> Some [] \<and> int53 (m_revision b) \<and>
     (m_revision_state b = ORIGINAL \<longleftrightarrow> m_revision b = 0) \<and> 0 \<le> m_revision b \<and>
     list_all (\<lambda>t. t \<noteq> Some []) [m_open_text b, m_high_text b, m_low_text b, m_close_text b, m_volume_text b] \<and>
     opt_all int53 (m_downloaded_at b) \<and> m_source b = [] \<and> m_metadata b = []"

lemma revision_state_of_rs: "rs_ok rs \<Longrightarrow> revision_state_of rs (rs m) = Some m"
  by (cases m) (auto simp: revision_state_of_def rs_ok_def)

lemma rs_nonempty: "rs_ok rs \<Longrightarrow> rs m \<noteq> []"
  by (cases m) (auto simp: rs_ok_def)

lemma str_of_int_nonempty [simp]: "str_of_int n \<noteq> []"
  by (simp add: str_of_int_def)

lemma f_repr_nonempty: "f_text_ok x \<Longrightarrow> f_repr x \<noteq> []"
proof
  assume ok: "f_text_ok x" and e: "f_repr x = []"
  have "py_float [] = Inl (PyValueError ''could not convert string to float: '')" by code_simp
  with ok e show False by (simp add: f_text_ok_def)
qed

lemma cell_lookup: "map_of r n = Some (Some v) \<Longrightarrow> cell r n = (if v = [] then None else Some v)"
  by (simp add: cell_def)

lemma cell_opt_text: "v \<noteq> Some [] \<Longrightarrow> map_of r n = Some (Some (cell_opt id v)) \<Longrightarrow> cell r n = v"
  by (auto simp: cell_def cell_opt_def split: option.splits)

lemma int_text: "int53 n \<Longrightarrow> int_of_text (str_of_int n) = Inr n"
  unfolding int53_def int_of_text_def by (rule int_via_float)

lemma cell_opt_int:
  "opt_all int53 v \<Longrightarrow> map_of r n = Some (Some (cell_opt str_of_int v)) \<Longrightarrow> opt_int r n = Inr v"
  by (auto simp: opt_int_def cell_def cell_opt_def opt_all_def int_text split: option.splits)

lemma cell_opt_float:
  "opt_all f_text_ok v \<Longrightarrow> map_of r n = Some (Some (cell_opt f_repr v)) \<Longrightarrow> opt_float r n = Inr v"
  using f_repr_nonempty
  by (auto simp: opt_float_def cell_def cell_opt_def opt_all_def f_text_ok_def split: option.splits)

lemma parse_bool_cell: "parse_bool (Some (cell_bool b)) = Inr b"
proof -
  have "parse_bool (Some ''True'') = Inr True" "parse_bool (Some ''False'') = Inr False" by code_simp+
  then show ?thesis by (simp add: cell_bool_def)
qed

text \<open>The checks and the conversions of one written row, each settled by its lookup.\<close>

lemma row_cells:
  assumes rs: "rs_ok rs" and b: "storable b"
  shows "cell (bar_dict rs b) ''time_close'' \<noteq> None"
    and "cell_text (bar_dict rs b) ''provider'' [] = m_provider b"
    and "Some (cell_text (bar_dict rs b) ''provider_revision'' []) = m_provider_revision b"
    and "cell (bar_dict rs b) ''revision_state'' = Some (rs (m_revision_state b))"
    and "cell (bar_dict rs b) ''revision'' = Some (str_of_int (m_revision b))"
    and "cell_text (bar_dict rs b) ''timeframe'' ''1m'' = m_timeframe b"
    and "cell_text (bar_dict rs b) ''source_transport'' ''ws'' = m_source_transport b"
    and "cell_text (bar_dict rs b) ''source_kind'' ''trade_kline'' = m_source_kind b"
    and "py_lower (cell_text (bar_dict rs b) ''exchange'' []) = m_exchange b"
    and "py_lower (cell_text (bar_dict rs b) ''market'' []) = m_market b"
    and "py_upper (cell_text (bar_dict rs b) ''symbol'' []) = m_symbol b"
  using b rs_nonempty [OF rs]
  by (auto simp: storable_def cell_text_def cell_lookup [OF row_lookup(7)] cell_lookup [OF row_lookup(8)]
      cell_lookup [OF row_lookup(9)] cell_lookup [OF row_lookup(10)] cell_lookup [OF row_lookup(11)]
      cell_lookup [OF row_lookup(17)] cell_lookup [OF row_lookup(18)] cell_lookup [OF row_lookup(20)]
      cell_lookup [OF row_lookup(21)] cell_lookup [OF row_lookup(22)] cell_lookup [OF row_lookup(23)]
      cell_opt_def py_lower_def py_upper_def)

lemma row_numbers:
  assumes b: "storable b"
  shows "bindR (required_number (bar_dict rs b) ''time'') int_of_text = Inr (b_time b)"
    and "bindR (required_number (bar_dict rs b) ''open'') py_float = Inr (b_open b)"
    and "bindR (required_number (bar_dict rs b) ''high'') py_float = Inr (b_high b)"
    and "bindR (required_number (bar_dict rs b) ''low'') py_float = Inr (b_low b)"
    and "bindR (required_number (bar_dict rs b) ''close'') py_float = Inr (b_close b)"
    and "bindR (required_number (bar_dict rs b) ''volume'') py_float = Inr (b_volume b)"
    and "int_of_text (str_of_int (m_revision b)) = Inr (m_revision b)"
  using b by (simp_all add: storable_def required_number_def row_lookup int_text f_text_ok_def)

lemma row_options:
  assumes b: "storable b"
  shows "opt_int (bar_dict rs b) ''time_close'' = Inr (b_time_close b)"
    and "opt_float (bar_dict rs b) ''quote_volume'' = Inr (m_quote_volume b)"
    and "opt_float (bar_dict rs b) ''turnover'' = Inr (m_turnover b)"
    and "opt_int (bar_dict rs b) ''trades_count'' = Inr (m_trades_count b)"
    and "opt_float (bar_dict rs b) ''taker_buy_base_volume'' = Inr (m_taker_buy_base_volume b)"
    and "opt_float (bar_dict rs b) ''taker_buy_quote_volume'' = Inr (m_taker_buy_quote_volume b)"
    and "opt_int (bar_dict rs b) ''downloaded_at'' = Inr (m_downloaded_at b)"
  using b
  by (auto simp: storable_def intro!: cell_opt_int cell_opt_float intro: row_lookup)

lemma row_texts:
  assumes b: "storable b"
  shows "cell (bar_dict rs b) ''open_text'' = m_open_text b" "cell (bar_dict rs b) ''high_text'' = m_high_text b"
    "cell (bar_dict rs b) ''low_text'' = m_low_text b" "cell (bar_dict rs b) ''close_text'' = m_close_text b"
    "cell (bar_dict rs b) ''volume_text'' = m_volume_text b"
  using b by (simp_all add: storable_def cell_opt_text [OF _ row_lookup(24)] cell_opt_text [OF _ row_lookup(25)]
      cell_opt_text [OF _ row_lookup(26)] cell_opt_text [OF _ row_lookup(27)] cell_opt_text [OF _ row_lookup(28)])

lemma row_closed:
  assumes b: "storable b"
  shows "bindR (parse_bool (case map_of (bar_dict rs b) ''is_closed'' of Some x \<Rightarrow> x | None \<Rightarrow> None))
           (\<lambda>c. Inr (Some c)) = Inr (m_is_closed b)"
  using b parse_bool_cell by (auto simp: storable_def row_lookup cell_opt_def)

lemma storable_post_init: "storable b \<Longrightarrow> market_bar_post_init b = Inr b"
  by (auto simp: storable_def post_init_Inr fill_provider_def provider_from_metadata_def revision_from_metadata_def)

lemma row_to_bar_row:
  assumes "rs_ok rs" and "storable b"
  shows "row_to_bar rs (bar_dict rs b) = Inr b"
proof -
  obtain c where c: "m_is_closed b = Some c" using assms(2) by (auto simp: storable_def)
  have pc: "parse_bool (case map_of (bar_dict rs b) ''is_closed'' of Some x \<Rightarrow> x | None \<Rightarrow> None) = Inr c"
    using row_closed [OF assms(2), of rs] c by (auto simp: res_simps)
  have ne: "m_provider b \<noteq> []" "cell_text (bar_dict rs b) ''provider_revision'' [] \<noteq> []"
    using assms(2) row_cells(3) [OF assms] by (auto simp: storable_def)
  have rev: "cell_text (bar_dict rs b) ''revision_state'' [] = rs (m_revision_state b)"
    "cell_text (bar_dict rs b) ''revision'' ''0'' = str_of_int (m_revision b)"
    by (simp_all add: cell_text_def row_cells(4,5) [OF assms])
  have tf: "canonical_timeframe (m_timeframe b) = Inr (m_timeframe b)" "m_source b = []" "m_metadata b = []"
    using assms(2) by (simp_all add: storable_def)
  have literal: "\<lparr>b_time = b_time b, b_open = b_open b, b_high = b_high b, b_low = b_low b, b_close = b_close b,
     b_volume = b_volume b, b_time_close = b_time_close b, m_exchange = m_exchange b, m_market = m_market b,
     m_symbol = m_symbol b, m_timeframe = m_timeframe b, m_source_transport = m_source_transport b,
     m_source_kind = m_source_kind b, m_source = [], m_is_closed = Some c, m_provider = m_provider b,
     m_provider_revision = m_provider_revision b, m_revision_state = m_revision_state b, m_revision = m_revision b,
     m_open_text = m_open_text b, m_high_text = m_high_text b, m_low_text = m_low_text b,
     m_close_text = m_close_text b, m_volume_text = m_volume_text b, m_quote_volume = m_quote_volume b,
     m_turnover = m_turnover b, m_trades_count = m_trades_count b,
     m_taker_buy_base_volume = m_taker_buy_base_volume b, m_taker_buy_quote_volume = m_taker_buy_quote_volume b,
     m_downloaded_at = m_downloaded_at b, m_metadata = []\<rparr> = b"
    using c tf by simp
  show ?thesis
    unfolding row_to_bar_def
    by (simp only: row_cells [OF assms] row_numbers [OF assms(2)] row_options [OF assms(2)] row_texts [OF assms(2)]
        pc rev revision_state_of_rs [OF assms(1)] tf(1) ne literal storable_post_init [OF assms(2)]
        bindR.simps option.case if_False option.distinct not_False_eq_True)
qed

interpretation segment_row: codec "bar_dict rs" "row_to_bar rs" "\<lambda>b. rs_ok rs \<and> storable b"
  for rs :: "revision_state \<Rightarrow> string"
  by unfold_locales (simp add: row_to_bar_row)

lemma bar_row_ok: "csv_row_ok (bar_row rs b)"
  by (simp add: csv_row_ok_def bar_row_def)

lemma dict_rows_file:
  "dict_rows (csv_file rs bars) = map (bar_dict rs) bars"
proof -
  have "csv_row_ok persisted_fields" by (simp add: csv_row_ok_def persisted_fields_def)
  then have "csv_parse (csv_file rs bars) = persisted_fields # map (bar_row rs) bars"
    using csv_parse_append [of "[persisted_fields]"] csv_parse_text [of "map (bar_row rs) bars"]
    by (simp add: csv_file_def csv_append_payload_def list_all_iff bar_row_ok)
  then show ?thesis by (simp add: dict_rows_def bar_dict_def)
qed

lemma csv_file_append: "csv_file rs bars @ csv_append_payload rs new = csv_file rs (bars @ new)"
  by (simp add: csv_file_def csv_append_payload_def csv_text_def)

lemma read_csv_file:
  assumes "rs_ok rs" and "list_all storable bars"
  shows "read_csv rs (csv_file rs bars) = Inr bars"
proof -
  have "read_csv rs (csv_file rs bars) = mapR (\<lambda>b. row_to_bar rs (bar_dict rs b)) bars"
    unfolding read_csv_def dict_rows_file by (induction bars) simp_all
  then show ?thesis using segment_row.decode_list [of rs bars] assms by (simp add: list_all_iff)
qed

text \<open>
  C24. Persisted bars survive the CSV file exactly. Reading a file written from storable bars gives
  back the same bars, field by field and bit by bit; appending the payload of further bars to the
  file gives the file of both, which reads back as both.
\<close>

theorem csv_round_trip:
  assumes "rs_ok rs" and "list_all storable bars" and "list_all storable new"
  shows "read_csv rs (csv_file rs bars) = Inr bars \<and>
         read_csv rs (csv_file rs bars @ csv_append_payload rs new) = Inr (bars @ new)"
  using read_csv_file [OF assms(1,2)] read_csv_file [OF assms(1), of "bars @ new"] assms
  by (simp add: csv_file_append)

theorem csv_round_trip_witness:
  "\<exists>rs b. read_csv rs (csv_file rs [b] @ csv_append_payload rs [b\<lparr>b_time := 60000\<rparr>]) =
     Inr [b, b\<lparr>b_time := 60000\<rparr>] \<and> m_provider_revision b = Some ''a,b''"
proof -
  define rs where "rs = (\<lambda>m. case m of ORIGINAL \<Rightarrow> ''original'' | CORRECTED \<Rightarrow> ''corrected'' | REVOKED \<Rightarrow> ''revoked'')"
  define b where "b = market_bar_defaults\<lparr>b_time_close := Some 59999, b_open := f_of_int 7, m_exchange := ''binance'', m_market := ''spot'',
     m_symbol := ''BTCUSDT'', m_timeframe := ''1m'', m_is_closed := Some True, m_provider := ''binance'',
     m_provider_revision := Some ''a,b''\<rparr>"
  have rs: "rs_ok rs" by (simp add: rs_ok_def rs_def)
  have "f_text_ok f_zero" "f_text_ok (f_of_int 7)" by code_simp+
  moreover have "canonical_timeframe ''1m'' = Inr ''1m''" "py_lower ''binance'' = ''binance''" "py_lower ''spot'' = ''spot''"
    "py_upper ''BTCUSDT'' = ''BTCUSDT''" by code_simp+
  ultimately have "storable b" "storable (b\<lparr>b_time := 60000\<rparr>)"
    by (simp_all add: storable_def b_def market_bar_defaults_def int53_def opt_all_def)
  then have "read_csv rs (csv_file rs [b] @ csv_append_payload rs [b\<lparr>b_time := 60000\<rparr>]) =
     Inr [b, b\<lparr>b_time := 60000\<rparr>]"
    using csv_round_trip [OF rs, of "[b]" "[b\<lparr>b_time := 60000\<rparr>]"] by simp
  then show ?thesis by (intro exI [of _ rs] exI [of _ b]) (simp add: b_def)
qed

end
