(* ===== verification/Checksums.thy ===== *)
theory Checksums
  imports SegmentRows
begin

section \<open>Segment checksums\<close>

text \<open>
  Models \<^verbatim>\<open>store/segment_checksums.py\<close>. What \<open>hashlib.sha256\<close> does to its input is the
  parameter \<open>sha\<close>, a function on byte lists whose values have 32 bytes; feeding a digest in
  pieces is concatenating the pieces. \<open>struct.pack\<close> is modelled with its range checks:
  integers are eight bytes big-endian and raise outside 64 bits, doubles are their bits.
\<close>

type_synonym byte = "8 word"

subsection \<open>Packing\<close>

fun be_bytes :: "nat \<Rightarrow> int \<Rightarrow> byte list" where
  "be_bytes 0 n = []"
| "be_bytes (Suc k) n = be_bytes k (n div 256) @ [word_of_int n]"

definition pack_q :: "int \<Rightarrow> byte list res" where
  "pack_q n = (if - 9223372036854775808 \<le> n \<and> n < 9223372036854775808 then Inr (be_bytes 8 n)
               else Inl (PyStructError ''int too large to convert''))"

definition pack_d :: "float64 \<Rightarrow> byte list res" where
  "pack_d x = Inr (be_bytes 8 (uint x))"

definition pack_bool :: "bool \<Rightarrow> byte list res" where
  "pack_bool b = Inr [if b then 1 else 0]"

definition text_bytes :: "string \<Rightarrow> byte list" where
  "text_bytes s = map (\<lambda>c. word_of_int (int (char_code c))) s"

definition update_text :: "string \<Rightarrow> byte list res" where
  "update_text s =
     (if int (length s) < 4294967296 then Inr (be_bytes 4 (int (length s)) @ text_bytes s)
      else Inl (PyStructError ''argument out of range''))"

text \<open>Successive \<open>update\<close> calls: the bytes fed so far, or the first error.\<close>

fun concatR :: "byte list res list \<Rightarrow> byte list res" where
  "concatR [] = Inr []"
| "concatR (m # ms) = bindR m (\<lambda>x. bindR (concatR ms) (\<lambda>y. Inr (x @ y)))"

definition int_default :: "int option \<Rightarrow> int \<Rightarrow> int" where
  "int_default v d = (case v of Some n \<Rightarrow> n | None \<Rightarrow> d)"

definition float_default :: "float64 option \<Rightarrow> float64" where
  "float_default v = (case v of Some x \<Rightarrow> x | None \<Rightarrow> f_zero)"

definition opt_text_bytes :: "string option \<Rightarrow> byte list res" where
  "opt_text_bytes v =
     (case v of None \<Rightarrow> Inr [0] | Some s \<Rightarrow> bindR (update_text s) (\<lambda>x. Inr (1 # x)))"

subsection \<open>The row digests\<close>

definition checksum_identity :: "market_bar \<Rightarrow> byte list res list" where
  "checksum_identity b =
     [update_text (py_lower (m_exchange b)), update_text (py_lower (m_market b)),
      update_text (py_upper (m_symbol b)), update_text (m_source_kind b), update_text (m_source_transport b),
      bindR (canonical_timeframe (m_timeframe b)) update_text]"

definition checksum_provenance :: "(revision_state \<Rightarrow> string) \<Rightarrow> market_bar \<Rightarrow> byte list res list" where
  "checksum_provenance rs b =
     [update_text (m_provider b), update_text (str_or (m_provider_revision b) []),
      update_text (rs (m_revision_state b)), pack_q (m_revision b)]"

definition checksum_texts :: "market_bar \<Rightarrow> byte list res list" where
  "checksum_texts b = map opt_text_bytes
     [m_open_text b, m_high_text b, m_low_text b, m_close_text b, m_volume_text b]"

definition is_closed_bool :: "market_bar \<Rightarrow> bool" where
  "is_closed_bool b = (m_is_closed b = Some True)"

definition checksum_floats :: "market_bar \<Rightarrow> byte list res list" where
  "checksum_floats b =
     [pack_d (b_open b), pack_d (b_high b), pack_d (b_low b), pack_d (b_close b), pack_d (b_volume b),
      pack_d (float_default (m_quote_volume b)), pack_d (float_default (m_turnover b)),
      pack_d (float_default (m_taker_buy_base_volume b)), pack_d (float_default (m_taker_buy_quote_volume b))]"

definition checksum_numbers :: "market_bar \<Rightarrow> byte list res list" where
  "checksum_numbers b =
     [pack_q (b_time b), pack_q (int_default (b_time_close b) 0), pack_q (int_default (m_trades_count b) 0),
      pack_q (int_default (m_downloaded_at b) 0)] @ checksum_floats b @
     map pack_bool
       [b_time_close b \<noteq> None, m_trades_count b \<noteq> None, m_downloaded_at b \<noteq> None, m_quote_volume b \<noteq> None,
        m_turnover b \<noteq> None, m_taker_buy_base_volume b \<noteq> None, m_taker_buy_quote_volume b \<noteq> None,
        is_closed_bool b]"

definition newline :: byte where
  "newline = 10"

definition update_checksum :: "(revision_state \<Rightarrow> string) \<Rightarrow> market_bar \<Rightarrow> byte list res" where
  "update_checksum rs b =
     concatR (checksum_identity b @ checksum_provenance rs b @ checksum_texts b @ checksum_numbers b @ [Inr [newline]])"

definition update_checksum_v3 :: "(revision_state \<Rightarrow> string) \<Rightarrow> market_bar \<Rightarrow> byte list res" where
  "update_checksum_v3 rs b =
     concatR (checksum_identity b @ checksum_provenance rs b @ checksum_numbers b @ [Inr [newline]])"

definition update_checksum_v2 :: "market_bar \<Rightarrow> byte list res" where
  "update_checksum_v2 b =
     concatR (checksum_identity b @
       [pack_q (b_time b), pack_q (int_default (b_time_close b) (- 1)), pack_q (int_default (m_trades_count b) (- 1)),
        pack_q (int_default (m_downloaded_at b) (- 1))] @ checksum_floats b @
       map pack_bool [m_quote_volume b \<noteq> None, m_turnover b \<noteq> None, m_taker_buy_base_volume b \<noteq> None,
         m_taker_buy_quote_volume b \<noteq> None, is_closed_bool b] @ [Inr [newline]])"

definition update_checksum_v1 :: "market_bar \<Rightarrow> byte list res" where
  "update_checksum_v1 b =
     concatR
       [Inr (text_bytes (py_lower (m_exchange b))), Inr (text_bytes (py_lower (m_market b))),
        Inr (text_bytes (py_upper (m_symbol b))), Inr (text_bytes (m_source_kind b)),
        Inr (text_bytes (m_source_transport b)),
        bindR (canonical_timeframe (m_timeframe b)) (\<lambda>t. Inr (text_bytes t)),
        pack_q (b_time b), pack_q (int_default (b_time_close b) 0), pack_q (int_default (m_trades_count b) (- 1)),
        pack_d (b_open b), pack_d (b_high b), pack_d (b_low b), pack_d (b_close b), pack_d (b_volume b),
        pack_d (float_default (m_quote_volume b)), pack_d (float_default (m_turnover b)),
        pack_bool (is_closed_bool b), Inr [newline]]"

subsection \<open>Hexadecimal digests\<close>

definition hex_digit :: "nat \<Rightarrow> char" where
  "hex_digit n = (if n < 10 then char_of (48 + n) else char_of (87 + n))"

definition hex_byte :: "byte \<Rightarrow> string" where
  "hex_byte w = [hex_digit (unat w div 16), hex_digit (unat w mod 16)]"

definition hexdigest :: "byte list \<Rightarrow> string" where
  "hexdigest bs = concat (map hex_byte bs)"

definition hex_val :: "char \<Rightarrow> nat option" where
  "hex_val c =
     (let n = char_code c in
      if 48 \<le> n \<and> n \<le> 57 then Some (n - 48)
      else if 97 \<le> n \<and> n \<le> 102 then Some (n - 87)
      else if 65 \<le> n \<and> n \<le> 70 then Some (n - 55) else None)"

text \<open>\<open>bytes.fromhex\<close>: white space between bytes is skipped.\<close>

function fromhex :: "string \<Rightarrow> byte list res" where
  "fromhex [] = Inr []"
| "py_isspace c \<Longrightarrow> fromhex (c # cs) = fromhex cs"
| "\<not> py_isspace c \<Longrightarrow> fromhex [c] = Inl (PyValueError ''non-hexadecimal number found in fromhex() arg at position '')"
| "\<not> py_isspace c \<Longrightarrow> fromhex (c # d # cs) =
     (case (hex_val c, hex_val d) of
        (Some h, Some l) \<Rightarrow> bindR (fromhex cs) (\<lambda>bs. Inr (word_of_int (int (16 * h + l)) # bs))
      | _ \<Rightarrow> Inl (PyValueError ''non-hexadecimal number found in fromhex() arg at position ''))"
proof -
  fix P :: bool and x :: string
  assume a: "x = [] \<Longrightarrow> P" "\<And>c cs. py_isspace c \<Longrightarrow> x = c # cs \<Longrightarrow> P"
    "\<And>c. \<not> py_isspace c \<Longrightarrow> x = [c] \<Longrightarrow> P" "\<And>c d cs. \<not> py_isspace c \<Longrightarrow> x = c # d # cs \<Longrightarrow> P"
  show P
  proof (cases x)
    case (Cons c cs)
    with a show P by (cases "py_isspace c"; cases cs) blast+
  qed (use a in blast)
qed auto
termination by (relation "measure length") auto

subsection \<open>Checksums of bars, chains and files\<close>

definition digest_of :: "(byte list \<Rightarrow> byte list) \<Rightarrow> (market_bar \<Rightarrow> byte list res) \<Rightarrow> market_bar list \<Rightarrow> string res" where
  "digest_of sha upd bars =
     bindR (concatR (map upd (sort_key b_time bars))) (\<lambda>bs. Inr (hexdigest (sha bs)))"

definition bars_checksum :: "(byte list \<Rightarrow> byte list) \<Rightarrow> (revision_state \<Rightarrow> string) \<Rightarrow> market_bar list \<Rightarrow> string res" where
  "bars_checksum sha rs bars = digest_of sha (update_checksum rs) bars"

definition market_bar_checksum :: "(byte list \<Rightarrow> byte list) \<Rightarrow> (revision_state \<Rightarrow> string) \<Rightarrow> market_bar \<Rightarrow> string res" where
  "market_bar_checksum sha rs b = bars_checksum sha rs [b]"

definition legacy_bars_checksum :: "(byte list \<Rightarrow> byte list) \<Rightarrow> market_bar list \<Rightarrow> string res" where
  "legacy_bars_checksum sha bars = digest_of sha update_checksum_v1 bars"

definition presence_unaware_bars_checksum :: "(byte list \<Rightarrow> byte list) \<Rightarrow> market_bar list \<Rightarrow> string res" where
  "presence_unaware_bars_checksum sha bars = digest_of sha update_checksum_v2 bars"

definition provenance_bars_checksum :: "(byte list \<Rightarrow> byte list) \<Rightarrow> (revision_state \<Rightarrow> string) \<Rightarrow> market_bar list \<Rightarrow> string res" where
  "provenance_bars_checksum sha rs bars = digest_of sha (update_checksum_v3 rs) bars"

text \<open>The canonical candle payload, without transport and download provenance.\<close>

definition opt_f_eq :: "float64 option \<Rightarrow> float64 option \<Rightarrow> bool" where
  "opt_f_eq a b = (case (a, b) of (None, None) \<Rightarrow> True | (Some x, Some y) \<Rightarrow> f_eq x y | _ \<Rightarrow> False)"

definition same_canonical_candle :: "market_bar \<Rightarrow> market_bar \<Rightarrow> bool" where
  "same_canonical_candle l r \<longleftrightarrow>
     b_time l = b_time r \<and> b_time_close l = b_time_close r \<and> f_eq (b_open l) (b_open r) \<and>
     f_eq (b_high l) (b_high r) \<and> f_eq (b_low l) (b_low r) \<and> f_eq (b_close l) (b_close r) \<and>
     f_eq (b_volume l) (b_volume r) \<and> m_exchange l = m_exchange r \<and> m_market l = m_market r \<and>
     m_symbol l = m_symbol r \<and> m_timeframe l = m_timeframe r \<and> m_source_kind l = m_source_kind r \<and>
     m_is_closed l = m_is_closed r \<and> m_open_text l = m_open_text r \<and> m_high_text l = m_high_text r \<and>
     m_low_text l = m_low_text r \<and> m_close_text l = m_close_text r \<and> m_volume_text l = m_volume_text r \<and>
     opt_f_eq (m_quote_volume l) (m_quote_volume r) \<and> opt_f_eq (m_turnover l) (m_turnover r) \<and>
     m_trades_count l = m_trades_count r \<and>
     opt_f_eq (m_taker_buy_base_volume l) (m_taker_buy_base_volume r) \<and>
     opt_f_eq (m_taker_buy_quote_volume l) (m_taker_buy_quote_volume r)"

definition validate_persisted_bar_semantics :: "market_bar \<Rightarrow> unit res" where
  "validate_persisted_bar_semantics b =
     (let negative = (\<lambda>v. case v of None \<Rightarrow> False | Some n \<Rightarrow> n < 0) in
      if negative (b_time_close b) \<or> negative (m_trades_count b) \<or> negative (m_downloaded_at b)
      then Inl (MDInvalidExchangeResponse ''Persisted bar has negative optional integer'') else Inr ())"

datatype checksum_version = V1 | V2 | V3 | V4

text \<open>The eight algorithm names: a row format, and whether a tail chain follows the base.\<close>

definition algorithm_name :: "checksum_version \<Rightarrow> bool \<Rightarrow> string" where
  "algorithm_name v tail =
     (if tail then ''sha256-tail-chain-v'' else ''sha256-canonical-v'') @
     (case v of V1 \<Rightarrow> ''1'' | V2 \<Rightarrow> ''2'' | V3 \<Rightarrow> ''3'' | V4 \<Rightarrow> ''4'')"

definition algorithm_of :: "string \<Rightarrow> (checksum_version \<times> bool) option" where
  "algorithm_of s = find (\<lambda>(v, t). algorithm_name v t = s)
     [(V1, False), (V1, True), (V2, False), (V2, True), (V3, False), (V3, True), (V4, False), (V4, True)]"

definition canonical_checksum :: string where
  "canonical_checksum = ''sha256-canonical-v4''"

definition tail_chain_checksum :: string where
  "tail_chain_checksum = ''sha256-tail-chain-v4''"

definition row_bytes :: "(revision_state \<Rightarrow> string) \<Rightarrow> checksum_version \<Rightarrow> market_bar \<Rightarrow> byte list res" where
  "row_bytes rs v b =
     (case v of V1 \<Rightarrow> update_checksum_v1 b | V2 \<Rightarrow> update_checksum_v2 b
      | V3 \<Rightarrow> update_checksum_v3 rs b | V4 \<Rightarrow> update_checksum rs b)"

definition extend_tail_chain ::
  "(byte list \<Rightarrow> byte list) \<Rightarrow> (revision_state \<Rightarrow> string) \<Rightarrow> string \<Rightarrow> market_bar \<Rightarrow> string \<Rightarrow> string res" where
  "extend_tail_chain sha rs checksum b algorithm =
     (case fromhex checksum of
        Inl _ \<Rightarrow> Inl (MDInvalidExchangeResponse ''Invalid segment checksum encoding'')
      | Inr previous \<Rightarrow>
          (if length previous \<noteq> 32 then Inl (MDInvalidExchangeResponse ''Invalid segment checksum length'')
           else case algorithm_of algorithm of
             Some (v, True) \<Rightarrow>
               bindR (digest_of sha (row_bytes rs v) [b]) (\<lambda>d.
               bindR (fromhex d) (\<lambda>row_digest.
               Inr (hexdigest (sha (text_bytes algorithm @ [0] @ previous @ row_digest)))))
           | _ \<Rightarrow> Inl (MDInvalidExchangeResponse ''Unsupported segment checksum algorithm'')))"

text \<open>The digest of a CSV file in the current row format, row by row in file order.\<close>

definition csv_canonical_checksum ::
  "(byte list \<Rightarrow> byte list) \<Rightarrow> (revision_state \<Rightarrow> string) \<Rightarrow> string \<Rightarrow> string res" where
  "csv_canonical_checksum sha rs text =
     bindR (concatR (map (\<lambda>row. bindR (row_to_bar rs row) (\<lambda>b.
              bindR (validate_persisted_bar_semantics b) (\<lambda>_. update_checksum rs b))) (dict_rows text))) (\<lambda>bs.
     Inr (hexdigest (sha bs)))"

text \<open>The loop of \<open>validate_csv_checksum\<close>: base digest input, chain and number of rows read.\<close>

fun validate_rows ::
  "(byte list \<Rightarrow> byte list) \<Rightarrow> (revision_state \<Rightarrow> string) \<Rightarrow> checksum_version \<Rightarrow> bool \<Rightarrow> int \<Rightarrow> string \<Rightarrow>
   csv_dict list \<Rightarrow> byte list \<Rightarrow> string \<Rightarrow> int \<Rightarrow> (byte list \<times> string \<times> int) res" where
  "validate_rows sha rs v tail base_rows algorithm [] digest chain n = Inr (digest, chain, n)"
| "validate_rows sha rs v tail base_rows algorithm (row # rows) digest chain n =
     bindR (row_to_bar rs row) (\<lambda>b.
     bindR (validate_persisted_bar_semantics b) (\<lambda>_.
     if \<not> tail \<or> n < base_rows then
       bindR (row_bytes rs v b) (\<lambda>x. validate_rows sha rs v tail base_rows algorithm rows (digest @ x) chain (n + 1))
     else
       bindR (extend_tail_chain sha rs chain b algorithm) (\<lambda>c.
         validate_rows sha rs v tail base_rows algorithm rows digest c (n + 1))))"

definition validate_csv_checksum ::
  "(byte list \<Rightarrow> byte list) \<Rightarrow> (revision_state \<Rightarrow> string) \<Rightarrow> string \<Rightarrow> (string \<times> json) list \<Rightarrow> unit res" where
  "validate_csv_checksum sha rs text manifest =
     (let algorithm = (case map_of manifest ''checksum_algorithm'' of Some a \<Rightarrow> a | None \<Rightarrow> JStr ''sha256-canonical-v1'') in
      case algorithm of JStr name \<Rightarrow>
        (case algorithm_of name of
           None \<Rightarrow> Inl (MDInvalidExchangeResponse ''Unsupported segment checksum algorithm'')
         | Some (v, tail) \<Rightarrow>
             (let base_rows = (case map_of manifest ''base_rows_count'' of Some (JInt n) \<Rightarrow> Some n
                               | Some (JBool b) \<Rightarrow> Some (if b then 1 else 0) | _ \<Rightarrow> None);
                  base_checksum = json_str (map_of manifest ''base_checksum'') in
              if tail \<and> (base_checksum = None \<or> (case base_rows of None \<Rightarrow> True | Some n \<Rightarrow> n < 0))
              then Inl (MDInvalidExchangeResponse ''Invalid tail-chain checksum metadata'')
              else
                bindR (validate_rows sha rs v tail (int_default base_rows 0) name (dict_rows text) []
                         (str_or base_checksum []) 0) (\<lambda>(digest, chain, n).
                if tail then
                  (if n < int_default base_rows 0 \<or> Some (hexdigest (sha digest)) \<noteq> base_checksum
                   then Inl (MDInvalidExchangeResponse ''Segment checksum mismatch'')
                   else if map_of manifest ''checksum'' \<noteq> Some (JStr chain)
                   then Inl (MDInvalidExchangeResponse ''Segment checksum mismatch'') else Inr ())
                else
                  (if map_of manifest ''checksum'' \<noteq> Some (JStr (hexdigest (sha digest)))
                   then Inl (MDInvalidExchangeResponse ''Segment checksum mismatch'') else Inr ()))))
      | _ \<Rightarrow> Inl (MDInvalidExchangeResponse ''Unsupported segment checksum algorithm''))"

subsection \<open>Hexadecimal text reads back\<close>

lemma hex_digit_val: "n < 16 \<Longrightarrow> hex_val (hex_digit n) = Some n"
  by (auto simp: hex_val_def hex_digit_def Let_def)

lemma hex_digit_not_space: "n < 16 \<Longrightarrow> \<not> py_isspace (hex_digit n)"
  by (auto simp: hex_digit_def py_isspace_def Let_def)

lemma unat_byte: "unat (w :: byte) < 256"
  using unsigned_less [where 'b = 8 and 'a = nat, of w] by simp

lemma fromhex_hex_byte: "fromhex (hex_byte w @ cs) = bindR (fromhex cs) (\<lambda>bs. Inr (w # bs))"
proof -
  have "16 * (unat w div 16) + unat w mod 16 = unat w" by simp
  moreover have "unat w div 16 < 16" using unat_byte [of w] by simp
  ultimately show ?thesis
    by (simp add: hex_byte_def hex_digit_val hex_digit_not_space del: of_nat_add of_nat_mult)
qed

lemma fromhex_hexdigest [simp]: "fromhex (hexdigest bs) = Inr bs"
  by (induction bs) (simp_all add: hexdigest_def fromhex_hex_byte)

interpretation hex_text: codec hexdigest fromhex "\<lambda>_. True"
  by unfold_locales simp

subsection \<open>Interface: prefix-free row encodings\<close>

locale row_encoding =
  fixes enc :: "'a \<Rightarrow> byte list res" and sim :: "'a \<Rightarrow> 'a \<Rightarrow> bool"
  assumes prefix_free: "enc x = Inr p \<Longrightarrow> enc y = Inr q \<Longrightarrow> p @ r = q @ s \<Longrightarrow> sim x y \<and> r = s"
    and nonempty: "enc x = Inr p \<Longrightarrow> p \<noteq> []"
begin

lemma stream_inj:
  "concatR (map enc xs) = Inr p \<Longrightarrow> concatR (map enc ys) = Inr p \<Longrightarrow> list_all2 sim xs ys"
proof (induction xs arbitrary: ys p)
  case Nil
  show ?case
  proof (cases ys)
    case (Cons y ys')
    with Nil show ?thesis using nonempty by (auto simp: res_simps)
  qed simp
next
  case (Cons x xs)
  obtain p1 p2 where p: "enc x = Inr p1" "concatR (map enc xs) = Inr p2" "p = p1 @ p2"
    using Cons.prems(1) by (auto simp: res_simps)
  show ?case
  proof (cases ys)
    case Nil
    with Cons.prems(2) p nonempty show ?thesis by simp
  next
    case (Cons y ys')
    then obtain q1 q2 where q: "enc y = Inr q1" "concatR (map enc ys') = Inr q2" "p = q1 @ q2"
      using Cons.prems(2) by (auto simp: res_simps)
    have "p1 @ p2 = q1 @ q2" using p(3) q(3) by simp
    then have "sim x y \<and> p2 = q2" by (rule prefix_free [OF p(1) q(1)])
    then show ?thesis using Cons.IH [OF p(2)] q(2) Cons by simp
  qed
qed

text \<open>Equal digests mean similar rows, unless two inputs collide under the hash.\<close>

lemma digest_inj:
  assumes "bindR (concatR (map enc xs)) (\<lambda>bs. Inr (hexdigest (sha bs))) = Inr d"
    and "bindR (concatR (map enc ys)) (\<lambda>bs. Inr (hexdigest (sha bs))) = Inr d"
  shows "list_all2 sim xs ys \<or> (\<exists>m n. m \<noteq> n \<and> sha m = sha n)"
proof -
  obtain p q where p: "concatR (map enc xs) = Inr p" "d = hexdigest (sha p)"
    and q: "concatR (map enc ys) = Inr q" "d = hexdigest (sha q)"
    using assms by (auto simp: res_simps)
  then have "sha p = sha q" using hex_text.encode_inj by simp
  then show ?thesis using stream_inj p(1) q(1) by (cases "p = q") auto
qed

end

subsection \<open>The packed fields are prefix-free\<close>

definition pfx :: "byte list res \<Rightarrow> byte list res \<Rightarrow> bool \<Rightarrow> bool" where
  "pfx m n P \<longleftrightarrow> (\<forall>p q r s. m = Inr p \<and> n = Inr q \<and> p @ r = q @ s \<longrightarrow> P \<and> r = s)"

lemma pfx_Nil: "pfx (concatR []) (concatR []) True"
  by (simp add: pfx_def)

lemma pfx_Cons: "pfx m n P \<Longrightarrow> pfx (concatR ms) (concatR ns) Q \<Longrightarrow> pfx (concatR (m # ms)) (concatR (n # ns)) (P \<and> Q)"
proof -
  assume 1: "pfx m n P" and 2: "pfx (concatR ms) (concatR ns) Q"
  show "pfx (concatR (m # ms)) (concatR (n # ns)) (P \<and> Q)"
    unfolding pfx_def
  proof (intro allI impI)
    fix p q r s
    assume a: "concatR (m # ms) = Inr p \<and> concatR (n # ns) = Inr q \<and> p @ r = q @ s"
    then obtain p1 p2 q1 q2 where p: "m = Inr p1" "concatR ms = Inr p2" "p = p1 @ p2"
      and q: "n = Inr q1" "concatR ns = Inr q2" "q = q1 @ q2"
      by (auto simp: res_simps)
    have "p1 @ (p2 @ r) = q1 @ (q2 @ s)" using a p q by simp
    then have 3: "P \<and> p2 @ r = q2 @ s" using 1 p(1) q(1) unfolding pfx_def by blast
    then have "Q \<and> r = s" using 2 p(2) q(2) unfolding pfx_def by blast
    with 3 show "(P \<and> Q) \<and> r = s" by blast
  qed
qed

lemma be_bytes_length [simp]: "length (be_bytes k n) = k"
  by (induction k n rule: be_bytes.induct) simp_all

lemma be_bytes_inj: "be_bytes k m = be_bytes k n \<longleftrightarrow> m mod 256 ^ k = n mod 256 ^ k"
proof (induction k arbitrary: m n)
  case (Suc k)
  have eq: "x mod 256 ^ Suc k = x mod 256 + 256 * (x div 256 mod 256 ^ k)" for x :: int
    by (simp add: zmod_zmult2_eq)
  have w: "(word_of_int m :: byte) = word_of_int n \<longleftrightarrow> m mod 256 = n mod 256"
    using word_of_int_eq_iff [where 'a = 8, of m n] by (simp add: take_bit_eq_mod)
  have "be_bytes (Suc k) m = be_bytes (Suc k) n \<longleftrightarrow> m div 256 mod 256 ^ k = n div 256 mod 256 ^ k \<and> m mod 256 = n mod 256"
    using Suc by (simp add: w)
  also have "\<dots> \<longleftrightarrow> m mod 256 + 256 * (m div 256 mod 256 ^ k) = n mod 256 + 256 * (n div 256 mod 256 ^ k)"
  proof
    assume *: "m mod 256 + 256 * (m div 256 mod 256 ^ k) = n mod 256 + 256 * (n div 256 mod 256 ^ k)"
    then have "(m mod 256 + 256 * (m div 256 mod 256 ^ k)) mod 256 = (n mod 256 + 256 * (n div 256 mod 256 ^ k)) mod 256"
      by simp
    then have "m mod 256 = n mod 256" by simp
    with * show "m div 256 mod 256 ^ k = n div 256 mod 256 ^ k \<and> m mod 256 = n mod 256" by simp
  qed simp
  finally show ?case by (simp only: eq)
qed simp

lemma pfx_fixed:
  assumes "\<And>p q. m = Inr p \<Longrightarrow> n = Inr q \<Longrightarrow> length p = length q"
    and "\<And>p. m = Inr p \<Longrightarrow> n = Inr p \<Longrightarrow> P"
  shows "pfx m n P"
  using assms unfolding pfx_def by (metis append_eq_append_conv)

lemma pfx_q: "pfx (pack_q m) (pack_q n) (m = n)"
proof (rule pfx_fixed)
  fix p assume a: "pack_q m = Inr p" "pack_q n = Inr p"
  then have r: "- 9223372036854775808 \<le> m" "m < 9223372036854775808" "- 9223372036854775808 \<le> n" "n < 9223372036854775808"
    and "be_bytes 8 m = be_bytes 8 n" by (auto simp: pack_q_def split: if_splits)
  then have "m mod 18446744073709551616 = n mod 18446744073709551616" by (simp add: be_bytes_inj)
  then obtain k where "m - n = 18446744073709551616 * k" by (metis mod_eq_dvd_iff dvdE)
  then have "k < 1" "- 1 < k" using r by linarith+
  with \<open>m - n = 18446744073709551616 * k\<close> show "m = n" by simp
qed (auto simp: pack_q_def split: if_splits)

lemma pfx_d: "pfx (pack_d x) (pack_d y) (x = y)"
proof (rule pfx_fixed)
  fix p assume "pack_d x = Inr p" "pack_d y = Inr p"
  then have "uint x mod 18446744073709551616 = uint y mod 18446744073709551616"
    by (auto simp: pack_d_def be_bytes_inj)
  then show "x = y" using uint_bounded [of x] uint_bounded [of y] by (simp add: word_uint_eq_iff)
qed (auto simp: pack_d_def)

lemma pfx_bool: "pfx (pack_bool x) (pack_bool y) (x = y)"
  by (rule pfx_fixed) (auto simp: pack_bool_def split: if_splits)

lemma pfx_const: "pfx (Inr c) (Inr c) True"
  by (simp add: pfx_def)

lemma text_bytes_inj: "text_bytes s = text_bytes t \<longleftrightarrow> s = t"
proof -
  have "inj (\<lambda>c. word_of_int (int (char_code c)) :: byte)"
  proof (rule injI)
    fix c d assume "(word_of_int (int (char_code c)) :: byte) = word_of_int (int (char_code d))"
    then have "int (char_code c) mod 256 = int (char_code d) mod 256"
      unfolding word_of_int_eq_iff by (simp add: take_bit_eq_mod)
    then show "c = d" using char_code_lt [of c] char_code_lt [of d] by (simp add: char_code_inj)
  qed
  then show ?thesis by (simp add: text_bytes_def inj_map_eq_map)
qed

lemma pfx_text: "pfx (update_text s) (update_text t) (s = t)"
  unfolding pfx_def
proof (intro allI impI)
  fix p q r u
  assume a: "update_text s = Inr p \<and> update_text t = Inr q \<and> p @ r = q @ u"
  then have l: "int (length s) < 4294967296" "int (length t) < 4294967296"
    and e: "be_bytes 4 (int (length s)) @ text_bytes s @ r = be_bytes 4 (int (length t)) @ text_bytes t @ u"
    by (auto simp: update_text_def split: if_splits)
  then have "be_bytes 4 (int (length s)) = be_bytes 4 (int (length t))" and t: "text_bytes s @ r = text_bytes t @ u"
    by (simp_all add: append_eq_append_conv)
  then have "int (length s) mod 4294967296 = int (length t) mod 4294967296" by (simp add: be_bytes_inj)
  then have "length s = length t" using l by simp
  then have "length (text_bytes s) = length (text_bytes t)" by (simp add: text_bytes_def)
  with t show "s = t \<and> r = u" by (simp add: append_eq_append_conv text_bytes_inj)
qed

lemma pfx_opt_text: "pfx (opt_text_bytes v) (opt_text_bytes w) (v = w)"
proof (cases v)
  case None
  then show ?thesis by (cases w) (auto simp: pfx_def opt_text_bytes_def res_simps)
next
  case (Some s)
  show ?thesis
  proof (cases w)
    case None
    then show ?thesis using Some by (auto simp: pfx_def opt_text_bytes_def res_simps)
  next
    case (Some t)
    with \<open>v = Some s\<close> show ?thesis
      using pfx_text [of s t] unfolding pfx_def opt_text_bytes_def
      by (simp add: bindR_Inr) (metis append.assoc append_Cons append_Nil list.inject)
  qed
qed

lemma pfx_timeframe:
  "pfx (bindR (canonical_timeframe s) update_text) (bindR (canonical_timeframe t) update_text)
     (canonical_timeframe s = canonical_timeframe t)"
  using pfx_text by (auto simp: pfx_def res_simps)

lemmas pfx_intros = pfx_Cons pfx_Nil pfx_q pfx_d pfx_bool pfx_const pfx_text pfx_opt_text pfx_timeframe

lemma pfx_v4:
  "pfx (update_checksum rs a) (update_checksum rs b)
     ((py_lower (m_exchange a) = py_lower (m_exchange b)) \<and>
      (py_lower (m_market a) = py_lower (m_market b)) \<and>
      (py_upper (m_symbol a) = py_upper (m_symbol b)) \<and> (m_source_kind a = m_source_kind b) \<and>
      (m_source_transport a = m_source_transport b) \<and>
      (canonical_timeframe (m_timeframe a) = canonical_timeframe (m_timeframe b)) \<and>
      (m_provider a = m_provider b) \<and>
      (str_or (m_provider_revision a) [] = str_or (m_provider_revision b) []) \<and>
      (rs (m_revision_state a) = rs (m_revision_state b)) \<and> (m_revision a = m_revision b) \<and>
      (m_open_text a = m_open_text b) \<and> (m_high_text a = m_high_text b) \<and>
      (m_low_text a = m_low_text b) \<and> (m_close_text a = m_close_text b) \<and>
      (m_volume_text a = m_volume_text b) \<and> (b_time a = b_time b) \<and>
      (int_default (b_time_close a) 0 = int_default (b_time_close b) 0) \<and>
      (int_default (m_trades_count a) 0 = int_default (m_trades_count b) 0) \<and>
      (int_default (m_downloaded_at a) 0 = int_default (m_downloaded_at b) 0) \<and>
      (b_open a = b_open b) \<and> (b_high a = b_high b) \<and> (b_low a = b_low b) \<and>
      (b_close a = b_close b) \<and> (b_volume a = b_volume b) \<and>
      (float_default (m_quote_volume a) = float_default (m_quote_volume b)) \<and>
      (float_default (m_turnover a) = float_default (m_turnover b)) \<and>
      (float_default (m_taker_buy_base_volume a) = float_default (m_taker_buy_base_volume b)) \<and>
      (float_default (m_taker_buy_quote_volume a) = float_default (m_taker_buy_quote_volume b)) \<and>
      ((b_time_close a \<noteq> None) = (b_time_close b \<noteq> None)) \<and>
      ((m_trades_count a \<noteq> None) = (m_trades_count b \<noteq> None)) \<and>
      ((m_downloaded_at a \<noteq> None) = (m_downloaded_at b \<noteq> None)) \<and>
      ((m_quote_volume a \<noteq> None) = (m_quote_volume b \<noteq> None)) \<and>
      ((m_turnover a \<noteq> None) = (m_turnover b \<noteq> None)) \<and>
      ((m_taker_buy_base_volume a \<noteq> None) = (m_taker_buy_base_volume b \<noteq> None)) \<and>
      ((m_taker_buy_quote_volume a \<noteq> None) = (m_taker_buy_quote_volume b \<noteq> None)) \<and>
      (is_closed_bool a = is_closed_bool b) \<and> (True) \<and> (True))"
  unfolding update_checksum_def checksum_identity_def checksum_provenance_def checksum_texts_def
    checksum_numbers_def checksum_floats_def list.map append_Cons append_Nil
  by (intro pfx_intros)

lemma pfx_v3:
  "pfx (update_checksum_v3 rs a) (update_checksum_v3 rs b)
     ((py_lower (m_exchange a) = py_lower (m_exchange b)) \<and>
      (py_lower (m_market a) = py_lower (m_market b)) \<and>
      (py_upper (m_symbol a) = py_upper (m_symbol b)) \<and> (m_source_kind a = m_source_kind b) \<and>
      (m_source_transport a = m_source_transport b) \<and>
      (canonical_timeframe (m_timeframe a) = canonical_timeframe (m_timeframe b)) \<and>
      (m_provider a = m_provider b) \<and>
      (str_or (m_provider_revision a) [] = str_or (m_provider_revision b) []) \<and>
      (rs (m_revision_state a) = rs (m_revision_state b)) \<and> (m_revision a = m_revision b) \<and>
      (b_time a = b_time b) \<and> (int_default (b_time_close a) 0 = int_default (b_time_close b) 0) \<and>
      (int_default (m_trades_count a) 0 = int_default (m_trades_count b) 0) \<and>
      (int_default (m_downloaded_at a) 0 = int_default (m_downloaded_at b) 0) \<and>
      (b_open a = b_open b) \<and> (b_high a = b_high b) \<and> (b_low a = b_low b) \<and>
      (b_close a = b_close b) \<and> (b_volume a = b_volume b) \<and>
      (float_default (m_quote_volume a) = float_default (m_quote_volume b)) \<and>
      (float_default (m_turnover a) = float_default (m_turnover b)) \<and>
      (float_default (m_taker_buy_base_volume a) = float_default (m_taker_buy_base_volume b)) \<and>
      (float_default (m_taker_buy_quote_volume a) = float_default (m_taker_buy_quote_volume b)) \<and>
      ((b_time_close a \<noteq> None) = (b_time_close b \<noteq> None)) \<and>
      ((m_trades_count a \<noteq> None) = (m_trades_count b \<noteq> None)) \<and>
      ((m_downloaded_at a \<noteq> None) = (m_downloaded_at b \<noteq> None)) \<and>
      ((m_quote_volume a \<noteq> None) = (m_quote_volume b \<noteq> None)) \<and>
      ((m_turnover a \<noteq> None) = (m_turnover b \<noteq> None)) \<and>
      ((m_taker_buy_base_volume a \<noteq> None) = (m_taker_buy_base_volume b \<noteq> None)) \<and>
      ((m_taker_buy_quote_volume a \<noteq> None) = (m_taker_buy_quote_volume b \<noteq> None)) \<and>
      (is_closed_bool a = is_closed_bool b) \<and> (True) \<and> (True))"
  unfolding update_checksum_v3_def checksum_identity_def checksum_provenance_def
    checksum_numbers_def checksum_floats_def list.map append_Cons append_Nil
  by (intro pfx_intros)

text \<open>Equality of the persisted content, up to the case folding and naming the digest applies.\<close>

definition same_provenance :: "market_bar \<Rightarrow> market_bar \<Rightarrow> bool" where
  "same_provenance a b \<longleftrightarrow>
     (py_lower (m_exchange a) = py_lower (m_exchange b)) \<and>
     (py_lower (m_market a) = py_lower (m_market b)) \<and>
     (py_upper (m_symbol a) = py_upper (m_symbol b)) \<and> (m_source_kind a = m_source_kind b) \<and>
     (m_source_transport a = m_source_transport b) \<and>
     (canonical_timeframe (m_timeframe a) = canonical_timeframe (m_timeframe b)) \<and>
     (m_provider a = m_provider b) \<and>
     (str_or (m_provider_revision a) [] = str_or (m_provider_revision b) []) \<and>
     (m_revision a = m_revision b) \<and>
     m_revision_state a = m_revision_state b \<and> market_bar_to_bar a = market_bar_to_bar b \<and>
     m_trades_count a = m_trades_count b \<and> m_downloaded_at a = m_downloaded_at b \<and>
     m_quote_volume a = m_quote_volume b \<and> m_turnover a = m_turnover b \<and>
     m_taker_buy_base_volume a = m_taker_buy_base_volume b \<and>
     m_taker_buy_quote_volume a = m_taker_buy_quote_volume b \<and> is_closed_bool a = is_closed_bool b"

definition same_persisted :: "market_bar \<Rightarrow> market_bar \<Rightarrow> bool" where
  "same_persisted a b \<longleftrightarrow> same_provenance a b \<and> m_open_text a = m_open_text b \<and> m_high_text a = m_high_text b \<and>
     m_low_text a = m_low_text b \<and> m_close_text a = m_close_text b \<and> m_volume_text a = m_volume_text b"

lemma int_default_eq: "int_default v d = int_default w d \<Longrightarrow> (v \<noteq> None) = (w \<noteq> None) \<Longrightarrow> v = w"
  by (cases v; cases w) (auto simp: int_default_def)

lemma float_default_eq: "float_default v = float_default w \<Longrightarrow> (v \<noteq> None) = (w \<noteq> None) \<Longrightarrow> v = w"
  by (cases v; cases w) (auto simp: float_default_def)

lemma rs_inj: "rs_ok rs \<Longrightarrow> rs x = rs y \<Longrightarrow> x = y"
  by (cases x; cases y) (auto simp: rs_ok_def)

lemma pfx_mono: "pfx m n P \<Longrightarrow> (P \<Longrightarrow> Q) \<Longrightarrow> pfx m n Q"
  unfolding pfx_def by blast

lemma v3_same_provenance:
  assumes "rs_ok rs"
  shows "pfx (update_checksum_v3 rs a) (update_checksum_v3 rs b) (same_provenance a b)"
proof (rule pfx_mono [OF pfx_v3], elim conjE)
  assume time: "b_time a = b_time b"
    and floats: "b_open a = b_open b" "b_high a = b_high b" "b_low a = b_low b" "b_close a = b_close b" "b_volume a = b_volume b"
    and ints: "int_default (b_time_close a) 0 = int_default (b_time_close b) 0"
      "int_default (m_trades_count a) 0 = int_default (m_trades_count b) 0"
      "int_default (m_downloaded_at a) 0 = int_default (m_downloaded_at b) 0"
    and int_flags: "(b_time_close a \<noteq> None) = (b_time_close b \<noteq> None)"
      "(m_trades_count a \<noteq> None) = (m_trades_count b \<noteq> None)"
      "(m_downloaded_at a \<noteq> None) = (m_downloaded_at b \<noteq> None)"
    and opt: "float_default (m_quote_volume a) = float_default (m_quote_volume b)"
      "float_default (m_turnover a) = float_default (m_turnover b)"
      "float_default (m_taker_buy_base_volume a) = float_default (m_taker_buy_base_volume b)"
      "float_default (m_taker_buy_quote_volume a) = float_default (m_taker_buy_quote_volume b)"
    and opt_flags: "(m_quote_volume a \<noteq> None) = (m_quote_volume b \<noteq> None)"
      "(m_turnover a \<noteq> None) = (m_turnover b \<noteq> None)"
      "(m_taker_buy_base_volume a \<noteq> None) = (m_taker_buy_base_volume b \<noteq> None)"
      "(m_taker_buy_quote_volume a \<noteq> None) = (m_taker_buy_quote_volume b \<noteq> None)"
    and state: "rs (m_revision_state a) = rs (m_revision_state b)"
    and rest: "py_lower (m_exchange a) = py_lower (m_exchange b)" "py_lower (m_market a) = py_lower (m_market b)"
      "py_upper (m_symbol a) = py_upper (m_symbol b)" "m_source_kind a = m_source_kind b"
      "m_source_transport a = m_source_transport b"
      "canonical_timeframe (m_timeframe a) = canonical_timeframe (m_timeframe b)" "m_provider a = m_provider b"
      "str_or (m_provider_revision a) [] = str_or (m_provider_revision b) []" "m_revision a = m_revision b"
      "is_closed_bool a = is_closed_bool b"
  note eqs = int_default_eq [OF ints(1) int_flags(1)] int_default_eq [OF ints(2) int_flags(2)]
    int_default_eq [OF ints(3) int_flags(3)] float_default_eq [OF opt(1) opt_flags(1)]
    float_default_eq [OF opt(2) opt_flags(2)] float_default_eq [OF opt(3) opt_flags(3)]
    float_default_eq [OF opt(4) opt_flags(4)] rs_inj [OF assms state]
  have tb: "market_bar_to_bar a = market_bar_to_bar b" by (simp only: market_bar_to_bar_def time floats eqs)
  show "same_provenance a b" unfolding same_provenance_def by (intro conjI) (fact rest eqs tb)+
qed

lemma v4_same_persisted:
  assumes "rs_ok rs"
  shows "pfx (update_checksum rs a) (update_checksum rs b) (same_persisted a b)"
proof (rule pfx_mono [OF pfx_v4], elim conjE)
  assume time: "b_time a = b_time b"
    and floats: "b_open a = b_open b" "b_high a = b_high b" "b_low a = b_low b" "b_close a = b_close b" "b_volume a = b_volume b"
    and ints: "int_default (b_time_close a) 0 = int_default (b_time_close b) 0"
      "int_default (m_trades_count a) 0 = int_default (m_trades_count b) 0"
      "int_default (m_downloaded_at a) 0 = int_default (m_downloaded_at b) 0"
    and int_flags: "(b_time_close a \<noteq> None) = (b_time_close b \<noteq> None)"
      "(m_trades_count a \<noteq> None) = (m_trades_count b \<noteq> None)"
      "(m_downloaded_at a \<noteq> None) = (m_downloaded_at b \<noteq> None)"
    and opt: "float_default (m_quote_volume a) = float_default (m_quote_volume b)"
      "float_default (m_turnover a) = float_default (m_turnover b)"
      "float_default (m_taker_buy_base_volume a) = float_default (m_taker_buy_base_volume b)"
      "float_default (m_taker_buy_quote_volume a) = float_default (m_taker_buy_quote_volume b)"
    and opt_flags: "(m_quote_volume a \<noteq> None) = (m_quote_volume b \<noteq> None)"
      "(m_turnover a \<noteq> None) = (m_turnover b \<noteq> None)"
      "(m_taker_buy_base_volume a \<noteq> None) = (m_taker_buy_base_volume b \<noteq> None)"
      "(m_taker_buy_quote_volume a \<noteq> None) = (m_taker_buy_quote_volume b \<noteq> None)"
    and state: "rs (m_revision_state a) = rs (m_revision_state b)"
    and rest: "py_lower (m_exchange a) = py_lower (m_exchange b)" "py_lower (m_market a) = py_lower (m_market b)"
      "py_upper (m_symbol a) = py_upper (m_symbol b)" "m_source_kind a = m_source_kind b"
      "m_source_transport a = m_source_transport b"
      "canonical_timeframe (m_timeframe a) = canonical_timeframe (m_timeframe b)" "m_provider a = m_provider b"
      "str_or (m_provider_revision a) [] = str_or (m_provider_revision b) []" "m_revision a = m_revision b"
      "is_closed_bool a = is_closed_bool b"
    and texts: "m_open_text a = m_open_text b" "m_high_text a = m_high_text b" "m_low_text a = m_low_text b"
      "m_close_text a = m_close_text b" "m_volume_text a = m_volume_text b"
  note eqs = int_default_eq [OF ints(1) int_flags(1)] int_default_eq [OF ints(2) int_flags(2)]
    int_default_eq [OF ints(3) int_flags(3)] float_default_eq [OF opt(1) opt_flags(1)]
    float_default_eq [OF opt(2) opt_flags(2)] float_default_eq [OF opt(3) opt_flags(3)]
    float_default_eq [OF opt(4) opt_flags(4)] rs_inj [OF assms state]
  have tb: "market_bar_to_bar a = market_bar_to_bar b" by (simp only: market_bar_to_bar_def time floats eqs)
  show "same_persisted a b"
    unfolding same_persisted_def same_provenance_def by (intro conjI) (fact rest eqs texts tb)+
qed

lemma concatR_nonempty: "concatR (ms @ [Inr [c]]) = Inr p \<Longrightarrow> p \<noteq> []"
  by (induction ms arbitrary: p) (auto simp: res_simps)

text \<open>The current and the previous row format implement the interface, for any sound texts of the enumeration.\<close>

definition text_of_state :: "(revision_state \<Rightarrow> string) \<Rightarrow> revision_state \<Rightarrow> string" where
  "text_of_state rs = (if rs_ok rs then rs
     else (\<lambda>m. case m of ORIGINAL \<Rightarrow> ''o'' | CORRECTED \<Rightarrow> ''c'' | REVOKED \<Rightarrow> ''r''))"

lemma text_of_state_ok: "rs_ok (text_of_state rs)"
  by (simp add: text_of_state_def) (simp add: rs_ok_def)

interpretation v4_rows: row_encoding "update_checksum (text_of_state rs)" same_persisted
  for rs :: "revision_state \<Rightarrow> string"
proof
  fix x y p q r s
  assume "update_checksum (text_of_state rs) x = Inr p" "update_checksum (text_of_state rs) y = Inr q" "p @ r = q @ s"
  then show "same_persisted x y \<and> r = s"
    using v4_same_persisted [OF text_of_state_ok, of rs x y] unfolding pfx_def by blast
next
  fix x p assume "update_checksum (text_of_state rs) x = Inr p"
  then show "p \<noteq> []" using concatR_nonempty by (simp add: update_checksum_def flip: append_assoc)
qed

interpretation v3_rows: row_encoding "update_checksum_v3 (text_of_state rs)" same_provenance
  for rs :: "revision_state \<Rightarrow> string"
proof
  fix x y p q r s
  assume "update_checksum_v3 (text_of_state rs) x = Inr p" "update_checksum_v3 (text_of_state rs) y = Inr q" "p @ r = q @ s"
  then show "same_provenance x y \<and> r = s"
    using v3_same_provenance [OF text_of_state_ok, of rs x y] unfolding pfx_def by blast
next
  fix x p assume "update_checksum_v3 (text_of_state rs) x = Inr p"
  then show "p \<noteq> []" using concatR_nonempty by (simp add: update_checksum_v3_def flip: append_assoc)
qed

text \<open>
  C35. Equal segment checksums mean equal content. If two lists of bars have the same checksum, then
  in time order they agree, bar by bar, on every persisted field (prices and volumes bit for bit,
  optional fields including their absence, provenance and decimal texts, names up to the case
  folding and timeframe spelling the store normalises), or a collision of the hash function is found.
\<close>

theorem bars_checksum_injective:
  assumes "rs_ok rs" and "bars_checksum sha rs xs = Inr d" and "bars_checksum sha rs ys = Inr d"
  shows "list_all2 same_persisted (sort_key b_time xs) (sort_key b_time ys) \<or> (\<exists>m n. m \<noteq> n \<and> sha m = sha n)"
proof -
  have rs: "text_of_state rs = rs" using assms(1) by (simp add: text_of_state_def)
  show ?thesis
    using v4_rows.digest_inj [of rs "sort_key b_time xs" sha d "sort_key b_time ys"] assms(2,3)
    by (simp add: rs bars_checksum_def digest_of_def)
qed

theorem bars_checksum_injective_witness:
  "\<exists>rs b d. bars_checksum (\<lambda>x. x) rs [b, b\<lparr>b_time := 60000\<rparr>] = Inr d \<and>
     list_all2 same_persisted [b, b\<lparr>b_time := 60000\<rparr>] [b, b\<lparr>b_time := 60000\<rparr>]"
proof -
  define rs where "rs = (\<lambda>m. case m of ORIGINAL \<Rightarrow> ''original'' | CORRECTED \<Rightarrow> ''corrected'' | REVOKED \<Rightarrow> ''revoked'')"
  define b where "b = market_bar_defaults\<lparr>m_timeframe := ''1m'', m_is_closed := Some True\<rparr>"
  have rs: "rs_ok rs" by (simp add: rs_ok_def rs_def)
  have "canonical_timeframe ''1m'' = Inr ''1m''" by code_simp
  then have "\<exists>d. bars_checksum (\<lambda>x. x) rs [b, b\<lparr>b_time := 60000\<rparr>] = Inr d"
    by (simp add: bars_checksum_def digest_of_def update_checksum_def checksum_identity_def checksum_provenance_def
        checksum_texts_def checksum_numbers_def checksum_floats_def b_def market_bar_defaults_def update_text_def
        pack_q_def pack_d_def pack_bool_def opt_text_bytes_def int_default_def float_default_def rs_def py_lower_def py_upper_def)
  then obtain d where d: "bars_checksum (\<lambda>x. x) rs [b, b\<lparr>b_time := 60000\<rparr>] = Inr d" by blast
  have "sort_key b_time [b, b\<lparr>b_time := 60000\<rparr>] = [b, b\<lparr>b_time := 60000\<rparr>]"
    by (simp add: b_def market_bar_defaults_def)
  with bars_checksum_injective [OF rs d d] d show ?thesis
    by (intro exI [of _ rs] exI [of _ b] exI [of _ d]) (simp del: sort_key_simps)
qed

end
