(* ===== verification/JsonValues.thy ===== *)
theory JsonValues
  imports Bars
begin

section \<open>Coercions of JSON values\<close>

text \<open>
  \<open>int(v)\<close>, \<open>float(v)\<close>, \<open>str(v)\<close> and \<open>bool(v)\<close> on the values of parsed JSON, as the stream
  normalisers and the journal readers use them; containers raise \<open>TypeError\<close>.
\<close>

fun json_int :: "json \<Rightarrow> int res" where
  "json_int (JInt n) = Inr n"
| "json_int (JBool b) = Inr (if b then 1 else 0)"
| "json_int (JStr s) = py_int s"
| "json_int (JFloat x) = f_int x"
| "json_int _ = Inl (PyTypeError ''int() argument must be a string, a bytes-like object or a real number, not '')"

fun json_float :: "json \<Rightarrow> float64 res" where
  "json_float (JInt n) = Inr (f_of_int n)"
| "json_float (JBool b) = Inr (f_of_int (if b then 1 else 0))"
| "json_float (JStr s) = py_float s"
| "json_float (JFloat x) = Inr x"
| "json_float _ = Inl (PyTypeError ''float() argument must be a string or a real number, not '')"

fun json_text :: "json \<Rightarrow> string res" where
  "json_text (JStr s) = Inr s"
| "json_text (JInt n) = Inr (str_of_int n)"
| "json_text (JFloat x) = Inr (f_repr x)"
| "json_text (JBool b) = Inr (if b then ''True'' else ''False'')"
| "json_text JNull = Inr ''None''"
| "json_text _ = Inl (PyTypeError ''not a scalar'')"

fun json_truthy :: "json \<Rightarrow> bool" where
  "json_truthy JNull = False"
| "json_truthy (JBool b) = b"
| "json_truthy (JInt n) = (n \<noteq> 0)"
| "json_truthy (JFloat x) = f_truthy x"
| "json_truthy (JStr s) = (s \<noteq> [])"
| "json_truthy (JArr xs) = (xs \<noteq> [])"
| "json_truthy (JObj kvs) = (kvs \<noteq> [])"

text \<open>\<open>d.get(k)\<close> gives null for a missing key; \<open>d[k]\<close> raises.\<close>

definition obj_get :: "(string \<times> json) list \<Rightarrow> string \<Rightarrow> json" where
  "obj_get d k = (case map_of d k of Some v \<Rightarrow> v | None \<Rightarrow> JNull)"

definition obj_item :: "(string \<times> json) list \<Rightarrow> string \<Rightarrow> json res" where
  "obj_item d k = (case map_of d k of Some v \<Rightarrow> Inr v | None \<Rightarrow> Inl (PyKeyError k))"

definition json_or :: "json \<Rightarrow> json \<Rightarrow> json" where
  "json_or a b = (if json_truthy a then a else b)"

definition opt_field :: "(json \<Rightarrow> 'a res) \<Rightarrow> (string \<times> json) list \<Rightarrow> string \<Rightarrow> 'a option res" where
  "opt_field conv d k =
     (if obj_get d k = JNull then Inr None else bindR (conv (obj_get d k)) (\<lambda>v. Inr (Some v)))"

text \<open>\<open>isinstance(v, int)\<close>, which accepts booleans.\<close>

fun json_isint :: "json \<Rightarrow> int option" where
  "json_isint (JInt n) = Some n"
| "json_isint (JBool b) = Some (if b then 1 else 0)"
| "json_isint _ = None"

end
