(* ===== verification/SegmentState.thy ===== *)
theory SegmentState
  imports Checksums JsonValues
begin

section \<open>Segment manifests, the series directory and the index\<close>

text \<open>
  Models \<^verbatim>\<open>_pathing.py\<close>, \<^verbatim>\<open>store/segment_manifest.py\<close>,
  \<^verbatim>\<open>store/segment_integrity.py\<close> and the index operations of
  \<^verbatim>\<open>store/segment_store.py\<close>. A series directory is a record: its data files by name, and its JSON
  files as the values they parse to (\<open>json.loads\<close> inverts \<open>json.dumps\<close>). The device, inode and
  modification time of a data file are one number, its stamp; every write takes a fresh one from a
  clock, and a hard link shares it. There are no symbolic links. The model is of an installation
  without the optional pyarrow: a Parquet file may be present, and every attempt to read or write
  one raises as the code does then.

  What a writer does to the directory is a list of disk operations. Each of them is atomic, since the
  code writes to a temporary file and renames it, except the append of bytes to the data file, of
  which a crash may leave any prefix.
\<close>

subsection \<open>Path parts\<close>

definition safe_char :: "char \<Rightarrow> bool" where
  "safe_char c \<longleftrightarrow>
     (let n = char_code c in (65 \<le> n \<and> n \<le> 90) \<or> (48 \<le> n \<and> n \<le> 57) \<or> c \<in> set ''._-'')"

text \<open>Every run of other characters becomes one underscore.\<close>

fun collapse_unsafe :: "bool \<Rightarrow> string \<Rightarrow> string" where
  "collapse_unsafe in_run [] = []"
| "collapse_unsafe in_run (c # cs) =
     (if safe_char c then c # collapse_unsafe False cs
      else if in_run then collapse_unsafe True cs else CHR ''_'' # collapse_unsafe True cs)"

definition strip_chars :: "string \<Rightarrow> string \<Rightarrow> string" where
  "strip_chars chars s = rev (dropWhile (\<lambda>c. c \<in> set chars) (rev (dropWhile (\<lambda>c. c \<in> set chars) s)))"

definition safe_path_part :: "string \<Rightarrow> string" where
  "safe_path_part v =
     (let s = strip_chars ''._'' (collapse_unsafe False (py_upper (py_strip v)))
      in if s = [] then ''UNKNOWN'' else s)"

record series_key =
  sk_exchange :: string
  sk_market :: string
  sk_symbol :: string
  sk_timeframe :: string
  sk_source_kind :: string

definition series_path :: "series_key \<Rightarrow> string res" where
  "series_path k =
     bindR (canonical_timeframe (sk_timeframe k)) (\<lambda>tf.
       Inr (''v1/exchange='' @ py_lower (safe_path_part (sk_exchange k)) @ ''/market='' @
            py_lower (safe_path_part (sk_market k)) @ ''/symbol='' @ safe_path_part (sk_symbol k) @ ''/source='' @
            py_lower (safe_path_part (sk_source_kind k)) @ ''/timeframe='' @ tf))"

subsection \<open>Manifests\<close>

record segment_manifest =
  sm_runtime_contract_version :: string
  sm_schema_version :: string
  sm_exchange :: string
  sm_market :: string
  sm_symbol :: string
  sm_timeframe :: string
  sm_source_transport :: string
  sm_source_kind :: string
  sm_rows_count :: int
  sm_start_time :: "int option"
  sm_end_time :: "int option"
  sm_checksum :: string
  sm_data_format :: string
  sm_checksum_algorithm :: string
  sm_base_checksum :: "string option"
  sm_base_rows_count :: "int option"

definition runtime_contract_version :: string where
  "runtime_contract_version = ''1.4''"

fun json_of_int :: "int option \<Rightarrow> json" where
  "json_of_int None = JNull"
| "json_of_int (Some n) = JInt n"

fun json_of_str :: "string option \<Rightarrow> json" where
  "json_of_str None = JNull"
| "json_of_str (Some s) = JStr s"

text \<open>\<open>asdict(manifest)\<close>.\<close>

definition manifest_json :: "segment_manifest \<Rightarrow> (string \<times> json) list" where
  "manifest_json m =
     [(''runtime_contract_version'', JStr (sm_runtime_contract_version m)),
      (''schema_version'', JStr (sm_schema_version m)), (''exchange'', JStr (sm_exchange m)),
      (''market'', JStr (sm_market m)), (''symbol'', JStr (sm_symbol m)), (''timeframe'', JStr (sm_timeframe m)),
      (''source_transport'', JStr (sm_source_transport m)), (''source_kind'', JStr (sm_source_kind m)),
      (''rows_count'', JInt (sm_rows_count m)), (''start_time'', json_of_int (sm_start_time m)),
      (''end_time'', json_of_int (sm_end_time m)), (''checksum'', JStr (sm_checksum m)),
      (''data_format'', JStr (sm_data_format m)), (''checksum_algorithm'', JStr (sm_checksum_algorithm m)),
      (''base_checksum'', json_of_str (sm_base_checksum m)),
      (''base_rows_count'', json_of_int (sm_base_rows_count m))]"

text \<open>
  \<open>SegmentManifest(**payload)\<close>: an unknown or a missing required key raises \<open>TypeError\<close>. The
  dataclass does not check types; a payload whose values have other types than declared is refused
  here with the same exception.
\<close>

definition need_str :: "(string \<times> json) list \<Rightarrow> string \<Rightarrow> string res" where
  "need_str d k = (case map_of d k of Some (JStr s) \<Rightarrow> Inr s | _ \<Rightarrow> Inl (PyTypeError k))"

definition need_int :: "(string \<times> json) list \<Rightarrow> string \<Rightarrow> int res" where
  "need_int d k = (case map_of d k of Some (JInt n) \<Rightarrow> Inr n | _ \<Rightarrow> Inl (PyTypeError k))"

definition need_opt_int :: "(string \<times> json) list \<Rightarrow> string \<Rightarrow> int option res" where
  "need_opt_int d k =
     (case map_of d k of Some (JInt n) \<Rightarrow> Inr (Some n) | Some JNull \<Rightarrow> Inr None | _ \<Rightarrow> Inl (PyTypeError k))"

definition dflt_str :: "(string \<times> json) list \<Rightarrow> string \<Rightarrow> string \<Rightarrow> string res" where
  "dflt_str d k v = (case map_of d k of None \<Rightarrow> Inr v | Some (JStr s) \<Rightarrow> Inr s | _ \<Rightarrow> Inl (PyTypeError k))"

definition dflt_opt_str :: "(string \<times> json) list \<Rightarrow> string \<Rightarrow> string option res" where
  "dflt_opt_str d k =
     (case map_of d k of None \<Rightarrow> Inr None | Some JNull \<Rightarrow> Inr None | Some (JStr s) \<Rightarrow> Inr (Some s) | _ \<Rightarrow> Inl (PyTypeError k))"

definition dflt_opt_int :: "(string \<times> json) list \<Rightarrow> string \<Rightarrow> int option res" where
  "dflt_opt_int d k =
     (case map_of d k of None \<Rightarrow> Inr None | Some JNull \<Rightarrow> Inr None | Some (JInt s) \<Rightarrow> Inr (Some s) | _ \<Rightarrow> Inl (PyTypeError k))"

definition manifest_keys :: "string list" where
  "manifest_keys =
     [''runtime_contract_version'', ''schema_version'', ''exchange'', ''market'', ''symbol'', ''timeframe'',
      ''source_transport'', ''source_kind'', ''rows_count'', ''start_time'', ''end_time'', ''checksum'',
      ''data_format'', ''checksum_algorithm'', ''base_checksum'', ''base_rows_count'']"

definition manifest_of_dict :: "(string \<times> json) list \<Rightarrow> segment_manifest res" where
  "manifest_of_dict d =
     (if \<not> list_all (\<lambda>kv. fst kv \<in> set manifest_keys) d then Inl (PyTypeError ''unexpected keyword argument'')
      else
        bindR (need_str d ''runtime_contract_version'') (\<lambda>rc. bindR (need_str d ''schema_version'') (\<lambda>sv.
        bindR (need_str d ''exchange'') (\<lambda>ex. bindR (need_str d ''market'') (\<lambda>mk.
        bindR (need_str d ''symbol'') (\<lambda>sy. bindR (need_str d ''timeframe'') (\<lambda>tf.
        bindR (need_str d ''source_transport'') (\<lambda>st. bindR (need_str d ''source_kind'') (\<lambda>sk.
        bindR (need_int d ''rows_count'') (\<lambda>rows. bindR (need_opt_int d ''start_time'') (\<lambda>s.
        bindR (need_opt_int d ''end_time'') (\<lambda>e. bindR (need_str d ''checksum'') (\<lambda>c.
        bindR (dflt_str d ''data_format'' ''csv'') (\<lambda>fmt.
        bindR (dflt_str d ''checksum_algorithm'' canonical_checksum) (\<lambda>alg.
        bindR (dflt_opt_str d ''base_checksum'') (\<lambda>bc. bindR (dflt_opt_int d ''base_rows_count'') (\<lambda>br.
        Inr \<lparr>sm_runtime_contract_version = rc, sm_schema_version = sv, sm_exchange = ex, sm_market = mk,
             sm_symbol = sy, sm_timeframe = tf, sm_source_transport = st, sm_source_kind = sk,
             sm_rows_count = rows, sm_start_time = s, sm_end_time = e, sm_checksum = c, sm_data_format = fmt,
             sm_checksum_algorithm = alg, sm_base_checksum = bc, sm_base_rows_count = br\<rparr>)))))))))))))))))"

text \<open>Equality of dictionaries does not depend on the order of their keys.\<close>

definition dict_eq :: "(string \<times> json) list \<Rightarrow> (string \<times> json) list \<Rightarrow> bool" where
  "dict_eq a b \<longleftrightarrow> set (map fst a) = set (map fst b) \<and> list_all (\<lambda>k. map_of a k = map_of b k) (map fst a)"

subsection \<open>The series directory\<close>

record data_file =
  df_text :: string
  df_stamp :: int

record generation =
  g_stamp :: int
  g_size :: int
  g_checksum :: json
  g_algorithm :: json
  g_rows :: json

record index_row =
  ix_exchange :: string
  ix_market :: string
  ix_symbol :: string
  ix_timeframe :: string
  ix_start_time :: "int option"
  ix_end_time :: "int option"
  ix_rows_count :: int
  ix_source_transport :: string
  ix_source_kind :: string
  ix_checksum :: string
  ix_downloaded_at :: int
  ix_data_format :: string

record series_state =
  ss_files :: "string \<Rightarrow> data_file option"
  ss_manifest :: "json option"
  ss_append_journal :: "json option"
  ss_replace_journal :: "json option"
  ss_generation :: "generation option"
  ss_index :: "index_row list"
  ss_clock :: int

definition empty_state :: series_state where
  "empty_state = \<lparr>ss_files = (\<lambda>_. None), ss_manifest = None, ss_append_journal = None,
     ss_replace_journal = None, ss_generation = None, ss_index = [], ss_clock = 0\<rparr>"

abbreviation bars_csv :: string where "bars_csv \<equiv> ''bars.csv''"
abbreviation bars_parquet :: string where "bars_parquet \<equiv> ''bars.parquet''"

abbreviation ss_csv :: "series_state \<Rightarrow> data_file option" where
  "ss_csv st \<equiv> ss_files st bars_csv"

definition file_size :: "data_file \<Rightarrow> int" where
  "file_size f = int (length (df_text f))"

text \<open>Writing a data file: a new content under a fresh stamp.\<close>

definition write_file :: "string \<Rightarrow> string \<Rightarrow> series_state \<Rightarrow> series_state" where
  "write_file name text st =
     st\<lparr>ss_files := (ss_files st)(name := Some \<lparr>df_text = text, df_stamp = ss_clock st\<rparr>), ss_clock := ss_clock st + 1\<rparr>"

definition unlink_file :: "string \<Rightarrow> series_state \<Rightarrow> series_state" where
  "unlink_file name st = st\<lparr>ss_files := (ss_files st)(name := None)\<rparr>"

definition write_manifest :: "segment_manifest \<Rightarrow> series_state \<Rightarrow> series_state" where
  "write_manifest m st = st\<lparr>ss_manifest := Some (JObj (manifest_json m))\<rparr>"

definition load_segment_manifest :: "series_state \<Rightarrow> segment_manifest option res" where
  "load_segment_manifest st =
     (case ss_manifest st of
        None \<Rightarrow> Inr None
      | Some (JObj d) \<Rightarrow> bindR (manifest_of_dict d) (\<lambda>m. Inr (Some m))
      | Some _ \<Rightarrow> Inl (MDInvalidExchangeResponse ''Segment manifest must be a JSON object''))"

definition latest_bar_time :: "series_state \<Rightarrow> int option res" where
  "latest_bar_time st =
     bindR (load_segment_manifest st) (\<lambda>m. Inr (case m of None \<Rightarrow> None | Some m \<Rightarrow> sm_end_time m))"

definition validate_manifest_contract :: "(string \<times> json) list \<Rightarrow> unit res" where
  "validate_manifest_contract d =
     (if map_of d ''runtime_contract_version'' \<noteq> Some (JStr runtime_contract_version)
      then Inl (MDInvalidExchangeResponse ''Unsupported segment runtime contract'') else Inr ())"

subsection \<open>The index\<close>

definition same_series :: "segment_manifest \<Rightarrow> index_row \<Rightarrow> bool" where
  "same_series m r \<longleftrightarrow> ix_exchange r = sm_exchange m \<and> ix_market r = sm_market m \<and> ix_symbol r = sm_symbol m \<and>
     ix_timeframe r = sm_timeframe m \<and> ix_source_kind r = sm_source_kind m"

definition delete_index_rows :: "segment_manifest \<Rightarrow> index_row list \<Rightarrow> index_row list" where
  "delete_index_rows m rows = filter (\<lambda>r. \<not> same_series m r) rows"

definition manifest_index_row :: "segment_manifest \<Rightarrow> int \<Rightarrow> index_row" where
  "manifest_index_row m downloaded_at =
     \<lparr>ix_exchange = sm_exchange m, ix_market = sm_market m, ix_symbol = sm_symbol m, ix_timeframe = sm_timeframe m,
      ix_start_time = sm_start_time m, ix_end_time = sm_end_time m, ix_rows_count = sm_rows_count m,
      ix_source_transport = sm_source_transport m, ix_source_kind = sm_source_kind m,
      ix_checksum = sm_checksum m, ix_downloaded_at = downloaded_at, ix_data_format = sm_data_format m\<rparr>"

text \<open>A segment with rows has both times, so the columns' NOT NULL constraints hold.\<close>

definition insert_index_row :: "segment_manifest \<Rightarrow> int \<Rightarrow> index_row list \<Rightarrow> index_row list" where
  "insert_index_row m downloaded_at rows =
     (if sm_rows_count m = 0 then rows else rows @ [manifest_index_row m downloaded_at])"

definition replace_index_manifest :: "segment_manifest \<Rightarrow> int \<Rightarrow> series_state \<Rightarrow> series_state" where
  "replace_index_manifest m downloaded_at st =
     st\<lparr>ss_index := insert_index_row m downloaded_at (delete_index_rows m (ss_index st))\<rparr>"

definition indexed_downloaded_at :: "segment_manifest \<Rightarrow> series_state \<Rightarrow> int" where
  "indexed_downloaded_at m st =
     (case map ix_downloaded_at (filter (same_series m) (ss_index st)) of
        [] \<Rightarrow> 0 | n # ns \<Rightarrow> foldl max n ns)"

definition write_manifest_and_index :: "segment_manifest \<Rightarrow> int \<Rightarrow> series_state \<Rightarrow> series_state" where
  "write_manifest_and_index m downloaded_at st = replace_index_manifest m downloaded_at (write_manifest m st)"

subsection \<open>Integrity generations\<close>

definition json_or_null :: "(string \<times> json) list \<Rightarrow> string \<Rightarrow> json" where
  "json_or_null d k = (case map_of d k of Some v \<Rightarrow> v | None \<Rightarrow> JNull)"

definition generation_payload :: "data_file \<Rightarrow> segment_manifest \<Rightarrow> generation" where
  "generation_payload f m =
     \<lparr>g_stamp = df_stamp f, g_size = file_size f, g_checksum = JStr (sm_checksum m),
      g_algorithm = JStr (sm_checksum_algorithm m), g_rows = JInt (sm_rows_count m)\<rparr>"

definition publish_integrity_generation :: "segment_manifest \<Rightarrow> series_state \<Rightarrow> series_state" where
  "publish_integrity_generation m st =
     (case ss_csv st of None \<Rightarrow> st | Some f \<Rightarrow> st\<lparr>ss_generation := Some (generation_payload f m)\<rparr>)"

definition integrity_generation_is_current :: "series_state \<Rightarrow> (string \<times> json) list \<Rightarrow> bool" where
  "integrity_generation_is_current st manifest =
     (case (ss_generation st, ss_csv st) of
        (Some g, Some f) \<Rightarrow>
          g = \<lparr>g_stamp = df_stamp f, g_size = file_size f, g_checksum = json_or_null manifest ''checksum'',
               g_algorithm = json_or_null manifest ''checksum_algorithm'', g_rows = json_or_null manifest ''rows_count''\<rparr>
      | _ \<Rightarrow> False)"

definition validate_or_trust_csv_generation ::
  "(byte list \<Rightarrow> byte list) \<Rightarrow> (revision_state \<Rightarrow> string) \<Rightarrow> (string \<times> json) list \<Rightarrow> series_state \<Rightarrow> series_state res" where
  "validate_or_trust_csv_generation sha rs manifest st =
     (if integrity_generation_is_current st manifest then Inr st
      else
        (case ss_csv st of
           None \<Rightarrow> Inr st
         | Some f \<Rightarrow>
             bindR (validate_csv_checksum sha rs (df_text f) manifest) (\<lambda>_.
             bindR (manifest_of_dict manifest) (\<lambda>m. Inr (publish_integrity_generation m st)))))"

subsection \<open>Disk operations and crashes\<close>

text \<open>
  \<open>os.replace\<close> on two links of one file does nothing, as \<^verbatim>\<open>rename(2)\<close> specifies: equal
  stamps are one file.
\<close>

datatype disk_op =
    WriteManifest segment_manifest
  | UnlinkManifest
  | ReplaceIndex segment_manifest int
  | DeleteIndex segment_manifest
  | PublishGeneration segment_manifest
  | WriteAppendJournal json
  | UnlinkAppendJournal
  | WriteReplaceJournal json
  | UnlinkReplaceJournal
  | AppendBytes string
  | TruncateCsv int
  | WriteFile string string
  | UnlinkFile string
  | LinkFile string string
  | MoveFile string string

definition append_text :: "string \<Rightarrow> series_state \<Rightarrow> series_state" where
  "append_text w st = (case ss_csv st of None \<Rightarrow> st | Some f \<Rightarrow> write_file bars_csv (df_text f @ w) st)"

definition link_file :: "string \<Rightarrow> string \<Rightarrow> series_state \<Rightarrow> series_state" where
  "link_file source target st = st\<lparr>ss_files := (ss_files st)(target := ss_files st source)\<rparr>"

fun run_op :: "disk_op \<Rightarrow> series_state \<Rightarrow> series_state" where
  "run_op (WriteManifest m) st = write_manifest m st"
| "run_op UnlinkManifest st = st\<lparr>ss_manifest := None\<rparr>"
| "run_op (ReplaceIndex m d) st = replace_index_manifest m d st"
| "run_op (DeleteIndex m) st = st\<lparr>ss_index := delete_index_rows m (ss_index st)\<rparr>"
| "run_op (PublishGeneration m) st = publish_integrity_generation m st"
| "run_op (WriteAppendJournal j) st = st\<lparr>ss_append_journal := Some j\<rparr>"
| "run_op UnlinkAppendJournal st = st\<lparr>ss_append_journal := None\<rparr>"
| "run_op (WriteReplaceJournal j) st = st\<lparr>ss_replace_journal := Some j\<rparr>"
| "run_op UnlinkReplaceJournal st = st\<lparr>ss_replace_journal := None\<rparr>"
| "run_op (AppendBytes w) st = append_text w st"
| "run_op (TruncateCsv n) st =
     (case ss_csv st of None \<Rightarrow> st | Some f \<Rightarrow> write_file bars_csv (take (nat n) (df_text f)) st)"
| "run_op (WriteFile name text) st = write_file name text st"
| "run_op (UnlinkFile name) st = unlink_file name st"
| "run_op (LinkFile source target) st = link_file source target st"
| "run_op (MoveFile source target) st =
     (if ss_files st source = ss_files st target then st else unlink_file source (link_file source target st))"

definition run_ops :: "disk_op list \<Rightarrow> series_state \<Rightarrow> series_state" where
  "run_ops ops st = foldl (\<lambda>s op. run_op op s) st ops"

text \<open>The states a crash can leave: some operations done, perhaps part of an append.\<close>

inductive crash :: "disk_op list \<Rightarrow> series_state \<Rightarrow> series_state \<Rightarrow> bool" where
  stop: "crash ops st st"
| step: "crash ops (run_op op st) st' \<Longrightarrow> crash (op # ops) st st'"
| torn: "crash (AppendBytes w # ops) st (append_text (take n w) st)"

inductive_cases crash_NilE: "crash [] st st'"
inductive_cases crash_ConsE: "crash (op # ops) st st'"

lemma crash_done: "crash ops st (run_ops ops st)"
  by (induction ops arbitrary: st) (auto simp: run_ops_def intro: crash.intros)

text \<open>A property that every operation and every torn append keeps holds in every crash state.\<close>

lemma crash_invariant:
  assumes "crash ops st st'" and "I ops st"
    and "\<And>op ops st. I (op # ops) st \<Longrightarrow> I ops (run_op op st)"
    and "\<And>ops st. I ops st \<Longrightarrow> J st"
    and "\<And>w ops st n. I (AppendBytes w # ops) st \<Longrightarrow> J (append_text (take n w) st)"
  shows "J st'"
  using assms(1,2)
  by (induction rule: crash.induct) (auto intro: assms(3-5))

subsection \<open>Manifests read back\<close>

lemma manifest_lookup:
  "map_of (manifest_json m) ''runtime_contract_version'' = Some (JStr (sm_runtime_contract_version m))"
  "map_of (manifest_json m) ''schema_version'' = Some (JStr (sm_schema_version m))"
  "map_of (manifest_json m) ''exchange'' = Some (JStr (sm_exchange m))"
  "map_of (manifest_json m) ''market'' = Some (JStr (sm_market m))"
  "map_of (manifest_json m) ''symbol'' = Some (JStr (sm_symbol m))"
  "map_of (manifest_json m) ''timeframe'' = Some (JStr (sm_timeframe m))"
  "map_of (manifest_json m) ''source_transport'' = Some (JStr (sm_source_transport m))"
  "map_of (manifest_json m) ''source_kind'' = Some (JStr (sm_source_kind m))"
  "map_of (manifest_json m) ''rows_count'' = Some (JInt (sm_rows_count m))"
  "map_of (manifest_json m) ''start_time'' = Some (json_of_int (sm_start_time m))"
  "map_of (manifest_json m) ''end_time'' = Some (json_of_int (sm_end_time m))"
  "map_of (manifest_json m) ''checksum'' = Some (JStr (sm_checksum m))"
  "map_of (manifest_json m) ''data_format'' = Some (JStr (sm_data_format m))"
  "map_of (manifest_json m) ''checksum_algorithm'' = Some (JStr (sm_checksum_algorithm m))"
  "map_of (manifest_json m) ''base_checksum'' = Some (json_of_str (sm_base_checksum m))"
  "map_of (manifest_json m) ''base_rows_count'' = Some (json_of_int (sm_base_rows_count m))"
  by (simp_all add: manifest_json_def)

lemma manifest_json_keys: "map fst (manifest_json m) = manifest_keys"
  by (simp add: manifest_json_def manifest_keys_def)

lemma need_opt_int_json: "map_of d k = Some (json_of_int v) \<Longrightarrow> need_opt_int d k = Inr v"
  by (cases v) (simp_all add: need_opt_int_def)

lemma dflt_opt_json:
  "map_of d k = Some (json_of_int v) \<Longrightarrow> dflt_opt_int d k = Inr v"
  "map_of d k = Some (json_of_str w) \<Longrightarrow> dflt_opt_str d k = Inr w"
  by (cases v; simp add: dflt_opt_int_def) (cases w; simp add: dflt_opt_str_def)

lemma manifest_known_keys: "list_all (\<lambda>kv. fst kv \<in> set manifest_keys) (manifest_json m)"
  unfolding list_all_iff by (metis manifest_json_keys image_eqI list.set_map)

lemma manifest_of_manifest_json: "manifest_of_dict (manifest_json m) = Inr m"
  using manifest_known_keys [of m]
    by (simp add: manifest_of_dict_def need_str_def need_int_def dflt_str_def manifest_lookup
        need_opt_int_json [OF manifest_lookup(10)] need_opt_int_json [OF manifest_lookup(11)]
        dflt_opt_json(1) [OF manifest_lookup(16)] dflt_opt_json(2) [OF manifest_lookup(15)])

interpretation manifest_codec: codec manifest_json manifest_of_dict "\<lambda>_. True"
  by unfold_locales (rule manifest_of_manifest_json)

lemma manifest_json_eq [simp]: "manifest_json a = manifest_json b \<longleftrightarrow> a = b"
  using manifest_of_manifest_json by (metis sum.inject(2))

lemma dict_eq_refl [simp]: "dict_eq d d"
  by (simp add: dict_eq_def list_all_iff)

lemma dict_eq_manifest: "dict_eq (manifest_json a) (manifest_json b) \<longleftrightarrow> a = b"
proof
  assume e: "dict_eq (manifest_json a) (manifest_json b)"
  have "map_of (manifest_json a) k = map_of (manifest_json b) k" for k
  proof (cases "k \<in> set manifest_keys")
    case True
    then show ?thesis using e by (simp add: dict_eq_def manifest_json_keys list_all_iff)
  next
    case False
    then have "map_of (manifest_json m) k = None" for m
      by (metis manifest_json_keys map_of_eq_None_iff list.set_map)
    then show ?thesis by simp
  qed
  then have "map_of (manifest_json a) = map_of (manifest_json b)" by (rule ext)
  then have "manifest_of_dict (manifest_json a) = manifest_of_dict (manifest_json b)"
    unfolding manifest_of_dict_def need_str_def need_int_def need_opt_int_def dflt_str_def dflt_opt_str_def
      dflt_opt_int_def
    by (simp only: manifest_known_keys)
  then show "a = b" by (simp add: manifest_of_manifest_json)
qed simp

lemma load_written_manifest [simp]: "ss_manifest st = Some (JObj (manifest_json m)) \<Longrightarrow> load_segment_manifest st = Inr (Some m)"
  by (simp add: load_segment_manifest_def manifest_of_manifest_json)

lemma write_fields [simp]:
  "ss_files (write_manifest m st) = ss_files st" "ss_manifest (write_manifest m st) = Some (JObj (manifest_json m))"
  "ss_append_journal (write_manifest m st) = ss_append_journal st" "ss_replace_journal (write_manifest m st) = ss_replace_journal st"
  "ss_index (write_manifest m st) = ss_index st"
  by (simp_all add: write_manifest_def)

lemma index_fields [simp]:
  "ss_files (replace_index_manifest m d st) = ss_files st" "ss_manifest (replace_index_manifest m d st) = ss_manifest st"
  "ss_append_journal (replace_index_manifest m d st) = ss_append_journal st"
  "ss_replace_journal (replace_index_manifest m d st) = ss_replace_journal st"
  by (simp_all add: replace_index_manifest_def)

lemma generation_fields [simp]:
  "ss_files (publish_integrity_generation m st) = ss_files st" "ss_manifest (publish_integrity_generation m st) = ss_manifest st"
  "ss_append_journal (publish_integrity_generation m st) = ss_append_journal st"
  "ss_replace_journal (publish_integrity_generation m st) = ss_replace_journal st"
  "ss_index (publish_integrity_generation m st) = ss_index st"
  by (simp_all add: publish_integrity_generation_def split: option.splits)

lemma file_fields [simp]:
  "ss_files (write_file n t st) k = (if k = n then Some \<lparr>df_text = t, df_stamp = ss_clock st\<rparr> else ss_files st k)"
  "ss_files (unlink_file n st) k = (if k = n then None else ss_files st k)"
  "ss_files (link_file n n' st) k = (if k = n' then ss_files st n else ss_files st k)"
  "ss_manifest (write_file n t st) = ss_manifest st" "ss_manifest (unlink_file n st) = ss_manifest st"
  "ss_manifest (link_file n n' st) = ss_manifest st"
  "ss_append_journal (write_file n t st) = ss_append_journal st" "ss_append_journal (unlink_file n st) = ss_append_journal st"
  "ss_append_journal (link_file n n' st) = ss_append_journal st"
  "ss_replace_journal (write_file n t st) = ss_replace_journal st" "ss_replace_journal (unlink_file n st) = ss_replace_journal st"
  "ss_replace_journal (link_file n n' st) = ss_replace_journal st"
  "ss_index (write_file n t st) = ss_index st" "ss_index (unlink_file n st) = ss_index st"
  "ss_index (link_file n n' st) = ss_index st"
  by (simp_all add: write_file_def unlink_file_def link_file_def)

lemma append_fields [simp]:
  "ss_manifest (append_text w st) = ss_manifest st" "ss_append_journal (append_text w st) = ss_append_journal st"
  "ss_replace_journal (append_text w st) = ss_replace_journal st" "ss_index (append_text w st) = ss_index st"
  by (simp_all add: append_text_def split: option.splits)

lemma run_ops_simps [simp]: "run_ops [] st = st" "run_ops (op # ops) st = run_ops ops (run_op op st)"
  by (simp_all add: run_ops_def)

lemma run_ops_append: "run_ops (xs @ ys) st = run_ops ys (run_ops xs st)"
  by (simp add: run_ops_def)

lemma filter_same_series_index:
  "filter (same_series m) (ss_index (replace_index_manifest m d st)) =
     (if sm_rows_count m = 0 then [] else [manifest_index_row m d])"
  by (simp add: replace_index_manifest_def insert_index_row_def delete_index_rows_def same_series_def manifest_index_row_def)

subsection \<open>Generations\<close>

text \<open>The data file holds a text under a manifest, and the index has the row of that manifest.\<close>

definition holds :: "series_state \<Rightarrow> string \<Rightarrow> segment_manifest \<Rightarrow> bool" where
  "holds st w m \<longleftrightarrow> map_option df_text (ss_csv st) = Some w \<and> ss_manifest st = Some (JObj (manifest_json m))"

definition index_agrees :: "series_state \<Rightarrow> segment_manifest \<Rightarrow> bool" where
  "index_agrees st m \<longleftrightarrow>
     (\<exists>d. filter (same_series m) (ss_index st) = (if sm_rows_count m = 0 then [] else [manifest_index_row m d]))"

lemma holds_simps [simp]:
  "holds (write_manifest m st) w m' \<longleftrightarrow> map_option df_text (ss_csv st) = Some w \<and> m' = m"
  "holds (replace_index_manifest m d st) w m' = holds st w m'"
  "holds (publish_integrity_generation m st) w m' = holds st w m'"
  "holds (st\<lparr>ss_append_journal := j\<rparr>) w m' = holds st w m'"
  "holds (st\<lparr>ss_replace_journal := j\<rparr>) w m' = holds st w m'"
  by (auto simp: holds_def)

lemma holds_append: "holds st w m \<Longrightarrow> holds (append_text v st) (w @ v) m"
  by (auto simp: holds_def append_text_def)

lemma holds_truncate: "holds st (w @ v) m \<Longrightarrow> map_option df_text (ss_csv (run_op (TruncateCsv (int (length w))) st)) = Some w"
  by (auto simp: holds_def)

lemma index_agrees_replace [simp]: "index_agrees (replace_index_manifest m d st) m"
  unfolding index_agrees_def filter_same_series_index by blast

lemma index_agrees_cong [simp]:
  "index_agrees (publish_integrity_generation m' st) m = index_agrees st m"
  "index_agrees (st\<lparr>ss_append_journal := j\<rparr>) m = index_agrees st m"
  "index_agrees (st\<lparr>ss_replace_journal := j\<rparr>) m = index_agrees st m"
  "index_agrees (unlink_file n st) m = index_agrees st m"
  "index_agrees (link_file n n' st) m = index_agrees st m"
  "index_agrees (write_file n t st) m = index_agrees st m"
  "index_agrees (write_manifest m' st) m = index_agrees st m"
  by (simp_all add: index_agrees_def)

end
