(* ===== verification/SegmentReplace.thy ===== *)
theory SegmentReplace
  imports SegmentState
begin

section \<open>Replacing a segment generation\<close>

text \<open>
  Models \<^verbatim>\<open>store/segment_replace.py\<close>: the rollback journal and the backup link written before a
  replacement, the clean-up after it, and the recovery that rolls a half-done replacement forward or
  back. The validation of the journal is in the code's order. Symbolic links are outside the model,
  so the checks for them never fail; the fallback of a copy where a hard link is not possible is
  left out.
\<close>

definition backup_name :: "string \<Rightarrow> string" where
  "backup_name fmt = ''.replace-backup.'' @ fmt"

definition data_name :: "string \<Rightarrow> string" where
  "data_name fmt = ''bars.'' @ fmt"

text \<open>The suffix \<open>_paths\<close> gives a format.\<close>

definition path_format :: "string \<Rightarrow> string" where
  "path_format fmt = (if fmt = ''parquet'' then ''parquet'' else ''csv'')"

definition manifest_key :: "segment_manifest \<Rightarrow> series_key" where
  "manifest_key m = \<lparr>sk_exchange = sm_exchange m, sk_market = sm_market m, sk_symbol = sm_symbol m,
     sk_timeframe = sm_timeframe m, sk_source_kind = sm_source_kind m\<rparr>"

definition validate_manifest_identity :: "segment_manifest option \<Rightarrow> segment_manifest \<Rightarrow> unit res" where
  "validate_manifest_identity old new =
     (case old of None \<Rightarrow> Inr ()
      | Some m \<Rightarrow>
          if manifest_key m \<noteq> manifest_key new
          then Inl (MDInvalidExchangeResponse ''Invalid segment replacement journal manifest identity'') else Inr ())"

text \<open>The journal lies in the directory that the new manifest names.\<close>

definition validate_journal_path :: "series_key \<Rightarrow> segment_manifest \<Rightarrow> unit res" where
  "validate_journal_path key new =
     bindR (series_path key) (\<lambda>directory.
     bindR (series_path (manifest_key new)) (\<lambda>expected.
     if directory \<noteq> expected then Inl (MDInvalidExchangeResponse ''Invalid segment replacement journal path'') else Inr ()))"

subsection \<open>The journal\<close>

definition replace_journal_json ::
  "segment_manifest option \<Rightarrow> segment_manifest \<Rightarrow> string option \<Rightarrow> string \<Rightarrow> string option \<Rightarrow> int \<Rightarrow> int \<Rightarrow> json" where
  "replace_journal_json old new old_name new_name backup old_downloaded_at new_downloaded_at =
     JObj [(''version'', JStr ''segment-replace-v1''),
           (''old_manifest'', case old of None \<Rightarrow> JNull | Some m \<Rightarrow> JObj (manifest_json m)),
           (''new_manifest'', JObj (manifest_json new)), (''old_data_name'', json_of_str old_name),
           (''new_data_name'', JStr new_name), (''backup_name'', json_of_str backup),
           (''old_downloaded_at'', JInt old_downloaded_at), (''new_downloaded_at'', JInt new_downloaded_at)]"

definition load_journal :: "json \<Rightarrow> (string \<times> json) list res" where
  "load_journal j =
     (case j of
        JObj d \<Rightarrow> if obj_get d ''version'' \<noteq> JStr ''segment-replace-v1''
                  then Inl (MDInvalidExchangeResponse ''Invalid segment replacement journal'') else Inr d
      | _ \<Rightarrow> Inl (MDInvalidExchangeResponse ''Invalid segment replacement journal''))"

definition manifest_of_json :: "json \<Rightarrow> segment_manifest res" where
  "manifest_of_json j = (case j of JObj d \<Rightarrow> manifest_of_dict d | _ \<Rightarrow> Inl (PyTypeError ''argument after ** must be a mapping''))"

text \<open>\<open>except (KeyError, TypeError, ValueError)\<close>.\<close>

fun invalid_as :: "string \<Rightarrow> 'a res \<Rightarrow> 'a res" where
  "invalid_as msg (Inr x) = Inr x"
| "invalid_as msg (Inl (PyKeyError _)) = Inl (MDInvalidExchangeResponse msg)"
| "invalid_as msg (Inl (PyTypeError _)) = Inl (MDInvalidExchangeResponse msg)"
| "invalid_as msg (Inl (PyValueError _)) = Inl (MDInvalidExchangeResponse msg)"
| "invalid_as msg (Inl e) = Inl e"

text \<open>
  A member name is one of the two names allowed for its field. Any other text, a path among them,
  raises the same error.
\<close>

definition journal_member_name :: "(string \<times> json) list \<Rightarrow> string \<Rightarrow> bool \<Rightarrow> string option res" where
  "journal_member_name d field optional =
     (let allowed = (if field = ''backup_name'' then [backup_name ''csv'', backup_name ''parquet'']
                     else [bars_csv, bars_parquet]) in
      case obj_get d field of
        JNull \<Rightarrow> if optional then Inr None else Inl (MDInvalidExchangeResponse ''Invalid segment replacement journal path: '')
      | JStr s \<Rightarrow> if s \<in> set allowed then Inr (Some s)
                  else Inl (MDInvalidExchangeResponse ''Invalid segment replacement journal path: '')
      | _ \<Rightarrow> Inl (MDInvalidExchangeResponse ''Invalid segment replacement journal path: ''))"

record replace_journal =
  rj_dict :: "(string \<times> json) list"
  rj_old :: "segment_manifest option"
  rj_new :: segment_manifest
  rj_old_name :: "string option"
  rj_new_name :: string
  rj_backup_name :: "string option"

definition validated_journal :: "series_key \<Rightarrow> json \<Rightarrow> replace_journal res" where
  "validated_journal key j =
     bindR (load_journal j) (\<lambda>d.
     bindR (invalid_as ''Invalid segment replacement journal''
              (bindR (if obj_get d ''old_manifest'' = JNull then Inr None
                      else bindR (manifest_of_json (obj_get d ''old_manifest'')) (\<lambda>m. Inr (Some m))) (\<lambda>old.
               bindR (bindR (obj_item d ''new_manifest'') manifest_of_json) (\<lambda>new. Inr (old, new))))) (\<lambda>(old, new).
     bindR (validate_manifest_identity old new) (\<lambda>_.
     bindR (validate_journal_path key new) (\<lambda>_.
     bindR (journal_member_name d ''old_data_name'' True) (\<lambda>old_name.
     bindR (journal_member_name d ''new_data_name'' False) (\<lambda>new_opt.
     case new_opt of None \<Rightarrow> Inl PyAssertionError | Some new_name \<Rightarrow>
     bindR (journal_member_name d ''backup_name'' True) (\<lambda>backup.
     if new_name \<noteq> data_name (sm_data_format new)
     then Inl (MDInvalidExchangeResponse ''Invalid segment replacement journal path: new_data_name'')
     else if old_name \<noteq> map_option (\<lambda>m. data_name (sm_data_format m)) old
     then Inl (MDInvalidExchangeResponse ''Invalid segment replacement journal path: old_data_name'')
     else if backup \<noteq> None \<and> backup \<noteq> map_option (\<lambda>m. backup_name (sm_data_format m)) old
     then Inl (MDInvalidExchangeResponse ''Invalid segment replacement journal path: backup_name'')
     else Inr \<lparr>rj_dict = d, rj_old = old, rj_new = new, rj_old_name = old_name, rj_new_name = new_name,
               rj_backup_name = backup\<rparr>)))))))"

subsection \<open>Begin, finish, recover\<close>

definition other_name :: "string \<Rightarrow> string" where
  "other_name name = (if name = bars_parquet then bars_csv else bars_parquet)"

definition opt_unlink :: "string option \<Rightarrow> disk_op list" where
  "opt_unlink name = (case name of None \<Rightarrow> [] | Some n \<Rightarrow> [UnlinkFile n])"

definition finish_plan :: "series_key \<Rightarrow> json \<Rightarrow> disk_op list res" where
  "finish_plan key j =
     bindR (validated_journal key j) (\<lambda>r.
     Inr ((case rj_old_name r of Some n \<Rightarrow> if n \<noteq> rj_new_name r then [UnlinkFile n] else [] | None \<Rightarrow> []) @
          (if rj_new_name r = bars_csv then [PublishGeneration (rj_new r)] else []) @
          [UnlinkFile (other_name (rj_new_name r))] @ opt_unlink (rj_backup_name r) @ [UnlinkReplaceJournal]))"

definition replace_committed :: "series_state \<Rightarrow> replace_journal \<Rightarrow> bool" where
  "replace_committed st r \<longleftrightarrow>
     (case ss_manifest st of Some (JObj d) \<Rightarrow> dict_eq d (manifest_json (rj_new r)) | _ \<Rightarrow> False) \<and>
     ss_files st (rj_new_name r) \<noteq> None"

definition rollback_plan :: "replace_journal \<Rightarrow> int \<Rightarrow> series_state \<Rightarrow> disk_op list res" where
  "rollback_plan r old_downloaded_at st =
     (case rj_old r of
        None \<Rightarrow> Inr ([UnlinkFile (rj_new_name r), UnlinkManifest, DeleteIndex (rj_new r)] @
                     opt_unlink (rj_backup_name r) @ [UnlinkReplaceJournal])
      | Some old \<Rightarrow>
          (let restore = (case (rj_backup_name r, rj_old_name r) of
                 (Some b, Some n) \<Rightarrow> if ss_files st b \<noteq> None then [MoveFile b n] else [] | _ \<Rightarrow> []) in
           case rj_old_name r of
             None \<Rightarrow> Inl (MDInvalidExchangeResponse ''Cannot recover segment replacement without old data generation'')
           | Some n \<Rightarrow>
               if ss_files (run_ops restore st) n = None
               then Inl (MDInvalidExchangeResponse ''Cannot recover segment replacement without old data generation'')
               else Inr (restore @ (if rj_new_name r \<noteq> n then [UnlinkFile (rj_new_name r)] else []) @
                         [WriteManifest old, ReplaceIndex old old_downloaded_at] @
                         opt_unlink (rj_backup_name r) @ [UnlinkReplaceJournal])))"

text \<open>
  The operations of a recovery. When the old data is gone the code raises after it has moved the
  backup, which is then absent, so nothing has changed.
\<close>

definition recover_replacement_plan :: "series_key \<Rightarrow> series_state \<Rightarrow> disk_op list res" where
  "recover_replacement_plan key st =
     (case ss_replace_journal st of
        None \<Rightarrow> Inr []
      | Some j \<Rightarrow>
          bindR (validated_journal key j) (\<lambda>r.
          bindR (invalid_as ''Invalid segment replacement journal''
                   (bindR (bindR (obj_item (rj_dict r) ''new_downloaded_at'') json_int) (\<lambda>new_at.
                    bindR (json_int (case map_of (rj_dict r) ''old_downloaded_at'' of None \<Rightarrow> JInt 0 | Some v \<Rightarrow> v)) (\<lambda>old_at.
                    Inr (new_at, old_at))))) (\<lambda>(new_at, old_at).
          if replace_committed st r then
            bindR (finish_plan key j) (\<lambda>fin. Inr (ReplaceIndex (rj_new r) new_at # fin))
          else rollback_plan r old_at st)))"

definition begin_plan ::
  "series_key \<Rightarrow> segment_manifest option \<Rightarrow> segment_manifest \<Rightarrow> int \<Rightarrow> series_state \<Rightarrow> (json \<times> disk_op list) res" where
  "begin_plan key old new downloaded_at st =
     bindR (validate_manifest_identity old new) (\<lambda>_.
     bindR (validate_journal_path key new) (\<lambda>_.
     bindR (recover_replacement_plan key st) (\<lambda>recovery.
     let st' = run_ops recovery st;
         old_fmt = map_option (\<lambda>m. path_format (sm_data_format m)) old;
         backup = (case old_fmt of None \<Rightarrow> None
                   | Some f \<Rightarrow> if ss_files st' (data_name f) \<noteq> None then Some (backup_name f) else None);
         link = (case (old_fmt, backup) of (Some f, Some b) \<Rightarrow> [UnlinkFile b, LinkFile (data_name f) b] | _ \<Rightarrow> []);
         j = replace_journal_json old new (map_option data_name old_fmt) (data_name (path_format (sm_data_format new))) backup
               (case old of None \<Rightarrow> 0 | Some m \<Rightarrow> indexed_downloaded_at m st') downloaded_at
     in Inr (j, recovery @ link @ [WriteReplaceJournal j]))))"

subsection \<open>The operations of a whole replacement\<close>

text \<open>
  What \<open>_replace_all_locked\<close> and \<open>replace_all_stream\<close> do to the directory once the manifest and the
  text of the new generation are known: journal, data, manifest, index, clean-up.
\<close>

definition commit_ops :: "string \<Rightarrow> segment_manifest \<Rightarrow> int \<Rightarrow> disk_op list" where
  "commit_ops w new downloaded_at = [WriteFile bars_csv w, WriteManifest new, ReplaceIndex new downloaded_at]"

subsection \<open>A crash during a replacement is recovered\<close>

lemma names [simp]:
  "data_name ''csv'' = bars_csv" "path_format ''csv'' = ''csv''" "other_name bars_csv = bars_parquet"
  "backup_name ''csv'' \<noteq> bars_csv" "bars_csv \<noteq> backup_name ''csv''"
  by (simp_all add: data_name_def path_format_def other_name_def backup_name_def)

text \<open>The journal a replacement by a CSV generation writes over an old one, or over an empty directory.\<close>

definition csv_journal :: "segment_manifest option \<Rightarrow> segment_manifest \<Rightarrow> int \<Rightarrow> int \<Rightarrow> json" where
  "csv_journal old new old_at new_at =
     (case old of
        None \<Rightarrow> replace_journal_json None new None bars_csv None old_at new_at
      | Some m \<Rightarrow> replace_journal_json (Some m) new (Some bars_csv) bars_csv (Some (backup_name ''csv'')) old_at new_at)"

definition replaceable :: "series_key \<Rightarrow> segment_manifest option \<Rightarrow> segment_manifest \<Rightarrow> bool" where
  "replaceable key old new \<longleftrightarrow>
     sm_data_format new = ''csv'' \<and> (\<exists>path. series_path key = Inr path \<and> series_path (manifest_key new) = Inr path) \<and>
     (case old of None \<Rightarrow> True | Some m \<Rightarrow> sm_data_format m = ''csv'' \<and> manifest_key m = manifest_key new)"

lemma csv_journal_dict:
  obtains d where "csv_journal old new old_at new_at = JObj d"
    and "obj_get d ''version'' = JStr ''segment-replace-v1''"
    and "obj_get d ''old_manifest'' = (case old of None \<Rightarrow> JNull | Some m \<Rightarrow> JObj (manifest_json m))"
    and "obj_item d ''new_manifest'' = Inr (JObj (manifest_json new))"
    and "obj_get d ''old_data_name'' = json_of_str (map_option (\<lambda>_. bars_csv) old)"
    and "obj_get d ''new_data_name'' = JStr bars_csv"
    and "obj_get d ''backup_name'' = json_of_str (map_option (\<lambda>_. backup_name ''csv'') old)"
    and "map_of d ''old_downloaded_at'' = Some (JInt old_at)" and "obj_item d ''new_downloaded_at'' = Inr (JInt new_at)"
  by (cases old) (simp_all add: csv_journal_def replace_journal_json_def obj_get_def obj_item_def)

lemma validated_csv_journal:
  assumes "replaceable key old new"
  shows "\<exists>d. validated_journal key (csv_journal old new old_at new_at) =
     Inr \<lparr>rj_dict = d, rj_old = old, rj_new = new, rj_old_name = map_option (\<lambda>_. bars_csv) old, rj_new_name = bars_csv,
          rj_backup_name = map_option (\<lambda>_. backup_name ''csv'') old\<rparr> \<and>
     map_of d ''old_downloaded_at'' = Some (JInt old_at) \<and> obj_item d ''new_downloaded_at'' = Inr (JInt new_at)"
proof -
  obtain d where d: "csv_journal old new old_at new_at = JObj d"
    "obj_get d ''version'' = JStr ''segment-replace-v1''"
    "obj_get d ''old_manifest'' = (case old of None \<Rightarrow> JNull | Some m \<Rightarrow> JObj (manifest_json m))"
    "obj_item d ''new_manifest'' = Inr (JObj (manifest_json new))"
    "obj_get d ''old_data_name'' = json_of_str (map_option (\<lambda>_. bars_csv) old)"
    "obj_get d ''new_data_name'' = JStr bars_csv"
    "obj_get d ''backup_name'' = json_of_str (map_option (\<lambda>_. backup_name ''csv'') old)"
    "map_of d ''old_downloaded_at'' = Some (JInt old_at)" "obj_item d ''new_downloaded_at'' = Inr (JInt new_at)"
    by (rule csv_journal_dict)
  have member: "journal_member_name d ''old_data_name'' True = Inr (map_option (\<lambda>_. bars_csv) old)"
    "journal_member_name d ''new_data_name'' False = Inr (Some bars_csv)"
    "journal_member_name d ''backup_name'' True = Inr (map_option (\<lambda>_. backup_name ''csv'') old)"
    using d(5-7) by (cases old; simp add: journal_member_name_def)+
  have "validate_manifest_identity old new = Inr ()" "validate_journal_path key new = Inr ()"
    using assms by (auto simp: replaceable_def validate_manifest_identity_def validate_journal_path_def split: option.splits)
  then show ?thesis
    using d member assms
    by (cases old) (simp_all add: validated_journal_def load_journal_def manifest_of_json_def manifest_of_manifest_json replaceable_def)
qed

lemma finish_csv_plan:
  assumes "replaceable key old new"
  shows "finish_plan key (csv_journal old new old_at new_at) =
     Inr ([PublishGeneration new, UnlinkFile bars_parquet] @ opt_unlink (map_option (\<lambda>_. backup_name ''csv'') old) @ [UnlinkReplaceJournal])"
  using validated_csv_journal [OF assms, of old_at new_at] by (cases old) (auto simp: finish_plan_def)

text \<open>A directory with one generation, or with none.\<close>

definition generation_state :: "segment_manifest \<Rightarrow> (string \<times> segment_manifest) option \<Rightarrow> series_state \<Rightarrow> bool" where
  "generation_state new g st \<longleftrightarrow>
     (case g of
        None \<Rightarrow> ss_manifest st = None \<and> ss_csv st = None \<and> filter (same_series new) (ss_index st) = []
      | Some (w, m) \<Rightarrow> holds st w m \<and> index_agrees st m)"

definition replace_pending ::
  "(string \<times> segment_manifest) option \<Rightarrow> string \<Rightarrow> segment_manifest \<Rightarrow> int \<Rightarrow> int \<Rightarrow> series_state \<Rightarrow> bool" where
  "replace_pending old w new old_at new_at st \<longleftrightarrow>
     (ss_replace_journal st = None \<and> (generation_state new old st \<or> generation_state new (Some (w, new)) st)) \<or>
     (ss_replace_journal st = Some (csv_journal (map_option snd old) new old_at new_at) \<and>
      (holds st w new \<or> (\<exists>t. old = Some (t, new) \<and> holds st t new) \<or>
       (case old of
          None \<Rightarrow> ss_manifest st = None
        | Some (t, m) \<Rightarrow>
            ss_manifest st = Some (JObj (manifest_json m)) \<and>
            (if ss_files st (backup_name ''csv'') = None then map_option df_text (ss_csv st) = Some t
             else map_option df_text (ss_files st (backup_name ''csv'')) = Some t \<and>
                  (map_option df_text (ss_csv st) = Some t \<or> map_option df_text (ss_csv st) = Some w)))))"

definition replace_ops ::
  "segment_manifest option \<Rightarrow> string \<Rightarrow> segment_manifest \<Rightarrow> int \<Rightarrow> int \<Rightarrow> disk_op list" where
  "replace_ops old w new old_at new_at =
     (case old of None \<Rightarrow> [] | Some _ \<Rightarrow> [UnlinkFile (backup_name ''csv''), LinkFile bars_csv (backup_name ''csv'')]) @
     [WriteReplaceJournal (csv_journal old new old_at new_at)] @ commit_ops w new new_at @
     [PublishGeneration new, UnlinkFile bars_parquet] @
     opt_unlink (map_option (\<lambda>_. backup_name ''csv'') old) @ [UnlinkReplaceJournal]"

text \<open>The plan of the code, in a directory without a replacement journal, is these operations.\<close>

lemma begin_csv_plan:
  assumes "replaceable key old new" and "ss_replace_journal st = None" and "old \<noteq> None \<Longrightarrow> ss_csv st \<noteq> None"
  shows "begin_plan key old new new_at st =
    (let j = csv_journal old new (case old of None \<Rightarrow> 0 | Some m \<Rightarrow> indexed_downloaded_at m st) new_at in
     Inr (j, (case old of None \<Rightarrow> [] | Some _ \<Rightarrow> [UnlinkFile (backup_name ''csv''), LinkFile bars_csv (backup_name ''csv'')]) @
             [WriteReplaceJournal j]))"
proof -
  have "validate_manifest_identity old new = Inr ()" "validate_journal_path key new = Inr ()"
    using assms(1) by (auto simp: replaceable_def validate_manifest_identity_def validate_journal_path_def split: option.splits)
  then show ?thesis
    using assms by (cases old) (auto simp: begin_plan_def recover_replacement_plan_def replaceable_def csv_journal_def Let_def)
qed

lemma backup_file [simp]: "bars_parquet \<noteq> backup_name ''csv''" "backup_name ''csv'' \<noteq> bars_parquet" "bars_csv \<noteq> bars_parquet" "bars_parquet \<noteq> bars_csv"
  by (simp_all add: backup_name_def)

lemma holds_file [simp]:
  "n \<noteq> bars_csv \<Longrightarrow> holds (unlink_file n st) v m = holds st v m"
  "n \<noteq> bars_csv \<Longrightarrow> holds (link_file k n st) v m = holds st v m"
  by (simp_all add: holds_def)

lemma replace_crash_pending:
  assumes "crash (replace_ops (map_option snd old) w new old_at new_at) st st'"
    and "ss_replace_journal st = None" and "generation_state new old st"
  shows "replace_pending old w new old_at new_at st'"
proof (cases old)
  case None
  then show ?thesis
    using assms unfolding replace_ops_def commit_ops_def opt_unlink_def replace_pending_def
    by (simp, elim crash_ConsE crash_NilE) (simp_all add: generation_state_def holds_def)
next
  case (Some g)
  obtain t m where g: "g = (t, m)" by fastforce
  obtain f where h: "ss_csv st = Some f" "df_text f = t" "ss_manifest st = Some (JObj (manifest_json m))" "index_agrees st m"
    using assms(3) Some g by (auto simp: generation_state_def holds_def)
  show ?thesis
    using assms(1,2) h unfolding Some g replace_ops_def commit_ops_def opt_unlink_def replace_pending_def
    by (simp, elim crash_ConsE crash_NilE)
      (simp_all add: generation_state_def holds_def)
qed

lemma replace_ops_done:
  assumes "ss_replace_journal st = None"
  shows "ss_replace_journal (run_ops (replace_ops old w new old_at new_at) st) = None"
    and "generation_state new (Some (w, new)) (run_ops (replace_ops old w new old_at new_at) st)"
    and "ss_append_journal (run_ops (replace_ops old w new old_at new_at) st) = ss_append_journal st"
    and "ss_files (run_ops (replace_ops old w new old_at new_at) st) bars_parquet = None"
  using assms
  by (cases old; simp add: replace_ops_def commit_ops_def opt_unlink_def generation_state_def holds_def)+

text \<open>Recovery of a pending replacement: nothing to do, forward, or back.\<close>

definition forward_ops :: "segment_manifest option \<Rightarrow> segment_manifest \<Rightarrow> int \<Rightarrow> disk_op list" where
  "forward_ops old new new_at = ReplaceIndex new new_at # [PublishGeneration new, UnlinkFile bars_parquet] @
     opt_unlink (map_option (\<lambda>_. backup_name ''csv'') old) @ [UnlinkReplaceJournal]"

definition back_ops :: "segment_manifest option \<Rightarrow> segment_manifest \<Rightarrow> int \<Rightarrow> series_state \<Rightarrow> disk_op list" where
  "back_ops old new old_at st =
     (case old of
        None \<Rightarrow> [UnlinkFile bars_csv, UnlinkManifest, DeleteIndex new, UnlinkReplaceJournal]
      | Some m \<Rightarrow>
          (if ss_files st (backup_name ''csv'') \<noteq> None then [MoveFile (backup_name ''csv'') bars_csv] else []) @
          [WriteManifest m, ReplaceIndex m old_at, UnlinkFile (backup_name ''csv''), UnlinkReplaceJournal])"

lemma recover_replace_plan:
  assumes "replaceable key (map_option snd old) new" and "replace_pending old w new old_at new_at st"
  shows "recover_replacement_plan key st =
    (if ss_replace_journal st = None then Inr []
     else if ss_manifest st = Some (JObj (manifest_json new)) \<and> ss_csv st \<noteq> None
     then Inr (forward_ops (map_option snd old) new new_at)
     else Inr (back_ops (map_option snd old) new old_at st))"
proof (cases "ss_replace_journal st")
  case None
  then show ?thesis by (simp add: recover_replacement_plan_def)
next
  case (Some j)
  then have j: "j = csv_journal (map_option snd old) new old_at new_at"
    using assms(2) by (simp add: replace_pending_def)
  obtain d where d: "validated_journal key j =
     Inr \<lparr>rj_dict = d, rj_old = map_option snd old, rj_new = new, rj_old_name = map_option (\<lambda>_. bars_csv) old, rj_new_name = bars_csv,
          rj_backup_name = map_option (\<lambda>_. backup_name ''csv'') old\<rparr>"
     "map_of d ''old_downloaded_at'' = Some (JInt old_at)" "obj_item d ''new_downloaded_at'' = Inr (JInt new_at)"
    using validated_csv_journal [OF assms(1), of old_at new_at] j by (auto simp: option.map_comp o_def)
  have "ss_csv st \<noteq> None \<or> old = None \<or> ss_files st (backup_name ''csv'') \<noteq> None"
    using assms(2) Some by (auto simp: replace_pending_def holds_def split: option.splits if_splits)
  moreover have "\<exists>m. ss_manifest st = Some (JObj (manifest_json m)) \<or> ss_manifest st = None"
    using assms(2) Some by (auto simp: replace_pending_def holds_def split: option.splits if_splits)
  ultimately show ?thesis
    using Some d finish_csv_plan [OF assms(1), of old_at new_at, folded j]
    by (cases old) (auto simp: recover_replacement_plan_def replace_committed_def dict_eq_manifest rollback_plan_def
        forward_ops_def back_ops_def opt_unlink_def)
qed

text \<open>With a journal present, a pending state is one of three.\<close>

lemma replace_pending_cases:
  assumes "replace_pending old w new old_at new_at st" and "ss_replace_journal st \<noteq> None"
  obtains (forward) v where "holds st v new" "v = w \<or> old = Some (v, new)"
  | (fresh) "old = None" "ss_manifest st = None"
  | (restore) t m f where "old = Some (t, m)" "m \<noteq> new" "ss_manifest st = Some (JObj (manifest_json m))"
      "ss_files st (backup_name ''csv'') = Some f" "df_text f = t" "ss_csv st \<noteq> None"
      "map_option df_text (ss_csv st) = Some t \<or> map_option df_text (ss_csv st) = Some w"
  | (kept) t m where "old = Some (t, m)" "m \<noteq> new" "holds st t m" "ss_files st (backup_name ''csv'') = None"
proof (cases "\<exists>v. holds st v new \<and> (v = w \<or> old = Some (v, new))")
  case True
  then show ?thesis using forward by blast
next
  case no_forward: False
  show ?thesis
  proof (cases old)
    case None
    then show ?thesis using assms no_forward fresh by (auto simp: replace_pending_def)
  next
    case (Some g)
    obtain t m where g: "g = (t, m)" by fastforce
    have p: "ss_manifest st = Some (JObj (manifest_json m))"
      "if ss_files st (backup_name ''csv'') = None then map_option df_text (ss_csv st) = Some t
       else map_option df_text (ss_files st (backup_name ''csv'')) = Some t \<and>
            (map_option df_text (ss_csv st) = Some t \<or> map_option df_text (ss_csv st) = Some w)"
      using assms no_forward Some g by (auto simp: replace_pending_def)
    have "m \<noteq> new" using p no_forward Some g by (auto simp: holds_def split: if_splits)
    then show ?thesis using p restore kept Some g by (auto simp: holds_def split: if_splits)
  qed
qed

lemma forward_done:
  assumes "holds st v new"
  shows "ss_replace_journal (run_ops (forward_ops old new new_at) st) = None"
    and "generation_state new (Some (v, new)) (run_ops (forward_ops old new new_at) st)"
  using assms by (cases old; simp add: forward_ops_def opt_unlink_def generation_state_def)+

lemma back_done:
  assumes "replace_pending old w new old_at new_at st" and "ss_replace_journal st \<noteq> None"
    and "\<not> (ss_manifest st = Some (JObj (manifest_json new)) \<and> ss_csv st \<noteq> None)"
  shows "ss_replace_journal (run_ops (back_ops (map_option snd old) new old_at st) st) = None"
    and "generation_state new old (run_ops (back_ops (map_option snd old) new old_at st) st)"
proof -
  let ?st = "run_ops (back_ops (map_option snd old) new old_at st) st"
  from assms(1,2) have "ss_replace_journal ?st = None \<and> generation_state new old ?st"
  proof (cases rule: replace_pending_cases)
    case (forward v)
    with assms(3) show ?thesis by (auto simp: holds_def)
  next
    case fresh
    then show ?thesis by (simp add: back_ops_def generation_state_def delete_index_rows_def)
  next
    case (restore t m f)
    then show ?thesis by (auto simp: back_ops_def generation_state_def holds_def)
  next
    case (kept t m)
    then show ?thesis by (simp add: back_ops_def generation_state_def holds_def)
  qed
  then show "ss_replace_journal ?st = None" and "generation_state new old ?st" by simp_all
qed

lemma recover_replace_pending:
  assumes "replaceable key (map_option snd old) new" and "replace_pending old w new old_at new_at st"
  shows "\<exists>ops. recover_replacement_plan key st = Inr ops \<and> ss_replace_journal (run_ops ops st) = None \<and>
    (generation_state new old (run_ops ops st) \<or> generation_state new (Some (w, new)) (run_ops ops st))"
proof (cases "ss_replace_journal st = None")
  case True
  with assms(2) recover_replace_plan [OF assms] show ?thesis by (auto simp: replace_pending_def)
next
  case j: False
  show ?thesis
  proof (cases "ss_manifest st = Some (JObj (manifest_json new)) \<and> ss_csv st \<noteq> None")
    case True
    have plan: "recover_replacement_plan key st = Inr (forward_ops (map_option snd old) new new_at)"
      using recover_replace_plan [OF assms] j True by simp
    from assms(2) j show ?thesis
    proof (cases rule: replace_pending_cases)
      case (forward v)
      then show ?thesis using plan forward_done [OF forward(1)] by auto
    qed (use True in \<open>auto simp: holds_def\<close>)
  next
    case False
    then show ?thesis using recover_replace_plan [OF assms] j back_done [OF assms(2) j False] by auto
  qed
qed

lemma recover_replace_crash:
  assumes "replaceable key (map_option snd old) new" and "replace_pending old w new old_at new_at st"
    and "recover_replacement_plan key st = Inr ops" and "crash ops st st'"
  shows "replace_pending old w new old_at new_at st'"
proof (cases "ss_replace_journal st = None")
  case True
  with assms(2-4) recover_replace_plan [OF assms(1,2)] show ?thesis by (auto elim: crash_NilE)
next
  case j: False
  then have journal: "ss_replace_journal st = Some (csv_journal (map_option snd old) new old_at new_at)"
    using assms(2) by (auto simp: replace_pending_def)
  from assms(2) j show ?thesis
  proof (cases rule: replace_pending_cases)
    case (forward v)
    then have "ops = forward_ops (map_option snd old) new new_at"
      using assms(3) recover_replace_plan [OF assms(1,2)] j by (auto simp: holds_def)
    with assms(4) have c: "crash (forward_ops (map_option snd old) new new_at) st st'" by simp
    have "holds st' v new \<and> (ss_replace_journal st' = ss_replace_journal st \<or> ss_replace_journal st' = None \<and> index_agrees st' new)"
      using c forward(1) unfolding forward_ops_def opt_unlink_def
      by (cases old; simp; elim crash_ConsE crash_NilE; simp)
    then show ?thesis using forward(2) journal unfolding replace_pending_def
      by (auto simp: generation_state_def holds_def)
  next
    case fresh
    then have "ops = back_ops None new old_at st"
      using assms(3) recover_replace_plan [OF assms(1,2)] j by simp
    with assms(4) have "crash (back_ops None new old_at st) st st'" by simp
    then show ?thesis using fresh journal unfolding back_ops_def replace_pending_def
      by (simp, elim crash_ConsE crash_NilE) (simp_all add: generation_state_def delete_index_rows_def)
  next
    case (restore t m f)
    then have "ops = back_ops (Some m) new old_at st"
      using assms(3) recover_replace_plan [OF assms(1,2)] j by auto
    with assms(4) restore(4) have c: "crash [MoveFile (backup_name ''csv'') bars_csv, WriteManifest m, ReplaceIndex m old_at,
        UnlinkFile (backup_name ''csv''), UnlinkReplaceJournal] st st'" by (simp add: back_ops_def)
    show ?thesis using c restore journal unfolding replace_pending_def
      by (elim crash_ConsE crash_NilE) (auto simp: generation_state_def holds_def)
  next
    case (kept t m)
    then have "ops = back_ops (Some m) new old_at st"
      using assms(3) recover_replace_plan [OF assms(1,2)] j by (auto simp: holds_def)
    with assms(4) kept(4) have c: "crash [WriteManifest m, ReplaceIndex m old_at,
        UnlinkFile (backup_name ''csv''), UnlinkReplaceJournal] st st'" by (simp add: back_ops_def)
    show ?thesis using c kept journal unfolding replace_pending_def
      by (elim crash_ConsE crash_NilE) (auto simp: generation_state_def holds_def)
  qed
qed

end
