(* ===== verification/SegmentCsv.thy ===== *)
theory SegmentCsv
  imports SegmentRows JsonValues
begin

section \<open>Reading a range and the tail of a CSV segment\<close>

text \<open>
  Models \<^verbatim>\<open>store/segment_csv.py\<close> and \<open>read_last_csv_bar\<close> of
  \<^verbatim>\<open>store/segment_append.py\<close>: a range read that jumps near its first row by bisecting
  byte offsets, and a backward read of the last row. Both work on lines, so they are exact on files
  whose rows hold no line break; that is the only condition beyond the round trip of rows.
  Offsets are character counts, which for ASCII text are byte counts.
\<close>

subsection \<open>Lines\<close>

text \<open>\<open>readline\<close> of a text handle opened with \<open>newline=""\<close>, and of a binary handle.\<close>

fun readline :: "string \<Rightarrow> string" where
  "readline [] = []"
| "readline (c # cs) =
     (if c = lf then [c]
      else if c = cr then (case cs of d # _ \<Rightarrow> if d = lf then [c, d] else [c] | [] \<Rightarrow> [c])
      else c # readline cs)"

fun readline_bytes :: "string \<Rightarrow> string" where
  "readline_bytes [] = []"
| "readline_bytes (c # cs) = (if c = lf then [c] else c # readline_bytes cs)"

definition line_break :: "char \<Rightarrow> bool" where
  "line_break c \<longleftrightarrow> c \<in> set [lf, cr, CHR 0x0B, CHR 0x0C, CHR 0x1C, CHR 0x1D, CHR 0x1E]"

function splitlines :: "string \<Rightarrow> string list" where
  "splitlines [] = []"
| "splitlines (c # cs) =
     (case dropWhile (\<lambda>x. \<not> line_break x) (c # cs) of
        [] \<Rightarrow> [c # cs]
      | d # rest \<Rightarrow> takeWhile (\<lambda>x. \<not> line_break x) (c # cs) # splitlines (drop_lf d rest))"
  by pat_completeness auto
termination
proof (relation "measure length")
  fix c cs d rest assume "dropWhile (\<lambda>x. \<not> line_break x) (c # cs) = d # rest"
  then have "length (d # rest) \<le> length (c # cs)" by (metis length_dropWhile_le)
  then show "(drop_lf d rest, c # cs) \<in> measure length"
    using drop_lf_le [of d rest] by simp
qed simp

definition csv_header :: "string \<Rightarrow> string list" where
  "csv_header line = (case csv_parse line of [] \<Rightarrow> [] | names # _ \<Rightarrow> names)"

subsection \<open>The last row (\<open>read_last_csv_bar\<close>)\<close>

definition count_lf :: "string \<Rightarrow> nat" where
  "count_lf w = length (filter (\<lambda>c. c = lf) w)"

text \<open>Blocks of 4096 bytes from the end until two line feeds are seen, at most one mebibyte.\<close>

function read_back :: "string \<Rightarrow> nat \<Rightarrow> string \<Rightarrow> string res" where
  "read_back text position suffix =
     (if position > 0 \<and> count_lf suffix < 2 then
        (let read_size = min 4096 position; position' = position - read_size;
             suffix' = take read_size (drop position' text) @ suffix in
         if length suffix' > 1048576 then Inl (MDInvalidExchangeResponse ''Segment CSV tail row is too large'')
         else read_back text position' suffix')
      else Inr suffix)"
  by pat_completeness auto
termination by (relation "measure (\<lambda>(_, position, _). position)") auto

declare read_back.simps [simp del]

definition read_last_csv_bar :: "(revision_state \<Rightarrow> string) \<Rightarrow> string \<Rightarrow> market_bar option res" where
  "read_last_csv_bar rs text =
     (let header = readline_bytes text; fieldnames = csv_header header in
      if length text \<le> length header then Inr None
      else
        bindR (read_back text (length text) []) (\<lambda>suffix.
        case filter (\<lambda>l. l \<noteq> []) (splitlines suffix) of
          [] \<Rightarrow> Inr None
        | l # ls \<Rightarrow>
            (case csv_parse (last (l # ls)) of
               [] \<Rightarrow> Inl PyStopIteration
             | row # _ \<Rightarrow> bindR (row_to_bar rs (dict_row fieldnames row)) (\<lambda>b. Inr (Some b)))))"

subsection \<open>Range reads (\<^verbatim>\<open>store/segment_csv.py\<close>)\<close>

primrec seek_loop :: "nat \<Rightarrow> string \<Rightarrow> nat \<Rightarrow> int \<Rightarrow> nat \<Rightarrow> nat \<Rightarrow> nat \<Rightarrow> nat" where
  "seek_loop 0 text header_end start low high best = best"
| "seek_loop (Suc n) text header_end start low high best =
     (if low \<ge> high then best
      else
        let mid = (low + high) div 2;
            candidate_pos = (if mid > header_end then mid + length (readline (drop mid text)) else mid);
            line = readline (drop candidate_pos text)
        in if line = [] then seek_loop n text header_end start low (max header_end (mid - 1)) best
           else case py_int (takeWhile (\<lambda>c. c \<noteq> comma) line) of
             Inl _ \<Rightarrow> header_end
           | Inr candidate_time \<Rightarrow>
               (if candidate_time \<le> start
                then seek_loop n text header_end start (candidate_pos + length line) high candidate_pos
                else seek_loop n text header_end start low (max header_end (mid - 1)) best))"

definition seek_csv_near_start :: "string \<Rightarrow> nat \<Rightarrow> int \<Rightarrow> (string \<times> json) list \<Rightarrow> nat" where
  "seek_csv_near_start text header_end start manifest =
     (case (json_isint (obj_get manifest ''start_time''), json_isint (obj_get manifest ''rows_count''),
            json_str (map_of manifest ''timeframe'')) of
        (Some start_time, Some rows_count, Some timeframe) \<Rightarrow>
          (if rows_count \<le> 0 then header_end
           else case timeframe_ms timeframe of
             Inl _ \<Rightarrow> header_end
           | Inr duration \<Rightarrow>
               (if duration \<le> 0 \<or> start \<le> start_time then header_end
                else if length text \<le> header_end then header_end
                else seek_loop 24 text header_end start header_end (length text - 1) header_end))
      | _ \<Rightarrow> header_end)"

fun range_rows :: "(revision_state \<Rightarrow> string) \<Rightarrow> int option \<Rightarrow> int option \<Rightarrow> csv_dict list \<Rightarrow> market_bar list res" where
  "range_rows rs start stop [] = Inr []"
| "range_rows rs start stop (row # rows) =
     bindR (row_to_bar rs row) (\<lambda>b.
     if (case start of None \<Rightarrow> False | Some s \<Rightarrow> b_time b < s) then range_rows rs start stop rows
     else if (case stop of None \<Rightarrow> False | Some e \<Rightarrow> b_time b \<ge> e) then Inr []
     else bindR (range_rows rs start stop rows) (\<lambda>bars. Inr (b # bars)))"

definition iter_csv_range ::
  "(revision_state \<Rightarrow> string) \<Rightarrow> string \<Rightarrow> int option \<Rightarrow> int option \<Rightarrow> (string \<times> json) list option \<Rightarrow> market_bar list res" where
  "iter_csv_range rs text start stop manifest =
     (let header = readline text; fieldnames = csv_header header; header_end = length header;
          position = (case (start, manifest) of
              (Some s, Some d) \<Rightarrow> seek_csv_near_start text header_end s d | _ \<Rightarrow> header_end)
      in range_rows rs start stop (map (dict_row fieldnames) (csv_parse (drop position text))))"

subsection \<open>Lines of written files\<close>

definition one_line :: "string \<Rightarrow> bool" where
  "one_line w \<longleftrightarrow> list_all (\<lambda>c. \<not> line_break c) w"

definition bar_line :: "(revision_state \<Rightarrow> string) \<Rightarrow> market_bar \<Rightarrow> string" where
  "bar_line rs b = csv_join (bar_row rs b)"

text \<open>A bar whose row is one line of at most a million characters.\<close>

definition line_ok :: "(revision_state \<Rightarrow> string) \<Rightarrow> market_bar \<Rightarrow> bool" where
  "line_ok rs b \<longleftrightarrow> one_line (bar_line rs b) \<and> length (bar_line rs b) \<le> 1000000"

lemma line_break_simps [simp]: "line_break lf" "line_break cr"
  by (simp_all add: line_break_def)

lemma readline_line: "one_line w \<Longrightarrow> readline (w @ cr # lf # t) = w @ [cr, lf]"
  by (induction w) (auto simp: one_line_def line_break_def)

lemma readline_bytes_line: "one_line w \<Longrightarrow> readline_bytes (w @ cr # lf # t) = w @ [cr, lf]"
  by (induction w) (auto simp: one_line_def line_break_def)

lemma one_line_drop: "one_line w \<Longrightarrow> one_line (drop n w)"
  by (auto simp: one_line_def list_all_iff dest: in_set_dropD)

lemma payload_Nil [simp]: "csv_append_payload rs [] = []"
  by (simp add: csv_append_payload_def csv_text_def)

lemma payload_Cons: "csv_append_payload rs (b # bs) = bar_line rs b @ cr # lf # csv_append_payload rs bs"
  by (simp add: csv_append_payload_def csv_text_def csv_line_def bar_line_def)

text \<open>From any offset of the rows, the next line end is the start of a row or the end.\<close>

lemma next_row_start:
  assumes "list_all (line_ok rs) bars"
  shows "\<exists>k \<le> length bars. drop (length (readline (drop m (csv_append_payload rs bars)))) (drop m (csv_append_payload rs bars)) =
           csv_append_payload rs (drop k bars)"
  using assms
proof (induction bars arbitrary: m)
  case Nil
  then show ?case by simp
next
  case (Cons b bs)
  let ?w = "bar_line rs b" and ?p = "csv_append_payload rs bs"
  have w: "one_line ?w" using Cons.prems by (simp add: line_ok_def)
  consider "m \<le> length ?w" | "m = length ?w + 1" | "length ?w + 2 \<le> m" by linarith
  then show ?case
  proof cases
    case 1
    then have "drop m (csv_append_payload rs (b # bs)) = drop m ?w @ cr # lf # ?p" by (simp add: payload_Cons)
    then show ?thesis using readline_line [OF one_line_drop [OF w, of m], of ?p]
      by (intro exI [of _ 1]) simp
  next
    case 2
    then have "drop m (csv_append_payload rs (b # bs)) = lf # ?p" by (simp add: payload_Cons)
    then show ?thesis by (intro exI [of _ 1]) simp
  next
    case 3
    have "drop (m - length ?w) (cr # lf # ?p) = drop (m - length ?w - 2) ?p"
      using 3 by (simp add: drop_Cons' numeral_2_eq_2)
    then have "drop m (csv_append_payload rs (b # bs)) = drop (m - length ?w - 2) ?p"
      using 3 by (simp add: payload_Cons)
    moreover obtain k where "k \<le> length bs"
      "drop (length (readline (drop (m - length ?w - 2) ?p))) (drop (m - length ?w - 2) ?p) = csv_append_payload rs (drop k bs)"
      using Cons.IH [of "m - length ?w - 2"] Cons.prems by auto
    ultimately show ?thesis by (intro exI [of _ "Suc k"]) simp
  qed
qed

lemma str_of_int_chars: "c \<in> set (str_of_int n) \<Longrightarrow> c \<noteq> comma \<and> c \<noteq> dquote \<and> \<not> line_break c"
proof -
  assume "c \<in> set (str_of_int n)"
  then have "c = CHR ''-'' \<or> is_digit c" by (auto simp: str_of_int_def dest: str_of_nat_digit_set split: if_splits)
  moreover have "list_all (\<lambda>c. \<not> is_digit c \<and> c \<noteq> CHR ''-'')
      [comma, dquote, lf, cr, CHR 0x0B, CHR 0x0C, CHR 0x1C, CHR 0x1D, CHR 0x1E]" by code_simp
  ultimately show ?thesis by (auto simp: line_break_def)
qed

lemma bar_line_time:
  "takeWhile (\<lambda>c. c \<noteq> comma) (bar_line rs b @ t) = str_of_int (b_time b)"
proof -
  have "\<not> list_ex csv_special (str_of_int (b_time b))"
    by (auto simp: list_ex_iff csv_special_def dest: str_of_int_chars)
  then obtain r where "bar_line rs b = str_of_int (b_time b) @ comma # r"
    by (simp add: bar_line_def bar_row_def csv_field_def)
  moreover have "takeWhile (\<lambda>c. c \<noteq> comma) (str_of_int (b_time b)) = str_of_int (b_time b)"
    by (auto simp: takeWhile_eq_all_conv dest: str_of_int_chars)
  ultimately show ?thesis by (simp add: takeWhile_append)
qed

lemma header_line: "one_line (csv_join persisted_fields)"
  by code_simp

lemma csv_header_text: "csv_text [persisted_fields] = csv_join persisted_fields @ [cr, lf]"
  by (simp add: csv_text_def csv_line_def)

lemma persisted_row_ok: "csv_row_ok persisted_fields"
  by (simp add: csv_row_ok_def persisted_fields_def)

lemma file_header:
  "readline (csv_file rs bars) = csv_text [persisted_fields]"
  "readline_bytes (csv_file rs bars) = csv_text [persisted_fields]"
  "csv_header (csv_text [persisted_fields]) = persisted_fields"
  "drop (length (csv_text [persisted_fields])) (csv_file rs bars) = csv_append_payload rs bars"
  using readline_line [OF header_line] readline_bytes_line [OF header_line] csv_parse_text [of "[persisted_fields]"]
  by (simp_all add: csv_file_def csv_header_text csv_header_def persisted_row_ok)

subsection \<open>The bisection ends at a row that the range may start with\<close>

definition before_start :: "(revision_state \<Rightarrow> string) \<Rightarrow> market_bar list \<Rightarrow> int \<Rightarrow> string \<Rightarrow> nat \<Rightarrow> bool" where
  "before_start rs bars start text p \<longleftrightarrow>
     (\<exists>k \<le> length bars. drop p text = csv_append_payload rs (drop k bars) \<and>
        list_all (\<lambda>b. b_time b < start) (take k bars))"

lemma line_time:
  assumes "line_ok rs b"
  shows "readline (csv_append_payload rs (b # bs)) = bar_line rs b @ [cr, lf]"
    and "py_int (takeWhile (\<lambda>c. c \<noteq> comma) (readline (csv_append_payload rs (b # bs)))) = Inr (b_time b)"
  using assms readline_line [of "bar_line rs b"] by (simp_all add: payload_Cons line_ok_def bar_line_time)

lemma earlier_times:
  assumes "sorted_wrt (\<lambda>a b. b_time a < b_time b) bars" and "k < length bars" and "b_time (bars ! k) \<le> start"
  shows "list_all (\<lambda>b. b_time b < start) (take k bars)"
  using assms by (fastforce simp: list_all_iff in_set_conv_nth sorted_wrt_iff_nth_less)

lemma candidate:
  assumes "list_all (line_ok rs) bars" and "drop h text = csv_append_payload rs bars" and "h \<le> mid"
  obtains k where "k \<le> length bars"
    and "drop (if mid > h then mid + length (readline (drop mid text)) else mid) text = csv_append_payload rs (drop k bars)"
proof (cases "mid > h")
  case True
  have "drop mid text = drop (mid - h) (csv_append_payload rs bars)"
    using True by (simp flip: assms(2))
  with next_row_start [OF assms(1), of "mid - h"] obtain k where "k \<le> length bars"
    "drop (length (readline (drop mid text))) (drop mid text) = csv_append_payload rs (drop k bars)" by auto
  with True that show ?thesis by (simp add: add.commute)
next
  case False
  with assms that [of 0] show ?thesis by simp
qed

lemma seek_loop_start:
  assumes "list_all (line_ok rs) bars" and "sorted_wrt (\<lambda>a b. b_time a < b_time b) bars"
    and "drop h text = csv_append_payload rs bars" and "before_start rs bars start text best" and "h \<le> low"
  shows "before_start rs bars start text (seek_loop n text h start low high best)"
  using assms(4,5)
proof (induction n arbitrary: low high best)
  case 0
  then show ?case by simp
next
  case (Suc n)
  show ?case
  proof (cases "low \<ge> high")
    case True
    with Suc.prems show ?thesis by simp
  next
    case False
    let ?mid = "(low + high) div 2"
    let ?cand = "if ?mid > h then ?mid + length (readline (drop ?mid text)) else ?mid"
    have mid: "h \<le> ?mid" using False Suc.prems(2) by simp
    obtain k where k: "k \<le> length bars" "drop ?cand text = csv_append_payload rs (drop k bars)"
      using candidate [OF assms(1,3) mid] by blast
    show ?thesis
    proof (cases "drop k bars")
      case Nil
      then have "readline (drop ?cand text) = []" using k by simp
      with False Suc.IH [OF Suc.prems(1)] Suc.prems(2) show ?thesis by (simp add: Let_def)
    next
      case (Cons b bs)
      then have kb: "k < length bars" "bars ! k = b" by (metis drop_all not_le list.distinct(1), metis nth_via_drop)
      then have ok: "line_ok rs b" using assms(1) by (auto simp: list_all_iff)
      have line: "readline (drop ?cand text) \<noteq> []"
        "py_int (takeWhile (\<lambda>c. c \<noteq> comma) (readline (drop ?cand text))) = Inr (b_time b)"
        unfolding k(2) Cons using line_time [OF ok, of bs] by simp_all
      have h0: "before_start rs bars start text ?cand" if "b_time b \<le> start"
        using k earlier_times [OF assms(2) kb(1)] kb that unfolding before_start_def by blast
      show ?thesis
      proof (cases "b_time b \<le> start")
        case True
        then have "seek_loop (Suc n) text h start low high best =
            seek_loop n text h start (?cand + length (readline (drop ?cand text))) high ?cand"
          using False line by (simp only: seek_loop.simps Let_def if_False sum.case if_True)
        moreover have "h \<le> ?cand" using mid by simp
        ultimately show ?thesis using Suc.IH [OF h0 [OF True]] by (simp only: trans_le_add1)
      next
        case gt: False
        then have "seek_loop (Suc n) text h start low high best = seek_loop n text h start low (max h (?mid - 1)) best"
          using False line by (simp only: seek_loop.simps Let_def if_False sum.case)
        with Suc show ?thesis by simp
      qed
    qed
  qed
qed

lemma seek_start:
  assumes "list_all (line_ok rs) bars" and "sorted_wrt (\<lambda>a b. b_time a < b_time b) bars"
    and "drop h text = csv_append_payload rs bars"
  shows "before_start rs bars start text (seek_csv_near_start text h start manifest)"
proof -
  have "before_start rs bars start text h" using assms(3) by (auto simp: before_start_def)
  with seek_loop_start [OF assms this] show ?thesis
    by (simp add: seek_csv_near_start_def split: option.splits sum.splits)
qed

subsection \<open>Range reads of written files\<close>

definition in_range :: "int option \<Rightarrow> int option \<Rightarrow> int \<Rightarrow> bool" where
  "in_range start stop t \<longleftrightarrow> (case start of None \<Rightarrow> True | Some s \<Rightarrow> s \<le> t) \<and> (case stop of None \<Rightarrow> True | Some e \<Rightarrow> t < e)"

lemma range_rows_filter:
  assumes "rs_ok rs" and "list_all storable bars" and "sorted_wrt (\<lambda>a b. b_time a < b_time b) bars"
  shows "range_rows rs start stop (map (bar_dict rs) bars) = Inr (filter (\<lambda>b. in_range start stop (b_time b)) bars)"
  using assms(2,3)
proof (induction bars)
  case Nil
  show ?case by simp
next
  case (Cons b bs)
  have row: "row_to_bar rs (bar_dict rs b) = Inr b" using row_to_bar_row assms(1) Cons.prems by simp
  have none: "filter (\<lambda>b. in_range start stop (b_time b)) bs = []" if "stop = Some e" "e \<le> b_time b" for e
    using that Cons.prems by (fastforce simp: filter_empty_conv in_range_def)
  show ?case using row none Cons by (auto simp: in_range_def split: option.splits)
qed

lemma parse_payload: "map (dict_row persisted_fields) (csv_parse (csv_append_payload rs bars)) = map (bar_dict rs) bars"
  using csv_parse_text [of "map (bar_row rs) bars"]
  by (simp add: csv_append_payload_def list_all_iff bar_row_ok bar_dict_def)

lemma iter_csv_range_file:
  assumes "rs_ok rs" and "list_all storable bars" and "list_all (line_ok rs) bars"
    and "sorted_wrt (\<lambda>a b. b_time a < b_time b) bars"
  shows "iter_csv_range rs (csv_file rs bars) start stop manifest =
         Inr (filter (\<lambda>b. in_range start stop (b_time b)) bars)"
proof -
  let ?h = "length (csv_text [persisted_fields])" and ?text = "csv_file rs bars"
  have body: "drop ?h ?text = csv_append_payload rs bars" by (rule file_header(4))
  define p where "p = (case (start, manifest) of (Some s, Some d) \<Rightarrow> seek_csv_near_start ?text ?h s d | _ \<Rightarrow> ?h)"
  have "\<exists>k. drop p ?text = csv_append_payload rs (drop k bars) \<and> (\<forall>b \<in> set (take k bars). \<not> in_range start stop (b_time b))"
  proof (cases "start = None \<or> manifest = None")
    case True
    then have "p = ?h" by (auto simp: p_def split: option.splits)
    with body show ?thesis by (intro exI [of _ 0]) simp
  next
    case False
    then obtain s d where "start = Some s" "manifest = Some d" by auto
    with seek_start [OF assms(3,4) body, of s d] show ?thesis
      by (fastforce simp: p_def before_start_def list_all_iff in_range_def)
  qed
  then obtain k where k: "drop p ?text = csv_append_payload rs (drop k bars)"
    "\<forall>b \<in> set (take k bars). \<not> in_range start stop (b_time b)" by blast
  have "iter_csv_range rs ?text start stop manifest = range_rows rs start stop (map (bar_dict rs) (drop k bars))"
    unfolding iter_csv_range_def Let_def file_header(1,3) p_def [symmetric] k(1) parse_payload ..
  also have "\<dots> = Inr (filter (\<lambda>b. in_range start stop (b_time b)) (drop k bars))"
    using assms by (intro range_rows_filter) (auto simp: list_all_iff sorted_wrt_drop dest: in_set_dropD)
  also have "filter (\<lambda>b. in_range start stop (b_time b)) (drop k bars) = filter (\<lambda>b. in_range start stop (b_time b)) bars"
    using k(2) by (subst (2) append_take_drop_id [of k bars, symmetric]) (simp only: filter_append, simp add: filter_empty_conv)
  finally show ?thesis .
qed

subsection \<open>The last row of a written file\<close>

lemma count_lf_one_line: "one_line w \<Longrightarrow> count_lf w = 0"
  by (auto simp: count_lf_def one_line_def list_all_iff filter_empty_conv)

lemma count_lf_simps [simp]:
  "count_lf [] = 0" "count_lf (u @ v) = count_lf u + count_lf v" "count_lf (lf # u) = Suc (count_lf u)" "count_lf (cr # u) = count_lf u"
  by (simp_all add: count_lf_def)

text \<open>
  The suffix read back reaches beyond the line feed before the last line: a proper suffix of the line
  holds one line feed, so the loop has gone on.
\<close>

lemma read_back_tail:
  assumes "one_line w" and "length w \<le> 1000000" and "text = pre @ lf # w @ [cr, lf]"
    and "suffix = drop position text" and "position \<le> length text"
    and "position \<le> length pre \<Longrightarrow> length suffix \<le> 1048576"
  shows "\<exists>n \<le> length pre. read_back text position suffix = Inr (drop n text)"
  using assms(4-6)
proof (induction position arbitrary: suffix rule: less_induct)
  case (less position)
  show ?case
  proof (cases "position \<le> length pre")
    case True
    then have "count_lf suffix \<ge> 2" using less.prems(1) assms(3) by simp
    with True less.prems show ?thesis by (auto simp: read_back.simps)
  next
    case False
    let ?size = "min 4096 position"
    let ?s = "take ?size (drop (position - ?size) text) @ suffix"
    have tx: "text = (pre @ [lf]) @ w @ [cr, lf]" by (simp add: assms(3))
    have "suffix = drop (position - length pre - 1) (w @ [cr, lf])"
      using False unfolding less.prems(1) tx by (simp add: drop_Cons')
    then obtain v where v: "suffix @ [] = v" "v = drop (position - length pre - 1) (w @ [cr, lf])" by simp
    have le: "count_lf suffix \<le> count_lf (w @ [cr, lf])"
      unfolding v(1) [simplified] v(2) by (metis append_take_drop_id count_lf_simps(2) le_add2)
    then have "count_lf suffix < 2" using count_lf_one_line [OF assms(1)] by simp
    moreover have s: "?s = drop (position - ?size) text"
      unfolding less.prems(1) by (metis append_take_drop_id drop_drop le_add_diff_inverse2 min.cobounded2 add.commute)
    moreover have "length suffix \<le> 1000002" using v assms(2) by simp
    then have len: "length ?s \<le> 1048576" by simp
    ultimately have "read_back text position suffix = read_back text (position - ?size) ?s"
      using False by (subst read_back.simps) (simp only: Let_def not_less, simp add: not_less)
    also have "\<exists>n \<le> length pre. read_back text (position - ?size) ?s = Inr (drop n text)"
      using less.IH [of "position - ?size" ?s] False s len less.prems(2) by simp
    finally show ?thesis .
  qed
qed

lemma splitlines_after_lf: "\<exists>ls. splitlines (x @ lf # y) = ls @ splitlines y"
proof (induction x rule: length_induct)
  case (1 x)
  let ?P = "\<lambda>c. \<not> line_break c"
  have drop: "drop_lf lf y = y" by (cases y) simp_all
  show ?case
  proof (cases "dropWhile ?P x")
    case Nil
    then have "dropWhile ?P (x @ lf # y) = lf # y"
      by (simp add: dropWhile_append)
    then have "splitlines (x @ lf # y) = takeWhile ?P (x @ lf # y) # splitlines y"
      by (cases "x @ lf # y") (simp_all add: drop)
    then show ?thesis by (metis append_Cons append_Nil)
  next
    case (Cons d rest)
    then have *: "dropWhile ?P (x @ lf # y) = d # rest @ lf # y"
      by (metis append_Cons dropWhile_append dropWhile_eq_Nil_conv list.distinct(1))
    then have **: "splitlines (x @ lf # y) = takeWhile ?P (x @ lf # y) # splitlines (drop_lf d (rest @ lf # y))"
      by (cases "x @ lf # y") simp_all
    have len: "length rest < length x" using Cons length_dropWhile_le [of ?P x] by simp
    show ?thesis
    proof (cases rest)
      case Nil
      then have "drop_lf d (rest @ lf # y) = y \<or> drop_lf d (rest @ lf # y) = [] @ lf # y" by simp
      with ** 1 len Nil show ?thesis by (metis append_Cons append_Nil list.size(3))
    next
      case (Cons r rs)
      then have "drop_lf d (rest @ lf # y) = drop_lf d rest @ lf # y" by simp
      moreover have "length (drop_lf d rest) < length x" using len drop_lf_le [of d rest] by simp
      ultimately show ?thesis using ** 1 by (metis append_Cons)
    qed
  qed
qed

lemma last_line:
  assumes "one_line w" and "w \<noteq> []"
  shows "\<exists>ls. filter (\<lambda>l. l \<noteq> []) (splitlines (x @ lf # w @ [cr, lf])) = ls @ [w]"
proof -
  have "takeWhile (\<lambda>c. \<not> line_break c) (w @ [cr, lf]) = w" "dropWhile (\<lambda>c. \<not> line_break c) (w @ [cr, lf]) = [cr, lf]"
    using assms(1) by (simp_all add: one_line_def list_all_iff takeWhile_append2 dropWhile_append2)
  then have "splitlines (w @ [cr, lf]) = [w]" using assms(2) by (cases w) simp_all
  with splitlines_after_lf [of x "w @ [cr, lf]"] assms(2) show ?thesis by auto
qed

lemma bar_line_nonempty: "bar_line rs b \<noteq> []"
  using bar_line_time [of rs b "[]"] by (metis append_Nil str_of_int_nonempty takeWhile.simps(1))

lemma read_last_file:
  assumes "rs_ok rs" and "storable b" and "line_ok rs b"
  shows "read_last_csv_bar rs (csv_file rs (bars @ [b])) = Inr (Some b)"
proof -
  let ?text = "csv_file rs (bars @ [b])" and ?w = "bar_line rs b"
  have payload: "csv_append_payload rs (bars @ [b]) = csv_append_payload rs bars @ ?w @ [cr, lf]"
    by (simp add: csv_append_payload_def csv_text_def csv_line_def bar_line_def)
  have "\<exists>u. csv_text [persisted_fields] @ csv_append_payload rs bars = u @ [lf]"
  proof (cases bars rule: rev_cases)
    case Nil
    then show ?thesis by (simp add: csv_header_text)
  next
    case (snoc bs c)
    then show ?thesis by (simp add: csv_append_payload_def csv_text_def csv_line_def)
  qed
  then obtain u where "csv_text [persisted_fields] @ csv_append_payload rs bars = u @ [lf]" ..
  then have tx: "?text = u @ lf # ?w @ [cr, lf]" unfolding csv_file_def payload by (metis append_Cons append_Nil append_assoc)
  have w: "one_line ?w" "length ?w \<le> 1000000" using assms(3) by (simp_all add: line_ok_def)
  obtain n where n: "n \<le> length u" "read_back ?text (length ?text) [] = Inr (drop n ?text)"
    using read_back_tail [OF w tx, of "[]" "length ?text"] by auto
  have "drop n ?text = drop n u @ lf # ?w @ [cr, lf]" unfolding tx using n(1) by simp
  then obtain ls where ls: "filter (\<lambda>l. l \<noteq> []) (splitlines (drop n ?text)) = ls @ [?w]"
    using last_line [OF w(1) bar_line_nonempty] by metis
  then obtain v vs where v: "filter (\<lambda>l. l \<noteq> []) (splitlines (drop n ?text)) = v # vs" "last (v # vs) = ?w"
    by (metis append_is_Nil_conv last_snoc neq_Nil_conv list.distinct(1))
  have row: "csv_parse ?w = [bar_row rs b]" unfolding bar_line_def by (rule csv_parse_join [OF bar_row_ok])
  have len: "\<not> length ?text \<le> length (csv_text [persisted_fields])" by (simp add: csv_file_def payload)
  have "row_to_bar rs (dict_row persisted_fields (bar_row rs b)) = Inr b"
    using row_to_bar_row [OF assms(1,2)] by (simp add: bar_dict_def)
  then show ?thesis
    unfolding read_last_csv_bar_def Let_def file_header(2,3)
    using len n(2) v row by simp
qed

lemma read_last_empty: "read_last_csv_bar rs (csv_file rs []) = Inr None"
  unfolding read_last_csv_bar_def Let_def file_header(2) by (simp add: csv_file_def)

end
