(* ===== verification/SegmentAppend.thy ===== *)
theory SegmentAppend
  imports SegmentReplace SegmentCsv
begin

section \<open>Appending to a segment\<close>

text \<open>
  Models \<^verbatim>\<open>store/segment_append.py\<close>: the validation of incoming bars, the append of a CSV
  tail under a journal, the migration of legacy manifests, and the recovery of a journal that a
  crash left. Locks serialise writers and are not modelled; \<open>append_bytes\<close> is one disk operation
  that a crash may tear.
\<close>

definition key_identity :: "series_key \<Rightarrow> (string \<times> string \<times> string \<times> string \<times> string) res" where
  "key_identity k =
     bindR (canonical_timeframe (sk_timeframe k)) (\<lambda>tf.
       Inr (py_lower (sk_exchange k), py_lower (sk_market k), py_upper (sk_symbol k), tf, sk_source_kind k))"

definition bar_key :: "market_bar \<Rightarrow> series_key" where
  "bar_key b = \<lparr>sk_exchange = m_exchange b, sk_market = m_market b, sk_symbol = m_symbol b,
     sk_timeframe = m_timeframe b, sk_source_kind = m_source_kind b\<rparr>"

fun validated_append_loop ::
  "string \<times> string \<times> string \<times> string \<times> string \<Rightarrow> market_bar option \<Rightarrow> market_bar list \<Rightarrow> market_bar list res" where
  "validated_append_loop expected previous [] = Inr []"
| "validated_append_loop expected previous (b # bs) =
     bindR (validate_persisted_bar_semantics b) (\<lambda>_.
     bindR (key_identity (bar_key b)) (\<lambda>actual.
     if actual \<noteq> expected then Inl (MDInvalidExchangeResponse ''Append candle identity does not match segment'')
     else
       bindR (validate_bars [market_bar_to_bar b] True) (\<lambda>_.
       case previous of
         None \<Rightarrow> bindR (validated_append_loop expected (Some b) bs) (\<lambda>rest. Inr (b # rest))
       | Some p \<Rightarrow>
           if b_time b < b_time p then Inl (MDInvalidExchangeResponse ''Segment append must be strictly ordered by time'')
           else if b_time b = b_time p then
             (if \<not> same_canonical_candle b p then Inl (MDCacheConflict ''Conflicting append candle'')
              else validated_append_loop expected previous bs)
           else bindR (validated_append_loop expected (Some b) bs) (\<lambda>rest. Inr (b # rest)))))"

definition validated_append_bars :: "series_key \<Rightarrow> market_bar list \<Rightarrow> market_bar list res" where
  "validated_append_bars key bars = bindR (key_identity key) (\<lambda>expected. validated_append_loop expected None bars)"

subsection \<open>The journal\<close>

definition append_journal_json ::
  "int \<Rightarrow> int \<Rightarrow> segment_manifest \<Rightarrow> segment_manifest \<Rightarrow> int \<Rightarrow> json" where
  "append_journal_json size_before size_after old new downloaded_at =
     JObj [(''version'', JStr ''segment-append-v1''), (''data_size_before'', JInt size_before),
           (''data_size_after'', JInt size_after), (''old_manifest'', JObj (manifest_json old)),
           (''new_manifest'', JObj (manifest_json new)), (''downloaded_at'', JInt downloaded_at)]"

record append_journal =
  aj_old :: segment_manifest
  aj_new :: segment_manifest
  aj_size_before :: int
  aj_size_after :: int
  aj_downloaded_at :: int

definition parse_append_journal :: "json \<Rightarrow> append_journal res" where
  "parse_append_journal j =
     invalid_as ''Invalid segment append journal''
       (case j of JObj d \<Rightarrow>
          if obj_get d ''version'' \<noteq> JStr ''segment-append-v1'' then Inl (PyValueError ''unsupported append journal version'')
          else
            bindR (bindR (obj_item d ''old_manifest'') manifest_of_json) (\<lambda>old.
            bindR (bindR (obj_item d ''new_manifest'') manifest_of_json) (\<lambda>new.
            bindR (bindR (obj_item d ''data_size_before'') json_int) (\<lambda>before.
            bindR (bindR (obj_item d ''data_size_after'') json_int) (\<lambda>after.
            bindR (bindR (obj_item d ''downloaded_at'') json_int) (\<lambda>at.
            Inr \<lparr>aj_old = old, aj_new = new, aj_size_before = before, aj_size_after = after, aj_downloaded_at = at\<rparr>)))))
        | _ \<Rightarrow> Inl (PyValueError ''unsupported append journal version''))"

definition append_committed :: "series_state \<Rightarrow> data_file \<Rightarrow> append_journal \<Rightarrow> bool" where
  "append_committed st f a \<longleftrightarrow>
     file_size f = aj_size_after a \<and>
     (case ss_manifest st of Some (JObj d) \<Rightarrow> dict_eq d (manifest_json (aj_new a)) | _ \<Rightarrow> False)"

definition recover_append_plan :: "series_state \<Rightarrow> disk_op list res" where
  "recover_append_plan st =
     (case ss_append_journal st of
        None \<Rightarrow> Inr []
      | Some j \<Rightarrow>
          bindR (parse_append_journal j) (\<lambda>a.
          case ss_csv st of
            None \<Rightarrow> Inl (MDInvalidExchangeResponse ''Cannot recover truncated segment append'')
          | Some f \<Rightarrow>
              if file_size f < aj_size_before a
              then Inl (MDInvalidExchangeResponse ''Cannot recover truncated segment append'')
              else if append_committed st f a
              then Inr [ReplaceIndex (aj_new a) (aj_downloaded_at a), UnlinkAppendJournal]
              else Inr [TruncateCsv (aj_size_before a), WriteManifest (aj_old a),
                        ReplaceIndex (aj_old a) (indexed_downloaded_at (aj_old a) st), UnlinkAppendJournal]))"

subsection \<open>The append\<close>

definition migration_ops :: "int \<Rightarrow> segment_manifest \<Rightarrow> segment_manifest \<Rightarrow> int \<Rightarrow> disk_op list" where
  "migration_ops data_size old new downloaded_at =
     [WriteAppendJournal (append_journal_json data_size data_size old new downloaded_at),
      WriteManifest new, ReplaceIndex new downloaded_at, PublishGeneration new, UnlinkAppendJournal]"

definition append_ops :: "int \<Rightarrow> string \<Rightarrow> segment_manifest \<Rightarrow> segment_manifest \<Rightarrow> int \<Rightarrow> disk_op list" where
  "append_ops size_before payload old new downloaded_at =
     [WriteAppendJournal (append_journal_json size_before (size_before + int (length payload)) old new downloaded_at),
      AppendBytes payload, WriteManifest new, ReplaceIndex new downloaded_at, PublishGeneration new, UnlinkAppendJournal]"

fun extend_chain ::
  "(byte list \<Rightarrow> byte list) \<Rightarrow> (revision_state \<Rightarrow> string) \<Rightarrow> string \<Rightarrow> market_bar list \<Rightarrow> string res" where
  "extend_chain sha rs checksum [] = Inr checksum"
| "extend_chain sha rs checksum (b # bs) =
     bindR (extend_tail_chain sha rs checksum b tail_chain_checksum) (\<lambda>c. extend_chain sha rs c bs)"

definition legacy_manifest :: "segment_manifest \<Rightarrow> bool" where
  "legacy_manifest m \<longleftrightarrow> sm_checksum_algorithm m \<noteq> tail_chain_checksum \<or> sm_base_checksum m = None \<or> sm_base_rows_count m = None"

definition migrate_manifest ::
  "(byte list \<Rightarrow> byte list) \<Rightarrow> (revision_state \<Rightarrow> string) \<Rightarrow> string \<Rightarrow> (string \<times> json) list \<Rightarrow> segment_manifest \<Rightarrow> segment_manifest res" where
  "migrate_manifest sha rs text raw m =
     bindR (validate_csv_checksum sha rs text raw) (\<lambda>_.
     bindR (csv_canonical_checksum sha rs text) (\<lambda>c.
     Inr (m\<lparr>sm_schema_version := ''stage-d-csv-3'', sm_checksum := c, sm_checksum_algorithm := tail_chain_checksum,
            sm_base_checksum := Some c, sm_base_rows_count := Some (sm_rows_count m)\<rparr>)))"

definition latest_download :: "market_bar list \<Rightarrow> int" where
  "latest_download bars =
     (case map (\<lambda>b. int_default (m_downloaded_at b) 0) bars of [] \<Rightarrow> 0 | n # ns \<Rightarrow> foldl max n ns)"

definition appended_manifest :: "segment_manifest \<Rightarrow> market_bar list \<Rightarrow> string \<Rightarrow> segment_manifest" where
  "appended_manifest m incoming checksum =
     m\<lparr>sm_schema_version := ''stage-d-csv-3'', sm_rows_count := sm_rows_count m + int (length incoming),
       sm_end_time := Some (b_time (last incoming)), sm_checksum := checksum, sm_checksum_algorithm := tail_chain_checksum\<rparr>"

text \<open>
  The body of \<open>append_strictly_newer\<close> under the lock, for a stored manifest and validated bars: the
  manifest returned and the disk operations done. Everything before the journal is only read.
\<close>

definition append_plan ::
  "(byte list \<Rightarrow> byte list) \<Rightarrow> (revision_state \<Rightarrow> string) \<Rightarrow> segment_manifest \<Rightarrow> market_bar list \<Rightarrow> series_state \<Rightarrow>
   (segment_manifest \<times> disk_op list) res" where
  "append_plan sha rs stored incoming st =
     (if sm_data_format stored \<noteq> ''csv''
      then Inl (MDUnsupportedFeature ''Bounded incremental append is supported only for CSV segments'')
      else case ss_csv st of
        None \<Rightarrow> Inl (MDInvalidExchangeResponse ''Segment manifest has no CSV data file'')
      | Some f \<Rightarrow>
          bindR (if legacy_manifest stored
                 then migrate_manifest sha rs (df_text f) (case ss_manifest st of Some (JObj d) \<Rightarrow> d | _ \<Rightarrow> []) stored
                 else Inr stored) (\<lambda>m.
          let nothing_new = (m, if legacy_manifest stored
                 then migration_ops (file_size f) stored m (indexed_downloaded_at stored st) else []) in
          case incoming of
            [] \<Rightarrow> Inr nothing_new
          | first # later \<Rightarrow>
              bindR (read_last_csv_bar rs (df_text f)) (\<lambda>last_bar.
              case (sm_end_time m, last_bar) of
                (Some end_time, Some tail) \<Rightarrow>
                  (if sm_rows_count m \<le> 0 then Inl (MDInvalidExchangeResponse ''Cannot append to an empty segment manifest'')
                   else if b_time tail \<noteq> end_time
                   then Inl (MDInvalidExchangeResponse ''Segment tail does not match manifest end_time'')
                   else if b_time first < end_time then Inl (MDCacheConflict ''Append candle is older than stored tail'')
                   else if b_time first = end_time \<and> \<not> same_canonical_candle first tail
                   then Inl (MDCacheConflict ''Conflicting tail candle'')
                   else
                     let new = (if b_time first = end_time then later else incoming) in
                     if new = [] then Inr nothing_new
                     else
                       bindR (extend_chain sha rs (sm_checksum m) new) (\<lambda>checksum.
                       let updated = appended_manifest m new checksum;
                           downloaded_at = max (indexed_downloaded_at m st) (latest_download new)
                       in Inr (updated, append_ops (file_size f) (csv_append_payload rs new) stored updated downloaded_at)))
              | _ \<Rightarrow> Inl (MDInvalidExchangeResponse ''Cannot append to an empty segment manifest''))))"

subsection \<open>A crash during an append is recovered\<close>

lemma parse_append_journal_json [simp]:
  "parse_append_journal (append_journal_json before after old new at) =
   Inr \<lparr>aj_old = old, aj_new = new, aj_size_before = before, aj_size_after = after, aj_downloaded_at = at\<rparr>"
  by (simp add: parse_append_journal_def append_journal_json_def obj_get_def obj_item_def manifest_of_json_def
      manifest_of_manifest_json)

definition committed_state :: "series_state \<Rightarrow> string \<Rightarrow> segment_manifest \<Rightarrow> bool" where
  "committed_state st w m \<longleftrightarrow> ss_append_journal st = None \<and> holds st w m \<and> index_agrees st m"

text \<open>What a crash leaves of an append of \<open>p\<close> to \<open>t\<close>: one of the two generations, or a journal with a torn tail.\<close>

definition append_pending ::
  "string \<Rightarrow> string \<Rightarrow> segment_manifest \<Rightarrow> segment_manifest \<Rightarrow> int \<Rightarrow> series_state \<Rightarrow> bool" where
  "append_pending t p old new d st \<longleftrightarrow>
     committed_state st t old \<or> committed_state st (t @ p) new \<or>
     (ss_append_journal st = Some (append_journal_json (int (length t)) (int (length t) + int (length p)) old new d) \<and>
      ((\<exists>n. holds st (t @ take n p) old) \<or> holds st (t @ p) new))"

lemma append_crash_pending:
  assumes "crash (append_ops (int (length t)) p old new d) st st'" and "committed_state st t old"
  shows "append_pending t p old new d st'"
proof -
  have h: "holds st t old" using assms(2) by (simp add: committed_state_def)
  then have torn: "holds (append_text (take n p) (st\<lparr>ss_append_journal := j\<rparr>)) (t @ take n p) old" for n j
    by (simp add: holds_append)
  have full: "map_option df_text (ss_csv (append_text p (st\<lparr>ss_append_journal := j\<rparr>))) = Some (t @ p)" for j
    using torn [of "length p"] by (simp add: holds_def)
  show ?thesis
    using assms(1) assms(2) h torn torn [of "length p"] full unfolding append_ops_def append_pending_def
    by (elim crash_ConsE crash_NilE)
      (auto simp: committed_state_def intro: exI [of _ 0] exI [of _ "length p"])
qed

lemma migration_crash_pending:
  assumes "crash (migration_ops (int (length t)) old new d) st st'" and "committed_state st t old"
  shows "append_pending t [] old new d st'"
  using assms unfolding migration_ops_def append_pending_def
  by (elim crash_ConsE crash_NilE) (auto simp: committed_state_def holds_def)

lemma append_ops_done:
  assumes "committed_state st t old"
  shows "committed_state (run_ops (append_ops n p old new d) st) (t @ p) new"
    and "committed_state (run_ops (migration_ops n old new d) st) t new"
proof -
  have "map_option df_text (ss_csv (append_text p (st\<lparr>ss_append_journal := j\<rparr>))) = Some (t @ p)" for j
    using holds_append [of "st\<lparr>ss_append_journal := j\<rparr>" t old p] assms by (simp add: committed_state_def holds_def)
  then show "committed_state (run_ops (append_ops n p old new d) st) (t @ p) new"
    by (simp add: append_ops_def committed_state_def)
  show "committed_state (run_ops (migration_ops n old new d) st) t new"
    using assms by (simp add: migration_ops_def committed_state_def holds_def)
qed

text \<open>Recovery of a pending append has a plan; the plan ends in one of the two generations, and a crash of it is pending again.\<close>

lemma recover_append_cases:
  assumes "append_pending t p old new d st"
  obtains (none) "ss_append_journal st = None" "recover_append_plan st = Inr []"
  | (forward) "ss_append_journal st \<noteq> None" "holds st (t @ p) new"
      "recover_append_plan st = Inr [ReplaceIndex new d, UnlinkAppendJournal]"
  | (undone) n where "ss_append_journal st = Some (append_journal_json (int (length t)) (int (length t) + int (length p)) old new d)"
      "holds st (t @ take n p) old"
      "recover_append_plan st = Inr [TruncateCsv (int (length t)), WriteManifest old,
         ReplaceIndex old (indexed_downloaded_at old st), UnlinkAppendJournal]"
proof (cases "ss_append_journal st")
  case None
  then show ?thesis using none by (simp add: recover_append_plan_def)
next
  case (Some j)
  then have j: "j = append_journal_json (int (length t)) (int (length t) + int (length p)) old new d"
    and h: "(\<exists>n. holds st (t @ take n p) old) \<or> holds st (t @ p) new"
    using assms by (auto simp: append_pending_def committed_state_def)
  obtain f m w where f: "ss_csv st = Some f" "df_text f = t @ w" "ss_manifest st = Some (JObj (manifest_json m))"
    and w: "m = new \<and> w = p \<or> (\<exists>n. m = old \<and> w = take n p)"
    using h by (auto simp: holds_def)
  have plan: "recover_append_plan st =
     (if length w = length p \<and> m = new then Inr [ReplaceIndex new d, UnlinkAppendJournal]
      else Inr [TruncateCsv (int (length t)), WriteManifest old,
                ReplaceIndex old (indexed_downloaded_at old st), UnlinkAppendJournal])"
    using f j Some by (simp add: recover_append_plan_def append_committed_def file_size_def dict_eq_manifest)
  show ?thesis
  proof (cases "length w = length p \<and> m = new")
    case True
    with w have "w = p" by (auto simp: min_def split: if_splits)
    with True plan forward f Some show ?thesis by (simp add: holds_def)
  next
    case False
    with w obtain n where "m = old" "w = take n p" by auto
    with False plan undone [of n] f Some j show ?thesis by (simp add: holds_def)
  qed
qed

lemma recover_append_pending:
  assumes "append_pending t p old new d st"
  shows "\<exists>ops. recover_append_plan st = Inr ops \<and>
    (committed_state (run_ops ops st) t old \<or> committed_state (run_ops ops st) (t @ p) new)"
  using assms
proof (cases rule: recover_append_cases)
  case none
  with assms show ?thesis by (auto simp: append_pending_def)
next
  case forward
  then show ?thesis by (auto simp: committed_state_def)
next
  case (undone n)
  then show ?thesis using holds_truncate [OF undone(2)] by (auto simp: committed_state_def)
qed

lemma recover_append_crash:
  assumes "append_pending t p old new d st" and "recover_append_plan st = Inr ops" and "crash ops st st'"
  shows "append_pending t p old new d st'"
  using assms(1)
proof (cases rule: recover_append_cases)
  case none
  with assms show ?thesis by (auto elim: crash_NilE)
next
  case forward
  with assms show ?thesis unfolding forward(3) append_pending_def
    by (auto simp: committed_state_def elim!: crash_ConsE crash_NilE)
next
  case (undone n)
  have tr: "map_option df_text (ss_csv (run_op (TruncateCsv (int (length t))) st)) = Some t"
    by (rule holds_truncate [OF undone(2)])
  have tr': "holds (run_op (TruncateCsv (int (length t))) st) (t @ take 0 p) old"
    using tr undone(2) by (auto simp: holds_def)
  have js: "ss_append_journal (run_op (TruncateCsv (int (length t))) st) = ss_append_journal st"
    by (simp split: option.splits)
  have "ops = [TruncateCsv (int (length t)), WriteManifest old, ReplaceIndex old (indexed_downloaded_at old st), UnlinkAppendJournal]"
    using assms(2) undone(3) by simp
  with assms(3) have "crash [TruncateCsv (int (length t)), WriteManifest old, ReplaceIndex old (indexed_downloaded_at old st), UnlinkAppendJournal] st st'"
    by simp
  then show ?thesis using undone(1,2) tr tr' js unfolding append_pending_def
    by (elim crash_ConsE crash_NilE) (auto simp: committed_state_def simp del: run_op.simps(11) intro: exI [of _ 0])
qed

end
