(* ===== verification/SegmentStore.thy ===== *)
theory SegmentStore
  imports SegmentAppend
begin

section \<open>The segment store\<close>

text \<open>
  Models \<^verbatim>\<open>store/segment_store.py\<close>, \<^verbatim>\<open>store/segment_read.py\<close>,
  \<^verbatim>\<open>store/segment_stream.py\<close> and \<open>compact_segment\<close> of \<^verbatim>\<open>store/segment_maintenance.py\<close>
  for one series directory. An operation takes the state of the directory to its result, or the
  exception it raises, and the state it leaves. The writer lock runs the recovery of both journals
  before its body, as the code does after taking the file lock. Without pyarrow the store is a CSV
  store: its constructor refuses the Parquet format.
\<close>

type_synonym 'a io = "series_state \<Rightarrow> 'a res \<times> series_state"

definition pending_journal :: "series_state \<Rightarrow> bool" where
  "pending_journal st \<longleftrightarrow> ss_append_journal st \<noteq> None \<or> ss_replace_journal st \<noteq> None"

text \<open>\<open>series_writer_lock\<close>: the directory is named, both journals are recovered, the body runs.\<close>

definition lock_plan :: "series_key \<Rightarrow> series_state \<Rightarrow> disk_op list res" where
  "lock_plan key st =
     bindR (recover_replacement_plan key st) (\<lambda>first.
     bindR (recover_append_plan (run_ops first st)) (\<lambda>second. Inr (first @ second)))"

definition series_writer_lock :: "series_key \<Rightarrow> 'a io \<Rightarrow> 'a io" where
  "series_writer_lock key body st =
     (case series_path key of
        Inl e \<Rightarrow> (Inl e, st)
      | Inr _ \<Rightarrow>
          case recover_replacement_plan key st of
            Inl e \<Rightarrow> (Inl e, st)
          | Inr first \<Rightarrow>
              (let st1 = run_ops first st in
               case recover_append_plan st1 of
                 Inl e \<Rightarrow> (Inl e, st1)
               | Inr second \<Rightarrow> body (run_ops second st1)))"

text \<open>\<open>stable_series_read_lock\<close>: a loop that recovers until no journal is pending.\<close>

partial_function (option) stable_series_read_lock ::
  "series_key \<Rightarrow> 'a io \<Rightarrow> series_state \<Rightarrow> ('a res \<times> series_state) option" where
  "stable_series_read_lock key body st =
     (if \<not> pending_journal st then Some (body st)
      else case series_writer_lock key (\<lambda>s. (Inr (), s)) st of
        (Inl e, st') \<Rightarrow> Some (Inl e, st')
      | (Inr _, st') \<Rightarrow> stable_series_read_lock key body st')"

text \<open>The lock of a read as one recovery; it is what the loop computes.\<close>

definition series_reader_lock :: "series_key \<Rightarrow> 'a io \<Rightarrow> 'a io" where
  "series_reader_lock key body st =
     (case series_path key of Inl e \<Rightarrow> (Inl e, st) | Inr _ \<Rightarrow> series_writer_lock key body st)"

subsection \<open>Reading (\<^verbatim>\<open>store/segment_read.py\<close>)\<close>

definition manifest_format :: "(string \<times> json) list \<Rightarrow> string" where
  "manifest_format d =
     (case map_of d ''data_format'' of Some (JStr f) \<Rightarrow> if f = ''csv'' \<or> f = ''parquet'' then f else ''csv'' | _ \<Rightarrow> ''csv'')"

text \<open>
  What \<open>read_all\<close> and \<open>iter_all\<close> share up to the data: the manifest of a CSV segment that exists and
  has been validated or is trusted, or an early return of no bars.
\<close>

definition open_segment ::
  "(byte list \<Rightarrow> byte list) \<Rightarrow> (revision_state \<Rightarrow> string) \<Rightarrow> ((string \<times> json) list \<times> string) option io" where
  "open_segment sha rs st =
     (case ss_manifest st of
        None \<Rightarrow>
          (if ss_csv st \<noteq> None \<or> ss_files st bars_parquet \<noteq> None
           then (Inl (MDInvalidExchangeResponse ''Segment manifest is missing for persisted data''), st) else (Inr None, st))
      | Some (JObj d) \<Rightarrow>
          (case validate_manifest_contract d of
             Inl e \<Rightarrow> (Inl e, st)
           | Inr _ \<Rightarrow>
               let fmt = manifest_format d in
               if ss_files st (other_name (data_name fmt)) \<noteq> None
               then (Inl (MDInvalidExchangeResponse ''Persisted data exists in the other segment format''), st)
               else case ss_files st (data_name fmt) of
                 None \<Rightarrow> (Inr None, st)
               | Some f \<Rightarrow>
                   if fmt = ''parquet''
                   then (Inl (MDUnsupportedFeature ''Reading Parquet segments requires optional dependency pyarrow''), st)
                   else case validate_or_trust_csv_generation sha rs d st of
                     Inl e \<Rightarrow> (Inl e, st)
                   | Inr st' \<Rightarrow> (Inr (Some (d, df_text f)), st'))
      | Some _ \<Rightarrow> (Inl (MDInvalidExchangeResponse ''Segment manifest must be a JSON object''), st))"

definition checked_bars :: "market_bar list res \<Rightarrow> market_bar list res" where
  "checked_bars r = bindR r (\<lambda>bars. bindR (validate_bars (map market_bar_to_bar bars) True) (\<lambda>_. Inr bars))"

definition read_all_locked ::
  "(byte list \<Rightarrow> byte list) \<Rightarrow> (revision_state \<Rightarrow> string) \<Rightarrow> int option \<Rightarrow> int option \<Rightarrow> market_bar list io" where
  "read_all_locked sha rs start stop st =
     (case open_segment sha rs st of
        (Inl e, st') \<Rightarrow> (Inl e, st')
      | (Inr None, st') \<Rightarrow> (Inr [], st')
      | (Inr (Some (d, text)), st') \<Rightarrow>
          (if start \<noteq> None \<or> stop \<noteq> None
           then (checked_bars (iter_csv_range rs text start stop (Some d)), st')
           else (checked_bars (read_csv rs text), st')))"

definition read_all ::
  "(byte list \<Rightarrow> byte list) \<Rightarrow> (revision_state \<Rightarrow> string) \<Rightarrow> series_key \<Rightarrow> int option \<Rightarrow> int option \<Rightarrow> market_bar list io" where
  "read_all sha rs key start stop = series_reader_lock key (read_all_locked sha rs start stop)"

text \<open>A generator: the bars it yields, and the exception that ends it, if one does.\<close>

type_synonym yielded = "market_bar list \<times> error option"

primrec range_yield :: "(revision_state \<Rightarrow> string) \<Rightarrow> int option \<Rightarrow> int option \<Rightarrow> csv_dict list \<Rightarrow> yielded" where
  "range_yield rs start stop [] = ([], None)"
| "range_yield rs start stop (row # rows) =
     (case row_to_bar rs row of
        Inl e \<Rightarrow> ([], Some e)
      | Inr b \<Rightarrow>
          (if (case start of None \<Rightarrow> False | Some s \<Rightarrow> b_time b < s) then range_yield rs start stop rows
           else if (case stop of None \<Rightarrow> False | Some e \<Rightarrow> b_time b \<ge> e) then ([], None)
           else (b # fst (range_yield rs start stop rows), snd (range_yield rs start stop rows))))"

definition range_position :: "string \<Rightarrow> int option \<Rightarrow> (string \<times> json) list option \<Rightarrow> nat" where
  "range_position text start manifest =
     (case (start, manifest) of
        (Some s, Some d) \<Rightarrow> seek_csv_near_start text (length (readline text)) s d | _ \<Rightarrow> length (readline text))"

definition iter_csv_yield ::
  "(revision_state \<Rightarrow> string) \<Rightarrow> string \<Rightarrow> int option \<Rightarrow> int option \<Rightarrow> (string \<times> json) list option \<Rightarrow> yielded" where
  "iter_csv_yield rs text start stop manifest =
     range_yield rs start stop (map (dict_row (csv_header (readline text))) (csv_parse (drop (range_position text start manifest) text)))"

definition iter_all ::
  "(byte list \<Rightarrow> byte list) \<Rightarrow> (revision_state \<Rightarrow> string) \<Rightarrow> series_key \<Rightarrow> int option \<Rightarrow> int option \<Rightarrow> series_state \<Rightarrow> yielded \<times> series_state" where
  "iter_all sha rs key start stop st =
     (case series_reader_lock key (open_segment sha rs) st of
        (Inl e, st') \<Rightarrow> (([], Some e), st')
      | (Inr None, st') \<Rightarrow> (([], None), st')
      | (Inr (Some (d, text)), st') \<Rightarrow> (iter_csv_yield rs text start stop (Some d), st'))"

lemma range_rows_yield:
  "range_rows rs start stop rows = (case range_yield rs start stop rows of (bars, None) \<Rightarrow> Inr bars | (_, Some e) \<Rightarrow> Inl e)"
  by (induction rows) (auto split: sum.splits prod.splits option.splits)

lemma iter_csv_range_yield:
  "iter_csv_range rs text start stop m = (case iter_csv_yield rs text start stop m of (bars, None) \<Rightarrow> Inr bars | (_, Some e) \<Rightarrow> Inl e)"
  by (simp add: iter_csv_range_def iter_csv_yield_def range_rows_yield range_position_def Let_def)

text \<open>Under a writer lock of the same thread the nested locks of \<open>get\<close> and of the writers below are no-ops.\<close>

definition first_at :: "int \<Rightarrow> market_bar list res \<times> series_state \<Rightarrow> market_bar option res \<times> series_state" where
  "first_at open_time r = (bindR (fst r) (\<lambda>bars. Inr (find (\<lambda>b. b_time b = open_time) bars)), snd r)"

definition get_bar_locked ::
  "(byte list \<Rightarrow> byte list) \<Rightarrow> (revision_state \<Rightarrow> string) \<Rightarrow> int \<Rightarrow> market_bar option io" where
  "get_bar_locked sha rs open_time st = first_at open_time (read_all_locked sha rs (Some open_time) (Some (open_time + 1)) st)"

definition get_bar ::
  "(byte list \<Rightarrow> byte list) \<Rightarrow> (revision_state \<Rightarrow> string) \<Rightarrow> series_key \<Rightarrow> int \<Rightarrow> market_bar option io" where
  "get_bar sha rs key open_time st = first_at open_time (read_all sha rs key (Some open_time) (Some (open_time + 1)) st)"

subsection \<open>Replacing\<close>

definition new_manifest :: "series_key \<Rightarrow> market_bar list \<Rightarrow> string \<Rightarrow> segment_manifest res" where
  "new_manifest key bars checksum =
     bindR (canonical_timeframe (sk_timeframe key)) (\<lambda>tf.
     Inr \<lparr>sm_runtime_contract_version = runtime_contract_version, sm_schema_version = ''stage-d-csv-3'',
          sm_exchange = py_lower (sk_exchange key), sm_market = py_lower (sk_market key),
          sm_symbol = py_upper (sk_symbol key), sm_timeframe = tf,
          sm_source_transport = (case bars of [] \<Rightarrow> ''ws'' | b # _ \<Rightarrow> m_source_transport b),
          sm_source_kind = sk_source_kind key, sm_rows_count = int (length bars),
          sm_start_time = (if bars = [] then None else Some (b_time (hd bars))),
          sm_end_time = (if bars = [] then None else Some (b_time (last bars))),
          sm_checksum = checksum, sm_data_format = ''csv'', sm_checksum_algorithm = tail_chain_checksum,
          sm_base_checksum = Some checksum, sm_base_rows_count = Some (int (length bars))\<rparr>)"

text \<open>From the old manifest to the end of \<open>finish_replacement\<close>.\<close>

definition commit_replacement :: "series_key \<Rightarrow> segment_manifest \<Rightarrow> string \<Rightarrow> int \<Rightarrow> segment_manifest io" where
  "commit_replacement key new text downloaded_at st =
     (case load_segment_manifest st of
        Inl e \<Rightarrow> (Inl e, st)
      | Inr old \<Rightarrow>
          (case begin_plan key old new downloaded_at st of
             Inl e \<Rightarrow> (Inl e, st)
           | Inr (j, ops) \<Rightarrow>
               let written = ops @ commit_ops text new downloaded_at in
               case finish_plan key j of
                 Inl e \<Rightarrow> (Inl e, run_ops written st)
               | Inr fin \<Rightarrow> (Inr new, run_ops (written @ fin) st)))"

definition replace_all_locked ::
  "(byte list \<Rightarrow> byte list) \<Rightarrow> (revision_state \<Rightarrow> string) \<Rightarrow> series_key \<Rightarrow> string option \<Rightarrow> market_bar list \<Rightarrow> segment_manifest io" where
  "replace_all_locked sha rs key data_format unsorted st =
     (if data_format = Some ''parquet''
      then (Inl (MDUnsupportedFeature ''Parquet segment format requires optional dependency pyarrow''), st)
      else
        let bars = sort_key b_time unsorted in
        case bindR (validate_bars (map market_bar_to_bar bars) True) (\<lambda>_.
             bindR (series_path key) (\<lambda>_. bindR (bars_checksum sha rs bars) (new_manifest key bars))) of
          Inl e \<Rightarrow> (Inl e, st)
        | Inr new \<Rightarrow> commit_replacement key new (csv_file rs bars) (latest_download bars) st)"

definition replace_all ::
  "(byte list \<Rightarrow> byte list) \<Rightarrow> (revision_state \<Rightarrow> string) \<Rightarrow> series_key \<Rightarrow> string option \<Rightarrow> market_bar list \<Rightarrow> segment_manifest io" where
  "replace_all sha rs key data_format bars = series_writer_lock key (replace_all_locked sha rs key data_format bars)"

text \<open>The loop of \<open>replace_all_stream\<close>: the digest input of bars checked one at a time.\<close>

fun stream_rows :: "(revision_state \<Rightarrow> string) \<Rightarrow> int option \<Rightarrow> market_bar list \<Rightarrow> byte list res" where
  "stream_rows rs previous_time [] = Inr []"
| "stream_rows rs previous_time (b # bs) =
     (if (case previous_time of None \<Rightarrow> False | Some t \<Rightarrow> b_time b \<le> t)
      then Inl (MDInvalidExchangeResponse ''Segment stream must be strictly ordered by time'')
      else
        bindR (validate_bars [market_bar_to_bar b] True) (\<lambda>_.
        bindR (update_checksum rs b) (\<lambda>x.
        bindR (stream_rows rs (Some (b_time b)) bs) (\<lambda>xs. Inr (x @ xs)))))"

definition stream_download :: "market_bar list \<Rightarrow> int" where
  "stream_download bars = foldl max 0 (map (\<lambda>b. int_default (m_downloaded_at b) 0) bars)"

definition replace_all_stream ::
  "(byte list \<Rightarrow> byte list) \<Rightarrow> (revision_state \<Rightarrow> string) \<Rightarrow> series_key \<Rightarrow> market_bar list \<Rightarrow> segment_manifest io" where
  "replace_all_stream sha rs key bars = series_writer_lock key (\<lambda>st.
     case bindR (stream_rows rs None bars) (\<lambda>xs. new_manifest key bars (hexdigest (sha xs))) of
       Inl e \<Rightarrow> (Inl e, st)
     | Inr new \<Rightarrow> commit_replacement key new (csv_file rs bars) (stream_download bars) st)"

subsection \<open>Appending, upserting, compacting\<close>

definition append_locked ::
  "(byte list \<Rightarrow> byte list) \<Rightarrow> (revision_state \<Rightarrow> string) \<Rightarrow> series_key \<Rightarrow> market_bar list \<Rightarrow> segment_manifest io" where
  "append_locked sha rs key bars st =
     (case load_segment_manifest st of
       Inl e \<Rightarrow> (Inl e, st)
     | Inr manifest \<Rightarrow>
         (case validated_append_bars key bars of
            Inl e \<Rightarrow> (Inl e, st)
          | Inr incoming \<Rightarrow>
              (case manifest of
                 None \<Rightarrow> replace_all_locked sha rs key (Some ''csv'') incoming st
               | Some m \<Rightarrow>
                   (case append_plan sha rs m incoming st of
                      Inl e \<Rightarrow> (Inl e, st)
                    | Inr (m', ops) \<Rightarrow> (Inr m', run_ops ops st)))))"

definition append_strictly_newer ::
  "(byte list \<Rightarrow> byte list) \<Rightarrow> (revision_state \<Rightarrow> string) \<Rightarrow> series_key \<Rightarrow> market_bar list \<Rightarrow> segment_manifest io" where
  "append_strictly_newer sha rs key bars = series_writer_lock key (append_locked sha rs key bars)"

text \<open>\<open>by_time\<close>: later bars of one time replace earlier ones in place.\<close>

definition upsert_closed_locked ::
  "(byte list \<Rightarrow> byte list) \<Rightarrow> (revision_state \<Rightarrow> string) \<Rightarrow> market_bar \<Rightarrow> segment_manifest io" where
  "upsert_closed_locked sha rs b st =
     (case read_all_locked sha rs None None st of
       (Inl e, st') \<Rightarrow> (Inl e, st')
     | (Inr existing, st') \<Rightarrow>
         (let by_time = dict_of b_time existing in
          case map_of by_time (b_time b) of
            None \<Rightarrow> replace_all_locked sha rs (bar_key b) None (map snd (AList.update (b_time b) b by_time)) st'
          | Some current \<Rightarrow>
              (case bindR (market_bar_checksum sha rs current) (\<lambda>x.
                    bindR (market_bar_checksum sha rs b) (\<lambda>y.
                    if x \<noteq> y then Inl (MDCacheConflict ''Conflicting closed candle'') else Inr ())) of
                 Inl e \<Rightarrow> (Inl e, st')
               | Inr _ \<Rightarrow> replace_all_locked sha rs (bar_key b) None (map snd (AList.update (b_time b) b by_time)) st')))"

definition upsert_closed ::
  "(byte list \<Rightarrow> byte list) \<Rightarrow> (revision_state \<Rightarrow> string) \<Rightarrow> market_bar \<Rightarrow> segment_manifest io" where
  "upsert_closed sha rs b = series_writer_lock (bar_key b) (upsert_closed_locked sha rs b)"

definition compact ::
  "(byte list \<Rightarrow> byte list) \<Rightarrow> (revision_state \<Rightarrow> string) \<Rightarrow> series_key \<Rightarrow> string option \<Rightarrow> segment_manifest io" where
  "compact sha rs key data_format = series_writer_lock key (\<lambda>st.
     case read_all_locked sha rs None None st of
       (Inl e, st') \<Rightarrow> (Inl e, st')
     | (Inr bars, st') \<Rightarrow> replace_all_locked sha rs key data_format bars st')"

subsection \<open>What a stored series is\<close>

text \<open>Bars that can be one segment: they survive persistence, are single lines, and pass every check of a read.\<close>

definition bars_ok :: "(revision_state \<Rightarrow> string) \<Rightarrow> market_bar list \<Rightarrow> bool" where
  "bars_ok rs bars \<longleftrightarrow>
     list_all storable bars \<and> list_all (line_ok rs) bars \<and> list_all bar_sane bars \<and>
     list_all (\<lambda>b. validate_persisted_bar_semantics b = Inr ()) bars \<and>
     sorted_wrt (\<lambda>a b. b_time a < b_time b) bars"

lemma bars_ok_distinct: "bars_ok rs bars \<Longrightarrow> distinct (map b_time bars)"
  using strict_sorted_iff [of "map b_time bars"] by (simp add: bars_ok_def sorted_wrt_map)

text \<open>A manifest that describes bars: identity, counts and times, and the chain over the base digest.\<close>

definition describes ::
  "(byte list \<Rightarrow> byte list) \<Rightarrow> (revision_state \<Rightarrow> string) \<Rightarrow> series_key \<Rightarrow> segment_manifest \<Rightarrow> market_bar list \<Rightarrow> bool" where
  "describes sha rs key m bars \<longleftrightarrow>
     sm_runtime_contract_version m = runtime_contract_version \<and> sm_data_format m = ''csv'' \<and>
     sm_checksum_algorithm m = tail_chain_checksum \<and>
     key_identity key = Inr (sm_exchange m, sm_market m, sm_symbol m, sm_timeframe m, sm_source_kind m) \<and>
     sm_rows_count m = int (length bars) \<and>
     sm_end_time m = (if bars = [] then None else Some (b_time (last bars))) \<and>
     (\<exists>n \<le> length bars. \<exists>x. sm_base_rows_count m = Some (int n) \<and>
        concatR (map (update_checksum rs) (take n bars)) = Inr x \<and> sm_base_checksum m = Some (hexdigest (sha x)) \<and>
        extend_chain sha rs (hexdigest (sha x)) (drop n bars) = Inr (sm_checksum m))"

text \<open>The directory holds exactly these bars, and nothing is pending.\<close>

definition stored ::
  "(byte list \<Rightarrow> byte list) \<Rightarrow> (revision_state \<Rightarrow> string) \<Rightarrow> series_key \<Rightarrow> market_bar list \<Rightarrow> series_state \<Rightarrow> bool" where
  "stored sha rs key bars st \<longleftrightarrow>
     \<not> pending_journal st \<and> ss_files st bars_parquet = None \<and> bars_ok rs bars \<and>
     (\<exists>m. holds st (csv_file rs bars) m \<and> index_agrees st m \<and> describes sha rs key m bars)"

subsection \<open>A described file validates\<close>

lemma algorithm_tail [simp]: "algorithm_of tail_chain_checksum = Some (V4, True)"
  by code_simp

lemma extend_chain_append: "extend_chain sha rs c (xs @ ys) = bindR (extend_chain sha rs c xs) (\<lambda>d. extend_chain sha rs d ys)"
  by (induction xs arbitrary: c) (simp_all add: bindR_assoc)

lemma concatR_Inr_append:
  "concatR (xs @ ys) = Inr z \<longleftrightarrow> (\<exists>x y. concatR xs = Inr x \<and> concatR ys = Inr y \<and> z = x @ y)"
  by (induction xs arbitrary: z) (auto simp: res_simps)

lemma validate_rows_chain:
  assumes "rs_ok rs" and "list_all storable bars" and "list_all (\<lambda>b. validate_persisted_bar_semantics b = Inr ()) bars"
    and "base \<le> k" and "extend_chain sha rs chain bars = Inr c"
  shows "validate_rows sha rs V4 True base tail_chain_checksum (map (bar_dict rs) bars) digest chain k =
     Inr (digest, c, k + int (length bars))"
  using assms(2-5)
proof (induction bars arbitrary: k chain)
  case Nil
  then show ?case by simp
next
  case (Cons b bs)
  have "row_to_bar rs (bar_dict rs b) = Inr b" using row_to_bar_row assms(1) Cons.prems by simp
  then show ?case using Cons by (auto simp: res_simps)
qed

lemma validate_rows_tail:
  assumes "rs_ok rs" and "list_all storable bars" and "list_all (\<lambda>b. validate_persisted_bar_semantics b = Inr ()) bars"
    and "concatR (map (update_checksum rs) (take n bars)) = Inr x" and "extend_chain sha rs chain (drop n bars) = Inr c"
  shows "validate_rows sha rs V4 True (k + int n) tail_chain_checksum (map (bar_dict rs) bars) digest chain k =
     Inr (digest @ x, c, k + int (length bars))"
  using assms(2-5)
proof (induction bars arbitrary: n k x digest)
  case Nil
  then show ?case by simp
next
  case (Cons b bs)
  show ?case
  proof (cases n)
    case 0
    with validate_rows_chain [OF assms(1) Cons.prems(1,2), of k k sha chain c] Cons.prems show ?thesis by simp
  next
    case (Suc n')
    with Cons.prems(3) obtain y z where y: "update_checksum rs b = Inr y" "concatR (map (update_checksum rs) (take n' bs)) = Inr z" "x = y @ z"
      by (auto simp: res_simps)
    have "validate_rows sha rs V4 True (k + 1 + int n') tail_chain_checksum (map (bar_dict rs) bs) (digest @ y) chain (k + 1) =
        Inr ((digest @ y) @ z, c, k + 1 + int (length bs))"
      using Cons.prems Suc y by (intro Cons.IH) simp_all
    moreover have "row_to_bar rs (bar_dict rs b) = Inr b" using row_to_bar_row assms(1) Cons.prems by simp
    ultimately show ?thesis using y Suc Cons.prems(2) by (simp add: row_bytes_def algebra_simps)
  qed
qed

lemma described_valid:
  assumes "rs_ok rs" and "bars_ok rs bars" and "describes sha rs key m bars"
  shows "validate_csv_checksum sha rs (csv_file rs bars) (manifest_json m) = Inr ()"
proof -
  obtain n x where n: "n \<le> length bars" "sm_base_rows_count m = Some (int n)"
    "concatR (map (update_checksum rs) (take n bars)) = Inr x" "sm_base_checksum m = Some (hexdigest (sha x))"
    "extend_chain sha rs (hexdigest (sha x)) (drop n bars) = Inr (sm_checksum m)" and a: "sm_checksum_algorithm m = tail_chain_checksum"
    using assms(3) by (auto simp: describes_def)
  have "validate_rows sha rs V4 True (int n) tail_chain_checksum (dict_rows (csv_file rs bars)) [] (hexdigest (sha x)) 0 =
     Inr (x, sm_checksum m, int (length bars))"
    using validate_rows_tail [OF assms(1) _ _ n(3,5), of 0 "[]"] assms(2) by (simp add: bars_ok_def dict_rows_file)
  then show ?thesis
    using n a by (simp add: validate_csv_checksum_def manifest_lookup int_default_def)
qed

lemma to_bar_simps [simp]: "b_time (market_bar_to_bar b) = b_time b" "bar_sane (market_bar_to_bar b) = bar_sane b"
  by (cases "b_time_close b"; simp add: market_bar_to_bar_def bar_sane_def)+

lemma bars_ok_valid: "bars_ok rs bars \<Longrightarrow> validate_bars (map market_bar_to_bar bars) True = Inr ()"
proof -
  assume "bars_ok rs bars"
  then have "sorted_wrt (<) (map b_time (map market_bar_to_bar bars))" "\<forall>b \<in> set (map market_bar_to_bar bars). bar_sane b"
    by (auto simp: bars_ok_def sorted_wrt_map o_def list_all_iff)
  then show ?thesis using validate_loop_iff [of "{}" None "map market_bar_to_bar bars"] by (simp add: validate_bars_def)
qed

lemma bars_ok_filter: "bars_ok rs bars \<Longrightarrow> bars_ok rs (filter P bars)"
  by (auto simp: bars_ok_def list_all_iff sorted_wrt_filter)

subsection \<open>Reading what is stored\<close>

lemma validate_or_trust_stored:
  assumes "rs_ok rs" and "bars_ok rs bars" and "describes sha rs key m bars" and "holds st (csv_file rs bars) m"
  shows "\<exists>st'. validate_or_trust_csv_generation sha rs (manifest_json m) st = Inr st' \<and>
    (st' = st \<or> st' = publish_integrity_generation m st)"
  using described_valid [OF assms(1-3)] assms(4)
  by (auto simp: validate_or_trust_csv_generation_def holds_def manifest_of_manifest_json)

lemma stored_publish: "stored sha rs key bars st \<Longrightarrow> stored sha rs key bars (publish_integrity_generation m st)"
  by (auto simp: stored_def pending_journal_def)

lemma open_stored:
  assumes "rs_ok rs" and "stored sha rs key bars st"
  shows "\<exists>m st'. open_segment sha rs st = (Inr (Some (manifest_json m, csv_file rs bars)), st') \<and> stored sha rs key bars st'"
proof -
  obtain m where m: "holds st (csv_file rs bars) m" "describes sha rs key m bars" "bars_ok rs bars" "ss_files st bars_parquet = None"
    using assms(2) by (auto simp: stored_def)
  obtain st' where st': "validate_or_trust_csv_generation sha rs (manifest_json m) st = Inr st'"
    "st' = st \<or> st' = publish_integrity_generation m st"
    using validate_or_trust_stored [OF assms(1) m(3,2,1)] by blast
  have "manifest_format (manifest_json m) = ''csv''" "validate_manifest_contract (manifest_json m) = Inr ()"
    using m(2) by (simp_all add: manifest_format_def validate_manifest_contract_def manifest_lookup describes_def)
  then have "open_segment sha rs st = (Inr (Some (manifest_json m, csv_file rs bars)), st')"
    using m(1,4) st'(1) by (auto simp: open_segment_def holds_def)
  then show ?thesis using st'(2) assms(2) stored_publish by metis
qed

lemma read_locked_stored:
  assumes "rs_ok rs" and "stored sha rs key bars st"
  shows "\<exists>st'. read_all_locked sha rs start stop st = (Inr (filter (\<lambda>b. in_range start stop (b_time b)) bars), st') \<and>
    stored sha rs key bars st'"
proof -
  obtain m st' where o: "open_segment sha rs st = (Inr (Some (manifest_json m, csv_file rs bars)), st')" "stored sha rs key bars st'"
    using open_stored [OF assms] by blast
  have ok: "bars_ok rs bars" using assms(2) by (simp add: stored_def)
  have "read_csv rs (csv_file rs bars) = Inr bars"
    "iter_csv_range rs (csv_file rs bars) start stop (Some (manifest_json m)) = Inr (filter (\<lambda>b. in_range start stop (b_time b)) bars)"
    using ok assms(1) by (auto simp: bars_ok_def read_csv_file iter_csv_range_file)
  moreover have "filter (\<lambda>b. in_range None None (b_time b)) bars = bars" by (simp add: in_range_def)
  ultimately show ?thesis
    using o bars_ok_valid [OF bars_ok_filter [OF ok, of "\<lambda>b. in_range start stop (b_time b)"]] bars_ok_valid [OF ok]
    by (auto simp: read_all_locked_def checked_bars_def)
qed

lemma writer_lock_idle:
  assumes "\<not> pending_journal st" and "series_path key = Inr path"
  shows "series_writer_lock key body st = body st"
  using assms by (simp add: series_writer_lock_def pending_journal_def recover_replacement_plan_def recover_append_plan_def Let_def)

lemma described_path:
  assumes "key_identity key = Inr i"
  shows "\<exists>path. series_path key = Inr path"
  using assms by (auto simp: key_identity_def series_path_def res_simps)

lemma stored_path: "stored sha rs key bars st \<Longrightarrow> \<exists>path. series_path key = Inr path"
  by (auto simp: stored_def describes_def dest: described_path)

lemma read_stored:
  assumes "rs_ok rs" and "stored sha rs key bars st"
  shows "\<exists>st'. read_all sha rs key start stop st = (Inr (filter (\<lambda>b. in_range start stop (b_time b)) bars), st') \<and>
    stored sha rs key bars st'"
proof -
  have idle: "\<not> pending_journal st" using assms(2) by (simp add: stored_def)
  obtain path where path: "series_path key = Inr path" using stored_path [OF assms(2)] by blast
  show ?thesis
    using read_locked_stored [OF assms, of start stop] writer_lock_idle [OF idle path, of "read_all_locked sha rs start stop"] path
    by (simp add: read_all_def series_reader_lock_def)
qed

subsection \<open>Replacing what is stored\<close>

lemma py_upper_lower: "py_upper (py_lower s) = py_upper s"
proof -
  have "char_upper (char_lower c) = char_upper c" for c
    by (cases "65 \<le> char_code c \<and> char_code c \<le> 90")
      (auto simp: char_upper_def char_lower_def char_code_def Let_def)
  then show ?thesis by (simp add: py_upper_def py_lower_def)
qed

lemma safe_path_part_case [simp]: "safe_path_part (py_lower v) = safe_path_part v" "safe_path_part (py_upper v) = safe_path_part v"
  by (simp_all add: safe_path_part_def py_strip_lower py_strip_upper py_upper_lower)

lemma identity_path:
  assumes "key_identity key = Inr (sm_exchange m, sm_market m, sm_symbol m, sm_timeframe m, sm_source_kind m)"
  shows "\<exists>path. series_path key = Inr path \<and> series_path (manifest_key m) = Inr path"
proof -
  obtain tf where tf: "canonical_timeframe (sk_timeframe key) = Inr tf" "sm_exchange m = py_lower (sk_exchange key)"
    "sm_market m = py_lower (sk_market key)" "sm_symbol m = py_upper (sk_symbol key)" "sm_timeframe m = tf" "sm_source_kind m = sk_source_kind key"
    using assms by (auto simp: key_identity_def res_simps)
  then show ?thesis using canonical_fixpoint [OF tf(1)] by (simp add: series_path_def manifest_key_def)
qed

text \<open>The directory is vacant, or holds bars.\<close>

definition vacant :: "series_key \<Rightarrow> series_state \<Rightarrow> bool" where
  "vacant key st \<longleftrightarrow>
     \<not> pending_journal st \<and> ss_manifest st = None \<and> ss_csv st = None \<and> ss_files st bars_parquet = None \<and>
     filter (\<lambda>r. key_identity key = Inr (ix_exchange r, ix_market r, ix_symbol r, ix_timeframe r, ix_source_kind r)) (ss_index st) = []"

definition contains ::
  "(byte list \<Rightarrow> byte list) \<Rightarrow> (revision_state \<Rightarrow> string) \<Rightarrow> series_key \<Rightarrow> market_bar list option \<Rightarrow> series_state \<Rightarrow> bool" where
  "contains sha rs key c st = (case c of None \<Rightarrow> vacant key st | Some bars \<Rightarrow> stored sha rs key bars st)"

definition encodable :: "(revision_state \<Rightarrow> string) \<Rightarrow> market_bar \<Rightarrow> bool" where
  "encodable rs b \<longleftrightarrow> (case update_checksum rs b of Inl _ \<Rightarrow> False | Inr _ \<Rightarrow> True)"

lemma encodable_concat: "list_all (encodable rs) bars \<Longrightarrow> \<exists>x. concatR (map (update_checksum rs) bars) = Inr x"
  by (induction bars) (auto simp: encodable_def split: sum.splits)

lemma sorted_bars: "bars_ok rs bars \<Longrightarrow> sort_key b_time bars = bars"
  by (rule sort_key_id_if_sorted, rule strict_sorted_imp_sorted) (simp add: bars_ok_def sorted_wrt_map)

lemma new_manifest_describes:
  assumes "bars_ok rs bars" and "concatR (map (update_checksum rs) bars) = Inr x" and "new_manifest key bars (hexdigest (sha x)) = Inr m"
  shows "describes sha rs key m bars"
proof -
  obtain tf where tf: "canonical_timeframe (sk_timeframe key) = Inr tf"
    using assms(3) by (auto simp: new_manifest_def res_simps)
  have "\<exists>n \<le> length bars. \<exists>y. sm_base_rows_count m = Some (int n) \<and>
        concatR (map (update_checksum rs) (take n bars)) = Inr y \<and> sm_base_checksum m = Some (hexdigest (sha y)) \<and>
        extend_chain sha rs (hexdigest (sha y)) (drop n bars) = Inr (sm_checksum m)"
    using assms(2,3) tf by (intro exI [of _ "length bars"] conjI exI [of _ x]) (auto simp: new_manifest_def)
  then show ?thesis using assms(3) tf by (auto simp: new_manifest_def describes_def key_identity_def)
qed

text \<open>The manifest and text a directory starts from, as the replacement sees them.\<close>

definition starts_from ::
  "(byte list \<Rightarrow> byte list) \<Rightarrow> (revision_state \<Rightarrow> string) \<Rightarrow> series_key \<Rightarrow> market_bar list option \<Rightarrow> segment_manifest \<Rightarrow>
   (string \<times> segment_manifest) option \<Rightarrow> series_state \<Rightarrow> bool" where
  "starts_from sha rs key c new old st \<longleftrightarrow>
     load_segment_manifest st = Inr (map_option snd old) \<and> generation_state new old st \<and>
     replaceable key (map_option snd old) new \<and> ss_replace_journal st = None \<and> (old \<noteq> None \<longrightarrow> ss_csv st \<noteq> None) \<and>
     (case c of None \<Rightarrow> old = None | Some bs \<Rightarrow> \<exists>m. old = Some (csv_file rs bs, m) \<and> describes sha rs key m bs)"

lemma contains_generation:
  assumes "contains sha rs key c st" and "describes sha rs key new bars"
  shows "\<exists>old. starts_from sha rs key c new old st"
proof (cases c)
  case None
  have k: "key_identity key = Inr (sm_exchange new, sm_market new, sm_symbol new, sm_timeframe new, sm_source_kind new)"
    using assms(2) by (simp add: describes_def)
  have "filter (same_series new) (ss_index st) = []"
    using None assms(1) k by (auto simp: contains_def vacant_def filter_empty_conv same_series_def)
  then show ?thesis using None assms identity_path [OF k]
    by (intro exI [of _ None]) (auto simp: starts_from_def contains_def vacant_def pending_journal_def load_segment_manifest_def generation_state_def replaceable_def describes_def)
next
  case (Some bs)
  then obtain m where m: "holds st (csv_file rs bs) m" "index_agrees st m" "describes sha rs key m bs" "\<not> pending_journal st"
    using assms(1) by (auto simp: contains_def stored_def)
  have "manifest_key m = manifest_key new" using m(3) assms(2) by (auto simp: describes_def manifest_key_def)
  moreover have "\<exists>path. series_path key = Inr path \<and> series_path (manifest_key new) = Inr path"
    using assms(2) by (intro identity_path) (simp add: describes_def)
  ultimately show ?thesis
    using Some m assms(2)
    by (intro exI [of _ "Some (csv_file rs bs, m)"])
      (auto simp: starts_from_def pending_journal_def generation_state_def replaceable_def describes_def holds_def load_segment_manifest_def manifest_of_manifest_json)
qed

lemma commit_replacement_ops:
  assumes "load_segment_manifest st = Inr old" and "replaceable key old new" and "ss_replace_journal st = None"
    and "old \<noteq> None \<Longrightarrow> ss_csv st \<noteq> None"
  shows "commit_replacement key new w d st =
    (Inr new, run_ops (replace_ops old w new (case old of None \<Rightarrow> 0 | Some m \<Rightarrow> indexed_downloaded_at m st) d) st)"
  using assms(1) begin_csv_plan [OF assms(2-4)] finish_csv_plan [OF assms(2)]
  by (simp add: commit_replacement_def replace_ops_def Let_def)

lemma generation_stored:
  assumes "generation_state new (Some (csv_file rs bars, m)) st" and "describes sha rs key m bars" and "bars_ok rs bars"
    and "\<not> pending_journal st" and "ss_files st bars_parquet = None"
  shows "stored sha rs key bars st"
  using assms by (auto simp: generation_state_def stored_def)

lemma commit_replacement_stored:
  assumes "contains sha rs key c st" and "describes sha rs key new bars" and "bars_ok rs bars"
  shows "\<exists>st'. commit_replacement key new (csv_file rs bars) d st = (Inr new, st') \<and> stored sha rs key bars st'"
proof -
  obtain old where "starts_from sha rs key c new old st" using contains_generation [OF assms(1,2)] ..
  then have old: "load_segment_manifest st = Inr (map_option snd old)" "replaceable key (map_option snd old) new"
    "ss_replace_journal st = None" "old \<noteq> None \<longrightarrow> ss_csv st \<noteq> None"
    unfolding starts_from_def by blast+
  have aj: "ss_append_journal st = None"
    using assms(1) by (auto simp: contains_def vacant_def stored_def pending_journal_def split: option.splits)
  let ?at = "case map_option snd old of None \<Rightarrow> 0 | Some m \<Rightarrow> indexed_downloaded_at m st"
  let ?st = "run_ops (replace_ops (map_option snd old) (csv_file rs bars) new ?at d) st"
  have c: "commit_replacement key new (csv_file rs bars) d st = (Inr new, ?st)"
    using old by (intro commit_replacement_ops) auto
  have "stored sha rs key bars ?st"
    using replace_ops_done [OF old(3), where old = "map_option snd old" and w = "csv_file rs bars" and new = new and old_at = ?at and new_at = d] aj assms(2,3)
    by (intro generation_stored) (auto simp: pending_journal_def)
  with c show ?thesis by blast
qed

lemma replace_locked_stored:
  assumes "contains sha rs key c st" and "key_identity key = Inr i" and "fmt \<noteq> Some ''parquet''"
    and "bars_ok rs (sort_key b_time bars)" and "list_all (encodable rs) bars"
  shows "\<exists>m st'. replace_all_locked sha rs key fmt bars st = (Inr m, st') \<and> stored sha rs key (sort_key b_time bars) st'"
proof -
  let ?b = "sort_key b_time bars"
  have sorted: "sort_key b_time ?b = ?b" by (rule sorted_bars [OF assms(4)])
  obtain x where x: "concatR (map (update_checksum rs) ?b) = Inr x"
    using encodable_concat [of rs ?b] assms(5) by (auto simp: list_all_iff)
  then have cs: "bars_checksum sha rs ?b = Inr (hexdigest (sha x))" by (simp add: bars_checksum_def digest_of_def sorted)
  obtain path where path: "series_path key = Inr path" using described_path [OF assms(2)] by blast
  obtain m where m: "new_manifest key ?b (hexdigest (sha x)) = Inr m"
    using assms(2) by (auto simp: new_manifest_def key_identity_def res_simps)
  have d: "describes sha rs key m ?b" by (rule new_manifest_describes [of rs ?b x key sha m, OF assms(4) x m])
  show ?thesis
    using commit_replacement_stored [OF assms(1) d assms(4), of "latest_download ?b"] assms(3) bars_ok_valid [OF assms(4)] cs m path
    by (auto simp: replace_all_locked_def)
qed

subsection \<open>Appending to what is stored\<close>

definition newer_than :: "market_bar option \<Rightarrow> market_bar list \<Rightarrow> bool" where
  "newer_than previous bars \<longleftrightarrow> (case previous of None \<Rightarrow> True | Some p \<Rightarrow> list_all (\<lambda>b. b_time p < b_time b) bars)"

lemma validated_loop_facts:
  assumes "validated_append_loop expected previous bars = Inr out"
  shows "set out \<subseteq> set bars \<and> sorted_wrt (\<lambda>a b. b_time a < b_time b) out \<and> list_all bar_sane out \<and>
    list_all (\<lambda>b. validate_persisted_bar_semantics b = Inr ()) out \<and> newer_than previous out"
  using assms
proof (induction bars arbitrary: previous out)
  case Nil
  then show ?case by (simp add: newer_than_def split: option.splits)
next
  case (Cons b bs)
  have v: "validate_persisted_bar_semantics b = Inr ()" "validate_bars [market_bar_to_bar b] True = Inr ()"
    using Cons.prems by (auto simp: res_simps split: if_splits)
  then have sane: "bar_sane b"
    using validate_loop_iff [of "{}" None "[market_bar_to_bar b]"] by (simp add: validate_bars_def)
  consider (skip) "validated_append_loop expected previous bs = Inr out"
    | (take) rest where "validated_append_loop expected (Some b) bs = Inr rest" "out = b # rest" "newer_than previous [b]"
    using Cons.prems by (auto simp: res_simps newer_than_def split: if_splits option.splits)
  then show ?case
  proof cases
    case skip
    then show ?thesis using Cons.IH [OF skip] by auto
  next
    case (take rest)
    then show ?thesis using Cons.IH [OF take(1)] v(1) sane
      by (cases previous) (auto simp: newer_than_def list_all_iff)
  qed
qed

lemma extend_tail_total:
  assumes "\<forall>x. length (sha x) = 32" and "encodable rs b"
  shows "\<exists>y. extend_tail_chain sha rs (hexdigest (sha x)) b tail_chain_checksum = Inr (hexdigest (sha y))"
  using assms by (auto simp: extend_tail_chain_def digest_of_def row_bytes_def encodable_def split: sum.splits)

lemma extend_chain_total:
  assumes "\<forall>x. length (sha x) = 32" and "list_all (encodable rs) bars"
  shows "\<exists>y. extend_chain sha rs (hexdigest (sha x)) bars = Inr (hexdigest (sha y))"
  using assms(2)
proof (induction bars arbitrary: x)
  case Nil
  then show ?case by auto
next
  case (Cons b bs)
  obtain y where "extend_tail_chain sha rs (hexdigest (sha x)) b tail_chain_checksum = Inr (hexdigest (sha y))"
    using extend_tail_total [OF assms(1), of rs b x] Cons.prems by auto
  then show ?case using Cons.IH [of y] Cons.prems by simp
qed

lemma extend_tail_digest:
  "extend_tail_chain sha rs c b tail_chain_checksum = Inr d \<Longrightarrow> \<exists>y. d = hexdigest (sha y)"
  by (auto simp: extend_tail_chain_def res_simps split: sum.splits if_splits)

lemma extend_chain_digest:
  "extend_chain sha rs (hexdigest (sha x)) bars = Inr c \<Longrightarrow> \<exists>y. c = hexdigest (sha y)"
proof (induction bars arbitrary: x)
  case Nil
  then show ?case by auto
next
  case (Cons b bs)
  then obtain d where d: "extend_tail_chain sha rs (hexdigest (sha x)) b tail_chain_checksum = Inr d" "extend_chain sha rs d bs = Inr c"
    by (auto simp: res_simps)
  then show ?case using extend_tail_digest [OF d(1)] Cons.IH by blast
qed

lemma describes_append:
  assumes "describes sha rs key m bars" and "extend_chain sha rs (sm_checksum m) new = Inr c" and "new \<noteq> []"
  shows "describes sha rs key (appended_manifest m new c) (bars @ new)"
proof -
  obtain n x where n: "n \<le> length bars" "sm_base_rows_count m = Some (int n)"
    "concatR (map (update_checksum rs) (take n bars)) = Inr x" "sm_base_checksum m = Some (hexdigest (sha x))"
    "extend_chain sha rs (hexdigest (sha x)) (drop n bars) = Inr (sm_checksum m)"
    using assms(1) by (auto simp: describes_def)
  then have "\<exists>n \<le> length (bars @ new). \<exists>x. sm_base_rows_count m = Some (int n) \<and>
     concatR (map (update_checksum rs) (take n (bars @ new))) = Inr x \<and> sm_base_checksum m = Some (hexdigest (sha x)) \<and>
     extend_chain sha rs (hexdigest (sha x)) (drop n (bars @ new)) = Inr c"
    using assms(2) by (intro exI [of _ n] exI [of _ x] conjI) (simp_all add: extend_chain_append)
  then show ?thesis using assms(1,3) by (simp add: describes_def appended_manifest_def)
qed

lemma described_not_legacy: "describes sha rs key m bars \<Longrightarrow> \<not> legacy_manifest m"
  by (auto simp: describes_def legacy_manifest_def)

text \<open>The bars of an append that are not yet stored.\<close>

definition unstored :: "market_bar list \<Rightarrow> market_bar list \<Rightarrow> market_bar list" where
  "unstored bars incoming =
     (case incoming of [] \<Rightarrow> [] | b # later \<Rightarrow> if b_time b = b_time (last bars) then later else incoming)"

definition fits :: "market_bar list \<Rightarrow> market_bar list \<Rightarrow> bool" where
  "fits bars incoming \<longleftrightarrow>
     (case incoming of [] \<Rightarrow> True
      | b # _ \<Rightarrow> b_time (last bars) \<le> b_time b \<and> (b_time b = b_time (last bars) \<longrightarrow> same_canonical_candle b (last bars)))"

lemma append_plan_stored:
  assumes "rs_ok rs" and "bars_ok rs bars" and "bars \<noteq> []" and "holds st (csv_file rs bars) m" and "describes sha rs key m bars"
    and "fits bars incoming" and "extend_chain sha rs (sm_checksum m) (unstored bars incoming) = Inr c"
  shows "append_plan sha rs m incoming st =
    (if unstored bars incoming = [] then Inr (m, [])
     else Inr (appended_manifest m (unstored bars incoming) c,
       append_ops (int (length (csv_file rs bars))) (csv_append_payload rs (unstored bars incoming)) m
         (appended_manifest m (unstored bars incoming) c)
         (max (indexed_downloaded_at m st) (latest_download (unstored bars incoming)))))"
proof -
  obtain f where f: "ss_csv st = Some f" "df_text f = csv_file rs bars" using assms(4) by (auto simp: holds_def)
  have last: "storable (last bars)" "line_ok rs (last bars)"
    using assms(2,3) by (auto simp: bars_ok_def list_all_iff)
  have tail: "read_last_csv_bar rs (csv_file rs bars) = Inr (Some (last bars))"
    using read_last_file [OF assms(1) last, of "butlast bars"] assms(3) by simp
  have m: "sm_data_format m = ''csv''" "sm_end_time m = Some (b_time (last bars))" "\<not> sm_rows_count m \<le> 0"
    using assms(3,5) by (simp_all add: describes_def)
  show ?thesis
  proof (cases incoming)
    case Nil
    then show ?thesis using f m described_not_legacy [OF assms(5)]
      by (simp add: append_plan_def unstored_def Let_def)
  next
    case (Cons b later)
    then show ?thesis using f m tail described_not_legacy [OF assms(5)] assms(6,7)
      by (simp add: append_plan_def unstored_def fits_def Let_def file_size_def)
  qed
qed

end
