(* ===== verification/Samples.thy ===== *)
theory Samples
  imports SegmentStore
begin

section \<open>A sample series\<close>

text \<open>
  Two one-minute bars of one series and a digest function, on which the store's properties are
  instantiated. The conditions those properties ask for are evaluated here once.
\<close>

definition sample_rs :: "revision_state \<Rightarrow> string" where
  "sample_rs m = (case m of ORIGINAL \<Rightarrow> ''original'' | CORRECTED \<Rightarrow> ''corrected'' | REVOKED \<Rightarrow> ''revoked'')"

definition sample_sha :: "byte list \<Rightarrow> byte list" where
  "sample_sha bs = be_bytes 32 (int (length bs))"

definition sample_bar :: "int \<Rightarrow> market_bar" where
  "sample_bar t = market_bar_defaults\<lparr>b_time := t, b_time_close := Some (t + 59999), b_open := f_of_int 7, b_high := f_of_int 8,
     b_low := f_of_int 6, b_close := f_of_int 7, b_volume := f_of_int 1, m_exchange := ''binance'', m_market := ''spot'',
     m_symbol := ''BTCUSDT'', m_timeframe := ''1m'', m_is_closed := Some True, m_provider := ''binance'',
     m_provider_revision := Some ''r1'', m_downloaded_at := Some 5\<rparr>"

definition sample_open :: "int \<Rightarrow> market_bar" where
  "sample_open t = (sample_bar t)\<lparr>m_is_closed := Some False\<rparr>"

definition sample_key :: series_key where
  "sample_key = bar_key (sample_bar 0)"

lemma sample_rs_ok: "rs_ok sample_rs"
  by (simp add: rs_ok_def sample_rs_def)

lemma sample_sha_length: "\<forall>x. length (sample_sha x) = 32"
  by (simp add: sample_sha_def)

lemma sample_time [simp]: "b_time (sample_bar t) = t" "m_downloaded_at (sample_bar t) = Some 5"
  by (simp_all add: sample_bar_def market_bar_defaults_def)

lemma sample_identity: "key_identity sample_key = Inr (''binance'', ''spot'', ''BTCUSDT'', ''1m'', ''trade_kline'')"
  by code_simp

lemma sample_bar_key: "bar_key (sample_bar t) = sample_key"
  by (simp add: sample_key_def bar_key_def sample_bar_def)

lemma sample_storable: "storable (sample_bar 0)" "storable (sample_bar 60000)"
  by code_simp+

lemma sample_open_storable: "storable (sample_open 60000)"
  by code_simp

lemma sample_open_simps [simp]: "b_time (sample_open t) = t" "m_is_closed (sample_open t) = Some False" "bar_key (sample_open t) = sample_key"
  using sample_bar_key [of t] by (simp_all add: sample_open_def bar_key_def)

lemma sample_lines: "one_line (bar_line sample_rs (sample_bar 0))" "one_line (bar_line sample_rs (sample_bar 60000))"
  by code_simp+

lemma sample_lengths: "length (bar_line sample_rs (sample_bar 0)) \<le> 300" "length (bar_line sample_rs (sample_bar 60000)) \<le> 300"
  by code_simp+

lemma sample_encodable: "encodable sample_rs (sample_bar 0)" "encodable sample_rs (sample_bar 60000)"
  by code_simp+

lemma sample_sane: "bar_sane (sample_bar 0)" "bar_sane (sample_bar 60000)"
  by code_simp+

lemma sample_semantics: "validate_persisted_bar_semantics (sample_bar 0) = Inr ()" "validate_persisted_bar_semantics (sample_bar 60000) = Inr ()"
  by code_simp+

lemma sample_bars_ok:
  "bars_ok sample_rs []" "bars_ok sample_rs [sample_bar 0]" "bars_ok sample_rs [sample_bar 60000]" "bars_ok sample_rs [sample_bar 0, sample_bar 60000]"
  using sample_storable sample_lines sample_lengths sample_sane sample_semantics
  by (simp_all add: bars_ok_def line_ok_def)

lemma sample_validated: "validated_append_bars sample_key [sample_bar 60000] = Inr [sample_bar 60000]"
  by code_simp

lemma sample_vacant: "vacant key empty_state"
  by (simp add: vacant_def pending_journal_def empty_state_def)

lemma sample_stored: "\<exists>st. stored sample_sha sample_rs sample_key [sample_bar 0] st"
  using replace_locked_stored [of sample_sha sample_rs sample_key None empty_state _ None "[sample_bar 0]", OF _ sample_identity]
    sample_bars_ok sample_encodable sample_vacant
  by (auto simp: contains_def)

end
