(* ===== verification/SegmentSafety.thy ===== *)
theory SegmentSafety
  imports Samples
begin

section \<open>Safety of the segment store\<close>

text \<open>
  The properties of the store as a whole: what is written is read back, ranges read exactly, appends
  and replacements are atomic under crashes at any point, crashes of the recovery included, and the
  read lock's loop ends. The recovery argument is one locale, interpreted for both journals.
\<close>

subsection \<open>Frames: what an operation leaves alone\<close>

fun writes_replace_journal :: "disk_op \<Rightarrow> bool" where
  "writes_replace_journal (WriteReplaceJournal _) = True"
| "writes_replace_journal UnlinkReplaceJournal = True"
| "writes_replace_journal _ = False"

fun writes_append_journal :: "disk_op \<Rightarrow> bool" where
  "writes_append_journal (WriteAppendJournal _) = True"
| "writes_append_journal UnlinkAppendJournal = True"
| "writes_append_journal _ = False"

fun creates_parquet :: "disk_op \<Rightarrow> bool" where
  "creates_parquet (WriteFile n _) = (n = bars_parquet)"
| "creates_parquet (LinkFile _ n) = (n = bars_parquet)"
| "creates_parquet (MoveFile _ n) = (n = bars_parquet)"
| "creates_parquet _ = False"

lemma run_op_frames:
  "\<not> writes_replace_journal op \<Longrightarrow> ss_replace_journal (run_op op st) = ss_replace_journal st"
  "\<not> writes_append_journal op \<Longrightarrow> ss_append_journal (run_op op st) = ss_append_journal st"
  "\<not> creates_parquet op \<Longrightarrow> ss_files st bars_parquet = None \<Longrightarrow> ss_files (run_op op st) bars_parquet = None"
  by (cases op; simp add: append_text_def split: option.splits)+

lemma crash_frames:
  assumes "crash ops st st'"
  shows "list_all (\<lambda>op. \<not> writes_replace_journal op) ops \<Longrightarrow> ss_replace_journal st' = ss_replace_journal st"
    and "list_all (\<lambda>op. \<not> writes_append_journal op) ops \<Longrightarrow> ss_append_journal st' = ss_append_journal st"
    and "list_all (\<lambda>op. \<not> creates_parquet op) ops \<Longrightarrow> ss_files st bars_parquet = None \<Longrightarrow> ss_files st' bars_parquet = None"
  using assms
  by (induction rule: crash.induct) (auto simp: run_op_frames append_text_def split: option.splits)

lemmas frames_done = crash_frames [OF crash_done]

subsection \<open>Recovery after any number of crashes\<close>

inductive recoveries :: "(series_state \<Rightarrow> disk_op list res) \<Rightarrow> series_state \<Rightarrow> series_state \<Rightarrow> bool" for plan where
  idle: "recoveries plan st st"
| crashed: "plan st = Inr ops \<Longrightarrow> crash ops st st' \<Longrightarrow> recoveries plan st' st'' \<Longrightarrow> recoveries plan st st''"

text \<open>
  The contract of a journalled write: in every pending state the recovery has a plan that settles the
  directory, and a crash of that plan leaves a pending state.
\<close>

locale journaled =
  fixes plan :: "series_state \<Rightarrow> disk_op list res"
    and pending :: "series_state \<Rightarrow> bool"
    and settled :: "series_state \<Rightarrow> bool"
  assumes plan_settles: "pending st \<Longrightarrow> \<exists>ops. plan st = Inr ops \<and> settled (run_ops ops st)"
    and plan_crash: "pending st \<Longrightarrow> plan st = Inr ops \<Longrightarrow> crash ops st st' \<Longrightarrow> pending st'"
begin

lemma recoveries_pending: "recoveries plan st st' \<Longrightarrow> pending st \<Longrightarrow> pending st'"
  by (induction rule: recoveries.induct) (auto intro: plan_crash)

lemma recoveries_settle: "recoveries plan st st' \<Longrightarrow> pending st \<Longrightarrow> \<exists>ops. plan st' = Inr ops \<and> settled (run_ops ops st')"
  using recoveries_pending plan_settles by blast

end

definition append_journal_pending ::
  "string \<Rightarrow> string \<Rightarrow> segment_manifest \<Rightarrow> segment_manifest \<Rightarrow> int \<Rightarrow> series_state \<Rightarrow> bool" where
  "append_journal_pending t p old new d st \<longleftrightarrow>
     append_pending t p old new d st \<and> ss_replace_journal st = None \<and> ss_files st bars_parquet = None"

definition append_settled :: "string \<Rightarrow> string \<Rightarrow> segment_manifest \<Rightarrow> segment_manifest \<Rightarrow> series_state \<Rightarrow> bool" where
  "append_settled t p old new st \<longleftrightarrow>
     (committed_state st t old \<or> committed_state st (t @ p) new) \<and> ss_replace_journal st = None \<and> ss_files st bars_parquet = None"

lemma append_lock_plan:
  assumes "append_journal_pending t p old new d st"
  shows "\<exists>ops. lock_plan key st = Inr ops \<and> recover_append_plan st = Inr ops \<and>
    list_all (\<lambda>op. \<not> writes_replace_journal op) ops \<and> list_all (\<lambda>op. \<not> creates_parquet op) ops"
proof -
  have p: "append_pending t p old new d st" "ss_replace_journal st = None" using assms by (simp_all add: append_journal_pending_def)
  from p(1) show ?thesis
    by (cases rule: recover_append_cases) (use p(2) in \<open>auto simp: lock_plan_def recover_replacement_plan_def\<close>)
qed

interpretation append_lock: journaled "lock_plan key" "append_journal_pending t p old new d" "append_settled t p old new"
  for key t p old new d
proof
  fix st assume a: "append_journal_pending t p old new d st"
  obtain ops where ops: "lock_plan key st = Inr ops" "recover_append_plan st = Inr ops"
    "list_all (\<lambda>op. \<not> writes_replace_journal op) ops" "list_all (\<lambda>op. \<not> creates_parquet op) ops"
    using append_lock_plan [OF a] by blast
  then show "\<exists>ops. lock_plan key st = Inr ops \<and> append_settled t p old new (run_ops ops st)"
    using a recover_append_pending [of t p old new d st] frames_done(1) [OF ops(3), of st] frames_done(3) [OF ops(4), of st]
    by (auto simp: append_journal_pending_def append_settled_def)
next
  fix st st' ops assume a: "append_journal_pending t p old new d st" "lock_plan key st = Inr ops" "crash ops st st'"
  then obtain "recover_append_plan st = Inr ops" "list_all (\<lambda>op. \<not> writes_replace_journal op) ops" "list_all (\<lambda>op. \<not> creates_parquet op) ops"
    using append_lock_plan [OF a(1), of key] by auto
  then show "append_journal_pending t p old new d st'"
    using a(1) recover_append_crash [of t p old new d st ops st'] a(3) crash_frames [OF a(3)]
    by (simp add: append_journal_pending_def)
qed

definition replace_journal_pending ::
  "series_key \<Rightarrow> (string \<times> segment_manifest) option \<Rightarrow> string \<Rightarrow> segment_manifest \<Rightarrow> int \<Rightarrow> int \<Rightarrow> series_state \<Rightarrow> bool" where
  "replace_journal_pending key old w new old_at new_at st \<longleftrightarrow>
     replaceable key (map_option snd old) new \<and> replace_pending old w new old_at new_at st \<and>
     ss_append_journal st = None \<and> ss_files st bars_parquet = None"

definition replace_settled :: "(string \<times> segment_manifest) option \<Rightarrow> string \<Rightarrow> segment_manifest \<Rightarrow> series_state \<Rightarrow> bool" where
  "replace_settled old w new st \<longleftrightarrow>
     (generation_state new old st \<or> generation_state new (Some (w, new)) st) \<and> \<not> pending_journal st \<and>
     ss_files st bars_parquet = None"

lemma recovery_ops_frames:
  "list_all (\<lambda>op. \<not> writes_append_journal op) (forward_ops old new d)" "list_all (\<lambda>op. \<not> creates_parquet op) (forward_ops old new d)"
  "list_all (\<lambda>op. \<not> writes_append_journal op) (back_ops old new d st)" "list_all (\<lambda>op. \<not> creates_parquet op) (back_ops old new d st)"
  by (auto simp: forward_ops_def back_ops_def opt_unlink_def split: option.splits)

lemma replace_lock_plan:
  assumes "replace_journal_pending key old w new old_at new_at st"
  shows "\<exists>ops. lock_plan key st = Inr ops \<and> recover_replacement_plan key st = Inr ops \<and>
    list_all (\<lambda>op. \<not> writes_append_journal op) ops \<and> list_all (\<lambda>op. \<not> creates_parquet op) ops"
proof -
  have p: "replaceable key (map_option snd old) new" "replace_pending old w new old_at new_at st" "ss_append_journal st = None"
    using assms by (simp_all add: replace_journal_pending_def)
  have "\<exists>ops. recover_replacement_plan key st = Inr ops \<and>
    list_all (\<lambda>op. \<not> writes_append_journal op) ops \<and> list_all (\<lambda>op. \<not> creates_parquet op) ops"
    unfolding recover_replace_plan [OF p(1,2)] by (simp add: recovery_ops_frames)
  then obtain ops where ops: "recover_replacement_plan key st = Inr ops"
    "list_all (\<lambda>op. \<not> writes_append_journal op) ops" "list_all (\<lambda>op. \<not> creates_parquet op) ops" by blast
  then show ?thesis
    using p(3) frames_done(2) [OF ops(2), of st] by (auto simp: lock_plan_def recover_append_plan_def)
qed

interpretation replace_lock: journaled "lock_plan key" "replace_journal_pending key old w new old_at new_at" "replace_settled old w new"
  for key old w new old_at new_at
proof
  fix st assume a: "replace_journal_pending key old w new old_at new_at st"
  obtain ops where ops: "lock_plan key st = Inr ops" "recover_replacement_plan key st = Inr ops"
    "list_all (\<lambda>op. \<not> writes_append_journal op) ops" "list_all (\<lambda>op. \<not> creates_parquet op) ops"
    using replace_lock_plan [OF a] by blast
  then show "\<exists>ops. lock_plan key st = Inr ops \<and> replace_settled old w new (run_ops ops st)"
    using a recover_replace_pending [of key old new w old_at new_at st] frames_done(2) [OF ops(3), of st] frames_done(3) [OF ops(4), of st]
    by (auto simp: replace_journal_pending_def replace_settled_def pending_journal_def)
next
  fix st st' ops assume a: "replace_journal_pending key old w new old_at new_at st" "lock_plan key st = Inr ops" "crash ops st st'"
  then obtain "recover_replacement_plan key st = Inr ops" "list_all (\<lambda>op. \<not> writes_append_journal op) ops" "list_all (\<lambda>op. \<not> creates_parquet op) ops"
    using replace_lock_plan [OF a(1)] by auto
  then show "replace_journal_pending key old w new old_at new_at st'"
    using a(1) recover_replace_crash [of key old new w old_at new_at st ops st'] a(3) crash_frames [OF a(3)]
    by (simp add: replace_journal_pending_def)
qed

subsection \<open>Reads\<close>

lemma filter_in_range: "filter (\<lambda>b. in_range None None (b_time b)) bars = bars"
  by (simp add: in_range_def)

text \<open>
  C5. A read of a stored series returns exactly the stored bars of its window: every bar whose open
  time is at least \<open>start\<close> and below \<open>stop\<close>, in order, whatever the bisection of the file finds on its
  way. The read leaves the same series stored.
\<close>

theorem read_range_exact:
  assumes "rs_ok rs" and "stored sha rs key bars st"
  shows "\<exists>st'. read_all sha rs key start stop st = (Inr (filter (\<lambda>b. in_range start stop (b_time b)) bars), st') \<and>
    stored sha rs key bars st'"
  by (rule read_stored [OF assms])

theorem read_range_exact_witness:
  "\<exists>st. stored sample_sha sample_rs sample_key [sample_bar 0] st \<and>
     fst (read_all sample_sha sample_rs sample_key (Some 0) (Some 60000) st) = Inr [sample_bar 0] \<and>
     fst (read_all sample_sha sample_rs sample_key (Some 60000) None st) = Inr []"
proof -
  obtain st where st: "stored sample_sha sample_rs sample_key [sample_bar 0] st" using sample_stored by blast
  show ?thesis
    using read_range_exact [OF sample_rs_ok st, of "Some 0" "Some 60000"] read_range_exact [OF sample_rs_ok st, of "Some 60000" None] st
    by (intro exI [of _ st]) (auto simp: in_range_def)
qed

subsection \<open>Appends\<close>

lemma bars_ok_append:
  assumes "bars_ok rs bars" and "bars \<noteq> []" and "fits bars incoming" and "bars_ok rs incoming"
  shows "bars_ok rs (bars @ unstored bars incoming)"
proof -
  have s: "sorted_wrt (\<lambda>a b. b_time a < b_time b) bars" "sorted_wrt (\<lambda>a b. b_time a < b_time b) incoming"
    using assms(1,4) by (simp_all add: bars_ok_def)
  have sub: "set (unstored bars incoming) \<subseteq> set incoming" "sorted_wrt (\<lambda>a b. b_time a < b_time b) (unstored bars incoming)"
    using s(2) by (auto simp: unstored_def split: list.splits)
  have last: "b_time a \<le> b_time (last bars)" if "a \<in> set bars" for a
    using s(1) assms(2) that by (cases bars rule: rev_cases) (auto simp: sorted_wrt_append)
  have "b_time (last bars) < b_time b" if "b \<in> set (unstored bars incoming)" for b
    using s(2) assms(3) that by (cases incoming) (auto simp: unstored_def fits_def split: if_splits)
  then have "sorted_wrt (\<lambda>a b. b_time a < b_time b) (bars @ unstored bars incoming)"
    using s(1) sub last by (force simp: sorted_wrt_append)
  then show ?thesis using assms(1,4) sub(1) by (auto simp: bars_ok_def list_all_iff)
qed

lemma validated_bars_ok:
  assumes "validated_append_bars key new = Inr incoming" and "list_all storable new" and "list_all (line_ok rs) new"
  shows "bars_ok rs incoming" and "set incoming \<subseteq> set new"
proof -
  obtain expected where "validated_append_loop expected None new = Inr incoming"
    using assms(1) by (auto simp: validated_append_bars_def res_simps)
  from validated_loop_facts [OF this] show "bars_ok rs incoming" and "set incoming \<subseteq> set new"
    using assms(2,3) by (auto simp: bars_ok_def list_all_iff)
qed

text \<open>The hypotheses of an append, and the operations it does.\<close>

definition appendable ::
  "(byte list \<Rightarrow> byte list) \<Rightarrow> (revision_state \<Rightarrow> string) \<Rightarrow> series_key \<Rightarrow> market_bar list \<Rightarrow> market_bar list \<Rightarrow> market_bar list \<Rightarrow> bool" where
  "appendable sha rs key bars new incoming \<longleftrightarrow>
     rs_ok rs \<and> (\<forall>x. length (sha x) = 32) \<and> bars \<noteq> [] \<and> list_all storable new \<and> list_all (line_ok rs) new \<and>
     list_all (encodable rs) new \<and> validated_append_bars key new = Inr incoming \<and> fits bars incoming"

lemma append_run:
  assumes "appendable sha rs key bars new incoming" and "stored sha rs key bars st"
  shows "\<exists>m m' ops d. load_segment_manifest st = Inr (Some m) \<and> append_plan sha rs m incoming st = Inr (m', ops) \<and>
     committed_state st (csv_file rs bars) m \<and> describes sha rs key m bars \<and>
     describes sha rs key m' (bars @ unstored bars incoming) \<and>
     (ops = [] \<and> unstored bars incoming = [] \<and> m' = m \<or>
      ops = append_ops (int (length (csv_file rs bars))) (csv_append_payload rs (unstored bars incoming)) m m' d)"
proof -
  obtain m where m: "holds st (csv_file rs bars) m" "index_agrees st m" "describes sha rs key m bars" "\<not> pending_journal st" "bars_ok rs bars"
    using assms(2) by (auto simp: stored_def)
  have load: "load_segment_manifest st = Inr (Some m)" using m(1) by (simp add: holds_def)
  have "list_all (encodable rs) (unstored bars incoming)"
    using assms(1) validated_bars_ok(2) [of key new incoming rs]
    by (cases incoming) (auto simp: appendable_def list_all_iff unstored_def)
  moreover obtain x where x: "sm_checksum m = hexdigest (sha x)"
    using m(3) unfolding describes_def by (elim conjE exE) (drule extend_chain_digest, blast)
  ultimately obtain c where c: "extend_chain sha rs (sm_checksum m) (unstored bars incoming) = Inr c"
    using extend_chain_total [of sha rs "unstored bars incoming" x] assms(1) by (auto simp: appendable_def)
  have hyps: "rs_ok rs" "bars \<noteq> []" "fits bars incoming" using assms(1) by (simp_all add: appendable_def)
  note plan = append_plan_stored [OF hyps(1) m(5) hyps(2) m(1,3) hyps(3) c]
  have com: "committed_state st (csv_file rs bars) m" using m by (simp add: committed_state_def pending_journal_def)
  show ?thesis
  proof (cases "unstored bars incoming = []")
    case True
    then show ?thesis using plan load com m(3) by auto
  next
    case False
    then show ?thesis using plan load com m(3) describes_append [OF m(3) c False] by auto
  qed
qed

text \<open>A generation of the append's two, with the other facts of a stored series, is stored.\<close>

lemma committed_stored:
  assumes "committed_state st (csv_file rs bars) m" and "describes sha rs key m bars" and "bars_ok rs bars"
    and "ss_replace_journal st = None" and "ss_files st bars_parquet = None"
  shows "stored sha rs key bars st"
  using assms by (auto simp: committed_state_def stored_def pending_journal_def)

lemma append_ops_frames:
  "list_all (\<lambda>op. \<not> writes_replace_journal op) (append_ops n p old new d)" "list_all (\<lambda>op. \<not> creates_parquet op) (append_ops n p old new d)"
  by (simp_all add: append_ops_def)

lemma append_bars_ok:
  assumes "appendable sha rs key bars new incoming" and "stored sha rs key bars st"
  shows "bars_ok rs (bars @ unstored bars incoming)"
  using assms validated_bars_ok(1) [of key new incoming rs]
  by (intro bars_ok_append) (auto simp: appendable_def stored_def)

lemma stored_locked:
  assumes "stored sha rs key bars st"
  shows "series_writer_lock key body st = body st"
  using assms stored_path [OF assms] writer_lock_idle by (metis stored_def)

lemma append_locked_stored:
  assumes "appendable sha rs key bars new incoming" and "stored sha rs key bars st"
  shows "\<exists>m st'. append_locked sha rs key new st = (Inr m, st') \<and> stored sha rs key (bars @ unstored bars incoming) st' \<and>
     sm_rows_count m = int (length (bars @ unstored bars incoming))"
proof -
  obtain m m' ops d where a: "load_segment_manifest st = Inr (Some m)" "append_plan sha rs m incoming st = Inr (m', ops)"
    "committed_state st (csv_file rs bars) m" "describes sha rs key m bars" "describes sha rs key m' (bars @ unstored bars incoming)"
    "ops = [] \<and> unstored bars incoming = [] \<and> m' = m \<or>
     ops = append_ops (int (length (csv_file rs bars))) (csv_append_payload rs (unstored bars incoming)) m m' d"
    using append_run [OF assms] by blast
  have idle: "ss_replace_journal st = None" "ss_files st bars_parquet = None"
    using assms(2) by (simp_all add: stored_def pending_journal_def)
  have "append_locked sha rs key new st = (Inr m', run_ops ops st)"
    using a(1,2) assms(1) by (simp add: append_locked_def appendable_def)
  moreover have "stored sha rs key (bars @ unstored bars incoming) (run_ops ops st)"
  proof (cases "ops = []")
    case True
    with a(6) have "unstored bars incoming = []" by (auto simp: append_ops_def)
    with True assms(2) show ?thesis by simp
  next
    case False
    with a(6) have ops: "ops = append_ops (int (length (csv_file rs bars))) (csv_append_payload rs (unstored bars incoming)) m m' d" by simp
    show ?thesis
      using append_ops_done(1) [OF a(3), of _ "csv_append_payload rs (unstored bars incoming)" m' d] a(5) append_bars_ok [OF assms]
        frames_done(1) [OF append_ops_frames(1)] frames_done(3) [OF append_ops_frames(2)] idle
      unfolding ops csv_file_append by (intro committed_stored) simp_all
  qed
  ultimately show ?thesis using a(5) by (auto simp: describes_def)
qed

text \<open>
  C6. An append of newer bars succeeds and is exact. Bars that validate and start at or after the
  stored tail, agreeing with it where they overlap, are appended: the call returns a manifest, the
  directory then stores the old bars followed by the new ones, and a full read returns them. A
  batch that only repeats the tail changes nothing.
\<close>

theorem append_then_read:
  assumes "appendable sha rs key bars new incoming" and "stored sha rs key bars st"
  shows "\<exists>m st' st''. append_strictly_newer sha rs key new st = (Inr m, st') \<and>
     stored sha rs key (bars @ unstored bars incoming) st' \<and>
     sm_rows_count m = int (length (bars @ unstored bars incoming)) \<and>
     read_all sha rs key None None st' = (Inr (bars @ unstored bars incoming), st'')"
proof -
  obtain m st' where a: "append_locked sha rs key new st = (Inr m, st')" "stored sha rs key (bars @ unstored bars incoming) st'"
    "sm_rows_count m = int (length (bars @ unstored bars incoming))"
    using append_locked_stored [OF assms] by blast
  have "rs_ok rs" using assms(1) by (simp add: appendable_def)
  then show ?thesis
    using a read_stored [OF _ a(2), of None None] by (auto simp: append_strictly_newer_def stored_locked [OF assms(2)] filter_in_range)
qed

lemma sample_appendable: "appendable sample_sha sample_rs sample_key [sample_bar 0] [sample_bar 60000] [sample_bar 60000]"
  using sample_rs_ok sample_sha_length sample_storable sample_lines sample_lengths sample_encodable sample_validated
  by (simp add: appendable_def fits_def line_ok_def)

theorem append_then_read_witness:
  "\<exists>st m st' st''. append_strictly_newer sample_sha sample_rs sample_key [sample_bar 60000] st = (Inr m, st') \<and>
     read_all sample_sha sample_rs sample_key None None st' = (Inr [sample_bar 0, sample_bar 60000], st'')"
proof -
  obtain st where st: "stored sample_sha sample_rs sample_key [sample_bar 0] st" using sample_stored by blast
  have "unstored [sample_bar 0] [sample_bar 60000] = [sample_bar 60000]" by (simp add: unstored_def)
  then show ?thesis using append_then_read [OF sample_appendable st] by auto
qed

lemma writer_lock_plan:
  assumes "lock_plan key st = Inr ops" and "series_path key = Inr path"
  shows "series_writer_lock key body st = body (run_ops ops st)"
  using assms by (auto simp: lock_plan_def series_writer_lock_def run_ops_append res_simps)

text \<open>A read through the lock, of a state whose recovery stores bars, returns those bars.\<close>

lemma read_recovered:
  assumes "rs_ok rs" and "lock_plan key st = Inr ops" and "stored sha rs key bars (run_ops ops st)"
  shows "\<exists>st'. read_all sha rs key start stop st = (Inr (filter (\<lambda>b. in_range start stop (b_time b)) bars), st') \<and> stored sha rs key bars st'"
proof -
  obtain path where path: "series_path key = Inr path" using stored_path [OF assms(3)] by blast
  show ?thesis
    using read_locked_stored [OF assms(1,3), of start stop] path
      writer_lock_plan [OF assms(2) path, of "read_all_locked sha rs start stop"]
    by (simp add: read_all_def series_reader_lock_def)
qed

text \<open>
  C1. An append is atomic under crashes. Stop the append after any of its disk operations, or in
  the middle of the write to the data file; then crash the recovery any number of times, at any
  point. The next read returns the old bars, or the old bars and all the new ones, and leaves that
  series stored; no partial batch, torn row or stale manifest is ever seen.
\<close>

theorem append_crash_atomic:
  assumes "appendable sha rs key bars new incoming" and "stored sha rs key bars st"
    and "load_segment_manifest st = Inr (Some m)" and "append_plan sha rs m incoming st = Inr (m', ops)"
    and "crash ops st st1" and "recoveries (lock_plan key) st1 st2"
  shows "\<exists>bars' st3. (bars' = bars \<or> bars' = bars @ unstored bars incoming) \<and>
     read_all sha rs key None None st2 = (Inr bars', st3) \<and> stored sha rs key bars' st3"
proof -
  obtain d where a: "committed_state st (csv_file rs bars) m" "describes sha rs key m bars" "describes sha rs key m' (bars @ unstored bars incoming)"
    "ops = [] \<and> unstored bars incoming = [] \<and> m' = m \<or>
     ops = append_ops (int (length (csv_file rs bars))) (csv_append_payload rs (unstored bars incoming)) m m' d"
    using append_run [OF assms(1,2)] assms(3,4) by auto
  let ?p = "csv_append_payload rs (unstored bars incoming)"
  have idle: "ss_replace_journal st = None" "ss_files st bars_parquet = None"
    using assms(2) by (simp_all add: stored_def pending_journal_def)
  have "append_journal_pending (csv_file rs bars) ?p m m' d st1"
  proof (cases "ops = []")
    case True
    then have "st1 = st" using assms(5) by (auto elim: crash_NilE)
    then show ?thesis using a(1) idle by (simp add: append_journal_pending_def append_pending_def)
  next
    case False
    with a(4) have ops: "ops = append_ops (int (length (csv_file rs bars))) ?p m m' d" by simp
    have c: "crash (append_ops (int (length (csv_file rs bars))) ?p m m' d) st st1" using assms(5) ops by simp
    show ?thesis
      using append_crash_pending [OF c a(1)] crash_frames(1) [OF c append_ops_frames(1)] crash_frames(3) [OF c append_ops_frames(2)] idle
      by (simp add: append_journal_pending_def)
  qed
  then obtain rec where r: "lock_plan key st2 = Inr rec" "append_settled (csv_file rs bars) ?p m m' (run_ops rec st2)"
    using append_lock.recoveries_settle [OF assms(6)] by blast
  have ok: "bars_ok rs bars" "bars_ok rs (bars @ unstored bars incoming)" "rs_ok rs"
    using assms(1,2) append_bars_ok [OF assms(1,2)] by (simp_all add: stored_def appendable_def)
  from r(2) have "stored sha rs key bars (run_ops rec st2) \<or> stored sha rs key (bars @ unstored bars incoming) (run_ops rec st2)"
    using committed_stored a(2,3) ok unfolding append_settled_def csv_file_append by blast
  then show ?thesis using read_recovered [OF ok(3) r(1), of sha _ None None] unfolding filter_in_range by blast
qed

theorem append_crash_atomic_witness:
  "\<exists>st m m' ops st1 bars' st3. append_plan sample_sha sample_rs m [sample_bar 60000] st = Inr (m', ops) \<and>
     crash ops st st1 \<and> pending_journal st1 \<and>
     (bars' = [sample_bar 0] \<or> bars' = [sample_bar 0, sample_bar 60000]) \<and>
     read_all sample_sha sample_rs sample_key None None st1 = (Inr bars', st3)"
proof -
  obtain st where st: "stored sample_sha sample_rs sample_key [sample_bar 0] st" using sample_stored by blast
  have u: "unstored [sample_bar 0] [sample_bar 60000] = [sample_bar 60000]" by (simp add: unstored_def)
  obtain m m' ops d where a: "load_segment_manifest st = Inr (Some m)" "append_plan sample_sha sample_rs m [sample_bar 60000] st = Inr (m', ops)"
    "ops = append_ops (int (length (csv_file sample_rs [sample_bar 0]))) (csv_append_payload sample_rs [sample_bar 60000]) m m' d"
    using append_run [OF sample_appendable st] u by auto
  obtain j where j: "hd ops = WriteAppendJournal j" "ops = WriteAppendJournal j # tl ops" by (simp add: a(3) append_ops_def)
  have c: "crash ops st (st\<lparr>ss_append_journal := Some j\<rparr>)"
    by (subst j(2)) (rule crash.step, simp add: crash.stop)
  have "pending_journal (st\<lparr>ss_append_journal := Some j\<rparr>)" by (simp add: pending_journal_def)
  then show ?thesis
    using append_crash_atomic [OF sample_appendable st a(1,2) c recoveries.idle] a(2) c unfolding u append_Cons append_Nil by blast
qed

text \<open>
  An append that does not fit is refused without a trace: a batch that starts before the stored
  tail, or whose first bar differs from the tail at its time, raises the cache conflict, and the
  stored series and its files are unchanged.
\<close>

theorem append_conflict_refused:
  assumes "rs_ok rs" and "stored sha rs key bars st" and "bars \<noteq> []"
    and "validated_append_bars key new = Inr (b # later)" and "\<not> fits bars (b # later)"
  shows "\<exists>msg. append_strictly_newer sha rs key new st = (Inl (MDCacheConflict msg), st)"
proof -
  obtain m where m: "holds st (csv_file rs bars) m" "describes sha rs key m bars" "bars_ok rs bars"
    using assms(2) by (auto simp: stored_def)
  have last: "storable (last bars)" "line_ok rs (last bars)" using m(3) assms(3) by (auto simp: bars_ok_def list_all_iff)
  have tail: "read_last_csv_bar rs (csv_file rs bars) = Inr (Some (last bars))"
    using read_last_file [OF assms(1) last, of "butlast bars"] assms(3) by simp
  have f: "sm_data_format m = ''csv''" "sm_end_time m = Some (b_time (last bars))" "\<not> sm_rows_count m \<le> 0"
    using m(2) assms(3) by (simp_all add: describes_def)
  obtain g where g: "ss_csv st = Some g" "df_text g = csv_file rs bars" using m(1) by (auto simp: holds_def)
  have "\<exists>msg. append_plan sha rs m (b # later) st = Inl (MDCacheConflict msg)"
    using assms(5) tail f g described_not_legacy [OF m(2)] by (auto simp: append_plan_def fits_def Let_def)
  moreover obtain path where "series_path key = Inr path" using stored_path [OF assms(2)] by blast
  moreover have "\<not> pending_journal st" "load_segment_manifest st = Inr (Some m)"
    using assms(2) m(1) by (simp_all add: stored_def holds_def)
  ultimately show ?thesis using assms(4) by (auto simp: append_strictly_newer_def append_locked_def writer_lock_idle)
qed

theorem append_conflict_refused_witness:
  "\<exists>st msg. stored sample_sha sample_rs sample_key [sample_bar 60000] st \<and>
     append_strictly_newer sample_sha sample_rs sample_key [sample_bar 0] st = (Inl (MDCacheConflict msg), st)"
proof -
  obtain st where st: "stored sample_sha sample_rs sample_key [sample_bar 60000] st"
    using replace_locked_stored [of sample_sha sample_rs sample_key None empty_state _ None "[sample_bar 60000]", OF _ sample_identity]
      sample_bars_ok sample_encodable sample_vacant by (auto simp: contains_def)
  have "validated_append_bars sample_key [sample_bar 0] = Inr [sample_bar 0]" by code_simp
  moreover have "\<not> fits [sample_bar 60000] [sample_bar 0]" by (simp add: fits_def)
  ultimately show ?thesis using append_conflict_refused [OF sample_rs_ok st, of "[sample_bar 0]" "sample_bar 0" "[]"] st by auto
qed

subsection \<open>Replacements\<close>

lemma contains_idle: "contains sha rs key c st \<Longrightarrow> \<not> pending_journal st"
  by (auto simp: contains_def vacant_def stored_def split: option.splits)

definition content :: "market_bar list option \<Rightarrow> market_bar list" where
  "content c = (case c of None \<Rightarrow> [] | Some bars \<Rightarrow> bars)"

lemma read_locked_contains:
  assumes "rs_ok rs" and "contains sha rs key c st"
  shows "\<exists>st'. read_all_locked sha rs None None st = (Inr (content c), st') \<and> contains sha rs key c st'"
proof (cases c)
  case None
  then show ?thesis using assms(2) by (simp add: contains_def vacant_def read_all_locked_def open_segment_def content_def)
next
  case (Some bars)
  then show ?thesis using read_locked_stored [OF assms(1), of sha key bars st None None] assms(2)
    by (simp add: contains_def content_def filter_in_range)
qed

text \<open>
  C8. A replacement succeeds and is exact, whatever the directory held before: given bars that
  can be stored, in any order, the call returns, the directory stores them sorted by time, and a
  full read returns them.
\<close>

theorem replace_then_read:
  assumes "rs_ok rs" and "contains sha rs key c st" and "key_identity key = Inr i" and "fmt \<noteq> Some ''parquet''"
    and "bars_ok rs (sort_key b_time bars)" and "list_all (encodable rs) bars"
  shows "\<exists>m st' st''. replace_all sha rs key fmt bars st = (Inr m, st') \<and> stored sha rs key (sort_key b_time bars) st' \<and>
     read_all sha rs key None None st' = (Inr (sort_key b_time bars), st'')"
proof -
  obtain path where path: "series_path key = Inr path" using described_path [OF assms(3)] by blast
  obtain m st' where r: "replace_all_locked sha rs key fmt bars st = (Inr m, st')" "stored sha rs key (sort_key b_time bars) st'"
    using replace_locked_stored [OF assms(2-6)] by blast
  then show ?thesis
    using writer_lock_idle [OF contains_idle [OF assms(2)] path, of "replace_all_locked sha rs key fmt bars"]
      read_stored [OF assms(1) r(2), of None None]
    by (auto simp: replace_all_def filter_in_range)
qed

theorem replace_then_read_witness:
  "\<exists>m st' st''. replace_all sample_sha sample_rs sample_key None [sample_bar 60000, sample_bar 0] empty_state = (Inr m, st') \<and>
     read_all sample_sha sample_rs sample_key None None st' = (Inr [sample_bar 0, sample_bar 60000], st'')"
proof -
  have s: "sort_key b_time [sample_bar 60000, sample_bar 0] = [sample_bar 0, sample_bar 60000]" by simp
  have "contains sample_sha sample_rs sample_key None empty_state" using sample_vacant by (simp add: contains_def)
  from replace_then_read [OF sample_rs_ok this sample_identity, of None "[sample_bar 60000, sample_bar 0]"] show ?thesis
    unfolding s using sample_bars_ok(4) sample_encodable by auto
qed

lemma replace_ops_frames:
  "list_all (\<lambda>op. \<not> writes_append_journal op) (replace_ops old w new a b)" "list_all (\<lambda>op. \<not> creates_parquet op) (replace_ops old w new a b)"
  by (auto simp: replace_ops_def commit_ops_def opt_unlink_def backup_name_def split: option.splits)

lemma settled_contains:
  assumes "replace_settled old (csv_file rs bars) new st" and "starts_from sha rs key c new old st0"
    and "describes sha rs key new bars" and "bars_ok rs bars" and "\<And>bs. c = Some bs \<Longrightarrow> bars_ok rs bs"
  shows "contains sha rs key c st \<or> contains sha rs key (Some bars) st"
proof -
  have s: "\<not> pending_journal st" "ss_files st bars_parquet = None" using assms(1) by (simp_all add: replace_settled_def)
  from assms(1) consider "generation_state new old st" | "generation_state new (Some (csv_file rs bars, new)) st"
    by (auto simp: replace_settled_def)
  then show ?thesis
  proof cases
    case 1
    show ?thesis
    proof (cases c)
      case None
      then have "old = None" using assms(2) by (simp add: starts_from_def)
      then have "ss_manifest st = None" "ss_csv st = None" "filter (same_series new) (ss_index st) = []"
        using 1 by (simp_all add: generation_state_def)
      then have "vacant key st" using s assms(3)
        by (auto simp: vacant_def describes_def filter_empty_conv same_series_def)
      then show ?thesis using None by (simp add: contains_def)
    next
      case (Some bs)
      then obtain m where "old = Some (csv_file rs bs, m)" "describes sha rs key m bs" using assms(2) by (auto simp: starts_from_def)
      then show ?thesis using generation_stored [of new rs bs m st sha key] 1 s assms(5) Some by (simp add: contains_def)
    qed
  next
    case 2
    then show ?thesis using generation_stored [OF 2 assms(3,4) s] by (simp add: contains_def)
  qed
qed

text \<open>
  C2. A replacement is atomic under crashes. Stop it after any of its disk operations and crash the
  recovery any number of times; the next read returns the previous content of the directory (nothing,
  where there was nothing) or exactly the new bars, and the directory is again one of the two.
\<close>

theorem replace_crash_atomic:
  assumes "rs_ok rs" and "contains sha rs key c st" and "describes sha rs key new bars" and "bars_ok rs bars"
    and "load_segment_manifest st = Inr old" and "begin_plan key old new d st = Inr (j, ops)" and "finish_plan key j = Inr fin"
    and "crash (ops @ commit_ops (csv_file rs bars) new d @ fin) st st1" and "recoveries (lock_plan key) st1 st2"
  shows "\<exists>c' st3. (c' = c \<or> c' = Some bars) \<and> read_all sha rs key None None st2 = (Inr (content c'), st3) \<and>
     contains sha rs key c' st3"
proof -
  obtain g where g: "starts_from sha rs key c new g st" using contains_generation [OF assms(2,3)] ..
  then have s: "old = map_option snd g" "replaceable key old new" "ss_replace_journal st = None" "generation_state new g st"
    "old \<noteq> None \<Longrightarrow> ss_csv st \<noteq> None" using assms(5) by (auto simp: starts_from_def)
  let ?at = "case old of None \<Rightarrow> 0 | Some m \<Rightarrow> indexed_downloaded_at m st"
  have total: "ops @ commit_ops (csv_file rs bars) new d @ fin = replace_ops old (csv_file rs bars) new ?at d"
    using assms(6,7) begin_csv_plan [OF s(2,3,5)] finish_csv_plan [OF s(2)] by (auto simp: Let_def replace_ops_def)
  have other: "ss_append_journal st = None" "ss_files st bars_parquet = None"
    using assms(2) by (auto simp: contains_def vacant_def stored_def pending_journal_def split: option.splits)
  have c: "crash (replace_ops (map_option snd g) (csv_file rs bars) new ?at d) st st1" using assms(8) total s(1) by simp
  have "replace_journal_pending key g (csv_file rs bars) new ?at d st1"
    using replace_crash_pending [OF c s(3,4)] crash_frames(2) [OF c replace_ops_frames(1)] crash_frames(3) [OF c replace_ops_frames(2)] other s(1,2)
    by (simp add: replace_journal_pending_def)
  then obtain rec where r: "lock_plan key st2 = Inr rec" "replace_settled g (csv_file rs bars) new (run_ops rec st2)"
    using replace_lock.recoveries_settle [OF assms(9)] by blast
  have "bars_ok rs bs" if "c = Some bs" for bs using assms(2) that by (simp add: contains_def stored_def)
  then obtain c' where c': "c' = c \<or> c' = Some bars" "contains sha rs key c' (run_ops rec st2)"
    using settled_contains [OF r(2) g assms(3,4)] by blast
  obtain path where path: "series_path key = Inr path" using s(2) by (auto simp: replaceable_def)
  show ?thesis
    using read_locked_contains [OF assms(1) c'(2)] c'(1) path writer_lock_plan [OF r(1) path, of "read_all_locked sha rs None None"]
    by (auto simp: read_all_def series_reader_lock_def)
qed

theorem replace_crash_atomic_witness:
  "\<exists>new j ops fin st1 c' st3. begin_plan sample_key None new 5 empty_state = Inr (j, ops) \<and> finish_plan sample_key j = Inr fin \<and>
     crash (ops @ commit_ops (csv_file sample_rs [sample_bar 0]) new 5 @ fin) empty_state st1 \<and> pending_journal st1 \<and>
     (c' = None \<or> c' = Some [sample_bar 0]) \<and>
     read_all sample_sha sample_rs sample_key None None st1 = (Inr (content c'), st3)"
proof -
  obtain x where x: "concatR (map (update_checksum sample_rs) [sample_bar 0]) = Inr x"
    using encodable_concat [of sample_rs "[sample_bar 0]"] sample_encodable by auto
  obtain new where new: "new_manifest sample_key [sample_bar 0] (hexdigest (sample_sha x)) = Inr new"
    using sample_identity by (auto simp: new_manifest_def key_identity_def res_simps)
  have d: "describes sample_sha sample_rs sample_key new [sample_bar 0]"
    by (rule new_manifest_describes [where sha = sample_sha, OF sample_bars_ok(2) x new])
  have c: "contains sample_sha sample_rs sample_key None empty_state" using sample_vacant by (simp add: contains_def)
  obtain g where "starts_from sample_sha sample_rs sample_key None new g empty_state" using contains_generation [OF c d] ..
  then have r: "replaceable sample_key None new" by (auto simp: starts_from_def)
  let ?j = "csv_journal None new 0 5"
  have b: "begin_plan sample_key None new 5 empty_state = Inr (?j, [WriteReplaceJournal ?j])"
    using begin_csv_plan [OF r, of empty_state 5] by (simp add: empty_state_def Let_def)
  obtain fin where f: "finish_plan sample_key ?j = Inr fin" using finish_csv_plan [OF r] by blast
  have k: "crash ([WriteReplaceJournal ?j] @ commit_ops (csv_file sample_rs [sample_bar 0]) new 5 @ fin) empty_state
      (empty_state\<lparr>ss_replace_journal := Some ?j\<rparr>)"
    unfolding append_Cons append_Nil by (rule crash.step) (simp add: crash.stop)
  have l: "load_segment_manifest empty_state = Inr None" by (simp add: load_segment_manifest_def empty_state_def)
  have "pending_journal (empty_state\<lparr>ss_replace_journal := Some ?j\<rparr>)" by (simp add: pending_journal_def)
  then show ?thesis
    using replace_crash_atomic [OF sample_rs_ok c d sample_bars_ok(2) l b f k recoveries.idle] b f k by blast
qed

subsection \<open>Upserts and compaction\<close>

lemma dict_of_sorted:
  assumes "sorted_wrt (\<lambda>a b. b_time a < b_time b) bars"
  shows "dict_of b_time bars = map (\<lambda>b. (b_time b, b)) bars"
  using assms
proof (induction bars rule: rev_induct)
  case Nil
  show ?case by (simp add: dict_of_def)
next
  case (snoc b bs)
  have "b_time b \<notin> fst ` set (map (\<lambda>b. (b_time b, b)) bs)" using snoc.prems by (auto simp: sorted_wrt_append)
  then have "AList.update (b_time b) b (map (\<lambda>b. (b_time b, b)) bs) = map (\<lambda>b. (b_time b, b)) bs @ [(b_time b, b)]"
    by (rule update_nonexist)
  then show ?case using snoc by (simp add: dict_of_def sorted_wrt_append)
qed

lemma concatR_encodable: "concatR (map (update_checksum rs) bars) = Inr x \<Longrightarrow> list_all (encodable rs) bars"
  by (induction bars arbitrary: x) (auto simp: encodable_def res_simps)

lemma extend_chain_encodable: "extend_chain sha rs c bars = Inr d \<Longrightarrow> list_all (encodable rs) bars"
proof (induction bars arbitrary: c)
  case Nil
  show ?case by simp
next
  case (Cons b bs)
  then obtain e where e: "extend_tail_chain sha rs c b tail_chain_checksum = Inr e" "extend_chain sha rs e bs = Inr d"
    by (auto simp: res_simps)
  from e(1) have "encodable rs b"
    by (auto simp: extend_tail_chain_def digest_of_def row_bytes_def encodable_def res_simps split: sum.splits if_splits)
  with Cons.IH [OF e(2)] show ?case by simp
qed

lemma describes_encodable: "describes sha rs key m bars \<Longrightarrow> list_all (encodable rs) bars"
proof -
  assume "describes sha rs key m bars"
  then obtain n x y where "concatR (map (update_checksum rs) (take n bars)) = Inr x" "extend_chain sha rs y (drop n bars) = Inr (sm_checksum m)"
    by (auto simp: describes_def)
  then have "list_all (encodable rs) (take n bars @ drop n bars)"
    using concatR_encodable extend_chain_encodable by (metis list_all_append)
  then show ?thesis by simp
qed

lemma stored_encodable: "stored sha rs key bars st \<Longrightarrow> list_all (encodable rs) bars"
  by (auto simp: stored_def dest: describes_encodable)

lemma stored_identity: "stored sha rs key bars st \<Longrightarrow> \<exists>i. key_identity key = Inr i"
  by (auto simp: stored_def describes_def)

text \<open>
  Compaction loses nothing: on a stored series it returns, and the same bars are stored afterwards.
\<close>

theorem compact_keeps:
  assumes "rs_ok rs" and "stored sha rs key bars st" and "fmt \<noteq> Some ''parquet''"
  shows "\<exists>m st'. compact sha rs key fmt st = (Inr m, st') \<and> stored sha rs key bars st'"
proof -
  obtain st1 where r: "read_all_locked sha rs None None st = (Inr bars, st1)" "stored sha rs key bars st1"
    using read_locked_stored [OF assms(1,2), of None None] by (auto simp: filter_in_range)
  obtain i where i: "key_identity key = Inr i" using stored_identity [OF assms(2)] by blast
  have ok: "bars_ok rs bars" using assms(2) by (simp add: stored_def)
  have "\<exists>m st'. replace_all_locked sha rs key fmt bars st1 = (Inr m, st') \<and> stored sha rs key (sort_key b_time bars) st'"
    using r(2) i assms(3) ok stored_encodable [OF assms(2)]
    by (intro replace_locked_stored [of sha rs key "Some bars" st1]) (simp_all add: contains_def sorted_bars)
  then show ?thesis using r(1) by (simp add: compact_def stored_locked [OF assms(2)] sorted_bars [OF ok])
qed

theorem compact_keeps_witness:
  "\<exists>st m st'. compact sample_sha sample_rs sample_key None st = (Inr m, st') \<and> stored sample_sha sample_rs sample_key [sample_bar 0] st'"
proof -
  obtain st where st: "stored sample_sha sample_rs sample_key [sample_bar 0] st" using sample_stored by blast
  show ?thesis using compact_keeps [OF sample_rs_ok st, of None] by auto
qed

lemma find_by_time:
  assumes "bars_ok rs bars"
  shows "map_of (dict_of b_time bars) t = find (\<lambda>c. b_time c = t) bars"
proof -
  have "map_of (map (\<lambda>b. (b_time b, b)) xs) t = find (\<lambda>c. b_time c = t) xs" for xs :: "market_bar list"
    by (induction xs) auto
  then show ?thesis using assms by (simp add: dict_of_sorted bars_ok_def)
qed

lemma find_unique:
  assumes "bars_ok rs bars" and "c \<in> set bars"
  shows "find (\<lambda>b. b_time b = b_time c) bars = Some c"
proof -
  have "sorted_wrt (\<lambda>a b. b_time a < b_time b) bars" using assms(1) by (simp add: bars_ok_def)
  with assms(2) show ?thesis by (induction bars) auto
qed

lemma stored_ok: "stored sha rs key bars st \<Longrightarrow> bars_ok rs bars"
  by (simp add: stored_def)

lemma bars_ok_Nil [simp]: "bars_ok rs []"
  by (simp add: bars_ok_def)

lemma upsert_locked_new:
  assumes "rs_ok rs" and "contains sha rs (bar_key b) c st" and "key_identity (bar_key b) = Inr i" and "encodable rs b"
    and "find (\<lambda>c. b_time c = b_time b) (content c) = None" and "bars_ok rs (sort_key b_time (content c @ [b]))"
  shows "\<exists>m st'. upsert_closed_locked sha rs b st = (Inr m, st') \<and> stored sha rs (bar_key b) (sort_key b_time (content c @ [b])) st'"
proof -
  obtain st1 where r: "read_all_locked sha rs None None st = (Inr (content c), st1)" "contains sha rs (bar_key b) c st1"
    using read_locked_contains [OF assms(1,2)] by blast
  have ok: "bars_ok rs (content c)" "list_all (encodable rs) (content c)"
    using assms(2) stored_encodable by (auto simp: contains_def content_def stored_ok split: option.splits)
  note get = find_by_time [OF ok(1), of "b_time b"]
  have "b_time b \<notin> fst ` set (dict_of b_time (content c))" using assms(5) get by (metis map_of_eq_None_iff)
  then have "map snd (AList.update (b_time b) b (dict_of b_time (content c))) = content c @ [b]"
    using ok(1) by (simp add: update_nonexist dict_of_sorted bars_ok_def o_def)
  moreover have "\<exists>m st'. replace_all_locked sha rs (bar_key b) None (content c @ [b]) st1 = (Inr m, st') \<and>
      stored sha rs (bar_key b) (sort_key b_time (content c @ [b])) st'"
    using r(2) assms(3,4,6) ok(2) by (intro replace_locked_stored) simp_all
  ultimately show ?thesis using r(1) get assms(5) by (simp add: upsert_closed_locked_def Let_def)
qed

lemma encodable_checksum: "encodable rs b \<Longrightarrow> \<exists>x. market_bar_checksum sha rs b = Inr x"
  by (auto simp: market_bar_checksum_def bars_checksum_def digest_of_def encodable_def split: sum.splits)

lemma stored_checksum:
  assumes "stored sha rs key bars st" and "find P bars = Some c"
  shows "\<exists>x. market_bar_checksum sha rs c = Inr x"
  using encodable_checksum stored_encodable [OF assms(1)] assms(2) by (auto simp: find_Some_iff list_all_iff)

text \<open>
  C23. A closed candle is never overwritten by a different one. Upserting a bar at a new time stores it
  in its place among the others; upserting over a stored bar with another digest raises the cache
  conflict and the stored bars are as before.
\<close>

theorem upsert_closed_exact:
  assumes "rs_ok rs" and "stored sha rs (bar_key b) bars st" and "encodable rs b"
  shows "(find (\<lambda>c. b_time c = b_time b) bars = None \<and> bars_ok rs (sort_key b_time (bars @ [b])) \<longrightarrow>
           (\<exists>m st'. upsert_closed sha rs b st = (Inr m, st') \<and> stored sha rs (bar_key b) (sort_key b_time (bars @ [b])) st')) \<and>
         (\<forall>c. find (\<lambda>c. b_time c = b_time b) bars = Some c \<and> market_bar_checksum sha rs c \<noteq> market_bar_checksum sha rs b \<longrightarrow>
           (\<exists>st'. upsert_closed sha rs b st = (Inl (MDCacheConflict ''Conflicting closed candle''), st') \<and>
                  stored sha rs (bar_key b) bars st'))"
proof -
  obtain st1 where r: "read_all_locked sha rs None None st = (Inr bars, st1)" "stored sha rs (bar_key b) bars st1"
    using read_locked_stored [OF assms(1,2), of None None] by (auto simp: filter_in_range)
  have ok: "bars_ok rs bars" using assms(2) by (simp add: stored_def)
  obtain i where i: "key_identity (bar_key b) = Inr i" using stored_identity [OF assms(2)] by blast
  have "\<exists>m st'. upsert_closed sha rs b st = (Inr m, st') \<and> stored sha rs (bar_key b) (sort_key b_time (bars @ [b])) st'"
    if "find (\<lambda>c. b_time c = b_time b) bars = None" "bars_ok rs (sort_key b_time (bars @ [b]))"
    using upsert_locked_new [OF assms(1) _ i assms(3), of sha "Some bars" st] that assms(2)
    by (simp add: contains_def content_def upsert_closed_def stored_locked [OF assms(2)])
  moreover have "\<exists>st'. upsert_closed sha rs b st = (Inl (MDCacheConflict ''Conflicting closed candle''), st') \<and> stored sha rs (bar_key b) bars st'"
    if find: "find (\<lambda>c. b_time c = b_time b) bars = Some c" and differ: "market_bar_checksum sha rs c \<noteq> market_bar_checksum sha rs b" for c
  proof -
    obtain x y where "market_bar_checksum sha rs c = Inr x" "market_bar_checksum sha rs b = Inr y"
      using stored_checksum [OF assms(2) find] encodable_checksum [OF assms(3)] by blast
    then show ?thesis using r find_by_time [OF ok, of "b_time b"] find differ
      by (simp add: upsert_closed_def upsert_closed_locked_def stored_locked [OF assms(2)] Let_def)
  qed
  ultimately show ?thesis by blast
qed

theorem upsert_closed_exact_witness:
  "\<exists>st m st'. stored sample_sha sample_rs sample_key [sample_bar 0] st \<and>
     upsert_closed sample_sha sample_rs (sample_bar 60000) st = (Inr m, st') \<and>
     stored sample_sha sample_rs sample_key [sample_bar 0, sample_bar 60000] st'"
proof -
  obtain st where st: "stored sample_sha sample_rs (bar_key (sample_bar 60000)) [sample_bar 0] st"
    using sample_stored sample_bar_key by auto
  have "find (\<lambda>c. b_time c = b_time (sample_bar 60000)) [sample_bar 0] = None"
    "sort_key b_time ([sample_bar 0] @ [sample_bar 60000]) = [sample_bar 0, sample_bar 60000]" by simp_all
  then show ?thesis
    using upsert_closed_exact [OF sample_rs_ok st sample_encodable(2)] sample_bars_ok(4) st sample_bar_key by (metis (no_types, lifting))
qed

subsection \<open>The streaming writer\<close>

lemma stream_rows_concat:
  assumes "bars_ok rs bars" and "case previous of None \<Rightarrow> True | Some t \<Rightarrow> list_all (\<lambda>b. t < b_time b) bars"
  shows "stream_rows rs previous bars = concatR (map (update_checksum rs) bars)"
  using assms
proof (induction bars arbitrary: previous)
  case Nil
  show ?case by simp
next
  case (Cons b bs)
  have ok: "bars_ok rs bs" "bars_ok rs [b]" using Cons.prems(1) by (simp_all add: bars_ok_def)
  have "list_all (\<lambda>c. b_time b < b_time c) bs" using Cons.prems(1) by (simp add: bars_ok_def list_all_iff)
  then have "stream_rows rs (Some (b_time b)) bs = concatR (map (update_checksum rs) bs)" using Cons.IH [OF ok(1)] by simp
  moreover have "validate_bars [market_bar_to_bar b] True = Inr ()" using bars_ok_valid [OF ok(2)] by simp
  ultimately show ?case using Cons.prems(2) by (auto split: option.splits)
qed

lemma stream_download_latest:
  assumes "bars_ok rs bars"
  shows "stream_download bars = latest_download bars"
proof (cases bars)
  case Nil
  then show ?thesis by (simp add: stream_download_def latest_download_def)
next
  case (Cons b bs)
  have "validate_persisted_bar_semantics b = Inr ()" using assms Cons by (simp add: bars_ok_def)
  then have "0 \<le> int_default (m_downloaded_at b) 0"
    by (auto simp: validate_persisted_bar_semantics_def int_default_def Let_def split: option.splits if_splits)
  then show ?thesis using Cons by (simp add: stream_download_def latest_download_def)
qed

text \<open>
  C36. The streaming writer is equivalent to the list writer: for bars in order that can be stored, in
  every state of the directory, both return the same manifest or error and leave the same state.
\<close>

theorem stream_equals_replace:
  assumes "bars_ok rs bars"
  shows "replace_all_stream sha rs key bars st = replace_all sha rs key None bars st"
proof -
  have s: "sort_key b_time bars = bars" by (rule sorted_bars [OF assms])
  have r: "stream_rows rs None bars = concatR (map (update_checksum rs) bars)" using stream_rows_concat [OF assms, of None] by simp
  have "bindR (stream_rows rs None bars) (\<lambda>xs. new_manifest key bars (hexdigest (sha xs))) = bindR (bars_checksum sha rs bars) (new_manifest key bars)"
    by (simp add: r bars_checksum_def digest_of_def s bindR_assoc)
  then have "replace_all_stream sha rs key bars st = series_writer_lock key (\<lambda>st.
     case bindR (bars_checksum sha rs bars) (new_manifest key bars) of
       Inl e \<Rightarrow> (Inl e, st)
     | Inr new \<Rightarrow> commit_replacement key new (csv_file rs bars) (latest_download bars) st) st"
    unfolding replace_all_stream_def stream_download_latest [OF assms] by simp
  then show ?thesis
    using bars_ok_valid [OF assms]
    by (auto simp: replace_all_def replace_all_locked_def s series_writer_lock_def Let_def split: sum.splits)
qed

theorem stream_equals_replace_witness:
  "replace_all_stream sample_sha sample_rs sample_key [sample_bar 0, sample_bar 60000] empty_state =
   replace_all sample_sha sample_rs sample_key None [sample_bar 0, sample_bar 60000] empty_state"
  by (rule stream_equals_replace [OF sample_bars_ok(4)])

subsection \<open>The read lock's loop\<close>

lemma replacement_plan_clears: "recover_replacement_plan key st = Inr ops \<Longrightarrow> ss_replace_journal (run_ops ops st) = None"
proof -
  assume a: "recover_replacement_plan key st = Inr ops"
  show ?thesis
  proof (cases "ss_replace_journal st")
    case None
    with a show ?thesis by (simp add: recover_replacement_plan_def)
  next
    case (Some j)
    then have "\<exists>xs. ops = xs @ [UnlinkReplaceJournal]"
      using a by (auto simp: recover_replacement_plan_def rollback_plan_def finish_plan_def res_simps Let_def
          split: if_splits option.splits)
    then show ?thesis by (auto simp: run_ops_append)
  qed
qed

lemma append_plan_clears:
  assumes "recover_append_plan st = Inr ops"
  shows "ss_append_journal (run_ops ops st) = None" and "ss_replace_journal (run_ops ops st) = ss_replace_journal st"
proof -
  have "list_all (\<lambda>op. \<not> writes_replace_journal op) ops \<and> (ops = [] \<and> ss_append_journal st = None \<or> (\<exists>xs. ops = xs @ [UnlinkAppendJournal]))"
    using assms by (auto simp: recover_append_plan_def res_simps split: if_splits option.splits)
  then show "ss_append_journal (run_ops ops st) = None" and "ss_replace_journal (run_ops ops st) = ss_replace_journal st"
    using frames_done(1) [of ops st] by (auto simp: run_ops_append)
qed

text \<open>
  The loop of the read lock ends. A reader that finds a journal recovers and looks again; for every
  directory the loop returns after at most one recovery, with the result of the body on a
  directory without journals, or with the exception the recovery raised.
\<close>

theorem read_lock_terminates:
  assumes "series_path key = Inr path"
  shows "stable_series_read_lock key body st = Some (series_writer_lock key body st)"
proof (cases "pending_journal st")
  case False
  then show ?thesis using writer_lock_idle [OF False assms, of body] by (subst stable_series_read_lock.simps) simp
next
  case True
  show ?thesis
  proof (cases "recover_replacement_plan key st")
    case (Inl e)
    then show ?thesis using True assms by (subst stable_series_read_lock.simps) (simp add: series_writer_lock_def)
  next
    case (Inr first)
    let ?st1 = "run_ops first st"
    show ?thesis
    proof (cases "recover_append_plan ?st1")
      case (Inl e)
      with Inr show ?thesis using True assms by (subst stable_series_read_lock.simps) (simp add: series_writer_lock_def Let_def)
    next
      case second: (Inr ops)
      have idle: "\<not> pending_journal (run_ops ops ?st1)"
        using append_plan_clears [OF second] replacement_plan_clears [OF Inr] by (simp add: pending_journal_def)
      have "stable_series_read_lock key body st = stable_series_read_lock key body (run_ops ops ?st1)"
        using True Inr second assms by (subst stable_series_read_lock.simps) (simp add: series_writer_lock_def Let_def)
      also have "\<dots> = Some (body (run_ops ops ?st1))"
        using idle by (subst stable_series_read_lock.simps) simp
      finally show ?thesis using Inr second assms by (simp add: series_writer_lock_def Let_def)
    qed
  qed
qed

theorem read_lock_terminates_witness:
  "stable_series_read_lock sample_key (\<lambda>st. (Inr (ss_clock st), st)) (empty_state\<lparr>ss_append_journal := Some JNull\<rparr>) =
     Some (Inl (MDInvalidExchangeResponse ''Invalid segment append journal''), empty_state\<lparr>ss_append_journal := Some JNull\<rparr>)"
proof -
  obtain path where path: "series_path sample_key = Inr path" using described_path [OF sample_identity] by blast
  then show ?thesis
    using read_lock_terminates [OF path, of "\<lambda>st. (Inr (ss_clock st), st)"]
    by (simp add: series_writer_lock_def recover_replacement_plan_def recover_append_plan_def parse_append_journal_def empty_state_def)
qed

end
