(* ===== verification/CurrentStore.thy ===== *)
theory CurrentStore
  imports Samples
begin

section \<open>The store of open candles and stream checkpoints\<close>

text \<open>
  Models \<^verbatim>\<open>store/current_store.py\<close>. The two SQLite tables are lists of rows, an upsert on
  the primary key replaces a row in place or appends it, and every operation is one transaction.
  Columns added by a migration may be null, so they are options. SQLite keeps no NaN: it stores
  null, which a NOT NULL column refuses; it writes a negative zero as zero; integers outside 64 bits are refused when they are
  bound. Where \<open>ORDER BY open_time DESC LIMIT 1\<close> finds several rows of one open time, from different
  transports, SQL leaves the choice open and the model takes the first of the table.
\<close>

record current_row =
  cr_exchange :: string
  cr_market :: string
  cr_symbol :: string
  cr_source_transport :: string
  cr_source_kind :: string
  cr_timeframe :: string
  cr_open_time :: int
  cr_close_time :: int
  cr_open :: float64
  cr_high :: float64
  cr_low :: float64
  cr_close :: float64
  cr_volume :: float64
  cr_quote_volume :: "float64 option"
  cr_turnover :: "float64 option"
  cr_trades_count :: "int option"
  cr_taker_buy_base_volume :: "float64 option"
  cr_taker_buy_quote_volume :: "float64 option"
  cr_is_closed :: int
  cr_provider :: "string option"
  cr_provider_revision :: "string option"
  cr_revision_state :: "string option"
  cr_revision :: "int option"
  cr_open_text :: "string option"
  cr_high_text :: "string option"
  cr_low_text :: "string option"
  cr_close_text :: "string option"
  cr_volume_text :: "string option"
  cr_event_time :: "int option"
  cr_received_at :: int
  cr_raw_event_id :: "string option"

record stream_checkpoint =
  cp_exchange :: string
  cp_market :: string
  cp_symbol :: string
  cp_timeframe :: string
  cp_source_transport :: string
  cp_source_kind :: string
  cp_last_closed_bar_time :: "int option"
  cp_last_event_time :: "int option"
  cp_last_received_at :: "int option"
  cp_last_reconnect_at :: "int option"
  cp_consecutive_reconnects :: int
  cp_status :: string
  cp_updated_at :: int

record current_state =
  cu_candles :: "current_row list"
  cu_checkpoints :: "stream_checkpoint list"

definition empty_current :: current_state where
  "empty_current = \<lparr>cu_candles = [], cu_checkpoints = []\<rparr>"

subsection \<open>SQLite values and tables\<close>

definition sql_int_ok :: "int \<Rightarrow> bool" where
  "sql_int_ok n \<longleftrightarrow> - (2 ^ 63) \<le> n \<and> n < 2 ^ 63"

definition sql_float :: "float64 \<Rightarrow> float64" where
  "sql_float x = (if f_eq x f_zero then f_zero else x)"

definition sql_real :: "float64 option \<Rightarrow> float64 option" where
  "sql_real v = (case v of Some x \<Rightarrow> if f_isnan x then None else Some (sql_float x) | None \<Rightarrow> None)"

definition table_upsert :: "('r \<Rightarrow> 'k) \<Rightarrow> 'r \<Rightarrow> 'r list \<Rightarrow> 'r list" where
  "table_upsert key row rows =
     (if list_ex (\<lambda>r. key r = key row) rows then map (\<lambda>r. if key r = key row then row else r) rows else rows @ [row])"

subsection \<open>Candles\<close>

definition candle_key :: "current_row \<Rightarrow> string \<times> string \<times> string \<times> string \<times> string \<times> string \<times> int" where
  "candle_key r = (cr_exchange r, cr_market r, cr_symbol r, cr_source_transport r, cr_source_kind r, cr_timeframe r, cr_open_time r)"

definition row_identity :: "current_row \<Rightarrow> string \<times> string \<times> string \<times> string \<times> string" where
  "row_identity r = (cr_exchange r, cr_market r, cr_symbol r, cr_timeframe r, cr_source_kind r)"

definition candle_row ::
  "(revision_state \<Rightarrow> string) \<Rightarrow> string \<Rightarrow> int \<Rightarrow> bool \<Rightarrow> market_bar \<Rightarrow> int option \<Rightarrow> int option \<Rightarrow> string option \<Rightarrow> current_row" where
  "candle_row rs tf close_time closed b event_time received_at raw_event_id =
     \<lparr>cr_exchange = py_lower (m_exchange b), cr_market = py_lower (m_market b), cr_symbol = py_upper (m_symbol b),
      cr_source_transport = m_source_transport b, cr_source_kind = m_source_kind b, cr_timeframe = tf,
      cr_open_time = b_time b, cr_close_time = close_time, cr_open = sql_float (b_open b), cr_high = sql_float (b_high b),
      cr_low = sql_float (b_low b), cr_close = sql_float (b_close b), cr_volume = sql_float (b_volume b), cr_quote_volume = sql_real (m_quote_volume b),
      cr_turnover = sql_real (m_turnover b), cr_trades_count = m_trades_count b,
      cr_taker_buy_base_volume = sql_real (m_taker_buy_base_volume b),
      cr_taker_buy_quote_volume = sql_real (m_taker_buy_quote_volume b), cr_is_closed = (if closed then 1 else 0),
      cr_provider = Some (m_provider b), cr_provider_revision = m_provider_revision b,
      cr_revision_state = Some (rs (m_revision_state b)), cr_revision = Some (m_revision b),
      cr_open_text = m_open_text b, cr_high_text = m_high_text b, cr_low_text = m_low_text b,
      cr_close_text = m_close_text b, cr_volume_text = m_volume_text b, cr_event_time = event_time,
      cr_received_at = int_default (int_or received_at (m_downloaded_at b)) 0, cr_raw_event_id = raw_event_id\<rparr>"

definition upsert_current ::
  "(revision_state \<Rightarrow> string) \<Rightarrow> market_bar \<Rightarrow> int option \<Rightarrow> int option \<Rightarrow> string option \<Rightarrow> current_state \<Rightarrow> current_state res" where
  "upsert_current rs b event_time received_at raw_event_id st =
     (case (m_is_closed b, b_time_close b) of
        (None, _) \<Rightarrow> Inl (PyValueError ''is_closed is required for current candle storage'')
      | (_, None) \<Rightarrow> Inl (PyValueError ''explicit close time is required for current candle storage'')
      | (Some closed, Some close_time) \<Rightarrow>
          if m_provider b = [] \<or> m_provider_revision b = None \<or> m_provider_revision b = Some []
          then Inl (PyValueError ''provider and provider_revision are required'')
          else
            bindR (canonical_timeframe (m_timeframe b)) (\<lambda>tf.
            let row = candle_row rs tf close_time closed b event_time received_at raw_event_id in
            if \<not> list_all sql_int_ok [cr_open_time row, cr_close_time row, m_revision b, cr_received_at row] \<or>
               \<not> opt_all sql_int_ok (cr_trades_count row) \<or> \<not> opt_all sql_int_ok event_time
            then Inl (PyOverflowError ''Python int too large to convert to SQLite INTEGER'')
            else if list_ex f_isnan [b_open b, b_high b, b_low b, b_close b, b_volume b]
            then Inl (SqlIntegrityError ''NOT NULL constraint failed'')
            else Inr (st\<lparr>cu_candles := table_upsert candle_key row (cu_candles st)\<rparr>)))"

definition row_to_current_bar :: "(revision_state \<Rightarrow> string) \<Rightarrow> current_row \<Rightarrow> market_bar res" where
  "row_to_current_bar rs r =
     (case (cr_provider r, cr_provider_revision r) of
        (Some (p # ps), Some (v # vs)) \<Rightarrow>
          (case (cr_revision_state r, cr_revision r) of
             (Some s, Some n) \<Rightarrow>
               (case revision_state_of rs s of
                  None \<Rightarrow> Inl (PyValueError ''is not a valid RevisionState'')
                | Some state \<Rightarrow>
                    market_bar_post_init
                      \<lparr>b_time = cr_open_time r, b_open = cr_open r, b_high = cr_high r, b_low = cr_low r, b_close = cr_close r,
                       b_volume = cr_volume r, b_time_close = Some (cr_close_time r), m_exchange = cr_exchange r,
                       m_market = cr_market r, m_symbol = cr_symbol r, m_timeframe = cr_timeframe r,
                       m_source_transport = cr_source_transport r, m_source_kind = cr_source_kind r, m_source = [],
                       m_is_closed = Some (cr_is_closed r \<noteq> 0), m_provider = p # ps, m_provider_revision = Some (v # vs),
                       m_revision_state = state, m_revision = n, m_open_text = cr_open_text r, m_high_text = cr_high_text r,
                       m_low_text = cr_low_text r, m_close_text = cr_close_text r, m_volume_text = cr_volume_text r,
                       m_quote_volume = cr_quote_volume r, m_turnover = cr_turnover r, m_trades_count = cr_trades_count r,
                       m_taker_buy_base_volume = cr_taker_buy_base_volume r,
                       m_taker_buy_quote_volume = cr_taker_buy_quote_volume r, m_downloaded_at = Some (cr_received_at r),
                       m_metadata = []\<rparr>)
           | _ \<Rightarrow> Inl (PyValueError ''current candle lacks revision identity; migration required''))
      | _ \<Rightarrow> Inl (PyValueError ''current candle lacks provider identity; migration required''))"

fun newest_row :: "current_row list \<Rightarrow> current_row option" where
  "newest_row [] = None"
| "newest_row (r # rows) =
     (case newest_row rows of None \<Rightarrow> Some r | Some s \<Rightarrow> if cr_open_time r < cr_open_time s then Some s else Some r)"

definition get_current :: "(revision_state \<Rightarrow> string) \<Rightarrow> series_key \<Rightarrow> current_state \<Rightarrow> market_bar option res" where
  "get_current rs key st =
     bindR (key_identity key) (\<lambda>i.
     case newest_row (filter (\<lambda>r. row_identity r = i) (cu_candles st)) of
       None \<Rightarrow> Inr None
     | Some r \<Rightarrow> bindR (row_to_current_bar rs r) (\<lambda>b. Inr (Some b)))"

definition delete_current :: "market_bar \<Rightarrow> current_state \<Rightarrow> current_state res" where
  "delete_current b st =
     bindR (key_identity (bar_key b)) (\<lambda>i.
     Inr (st\<lparr>cu_candles := filter (\<lambda>r. \<not> (row_identity r = i \<and> cr_source_transport r = m_source_transport b \<and>
              cr_open_time r = b_time b)) (cu_candles st)\<rparr>))"

subsection \<open>Checkpoints\<close>

definition checkpoint_key :: "stream_checkpoint \<Rightarrow> string \<times> string \<times> string \<times> string \<times> string \<times> string" where
  "checkpoint_key c = (cp_exchange c, cp_market c, cp_symbol c, cp_source_transport c, cp_source_kind c, cp_timeframe c)"

definition checkpoint_series :: "stream_checkpoint \<Rightarrow> series_key" where
  "checkpoint_series c = \<lparr>sk_exchange = cp_exchange c, sk_market = cp_market c, sk_symbol = cp_symbol c,
     sk_timeframe = cp_timeframe c, sk_source_kind = cp_source_kind c\<rparr>"

definition checkpoint_identity :: "stream_checkpoint \<Rightarrow> string \<times> string \<times> string \<times> string \<times> string" where
  "checkpoint_identity c = (cp_exchange c, cp_market c, cp_symbol c, cp_timeframe c, cp_source_kind c)"

definition update_checkpoint :: "stream_checkpoint \<Rightarrow> current_state \<Rightarrow> current_state res" where
  "update_checkpoint c st =
     bindR (key_identity (checkpoint_series c)) (\<lambda>(ex, mk, sy, tf, sk).
     if \<not> list_all (opt_all sql_int_ok) [cp_last_closed_bar_time c, cp_last_event_time c, cp_last_received_at c, cp_last_reconnect_at c] \<or>
        \<not> sql_int_ok (cp_consecutive_reconnects c) \<or> \<not> sql_int_ok (cp_updated_at c)
     then Inl (PyOverflowError ''Python int too large to convert to SQLite INTEGER'')
     else
       let row = c\<lparr>cp_exchange := ex, cp_market := mk, cp_symbol := sy, cp_timeframe := tf\<rparr>
       in Inr (st\<lparr>cu_checkpoints := table_upsert checkpoint_key row (cu_checkpoints st)\<rparr>))"

definition get_checkpoint :: "series_key \<Rightarrow> current_state \<Rightarrow> stream_checkpoint option res" where
  "get_checkpoint key st = bindR (key_identity key) (\<lambda>i. Inr (find (\<lambda>c. checkpoint_identity c = i) (cu_checkpoints st)))"

subsection \<open>Rows read back\<close>

lemma table_upsert_find:
  "find (\<lambda>r. key r = key row) (table_upsert key row rows) = Some row"
proof (cases "list_ex (\<lambda>r. key r = key row) rows")
  case True
  then have "find (\<lambda>r. key r = key row) (map (\<lambda>r. if key r = key row then row else r) rows) = Some row"
    by (induction rows) auto
  with True show ?thesis by (simp add: table_upsert_def)
next
  case False
  then have "find (\<lambda>r. key r = key row) (rows @ [row]) = Some row" by (induction rows) auto
  with False show ?thesis by (simp add: table_upsert_def)
qed

lemma table_upsert_set:
  "set (table_upsert key row rows) = insert row {r \<in> set rows. key r \<noteq> key row}"
  by (auto simp: table_upsert_def list_ex_iff)

lemma newest_row_None: "newest_row rows = None \<longleftrightarrow> rows = []"
  by (cases rows) (auto split: option.splits)

lemma newest_row_max:
  assumes "newest_row rows = Some r"
  shows "r \<in> set rows" and "\<forall>s \<in> set rows. cr_open_time s \<le> cr_open_time r"
  using assms by (induction rows arbitrary: r) (auto simp: newest_row_None split: option.splits if_splits)

text \<open>The newest row is the row of the latest open time where that time occurs once.\<close>

lemma newest_row_unique:
  assumes "row \<in> set rows" and "\<forall>r \<in> set rows. r \<noteq> row \<longrightarrow> cr_open_time r < cr_open_time row"
  shows "newest_row rows = Some row"
proof -
  obtain r where r: "newest_row rows = Some r" using assms(1) newest_row_None by (cases "newest_row rows") auto
  with newest_row_max [OF r] assms show ?thesis by (metis leD)
qed

text \<open>What the table keeps of a bar: the download time is the time of receipt.\<close>

definition kept_bar :: "market_bar \<Rightarrow> int option \<Rightarrow> market_bar" where
  "kept_bar b received_at = b\<lparr>m_downloaded_at := Some (int_default (int_or received_at (m_downloaded_at b)) 0)\<rparr>"

definition sql_exact :: "market_bar \<Rightarrow> bool" where
  "sql_exact b \<longleftrightarrow> list_all (\<lambda>x. sql_float x = x) [b_open b, b_high b, b_low b, b_close b, b_volume b] \<and>
     list_all (\<lambda>v. sql_real v = v) [m_quote_volume b, m_turnover b, m_taker_buy_base_volume b, m_taker_buy_quote_volume b]"

lemma storable_identity:
  "storable b \<Longrightarrow> key_identity (bar_key b) = Inr (m_exchange b, m_market b, m_symbol b, m_timeframe b, m_source_kind b)"
  by (simp add: storable_def key_identity_def bar_key_def)

lemma candle_row_back:
  assumes "rs_ok rs" and "storable b" and "sql_exact b" and "b_time_close b = Some c" and "m_is_closed b = Some closed"
  shows "row_to_current_bar rs (candle_row rs (m_timeframe b) c closed b ev received_at raw) = Inr (kept_bar b received_at)"
proof -
  let ?k = "kept_bar b received_at"
  obtain v vs p ps where v: "m_provider_revision b = Some (v # vs)" "m_provider b = p # ps"
    using assms(2) by (auto simp: storable_def neq_Nil_conv)
  have post: "market_bar_post_init ?k = Inr ?k"
    using assms(2) by (auto simp: storable_def post_init_Inr fill_provider_def provider_from_metadata_def revision_from_metadata_def kept_bar_def)
  have ids: "py_lower (m_exchange b) = m_exchange b" "py_lower (m_market b) = m_market b" "py_upper (m_symbol b) = m_symbol b"
    "m_source b = []" "m_metadata b = []" using assms(2) by (simp_all add: storable_def)
  have "row_to_current_bar rs (candle_row rs (m_timeframe b) c closed b ev received_at raw) = market_bar_post_init ?k"
    using v ids assms(3-5) revision_state_of_rs [OF assms(1)]
    by (cases b; cases closed) (simp_all add: row_to_current_bar_def candle_row_def kept_bar_def sql_exact_def)
  then show ?thesis by (simp add: post)
qed

lemma upsert_current_row:
  assumes "storable b" and "upsert_current rs b ev received_at raw st = Inr st'"
  obtains c closed where "b_time_close b = Some c" "m_is_closed b = Some closed"
    "st' = st\<lparr>cu_candles := table_upsert candle_key (candle_row rs (m_timeframe b) c closed b ev received_at raw) (cu_candles st)\<rparr>"
  using assms by (auto simp: upsert_current_def res_simps Let_def storable_def split: option.splits if_splits)

lemma current_kept:
  assumes "rs_ok rs" and "storable b" and "sql_exact b" and "upsert_current rs b ev received_at raw st = Inr st'"
    and "\<forall>r \<in> set (cu_candles st). row_identity r = (m_exchange b, m_market b, m_symbol b, m_timeframe b, m_source_kind b) \<longrightarrow>
           cr_open_time r < b_time b \<or> (cr_open_time r = b_time b \<and> cr_source_transport r = m_source_transport b)"
  shows "get_current rs (bar_key b) st' = Inr (Some (kept_bar b received_at))"
proof -
  obtain c closed where u: "b_time_close b = Some c" "m_is_closed b = Some closed"
    "st' = st\<lparr>cu_candles := table_upsert candle_key (candle_row rs (m_timeframe b) c closed b ev received_at raw) (cu_candles st)\<rparr>"
    by (rule upsert_current_row [OF assms(2,4)])
  let ?row = "candle_row rs (m_timeframe b) c closed b ev received_at raw"
  let ?i = "(m_exchange b, m_market b, m_symbol b, m_timeframe b, m_source_kind b)"
  have row: "row_identity ?row = ?i" "cr_open_time ?row = b_time b" "cr_source_transport ?row = m_source_transport b"
    using assms(2) by (simp_all add: row_identity_def candle_row_def storable_def)
  have "newest_row (filter (\<lambda>r. row_identity r = ?i) (cu_candles st')) = Some ?row"
  proof (rule newest_row_unique)
    show "?row \<in> set (filter (\<lambda>r. row_identity r = ?i) (cu_candles st'))" using u(3) row(1) by (simp add: table_upsert_set)
    show "\<forall>r \<in> set (filter (\<lambda>r. row_identity r = ?i) (cu_candles st')). r \<noteq> ?row \<longrightarrow> cr_open_time r < cr_open_time ?row"
      using u(3) row assms(5) by (auto simp: table_upsert_set candle_key_def row_identity_def)
  qed
  then show ?thesis
    using storable_identity [OF assms(2)] candle_row_back [OF assms(1-3) u(1,2)] by (simp add: get_current_def)
qed

text \<open>
  An open candle is read back as it was stored. After an upsert that is accepted, the current
  candle of the series is that bar, with the receipt time as its download time, provided no other
  row of the series is as new and its numbers are ones SQLite keeps exactly (no NaN, no negative zero).
\<close>

theorem current_round_trip:
  assumes "rs_ok rs" and "storable b" and "sql_exact b" and "upsert_current rs b ev received_at raw st = Inr st'"
    and "\<forall>r \<in> set (cu_candles st). row_identity r = (m_exchange b, m_market b, m_symbol b, m_timeframe b, m_source_kind b) \<longrightarrow>
           cr_open_time r < b_time b \<or> (cr_open_time r = b_time b \<and> cr_source_transport r = m_source_transport b)"
  shows "get_current rs (bar_key b) st' = Inr (Some (kept_bar b received_at))"
  by (rule current_kept [OF assms])

theorem current_round_trip_witness:
  "\<exists>st. upsert_current sample_rs (sample_open 60000) (Some 60500) (Some 60600) None empty_current = Inr st \<and>
     get_current sample_rs sample_key st = Inr (Some ((sample_open 60000)\<lparr>m_downloaded_at := Some 60600\<rparr>))"
proof -
  have "sql_exact (sample_open 60000)" by code_simp
  moreover have "\<not> isl (upsert_current sample_rs (sample_open 60000) (Some 60500) (Some 60600) None empty_current)" by code_simp
  ultimately show ?thesis
    using current_round_trip [OF sample_rs_ok sample_open_storable, of "Some 60500" "Some 60600" None empty_current]
    by (cases "upsert_current sample_rs (sample_open 60000) (Some 60500) (Some 60600) None empty_current")
      (auto simp: empty_current_def kept_bar_def int_default_def)
qed

end
