(* ===== verification/CandleStore.thy ===== *)
theory CandleStore
  imports SegmentSafety CurrentStore
begin

section \<open>The candle store\<close>

text \<open>
  Models \<^verbatim>\<open>store/candle_store.py\<close>: the closed candles of every series, each in its directory, one
  index database over them, and the database of open candles and checkpoints. An operation on a
  series sees its directory with the shared index and puts both back. What a call changed before
  it raised stays changed.
\<close>

record candle_state =
  cs_dirs :: "string \<Rightarrow> series_state"
  cs_index :: "index_row list"
  cs_current :: current_state

definition empty_store :: candle_state where
  "empty_store = \<lparr>cs_dirs = (\<lambda>_. empty_state), cs_index = [], cs_current = empty_current\<rparr>"

type_synonym 'a cio = "candle_state \<Rightarrow> 'a res \<times> candle_state"

definition series_at :: "string \<Rightarrow> candle_state \<Rightarrow> series_state" where
  "series_at path cs = (cs_dirs cs path)\<lparr>ss_index := cs_index cs\<rparr>"

definition put_series :: "string \<Rightarrow> series_state \<Rightarrow> candle_state \<Rightarrow> candle_state" where
  "put_series path st cs = cs\<lparr>cs_dirs := (cs_dirs cs)(path := st), cs_index := ss_index st\<rparr>"

definition on_series :: "series_key \<Rightarrow> 'a io \<Rightarrow> 'a cio" where
  "on_series key f cs =
     (case series_path key of
        Inl e \<Rightarrow> (Inl e, cs)
      | Inr path \<Rightarrow> (let r = f (series_at path cs) in (fst r, put_series path (snd r) cs)))"

text \<open>One transaction of the database of open candles: a failure leaves it as it was.\<close>

definition on_current :: "(current_state \<Rightarrow> current_state res) \<Rightarrow> unit cio" where
  "on_current f cs = (case f (cs_current cs) of Inl e \<Rightarrow> (Inl e, cs) | Inr cu \<Rightarrow> (Inr (), cs\<lparr>cs_current := cu\<rparr>))"

definition and_then :: "'a cio \<Rightarrow> ('a \<Rightarrow> 'b cio) \<Rightarrow> 'b cio" where
  "and_then f g cs = (case f cs of (Inl e, cs') \<Rightarrow> (Inl e, cs') | (Inr x, cs') \<Rightarrow> g x cs')"

subsection \<open>Checkpoints\<close>

definition bar_checkpoint ::
  "stream_checkpoint option \<Rightarrow> market_bar \<Rightarrow> int option \<Rightarrow> int option \<Rightarrow> int option \<Rightarrow> string \<Rightarrow> stream_checkpoint" where
  "bar_checkpoint cp b last_closed event_time received_at status =
     \<lparr>cp_exchange = m_exchange b, cp_market = m_market b, cp_symbol = m_symbol b, cp_timeframe = m_timeframe b,
      cp_source_transport = ''ws'', cp_source_kind = m_source_kind b, cp_last_closed_bar_time = last_closed,
      cp_last_event_time = event_time, cp_last_received_at = int_or received_at (m_downloaded_at b),
      cp_last_reconnect_at = (case cp of Some c \<Rightarrow> cp_last_reconnect_at c | None \<Rightarrow> None),
      cp_consecutive_reconnects = (case cp of Some c \<Rightarrow> cp_consecutive_reconnects c | None \<Rightarrow> 0),
      cp_status = status,
      cp_updated_at = int_default (int_or (int_or received_at (m_downloaded_at b)) event_time) 0\<rparr>"

definition touch_event_checkpoint ::
  "market_bar \<Rightarrow> int option \<Rightarrow> int option \<Rightarrow> string \<Rightarrow> current_state \<Rightarrow> current_state res" where
  "touch_event_checkpoint b event_time received_at status st =
     bindR (get_checkpoint (bar_key b) st) (\<lambda>cp.
     update_checkpoint
       (bar_checkpoint cp b (case cp of Some c \<Rightarrow> cp_last_closed_bar_time c | None \<Rightarrow> None) event_time received_at status) st)"

definition closed_checkpoint :: "market_bar \<Rightarrow> int option \<Rightarrow> int option \<Rightarrow> current_state \<Rightarrow> current_state res" where
  "closed_checkpoint b event_time received_at st =
     bindR (get_checkpoint (bar_key b) st) (\<lambda>cp.
     update_checkpoint (bar_checkpoint cp b (Some (b_time b)) event_time received_at ''connected'') st)"

subsection \<open>Commits\<close>

text \<open>The part of \<open>commit_closed\<close> under the writer lock of the series: the status it returns.\<close>

definition strictly_newer :: "market_bar \<Rightarrow> segment_manifest option \<Rightarrow> bool" where
  "strictly_newer b manifest =
     (case manifest of
        None \<Rightarrow> False
      | Some m \<Rightarrow> sm_data_format m = ''csv'' \<and> (case sm_end_time m of None \<Rightarrow> False | Some t \<Rightarrow> t < b_time b))"

definition with_status :: "string \<Rightarrow> 'a res \<times> series_state \<Rightarrow> string res \<times> series_state" where
  "with_status status r = (bindR (fst r) (\<lambda>_. Inr status), snd r)"

definition commit_segment ::
  "(byte list \<Rightarrow> byte list) \<Rightarrow> (revision_state \<Rightarrow> string) \<Rightarrow> market_bar \<Rightarrow> string io" where
  "commit_segment sha rs b st =
     (case load_segment_manifest st of
        Inl e \<Rightarrow> (Inl e, st)
      | Inr manifest \<Rightarrow>
          (if strictly_newer b manifest then with_status ''committed'' (append_locked sha rs (bar_key b) [b] st)
           else
             case get_bar_locked sha rs (b_time b) st of
               (Inl e, st') \<Rightarrow> (Inl e, st')
             | (Inr None, st') \<Rightarrow> with_status ''committed'' (upsert_closed_locked sha rs b st')
             | (Inr (Some existing), st') \<Rightarrow>
                 (bindR (market_bar_checksum sha rs existing) (\<lambda>x.
                  bindR (market_bar_checksum sha rs b) (\<lambda>y.
                  if x = y then Inr ''duplicate'' else Inl (MDCacheConflict ''Conflicting closed candle''))), st')))"

record commit_result =
  cm_status :: string
  cm_diagnostic :: "string option"

definition commit_closed_bar ::
  "(byte list \<Rightarrow> byte list) \<Rightarrow> (revision_state \<Rightarrow> string) \<Rightarrow> market_bar \<Rightarrow> int option \<Rightarrow> int option \<Rightarrow> commit_result cio" where
  "commit_closed_bar sha rs b event_time received_at =
     and_then (on_series (bar_key b) (series_writer_lock (bar_key b) (commit_segment sha rs b))) (\<lambda>status.
     and_then (on_current (delete_current b)) (\<lambda>_.
     and_then (on_current (closed_checkpoint b event_time received_at)) (\<lambda>_ cs.
       (Inr \<lparr>cm_status = status, cm_diagnostic = None\<rparr>, cs))))"

definition upsert_open_bar ::
  "(byte list \<Rightarrow> byte list) \<Rightarrow> (revision_state \<Rightarrow> string) \<Rightarrow> market_bar \<Rightarrow> int option \<Rightarrow> int option \<Rightarrow> string option \<Rightarrow> commit_result cio" where
  "upsert_open_bar sha rs b event_time received_at raw_event_id =
     and_then (on_series (bar_key b) (get_bar sha rs (bar_key b) (b_time b))) (\<lambda>existing.
     if existing \<noteq> None then (\<lambda>cs. (Inr \<lparr>cm_status = ''ignored'', cm_diagnostic = Some ''MD_WARNING_LATE_OPEN_IGNORED''\<rparr>, cs))
     else
       and_then (on_current (upsert_current rs b event_time received_at raw_event_id)) (\<lambda>_.
       and_then (on_current (touch_event_checkpoint b event_time received_at ''open'')) (\<lambda>_ cs.
         (Inr \<lparr>cm_status = ''upserted'', cm_diagnostic = None\<rparr>, cs))))"

text \<open>Each entry point hands a bar of the other finality to the other one.\<close>

definition upsert_open ::
  "(byte list \<Rightarrow> byte list) \<Rightarrow> (revision_state \<Rightarrow> string) \<Rightarrow> market_bar \<Rightarrow> int option \<Rightarrow> int option \<Rightarrow> string option \<Rightarrow> commit_result cio" where
  "upsert_open sha rs b event_time received_at raw_event_id =
     (if m_is_closed b = Some True then commit_closed_bar sha rs b event_time received_at
      else upsert_open_bar sha rs b event_time received_at raw_event_id)"

definition commit_closed ::
  "(byte list \<Rightarrow> byte list) \<Rightarrow> (revision_state \<Rightarrow> string) \<Rightarrow> market_bar \<Rightarrow> int option \<Rightarrow> int option \<Rightarrow> string option \<Rightarrow> commit_result cio" where
  "commit_closed sha rs b event_time received_at raw_event_id =
     (if m_is_closed b \<noteq> Some True then upsert_open_bar sha rs b event_time received_at raw_event_id
      else commit_closed_bar sha rs b event_time received_at)"

subsection \<open>Reads\<close>

definition get_market_bars ::
  "(byte list \<Rightarrow> byte list) \<Rightarrow> (revision_state \<Rightarrow> string) \<Rightarrow> series_key \<Rightarrow> int option \<Rightarrow> int option \<Rightarrow> market_bar list cio" where
  "get_market_bars sha rs key start stop = on_series key (read_all sha rs key start stop)"

definition get_bars ::
  "(byte list \<Rightarrow> byte list) \<Rightarrow> (revision_state \<Rightarrow> string) \<Rightarrow> series_key \<Rightarrow> int option \<Rightarrow> int option \<Rightarrow> bar list cio" where
  "get_bars sha rs key start stop = and_then (get_market_bars sha rs key start stop) (\<lambda>bars cs. (Inr (map market_bar_to_bar bars), cs))"

definition latest_bar_time :: "series_key \<Rightarrow> candle_state \<Rightarrow> int option res" where
  "latest_bar_time key cs =
     bindR (series_path key) (\<lambda>path.
     bindR (load_segment_manifest (series_at path cs)) (\<lambda>m. Inr (case m of None \<Rightarrow> None | Some m \<Rightarrow> sm_end_time m)))"

definition get_current_market_candle :: "(revision_state \<Rightarrow> string) \<Rightarrow> series_key \<Rightarrow> candle_state \<Rightarrow> market_bar option res" where
  "get_current_market_candle rs key cs = get_current rs key (cs_current cs)"

definition get_current_candle :: "(revision_state \<Rightarrow> string) \<Rightarrow> series_key \<Rightarrow> candle_state \<Rightarrow> bar option res" where
  "get_current_candle rs key cs = bindR (get_current_market_candle rs key cs) (\<lambda>b. Inr (map_option market_bar_to_bar b))"

subsection \<open>A commit against its specification\<close>

text \<open>What a commit promises of a series, as a function of the bars it held (\<^const>\<open>None\<close> where it had no segment).\<close>

definition commit_spec ::
  "(byte list \<Rightarrow> byte list) \<Rightarrow> (revision_state \<Rightarrow> string) \<Rightarrow> market_bar \<Rightarrow> market_bar list option \<Rightarrow> string res \<times> market_bar list option" where
  "commit_spec sha rs b c =
     (case find (\<lambda>x. b_time x = b_time b) (content c) of
        None \<Rightarrow> (Inr ''committed'', Some (sort_key b_time (content c @ [b])))
      | Some x \<Rightarrow>
          if market_bar_checksum sha rs x = market_bar_checksum sha rs b then (Inr ''duplicate'', c)
          else (Inl (MDCacheConflict ''Conflicting closed candle''), c))"

definition committable :: "(byte list \<Rightarrow> byte list) \<Rightarrow> (revision_state \<Rightarrow> string) \<Rightarrow> market_bar \<Rightarrow> bool" where
  "committable sha rs b \<longleftrightarrow> rs_ok rs \<and> (\<forall>x. length (sha x) = 32) \<and> bars_ok rs [b] \<and> encodable rs b"

lemma contains_ok: "contains sha rs key c st \<Longrightarrow> bars_ok rs (content c)"
  by (auto simp: contains_def content_def stored_ok split: option.splits)

lemma contains_manifest:
  assumes "contains sha rs key c st"
  shows "\<exists>m. load_segment_manifest st = Inr m \<and> (case c of None \<Rightarrow> m = None | Some bars \<Rightarrow> \<exists>m'. m = Some m' \<and> describes sha rs key m' bars)"
  using assms by (cases c) (auto simp: contains_def vacant_def stored_def holds_def load_segment_manifest_def manifest_of_manifest_json)

lemma find_in_instant:
  "find (\<lambda>x. b_time x = t) (filter (\<lambda>x. in_range (Some t) (Some (t + 1)) (b_time x)) bars) = find (\<lambda>x. b_time x = t) (bars :: market_bar list)"
  by (induction bars) (auto simp: in_range_def)

lemma get_bar_contains:
  assumes "rs_ok rs" and "contains sha rs key c st"
  shows "\<exists>st'. get_bar_locked sha rs t st = (Inr (find (\<lambda>x. b_time x = t) (content c)), st') \<and> contains sha rs key c st'"
proof (cases c)
  case None
  then show ?thesis using assms(2)
    by (simp add: contains_def vacant_def get_bar_locked_def first_at_def read_all_locked_def open_segment_def content_def)
next
  case (Some bars)
  then show ?thesis using read_locked_stored [OF assms(1), of sha key bars st "Some t" "Some (t + 1)"] assms(2)
    by (auto simp: contains_def content_def get_bar_locked_def first_at_def find_in_instant)
qed

lemma bars_ok_insert:
  assumes "bars_ok rs bars" and "bars_ok rs [b]" and "find (\<lambda>x. b_time x = b_time b) bars = None"
  shows "bars_ok rs (sort_key b_time (bars @ [b]))"
proof -
  let ?xs = "sort_key b_time (bars @ [b])"
  have "distinct (map b_time bars)" by (rule bars_ok_distinct [OF assms(1)])
  then have "distinct (map b_time (bars @ [b]))" using assms(3) by (auto simp: find_None_iff)
  from distinct_card [OF this] have "card (set (map b_time ?xs)) = length (map b_time ?xs)" by simp
  then have "distinct (map b_time ?xs)" by (rule card_distinct)
  then have "sorted_wrt (<) (map b_time ?xs)" by (simp add: strict_sorted_iff)
  then show ?thesis using assms(1,2) by (auto simp: bars_ok_def sorted_wrt_map list_all_iff)
qed

lemma single_validated:
  assumes "bars_ok rs [b]"
  shows "validated_append_bars (bar_key b) [b] = Inr [b]"
proof -
  have "storable b" "validate_persisted_bar_semantics b = Inr ()" using assms by (simp_all add: bars_ok_def)
  moreover have "validate_bars [market_bar_to_bar b] True = Inr ()" using bars_ok_valid [OF assms] by simp
  ultimately show ?thesis by (simp add: validated_append_bars_def storable_identity)
qed

lemma commit_newer:
  assumes "committable sha rs b" and "stored sha rs (bar_key b) bars st" and "bars \<noteq> []" and "b_time (last bars) < b_time b"
  shows "\<exists>m st'. append_locked sha rs (bar_key b) [b] st = (Inr m, st') \<and> stored sha rs (bar_key b) (sort_key b_time (bars @ [b])) st'"
proof -
  have a: "appendable sha rs (bar_key b) bars [b] [b]"
    using assms single_validated [of rs b] by (auto simp: appendable_def committable_def fits_def bars_ok_def)
  have u: "unstored bars [b] = [b]" using assms(4) by (simp add: unstored_def)
  obtain m st' where "append_locked sha rs (bar_key b) [b] st = (Inr m, st')" "stored sha rs (bar_key b) (bars @ [b]) st'"
    using append_locked_stored [OF a assms(2)] unfolding u by blast
  moreover from this have "sort_key b_time (bars @ [b]) = bars @ [b]" by (intro sorted_bars stored_ok)
  ultimately show ?thesis by auto
qed

lemma last_is_latest:
  assumes "bars_ok rs bars" and "x \<in> set bars"
  shows "b_time x \<le> b_time (last bars)"
  using assms by (cases bars rule: rev_cases) (auto simp: bars_ok_def sorted_wrt_append)

lemma commit_segment_refines:
  assumes "committable sha rs b" and "contains sha rs (bar_key b) c st"
  shows "\<exists>st'. commit_segment sha rs b st = (fst (commit_spec sha rs b c), st') \<and> contains sha rs (bar_key b) (snd (commit_spec sha rs b c)) st'"
proof -
  have rs: "rs_ok rs" "encodable rs b" "bars_ok rs [b]" using assms(1) by (simp_all add: committable_def)
  obtain m where m: "load_segment_manifest st = Inr m"
    "case c of None \<Rightarrow> m = None | Some bars \<Rightarrow> \<exists>m'. m = Some m' \<and> describes sha rs (bar_key b) m' bars"
    using contains_manifest [OF assms(2)] by blast
  have newer: "strictly_newer b m \<longleftrightarrow> content c \<noteq> [] \<and> b_time (last (content c)) < b_time b"
    using m(2) by (auto simp: strictly_newer_def content_def describes_def split: option.splits if_splits)
  obtain st1 where g: "get_bar_locked sha rs (b_time b) st = (Inr (find (\<lambda>x. b_time x = b_time b) (content c)), st1)"
    "contains sha rs (bar_key b) c st1"
    using get_bar_contains [OF rs(1) assms(2)] by blast
  show ?thesis
  proof (cases "find (\<lambda>x. b_time x = b_time b) (content c)")
    case None
    have ins: "bars_ok rs (sort_key b_time (content c @ [b]))" by (rule bars_ok_insert [OF contains_ok [OF assms(2)] rs(3) None])
    show ?thesis
    proof (cases "strictly_newer b m")
      case True
      then obtain bars where "c = Some bars" using newer by (cases c) (simp_all add: content_def)
      then show ?thesis using commit_newer [OF assms(1), of "content c" st] newer True m(1) None assms(2)
        by (auto simp: commit_segment_def with_status_def commit_spec_def contains_def content_def)
    next
      case False
      obtain i where "key_identity (bar_key b) = Inr i" using storable_identity [of b] rs(3) by (auto simp: bars_ok_def)
      from upsert_locked_new [OF rs(1) g(2) this rs(2) None ins] False m(1) g(1) None show ?thesis
        by (auto simp: commit_segment_def with_status_def commit_spec_def contains_def)
    qed
  next
    case (Some x)
    then have x: "x \<in> set (content c)" "b_time x = b_time b" by (auto simp: find_Some_iff)
    then have old: "\<not> strictly_newer b m" using newer last_is_latest [OF contains_ok [OF assms(2)] x(1)] by auto
    obtain bars where "c = Some bars" "stored sha rs (bar_key b) bars st" using x(1) assms(2) by (cases c) (auto simp: content_def contains_def)
    then obtain u v where "market_bar_checksum sha rs x = Inr u" "market_bar_checksum sha rs b = Inr v"
      using stored_checksum [of sha rs "bar_key b" bars st] encodable_checksum [OF rs(2)] Some by (fastforce simp: content_def)
    then show ?thesis using Some old m(1) g by (auto simp: commit_segment_def commit_spec_def)
  qed
qed

text \<open>
  Every checkpoint a candle store writes is of the WebSocket transport, and its numbers are integers
  the database holds.
\<close>

definition checkpoint_ok :: "stream_checkpoint \<Rightarrow> bool" where
  "checkpoint_ok c \<longleftrightarrow>
     cp_source_transport c = ''ws'' \<and> sql_int_ok (cp_consecutive_reconnects c) \<and> sql_int_ok (cp_updated_at c) \<and>
     list_all (opt_all sql_int_ok) [cp_last_closed_bar_time c, cp_last_event_time c, cp_last_received_at c, cp_last_reconnect_at c]"

definition checkpoints_ok :: "current_state \<Rightarrow> bool" where
  "checkpoints_ok cu \<longleftrightarrow> list_all checkpoint_ok (cu_checkpoints cu)"

definition event_ok :: "int option \<Rightarrow> int option \<Rightarrow> bool" where
  "event_ok event_time received_at \<longleftrightarrow> opt_all sql_int_ok event_time \<and> opt_all sql_int_ok received_at"

lemma opt_all_simps [simp]: "opt_all P None" "opt_all P (Some x) = P x"
  by (simp_all add: opt_all_def)

lemma int53_sql: "int53 n \<Longrightarrow> sql_int_ok n"
  by (auto simp: int53_def sql_int_ok_def)

lemma storable_sql:
  assumes "storable b"
  shows "sql_int_ok (b_time b)" and "opt_all sql_int_ok (m_downloaded_at b)"
proof -
  have "int53 (b_time b)" "opt_all int53 (m_downloaded_at b)" using assms by (simp_all add: storable_def)
  then show "sql_int_ok (b_time b)" "opt_all sql_int_ok (m_downloaded_at b)"
    using int53_sql by (cases "m_downloaded_at b"; auto)+
qed

lemma sql_zero [simp]: "sql_int_ok 0"
  by (simp add: sql_int_ok_def)

lemma int_or_ok: "opt_all P a \<Longrightarrow> opt_all P b \<Longrightarrow> opt_all P (int_or a b)"
  by (cases a) simp_all

lemma int_default_ok: "opt_all P a \<Longrightarrow> P d \<Longrightarrow> P (int_default a d)"
  by (cases a) (simp_all add: int_default_def)

lemma bar_checkpoint_ok:
  assumes "storable b" and "event_ok event_time received_at" and "opt_all sql_int_ok last_closed" and "opt_all checkpoint_ok cp"
  shows "checkpoint_ok (bar_checkpoint cp b last_closed event_time received_at status)"
proof -
  note d = storable_sql(2) [OF assms(1)]
  have e: "opt_all sql_int_ok event_time" "opt_all sql_int_ok received_at" using assms(2) by (simp_all add: event_ok_def)
  show ?thesis
    using assms(3,4) e int_or_ok [OF e(2) d] int_default_ok [OF int_or_ok [OF int_or_ok [OF e(2) d] e(1)] sql_zero]
    by (cases cp) (simp_all add: bar_checkpoint_def checkpoint_ok_def)
qed

lemma checkpoint_update:
  assumes "checkpoints_ok cu" and "checkpoint_ok c" and "key_identity (checkpoint_series c) = Inr (checkpoint_identity c)"
  shows "\<exists>cu'. update_checkpoint c cu = Inr cu' \<and> checkpoints_ok cu' \<and> cu_candles cu' = cu_candles cu \<and>
    get_checkpoint (checkpoint_series c) cu' = Inr (Some c)"
proof -
  let ?rows = "table_upsert checkpoint_key c (cu_checkpoints cu)"
  have u: "update_checkpoint c cu = Inr (cu\<lparr>cu_checkpoints := ?rows\<rparr>)"
    using assms(2,3) by (cases c) (simp add: update_checkpoint_def checkpoint_identity_def checkpoint_ok_def Let_def)
  have ok: "list_all checkpoint_ok ?rows"
    using assms(1,2) by (auto simp: list_all_iff table_upsert_set checkpoints_ok_def)
  have "find (\<lambda>r. checkpoint_identity r = checkpoint_identity c) ?rows = find (\<lambda>r. checkpoint_key r = checkpoint_key c) ?rows"
    using ok assms(2) by (intro find_cong) (auto simp: list_all_iff checkpoint_ok_def checkpoint_key_def checkpoint_identity_def)
  then show ?thesis using u ok assms(3) by (simp add: checkpoints_ok_def get_checkpoint_def table_upsert_find)
qed

lemma checkpoint_found:
  assumes "checkpoints_ok cu" and "storable b"
  shows "\<exists>cp. get_checkpoint (bar_key b) cu = Inr cp \<and> opt_all checkpoint_ok cp"
proof (cases "find (\<lambda>c. checkpoint_identity c = (m_exchange b, m_market b, m_symbol b, m_timeframe b, m_source_kind b)) (cu_checkpoints cu)")
  case None
  then show ?thesis using storable_identity [OF assms(2)] by (simp add: get_checkpoint_def)
next
  case (Some c)
  then have "checkpoint_ok c" using assms(1) by (auto simp: find_Some_iff checkpoints_ok_def list_all_iff)
  then show ?thesis using Some storable_identity [OF assms(2)] by (simp add: get_checkpoint_def)
qed

lemma checkpoint_written:
  assumes "storable b" and "event_ok event_time received_at" and "checkpoints_ok cu"
    and "opt_all checkpoint_ok cp" and "opt_all sql_int_ok last_closed"
  shows "\<exists>cu'. update_checkpoint (bar_checkpoint cp b last_closed event_time received_at status) cu = Inr cu' \<and> checkpoints_ok cu' \<and>
    cu_candles cu' = cu_candles cu \<and> get_checkpoint (bar_key b) cu' = Inr (Some (bar_checkpoint cp b last_closed event_time received_at status))"
proof -
  let ?c = "bar_checkpoint cp b last_closed event_time received_at status"
  have s: "checkpoint_series ?c = bar_key b" by (simp add: checkpoint_series_def bar_checkpoint_def bar_key_def)
  have "key_identity (bar_key b) = Inr (checkpoint_identity ?c)"
    using storable_identity [OF assms(1)] by (simp add: checkpoint_identity_def bar_checkpoint_def)
  then show ?thesis using checkpoint_update [OF assms(3) bar_checkpoint_ok [OF assms(1,2,5,4)], where status1 = status] unfolding s by blast
qed

lemma closed_checkpoint_written:
  assumes "storable b" and "event_ok event_time received_at" and "checkpoints_ok cu"
  shows "\<exists>cu' cp. closed_checkpoint b event_time received_at cu = Inr cu' \<and> checkpoints_ok cu' \<and> cu_candles cu' = cu_candles cu \<and>
    get_checkpoint (bar_key b) cu' = Inr (Some cp) \<and> cp_last_closed_bar_time cp = Some (b_time b)"
proof -
  obtain cp where cp: "get_checkpoint (bar_key b) cu = Inr cp" "opt_all checkpoint_ok cp" using checkpoint_found [OF assms(3,1)] by blast
  have "opt_all sql_int_ok (Some (b_time b))" using storable_sql(1) [OF assms(1)] by simp
  from checkpoint_written [OF assms cp(2) this, of "''connected''"] cp(1) show ?thesis
    by (auto simp: closed_checkpoint_def bar_checkpoint_def)
qed

lemma series_at_put [simp]: "series_at path (put_series path st cs) = st" "cs_current (put_series path st cs) = cs_current cs"
  by (simp_all add: series_at_def put_series_def)

lemma dirs_put [simp]: "p \<noteq> path \<Longrightarrow> cs_dirs (put_series path st cs) p = cs_dirs cs p"
  by (simp add: put_series_def)

lemma series_at_current [simp]: "series_at path (cs\<lparr>cs_current := cu\<rparr>) = series_at path cs"
  by (simp add: series_at_def)

lemma contains_locked:
  assumes "contains sha rs key c st" and "series_path key = Inr path"
  shows "series_writer_lock key body st = body st"
  by (rule writer_lock_idle [OF contains_idle [OF assms(1)] assms(2)])

text \<open>The rows of the open-candle table that a commit of a bar deletes.\<close>

definition is_row_of :: "market_bar \<Rightarrow> current_row \<Rightarrow> bool" where
  "is_row_of b r \<longleftrightarrow>
     row_identity r = (m_exchange b, m_market b, m_symbol b, m_timeframe b, m_source_kind b) \<and>
     cr_source_transport r = m_source_transport b \<and> cr_open_time r = b_time b"

lemma delete_current_rows:
  "storable b \<Longrightarrow> delete_current b cu = Inr (cu\<lparr>cu_candles := filter (\<lambda>r. \<not> is_row_of b r) (cu_candles cu)\<rparr>)"
  by (simp add: delete_current_def storable_identity is_row_of_def)

lemma commit_closed_steps:
  assumes "committable sha rs b" and "contains sha rs (bar_key b) c (series_at path cs)" and "series_path (bar_key b) = Inr path"
    and "event_ok event_time received_at" and "checkpoints_ok (cs_current cs)"
  shows "\<exists>cs'. commit_closed_bar sha rs b event_time received_at cs =
      (bindR (fst (commit_spec sha rs b c)) (\<lambda>s. Inr \<lparr>cm_status = s, cm_diagnostic = None\<rparr>), cs') \<and>
    contains sha rs (bar_key b) (snd (commit_spec sha rs b c)) (series_at path cs') \<and>
    (\<forall>p. p \<noteq> path \<longrightarrow> cs_dirs cs' p = cs_dirs cs p) \<and> checkpoints_ok (cs_current cs') \<and>
    (case fst (commit_spec sha rs b c) of
       Inl _ \<Rightarrow> cs_current cs' = cs_current cs
     | Inr _ \<Rightarrow> cu_candles (cs_current cs') = filter (\<lambda>r. \<not> is_row_of b r) (cu_candles (cs_current cs)) \<and>
         (\<exists>cp. get_checkpoint (bar_key b) (cs_current cs') = Inr (Some cp) \<and> cp_last_closed_bar_time cp = Some (b_time b)))"
proof -
  obtain st where st: "commit_segment sha rs b (series_at path cs) = (fst (commit_spec sha rs b c), st)"
    "contains sha rs (bar_key b) (snd (commit_spec sha rs b c)) st"
    using commit_segment_refines [OF assms(1,2)] by blast
  let ?cs = "put_series path st cs"
  have seg: "on_series (bar_key b) (series_writer_lock (bar_key b) (commit_segment sha rs b)) cs = (fst (commit_spec sha rs b c), ?cs)"
    using st(1) assms(3) by (simp add: on_series_def contains_locked [OF assms(2,3)] Let_def)
  show ?thesis
  proof (cases "fst (commit_spec sha rs b c)")
    case (Inl e)
    then show ?thesis using seg st(2) assms(5) by (simp add: commit_closed_bar_def and_then_def)
  next
    case (Inr s)
    have b: "storable b" using assms(1) by (simp add: committable_def bars_ok_def)
    let ?cu = "cs_current cs\<lparr>cu_candles := filter (\<lambda>r. \<not> is_row_of b r) (cu_candles (cs_current cs))\<rparr>"
    have "checkpoints_ok ?cu" using assms(5) by (simp add: checkpoints_ok_def)
    then obtain cu cp where cu: "closed_checkpoint b event_time received_at ?cu = Inr cu" "checkpoints_ok cu" "cu_candles cu = cu_candles ?cu"
      "get_checkpoint (bar_key b) cu = Inr (Some cp)" "cp_last_closed_bar_time cp = Some (b_time b)"
      using closed_checkpoint_written [OF b assms(4)] by blast
    have "commit_closed_bar sha rs b event_time received_at cs = (Inr \<lparr>cm_status = s, cm_diagnostic = None\<rparr>, ?cs\<lparr>cs_current := cu\<rparr>)"
      using seg Inr cu(1) delete_current_rows [OF b] by (simp add: commit_closed_bar_def and_then_def on_current_def)
    then show ?thesis using Inr st(2) cu by simp
  qed
qed

text \<open>
  C3. Committing a closed candle refines its specification. Whatever the series held, the call
  returns the specified status and leaves the specified bars: a new candle is inserted in its place
  and reported as committed, by the append path or the rewrite path; a candle with the same digest
  is a duplicate and changes no bar; another candle at a stored time raises the conflict and leaves
  the bars, the open candles and the checkpoint as they were. On success the open candle of that
  time and transport is gone, other open candles stay, and the checkpoint records the candle. No
  other series directory is touched.
\<close>

theorem commit_closed_refines:
  assumes "committable sha rs b" and "m_is_closed b = Some True"
    and "contains sha rs (bar_key b) c (series_at path cs)" and "series_path (bar_key b) = Inr path"
    and "event_ok event_time received_at" and "checkpoints_ok (cs_current cs)"
  shows "\<exists>cs'. commit_closed sha rs b event_time received_at raw cs =
      (bindR (fst (commit_spec sha rs b c)) (\<lambda>s. Inr \<lparr>cm_status = s, cm_diagnostic = None\<rparr>), cs') \<and>
    contains sha rs (bar_key b) (snd (commit_spec sha rs b c)) (series_at path cs') \<and>
    (\<forall>p. p \<noteq> path \<longrightarrow> cs_dirs cs' p = cs_dirs cs p) \<and>
    (case fst (commit_spec sha rs b c) of
       Inl _ \<Rightarrow> cs_current cs' = cs_current cs
     | Inr _ \<Rightarrow> cu_candles (cs_current cs') = filter (\<lambda>r. \<not> is_row_of b r) (cu_candles (cs_current cs)) \<and>
         (\<exists>cp. get_checkpoint (bar_key b) (cs_current cs') = Inr (Some cp) \<and> cp_last_closed_bar_time cp = Some (b_time b)))"
  using commit_closed_steps [OF assms(1,3-6)] assms(2) unfolding commit_closed_def by auto

lemma sample_committable: "committable sample_sha sample_rs (sample_bar 0)" "committable sample_sha sample_rs (sample_bar 60000)"
  using sample_rs_ok sample_sha_length sample_bars_ok sample_encodable by (simp_all add: committable_def)

lemma sample_path: "\<exists>path. series_path sample_key = Inr path"
  using described_path [OF sample_identity] .

lemma empty_store_contains: "contains sha rs key None (series_at path empty_store)"
  using sample_vacant [of key] by (simp add: contains_def series_at_def empty_store_def empty_state_def)

lemma empty_store_checkpoints: "checkpoints_ok (cs_current empty_store)"
  by (simp add: checkpoints_ok_def empty_store_def empty_current_def)

theorem commit_closed_refines_witness:
  "\<exists>path cs. series_path sample_key = Inr path \<and>
     commit_closed sample_sha sample_rs (sample_bar 0) (Some 60000) None None empty_store = (Inr \<lparr>cm_status = ''committed'', cm_diagnostic = None\<rparr>, cs) \<and>
     contains sample_sha sample_rs sample_key (Some [sample_bar 0]) (series_at path cs)"
proof -
  obtain path where path: "series_path sample_key = Inr path" using sample_path by blast
  have "event_ok (Some 60000) None" "m_is_closed (sample_bar 0) = Some True" by code_simp+
  moreover have "commit_spec sample_sha sample_rs (sample_bar 0) None = (Inr ''committed'', Some [sample_bar 0])"
    by (simp add: commit_spec_def content_def)
  ultimately show ?thesis
    using commit_closed_refines [OF sample_committable(1), where c = None and path = path and cs = empty_store and raw = None]
      empty_store_contains empty_store_checkpoints path
    unfolding sample_bar_key by fastforce
qed

subsection \<open>Open candles\<close>

definition open_ok :: "(revision_state \<Rightarrow> string) \<Rightarrow> market_bar \<Rightarrow> bool" where
  "open_ok rs b \<longleftrightarrow> rs_ok rs \<and> storable b \<and> sql_exact b \<and> m_is_closed b = Some False \<and>
     \<not> list_ex f_isnan [b_open b, b_high b, b_low b, b_close b, b_volume b]"

lemma get_bar_store:
  assumes "rs_ok rs" and "contains sha rs key c (series_at path cs)" and "series_path key = Inr path"
  shows "\<exists>cs'. on_series key (get_bar sha rs key t) cs = (Inr (find (\<lambda>x. b_time x = t) (content c)), cs') \<and>
    contains sha rs key c (series_at path cs') \<and> cs_current cs' = cs_current cs"
proof -
  obtain st where "get_bar_locked sha rs t (series_at path cs) = (Inr (find (\<lambda>x. b_time x = t) (content c)), st)" "contains sha rs key c st"
    using get_bar_contains [OF assms(1,2)] by blast
  moreover have "get_bar sha rs key t (series_at path cs) = get_bar_locked sha rs t (series_at path cs)"
    using contains_locked [OF assms(2,3), of "read_all_locked sha rs (Some t) (Some (t + 1))"] assms(3)
    by (simp add: get_bar_def get_bar_locked_def read_all_def series_reader_lock_def)
  ultimately show ?thesis using assms(3) by (simp add: on_series_def Let_def)
qed

lemma upsert_current_accepts:
  assumes "open_ok rs b" and "event_ok event_time received_at"
  shows "\<exists>cu'. upsert_current rs b event_time received_at raw cu = Inr cu' \<and> cu_checkpoints cu' = cu_checkpoints cu"
proof -
  have b: "storable b" "m_is_closed b = Some False" using assms(1) by (simp_all add: open_ok_def)
  obtain v vs c where v: "m_provider_revision b = Some (v # vs)" "b_time_close b = Some c" "int53 c" "m_provider b \<noteq> []"
    "canonical_timeframe (m_timeframe b) = Inr (m_timeframe b)" "int53 (m_revision b)" "opt_all int53 (m_trades_count b)"
    using b(1) by (auto simp: storable_def neq_Nil_conv)
  have trades: "opt_all sql_int_ok (m_trades_count b)" using v(7) int53_sql by (cases "m_trades_count b") auto
  have ev: "opt_all sql_int_ok event_time" "opt_all sql_int_ok received_at" using assms(2) by (simp_all add: event_ok_def)
  note at = int_default_ok [OF int_or_ok [OF ev(2) storable_sql(2) [OF b(1)]] sql_zero]
  have reals: "\<not> list_ex f_isnan [b_open b, b_high b, b_low b, b_close b, b_volume b]" using assms(1) unfolding open_ok_def by blast
  let ?row = "candle_row rs (m_timeframe b) c False b event_time received_at raw"
  have "list_all sql_int_ok [cr_open_time ?row, cr_close_time ?row, m_revision b, cr_received_at ?row]" "opt_all sql_int_ok (cr_trades_count ?row)"
    "\<not> list_ex f_isnan [b_open b, b_high b, b_low b, b_close b, b_volume b]"
    using reals int53_sql [OF v(3)] int53_sql [OF v(6)] storable_sql(1) [OF b(1)] trades at by (simp_all add: candle_row_def)
  then show ?thesis
    unfolding upsert_current_def b(2) v(1,2,5) using v(4) ev by (simp add: Let_def)
qed


lemma sample_open_ok: "open_ok sample_rs (sample_open 60000)"
proof -
  have "sql_exact (sample_open 60000)" by code_simp
  moreover have "\<not> list_ex f_isnan [b_open (sample_open 60000), b_high (sample_open 60000), b_low (sample_open 60000), b_close (sample_open 60000), b_volume (sample_open 60000)]"
    by code_simp
  ultimately show ?thesis using sample_rs_ok sample_open_storable by (simp only: open_ok_def sample_open_simps simp_thms)
qed


end
