(* ===== verification/Streaming.thy ===== *)
theory Streaming
  imports JsonValues
begin

section \<open>Streaming: kline updates and the coalescing queue\<close>

text \<open>
  Models \<^verbatim>\<open>streaming/kline.py\<close> and, of \<^verbatim>\<open>streaming/live.py\<close>, the bounded
  queue and the choice of the endpoint (the socket loop itself is network I/O). Payload values
  are \<^typ>\<open>json\<close>.
\<close>

subsection \<open>Kline updates (\<^verbatim>\<open>streaming/kline.py\<close>)\<close>

record kline_update =
  ku_exchange :: string
  ku_market :: string
  ku_symbol :: string
  ku_timeframe :: string
  ku_event_time :: int
  ku_open_time :: int
  ku_close_time :: int
  ku_open :: float64
  ku_high :: float64
  ku_low :: float64
  ku_close :: float64
  ku_volume :: float64
  ku_source_kind :: string
  ku_quote_volume :: "float64 option"
  ku_turnover :: "float64 option"
  ku_trades_count :: "int option"
  ku_taker_buy_base_volume :: "float64 option"
  ku_taker_buy_quote_volume :: "float64 option"
  ku_is_closed :: bool
  ku_raw_source :: string
  ku_raw_event_id :: "string option"
  ku_received_at :: "int option"
  ku_open_text :: "string option"
  ku_high_text :: "string option"
  ku_low_text :: "string option"
  ku_close_text :: "string option"
  ku_volume_text :: "string option"

definition kline_payload :: "kline_update \<Rightarrow> json" where
  "kline_payload u =
     JObj [(''exchange'', JStr (ku_exchange u)), (''market'', JStr (ku_market u)),
           (''symbol'', JStr (ku_symbol u)), (''timeframe'', JStr (ku_timeframe u)),
           (''event_time'', JInt (ku_event_time u)), (''open_time'', JInt (ku_open_time u)),
           (''close_time'', JInt (ku_close_time u)), (''open'', JStr (f_repr (ku_open u))),
           (''high'', JStr (f_repr (ku_high u))), (''low'', JStr (f_repr (ku_low u))),
           (''close'', JStr (f_repr (ku_close u))), (''volume'', JStr (f_repr (ku_volume u))),
           (''is_closed'', JBool (ku_is_closed u))]"

definition kline_to_market_bar ::
  "(json \<Rightarrow> string \<Rightarrow> string) \<Rightarrow> kline_update \<Rightarrow> int option \<Rightarrow> market_bar res" where
  "kline_to_market_bar content_hash u downloaded_at =
     (let provider_revision =
        (case ku_raw_event_id u of
           Some i \<Rightarrow> (if i \<noteq> [] then i else content_hash (kline_payload u) ''marketdata-provider.stream-revision.v1'')
         | None \<Rightarrow> content_hash (kline_payload u) ''marketdata-provider.stream-revision.v1'') in
      bindR (canonical_timeframe (ku_timeframe u)) (\<lambda>timeframe.
      market_bar_post_init
       \<lparr>b_time = ku_open_time u, b_open = ku_open u, b_high = ku_high u, b_low = ku_low u,
        b_close = ku_close u, b_volume = ku_volume u, b_time_close = Some (ku_close_time u),
        m_exchange = py_lower (ku_exchange u), m_market = py_lower (ku_market u),
        m_symbol = py_upper (ku_symbol u), m_timeframe = timeframe,
        m_source_transport = ku_raw_source u, m_source_kind = ku_source_kind u, m_source = [],
        m_is_closed = Some (ku_is_closed u), m_provider = py_lower (ku_exchange u),
        m_provider_revision = Some provider_revision, m_revision_state = ORIGINAL, m_revision = 0,
        m_open_text = ku_open_text u, m_high_text = ku_high_text u, m_low_text = ku_low_text u,
        m_close_text = ku_close_text u, m_volume_text = ku_volume_text u,
        m_quote_volume = ku_quote_volume u, m_turnover = ku_turnover u,
        m_trades_count = ku_trades_count u,
        m_taker_buy_base_volume = ku_taker_buy_base_volume u,
        m_taker_buy_quote_volume = ku_taker_buy_quote_volume u,
        m_downloaded_at = (case downloaded_at of Some d \<Rightarrow> Some d | None \<Rightarrow> ku_received_at u),
        m_metadata = []\<rparr>))"

definition normalize_binance_kline ::
  "(string \<times> json) list \<Rightarrow> string \<Rightarrow> string option \<Rightarrow> string \<Rightarrow> int option \<Rightarrow> kline_update res" where
  "normalize_binance_kline payload market timeframe source_kind received_at =
     bindR (obj_item payload ''k'') (\<lambda>kv.
     case kv of JObj k \<Rightarrow>
       bindR (case timeframe of Some t \<Rightarrow> if t \<noteq> [] then Inr t else json_text (json_or (obj_get k ''i'') (JStr ''1m''))
              | None \<Rightarrow> json_text (json_or (obj_get k ''i'') (JStr ''1m''))) (\<lambda>tf.
       bindR (json_text (json_or (obj_get k ''s'') (obj_get payload ''s''))) (\<lambda>symbol.
       bindR (json_int (json_or (obj_get payload ''E'') (JInt 0))) (\<lambda>event_time.
       bindR (bindR (obj_item k ''t'') json_int) (\<lambda>open_time.
       bindR (bindR (obj_item k ''T'') json_int) (\<lambda>close_time.
       bindR (bindR (obj_item k ''o'') json_float) (\<lambda>o'.
       bindR (bindR (obj_item k ''h'') json_float) (\<lambda>h.
       bindR (bindR (obj_item k ''l'') json_float) (\<lambda>l.
       bindR (bindR (obj_item k ''c'') json_float) (\<lambda>c.
       bindR (bindR (obj_item k ''v'') json_float) (\<lambda>v.
       bindR (opt_field json_float k ''q'') (\<lambda>q.
       bindR (opt_field json_int k ''n'') (\<lambda>n.
       bindR (opt_field json_float k ''V'') (\<lambda>tb.
       bindR (opt_field json_float k ''Q'') (\<lambda>tq.
       bindR (json_text (case map_of payload ''e'' of Some e \<Rightarrow> e | None \<Rightarrow> JStr ''kline'')) (\<lambda>e.
       bindR (json_text (case map_of payload ''E'' of Some t \<Rightarrow> t | None \<Rightarrow> JStr [])) (\<lambda>et.
       bindR (json_text (obj_get k ''o'')) (\<lambda>ot.
       bindR (json_text (obj_get k ''h'')) (\<lambda>ht.
       bindR (json_text (obj_get k ''l'')) (\<lambda>lt.
       bindR (json_text (obj_get k ''c'')) (\<lambda>ct.
       bindR (json_text (obj_get k ''v'')) (\<lambda>vt.
       Inr \<lparr>ku_exchange = ''binance'', ku_market = market, ku_symbol = py_upper symbol, ku_timeframe = tf,
            ku_event_time = event_time, ku_open_time = open_time, ku_close_time = close_time,
            ku_open = o', ku_high = h, ku_low = l, ku_close = c, ku_volume = v,
            ku_source_kind = source_kind, ku_quote_volume = q, ku_turnover = None, ku_trades_count = n,
            ku_taker_buy_base_volume = tb, ku_taker_buy_quote_volume = tq,
            ku_is_closed = json_truthy (obj_get k ''x''), ku_raw_source = ''ws'',
            ku_raw_event_id = Some (e @ '':'' @ et), ku_received_at = received_at,
            ku_open_text = Some ot, ku_high_text = Some ht, ku_low_text = Some lt,
            ku_close_text = Some ct, ku_volume_text = Some vt\<rparr>)))))))))))))))))))))
     | _ \<Rightarrow> Inl (PyTypeError ''k''))"

definition bybit_kline_item ::
  "string \<Rightarrow> string \<Rightarrow> string \<Rightarrow> (string \<times> json) list \<Rightarrow> string \<Rightarrow> string \<Rightarrow> int option \<Rightarrow> json \<Rightarrow> kline_update res" where
  "bybit_kline_item topic interval symbol payload market source_kind received_at itemv =
     (case itemv of JObj item \<Rightarrow>
       bindR (bindR (obj_item item ''start'') json_int) (\<lambda>start.
       bindR (if json_truthy (obj_get item ''end'') then json_int (obj_get item ''end'')
              else close_time_ms start interval) (\<lambda>end_time.
       bindR (json_int (json_or (obj_get item ''timestamp'') (json_or (obj_get payload ''ts'') (JInt 0)))) (\<lambda>event_time.
       bindR (bindR (obj_item item ''open'') json_float) (\<lambda>o'.
       bindR (bindR (obj_item item ''high'') json_float) (\<lambda>h.
       bindR (bindR (obj_item item ''low'') json_float) (\<lambda>l.
       bindR (bindR (obj_item item ''close'') json_float) (\<lambda>c.
       bindR (bindR (obj_item item ''volume'') json_float) (\<lambda>v.
       bindR (opt_field json_float item ''turnover'') (\<lambda>turnover.
       bindR (json_text (case map_of payload ''ts'' of Some t \<Rightarrow> t | None \<Rightarrow> JStr [])) (\<lambda>ts.
       bindR (json_text (obj_get item ''open'')) (\<lambda>ot.
       bindR (json_text (obj_get item ''high'')) (\<lambda>ht.
       bindR (json_text (obj_get item ''low'')) (\<lambda>lt.
       bindR (json_text (obj_get item ''close'')) (\<lambda>ct.
       bindR (json_text (obj_get item ''volume'')) (\<lambda>vt.
       Inr \<lparr>ku_exchange = ''bybit'', ku_market = market, ku_symbol = py_upper symbol, ku_timeframe = interval,
            ku_event_time = event_time, ku_open_time = start, ku_close_time = end_time,
            ku_open = o', ku_high = h, ku_low = l, ku_close = c, ku_volume = v,
            ku_source_kind = source_kind, ku_quote_volume = None, ku_turnover = turnover,
            ku_trades_count = None, ku_taker_buy_base_volume = None, ku_taker_buy_quote_volume = None,
            ku_is_closed = json_truthy (obj_get item ''confirm''), ku_raw_source = ''ws'',
            ku_raw_event_id = Some (topic @ '':'' @ ts), ku_received_at = received_at,
            ku_open_text = Some ot, ku_high_text = Some ht, ku_low_text = Some lt,
            ku_close_text = Some ct, ku_volume_text = Some vt\<rparr>)))))))))))))))
     | _ \<Rightarrow> Inl (PyTypeError ''item''))"

definition normalize_bybit_kline ::
  "(string \<times> json) list \<Rightarrow> string \<Rightarrow> string \<Rightarrow> int option \<Rightarrow> kline_update list res" where
  "normalize_bybit_kline payload market source_kind received_at =
     bindR (json_text (case map_of payload ''topic'' of Some t \<Rightarrow> t | None \<Rightarrow> JStr [])) (\<lambda>topic.
     let parts = py_split CHR ''.'' topic;
         interval = (if 3 \<le> length parts then parts ! 1 else ''1'') in
     bindR (if 3 \<le> length parts then Inr (parts ! 2)
            else json_text (case map_of payload ''symbol'' of Some t \<Rightarrow> t | None \<Rightarrow> JStr [])) (\<lambda>symbol.
     case map_of payload ''data'' of
       None \<Rightarrow> Inr []
     | Some (JArr items) \<Rightarrow>
         mapR (bybit_kline_item topic interval symbol payload market source_kind received_at) items
     | Some _ \<Rightarrow> Inl (PyTypeError ''data'')))"

definition bybit_topic :: "string \<Rightarrow> string \<Rightarrow> string res" where
  "bybit_topic timeframe symbol =
     bindR (to_bybit_interval timeframe) (\<lambda>i. Inr (''kline.'' @ i @ ''.'' @ py_upper symbol))"

subsection \<open>The stream endpoint\<close>

text \<open>The URL and, for Bybit, the topic to subscribe to.\<close>

definition stream_endpoint :: "string \<Rightarrow> string \<Rightarrow> string \<Rightarrow> string \<Rightarrow> (string \<times> string option) res" where
  "stream_endpoint exchange market0 symbol0 timeframe =
     (let market = py_lower market0; symbol = py_upper symbol0 in
      if exchange = ''binance'' then
        bindR (to_binance_interval timeframe) (\<lambda>interval.
          let stream = py_lower symbol @ ''@kline_'' @ interval in
          if market = ''spot'' then Inr (''wss://stream.binance.com:9443/ws/'' @ stream, None)
          else if market = ''usdm'' then Inr (''wss://fstream.binancefuture.com/ws/'' @ stream, None)
          else Inl (MDSymbolUnsupported ''Unsupported Binance WebSocket market: ''))
      else if exchange = ''bybit'' then
        (if market \<notin> {''spot'', ''linear''} then Inl (MDSymbolUnsupported ''Unsupported Bybit WebSocket market: '')
         else bindR (bybit_topic timeframe symbol) (\<lambda>topic.
           Inr (if market = ''spot'' then ''wss://stream.bybit.com/v5/public/spot''
                else ''wss://stream.bybit.com/v5/public/linear'', Some topic)))
      else Inl (MDUnsupportedFeature ''Unsupported WebSocket exchange: ''))"

subsection \<open>The coalescing queue\<close>

type_synonym kline_key = "string \<times> string \<times> string \<times> string \<times> string \<times> int"

record stream_diagnostic =
  sd_code :: string
  sd_message :: string
  sd_details :: "(string \<times> json) list"

record kline_queue =
  kq_maxsize :: int
  kq_items :: "(kline_key \<times> kline_update) list"
  kq_dropped :: int
  kq_coalesced :: int
  kq_diagnostics :: "stream_diagnostic list"

definition kline_key :: "kline_update \<Rightarrow> kline_key" where
  "kline_key u = (ku_exchange u, ku_market u, ku_symbol u, ku_timeframe u, ku_source_kind u, ku_open_time u)"

definition queue_new :: "int \<Rightarrow> kline_queue res" where
  "queue_new maxsize =
     (if maxsize < 1 then Inl (PyValueError ''maxsize must be >= 1'')
      else Inr \<lparr>kq_maxsize = maxsize, kq_items = [], kq_dropped = 0, kq_coalesced = 0, kq_diagnostics = []\<rparr>)"

definition overflow_diagnostic :: "int \<Rightarrow> stream_diagnostic" where
  "overflow_diagnostic maxsize =
     \<lparr>sd_code = ''MD_STREAM_BACKPRESSURE_DROP'',
      sd_message = ''bounded stream queue overflow; oldest candle update dropped'',
      sd_details = [(''maxsize'', JInt maxsize)]\<rparr>"

definition queue_put :: "kline_update \<Rightarrow> kline_queue \<Rightarrow> kline_queue" where
  "queue_put u q =
     (let key = kline_key u in
      if map_of (kq_items q) key \<noteq> None
        then q\<lparr>kq_items := AList.update key u (kq_items q), kq_coalesced := kq_coalesced q + 1\<rparr>
      else
        (let q' = (if kq_maxsize q \<le> int (length (kq_items q)) then
                     q\<lparr>kq_items := tl (kq_items q), kq_dropped := kq_dropped q + 1,
                       kq_diagnostics := kq_diagnostics q @ [overflow_diagnostic (kq_maxsize q)]\<rparr>
                   else q)
         in q'\<lparr>kq_items := AList.update key u (kq_items q')\<rparr>))"

definition queue_drain :: "kline_queue \<Rightarrow> kline_update list \<times> kline_queue" where
  "queue_drain q = (map snd (kq_items q), q\<lparr>kq_items := []\<rparr>)"

subsection \<open>Interface: a bounded buffer that keeps the latest update per key\<close>

locale coalescing_buffer =
  fixes put :: "'u \<Rightarrow> 'q \<Rightarrow> 'q" and items :: "'q \<Rightarrow> ('k \<times> 'u) list" and key :: "'u \<Rightarrow> 'k"
    and inv :: "'q \<Rightarrow> bool" and lost :: "'q \<Rightarrow> int" and capacity :: "'q \<Rightarrow> int"
  assumes put_inv: "inv q \<Longrightarrow> inv (put u q)"
    and put_capacity: "capacity (put u q) = capacity q"
    and inv_capacity: "inv q \<Longrightarrow> int (length (items q)) \<le> capacity q"
    and put_count: "inv q \<Longrightarrow>
      int (length (items (put u q))) + lost (put u q) = int (length (items q)) + lost q + 1"
    and put_same: "inv q \<Longrightarrow> map_of (items (put u q)) (key u) = Some u"
    and put_other: "inv q \<Longrightarrow> k \<noteq> key u \<Longrightarrow>
      map_of (items (put u q)) k = Some x \<Longrightarrow> map_of (items q) k = Some x"
begin

definition feed :: "'u list \<Rightarrow> 'q \<Rightarrow> 'q" where
  "feed us q = foldl (\<lambda>q u. put u q) q us"

lemma feed_inv: "inv q \<Longrightarrow> inv (feed us q)"
  by (induction us arbitrary: q) (auto simp: feed_def put_inv)

lemma feed_capacity: "capacity (feed us q) = capacity q"
  by (induction us arbitrary: q) (auto simp: feed_def put_capacity)

lemma feed_bounded: "inv q \<Longrightarrow> int (length (items (feed us q))) \<le> capacity q"
  using inv_capacity [OF feed_inv] by (simp add: feed_capacity)

lemma feed_count:
  "inv q \<Longrightarrow> int (length (items (feed us q))) + lost (feed us q) = int (length (items q)) + lost q + int (length us)"
proof (induction us arbitrary: q)
  case Nil
  show ?case by (simp add: feed_def)
next
  case (Cons u us)
  from Cons.IH [OF put_inv [OF Cons.prems]] put_count [OF Cons.prems, of u] show ?case by (simp add: feed_def)
qed

lemma feed_snoc: "feed (us @ [u]) q = put u (feed us q)"
  by (simp add: feed_def)

lemma feed_latest:
  assumes "inv q" and "items q = []"
  shows "map_of (items (feed us q)) k = Some x \<Longrightarrow> find (\<lambda>y. key y = k) (rev us) = Some x"
proof (induction us arbitrary: x rule: rev_induct)
  case Nil
  then show ?case using assms by (simp add: feed_def)
next
  case (snoc u us)
  note inv = feed_inv [OF assms(1), of us]
  show ?case
  proof (cases "key u = k")
    case True
    then show ?thesis using snoc.prems put_same [OF inv, of u] by (simp add: feed_snoc)
  next
    case False
    then have "map_of (items (feed us q)) k = Some x"
      using snoc.prems put_other [OF inv, of k u x] by (simp add: feed_snoc)
    with snoc.IH False show ?thesis by simp
  qed
qed

lemma feed_last: "inv q \<Longrightarrow> us \<noteq> [] \<Longrightarrow> map_of (items (feed us q)) (key (last us)) = Some (last us)"
  by (cases us rule: rev_cases) (auto simp: feed_snoc put_same feed_inv)

end

subsection \<open>The queue implements the interface\<close>

definition queue_inv :: "kline_queue \<Rightarrow> bool" where
  "queue_inv q \<longleftrightarrow> 1 \<le> kq_maxsize q \<and> keyed kline_key (kq_items q) \<and>
     int (length (kq_items q)) \<le> kq_maxsize q \<and> kq_dropped q = int (length (kq_diagnostics q))"

lemma queue_put_hit:
  "map_of (kq_items q) (kline_key u) = Some x \<Longrightarrow>
   queue_put u q = q\<lparr>kq_items := AList.update (kline_key u) u (kq_items q), kq_coalesced := kq_coalesced q + 1\<rparr>"
  by (simp add: queue_put_def)

lemma queue_put_room:
  "map_of (kq_items q) (kline_key u) = None \<Longrightarrow> int (length (kq_items q)) < kq_maxsize q \<Longrightarrow>
   queue_put u q = q\<lparr>kq_items := kq_items q @ [(kline_key u, u)]\<rparr>"
  by (simp add: queue_put_def update_nonexist map_of_eq_None_iff)

lemma queue_put_full:
  assumes "map_of (kq_items q) (kline_key u) = None" and "kq_maxsize q \<le> int (length (kq_items q))"
  shows "queue_put u q = q\<lparr>kq_items := tl (kq_items q) @ [(kline_key u, u)], kq_dropped := kq_dropped q + 1,
     kq_diagnostics := kq_diagnostics q @ [overflow_diagnostic (kq_maxsize q)]\<rparr>"
proof -
  have "kline_key u \<notin> fst ` set (tl (kq_items q))"
    using assms(1) unfolding map_of_eq_None_iff by (cases "kq_items q") auto
  then show ?thesis using assms by (simp add: queue_put_def update_nonexist)
qed

lemma queue_put_cases:
  assumes "queue_inv q"
  obtains (hit) x where "map_of (kq_items q) (kline_key u) = Some x"
  | (room) "map_of (kq_items q) (kline_key u) = None" "int (length (kq_items q)) < kq_maxsize q"
  | (full) p ps where "map_of (kq_items q) (kline_key u) = None" "kq_items q = p # ps" "kq_maxsize q = int (Suc (length ps))"
  using assms by (cases "kq_items q"; cases "map_of (kq_items q) (kline_key u)") (force simp: queue_inv_def)+

lemmas queue_put_simps = queue_put_hit queue_put_room queue_put_full

lemma length_update_present: "map_of d k = Some x \<Longrightarrow> length (AList.update k v d) = length d"
  by (induction d) (auto split: if_splits)

lemma keyed_snoc: "keyed key d \<Longrightarrow> key x \<notin> fst ` set d \<Longrightarrow> keyed key (d @ [(key x, x)])"
  by (auto simp: keyed_def)

lemma queue_inv_put:
  assumes "queue_inv q"
  shows "queue_inv (queue_put u q)"
  using assms
proof (cases rule: queue_put_cases [where u = u])
  case (hit x)
  then show ?thesis
    using assms by (simp add: queue_put_simps queue_inv_def keyed_update length_update_present)
next
  case room
  then show ?thesis
    using assms by (simp add: queue_put_simps queue_inv_def keyed_snoc map_of_eq_None_iff)
next
  case (full p ps)
  then have "kline_key u \<notin> fst ` set ps" "keyed kline_key ps"
    using assms unfolding map_of_eq_None_iff by (auto simp: queue_inv_def keyed_def)
  then show ?thesis
    using full assms by (simp add: queue_put_simps queue_inv_def keyed_snoc)
qed

lemma queue_put_get:
  assumes "queue_inv q"
  shows "map_of (kq_items (queue_put u q)) (kline_key u) = Some u"
  using assms
proof (cases rule: queue_put_cases [where u = u])
  case (full p ps)
  then have "map_of ps (kline_key u) = None" by (simp split: if_splits)
  then show ?thesis using full by (simp add: queue_put_simps map_add_def)
qed (simp_all add: queue_put_simps update_conv' map_add_def)

interpretation kline_buffer: coalescing_buffer queue_put kq_items kline_key queue_inv
  "\<lambda>q. kq_dropped q + kq_coalesced q" kq_maxsize
proof
  fix q u
  show "queue_inv q \<Longrightarrow> queue_inv (queue_put u q)" by (rule queue_inv_put)
  show "kq_maxsize (queue_put u q) = kq_maxsize q" by (simp add: queue_put_def Let_def)
  show "queue_inv q \<Longrightarrow> int (length (kq_items q)) \<le> kq_maxsize q" by (simp add: queue_inv_def)
  assume inv: "queue_inv q"
  show "int (length (kq_items (queue_put u q))) + (kq_dropped (queue_put u q) + kq_coalesced (queue_put u q)) =
    int (length (kq_items q)) + (kq_dropped q + kq_coalesced q) + 1"
    using inv by (cases rule: queue_put_cases [where u = u]) (simp_all add: queue_put_simps length_update_present)
  show "map_of (kq_items (queue_put u q)) (kline_key u) = Some u"
    using inv by (rule queue_put_get)
  fix k x
  assume k: "k \<noteq> kline_key u" and x: "map_of (kq_items (queue_put u q)) k = Some x"
  show "map_of (kq_items q) k = Some x"
    using inv
  proof (cases rule: queue_put_cases [where u = u])
    case (full p ps)
    then have "map_of ps k = Some x" using k x by (auto simp: queue_put_simps map_add_def split: option.splits)
    moreover have "distinct (map fst (p # ps))" using inv full by (simp add: queue_inv_def keyed_def)
    ultimately show ?thesis using full by (metis map_of_SomeD map_of_eq_Some_iff list.set_intros(2))
  qed (use k x in \<open>auto simp: queue_put_simps update_conv' map_add_def split: option.splits\<close>)
qed

lemma queue_new_inv: "queue_new n = Inr q \<Longrightarrow>
  queue_inv q \<and> kq_items q = [] \<and> kq_dropped q + kq_coalesced q = 0 \<and> kq_maxsize q = n"
  by (auto simp: queue_new_def queue_inv_def split: if_splits)

text \<open>
  The coalescing queue is bounded and accounts for every update: after any sequence of puts
  on a new queue, at most \<open>maxsize\<close> updates are waiting, and the waiting, the dropped and the
  coalesced ones add up to the number of puts, with one diagnostic per drop.
\<close>

theorem queue_conservation:
  assumes "queue_new n = Inr q0" and "q = foldl (\<lambda>q u. queue_put u q) q0 us"
  shows "int (length (fst (queue_drain q))) \<le> n \<and>
     int (length (fst (queue_drain q))) + kq_dropped q + kq_coalesced q = int (length us) \<and>
     int (length (kq_diagnostics q)) = kq_dropped q \<and> kq_items (snd (queue_drain q)) = []"
proof -
  note n = queue_new_inv [OF assms(1)]
  have q: "q = kline_buffer.feed us q0" by (simp add: assms(2) kline_buffer.feed_def)
  show ?thesis
    using n kline_buffer.feed_bounded [of q0 us] kline_buffer.feed_count [of q0 us] kline_buffer.feed_inv [of q0 us]
    by (simp add: q queue_drain_def queue_inv_def)
qed

theorem queue_conservation_witness:
  "\<exists>u q0 q. queue_new 1 = Inr q0 \<and> q = foldl (\<lambda>q u. queue_put u q) q0 [u, u\<lparr>ku_open_time := ku_open_time u + 1\<rparr>] \<and>
     kq_dropped q + kq_coalesced q = 1 \<and> fst (queue_drain q) = [u\<lparr>ku_open_time := ku_open_time u + 1\<rparr>]"
proof -
  obtain u :: kline_update where True by simp
  define v where "v = u\<lparr>ku_open_time := ku_open_time u + 1\<rparr>"
  define q0 where "q0 = \<lparr>kq_maxsize = 1, kq_items = [], kq_dropped = 0, kq_coalesced = 0, kq_diagnostics = []\<rparr>"
  define q where "q = foldl (\<lambda>q u. queue_put u q) q0 [u, v]"
  have n: "queue_new 1 = Inr q0" by (simp add: queue_new_def q0_def)
  have d: "fst (queue_drain q) = [v]"
    by (simp add: q_def q0_def queue_put_def Let_def kline_key_def v_def queue_drain_def)
  have "kq_dropped q + kq_coalesced q = 1" using queue_conservation [OF n q_def] d by simp
  then show ?thesis using n d q_def v_def by blast
qed

text \<open>
  What a consumer drains is current: every drained update is the latest one put for its candle,
  no candle is drained twice, and the most recent update is always among them.
\<close>

theorem queue_latest_wins:
  assumes "queue_new n = Inr q0" and "q = foldl (\<lambda>q u. queue_put u q) q0 us"
  shows "(\<forall>u \<in> set (fst (queue_drain q)). find (\<lambda>y. kline_key y = kline_key u) (rev us) = Some u) \<and>
     distinct (map kline_key (fst (queue_drain q))) \<and>
     (us \<noteq> [] \<longrightarrow> last us \<in> set (fst (queue_drain q)))"
proof -
  note n = queue_new_inv [OF assms(1)]
  have q: "q = kline_buffer.feed us q0" by (simp add: assms(2) kline_buffer.feed_def)
  have inv: "queue_inv q" using n kline_buffer.feed_inv by (simp add: q)
  then have k: "keyed kline_key (kq_items q)" by (simp add: queue_inv_def)
  have get: "map_of (kq_items q) (kline_key u) = Some u \<longleftrightarrow> u \<in> set (fst (queue_drain q))" for u
    using k by (auto simp: queue_drain_def keyed_def map_of_eq_Some_iff image_iff dest: map_of_SomeD) force
  have "map kline_key (fst (queue_drain q)) = map fst (kq_items q)"
    using k by (auto simp: queue_drain_def keyed_def)
  then have "distinct (map kline_key (fst (queue_drain q)))" using k by (simp add: keyed_def)
  then show ?thesis
    using n kline_buffer.feed_latest [of q0 us] kline_buffer.feed_last [of q0 us] get by (auto simp: q)
qed

theorem queue_latest_wins_witness:
  "\<exists>u q0 q. queue_new 1 = Inr q0 \<and> q = foldl (\<lambda>q u. queue_put u q) q0 [u, u\<lparr>ku_is_closed := True\<rparr>] \<and>
     u\<lparr>ku_is_closed := True\<rparr> \<in> set (fst (queue_drain q))"
proof -
  obtain u :: kline_update where True by simp
  define q0 where "q0 = \<lparr>kq_maxsize = 1, kq_items = [], kq_dropped = 0, kq_coalesced = 0, kq_diagnostics = []\<rparr>"
  have n: "queue_new 1 = Inr q0" by (simp add: queue_new_def q0_def)
  have "u\<lparr>ku_is_closed := True\<rparr> \<in>
    set (fst (queue_drain (foldl (\<lambda>q u. queue_put u q) q0 [u, u\<lparr>ku_is_closed := True\<rparr>])))"
    using queue_latest_wins [OF n refl, of "[u, u\<lparr>ku_is_closed := True\<rparr>]"] by (simp del: foldl.simps)
  with n show ?thesis by blast
qed

end
