(* ===== verification/Supervisor.thy ===== *)
theory Supervisor
  imports CandleStore Streaming "HOL-Library.Multiset"
begin

section \<open>The stream supervisor\<close>

text \<open>
  Models \<^verbatim>\<open>streaming/supervisor.py\<close>: kline updates, through the coalescing queue where one is
  asked for, are committed to or upserted in the candle store; at a given position a reconnect
  commits the backfilled bars first. The hash of a payload is that of a library and a parameter.
\<close>

record stream_result =
  sr_processed :: int
  sr_open_updates :: int
  sr_closed_commits :: int
  sr_reconnects :: int
  sr_backfilled :: int
  sr_dropped :: int
  sr_coalesced :: int
  sr_diagnostics :: "string list"

definition no_result :: stream_result where
  "no_result = \<lparr>sr_processed = 0, sr_open_updates = 0, sr_closed_commits = 0, sr_reconnects = 0, sr_backfilled = 0,
     sr_dropped = 0, sr_coalesced = 0, sr_diagnostics = []\<rparr>"

definition done_with :: "'a \<Rightarrow> 'a cio" where
  "done_with x cs = (Inr x, cs)"

text \<open>The backfilled bars of a reconnect, and how many were committed.\<close>

primrec backfill ::
  "(byte list \<Rightarrow> byte list) \<Rightarrow> (revision_state \<Rightarrow> string) \<Rightarrow> market_bar list \<Rightarrow> int \<Rightarrow> int cio" where
  "backfill sha rs [] n = done_with n"
| "backfill sha rs (b # bs) n =
     (if m_is_closed b = Some True
      then and_then (commit_closed sha rs b (m_downloaded_at b) (m_downloaded_at b) None) (\<lambda>_. backfill sha rs bs (n + 1))
      else backfill sha rs bs n)"

definition update_series :: "kline_update \<Rightarrow> series_key" where
  "update_series u = \<lparr>sk_exchange = ku_exchange u, sk_market = ku_market u, sk_symbol = ku_symbol u,
     sk_timeframe = ku_timeframe u, sk_source_kind = ku_source_kind u\<rparr>"

definition reconnect_checkpoint :: "kline_update \<Rightarrow> stream_checkpoint option \<Rightarrow> stream_checkpoint" where
  "reconnect_checkpoint u cp =
     \<lparr>cp_exchange = ku_exchange u, cp_market = ku_market u, cp_symbol = ku_symbol u, cp_timeframe = ku_timeframe u,
      cp_source_transport = ''ws'', cp_source_kind = ku_source_kind u,
      cp_last_closed_bar_time = (case cp of Some c \<Rightarrow> cp_last_closed_bar_time c | None \<Rightarrow> None),
      cp_last_event_time = (case cp of Some c \<Rightarrow> cp_last_event_time c | None \<Rightarrow> None),
      cp_last_received_at = (case cp of Some c \<Rightarrow> cp_last_received_at c | None \<Rightarrow> None),
      cp_last_reconnect_at = int_or (ku_received_at u) (Some (ku_event_time u)),
      cp_consecutive_reconnects = (case cp of Some c \<Rightarrow> cp_consecutive_reconnects c | None \<Rightarrow> 0) + 1,
      cp_status = ''reconnected'', cp_updated_at = int_default (int_or (ku_received_at u) (Some (ku_event_time u))) 0\<rparr>"

definition reconnect ::
  "(byte list \<Rightarrow> byte list) \<Rightarrow> (revision_state \<Rightarrow> string) \<Rightarrow> market_bar list \<Rightarrow> kline_update \<Rightarrow> stream_result \<Rightarrow> stream_result cio" where
  "reconnect sha rs bars u r =
     and_then (backfill sha rs bars 0) (\<lambda>n.
     and_then (on_current (\<lambda>cu. bindR (get_checkpoint (update_series u) cu) (\<lambda>cp. update_checkpoint (reconnect_checkpoint u cp) cu))) (\<lambda>_.
     done_with (r\<lparr>sr_reconnects := sr_reconnects r + 1, sr_backfilled := sr_backfilled r + n\<rparr>)))"

definition apply_update ::
  "(json \<Rightarrow> string \<Rightarrow> string) \<Rightarrow> (byte list \<Rightarrow> byte list) \<Rightarrow> (revision_state \<Rightarrow> string) \<Rightarrow> kline_update \<Rightarrow> commit_result cio" where
  "apply_update content_hash sha rs u cs =
     (case kline_to_market_bar content_hash u None of
        Inl e \<Rightarrow> (Inl e, cs)
      | Inr b \<Rightarrow>
          (if ku_is_closed u then commit_closed sha rs b (Some (ku_event_time u)) (ku_received_at u) (ku_raw_event_id u) cs
           else upsert_open sha rs b (Some (ku_event_time u)) (ku_received_at u) (ku_raw_event_id u) cs))"

definition count_result :: "commit_result \<Rightarrow> stream_result \<Rightarrow> stream_result" where
  "count_result c r =
     r\<lparr>sr_open_updates := sr_open_updates r + (if cm_status c = ''upserted'' \<or> cm_status c = ''ignored'' then 1 else 0),
       sr_closed_commits := sr_closed_commits r + (if cm_status c = ''committed'' \<or> cm_status c = ''duplicate'' then 1 else 0),
       sr_processed := sr_processed r + 1\<rparr>"

primrec run_updates ::
  "(json \<Rightarrow> string \<Rightarrow> string) \<Rightarrow> (byte list \<Rightarrow> byte list) \<Rightarrow> (revision_state \<Rightarrow> string) \<Rightarrow> market_bar list \<Rightarrow> int option \<Rightarrow>
   kline_update list \<Rightarrow> stream_result \<Rightarrow> stream_result cio" where
  "run_updates content_hash sha rs bars reconnect_after [] r = done_with r"
| "run_updates content_hash sha rs bars reconnect_after (u # us) r =
     and_then (if reconnect_after = Some (sr_processed r) then reconnect sha rs bars u r else done_with r) (\<lambda>r'.
     and_then (apply_update content_hash sha rs u) (\<lambda>c.
     run_updates content_hash sha rs bars reconnect_after us (count_result c r')))"

definition supervisor_run ::
  "(json \<Rightarrow> string \<Rightarrow> string) \<Rightarrow> (byte list \<Rightarrow> byte list) \<Rightarrow> (revision_state \<Rightarrow> string) \<Rightarrow> kline_update list \<Rightarrow> market_bar list \<Rightarrow>
   int option \<Rightarrow> int option \<Rightarrow> stream_result cio" where
  "supervisor_run content_hash sha rs updates bars reconnect_after queue_maxsize cs =
     (case queue_maxsize of
        None \<Rightarrow> run_updates content_hash sha rs bars reconnect_after updates no_result cs
      | Some maxsize \<Rightarrow>
          (case queue_new maxsize of
             Inl e \<Rightarrow> (Inl e, cs)
           | Inr q \<Rightarrow>
               let full = foldl (\<lambda>q u. queue_put u q) q updates; drained = queue_drain full in
               run_updates content_hash sha rs bars reconnect_after (fst drained)
                 (no_result\<lparr>sr_dropped := kq_dropped (snd drained), sr_coalesced := kq_coalesced (snd drained),
                    sr_diagnostics := map sd_code (kq_diagnostics (snd drained))\<rparr>) cs))"

definition overlap_start :: "int option \<Rightarrow> string \<Rightarrow> int \<Rightarrow> int option res" where
  "overlap_start last_closed timeframe overlap_bars =
     (case last_closed of
        None \<Rightarrow> Inr None
      | Some t \<Rightarrow> bindR (timeframe_ms timeframe) (\<lambda>ms. Inr (Some (max 0 (t - ms * overlap_bars)))))"

subsection \<open>Delivering closed candles\<close>

text \<open>What a sequence of commits promises of a series.\<close>

primrec deliver_spec ::
  "(byte list \<Rightarrow> byte list) \<Rightarrow> (revision_state \<Rightarrow> string) \<Rightarrow> market_bar list \<Rightarrow> market_bar list option \<Rightarrow> market_bar list option res" where
  "deliver_spec sha rs [] c = Inr c"
| "deliver_spec sha rs (b # bs) c =
     (case commit_spec sha rs b c of (Inl e, _) \<Rightarrow> Inl e | (Inr _, c') \<Rightarrow> deliver_spec sha rs bs c')"

text \<open>An update that delivers a closed candle of a series.\<close>

definition delivers ::
  "(json \<Rightarrow> string \<Rightarrow> string) \<Rightarrow> (byte list \<Rightarrow> byte list) \<Rightarrow> (revision_state \<Rightarrow> string) \<Rightarrow> series_key \<Rightarrow> kline_update \<Rightarrow> market_bar \<Rightarrow> bool" where
  "delivers content_hash sha rs key u b \<longleftrightarrow>
     kline_to_market_bar content_hash u None = Inr b \<and> ku_is_closed u \<and> m_is_closed b = Some True \<and> bar_key b = key \<and>
     committable sha rs b \<and> event_ok (Some (ku_event_time u)) (ku_received_at u)"

lemma commit_spec_status: "fst (commit_spec sha rs b c) = Inr s \<Longrightarrow> s = ''committed'' \<or> s = ''duplicate''"
  by (auto simp: commit_spec_def split: option.splits if_splits)

lemma apply_delivers:
  assumes "delivers content_hash sha rs key u b" and "contains sha rs key c (series_at path cs)" and "series_path key = Inr path"
    and "checkpoints_ok (cs_current cs)"
  shows "\<exists>cs'. apply_update content_hash sha rs u cs =
      (bindR (fst (commit_spec sha rs b c)) (\<lambda>s. Inr \<lparr>cm_status = s, cm_diagnostic = None\<rparr>), cs') \<and>
    contains sha rs key (snd (commit_spec sha rs b c)) (series_at path cs') \<and> checkpoints_ok (cs_current cs')"
proof -
  have d: "kline_to_market_bar content_hash u None = Inr b" "ku_is_closed u" "m_is_closed b = Some True" "bar_key b = key"
    "committable sha rs b" "event_ok (Some (ku_event_time u)) (ku_received_at u)" using assms(1) by (simp_all add: delivers_def)
  show ?thesis
    using commit_closed_steps [OF d(5) assms(2) [folded d(4)] assms(3) [folded d(4)] d(6) assms(4)] d(1-4)
    by (auto simp: apply_update_def commit_closed_def)
qed

lemma run_delivers:
  assumes "list_all2 (delivers content_hash sha rs key) us bs" and "contains sha rs key c (series_at path cs)"
    and "series_path key = Inr path" and "checkpoints_ok (cs_current cs)"
  shows "case deliver_spec sha rs bs c of
      Inl e \<Rightarrow> \<exists>cs'. run_updates content_hash sha rs bars None us r cs = (Inl e, cs')
    | Inr c' \<Rightarrow> \<exists>cs'. run_updates content_hash sha rs bars None us r cs =
        (Inr (r\<lparr>sr_processed := sr_processed r + int (length us), sr_closed_commits := sr_closed_commits r + int (length us)\<rparr>), cs') \<and>
        contains sha rs key c' (series_at path cs') \<and> checkpoints_ok (cs_current cs')"
  using assms(1,2,4)
proof (induction us arbitrary: bs c cs r)
  case Nil
  then show ?case by (auto simp: done_with_def)
next
  case (Cons u us)
  then obtain b bs' where bs: "bs = b # bs'" "delivers content_hash sha rs key u b" "list_all2 (delivers content_hash sha rs key) us bs'"
    by (auto simp: list_all2_Cons1)
  obtain cs1 where a: "apply_update content_hash sha rs u cs = (bindR (fst (commit_spec sha rs b c)) (\<lambda>s. Inr \<lparr>cm_status = s, cm_diagnostic = None\<rparr>), cs1)"
    "contains sha rs key (snd (commit_spec sha rs b c)) (series_at path cs1)" "checkpoints_ok (cs_current cs1)"
    using apply_delivers [OF bs(2) Cons.prems(2) assms(3) Cons.prems(3)] by blast
  show ?case
  proof (cases "commit_spec sha rs b c")
    case (Pair x c1)
    show ?thesis
    proof (cases x)
      case (Inl e)
      then show ?thesis using Pair a bs(1) by (simp add: and_then_def done_with_def)
    next
      case (Inr s)
      have s: "s = ''committed'' \<or> s = ''duplicate''" using commit_spec_status [of sha rs b c s] Pair Inr by simp
      let ?r = "count_result \<lparr>cm_status = s, cm_diagnostic = None\<rparr> r"
      have r: "?r = r\<lparr>sr_closed_commits := sr_closed_commits r + 1, sr_processed := sr_processed r + 1\<rparr>"
        using s by (auto simp: count_result_def)
      have step: "run_updates content_hash sha rs bars None (u # us) r cs = run_updates content_hash sha rs bars None us ?r cs1"
        using a(1) Pair Inr by (simp add: and_then_def done_with_def)
      show ?thesis using Cons.IH [OF bs(3), of c1 cs1 ?r] a(2,3) Pair Inr bs(1) unfolding step
        by (auto simp: r algebra_simps split: sum.splits)
    qed
  qed
qed

subsection \<open>Replays and orders\<close>

text \<open>A candle the series accounts for: one with its digest is stored at its time.\<close>

definition accounted :: "(byte list \<Rightarrow> byte list) \<Rightarrow> (revision_state \<Rightarrow> string) \<Rightarrow> market_bar list option \<Rightarrow> market_bar \<Rightarrow> bool" where
  "accounted sha rs c b \<longleftrightarrow>
     (\<exists>x \<in> set (content c). b_time x = b_time b \<and> market_bar_checksum sha rs x = market_bar_checksum sha rs b)"

lemma accounted_mono: "accounted sha rs c b \<Longrightarrow> set (content c) \<subseteq> set (content c') \<Longrightarrow> accounted sha rs c' b"
  by (auto simp: accounted_def)

lemma find_SomeD: "find P xs = Some x \<Longrightarrow> x \<in> set xs \<and> P x"
  by (auto simp: find_Some_iff)

lemma commit_spec_step:
  assumes "bars_ok rs (content c)" and "bars_ok rs [b]" and "commit_spec sha rs b c = (Inr s, c')"
  shows "bars_ok rs (content c')" and "accounted sha rs c' b" and "set (content c) \<subseteq> set (content c')"
  using assms bars_ok_insert [OF assms(1,2)]
  by (auto simp: commit_spec_def accounted_def content_def dest!: find_SomeD split: option.splits if_splits)

lemma commit_spec_accounted:
  assumes "bars_ok rs (content c)" and "accounted sha rs c b"
  shows "commit_spec sha rs b c = (Inr ''duplicate'', c)"
proof -
  obtain x where x: "x \<in> set (content c)" "b_time x = b_time b" "market_bar_checksum sha rs x = market_bar_checksum sha rs b"
    using assms(2) by (auto simp: accounted_def)
  then show ?thesis using find_unique [OF assms(1) x(1)] by (simp add: commit_spec_def)
qed

lemma deliver_spec_step:
  assumes "bars_ok rs (content c)" and "list_all (\<lambda>b. bars_ok rs [b]) bs" and "deliver_spec sha rs bs c = Inr c'"
  shows "bars_ok rs (content c') \<and> list_all (accounted sha rs c') bs \<and> set (content c) \<subseteq> set (content c')"
  using assms
proof (induction bs arbitrary: c)
  case Nil
  then show ?case by simp
next
  case (Cons b bs)
  then obtain s c1 where c1: "commit_spec sha rs b c = (Inr s, c1)" "deliver_spec sha rs bs c1 = Inr c'"
    by (auto split: prod.splits sum.splits)
  have b: "bars_ok rs [b]" using Cons.prems(2) by simp
  note step = commit_spec_step [OF Cons.prems(1) b c1(1)]
  then have "bars_ok rs (content c') \<and> list_all (accounted sha rs c') bs \<and> set (content c1) \<subseteq> set (content c')"
    using Cons.IH Cons.prems(2) c1(2) by simp
  then show ?case using step(2,3) accounted_mono by auto
qed

lemma deliver_spec_accounted:
  assumes "bars_ok rs (content c)" and "list_all (accounted sha rs c) bs"
  shows "deliver_spec sha rs bs c = Inr c"
  using assms by (induction bs) (simp_all add: commit_spec_accounted)

lemma delivered_ok:
  assumes "list_all2 (delivers content_hash sha rs key) us bs"
  shows "list_all (\<lambda>b. bars_ok rs [b]) bs"
  using assms by (induction rule: list_all2_induct) (auto simp: delivers_def committable_def)

text \<open>
  C22. Replaying a stream is harmless. When a run over closed candles of one series is specified to
  succeed, it returns and counts every update as a closed commit, the series then stores the
  specified bars, and a second run over the same updates returns the same result and leaves
  exactly the same bars stored.
\<close>

theorem stream_replay_idempotent:
  assumes "list_all2 (delivers content_hash sha rs key) us bs" and "contains sha rs key c (series_at path cs)"
    and "series_path key = Inr path" and "checkpoints_ok (cs_current cs)" and "deliver_spec sha rs bs c = Inr c'"
  shows "\<exists>r cs' cs''. sr_processed r = int (length us) \<and> sr_closed_commits r = int (length us) \<and>
     supervisor_run content_hash sha rs us [] None None cs = (Inr r, cs') \<and> contains sha rs key c' (series_at path cs') \<and>
     supervisor_run content_hash sha rs us [] None None cs' = (Inr r, cs'') \<and> contains sha rs key c' (series_at path cs'')"
proof -
  let ?r = "no_result\<lparr>sr_processed := sr_processed no_result + int (length us), sr_closed_commits := sr_closed_commits no_result + int (length us)\<rparr>"
  obtain cs' where one: "run_updates content_hash sha rs [] None us no_result cs = (Inr ?r, cs')" "contains sha rs key c' (series_at path cs')"
    "checkpoints_ok (cs_current cs')"
    using run_delivers [OF assms(1-4), of "[]" no_result] assms(5) by auto
  have "deliver_spec sha rs bs c' = Inr c'"
    using deliver_spec_step [OF contains_ok [OF assms(2)] delivered_ok [OF assms(1)] assms(5)] deliver_spec_accounted by blast
  then obtain cs'' where "run_updates content_hash sha rs [] None us no_result cs' = (Inr ?r, cs'')" "contains sha rs key c' (series_at path cs'')"
    using run_delivers [OF assms(1) one(2) assms(3) one(3), of "[]" no_result] by auto
  moreover have "sr_processed ?r = int (length us)" "sr_closed_commits ?r = int (length us)" by (simp_all add: no_result_def)
  ultimately show ?thesis using one by (auto simp: supervisor_run_def)
qed

lemma find_absent: "f b \<notin> f ` set xs \<Longrightarrow> find (\<lambda>x. f x = f b) xs = None"
  by (induction xs) auto

lemma sort_key_mset: "mset xs = mset ys \<Longrightarrow> distinct (map f xs) \<Longrightarrow> sort_key f xs = sort_key f ys"
  by (rule sort_key_inj_key_eq) (simp_all add: distinct_map)

lemma deliver_spec_fresh:
  assumes "bars_ok rs (content c)" and "list_all (\<lambda>b. bars_ok rs [b]) bs" and "distinct (map b_time (content c @ bs))" and "bs \<noteq> []"
  shows "deliver_spec sha rs bs c = Inr (Some (sort_key b_time (content c @ bs)))"
  using assms
proof (induction bs arbitrary: c)
  case Nil
  then show ?case by simp
next
  case (Cons b bs)
  let ?c = "Some (sort_key b_time (content c @ [b]))"
  have f: "find (\<lambda>x. b_time x = b_time b) (content c) = None" by (rule find_absent) (use Cons.prems(3) in simp)
  then have step: "deliver_spec sha rs (b # bs) c = deliver_spec sha rs bs ?c" by (simp add: commit_spec_def)
  have c: "content ?c = sort_key b_time (content c @ [b])" by (simp add: content_def)
  show ?case
  proof (cases bs)
    case Nil
    then show ?thesis using step by simp
  next
    case (Cons b' bs')
    have m: "mset (content ?c @ bs) = mset (content c @ b # bs)" by (simp add: c)
    have d: "distinct (map b_time (content ?c @ bs))"
      using Cons.prems(3) mset_eq_imp_distinct_iff [of "map b_time (content ?c @ bs)" "map b_time (content c @ b # bs)"] m
      by (simp only: mset_map)
    have "deliver_spec sha rs bs ?c = Inr (Some (sort_key b_time (content ?c @ bs)))"
      using Cons.IH [of ?c] Cons.prems(1,2) d bars_ok_insert [OF Cons.prems(1) _ f] Cons by (simp add: c)
    moreover have "sort_key b_time (content ?c @ bs) = sort_key b_time (content c @ b # bs)"
      by (rule sort_key_mset [OF m d])
    ultimately show ?thesis using step by simp
  qed
qed

text \<open>
  C21. The order in which closed candles arrive does not matter. Two streams that deliver the same
  new candles of a series in different orders, at times the series does not store yet, both
  return, and the series then stores the same bars: the old and the new ones sorted by time.
\<close>

theorem stream_order_irrelevant:
  assumes "list_all2 (delivers content_hash sha rs key) us bs" and "list_all2 (delivers content_hash sha rs key) us' bs'"
    and "mset bs = mset bs'" and "distinct (map b_time (content c @ bs))" and "bs \<noteq> []"
    and "contains sha rs key c (series_at path cs)" and "series_path key = Inr path" and "checkpoints_ok (cs_current cs)"
  shows "\<exists>r1 r2 cs1 cs2. supervisor_run content_hash sha rs us [] None None cs = (Inr r1, cs1) \<and>
     supervisor_run content_hash sha rs us' [] None None cs = (Inr r2, cs2) \<and>
     stored sha rs key (sort_key b_time (content c @ bs)) (series_at path cs1) \<and>
     stored sha rs key (sort_key b_time (content c @ bs)) (series_at path cs2)"
proof -
  note ok = contains_ok [OF assms(6)]
  have m: "mset (content c @ bs') = mset (content c @ bs)" using assms(3) by simp
  then have d: "distinct (map b_time (content c @ bs'))"
    using assms(4) mset_eq_imp_distinct_iff [of "map b_time (content c @ bs')" "map b_time (content c @ bs)"] by (simp only: mset_map)
  have ne: "bs' \<noteq> []" using assms(3,5) by auto
  have "sort_key b_time (content c @ bs') = sort_key b_time (content c @ bs)"
    by (rule sort_key_mset [OF m d])
  then have one: "deliver_spec sha rs bs c = Inr (Some (sort_key b_time (content c @ bs)))"
    and two: "deliver_spec sha rs bs' c = Inr (Some (sort_key b_time (content c @ bs)))"
    using deliver_spec_fresh [OF ok delivered_ok [OF assms(1)] assms(4,5)] deliver_spec_fresh [OF ok delivered_ok [OF assms(2)] d ne] by simp_all
  from run_delivers [OF assms(1,6-8), of "[]" no_result] run_delivers [OF assms(2,6-8), of "[]" no_result]
  show ?thesis by (auto simp: one two supervisor_run_def contains_def)
qed

definition sample_update :: "int \<Rightarrow> kline_update" where
  "sample_update t = \<lparr>ku_exchange = ''binance'', ku_market = ''spot'', ku_symbol = ''BTCUSDT'', ku_timeframe = ''1m'',
     ku_event_time = t + 60000, ku_open_time = t, ku_close_time = t + 59999, ku_open = f_of_int 7, ku_high = f_of_int 8,
     ku_low = f_of_int 6, ku_close = f_of_int 7, ku_volume = f_of_int 1, ku_source_kind = ''trade_kline'',
     ku_quote_volume = None, ku_turnover = None, ku_trades_count = None, ku_taker_buy_base_volume = None,
     ku_taker_buy_quote_volume = None, ku_is_closed = True, ku_raw_source = ''rest'', ku_raw_event_id = Some ''r1'',
     ku_received_at = Some 5, ku_open_text = None, ku_high_text = None, ku_low_text = None, ku_close_text = None,
     ku_volume_text = None\<rparr>"

lemma sample_update_bars:
  "kline_to_market_bar (\<lambda>_ _. ''h'') (sample_update 0) None = Inr (sample_bar 0)"
  "kline_to_market_bar (\<lambda>_ _. ''h'') (sample_update 60000) None = Inr (sample_bar 60000)"
  by code_simp+

lemma sample_delivers:
  "delivers (\<lambda>_ _. ''h'') sample_sha sample_rs sample_key (sample_update 0) (sample_bar 0)"
  "delivers (\<lambda>_ _. ''h'') sample_sha sample_rs sample_key (sample_update 60000) (sample_bar 60000)"
proof -
  have "m_is_closed (sample_bar t) = Some True" "ku_is_closed (sample_update t)" "ku_received_at (sample_update t) = Some 5" for t
    by (simp_all add: sample_bar_def sample_update_def)
  moreover have "event_ok (Some (ku_event_time (sample_update 0))) (Some 5)" "event_ok (Some (ku_event_time (sample_update 60000))) (Some 5)"
    by code_simp+
  ultimately show "delivers (\<lambda>_ _. ''h'') sample_sha sample_rs sample_key (sample_update 0) (sample_bar 0)"
    and "delivers (\<lambda>_ _. ''h'') sample_sha sample_rs sample_key (sample_update 60000) (sample_bar 60000)"
    using sample_update_bars sample_bar_key sample_committable by (simp_all only: delivers_def simp_thms)
qed

theorem stream_replay_idempotent_witness:
  "\<exists>path r cs cs'. series_path sample_key = Inr path \<and>
     supervisor_run (\<lambda>_ _. ''h'') sample_sha sample_rs [sample_update 0] [] None None empty_store = (Inr r, cs) \<and>
     supervisor_run (\<lambda>_ _. ''h'') sample_sha sample_rs [sample_update 0] [] None None cs = (Inr r, cs') \<and>
     contains sample_sha sample_rs sample_key (Some [sample_bar 0]) (series_at path cs')"
proof -
  obtain path where path: "series_path sample_key = Inr path" using sample_path by blast
  have us: "list_all2 (delivers (\<lambda>_ _. ''h'') sample_sha sample_rs sample_key) [sample_update 0] [sample_bar 0]" using sample_delivers by simp
  have spec: "deliver_spec sample_sha sample_rs [sample_bar 0] None = Inr (Some [sample_bar 0])" by (simp add: commit_spec_def content_def)
  show ?thesis
    using stream_replay_idempotent [OF us empty_store_contains path empty_store_checkpoints spec] path by blast
qed

theorem stream_order_irrelevant_witness:
  "\<exists>path r1 r2 cs1 cs2. series_path sample_key = Inr path \<and>
     supervisor_run (\<lambda>_ _. ''h'') sample_sha sample_rs [sample_update 60000, sample_update 0] [] None None empty_store = (Inr r1, cs1) \<and>
     supervisor_run (\<lambda>_ _. ''h'') sample_sha sample_rs [sample_update 0, sample_update 60000] [] None None empty_store = (Inr r2, cs2) \<and>
     stored sample_sha sample_rs sample_key [sample_bar 0, sample_bar 60000] (series_at path cs1) \<and>
     stored sample_sha sample_rs sample_key [sample_bar 0, sample_bar 60000] (series_at path cs2)"
proof -
  obtain path where path: "series_path sample_key = Inr path" using sample_path by blast
  let ?d = "delivers (\<lambda>_ _. ''h'') sample_sha sample_rs sample_key"
  have us: "list_all2 ?d [sample_update 60000, sample_update 0] [sample_bar 60000, sample_bar 0]"
    "list_all2 ?d [sample_update 0, sample_update 60000] [sample_bar 0, sample_bar 60000]" using sample_delivers by simp_all
  have m: "mset [sample_bar 60000, sample_bar 0] = mset [sample_bar 0, sample_bar 60000]" by (simp add: add_mset_commute)
  have d: "distinct (map b_time (content None @ [sample_bar 60000, sample_bar 0]))" by (simp add: content_def)
  have s: "sort_key b_time (content None @ [sample_bar 60000, sample_bar 0]) = [sample_bar 0, sample_bar 60000]" by (simp add: content_def)
  show ?thesis
    using stream_order_irrelevant [OF us m d _ empty_store_contains path empty_store_checkpoints] path unfolding s by blast
qed

end
