(* ===== verification/Decimals.thy ===== *)
theory Decimals
  imports PyFloat
begin

section \<open>Python decimals\<close>

text \<open>
  The part of \<^verbatim>\<open>decimal.Decimal\<close> the aggregation of bars uses, under the default context:
  conversion from text (exact), ordering (a NaN raises \<open>InvalidOperation\<close>), addition rounded half
  even to 28 digits, and formatting with \<^verbatim>\<open>f\<close>. A finite decimal is a coefficient and a
  power of ten. The bounds of the context on exponents, which lie beyond six digits, are not modelled.
\<close>

datatype decimal = DFin int int | DInf bool | DNan

definition decimal_of_unsigned :: "string \<Rightarrow> bool \<Rightarrow> decimal option" where
  "decimal_of_unsigned u neg =
     (let w = py_lower u in
      if w = ''inf'' \<or> w = ''infinity'' then Some (DInf neg)
      else if take 3 w = ''nan'' \<and> list_all is_digit (drop 3 w) then Some DNan
      else
        let me = split_at ''eE'' u; fr = split_at ''.'' (fst me);
            whole = fst fr; frac = (case snd fr of None \<Rightarrow> [] | Some t \<Rightarrow> t)
        in if py_isdigit (whole @ frac) then
             (case exponent_of (snd me) of
                None \<Rightarrow> None
              | Some e \<Rightarrow> (let c = int_of_digits (whole @ frac) in Some (DFin (if neg then - c else c) (e - int (length frac)))))
           else None)"

definition decimal_of_text :: "string \<Rightarrow> decimal res" where
  "decimal_of_text s =
     (let t = py_strip s; neg = (t \<noteq> [] \<and> hd t = CHR ''-''); u = (if t \<noteq> [] \<and> hd t \<in> set ''+-'' then tl t else t)
      in case decimal_of_unsigned u neg of None \<Rightarrow> Inl PyInvalidOperation | Some d \<Rightarrow> Inr d)"

definition align :: "int \<Rightarrow> int \<Rightarrow> int \<Rightarrow> int" where
  "align c e to = c * 10 ^ nat (e - to)"

text \<open>\<open>a < b\<close>.\<close>

definition decimal_lt :: "decimal \<Rightarrow> decimal \<Rightarrow> bool res" where
  "decimal_lt a b =
     (case (a, b) of
        (DNan, _) \<Rightarrow> Inl PyInvalidOperation
      | (_, DNan) \<Rightarrow> Inl PyInvalidOperation
      | (DInf n, DInf m) \<Rightarrow> Inr (n \<and> \<not> m)
      | (DInf n, DFin _ _) \<Rightarrow> Inr n
      | (DFin _ _, DInf n) \<Rightarrow> Inr (\<not> n)
      | (DFin c e, DFin d f) \<Rightarrow> Inr (align c e (min e f) < align d f (min e f)))"

definition decimal_digits :: "int \<Rightarrow> int" where
  "decimal_digits c = (if c = 0 then 1 else int (length (int_digits \<bar>c\<bar>)))"

text \<open>Rounding to the 28 digits of the context.\<close>

definition decimal_fix :: "int \<Rightarrow> int \<Rightarrow> decimal" where
  "decimal_fix c e =
     (if decimal_digits c \<le> 28 then DFin c e
      else
        let k = decimal_digits c - 28; r = round_half_even \<bar>c\<bar> (10 ^ nat k); s = (if c < 0 then - r else r)
        in if decimal_digits r = 29 then DFin (s div 10) (e + k + 1) else DFin s (e + k))"

definition decimal_add :: "decimal \<Rightarrow> decimal \<Rightarrow> decimal res" where
  "decimal_add a b =
     (case (a, b) of
        (DNan, _) \<Rightarrow> Inr DNan
      | (_, DNan) \<Rightarrow> Inr DNan
      | (DInf n, DInf m) \<Rightarrow> if n = m then Inr (DInf n) else Inl PyInvalidOperation
      | (DInf n, DFin _ _) \<Rightarrow> Inr (DInf n)
      | (DFin _ _, DInf n) \<Rightarrow> Inr (DInf n)
      | (DFin c e, DFin d f) \<Rightarrow> Inr (decimal_fix (align c e (min e f) + align d f (min e f)) (min e f)))"

fun decimal_sum :: "decimal \<Rightarrow> decimal list \<Rightarrow> decimal res" where
  "decimal_sum acc [] = Inr acc"
| "decimal_sum acc (d # ds) = bindR (decimal_add acc d) (\<lambda>a. decimal_sum a ds)"

definition decimal_format_f :: "decimal \<Rightarrow> string" where
  "decimal_format_f d =
     (case d of
        DNan \<Rightarrow> ''NaN''
      | DInf neg \<Rightarrow> (if neg then ''-Infinity'' else ''Infinity'')
      | DFin c e \<Rightarrow>
          (let e' = (if c = 0 \<and> 0 < e then 0 else e); ds = int_digits \<bar>c\<bar>; place = int (length ds) + e' in
           (if c < 0 then ''-'' else []) @
           (if place < 0 then ''0.'' @ replicate (nat (- place)) CHR ''0'' @ ds
            else if 0 \<le> e' then ds @ replicate (nat e') CHR ''0''
            else (if place = 0 then ''0'' else take (nat place) ds) @ ''.'' @ drop (nat place) ds)))"

subsection \<open>Order and rounding facts\<close>

text \<open>The value of a finite decimal scaled by a power of ten no larger than its own.\<close>

lemma align_mono:
  assumes "to \<le> e" and "to' \<le> to"
  shows "align c e to' = align c e to * 10 ^ nat (to - to')"
proof -
  have "nat (e - to') = nat (e - to) + nat (to - to')" using assms by simp
  then show ?thesis by (simp add: align_def power_add)
qed

lemma decimal_lt_scale:
  assumes "to \<le> e" and "to \<le> f"
  shows "decimal_lt (DFin c e) (DFin d f) = Inr (align c e to < align d f to)"
proof -
  have "to \<le> min e f" using assms by simp
  then have "align c e to = align c e (min e f) * 10 ^ nat (min e f - to)" "align d f to = align d f (min e f) * 10 ^ nat (min e f - to)"
    using align_mono by simp_all
  then show ?thesis by (simp add: decimal_lt_def)
qed

lemma decimal_lt_trans:
  assumes "decimal_lt (DFin a e) (DFin b f) = Inr True" and "decimal_lt (DFin b f) (DFin c g) = Inr True"
  shows "decimal_lt (DFin a e) (DFin c g) = Inr True"
proof -
  define to where "to = min e (min f g)"
  have to: "to \<le> e" "to \<le> f" "to \<le> g" by (simp_all add: to_def)
  show ?thesis
    using assms decimal_lt_scale [OF to(1,2), of a b] decimal_lt_scale [OF to(2,3), of b c] decimal_lt_scale [OF to(1,3), of a c] by simp
qed

lemma decimal_add_exact:
  assumes "decimal_digits (align c e (min e f) + align d f (min e f)) \<le> 28"
  shows "decimal_add (DFin c e) (DFin d f) = Inr (DFin (align c e (min e f) + align d f (min e f)) (min e f))"
  using assms by (simp add: decimal_add_def decimal_fix_def)

end
