(* ===== verification/Aggregation.thy ===== *)
theory Aggregation
  imports Decimals Bars
begin

section \<open>Aggregation of bars\<close>

text \<open>
  Models the module functions of \<^verbatim>\<open>service.py\<close> that combine bars: coverage of a window, the
  choice of a base timeframe, merging by time, and aggregation into longer bars. The input of the
  aggregation is a generator: the bars it yields and the exception that ends it, if one does. The
  builtin \<open>sum\<close> of floats is a parameter, since Python 3.11 adds from left to right and later
  versions compensate; the content hash is that of a library.
\<close>

definition coverage_complete :: "market_bar list \<Rightarrow> bar_query \<Rightarrow> bool res" where
  "coverage_complete bars query =
     (case tf_duration_ms (q_timeframe query) of
        None \<Rightarrow> Inr (bars \<noteq> [])
      | Some duration \<Rightarrow>
          bindR (py_range (q_start_ms query) (q_end_ms query) duration) (\<lambda>expected.
          Inr (list_all (\<lambda>ts. ts \<in> b_time ` set bars) expected)))"

definition can_derive_from_base :: "bar_query \<Rightarrow> timeframe \<Rightarrow> bool res" where
  "can_derive_from_base query base =
     (case (tf_duration_ms (q_timeframe query), tf_duration_ms base) of
        (Some query_duration, Some base_duration) \<Rightarrow>
          if base_duration > query_duration then Inr False
          else if base_duration = 0 then Inl (PyZeroDivisionError ''integer modulo by zero'')
          else Inr (query_duration mod base_duration = 0)
      | _ \<Rightarrow> Inr False)"

definition merge_bars :: "market_bar list list \<Rightarrow> market_bar list" where
  "merge_bars groups = sorted_vals (dict_of b_time (concat groups))"

subsection \<open>One bucket\<close>

definition text_or_str :: "string option \<Rightarrow> float64 \<Rightarrow> string" where
  "text_or_str t x = (case t of None \<Rightarrow> f_repr x | Some s \<Rightarrow> if s = [] then f_repr x else s)"

definition opt_json :: "('a \<Rightarrow> json) \<Rightarrow> 'a option \<Rightarrow> json" where
  "opt_json f v = (case v of None \<Rightarrow> JNull | Some x \<Rightarrow> f x)"

definition source_bar_json :: "(revision_state \<Rightarrow> string) \<Rightarrow> market_bar \<Rightarrow> json" where
  "source_bar_json rs b =
     JObj [(''time'', JInt (b_time b)), (''time_close'', opt_json JInt (b_time_close b)),
           (''open'', JStr (text_or_str (m_open_text b) (b_open b))), (''high'', JStr (text_or_str (m_high_text b) (b_high b))),
           (''low'', JStr (text_or_str (m_low_text b) (b_low b))), (''close'', JStr (text_or_str (m_close_text b) (b_close b))),
           (''volume'', JStr (text_or_str (m_volume_text b) (b_volume b))), (''is_closed'', opt_json JBool (m_is_closed b)),
           (''provider'', JStr (m_provider b)), (''provider_revision'', opt_json JStr (m_provider_revision b)),
           (''revision_state'', JStr (rs (m_revision_state b))), (''revision'', JInt (m_revision b))]"

definition aggregate_payload :: "(revision_state \<Rightarrow> string) \<Rightarrow> string \<Rightarrow> string \<Rightarrow> int \<Rightarrow> market_bar list \<Rightarrow> json" where
  "aggregate_payload rs provider timeframe bucket_time bucket =
     JObj [(''provider'', JStr provider), (''timeframe'', JStr timeframe), (''bucket_time'', JInt bucket_time),
           (''source_bars'', JArr (map (source_bar_json rs) bucket))]"

text \<open>\<open>max(bucket, key=...)\<close>: the first element no later one exceeds; \<open>min\<close> is the same with the order reversed.\<close>

fun best_by :: "('k \<Rightarrow> 'k \<Rightarrow> bool res) \<Rightarrow> ('a \<Rightarrow> 'k res) \<Rightarrow> 'a \<Rightarrow> 'k \<Rightarrow> 'a list \<Rightarrow> 'a res" where
  "best_by beats key x k [] = Inr x"
| "best_by beats key x k (y # ys) =
     bindR (key y) (\<lambda>j. bindR (beats j k) (\<lambda>better. if better then best_by beats key y j ys else best_by beats key x k ys))"

definition best_of :: "('k \<Rightarrow> 'k \<Rightarrow> bool res) \<Rightarrow> ('a \<Rightarrow> 'k res) \<Rightarrow> 'a list \<Rightarrow> 'a res" where
  "best_of beats key xs =
     (case xs of [] \<Rightarrow> Inl (PyValueError ''max() iterable argument is empty'')
      | x # ys \<Rightarrow> bindR (key x) (\<lambda>k. best_by beats key x k ys))"

definition float_max :: "float64 list \<Rightarrow> float64" where
  "float_max xs = foldl (\<lambda>m x. if f_lt m x then x else m) (hd xs) (tl xs)"

definition float_min :: "float64 list \<Rightarrow> float64" where
  "float_min xs = foldl (\<lambda>m x. if f_lt x m then x else m) (hd xs) (tl xs)"

definition aggregate_bucket ::
  "(revision_state \<Rightarrow> string) \<Rightarrow> (json \<Rightarrow> string \<Rightarrow> string) \<Rightarrow> (float64 list \<Rightarrow> float64) \<Rightarrow> bar_query \<Rightarrow> int \<Rightarrow> market_bar list \<Rightarrow> market_bar res" where
  "aggregate_bucket rs content_hash float_sum query bucket_time bucket =
     (let traded = filter (\<lambda>b. f_lt f_zero (b_volume b)) bucket;
          price_bucket = (if traded \<noteq> [] then traded else bucket);
          timeframe = tf_canonical (q_timeframe query)
      in case remdups (filter (\<lambda>p. p \<noteq> []) (map m_provider bucket)) of
           [provider] \<Rightarrow>
             bindR (best_of (\<lambda>a b. decimal_lt b a) (\<lambda>b. decimal_of_text (text_or_str (m_high_text b) (b_high b))) bucket) (\<lambda>high_source.
             bindR (best_of decimal_lt (\<lambda>b. decimal_of_text (text_or_str (m_low_text b) (b_low b))) bucket) (\<lambda>low_source.
             bindR (mapR (\<lambda>b. decimal_of_text (text_or_str (m_volume_text b) (b_volume b))) bucket) (\<lambda>volumes.
             bindR (decimal_sum (DFin 0 0) volumes) (\<lambda>volume_decimal.
             bindR (close_time_ms bucket_time timeframe) (\<lambda>close_time.
             market_bar_post_init (market_bar_defaults
               \<lparr>b_time := bucket_time, b_open := b_open (hd price_bucket), b_high := float_max (map b_high bucket),
                b_low := float_min (map b_low bucket), b_close := b_close (last price_bucket),
                b_volume := float_sum (map b_volume bucket), b_time_close := Some close_time,
                m_exchange := ik_exchange (q_instrument query), m_market := ik_market (q_instrument query),
                m_symbol := ik_symbol (q_instrument query), m_timeframe := timeframe,
                m_source_transport := ''derived'', m_source_kind := ''trade_kline'',
                m_is_closed := Some (list_all (\<lambda>b. m_is_closed b = Some True) bucket), m_provider := provider,
                m_provider_revision :=
                  Some (content_hash (aggregate_payload rs provider timeframe bucket_time bucket) ''marketdata-provider.aggregate-revision.v2''),
                m_open_text := Some (text_or_str (m_open_text (hd price_bucket)) (b_open (hd price_bucket))),
                m_high_text := Some (text_or_str (m_high_text high_source) (b_high high_source)),
                m_low_text := Some (text_or_str (m_low_text low_source) (b_low low_source)),
                m_close_text := Some (text_or_str (m_close_text (last price_bucket)) (b_close (last price_bucket))),
                m_volume_text := Some (decimal_format_f volume_decimal)\<rparr>))))))
         | _ \<Rightarrow> Inl (MDValidationError ''aggregate bucket requires one provider''))"

subsection \<open>The loop over the bars\<close>

definition bucket_of :: "int \<Rightarrow> market_bar \<Rightarrow> int" where
  "bucket_of duration b = b_time b div duration * duration"

primrec aggregate_bars_loop ::
  "(int \<Rightarrow> market_bar list \<Rightarrow> market_bar res) \<Rightarrow> bar_query \<Rightarrow> int \<Rightarrow> error option \<Rightarrow> market_bar list \<Rightarrow> int option \<Rightarrow> market_bar list \<Rightarrow>
   market_bar list res" where
  "aggregate_bars_loop f query duration ended [] current bucket =
     (case (ended, current) of
        (Some e, _) \<Rightarrow> Inl e
      | (None, Some t) \<Rightarrow> if bucket \<noteq> [] then bindR (f t bucket) (\<lambda>b. Inr [b]) else Inr []
      | (None, None) \<Rightarrow> Inr [])"
| "aggregate_bars_loop f query duration ended (b # bs) current bucket =
     (if duration = 0 then Inl (PyZeroDivisionError ''integer division or modulo by zero'')
      else if \<not> (q_start_ms query \<le> bucket_of duration b \<and> bucket_of duration b < q_end_ms query)
      then aggregate_bars_loop f query duration ended bs current bucket
      else case current of
             None \<Rightarrow> aggregate_bars_loop f query duration ended bs (Some (bucket_of duration b)) (bucket @ [b])
           | Some t \<Rightarrow>
               if bucket_of duration b \<noteq> t
               then bindR (f t bucket) (\<lambda>out.
                    bindR (aggregate_bars_loop f query duration ended bs (Some (bucket_of duration b)) [b]) (\<lambda>outs. Inr (out # outs)))
               else aggregate_bars_loop f query duration ended bs current (bucket @ [b]))"

definition aggregate_market_bars ::
  "(revision_state \<Rightarrow> string) \<Rightarrow> (json \<Rightarrow> string \<Rightarrow> string) \<Rightarrow> (float64 list \<Rightarrow> float64) \<Rightarrow> bar_query \<Rightarrow> market_bar list \<times> error option \<Rightarrow>
   market_bar list res" where
  "aggregate_market_bars rs content_hash float_sum query bars =
     (case tf_duration_ms (q_timeframe query) of
        None \<Rightarrow> Inl (MDUnsupportedFeature ''Aggregation unsupported for timeframe: '')
      | Some duration \<Rightarrow>
          aggregate_bars_loop (aggregate_bucket rs content_hash float_sum query) query duration (snd bars) (fst bars) None [])"

subsection \<open>The loop groups by bucket\<close>

definition in_query :: "bar_query \<Rightarrow> int \<Rightarrow> market_bar \<Rightarrow> bool" where
  "in_query query duration b \<longleftrightarrow> q_start_ms query \<le> bucket_of duration b \<and> bucket_of duration b < q_end_ms query"

text \<open>The specification: the buckets of the window in ascending order, each with its bars in order.\<close>

definition aggregate_spec ::
  "(int \<Rightarrow> market_bar list \<Rightarrow> market_bar res) \<Rightarrow> bar_query \<Rightarrow> int \<Rightarrow> market_bar list \<Rightarrow> market_bar list res" where
  "aggregate_spec f query duration bars =
     (let inside = filter (in_query query duration) bars
      in mapR (\<lambda>t. f t (filter (\<lambda>b. bucket_of duration b = t) inside)) (sorted_list_of_set (bucket_of duration ` set inside)))"

lemma bucket_mono: "0 < d \<Longrightarrow> b_time a \<le> b_time b \<Longrightarrow> bucket_of d a \<le> bucket_of d b"
  by (simp add: bucket_of_def zdiv_mono1)

lemma remdups_adj_strict: "sorted xs \<Longrightarrow> sorted_wrt (<) (remdups_adj xs)" for xs :: "int list"
proof (induction xs rule: remdups_adj.induct)
  case (3 x y xs)
  show ?case
  proof (cases "x = y")
    case True
    with 3 show ?thesis by simp
  next
    case False
    have "sorted_wrt (<) (remdups_adj (y # xs))" using 3 False by simp
    moreover have "\<forall>z \<in> set (remdups_adj (y # xs)). x < z" using 3(3) False by auto
    ultimately show ?thesis using False by simp
  qed
qed simp_all

lemma remdups_adj_set_list: "sorted xs \<Longrightarrow> remdups_adj xs = sorted_list_of_set (set xs)" for xs :: "int list"
  using remdups_adj_strict [of xs] sorted_list_of_set.idem_if_sorted_distinct [of "remdups_adj xs"]
  by (simp add: strict_sorted_iff)

lemma loop_Cons:
  assumes "0 < d"
  shows "\<not> in_query query d b \<Longrightarrow> aggregate_bars_loop f query d ended (b # bs) current bucket = aggregate_bars_loop f query d ended bs current bucket"
    and "in_query query d b \<Longrightarrow> aggregate_bars_loop f query d ended (b # bs) None bucket =
           aggregate_bars_loop f query d ended bs (Some (bucket_of d b)) (bucket @ [b])"
    and "in_query query d b \<Longrightarrow> bucket_of d b = t \<Longrightarrow> aggregate_bars_loop f query d ended (b # bs) (Some t) bucket =
           aggregate_bars_loop f query d ended bs (Some t) (bucket @ [b])"
    and "in_query query d b \<Longrightarrow> t < bucket_of d b \<Longrightarrow> aggregate_bars_loop f query d ended (b # bs) (Some t) bucket =
           bindR (f t bucket) (\<lambda>out. bindR (aggregate_bars_loop f query d ended bs (Some (bucket_of d b)) [b]) (\<lambda>outs. Inr (out # outs)))"
  using assms by (simp_all add: in_query_def)

declare aggregate_bars_loop.simps(2) [simp del]

lemma loop_in_bucket:
  assumes "0 < d" and "sorted (map b_time bs)" and "\<forall>b \<in> set bs. t \<le> bucket_of d b" and "bucket \<noteq> []"
  shows "aggregate_bars_loop f query d None bs (Some t) bucket =
    (let inside = filter (in_query query d) bs
     in mapR (\<lambda>u. f u (if u = t then bucket @ filter (\<lambda>b. bucket_of d b = u) inside else filter (\<lambda>b. bucket_of d b = u) inside))
          (remdups_adj (t # map (bucket_of d) inside)))"
  using assms(2-4)
proof (induction bs arbitrary: t bucket)
  case Nil
  then show ?case by simp
next
  case (Cons b bs)
  let ?u = "bucket_of d b" let ?in = "filter (in_query query d) bs"
  have later: "\<forall>x \<in> set bs. ?u \<le> bucket_of d x" using Cons.prems(1) bucket_mono [OF assms(1)] by auto
  consider (out) "\<not> in_query query d b" | (same) "in_query query d b" "?u = t" | (new) "in_query query d b" "t < ?u"
    using Cons.prems(2) by fastforce
  then show ?case
  proof cases
    case out
    then show ?thesis using Cons.IH [of t bucket] Cons.prems by (simp add: loop_Cons(1) [OF assms(1)])
  next
    case same
    then show ?thesis using Cons.IH [of t "bucket @ [b]"] Cons.prems
      by (auto simp: loop_Cons(3) [OF assms(1)] Let_def intro!: mapR_cong)
  next
    case new
    have none: "filter (\<lambda>x. bucket_of d x = t) ?in = []" using later new by (auto simp: filter_empty_conv)
    have IH: "aggregate_bars_loop f query d None bs (Some ?u) [b] =
      mapR (\<lambda>v. f v (if v = ?u then [b] @ filter (\<lambda>b. bucket_of d b = v) ?in else filter (\<lambda>b. bucket_of d b = v) ?in))
          (remdups_adj (?u # map (bucket_of d) ?in))"
      using Cons.IH [of ?u "[b]"] Cons.prems later by (simp add: Let_def)
    have "t \<notin> set (remdups_adj (?u # map (bucket_of d) ?in))" using later new by auto
    then have "aggregate_bars_loop f query d None bs (Some ?u) [b] =
      mapR (\<lambda>v. f v (if v = t then bucket @ filter (\<lambda>x. bucket_of d x = v) (b # ?in) else filter (\<lambda>x. bucket_of d x = v) (b # ?in)))
          (remdups_adj (?u # map (bucket_of d) ?in))"
      unfolding IH by (intro mapR_cong) auto
    then show ?thesis using new none by (simp add: loop_Cons(4) [OF assms(1)] Let_def)
  qed
qed

lemma loop_spec:
  assumes "0 < d" and "sorted (map b_time bars)"
  shows "aggregate_bars_loop f query d None bars None [] = aggregate_spec f query d bars"
  using assms(2)
proof (induction bars)
  case Nil
  then show ?case by (simp add: aggregate_spec_def)
next
  case (Cons b bs)
  show ?case
  proof (cases "in_query query d b")
    case False
    then show ?thesis using Cons by (simp add: loop_Cons(1) [OF assms(1)] aggregate_spec_def)
  next
    case True
    let ?in = "filter (in_query query d) bs"
    have later: "\<forall>x \<in> set bs. bucket_of d b \<le> bucket_of d x" using Cons.prems bucket_mono [OF assms(1)] by auto
    have "sorted (map (bucket_of d) (b # bs))"
      using Cons.prems bucket_mono [OF assms(1)] by (auto simp: sorted_wrt_map elim: sorted_wrt_mono_rel [rotated])
    then have "sorted (map (bucket_of d) (b # ?in))" using sorted_filter [of "bucket_of d" bs] by auto
    then have keys: "remdups_adj (bucket_of d b # map (bucket_of d) ?in) = sorted_list_of_set (bucket_of d ` set (b # ?in))"
      using remdups_adj_set_list [of "map (bucket_of d) (b # ?in)"] by simp
    have "aggregate_bars_loop f query d None bs (Some (bucket_of d b)) [b] = aggregate_spec f query d (b # bs)"
      using loop_in_bucket [OF assms(1) _ later, of "[b]" f query] Cons.prems True keys
      by (auto simp: aggregate_spec_def Let_def intro!: mapR_cong)
    then show ?thesis using True by (simp add: loop_Cons(2) [OF assms(1)])
  qed
qed

text \<open>
  C27. Aggregation groups by bucket. For a fixed-duration timeframe and bars in time order, the loop's
  result is the specification's: one bar for every bucket of the window that holds a bar, in
  ascending order, each computed from exactly the bars of its bucket in their order; the first
  bucket that fails makes the whole aggregation fail.
\<close>

theorem aggregate_groups_by_bucket:
  assumes "tf_duration_ms (q_timeframe query) = Some d" and "0 < d" and "sorted (map b_time bars)"
  shows "aggregate_market_bars rs content_hash float_sum query (bars, None) =
    aggregate_spec (aggregate_bucket rs content_hash float_sum query) query d bars"
  using loop_spec [OF assms(2,3)] assms(1) by (simp add: aggregate_market_bars_def)

definition minute_bar :: "int \<Rightarrow> int \<Rightarrow> market_bar" where
  "minute_bar t price = market_bar_defaults\<lparr>b_time := t, b_time_close := Some (t + 59999), b_open := f_of_int price,
     b_high := f_of_int (price + 2), b_low := f_of_int (price - 2), b_close := f_of_int (price + 1), b_volume := f_of_int 1,
     m_exchange := ''binance'', m_market := ''spot'', m_symbol := ''BTCUSDT'', m_timeframe := ''1m'', m_is_closed := Some True,
     m_provider := ''binance'', m_provider_revision := Some ''r1'', m_open_text := Some (str_of_int price),
     m_high_text := Some (str_of_int (price + 2)), m_low_text := Some (str_of_int (price - 2)),
     m_close_text := Some (str_of_int (price + 1)), m_volume_text := Some ''1''\<rparr>"

definition five_minutes :: bar_query where
  "five_minutes = \<lparr>q_instrument = \<lparr>ik_exchange = ''binance'', ik_market = ''spot'', ik_symbol = ''BTCUSDT''\<rparr>,
     q_timeframe = \<lparr>tf_raw = ''5m'', tf_canonical = ''5m'', tf_multiplier = 5, tf_unit = Minute, tf_duration_ms = Some 300000\<rparr>,
     q_start_ms = 0, q_end_ms = 600000, q_source = ''auto'', q_gap_policy = ''fail'', q_error_policy = ''raise''\<rparr>"

theorem aggregate_groups_by_bucket_witness:
  "\<exists>first second. aggregate_market_bars (\<lambda>_. ''o'') (\<lambda>_ _. ''h'') hd five_minutes ([minute_bar 0 10, minute_bar 240000 12, minute_bar 300000 9], None) =
      Inr [first, second] \<and> b_time first = 0 \<and> b_time second = 300000 \<and> b_close first = f_of_int 13"
proof -
  let ?f = "aggregate_bucket (\<lambda>_. ''o'') (\<lambda>_ _. ''h'') hd five_minutes"
  have d: "tf_duration_ms (q_timeframe five_minutes) = Some 300000" "0 < (300000::int)"
    and s: "sorted (map b_time [minute_bar 0 10, minute_bar 240000 12, minute_bar 300000 9])" by code_simp+
  have "aggregate_spec ?f five_minutes 300000 [minute_bar 0 10, minute_bar 240000 12, minute_bar 300000 9] =
      mapR (\<lambda>t. ?f t (if t = 0 then [minute_bar 0 10, minute_bar 240000 12] else [minute_bar 300000 9])) [0, 300000]"
    by (simp add: aggregate_spec_def in_query_def bucket_of_def five_minutes_def minute_bar_def Let_def)
  moreover obtain first where "?f 0 [minute_bar 0 10, minute_bar 240000 12] = Inr first" "b_time first = 0" "b_close first = f_of_int 13"
  proof -
    have "case ?f 0 [minute_bar 0 10, minute_bar 240000 12] of Inl _ \<Rightarrow> False | Inr b \<Rightarrow> b_time b = 0 \<and> b_close b = f_of_int 13" by code_simp
    then show thesis using that by (auto split: sum.splits)
  qed
  moreover obtain second where "?f 300000 [minute_bar 300000 9] = Inr second" "b_time second = 300000"
  proof -
    have "case ?f 300000 [minute_bar 300000 9] of Inl _ \<Rightarrow> False | Inr b \<Rightarrow> b_time b = 300000" by code_simp
    then show thesis using that by (auto split: sum.splits)
  qed
  ultimately show ?thesis
    using aggregate_groups_by_bucket [OF d s, of "\<lambda>_. ''o''" "\<lambda>_ _. ''h''" hd] by simp
qed

subsection \<open>Bounds of an aggregated bar\<close>

lemma float_max_props:
  assumes "\<not> f_isnan x" and "\<forall>y \<in> set xs. \<not> f_isnan y"
  shows "\<not> f_isnan (foldl (\<lambda>m x. if f_lt m x then x else m) x xs) \<and> f_le x (foldl (\<lambda>m x. if f_lt m x then x else m) x xs) \<and>
    (\<forall>y \<in> set xs. f_le y (foldl (\<lambda>m x. if f_lt m x then x else m) x xs))"
  using assms
proof (induction xs arbitrary: x)
  case Nil
  then show ?case by (simp add: f_le_def)
next
  case (Cons y ys)
  let ?m = "if f_lt x y then y else x"
  have "\<not> f_isnan ?m" "f_le x ?m" "f_le y ?m" using Cons.prems by (auto simp: f_le_def f_lt_def)
  with Cons.IH [of ?m] Cons.prems show ?case by (auto intro: f_le_trans)
qed

lemma float_min_props:
  assumes "\<not> f_isnan x" and "\<forall>y \<in> set xs. \<not> f_isnan y"
  shows "\<not> f_isnan (foldl (\<lambda>m x. if f_lt x m then x else m) x xs) \<and> f_le (foldl (\<lambda>m x. if f_lt x m then x else m) x xs) x \<and>
    (\<forall>y \<in> set xs. f_le (foldl (\<lambda>m x. if f_lt x m then x else m) x xs) y)"
  using assms
proof (induction xs arbitrary: x)
  case Nil
  then show ?case by (simp add: f_le_def)
next
  case (Cons y ys)
  let ?m = "if f_lt y x then y else x"
  have "\<not> f_isnan ?m" "f_le ?m x" "f_le ?m y" using Cons.prems by (auto simp: f_le_def f_lt_def)
  with Cons.IH [of ?m] Cons.prems show ?case by (auto intro: f_le_trans)
qed

lemma post_init_numbers:
  "market_bar_post_init b = Inr c \<Longrightarrow> b_time c = b_time b \<and> b_open c = b_open b \<and> b_high c = b_high b \<and> b_low c = b_low b \<and> b_close c = b_close b"
  by (auto simp: market_bar_post_init_def fill_provider_def Let_def split: if_splits option.splits)

lemma best_by_error_free: "best_by beats key x k xs = Inr y \<Longrightarrow> y \<in> insert x (set xs)"
  by (induction xs arbitrary: x k) (auto simp: res_simps split: if_splits)

text \<open>
  An aggregated bar spans its source. When a bucket of bars without NaN prices aggregates, the
  result opens at the bucket's time; its high is at least and its low at most that of every bar of
  the bucket; it opens and closes with the first and last bar that traded, or of all bars when
  none did.
\<close>

theorem aggregate_bucket_spans:
  assumes "aggregate_bucket rs content_hash float_sum query t bucket = Inr out"
    and "\<forall>b \<in> set bucket. \<not> f_isnan (b_high b) \<and> \<not> f_isnan (b_low b)"
  shows "b_time out = t \<and> (\<forall>b \<in> set bucket. f_le (b_high b) (b_high out) \<and> f_le (b_low out) (b_low b)) \<and>
    (let traded = filter (\<lambda>b. f_lt f_zero (b_volume b)) bucket; prices = (if traded \<noteq> [] then traded else bucket)
     in b_open out = b_open (hd prices) \<and> b_close out = b_close (last prices))"
proof -
  have ne: "bucket \<noteq> []" using assms(1) by (auto simp: aggregate_bucket_def)
  then obtain x xs where bucket: "bucket = x # xs" by (cases bucket) auto
  have "\<exists>b. market_bar_post_init b = Inr out \<and> b_time b = t \<and> b_high b = float_max (map b_high bucket) \<and> b_low b = float_min (map b_low bucket) \<and>
    (let traded = filter (\<lambda>b. f_lt f_zero (b_volume b)) bucket; prices = (if traded \<noteq> [] then traded else bucket)
     in b_open b = b_open (hd prices) \<and> b_close b = b_close (last prices))"
    using assms(1) unfolding aggregate_bucket_def Let_def
    by (auto simp: res_simps split: list.splits)
  then show ?thesis
    using post_init_numbers float_max_props [of "b_high x" "map b_high xs"] float_min_props [of "b_low x" "map b_low xs"] assms(2)
    by (auto simp: bucket float_max_def float_min_def Let_def)
qed

subsection \<open>Merging\<close>

text \<open>
  Merging keeps the last bar of every time. The merged bars are strictly ordered by time, and a
  bar is among them iff it is the last of its time in the concatenated groups, so that bars of a
  later group replace those of an earlier one.
\<close>

theorem merge_bars_exact:
  "sorted_wrt (<) (map b_time (merge_bars groups)) \<and>
   (\<forall>b. b \<in> set (merge_bars groups) \<longleftrightarrow> find (\<lambda>x. b_time x = b_time b) (rev (concat groups)) = Some b)"
  using sorted_vals_strict [OF keyed_dict_of, of b_time "concat groups"] sorted_vals_set [OF keyed_dict_of, of _ b_time "concat groups"]
  by (simp add: merge_bars_def dict_of_get)

end
