(* ===== verification/Service.thy ===== *)
theory Service
  imports Aggregation Adapters CandleStore
begin

section \<open>The market data service\<close>

text \<open>
  Models \<^verbatim>\<open>service.py\<close> and \<^verbatim>\<open>canonical/source_identity.py\<close>: a query is served from the
  candle store, from the sources of its exchange where the store does not cover it, or derived from
  stored bars of a shorter timeframe. The clients that fetch bars over the network, the hash of a
  payload, the builtin sum of floats and midnight of the day (read once per call here) are fields
  of the record. Locks between threads are left out: an operation is one caller's sequence of steps.
\<close>

datatype client_bar = PlainBar bar | ClientBar market_bar

record history_config =
  hc_enabled :: bool
  hc_archive_first :: bool
  hc_base_timeframe :: string
  hc_recent_lag_days :: int

record service =
  sv_sha :: "byte list \<Rightarrow> byte list"
  sv_rs :: "revision_state \<Rightarrow> string"
  sv_hash :: "json \<Rightarrow> string \<Rightarrow> string"
  sv_sum :: "float64 list \<Rightarrow> float64"
  sv_history :: history_config
  sv_today :: int
  sv_archive :: "bar_query \<Rightarrow> client_bar list res"
  sv_binance :: "bar_query \<Rightarrow> client_bar list res"
  sv_bybit :: "bar_query \<Rightarrow> client_bar list res"
  sv_public :: "bar_query \<Rightarrow> client_bar list res"

subsection \<open>Sources\<close>

definition archive_cutoff_ms :: "service \<Rightarrow> int" where
  "archive_cutoff_ms sv = sv_today sv - max (hc_recent_lag_days (sv_history sv)) 0 * 86400000"

text \<open>A plain bar has the defaults of a market bar and the finality its source grants.\<close>

definition client_market_bar :: "bool option \<Rightarrow> client_bar \<Rightarrow> market_bar" where
  "client_market_bar finality c =
     (case c of
        ClientBar m \<Rightarrow> m
      | PlainBar b \<Rightarrow> market_bar_defaults\<lparr>b_time := b_time b, b_open := b_open b, b_high := b_high b, b_low := b_low b,
          b_close := b_close b, b_volume := b_volume b, b_time_close := b_time_close b, m_is_closed := finality\<rparr>)"

definition market_bar_from_core :: "bar_query \<Rightarrow> string \<Rightarrow> bool option \<Rightarrow> client_bar \<Rightarrow> market_bar res" where
  "market_bar_from_core query source_transport finality c =
     (let b = client_market_bar finality c; ik = q_instrument query in
      case (b_time_close b, m_is_closed b) of
        (None, _) \<Rightarrow> Inl (MDValidationError ''source bar is missing explicit close time'')
      | (_, None) \<Rightarrow> Inl (MDMissingFinality ''source bar is missing explicit finality'')
      | _ \<Rightarrow> market_bar_post_init (b\<lparr>m_exchange := ik_exchange ik, m_market := ik_market ik, m_symbol := ik_symbol ik,
               m_timeframe := tf_canonical (q_timeframe query), m_source_transport := source_transport, m_source := [], m_metadata := []\<rparr>))"

definition source_payload :: "bar_query \<Rightarrow> string \<Rightarrow> string \<Rightarrow> market_bar list \<Rightarrow> json" where
  "source_payload query provider source_transport bars =
     JObj [(''provider'', JStr provider), (''source_transport'', JStr source_transport),
           (''instrument_id'', JStr (serialize_instrument (q_instrument query))), (''timeframe'', JStr (tf_canonical (q_timeframe query))),
           (''start_ms'', JInt (q_start_ms query)), (''end_ms'', JInt (q_end_ms query)),
           (''bars'', JArr (map (\<lambda>b. JObj [(''time'', JInt (b_time b)), (''time_close'', opt_json JInt (b_time_close b)),
              (''open'', JStr (text_or_str (m_open_text b) (b_open b))), (''high'', JStr (text_or_str (m_high_text b) (b_high b))),
              (''low'', JStr (text_or_str (m_low_text b) (b_low b))), (''close'', JStr (text_or_str (m_close_text b) (b_close b))),
              (''volume'', JStr (text_or_str (m_volume_text b) (b_volume b))), (''is_closed'', opt_json JBool (m_is_closed b))]) bars))]"

definition source_revision ::
  "(json \<Rightarrow> string \<Rightarrow> string) \<Rightarrow> bar_query \<Rightarrow> string \<Rightarrow> string \<Rightarrow> market_bar list \<Rightarrow> string res" where
  "source_revision content_hash query provider source_transport bars =
     (let providers = remdups (filter (\<lambda>p. p \<noteq> []) (map m_provider bars));
          revisions = remdups (List.map_filter m_provider_revision bars) in
      if providers \<noteq> [] \<and> set providers \<noteq> {provider} then Inl (MDValidationError ''source bars disagree on provider identity'')
      else case revisions of
             [] \<Rightarrow> Inr (content_hash (source_payload query provider source_transport bars) ''marketdata-provider.source-revision.v1'')
           | r # rest \<Rightarrow>
               if rest \<noteq> [] \<or> list_ex (\<lambda>b. m_provider_revision b = None) bars
               then Inl (MDValidationError ''source bars disagree on provider_revision'')
               else Inr r)"

definition bind_source_identity ::
  "(json \<Rightarrow> string \<Rightarrow> string) \<Rightarrow> bar_query \<Rightarrow> string \<Rightarrow> string \<Rightarrow> market_bar list \<Rightarrow> market_bar list res" where
  "bind_source_identity content_hash query provider source_transport bars =
     (if bars = [] then Inr []
      else
        bindR (source_revision content_hash query provider source_transport bars) (\<lambda>revision.
        mapR (\<lambda>b. market_bar_post_init (b\<lparr>m_provider := provider, m_provider_revision := Some revision, m_source_transport := source_transport\<rparr>)) bars))"

definition source_fetch :: "service \<Rightarrow> bar_query \<Rightarrow> string \<Rightarrow> string \<Rightarrow> bool option \<Rightarrow> client_bar list res \<Rightarrow> market_bar list res" where
  "source_fetch sv query provider source_transport finality fetched =
     bindR fetched (\<lambda>bars.
     bindR (mapR (market_bar_from_core query source_transport finality) bars)
       (bind_source_identity (sv_hash sv) query provider source_transport))"

definition archive_fetch :: "service \<Rightarrow> bar_query \<Rightarrow> market_bar list res" where
  "archive_fetch sv query =
     (if archive_cutoff_ms sv \<le> q_start_ms query then Inr []
      else source_fetch sv query ''binance'' ''archive'' (Some True)
             (sv_archive sv (query\<lparr>q_end_ms := min (q_end_ms query) (archive_cutoff_ms sv)\<rparr>)))"

definition binance_fetch :: "service \<Rightarrow> bar_query \<Rightarrow> market_bar list res" where
  "binance_fetch sv query = source_fetch sv query ''binance'' ''rest'' None (sv_binance sv query)"

definition bybit_fetch :: "service \<Rightarrow> bar_query \<Rightarrow> market_bar list res" where
  "bybit_fetch sv query = source_fetch sv query ''bybit'' ''rest'' None (sv_bybit sv query)"

definition public_fetch :: "service \<Rightarrow> bar_query \<Rightarrow> market_bar list res" where
  "public_fetch sv query = source_fetch sv query (ik_exchange (q_instrument query)) ''rest'' None (sv_public sv query)"

definition supported_public_exchanges :: "string list" where
  "supported_public_exchanges = [''okx'', ''coinbase'', ''kraken'', ''kucoin'', ''bitget'', ''gateio'', ''htx'', ''mexc'']"

definition remaining_recent_query :: "service \<Rightarrow> bar_query \<Rightarrow> market_bar list \<Rightarrow> bar_query option res" where
  "remaining_recent_query sv query archive_bars =
     (let start = max (q_start_ms query) (archive_cutoff_ms sv) in
      if q_end_ms query \<le> start then Inr None
      else case tf_duration_ms (q_timeframe query) of
        None \<Rightarrow> bindR (post_init_bar_query (query\<lparr>q_start_ms := start\<rparr>)) (\<lambda>q. Inr (Some q))
      | Some duration \<Rightarrow>
          let start' = (if archive_bars \<noteq> [] \<and> start < b_time (last archive_bars) + duration
                        then b_time (last archive_bars) + duration else start) in
          if q_end_ms query \<le> start' then Inr None
          else bindR (post_init_bar_query (query\<lparr>q_start_ms := start'\<rparr>)) (\<lambda>q. Inr (Some q)))"

definition fetch_from_sources :: "service \<Rightarrow> bar_query \<Rightarrow> market_bar list res" where
  "fetch_from_sources sv query =
     (let exchange = ik_exchange (q_instrument query) in
      if exchange = ''binance'' then
        (if hc_archive_first (sv_history sv) then
           bindR (archive_fetch sv query) (\<lambda>archive.
           bindR (remaining_recent_query sv query archive) (\<lambda>rest_query.
           case rest_query of
             None \<Rightarrow> Inr archive
           | Some q \<Rightarrow> bindR (binance_fetch sv q) (\<lambda>rest. Inr (merge_bars [archive, rest]))))
         else binance_fetch sv query)
      else if exchange = ''bybit'' then bybit_fetch sv query
      else if exchange \<in> set supported_public_exchanges then public_fetch sv query
      else Inl (MDUnsupportedFeature ''Unsupported provider exchange: ''))"

subsection \<open>The store behind the service\<close>

definition query_key :: "bar_query \<Rightarrow> series_key" where
  "query_key query = \<lparr>sk_exchange = ik_exchange (q_instrument query), sk_market = ik_market (q_instrument query),
     sk_symbol = ik_symbol (q_instrument query), sk_timeframe = tf_canonical (q_timeframe query), sk_source_kind = ''trade_kline''\<rparr>"

definition return_io :: "'a \<Rightarrow> 'a cio" where
  "return_io x cs = (Inr x, cs)"

definition lift_res :: "'a res \<Rightarrow> 'a cio" where
  "lift_res r cs = (r, cs)"

definition manifest_for :: "series_key \<Rightarrow> segment_manifest option cio" where
  "manifest_for key cs = (bindR (series_path key) (\<lambda>path. load_segment_manifest (series_at path cs)), cs)"

definition stored_bars :: "service \<Rightarrow> bar_query \<Rightarrow> market_bar list cio" where
  "stored_bars sv query = get_market_bars (sv_sha sv) (sv_rs sv) (query_key query) (Some (q_start_ms query)) (Some (q_end_ms query))"

text \<open>The generator over a series; it runs to its first error or to where its consumer stops.\<close>

definition iter_series :: "service \<Rightarrow> series_key \<Rightarrow> int \<Rightarrow> int \<Rightarrow> yielded cio" where
  "iter_series sv key start stop cs =
     (case series_path key of
        Inl e \<Rightarrow> (Inr ([], Some e), cs)
      | Inr path \<Rightarrow>
          (let r = iter_all (sv_sha sv) (sv_rs sv) key (Some start) (Some stop) (series_at path cs)
           in (Inr (fst r), put_series path (snd r) cs)))"

primrec coverage_scan :: "int \<Rightarrow> int \<Rightarrow> error option \<Rightarrow> int \<Rightarrow> market_bar list \<Rightarrow> bool res" where
  "coverage_scan duration stop ended expected [] = (case ended of Some e \<Rightarrow> Inl e | None \<Rightarrow> Inr (stop \<le> expected))"
| "coverage_scan duration stop ended expected (b # bs) =
     (if b_time b \<noteq> expected then Inr False else coverage_scan duration stop ended (expected + duration) bs)"

definition stored_coverage_complete :: "service \<Rightarrow> bar_query \<Rightarrow> bool cio" where
  "stored_coverage_complete sv query =
     (case tf_duration_ms (q_timeframe query) of
        None \<Rightarrow> return_io False
      | Some duration \<Rightarrow>
          and_then (iter_series sv (query_key query) (q_start_ms query) (q_end_ms query)) (\<lambda>y.
          lift_res (coverage_scan duration (q_end_ms query) (snd y) (q_start_ms query) (fst y))))"

definition manifest_spans :: "segment_manifest option \<Rightarrow> bar_query \<Rightarrow> int option \<Rightarrow> bool" where
  "manifest_spans manifest query duration =
     (case (manifest, duration) of
        (Some m, Some d) \<Rightarrow>
          (case (sm_start_time m, sm_end_time m) of
             (Some s, Some e) \<Rightarrow> s \<le> q_start_ms query \<and> q_end_ms query - d \<le> e
           | _ \<Rightarrow> False)
      | _ \<Rightarrow> False)"

definition stored_span_complete :: "service \<Rightarrow> bar_query \<Rightarrow> bool cio" where
  "stored_span_complete sv query =
     and_then (manifest_for (query_key query)) (\<lambda>m. return_io (manifest_spans m query (tf_duration_ms (q_timeframe query))))"

text \<open>Merging bars into a series under its lock: a stored bar of the same time is replaced.\<close>

definition merge_locked :: "service \<Rightarrow> series_key \<Rightarrow> market_bar list \<Rightarrow> segment_manifest io" where
  "merge_locked sv key bars st =
     (case read_all_locked (sv_sha sv) (sv_rs sv) None None st of
        (Inl e, st') \<Rightarrow> (Inl e, st')
      | (Inr existing, st') \<Rightarrow>
          replace_all_locked (sv_sha sv) (sv_rs sv) key None (sorted_vals (dict_extend b_time (dict_of b_time existing) bars)) st')"

definition merge_into :: "service \<Rightarrow> series_key \<Rightarrow> market_bar list \<Rightarrow> segment_manifest cio" where
  "merge_into sv key bars = on_series key (series_writer_lock key (merge_locked sv key bars))"

primrec upsert_opens :: "service \<Rightarrow> market_bar list \<Rightarrow> unit cio" where
  "upsert_opens sv [] = return_io ()"
| "upsert_opens sv (b # bs) =
     (if m_is_closed b = Some True then upsert_opens sv bs
      else and_then (upsert_open (sv_sha sv) (sv_rs sv) b None None None) (\<lambda>_. upsert_opens sv bs))"

primrec delete_currents :: "market_bar list \<Rightarrow> unit cio" where
  "delete_currents [] = return_io ()"
| "delete_currents (b # bs) = and_then (on_current (delete_current b)) (\<lambda>_. delete_currents bs)"

abbreviation finalized :: "market_bar list \<Rightarrow> market_bar list" where
  "finalized bars \<equiv> filter (\<lambda>b. m_is_closed b = Some True) bars"

definition append_stream :: "service \<Rightarrow> bar_query \<Rightarrow> market_bar list \<Rightarrow> unit cio" where
  "append_stream sv query fetched_tail =
     and_then (upsert_opens sv fetched_tail) (\<lambda>_.
     if finalized fetched_tail = [] then return_io ()
     else
       and_then (on_series (query_key query) (append_strictly_newer (sv_sha sv) (sv_rs sv) (query_key query) (finalized fetched_tail))) (\<lambda>_.
       delete_currents (finalized fetched_tail)))"

text \<open>The second half of \<open>_ensure_stored_locked\<close>: everything the query asks for is fetched.\<close>

definition ensure_fetched :: "service \<Rightarrow> bar_query \<Rightarrow> bool cio" where
  "ensure_fetched sv query =
     and_then (stored_bars sv query) (\<lambda>current.
     and_then (lift_res (coverage_complete current query)) (\<lambda>complete.
     if complete then return_io False
     else
       and_then (lift_res (fetch_from_sources sv query)) (\<lambda>fetched.
       if fetched = [] then return_io False
       else
         and_then (upsert_opens sv fetched) (\<lambda>_.
         if finalized fetched = [] then return_io True
         else
           and_then (merge_into sv (query_key query) (finalized fetched)) (\<lambda>_.
           and_then (delete_currents (finalized fetched)) (\<lambda>_. return_io True))))))"

definition missing_tail_start :: "segment_manifest option \<Rightarrow> bar_query \<Rightarrow> int option" where
  "missing_tail_start manifest query =
     (case (manifest, tf_duration_ms (q_timeframe query)) of
        (Some m, Some d) \<Rightarrow>
          (case sm_end_time m of
             Some e \<Rightarrow> (let s = max (q_start_ms query) (e + d) in if s < q_end_ms query then Some s else None)
           | None \<Rightarrow> None)
      | _ \<Rightarrow> None)"

definition ensure_stored :: "service \<Rightarrow> bar_query \<Rightarrow> bool cio" where
  "ensure_stored sv query =
     and_then (stored_coverage_complete sv query) (\<lambda>covered.
     if covered then return_io False
     else
       and_then (manifest_for (query_key query)) (\<lambda>manifest.
       case missing_tail_start manifest query of
         None \<Rightarrow> ensure_fetched sv query
       | Some s \<Rightarrow>
           and_then (lift_res (bindR (post_init_bar_query (query\<lparr>q_start_ms := s\<rparr>)) (fetch_from_sources sv))) (\<lambda>fetched_tail.
           if fetched_tail = [] then ensure_fetched sv query
           else and_then (append_stream sv query fetched_tail) (\<lambda>_. return_io True))))"

subsection \<open>Serving a query\<close>

definition base_query :: "service \<Rightarrow> bar_query \<Rightarrow> bar_query res" where
  "base_query sv query =
     (if \<not> hc_enabled (sv_history sv) \<or> ik_exchange (q_instrument query) \<noteq> ''binance'' then Inr query
      else
        bindR (parse_timeframe (hc_base_timeframe (sv_history sv))) (\<lambda>base.
        bindR (can_derive_from_base query base) (\<lambda>derivable.
        if derivable then post_init_bar_query (query\<lparr>q_timeframe := base\<rparr>) else Inr query)))"

definition aggregate_stored_base :: "service \<Rightarrow> bar_query \<Rightarrow> bar_query \<Rightarrow> market_bar list cio" where
  "aggregate_stored_base sv base query =
     and_then (if tf_duration_ms (q_timeframe query) = None then return_io ([], None)
               else iter_series sv (query_key base) (q_start_ms query) (q_end_ms query)) (\<lambda>y.
     lift_res (aggregate_market_bars (sv_rs sv) (sv_hash sv) (sv_sum sv) query y))"

definition merge_derived_bars :: "service \<Rightarrow> bar_query \<Rightarrow> market_bar list \<Rightarrow> unit cio" where
  "merge_derived_bars sv query derived =
     (case derived of
        [] \<Rightarrow> return_io ()
      | d # _ \<Rightarrow>
          if list_ex (\<lambda>b. m_source_kind b \<noteq> m_source_kind d) derived
          then lift_res (Inl (CoverageValidationError ''Derived bars cross source-kind boundaries''))
          else and_then (merge_into sv ((query_key query)\<lparr>sk_source_kind := m_source_kind d\<rparr>) derived) (\<lambda>_. return_io ()))"

definition serve :: "bar_query \<Rightarrow> market_bar list \<Rightarrow> bar_series cio" where
  "serve query bars = lift_res (series_from_market_bars query bars ''storage'')"

definition covered :: "market_bar list \<Rightarrow> bar_query \<Rightarrow> bool cio" where
  "covered bars query = lift_res (coverage_complete bars query)"

text \<open>\<open>fetch_bars\<close> where the query is of the base timeframe, and where it is derived.\<close>

definition fetch_base_bars :: "service \<Rightarrow> bar_query \<Rightarrow> bar_query \<Rightarrow> bar_series cio" where
  "fetch_base_bars sv base query =
     and_then (stored_bars sv base) (\<lambda>bars.
     and_then (covered bars query) (\<lambda>complete.
     if complete then serve query bars
     else
       and_then (ensure_stored sv base) (\<lambda>_.
       and_then (stored_bars sv base) (\<lambda>bars.
       if bars = [] then serve query bars
       else
         and_then (covered bars query) (\<lambda>complete.
         if complete then serve query bars
         else lift_res (Inl (CoverageValidationError ''Stored/provider bars do not cover every requested timestamp'')))))))"

definition fetch_derived_bars :: "service \<Rightarrow> bar_query \<Rightarrow> bar_query \<Rightarrow> bar_series cio" where
  "fetch_derived_bars sv base query =
     and_then (stored_bars sv query) (\<lambda>derived.
     and_then (covered derived query) (\<lambda>complete.
     if complete then serve query derived
     else
       and_then (ensure_stored sv base) (\<lambda>_.
       and_then (stored_bars sv query) (\<lambda>derived.
       and_then (covered derived query) (\<lambda>complete.
       if complete then serve query derived
       else
         and_then (aggregate_stored_base sv base query) (\<lambda>derived.
         if derived = [] then serve query []
         else
           and_then (merge_derived_bars sv query derived) (\<lambda>_.
           and_then (stored_bars sv query) (\<lambda>derived.
           and_then (covered derived query) (\<lambda>complete.
           if complete then serve query derived
           else lift_res (Inl (CoverageValidationError ''Derived bars do not cover every requested timestamp'')))))))))))"

definition fetch_bars :: "service \<Rightarrow> bar_query \<Rightarrow> bar_series cio" where
  "fetch_bars sv query =
     and_then (lift_res (base_query sv query)) (\<lambda>base.
     if timeframe_eq (q_timeframe base) (q_timeframe query) then fetch_base_bars sv base query else fetch_derived_bars sv base query)"

definition precompute_bars :: "service \<Rightarrow> bar_query \<Rightarrow> bar_series cio" where
  "precompute_bars sv query = fetch_bars sv query"

record materialized =
  mt_ok :: bool
  mt_span_ok :: bool
  mt_changed :: bool
  mt_bars_returned :: nat
  mt_rows_written :: "nat option"

definition report_materialized :: "service \<Rightarrow> bar_query \<Rightarrow> bool \<Rightarrow> nat option \<Rightarrow> materialized cio" where
  "report_materialized sv query changed rows_written =
     and_then (stored_coverage_complete sv query) (\<lambda>ok.
     and_then (stored_span_complete sv query) (\<lambda>span.
     return_io \<lparr>mt_ok = ok, mt_span_ok = span, mt_changed = changed, mt_bars_returned = 0, mt_rows_written = rows_written\<rparr>))"

definition report_complete :: "service \<Rightarrow> bar_query \<Rightarrow> bool \<Rightarrow> materialized cio" where
  "report_complete sv query changed =
     and_then (stored_span_complete sv query) (\<lambda>span.
     return_io \<lparr>mt_ok = True, mt_span_ok = span, mt_changed = changed, mt_bars_returned = 0, mt_rows_written = None\<rparr>)"

definition materialize_bars :: "service \<Rightarrow> bar_query \<Rightarrow> materialized cio" where
  "materialize_bars sv query =
     and_then (lift_res (base_query sv query)) (\<lambda>base.
     and_then (stored_coverage_complete sv query) (\<lambda>complete.
     if complete then report_complete sv query False
     else if timeframe_eq (q_timeframe base) (q_timeframe query)
     then and_then (ensure_stored sv base) (\<lambda>changed. report_materialized sv query changed None)
     else
       and_then (ensure_stored sv base) (\<lambda>base_changed.
       and_then (stored_coverage_complete sv query) (\<lambda>complete.
       if complete then report_complete sv query base_changed
       else
         and_then (if base_changed then return_io False else stored_span_complete sv query) (\<lambda>idle.
         if idle then
           and_then (stored_coverage_complete sv query) (\<lambda>ok.
           return_io \<lparr>mt_ok = ok, mt_span_ok = True, mt_changed = False, mt_bars_returned = 0, mt_rows_written = None\<rparr>)
         else
           and_then (aggregate_stored_base sv base query) (\<lambda>derived.
           and_then (merge_derived_bars sv query derived) (\<lambda>_.
           report_materialized sv query (derived \<noteq> []) (Some (length derived)))))))))"

end
