(* ===== verification/ServiceSafety.thy ===== *)
theory ServiceSafety
  imports Service Samples
begin

section \<open>What the service guarantees\<close>

text \<open>
  The properties of \<^verbatim>\<open>service.py\<close> over the candle store: a served series is complete or empty, a
  covered query is served from the store alone, bars written into a series replace those of their
  time, and the bars of a source carry the identity of the query.
\<close>

subsection \<open>A sample service\<close>

text \<open>The archive holds the first minute of the sample series, the exchange serves the second.\<close>

definition sample_service :: service where
  "sample_service = \<lparr>sv_sha = sample_sha, sv_rs = sample_rs, sv_hash = (\<lambda>_ _. ''h''), sv_sum = hd,
     sv_history = \<lparr>hc_enabled = False, hc_archive_first = True, hc_base_timeframe = ''1m'', hc_recent_lag_days = 1\<rparr>,
     sv_today = 86430000, sv_archive = (\<lambda>_. Inr [ClientBar (sample_bar 0)]), sv_binance = (\<lambda>_. Inr [ClientBar (sample_bar 60000)]),
     sv_bybit = (\<lambda>_. Inr []), sv_public = (\<lambda>_. Inr [])\<rparr>"

definition minutes_to :: "int \<Rightarrow> bar_query" where
  "minutes_to stop = \<lparr>q_instrument = \<lparr>ik_exchange = ''binance'', ik_market = ''spot'', ik_symbol = ''BTCUSDT''\<rparr>,
     q_timeframe = \<lparr>tf_raw = ''1m'', tf_canonical = ''1m'', tf_multiplier = 1, tf_unit = Minute, tf_duration_ms = Some 60000\<rparr>,
     q_start_ms = 0, q_end_ms = stop, q_source = ''auto'', q_gap_policy = ''fail'', q_error_policy = ''raise''\<rparr>"

lemma sample_service_simps [simp]:
  "sv_sha sample_service = sample_sha" "sv_rs sample_service = sample_rs" "archive_cutoff_ms sample_service = 30000"
  by (simp_all add: sample_service_def archive_cutoff_ms_def)

lemma minutes_to_simps [simp]:
  "q_start_ms (minutes_to t) = 0" "q_end_ms (minutes_to t) = t" "tf_duration_ms (q_timeframe (minutes_to t)) = Some 60000"
  "ik_exchange (q_instrument (minutes_to t)) = ''binance''"
  by (simp_all add: minutes_to_def)

lemma sample_query_key: "query_key (minutes_to t) = sample_key"
  by (simp add: query_key_def minutes_to_def sample_key_def bar_key_def sample_bar_def market_bar_defaults_def)

lemma sample_base_query: "base_query sample_service q = Inr q"
  by (simp add: base_query_def sample_service_def)

lemma sample_in_first: "filter (\<lambda>b. in_range (Some 0) (Some 60000) (b_time b)) [sample_bar 0] = [sample_bar 0]"
  by (simp add: in_range_def)

lemma sample_covered: "coverage_complete [sample_bar 0] (minutes_to 60000) = Inr True"
  by code_simp

lemma sample_series: "\<exists>s. series_from_market_bars (minutes_to 60000) [sample_bar 0] ''storage'' = Inr s \<and> bs_bars s \<noteq> []"
proof -
  have "case series_from_market_bars (minutes_to 60000) [sample_bar 0] ''storage'' of Inl _ \<Rightarrow> False | Inr s \<Rightarrow> bs_bars s \<noteq> []" by code_simp
  then show ?thesis by (auto split: sum.splits)
qed

subsection \<open>Steps that succeed\<close>

lemma and_then_Inr [res_simps]:
  "and_then f g cs = (Inr y, cs'') \<longleftrightarrow> (\<exists>x cs'. f cs = (Inr x, cs') \<and> g x cs' = (Inr y, cs''))"
  by (auto simp: and_then_def split: prod.splits sum.splits)

lemma steps_Inr [res_simps]:
  "return_io x cs = (Inr y, cs') \<longleftrightarrow> y = x \<and> cs' = cs" "lift_res r cs = (Inr y, cs') \<longleftrightarrow> r = Inr y \<and> cs' = cs"
  by (auto simp: return_io_def lift_res_def)

lemma writer_lock_body:
  "series_writer_lock key body st = (Inr x, st') \<Longrightarrow> \<exists>s. body s = (Inr x, st')"
  by (auto simp: series_writer_lock_def Let_def split: sum.splits)

lemma checked_sorted: "checked_bars r = Inr bars \<Longrightarrow> sorted_wrt (<) (map b_time bars)"
  using validate_loop_iff [of "{}" None "map market_bar_to_bar bars"]
  by (auto simp: checked_bars_def res_simps validate_bars_def o_def)

lemma read_locked_sorted:
  "read_all_locked sha rs start stop st = (Inr bars, st') \<Longrightarrow> sorted_wrt (<) (map b_time bars)"
  by (auto simp: read_all_locked_def dest: checked_sorted split: prod.splits sum.splits option.splits if_splits)

lemma stored_bars_sorted:
  assumes "stored_bars sv query cs = (Inr bars, cs')"
  shows "sorted_wrt (<) (map b_time bars)"
proof -
  obtain st st' where "read_all (sv_sha sv) (sv_rs sv) (query_key query) (Some (q_start_ms query)) (Some (q_end_ms query)) st = (Inr bars, st')"
    using assms by (auto simp: stored_bars_def get_market_bars_def on_series_def Let_def split: sum.splits) (metis prod.collapse)
  then obtain s where "read_all_locked (sv_sha sv) (sv_rs sv) (Some (q_start_ms query)) (Some (q_end_ms query)) s = (Inr bars, st')"
    by (auto simp: read_all_def series_reader_lock_def split: sum.splits dest: writer_lock_body)
  then show ?thesis by (rule read_locked_sorted)
qed

subsection \<open>Complete or empty\<close>

lemma contract_times:
  assumes "mapR (market_bar_to_contract query) bars = Inr contract_bars"
  shows "map cb_time contract_bars = map b_time bars"
proof (rule mapR_map [OF assms])
  fix x y assume "market_bar_to_contract query x = Inr y"
  then show "cb_time y = b_time x"
    by (auto simp: market_bar_to_contract_def core_to_contract_bar_def post_init_contract_bar_def res_simps Let_def split: option.splits if_splits)
qed

definition complete_or_empty :: "bar_series \<Rightarrow> bool" where
  "complete_or_empty s \<longleftrightarrow> bs_bars s = [] \<or> is_complete (bs_coverage s)"

lemma serve_complete:
  assumes "serve query bars cs = (Inr s, cs')" and "coverage_complete bars query = Inr True" and "sorted_wrt (<) (map b_time bars)"
    and "tf_duration_ms (q_timeframe query) = Some d" and "0 < d"
  shows "complete_or_empty s"
proof -
  obtain contract_bars r where c: "mapR (market_bar_to_contract query) bars = Inr contract_bars"
    "make_coverage_report query contract_bars ''storage'' = Inr r" "s = \<lparr>bs_query = query, bs_bars = contract_bars, bs_coverage = r\<rparr>"
    using assms(1) by (auto simp: serve_def series_from_market_bars_def series_of_def res_simps)
  note times = contract_times [OF c(1)]
  have "cb_time ` set contract_bars = b_time ` set bars" using times by (metis list.set_map)
  moreover have "\<forall>t. q_start_ms query \<le> t \<and> t < q_end_ms query \<and> d dvd t - q_start_ms query \<longrightarrow> t \<in> b_time ` set bars"
    using assms(2,4,5) by (auto simp: coverage_complete_def res_simps py_range_pos range_pos_mem list_all_iff)
  ultimately show ?thesis
    using report_complete_iff [OF assms(4,5) c(2)] times assms(3) c(3) by (auto simp: complete_or_empty_def)
qed

lemma serve_empty: "serve query [] cs = (Inr s, cs') \<Longrightarrow> complete_or_empty s"
  by (auto simp: serve_def series_from_market_bars_def series_of_def complete_or_empty_def res_simps)

lemma covered_serve:
  assumes "stored_bars sv q' cs = (Inr bars, cs1)" and "covered bars query cs1 = (Inr True, cs2)" and "serve query bars cs2 = (Inr s, cs3)"
    and "tf_duration_ms (q_timeframe query) = Some d" and "0 < d"
  shows "complete_or_empty s"
  using serve_complete [OF assms(3) _ stored_bars_sorted [OF assms(1)] assms(4,5)] assms(2) by (simp add: covered_def res_simps)

lemma fetch_base_complete:
  assumes "fetch_base_bars sv base query cs = (Inr s, cs')" and "tf_duration_ms (q_timeframe query) = Some d" and "0 < d"
  shows "complete_or_empty s"
  using assms(1) covered_serve [OF _ _ _ assms(2,3)] serve_empty
  by (auto simp: fetch_base_bars_def res_simps split: if_splits)

lemma fetch_derived_complete:
  assumes "fetch_derived_bars sv base query cs = (Inr s, cs')" and "tf_duration_ms (q_timeframe query) = Some d" and "0 < d"
  shows "complete_or_empty s"
  using assms(1) covered_serve [OF _ _ _ assms(2,3)] serve_empty
  by (auto simp: fetch_derived_bars_def res_simps split: if_splits)

text \<open>
  C12. A served series is complete or empty. Whatever the store and the sources hold, when
  \<open>fetch_bars\<close> returns for a timeframe of fixed duration, the series either has no bars or its
  coverage report is complete: no gap, no duplicate, bars in order. A partial series is never
  returned.
\<close>

theorem fetch_bars_complete_or_empty:
  assumes "fetch_bars sv query cs = (Inr series, cs')" and "tf_duration_ms (q_timeframe query) = Some d" and "0 < d"
  shows "bs_bars series = [] \<or> is_complete (bs_coverage series)"
proof -
  obtain base where "fetch_base_bars sv base query cs = (Inr series, cs') \<or> fetch_derived_bars sv base query cs = (Inr series, cs')"
    using assms(1) by (auto simp: fetch_bars_def res_simps split: if_splits)
  then have "complete_or_empty series" using fetch_base_complete fetch_derived_complete assms(2,3) by blast
  then show ?thesis by (simp add: complete_or_empty_def)
qed

subsection \<open>Served from the store\<close>

lemma stored_bars_exact:
  assumes "rs_ok (sv_rs sv)" and "stored (sv_sha sv) (sv_rs sv) (query_key query) bars (series_at path cs)" and "series_path (query_key query) = Inr path"
  shows "\<exists>cs'. stored_bars sv query cs = (Inr (filter (\<lambda>b. in_range (Some (q_start_ms query)) (Some (q_end_ms query)) (b_time b)) bars), cs') \<and>
    stored (sv_sha sv) (sv_rs sv) (query_key query) bars (series_at path cs')"
proof -
  obtain st where "read_all (sv_sha sv) (sv_rs sv) (query_key query) (Some (q_start_ms query)) (Some (q_end_ms query)) (series_at path cs) =
      (Inr (filter (\<lambda>b. in_range (Some (q_start_ms query)) (Some (q_end_ms query)) (b_time b)) bars), st)"
    "stored (sv_sha sv) (sv_rs sv) (query_key query) bars st"
    using read_stored [OF assms(1,2)] by blast
  then show ?thesis using assms(3) by (simp add: stored_bars_def get_market_bars_def on_series_def Let_def)
qed

lemma base_query_fields:
  assumes "base_query sv query = Inr base"
  shows "q_instrument base = q_instrument query" "q_start_ms base = q_start_ms query" "q_end_ms base = q_end_ms query"
  using assms by (auto simp: base_query_def post_init_bar_query_def res_simps split: if_splits)

lemma same_timeframe_stored:
  assumes "base_query sv query = Inr base" and "timeframe_eq (q_timeframe base) (q_timeframe query)"
  shows "stored_bars sv base = stored_bars sv query"
  using base_query_fields [OF assms(1)] assms(2) by (simp add: stored_bars_def query_key_def timeframe_eq_def)

lemma fetch_stored:
  assumes "rs_ok (sv_rs sv)" and "base_query sv query = Inr base" and "series_path (query_key query) = Inr path"
    and "stored (sv_sha sv) (sv_rs sv) (query_key query) bars (series_at path cs)"
    and "coverage_complete (filter (\<lambda>b. in_range (Some (q_start_ms query)) (Some (q_end_ms query)) (b_time b)) bars) query = Inr True"
  shows "\<exists>cs'. fetch_bars sv query cs =
      (series_from_market_bars query (filter (\<lambda>b. in_range (Some (q_start_ms query)) (Some (q_end_ms query)) (b_time b)) bars) ''storage'', cs') \<and>
    stored (sv_sha sv) (sv_rs sv) (query_key query) bars (series_at path cs')"
proof -
  obtain cs' where "stored_bars sv query cs = (Inr (filter (\<lambda>b. in_range (Some (q_start_ms query)) (Some (q_end_ms query)) (b_time b)) bars), cs')"
    "stored (sv_sha sv) (sv_rs sv) (query_key query) bars (series_at path cs')"
    using stored_bars_exact [OF assms(1,4,3)] by blast
  then show ?thesis
    using assms(2,5) same_timeframe_stored [OF assms(2)]
    by (auto simp: fetch_bars_def fetch_base_bars_def fetch_derived_bars_def and_then_def lift_res_def covered_def serve_def)
qed

text \<open>
  C13. A covered query needs no source. When the series of a query already stores bars that cover its
  window, \<open>fetch_bars\<close> returns the series of exactly the stored bars of the window, whatever the
  sources would answer and whatever the series of the base timeframe holds, and the same bars stay stored. This is so for
  a query of the base timeframe and for one whose bars are derived from it. That there is a base query is a premise:
  where the configured base timeframe cannot be read, \<open>fetch_bars\<close> raises before it looks at the store.
\<close>

theorem fetch_bars_from_store:
  assumes "rs_ok (sv_rs sv)" and "base_query sv query = Inr base" and "series_path (query_key query) = Inr path"
    and "stored (sv_sha sv) (sv_rs sv) (query_key query) bars (series_at path cs)"
    and "coverage_complete (filter (\<lambda>b. in_range (Some (q_start_ms query)) (Some (q_end_ms query)) (b_time b)) bars) query = Inr True"
  shows "\<exists>cs'. fetch_bars sv query cs =
      (series_from_market_bars query (filter (\<lambda>b. in_range (Some (q_start_ms query)) (Some (q_end_ms query)) (b_time b)) bars) ''storage'', cs') \<and>
    stored (sv_sha sv) (sv_rs sv) (query_key query) bars (series_at path cs')"
  by (rule fetch_stored [OF assms])

text \<open>A stored five-minute bar, and the query for it of a service that derives five minutes from one.\<close>

definition sample_five :: market_bar where
  "sample_five = (sample_bar 0)\<lparr>b_time_close := Some 299999, m_timeframe := ''5m''\<rparr>"

definition deriving_service :: service where
  "deriving_service = sample_service\<lparr>sv_history := \<lparr>hc_enabled = True, hc_archive_first = True, hc_base_timeframe = ''1m'', hc_recent_lag_days = 1\<rparr>\<rparr>"

definition five_query :: bar_query where
  "five_query = (minutes_to 300000)\<lparr>q_timeframe := \<lparr>tf_raw = ''5m'', tf_canonical = ''5m'', tf_multiplier = 5, tf_unit = Minute, tf_duration_ms = Some 300000\<rparr>\<rparr>"

lemma sample_five_stored:
  "\<exists>path st. series_path (query_key five_query) = Inr path \<and> stored sample_sha sample_rs (query_key five_query) [sample_five] st"
proof -
  have i: "key_identity (query_key five_query) = Inr (''binance'', ''spot'', ''BTCUSDT'', ''5m'', ''trade_kline'')" by code_simp
  have "storable sample_five" "one_line (bar_line sample_rs sample_five)" "length (bar_line sample_rs sample_five) \<le> 300" "bar_sane sample_five"
    "validate_persisted_bar_semantics sample_five = Inr ()" "encodable sample_rs sample_five" by code_simp+
  then have "bars_ok sample_rs [sample_five]" "list_all (encodable sample_rs) [sample_five]" by (simp_all add: bars_ok_def line_ok_def)
  then obtain st where "stored sample_sha sample_rs (query_key five_query) [sample_five] st"
    using replace_locked_stored [of sample_sha sample_rs "query_key five_query" None empty_state _ None "[sample_five]", OF _ i] sample_vacant
    by (auto simp: contains_def)
  moreover have "case series_path (query_key five_query) of Inl e \<Rightarrow> False | Inr _ \<Rightarrow> True" by code_simp
  ultimately show ?thesis by (auto split: sum.splits)
qed

lemma deriving_base: "\<exists>base. base_query deriving_service five_query = Inr base \<and> \<not> timeframe_eq (q_timeframe base) (q_timeframe five_query)"
proof -
  have "case base_query deriving_service five_query of Inl e \<Rightarrow> False | Inr base \<Rightarrow> \<not> timeframe_eq (q_timeframe base) (q_timeframe five_query)"
    by code_simp
  then show ?thesis by (auto split: sum.splits)
qed

lemma five_series:
  "coverage_complete [sample_five] five_query = Inr True"
  "case series_from_market_bars five_query [sample_five] ''storage'' of Inl e \<Rightarrow> False | Inr s \<Rightarrow> map cb_time (bs_bars s) = [0]"
  by code_simp+

theorem fetch_bars_from_store_witness:
  "\<exists>cs series cs' base. fetch_bars deriving_service five_query cs = (Inr series, cs') \<and> map cb_time (bs_bars series) = [0] \<and>
     base_query deriving_service five_query = Inr base \<and> tf_canonical (q_timeframe base) = ''1m''"
proof -
  obtain st path where st: "stored sample_sha sample_rs (query_key five_query) [sample_five] st" "series_path (query_key five_query) = Inr path"
    using sample_five_stored by blast
  obtain base where b: "base_query deriving_service five_query = Inr base" using deriving_base by blast
  have "case base_query deriving_service five_query of Inl e \<Rightarrow> False | Inr base \<Rightarrow> tf_canonical (q_timeframe base) = ''1m''" by code_simp
  with b have one: "tf_canonical (q_timeframe base) = ''1m''" by simp
  obtain s where s: "series_from_market_bars five_query [sample_five] ''storage'' = Inr s" "map cb_time (bs_bars s) = [0]"
    using five_series(2) by (auto split: sum.splits)
  have w: "filter (\<lambda>b. in_range (Some (q_start_ms five_query)) (Some (q_end_ms five_query)) (b_time b)) [sample_five] = [sample_five]"
    by (simp add: five_query_def sample_five_def in_range_def)
  have d: "sv_sha deriving_service = sample_sha" "sv_rs deriving_service = sample_rs" by (simp_all add: deriving_service_def)
  obtain cs' where "fetch_bars deriving_service five_query (put_series path st empty_store) = (Inr s, cs')"
    using fetch_bars_from_store [OF _ b st(2), of "[sample_five]" "put_series path st empty_store"] sample_rs_ok five_series(1) st(1)
    unfolding w d s(1) by auto
  with s(2) b one show ?thesis by (intro exI conjI)
qed

theorem fetch_bars_complete_or_empty_witness:
  "\<exists>cs series cs'. fetch_bars sample_service (minutes_to 60000) cs = (Inr series, cs') \<and> bs_bars series \<noteq> [] \<and> is_complete (bs_coverage series)"
proof -
  obtain st path where st: "stored sample_sha sample_rs sample_key [sample_bar 0] st" and path: "series_path sample_key = Inr path"
    using sample_stored sample_path by blast
  obtain s where s: "series_from_market_bars (minutes_to 60000) [sample_bar 0] ''storage'' = Inr s" "bs_bars s \<noteq> []" using sample_series by blast
  then obtain cs cs' where f: "fetch_bars sample_service (minutes_to 60000) cs = (Inr s, cs')"
    using fetch_stored [of sample_service "minutes_to 60000" "minutes_to 60000" path "[sample_bar 0]" "put_series path st empty_store"] sample_rs_ok sample_covered st path
    by (auto simp: sample_base_query sample_query_key in_range_def)
  then show ?thesis using fetch_bars_complete_or_empty [OF f, of 60000] s by auto
qed

subsection \<open>Merging into a series\<close>

lemma dict_extend_concat: "dict_extend key (dict_of key xs) ys = dict_of key (concat [xs, ys])"
  by (simp add: dict_of_extend dict_extend_append)

text \<open>
  C30. Fetched bars are merged over what is stored. Merging storable bars into a series, whether it
  has a segment or not, returns and leaves exactly the merge of the two stored, the new bar
  replacing a stored one of its time. Unlike a commit this never raises a conflict, so a fetch
  overwrites closed candles.
\<close>

theorem merge_into_refines:
  assumes "rs_ok (sv_rs sv)" and "contains (sv_sha sv) (sv_rs sv) key c (series_at path cs)" and "series_path key = Inr path"
    and "key_identity key = Inr i" and "bars_ok (sv_rs sv) (merge_bars [content c, new])"
    and "list_all (encodable (sv_rs sv)) (merge_bars [content c, new])"
  shows "\<exists>m cs'. merge_into sv key new cs = (Inr m, cs') \<and>
    stored (sv_sha sv) (sv_rs sv) key (merge_bars [content c, new]) (series_at path cs') \<and>
    cs_current cs' = cs_current cs \<and> (\<forall>p. p \<noteq> path \<longrightarrow> cs_dirs cs' p = cs_dirs cs p)"
proof -
  obtain st where r: "read_all_locked (sv_sha sv) (sv_rs sv) None None (series_at path cs) = (Inr (content c), st)"
    "contains (sv_sha sv) (sv_rs sv) key c st"
    using read_locked_contains [OF assms(1,2)] by blast
  let ?bars = "merge_bars [content c, new]"
  have sorted: "sort_key b_time ?bars = ?bars" by (rule sorted_bars [OF assms(5)])
  obtain m st' where w: "replace_all_locked (sv_sha sv) (sv_rs sv) key None ?bars st = (Inr m, st')" "stored (sv_sha sv) (sv_rs sv) key ?bars st'"
    using replace_locked_stored [OF r(2) assms(4), of None ?bars] assms(5,6) by (auto simp: sorted)
  have "sorted_vals (dict_extend b_time (dict_of b_time (content c)) new) = ?bars"
    by (simp only: dict_extend_concat merge_bars_def)
  then have "merge_locked sv key new (series_at path cs) = (Inr m, st')" using r(1) w(1) by (simp add: merge_locked_def)
  then show ?thesis
    using w(2) assms(3) by (simp add: merge_into_def on_series_def contains_locked [OF assms(2,3)] Let_def)
qed

theorem merge_into_refines_witness:
  "\<exists>path m cs. series_path sample_key = Inr path \<and> merge_into sample_service sample_key [sample_bar 60000, sample_bar 0] empty_store = (Inr m, cs) \<and>
     stored sample_sha sample_rs sample_key [sample_bar 0, sample_bar 60000] (series_at path cs)"
proof -
  obtain path where path: "series_path sample_key = Inr path" using sample_path by blast
  have m: "merge_bars [content None, [sample_bar 60000, sample_bar 0]] = [sample_bar 0, sample_bar 60000]"
    by (simp add: merge_bars_def content_def dict_of_def sorted_vals_def)
  show ?thesis
    using merge_into_refines [of sample_service sample_key None path empty_store, OF _ _ path sample_identity, of "[sample_bar 60000, sample_bar 0]"]
      sample_rs_ok empty_store_contains sample_bars_ok(4) sample_encodable path
    unfolding m by auto
qed

subsection \<open>The identity of fetched bars\<close>

text \<open>A bar that carries the identity of a query, with decided finality and a provider revision.\<close>

definition carries_identity :: "bar_query \<Rightarrow> market_bar \<Rightarrow> bool" where
  "carries_identity query b \<longleftrightarrow>
     m_exchange b = ik_exchange (q_instrument query) \<and> m_market b = ik_market (q_instrument query) \<and>
     m_symbol b = ik_symbol (q_instrument query) \<and> m_timeframe b = tf_canonical (q_timeframe query) \<and>
     b_time_close b \<noteq> None \<and> m_is_closed b \<noteq> None \<and> m_provider b = ik_exchange (q_instrument query) \<and> m_provider_revision b \<noteq> None"

lemma post_init_fields:
  assumes "market_bar_post_init b = Inr c"
  shows "m_exchange c = m_exchange b \<and> m_market c = m_market b \<and> m_symbol c = m_symbol b \<and> m_timeframe c = m_timeframe b \<and>
    b_time_close c = b_time_close b \<and> m_is_closed c = m_is_closed b \<and> m_is_closed b \<noteq> None \<and>
    (m_provider b \<noteq> [] \<longrightarrow> m_provider c = m_provider b) \<and> (m_provider_revision b \<noteq> None \<longrightarrow> m_provider_revision c = m_provider_revision b)"
  using assms
  by (auto simp: market_bar_post_init_def fill_provider_def provider_from_metadata_def revision_from_metadata_def Let_def split: if_splits)

lemma from_core_identity:
  assumes "market_bar_from_core query transport finality x = Inr b"
  shows "m_exchange b = ik_exchange (q_instrument query)" "m_market b = ik_market (q_instrument query)"
    "m_symbol b = ik_symbol (q_instrument query)" "m_timeframe b = tf_canonical (q_timeframe query)" "b_time_close b \<noteq> None"
  using assms by (auto simp: market_bar_from_core_def Let_def split: option.splits dest!: post_init_fields)

lemma source_fetch_identity:
  assumes "source_fetch sv query provider transport finality fetched = Inr bars" and "provider = ik_exchange (q_instrument query)" and "provider \<noteq> []"
  shows "list_all (carries_identity query) bars"
proof -
  obtain raw cores where raw: "mapR (market_bar_from_core query transport finality) raw = Inr cores"
    and bind: "bind_source_identity (sv_hash sv) query provider transport cores = Inr bars"
    using assms(1) by (auto simp: source_fetch_def res_simps)
  have core: "c \<in> set cores \<Longrightarrow> \<exists>x. market_bar_from_core query transport finality x = Inr c" for c
    using raw by (auto simp: mapR_list_all2 in_set_conv_nth list_all2_conv_all_nth)
  have "bars = [] \<or> (\<exists>revision. mapR (\<lambda>b. market_bar_post_init (b\<lparr>m_provider := provider, m_provider_revision := Some revision,
    m_source_transport := transport\<rparr>)) cores = Inr bars)"
    using bind by (cases "cores = []") (simp_all add: bind_source_identity_def res_simps, blast)
  then consider "bars = []" | revision where
    "mapR (\<lambda>b. market_bar_post_init (b\<lparr>m_provider := provider, m_provider_revision := Some revision, m_source_transport := transport\<rparr>)) cores = Inr bars"
    by blast
  then show ?thesis
  proof cases
    case 1
    then show ?thesis by simp
  next
    case 2
    have "carries_identity query b" if b: "b \<in> set bars" for b
    proof -
      obtain c where c: "c \<in> set cores" "market_bar_post_init (c\<lparr>m_provider := provider, m_provider_revision := Some revision, m_source_transport := transport\<rparr>) = Inr b"
        using 2 b unfolding mapR_list_all2 in_set_conv_nth list_all2_conv_all_nth by metis
      obtain x where "market_bar_from_core query transport finality x = Inr c" using core c(1) by blast
      from from_core_identity [OF this] post_init_fields [OF c(2)] assms(2,3) show ?thesis by (simp add: carries_identity_def)
    qed
    then show ?thesis by (simp add: list_all_iff)
  qed
qed

lemma merge_bars_subset: "set (merge_bars groups) \<subseteq> \<Union> (set ` set groups)"
proof
  fix b assume "b \<in> set (merge_bars groups)"
  then have "find (\<lambda>x. b_time x = b_time b) (rev (concat groups)) = Some b"
    using sorted_vals_set [OF keyed_dict_of, of b b_time "concat groups"] by (simp add: merge_bars_def dict_of_get)
  then have "b \<in> set (rev (concat groups))" by (metis find_Some_iff nth_mem)
  then show "b \<in> \<Union> (set ` set groups)" by simp
qed

lemma remaining_start:
  assumes "remaining_recent_query sv query archive = Inr (Some q)"
  shows "\<exists>s. q = query\<lparr>q_start_ms := s\<rparr> \<and> s < q_end_ms query \<and> q_start_ms query \<le> s \<and> archive_cutoff_ms sv \<le> s \<and>
    (\<forall>d. tf_duration_ms (q_timeframe query) = Some d \<and> archive \<noteq> [] \<longrightarrow> b_time (last archive) + d \<le> s)"
proof -
  have valid: "post_init_bar_query (query\<lparr>q_start_ms := s\<rparr>) = Inr q \<Longrightarrow> q = query\<lparr>q_start_ms := s\<rparr> \<and> s < q_end_ms query" for s
    by (auto simp: post_init_bar_query_def split: if_splits)
  obtain s where "post_init_bar_query (query\<lparr>q_start_ms := s\<rparr>) = Inr q" "q_start_ms query \<le> s" "archive_cutoff_ms sv \<le> s"
    "\<forall>d. tf_duration_ms (q_timeframe query) = Some d \<and> archive \<noteq> [] \<longrightarrow> b_time (last archive) + d \<le> s"
    using assms by (auto simp: remaining_recent_query_def res_simps Let_def split: if_splits option.splits)
  with valid show ?thesis by blast
qed

lemma archive_fetch_identity:
  assumes "archive_fetch sv query = Inr bars" and "ik_exchange (q_instrument query) = ''binance''"
  shows "list_all (carries_identity query) bars"
proof (cases "archive_cutoff_ms sv \<le> q_start_ms query")
  case True
  then show ?thesis using assms(1) by (simp add: archive_fetch_def)
next
  case False
  then have "source_fetch sv query ''binance'' ''archive'' (Some True)
      (sv_archive sv (query\<lparr>q_end_ms := min (q_end_ms query) (archive_cutoff_ms sv)\<rparr>)) = Inr bars"
    using assms(1) by (simp only: archive_fetch_def if_False)
  from source_fetch_identity [OF this] show ?thesis using assms(2) by simp
qed

lemma carries_identity_start: "carries_identity (query\<lparr>q_start_ms := s\<rparr>) b \<longleftrightarrow> carries_identity query b"
  by (simp add: carries_identity_def)

lemma binance_fetch_identity:
  assumes "binance_fetch sv (query\<lparr>q_start_ms := s\<rparr>) = Inr bars" and "ik_exchange (q_instrument query) = ''binance''"
  shows "list_all (carries_identity query) bars"
proof -
  have "list_all (carries_identity (query\<lparr>q_start_ms := s\<rparr>)) bars"
    by (rule source_fetch_identity [OF assms(1) [unfolded binance_fetch_def]]) (simp_all add: assms(2))
  then show ?thesis by (simp add: carries_identity_start list_all_iff)
qed

lemma archive_first_identity:
  assumes "archive_fetch sv query = Inr archive" and "remaining_recent_query sv query archive = Inr (Some q)"
    and "binance_fetch sv q = Inr rest" and "ik_exchange (q_instrument query) = ''binance''"
  shows "list_all (carries_identity query) (merge_bars [archive, rest])"
proof -
  obtain s where "q = query\<lparr>q_start_ms := s\<rparr>" using remaining_start [OF assms(2)] by blast
  then have "list_all (carries_identity query) rest" using binance_fetch_identity assms(3,4) by blast
  moreover have "list_all (carries_identity query) archive" by (rule archive_fetch_identity [OF assms(1,4)])
  ultimately show ?thesis using merge_bars_subset [of "[archive, rest]"] by (fastforce simp: list_all_iff)
qed

lemma exchange_fetch_identity:
  assumes "source_fetch sv query (ik_exchange (q_instrument query)) transport finality fetched = Inr bars" and "ik_exchange (q_instrument query) \<noteq> []"
  shows "list_all (carries_identity query) bars"
  by (rule source_fetch_identity [OF assms(1) refl assms(2)])

lemma binance_sources_identity:
  assumes "fetch_from_sources sv query = Inr bars" and "ik_exchange (q_instrument query) = ''binance''"
  shows "list_all (carries_identity query) bars"
proof (cases "hc_archive_first (sv_history sv)")
  case False
  then have "binance_fetch sv (query\<lparr>q_start_ms := q_start_ms query\<rparr>) = Inr bars" using assms by (simp add: fetch_from_sources_def)
  then show ?thesis by (rule binance_fetch_identity [OF _ assms(2)])
next
  case True
  obtain a r where a: "archive_fetch sv query = Inr a" "remaining_recent_query sv query a = Inr r"
    "(case r of None \<Rightarrow> Inr a | Some q \<Rightarrow> bindR (binance_fetch sv q) (\<lambda>rest. Inr (merge_bars [a, rest]))) = Inr bars"
    using assms True unfolding fetch_from_sources_def Let_def by (simp only: if_True refl bindR_Inr) blast
  show ?thesis
  proof (cases r)
    case None
    then show ?thesis using a archive_fetch_identity [OF _ assms(2)] by simp
  next
    case (Some q)
    then obtain b where "binance_fetch sv q = Inr b" "bars = merge_bars [a, b]" using a(3) by (auto simp: res_simps)
    then show ?thesis using archive_first_identity [OF a(1) _ _ assms(2)] a(2) Some by blast
  qed
qed

text \<open>
  C31. Fetched bars carry the identity of the query. Whatever bars an exchange client returns, when
  \<open>fetch_from_sources\<close> returns, every bar is of the queried exchange, market, symbol and
  timeframe, has a close time, decided finality and a provider revision, and names the exchange
  as its provider.
\<close>

theorem fetch_from_sources_identity:
  assumes "fetch_from_sources sv query = Inr bars"
  shows "\<forall>b \<in> set bars. carries_identity query b"
proof -
  let ?ex = "ik_exchange (q_instrument query)"
  consider "?ex = ''binance''" | "?ex = ''bybit''" | "?ex \<in> set supported_public_exchanges" "?ex \<noteq> ''binance''" "?ex \<noteq> ''bybit''"
    using assms unfolding fetch_from_sources_def Let_def by (meson Inl_Inr_False)
  then have "list_all (carries_identity query) bars"
  proof cases
    case 1
    then show ?thesis using binance_sources_identity assms by blast
  next
    case 2
    then have "source_fetch sv query ?ex ''rest'' None (sv_bybit sv query) = Inr bars"
      using assms by (simp add: fetch_from_sources_def bybit_fetch_def)
    then show ?thesis by (rule exchange_fetch_identity) (simp add: 2)
  next
    case 3
    then have "?ex \<noteq> []" by (auto simp: supported_public_exchanges_def)
    moreover have "source_fetch sv query ?ex ''rest'' None (sv_public sv query) = Inr bars"
      using 3 assms by (simp add: fetch_from_sources_def public_fetch_def)
    ultimately show ?thesis using exchange_fetch_identity by blast
  qed
  then show ?thesis by (simp add: list_all_iff)
qed

theorem fetch_from_sources_identity_witness:
  "\<exists>bars. fetch_from_sources sample_service (minutes_to 120000) = Inr bars \<and> map b_time bars = [0, 60000] \<and>
     (\<forall>b \<in> set bars. carries_identity (minutes_to 120000) b)"
proof -
  have "case fetch_from_sources sample_service (minutes_to 120000) of Inl _ \<Rightarrow> False | Inr bars \<Rightarrow> map b_time bars = [0, 60000]" by code_simp
  then obtain bars where "fetch_from_sources sample_service (minutes_to 120000) = Inr bars" "map b_time bars = [0, 60000]"
    by (auto split: sum.splits)
  then show ?thesis using fetch_from_sources_identity [of sample_service "minutes_to 120000" bars] by (intro exI [of _ bars] conjI)
qed

text \<open>
  C37. The archive and the exchange divide the window. What is left to ask the exchange after the
  archive answered starts inside the query, at or after the cutoff of recent days and after the
  last archived bar, and ends where the query ends; nothing is left only when these bounds reach
  the end.
\<close>

theorem remaining_recent_query_bounds:
  assumes "post_init_bar_query query = Inr query" and "remaining_recent_query sv query archive = Inr r"
  shows "case r of
      Some q \<Rightarrow> (\<exists>s. q = query\<lparr>q_start_ms := s\<rparr> \<and> q_start_ms query \<le> s \<and> archive_cutoff_ms sv \<le> s \<and> s < q_end_ms query \<and>
        (\<forall>d. tf_duration_ms (q_timeframe query) = Some d \<and> archive \<noteq> [] \<longrightarrow> b_time (last archive) + d \<le> s))
    | None \<Rightarrow> q_end_ms query \<le> archive_cutoff_ms sv \<or>
        (\<exists>d. tf_duration_ms (q_timeframe query) = Some d \<and> archive \<noteq> [] \<and> q_end_ms query \<le> b_time (last archive) + d)"
proof (cases r)
  case None
  have "q_start_ms query < q_end_ms query" using assms(1) by (auto simp: post_init_bar_query_def split: if_splits)
  then show ?thesis using assms(2) None
    by (auto simp: remaining_recent_query_def res_simps Let_def max_def split: if_splits option.splits)
next
  case (Some q)
  then show ?thesis using remaining_start assms(2) by fastforce
qed

theorem remaining_recent_query_bounds_witness:
  "\<exists>s. remaining_recent_query sample_service (minutes_to 120000) [sample_bar 0] = Inr (Some ((minutes_to 120000)\<lparr>q_start_ms := s\<rparr>)) \<and>
     60000 \<le> s \<and> s < 120000"
proof -
  have q: "post_init_bar_query (minutes_to 120000) = Inr (minutes_to 120000)" by (simp add: post_init_bar_query_def minutes_to_def)
  have r: "remaining_recent_query sample_service (minutes_to 120000) [sample_bar 0] = Inr (Some ((minutes_to 120000)\<lparr>q_start_ms := 60000\<rparr>))"
    by (simp add: remaining_recent_query_def post_init_bar_query_def minutes_to_def)
  from remaining_recent_query_bounds [OF q r] r show ?thesis by auto
qed

end
