(* ===== verification/Symbols.thy ===== *)
theory Symbols
  imports JsonValues
begin

section \<open>Symbols\<close>

text \<open>
  Models \<^verbatim>\<open>symbols/__init__.py\<close>: the normal form of a symbol, the quote asset it ends with, and
  the listing of an exchange's symbols from its responses. The HTTP client is a parameter.
\<close>

subsection \<open>Strings as Python handles them\<close>

definition split_once :: "char \<Rightarrow> string \<Rightarrow> (string \<times> string) option" where
  "split_once sep s = (if sep \<in> set s then Some (takeWhile (\<lambda>c. c \<noteq> sep) s, tl (dropWhile (\<lambda>c. c \<noteq> sep) s)) else None)"

definition ends_with :: "string \<Rightarrow> string \<Rightarrow> bool" where
  "ends_with suffix s \<longleftrightarrow> length suffix \<le> length s \<and> drop (length s - length suffix) s = suffix"

definition starts_with :: "string \<Rightarrow> string \<Rightarrow> bool" where
  "starts_with prefix s \<longleftrightarrow> take (length prefix) s = prefix"

definition remove_suffix :: "string \<Rightarrow> string \<Rightarrow> string" where
  "remove_suffix suffix s = (if ends_with suffix s then take (length s - length suffix) s else s)"

definition replace_char :: "char \<Rightarrow> char \<Rightarrow> string \<Rightarrow> string" where
  "replace_char old new s = map (\<lambda>c. if c = old then new else c) s"

text \<open>\<open>q in s\<close> on strings.\<close>

primrec within :: "string \<Rightarrow> string \<Rightarrow> bool" where
  "within q [] \<longleftrightarrow> q = []"
| "within q (c # cs) \<longleftrightarrow> starts_with q (c # cs) \<or> within q cs"

fun join_with :: "string \<Rightarrow> string list \<Rightarrow> string" where
  "join_with sep [] = []"
| "join_with sep [s] = s"
| "join_with sep (s # t # ts) = s @ sep @ join_with sep (t # ts)"

text \<open>\<open>repr\<close> of a string and \<open>str\<close> of a JSON value.\<close>

definition hex_digit :: "nat \<Rightarrow> char" where
  "hex_digit n = char_of (if n < 10 then 48 + n else 87 + n)"

definition repr_char :: "char \<Rightarrow> char \<Rightarrow> string" where
  "repr_char quote c =
     (let n = char_code c in
      if c = quote \<or> n = 92 then [char_of (92::nat), c]
      else if n = 9 then [char_of (92::nat), CHR ''t'']
      else if n = 10 then [char_of (92::nat), CHR ''n'']
      else if n = 13 then [char_of (92::nat), CHR ''r'']
      else if n < 32 \<or> 127 \<le> n \<and> n \<le> 160 \<or> n = 173 then [char_of (92::nat), CHR ''x'', hex_digit (n div 16), hex_digit (n mod 16)]
      else [c])"

definition str_repr :: "string \<Rightarrow> string" where
  "str_repr s = (let quote = (if CHR 0x27 \<in> set s \<and> CHR 0x22 \<notin> set s then CHR 0x22 else CHR 0x27)
                 in quote # concat (map (repr_char quote) s) @ [quote])"

fun json_repr :: "json \<Rightarrow> string" where
  "json_repr JNull = ''None''"
| "json_repr (JBool b) = (if b then ''True'' else ''False'')"
| "json_repr (JInt n) = str_of_int n"
| "json_repr (JFloat x) = f_repr x"
| "json_repr (JStr s) = str_repr s"
| "json_repr (JArr xs) = ''['' @ join_with '', '' (map json_repr xs) @ '']''"
| "json_repr (JObj kvs) = ''{'' @ join_with '', '' (map (\<lambda>kv. str_repr (fst kv) @ '': '' @ json_repr (snd kv)) kvs) @ ''}''"

definition json_str :: "json \<Rightarrow> string" where
  "json_str v = (case v of JStr s \<Rightarrow> s | _ \<Rightarrow> json_repr v)"

text \<open>\<open>str(v or '')\<close>.\<close>

definition text_of :: "json \<Rightarrow> string" where
  "text_of v = (if json_truthy v then json_str v else [])"

text \<open>\<open>for x in v\<close> and \<open>d.get(k, [])\<close>.\<close>

definition json_iter :: "json \<Rightarrow> json list res" where
  "json_iter v =
     (case v of
        JArr xs \<Rightarrow> Inr xs
      | JObj kvs \<Rightarrow> Inr (map (JStr \<circ> fst) kvs)
      | JStr s \<Rightarrow> Inr (map (\<lambda>c. JStr [c]) s)
      | _ \<Rightarrow> Inl (PyTypeError ''object is not iterable''))"

definition obj_get_or :: "json \<Rightarrow> (string \<times> json) list \<Rightarrow> string \<Rightarrow> json" where
  "obj_get_or d kvs k = (case map_of kvs k of Some v \<Rightarrow> v | None \<Rightarrow> d)"

text \<open>\<open>xs[:n]\<close>.\<close>

definition slice_to :: "int \<Rightarrow> 'a list \<Rightarrow> 'a list" where
  "slice_to n xs = take (if 0 \<le> n then nat n else length xs - nat (- n)) xs"

subsection \<open>Markets\<close>

definition default_stable_quote_assets :: "string list" where
  "default_stable_quote_assets = [''USDT'', ''USDC'', ''FDUSD'', ''BUSD'', ''TUSD'', ''USDP'', ''DAI'', ''USD'']"

record normalized_symbol =
  ns_exchange :: string
  ns_market :: string
  ns_base_symbol :: string
  ns_tv_symbol :: string
  ns_exchange_symbol :: string
  ns_is_perpetual :: bool

record symbol_info =
  si_exchange :: string
  si_market :: string
  si_symbol :: string
  si_base_asset :: string
  si_quote_asset :: string
  si_active :: bool
  si_contract_type :: "string option"

definition symbol_info_to_dict :: "symbol_info \<Rightarrow> (string \<times> json) list" where
  "symbol_info_to_dict i =
     [(''exchange'', JStr (si_exchange i)), (''market'', JStr (si_market i)), (''symbol'', JStr (si_symbol i)),
      (''base_asset'', JStr (si_base_asset i)), (''quote_asset'', JStr (si_quote_asset i)), (''active'', JBool (si_active i)),
      (''contract_type'', (case si_contract_type i of None \<Rightarrow> JNull | Some t \<Rightarrow> JStr t))]"

definition known_exchanges :: "string list" where
  "known_exchanges =
     [''BINANCE'', ''BYBIT'', ''OKX'', ''COINBASE'', ''KRAKEN'', ''KUCOIN'', ''BITGET'', ''GATEIO'', ''HTX'', ''MEXC'']"

definition derivative_market_aliases :: "(string \<times> string) list" where
  "derivative_market_aliases =
     [(''linear'', ''linear''), (''usdm'', ''linear''), (''futures'', ''linear''), (''usdt_futures'', ''linear''),
      (''usdt-futures'', ''linear''), (''usdc_futures'', ''linear''), (''usdc-futures'', ''linear''), (''swap'', ''linear''),
      (''inverse'', ''inverse''), (''coinm'', ''inverse''), (''coin_futures'', ''inverse''), (''coin-futures'', ''inverse''),
      (''delivery'', ''inverse''), (''delivery_futures'', ''delivery_futures''), (''delivery-futures'', ''delivery_futures''),
      (''dated_futures'', ''delivery_futures''), (''dated-futures'', ''delivery_futures'')]"

definition binance_market_aliases :: "(string \<times> string) list" where
  "binance_market_aliases =
     [(''spot'', ''spot''), (''margin'', ''spot''), (''cash'', ''spot''), (''usdm'', ''usdm''), (''linear'', ''usdm''), (''futures'', ''usdm''),
      (''usdt_futures'', ''usdm''), (''usdt-futures'', ''usdm''), (''usdc_futures'', ''usdm''), (''usdc-futures'', ''usdm''),
      (''swap'', ''usdm''), (''coinm'', ''coinm''), (''inverse'', ''coinm''), (''coin_futures'', ''coinm''), (''coin-futures'', ''coinm''),
      (''delivery'', ''coinm''), (''delivery_futures'', ''coinm''), (''delivery-futures'', ''coinm'')]"

definition bybit_market_aliases :: "(string \<times> string) list" where
  "bybit_market_aliases =
     [(''spot'', ''spot''), (''margin'', ''spot''), (''linear'', ''linear''), (''usdm'', ''linear''), (''futures'', ''linear''),
      (''usdt_futures'', ''linear''), (''usdt-futures'', ''linear''), (''usdc_futures'', ''linear''), (''usdc-futures'', ''linear''),
      (''swap'', ''linear''), (''inverse'', ''inverse''), (''coinm'', ''inverse''), (''coin_futures'', ''inverse''), (''coin-futures'', ''inverse''),
      (''delivery'', ''inverse''), (''delivery_futures'', ''inverse''), (''delivery-futures'', ''inverse'')]"

text \<open>The table of an exchange; \<open>None\<close> is its missing key.\<close>

definition market_aliases :: "string \<Rightarrow> (string \<times> string) list option" where
  "market_aliases exchange =
     (if exchange = ''BINANCE'' then Some binance_market_aliases
      else if exchange = ''BYBIT'' then Some bybit_market_aliases
      else if exchange \<in> {''OKX'', ''KRAKEN'', ''KUCOIN'', ''BITGET'', ''GATEIO'', ''HTX''}
        then Some ([(''spot'', ''spot''), (''cash'', ''spot''), (''margin'', ''margin'')] @ derivative_market_aliases)
      else if exchange = ''COINBASE'' then Some [(''spot'', ''spot''), (''cash'', ''spot'')]
      else if exchange = ''MEXC'' then Some ([(''spot'', ''spot''), (''cash'', ''spot'')] @ derivative_market_aliases)
      else None)"

definition provider_market :: "string \<Rightarrow> string \<Rightarrow> string res" where
  "provider_market exchange market =
     (case Option.bind (market_aliases exchange) (\<lambda>table. map_of table (replace_char CHR ''-'' CHR ''_'' (py_lower market))) of
        Some m \<Rightarrow> Inr m
      | None \<Rightarrow> Inl (MDSymbolUnsupported ''Unsupported market''))"

subsection \<open>Normalisation\<close>

definition quote_root :: "string \<Rightarrow> string" where
  "quote_root symbol =
     (let raw = py_upper (py_strip symbol);
          raw = (case split_once CHR '':'' raw of Some (_, r) \<Rightarrow> r | None \<Rightarrow> raw)
      in takeWhile (\<lambda>c. c \<noteq> CHR ''_'') (remove_suffix ''.P'' raw))"

definition quote_asset :: "string \<Rightarrow> string list \<Rightarrow> string option" where
  "quote_asset symbol quote_assets =
     find (\<lambda>quote. ends_with quote (quote_root symbol)) (sort_key (\<lambda>q. - int (length q)) (map py_upper quote_assets))"

definition is_stable_quoted :: "string \<Rightarrow> string list \<Rightarrow> bool" where
  "is_stable_quoted symbol quote_assets \<longleftrightarrow> quote_asset symbol quote_assets \<noteq> None"

text \<open>\<open>symbol[:-len(quote)] if quote else symbol\<close>.\<close>

definition base_of :: "string \<Rightarrow> string" where
  "base_of contract_symbol =
     (case quote_asset contract_symbol default_stable_quote_assets of
        Some quote \<Rightarrow> if quote = [] then contract_symbol else take (length contract_symbol - length quote) contract_symbol
      | None \<Rightarrow> contract_symbol)"

definition perpetual_markets :: "string list" where
  "perpetual_markets = [''usdm'', ''linear'', ''coinm'', ''inverse'']"

definition split_exchange :: "string \<Rightarrow> (string option \<times> string) res" where
  "split_exchange raw =
     (case split_once CHR '':'' raw of
        None \<Rightarrow> Inr (None, raw)
      | Some (e, r) \<Rightarrow> if e \<in> set known_exchanges then Inr (Some e, r) else Inl (MDSymbolUnsupported ''Unsupported exchange''))"

definition symbol_market :: "string \<Rightarrow> bool \<Rightarrow> string option \<Rightarrow> string res" where
  "symbol_market ex is_perp market =
     (let requested = replace_char CHR ''-'' CHR ''_'' (replace_char CHR '' '' CHR ''_'' (py_lower (py_strip (str_or market [])))) in
      if requested \<noteq> [] then provider_market ex requested
      else if is_perp then Inr (if ex = ''BINANCE'' then ''usdm'' else ''linear'')
      else Inr ''spot'')"

definition tv_text :: "string \<Rightarrow> string \<Rightarrow> bool \<Rightarrow> string" where
  "tv_text ex contract_symbol perpetual = ex @ CHR '':'' # contract_symbol @ (if perpetual then ''.P'' else [])"

definition symbol_record :: "string \<Rightarrow> string \<Rightarrow> bool \<Rightarrow> string \<Rightarrow> normalized_symbol" where
  "symbol_record ex contract_symbol is_perp mkt =
     \<lparr>ns_exchange = py_lower ex, ns_market = mkt, ns_base_symbol = base_of contract_symbol,
      ns_tv_symbol = tv_text ex contract_symbol (is_perp \<or> mkt \<in> set perpetual_markets),
      ns_exchange_symbol = contract_symbol, ns_is_perpetual = mkt \<in> set perpetual_markets\<rparr>"

definition normalize_symbol :: "string \<Rightarrow> string option \<Rightarrow> string option \<Rightarrow> normalized_symbol res" where
  "normalize_symbol symbol exchange market =
     (let raw = py_upper (py_strip symbol) in
      if raw = [] then Inl (MDSymbolUnsupported ''Empty symbol'')
      else
        bindR (split_exchange raw) (\<lambda>(parsed_exchange, raw).
        let ex = py_upper (str_or exchange (str_or parsed_exchange [])) in
        if ex = [] then Inl (MDSymbolAmbiguous ''Symbol without exchange is ambiguous'')
        else if ex \<notin> set known_exchanges then Inl (MDSymbolUnsupported ''Unsupported exchange'')
        else
          let is_perp = ends_with ''.P'' raw; contract_symbol = remove_suffix ''.P'' raw in
          bindR (symbol_market ex is_perp market) (\<lambda>mkt. Inr (symbol_record ex contract_symbol is_perp mkt))))"

subsection \<open>Listing symbols\<close>

definition wanted_symbol :: "string \<Rightarrow> bool \<Rightarrow> string list \<Rightarrow> symbol_info \<Rightarrow> bool" where
  "wanted_symbol query stable_quotes_only stable_quote_assets i \<longleftrightarrow>
     (let q = py_upper (py_strip query) in
      \<not> (stable_quotes_only \<and> py_upper (si_quote_asset i) \<notin> set (map py_upper stable_quote_assets)) \<and>
      (q = [] \<or> within q (py_upper (si_symbol i)) \<or> within q (py_upper (si_base_asset i)) \<or> within q (py_upper (si_quote_asset i))))"

fun take_wanted :: "('a \<Rightarrow> bool) \<Rightarrow> int option \<Rightarrow> int \<Rightarrow> 'a list \<Rightarrow> 'a list" where
  "take_wanted keep limit n [] = []"
| "take_wanted keep limit n (x # xs) =
     (if \<not> keep x then take_wanted keep limit n xs
      else x # (if (case limit of None \<Rightarrow> False | Some l \<Rightarrow> l \<le> n + 1) then [] else take_wanted keep limit (n + 1) xs))"

definition filter_symbol_infos :: "symbol_info list \<Rightarrow> string \<Rightarrow> bool \<Rightarrow> string list \<Rightarrow> int option \<Rightarrow> symbol_info list" where
  "filter_symbol_infos symbols query stable_quotes_only stable_quote_assets limit =
     take_wanted (wanted_symbol query stable_quotes_only stable_quote_assets) limit 0 symbols"

definition plain_symbol_info :: "string \<Rightarrow> string \<Rightarrow> string \<times> string \<times> string \<Rightarrow> symbol_info" where
  "plain_symbol_info exchange market s =
     \<lparr>si_exchange = exchange, si_market = market, si_symbol = fst s, si_base_asset = fst (snd s), si_quote_asset = snd (snd s),
      si_active = True, si_contract_type = None\<rparr>"

definition quote_or :: "string \<Rightarrow> json \<Rightarrow> string" where
  "quote_or symbol v =
     (if json_truthy v then json_str v else case quote_asset symbol default_stable_quote_assets of Some q \<Rightarrow> q | None \<Rightarrow> [])"

definition listed_row :: "string \<Rightarrow> string \<Rightarrow> string \<Rightarrow> string \<Rightarrow> (string \<times> json) list \<Rightarrow> symbol_info option" where
  "listed_row exchange market base_key quote_key row =
     (let symbol = py_upper (text_of (obj_get row ''symbol''));
          base = py_upper (text_of (obj_get row base_key));
          quote = py_upper (quote_or symbol (obj_get row quote_key))
      in if symbol = [] \<or> base = [] \<or> quote = [] then None else Some (plain_symbol_info exchange market (symbol, base, quote)))"

definition binance_symbol_row :: "string \<Rightarrow> json \<Rightarrow> symbol_info option" where
  "binance_symbol_row market row =
     (case row of
        JObj d \<Rightarrow>
          if py_upper (text_of (json_or (obj_get d ''status'') (obj_get d ''contractStatus''))) \<noteq> ''TRADING'' then None
          else listed_row ''binance'' market ''baseAsset'' ''quoteAsset'' d
      | _ \<Rightarrow> None)"

definition normalize_binance_exchange_info_symbols ::
  "json \<Rightarrow> string \<Rightarrow> bool \<Rightarrow> string list \<Rightarrow> string \<Rightarrow> int option \<Rightarrow> symbol_info list res" where
  "normalize_binance_exchange_info_symbols payload market stable_quotes_only stable_quote_assets query limit =
     (case payload of
        JObj d \<Rightarrow>
          (case obj_get d ''symbols'' of
             JArr rows \<Rightarrow> Inr (filter_symbol_infos (List.map_filter (binance_symbol_row market) rows) query stable_quotes_only stable_quote_assets limit)
           | _ \<Rightarrow> Inl (MDInvalidExchangeResponse ''Binance exchangeInfo payload missing symbols''))
      | _ \<Rightarrow> Inl (MDInvalidExchangeResponse ''Binance exchangeInfo payload missing symbols''))"

definition bybit_symbol_row :: "string \<Rightarrow> json \<Rightarrow> symbol_info option" where
  "bybit_symbol_row market row =
     (case row of
        JObj d \<Rightarrow> if obj_get d ''status'' \<noteq> JStr ''Trading'' then None else listed_row ''bybit'' market ''baseCoin'' ''quoteCoin'' d
      | _ \<Rightarrow> None)"

definition normalize_bybit_instruments_info_symbols ::
  "json \<Rightarrow> string \<Rightarrow> bool \<Rightarrow> string list \<Rightarrow> string \<Rightarrow> int option \<Rightarrow> symbol_info list res" where
  "normalize_bybit_instruments_info_symbols payload market stable_quotes_only stable_quote_assets query limit =
     (case payload of
        JObj d \<Rightarrow>
          (case obj_get_or (JObj []) d ''result'' of
             JObj r \<Rightarrow>
               (case obj_get r ''list'' of
                  JArr rows \<Rightarrow> Inr (filter_symbol_infos (List.map_filter (bybit_symbol_row market) rows) query stable_quotes_only stable_quote_assets limit)
                | _ \<Rightarrow> Inl (MDInvalidExchangeResponse ''Bybit instruments-info payload missing result.list''))
           | _ \<Rightarrow> Inl (PyAttributeError ''get''))
      | _ \<Rightarrow> Inl (MDInvalidExchangeResponse ''Bybit instruments-info payload must be an object''))"

definition normalize_asset :: "string \<Rightarrow> string" where
  "normalize_asset raw = (if raw = ''XBT'' then ''BTC'' else raw)"

definition symbol_tuple :: "json \<Rightarrow> json \<Rightarrow> json \<Rightarrow> (string \<times> string \<times> string) option" where
  "symbol_tuple symbol base quote =
     (let symbol_text = py_upper (py_strip (text_of symbol));
          base_text = normalize_asset (py_upper (py_strip (text_of base)));
          quote_text = normalize_asset (py_upper (py_strip (text_of quote)));
          quote_text = (if quote_text = [] then case quote_asset symbol_text default_stable_quote_assets of Some q \<Rightarrow> q | None \<Rightarrow> []
                        else quote_text);
          base_text = (if base_text = [] \<and> quote_text \<noteq> [] \<and> ends_with quote_text symbol_text
                       then take (length symbol_text - length quote_text) symbol_text else base_text)
      in if symbol_text = [] \<or> base_text = [] \<or> quote_text = [] then None else Some (symbol_text, base_text, quote_text))"

subsection \<open>Facts\<close>

lemma upper_char_idem [simp]: "char_upper (char_upper c) = char_upper c"
  by (auto simp: char_upper_def Let_def)

definition is_upper :: "string \<Rightarrow> bool" where
  "is_upper s \<longleftrightarrow> (\<forall>c \<in> set s. char_upper c = c)"

lemma is_upper_id: "is_upper s \<longleftrightarrow> py_upper s = s"
  by (induction s) (auto simp: is_upper_def py_upper_def)

lemma is_upper_upper: "is_upper (py_upper s)"
  by (simp add: is_upper_id)

lemma is_upper_append: "is_upper (s @ t) \<longleftrightarrow> is_upper s \<and> is_upper t"
  unfolding is_upper_def by auto

lemma is_upper_take: "is_upper s \<Longrightarrow> is_upper (take n s)"
  using set_take_subset [of n s] unfolding is_upper_def by blast

lemma is_upper_remove: "is_upper s \<Longrightarrow> is_upper (remove_suffix x s)"
  by (simp add: remove_suffix_def is_upper_take)

lemma split_once_append:
  assumes "sep \<notin> set s"
  shows "split_once sep (s @ sep # t) = Some (s, t)"
proof -
  have all: "\<And>c. c \<in> set s \<Longrightarrow> c \<noteq> sep" using assms by blast
  have "takeWhile (\<lambda>c. c \<noteq> sep) (s @ sep # t) = s" "dropWhile (\<lambda>c. c \<noteq> sep) (s @ sep # t) = sep # t"
    using takeWhile_append2 [of s "\<lambda>c. c \<noteq> sep" "sep # t"] dropWhile_append2 [of s "\<lambda>c. c \<noteq> sep" "sep # t"] all by simp_all
  then show ?thesis by (simp add: split_once_def)
qed

lemma split_once_parts: "split_once sep s = Some (a, b) \<Longrightarrow> s = a @ sep # b"
proof -
  assume a: "split_once sep s = Some (a, b)"
  let ?d = "dropWhile (\<lambda>c. c \<noteq> sep) s"
  have ab: "sep \<in> set s" "a = takeWhile (\<lambda>c. c \<noteq> sep) s" "b = tl ?d" using a unfolding split_once_def by (simp_all split: if_splits)
  then have "?d \<noteq> []" by (simp add: dropWhile_eq_Nil_conv)
  moreover from this have "hd ?d = sep" using hd_dropWhile [of "\<lambda>c. c \<noteq> sep" s] by blast
  ultimately have "?d = sep # b" using ab(3) by (metis list.collapse)
  then show ?thesis using takeWhile_dropWhile_id [of "\<lambda>c. c \<noteq> sep" s] ab(2) by simp
qed

lemma ends_with_append [simp]: "ends_with t (s @ t)"
  by (simp add: ends_with_def)

lemma remove_suffix_append [simp]: "remove_suffix t (s @ t) = s"
  by (simp add: remove_suffix_def)

lemma strip_last:
  assumes "py_strip s \<noteq> []"
  shows "\<not> py_isspace (last (py_strip s))"
  using assms hd_dropWhile [of py_isspace "rev (dropWhile py_isspace s)"] by (auto simp: py_strip_def last_rev)

lemma known_exchange_facts:
  assumes "ex \<in> set known_exchanges"
  shows "ex \<noteq> []" "CHR '':'' \<notin> set ex" "is_upper ex" "\<not> py_isspace (hd ex)" "py_lower ex = ''binance'' \<longleftrightarrow> ex = ''BINANCE''"
proof -
  have "list_all (\<lambda>ex. ex \<noteq> [] \<and> CHR '':'' \<notin> set ex \<and> is_upper ex \<and> \<not> py_isspace (hd ex) \<and> (py_lower ex = ''binance'' \<longleftrightarrow> ex = ''BINANCE'')) known_exchanges"
    by code_simp
  with assms show "ex \<noteq> []" "CHR '':'' \<notin> set ex" "is_upper ex" "\<not> py_isspace (hd ex)" "py_lower ex = ''binance'' \<longleftrightarrow> ex = ''BINANCE''"
    by (auto simp: list_all_iff)
qed

lemma split_exchange_facts:
  assumes "split_exchange raw = Inr (parsed, r)" and "is_upper raw" and "\<not> py_isspace (last raw)"
  shows "is_upper r" "r \<noteq> [] \<Longrightarrow> \<not> py_isspace (last r)"
proof -
  have "r = raw \<or> (\<exists>e. raw = e @ CHR '':'' # r)"
    using assms(1) by (auto simp: split_exchange_def dest: split_once_parts split: option.splits if_splits)
  then show "is_upper r" "r \<noteq> [] \<Longrightarrow> \<not> py_isspace (last r)" using assms(2,3) by (auto simp: is_upper_def)
qed

lemma normalize_tv_text:
  assumes "ex \<in> set known_exchanges" and "is_upper contract" and "perp \<or> \<not> ends_with ''.P'' contract"
    and "perp \<or> contract = [] \<or> \<not> py_isspace (last contract)"
  shows "normalize_symbol (tv_text ex contract perp) None None =
     Inr (symbol_record ex contract perp (if perp then if ex = ''BINANCE'' then ''usdm'' else ''linear'' else ''spot''))"
proof -
  note ex = known_exchange_facts [OF assms(1)]
  let ?tv = "tv_text ex contract perp"
  let ?raw = "contract @ (if perp then ''.P'' else [])"
  have space: "\<not> py_isspace CHR ''P''" "\<not> py_isspace CHR '':''" by code_simp+
  have "?tv \<noteq> []" "hd ?tv = hd ex" using ex(1) by (auto simp: tv_text_def)
  moreover have "\<not> py_isspace (last ?tv)" using assms(4) space by (auto simp: tv_text_def)
  ultimately have strip: "py_strip ?tv = ?tv" using ex(4) by (intro py_strip_ends) auto
  have "is_upper '':.P''" by code_simp
  then have "is_upper ?tv" using ex(3) assms(2) by (auto simp: tv_text_def is_upper_def)
  then have raw: "py_upper (py_strip ?tv) = ?tv" by (simp add: strip is_upper_id)
  have "split_once CHR '':'' ?tv = Some (ex, ?raw)" unfolding tv_text_def by (rule split_once_append [OF ex(2)])
  then have split: "split_exchange ?tv = Inr (Some ex, ?raw)" using assms(1) by (simp add: split_exchange_def)
  have perp: "ends_with ''.P'' ?raw \<longleftrightarrow> perp" "remove_suffix ''.P'' ?raw = contract" using assms(3) by (auto simp: remove_suffix_def)
  have up: "py_upper ex = ex" using ex(3) by (simp add: is_upper_id)
  have "py_strip [] = []" by (simp add: py_strip_def)
  then have mkt: "symbol_market ex perp None = Inr (if perp then if ex = ''BINANCE'' then ''usdm'' else ''linear'' else ''spot'')"
    by (simp add: symbol_market_def py_lower_def replace_char_def)
  have "normalize_symbol ?tv None None = bindR (split_exchange ?tv) (\<lambda>(parsed_exchange, raw).
      bindR (symbol_market ex (ends_with ''.P'' raw) None) (\<lambda>mkt. Inr (symbol_record ex (remove_suffix ''.P'' raw) (ends_with ''.P'' raw) mkt)))"
    using \<open>?tv \<noteq> []\<close> ex(1) assms(1) by (simp add: normalize_symbol_def raw split up Let_def)
  then show ?thesis by (simp only: split bindR.simps prod.case perp mkt)
qed

lemma normalized_parts:
  assumes "normalize_symbol symbol exchange market = Inr ns"
  obtains ex contract perp mkt where "ex \<in> set known_exchanges" "is_upper contract" "perp \<or> \<not> ends_with ''.P'' contract"
    "perp \<or> contract = [] \<or> \<not> py_isspace (last contract)" "ns = symbol_record ex contract perp mkt"
proof -
  let ?raw = "py_upper (py_strip symbol)"
  have ne: "?raw \<noteq> []" using assms by (auto simp: normalize_symbol_def)
  then obtain parsed r where r: "split_exchange ?raw = Inr (parsed, r)" "(let ex = py_upper (str_or exchange (str_or parsed [])) in
        if ex = [] then Inl (MDSymbolAmbiguous ''Symbol without exchange is ambiguous'')
        else if ex \<notin> set known_exchanges then Inl (MDSymbolUnsupported ''Unsupported exchange'')
        else
          let is_perp = ends_with ''.P'' r; contract_symbol = remove_suffix ''.P'' r in
          bindR (symbol_market ex is_perp market) (\<lambda>mkt. Inr (symbol_record ex contract_symbol is_perp mkt))) = Inr ns"
    using assms by (simp add: normalize_symbol_def bindR_Inr) blast
  define ex where "ex = py_upper (str_or exchange (str_or parsed []))"
  have ex: "ex \<in> set known_exchanges" "bindR (symbol_market ex (ends_with ''.P'' r) market)
      (\<lambda>mkt. Inr (symbol_record ex (remove_suffix ''.P'' r) (ends_with ''.P'' r) mkt)) = Inr ns"
    using r(2) by (simp_all add: ex_def [symmetric] Let_def split: if_splits)
  then obtain mkt where mkt: "ns = symbol_record ex (remove_suffix ''.P'' r) (ends_with ''.P'' r) mkt" by (auto simp: res_simps)
  have "\<not> py_isspace (last ?raw)" using ne strip_last [of symbol] by (simp add: py_upper_def last_map)
  note f = split_exchange_facts [OF r(1) is_upper_upper this]
  have "is_upper (remove_suffix ''.P'' r)" using f(1) by (rule is_upper_remove)
  moreover have "ends_with ''.P'' r \<or> \<not> ends_with ''.P'' (remove_suffix ''.P'' r)" by (simp add: remove_suffix_def)
  moreover have "ends_with ''.P'' r \<or> remove_suffix ''.P'' r = [] \<or> \<not> py_isspace (last (remove_suffix ''.P'' r))"
    using f(2) by (auto simp: remove_suffix_def)
  ultimately show thesis using that [OF ex(1) _ _ _ mkt] by blast
qed

text \<open>
  The display name of a symbol is its own normal form. Unless the market differs from the one
  its display name stands for, normalising \<open>tv_symbol\<close> again, with no exchange and no market given,
  gives the same symbol. Inverse and dated markets, whose display name reads as a linear perpetual, are
  the exception.
\<close>

theorem tv_symbol_round_trip:
  assumes "normalize_symbol symbol exchange market = Inr ns"
    and "ns_market ns = (if ends_with ''.P'' (ns_tv_symbol ns) then if ns_exchange ns = ''binance'' then ''usdm'' else ''linear'' else ''spot'')"
  shows "normalize_symbol (ns_tv_symbol ns) None None = Inr ns"
proof -
  obtain ex contract perp mkt where p: "ex \<in> set known_exchanges" "is_upper contract" "perp \<or> \<not> ends_with ''.P'' contract"
    "perp \<or> contract = [] \<or> \<not> py_isspace (last contract)" "ns = symbol_record ex contract perp mkt"
    using normalized_parts [OF assms(1)] .
  define q where "q \<longleftrightarrow> perp \<or> mkt \<in> set perpetual_markets"
  have t: "ns_tv_symbol ns = tv_text ex contract q" "ns_exchange ns = py_lower ex" "ns_market ns = mkt"
    by (simp_all add: p(5) symbol_record_def q_def)
  have suffix: "q \<Longrightarrow> ends_with ''.P'' (ns_tv_symbol ns)" by (simp add: t tv_text_def ends_with_def)
  have mkt: "mkt = (if q then if ex = ''BINANCE'' then ''usdm'' else ''linear'' else ''spot'')"
  proof (cases q)
    case True
    then show ?thesis using assms(2) suffix known_exchange_facts(5) [OF p(1)] by (simp add: t)
  next
    case False
    then show ?thesis using assms(2) by (auto simp: t q_def perpetual_markets_def split: if_splits)
  qed
  then have "mkt \<in> set perpetual_markets \<longleftrightarrow> q" by (simp add: perpetual_markets_def)
  then have "symbol_record ex contract perp mkt = symbol_record ex contract q mkt" by (auto simp: symbol_record_def q_def)
  moreover have "normalize_symbol (tv_text ex contract q) None None = Inr (symbol_record ex contract q mkt)"
    using normalize_tv_text [OF p(1,2), of q] p(3,4) mkt unfolding q_def by auto
  ultimately show ?thesis unfolding t(1) by (simp only: p(5))
qed

theorem tv_symbol_round_trip_witness:
  "\<exists>ns. normalize_symbol ''btcusdt'' (Some ''binance'') (Some ''futures'') = Inr ns \<and> ns_tv_symbol ns = ''BINANCE:BTCUSDT.P'' \<and>
     normalize_symbol ''BINANCE:BTCUSDT.P'' None None = Inr ns"
proof -
  let ?ns = "\<lparr>ns_exchange = ''binance'', ns_market = ''usdm'', ns_base_symbol = ''BTC'', ns_tv_symbol = ''BINANCE:BTCUSDT.P'',
    ns_exchange_symbol = ''BTCUSDT'', ns_is_perpetual = True\<rparr>"
  have n: "normalize_symbol ''btcusdt'' (Some ''binance'') (Some ''futures'') = Inr ?ns" by code_simp
  have "ns_market ?ns = (if ends_with ''.P'' (ns_tv_symbol ?ns) then if ns_exchange ?ns = ''binance'' then ''usdm'' else ''linear'' else ''spot'')" by code_simp
  from tv_symbol_round_trip [OF n this] n show ?thesis by auto
qed

lemma dated_contract_base: "base_of ''BTCUSDT_260327'' = ''BTCUSDT_26''"
  by code_simp

lemma take_wanted_None: "take_wanted keep None n xs = filter keep xs"
  by (induction xs arbitrary: n) auto

lemma take_wanted_Some: "take_wanted keep (Some l) n xs = take (nat (max 1 (l - n))) (filter keep xs)"
proof (induction xs arbitrary: n)
  case (Cons x xs)
  have "l \<le> n + 1 \<Longrightarrow> nat (max 1 (l - n)) = 1" "\<not> l \<le> n + 1 \<Longrightarrow> nat (max 1 (l - n)) = Suc (nat (max 1 (l - (n + 1))))" by auto
  then show ?case using Cons by auto
qed simp

text \<open>
  A listing is the matching symbols in order, cut to its limit, except that a limit of zero or
  less still lists one.
\<close>

theorem filter_symbol_infos_limit:
  "filter_symbol_infos symbols query stable_quotes_only assets limit =
     (let wanted = filter (wanted_symbol query stable_quotes_only assets) symbols in
      case limit of None \<Rightarrow> wanted | Some l \<Rightarrow> take (nat (max 1 l)) wanted)"
  by (cases limit) (simp_all add: filter_symbol_infos_def Let_def take_wanted_None take_wanted_Some)

end
