(* ===== verification/PublicSymbols.thy ===== *)
theory PublicSymbols
  imports Symbols
begin

section \<open>Symbols of the public exchanges\<close>

text \<open>
  Models \<^verbatim>\<open>symbols/public_markets.py\<close> and the search of \<^verbatim>\<open>symbols/__init__.py\<close>: where an
  exchange lists its markets, how a row of its listing is read, and how a search asks for it. The
  HTTP client is a function from an address and its parameters to a response, \<open>None\<close> when the
  request failed.
\<close>

type_synonym http_params = "(string \<times> json) list"
type_synonym symbol_parts = "string \<times> string \<times> string"

subsection \<open>Addresses\<close>

definition public_spot_symbol_endpoints :: "(string \<times> string \<times> http_params) list" where
  "public_spot_symbol_endpoints =
     [(''okx'', ''https://www.okx.com/api/v5/public/instruments'', [(''instType'', JStr ''SPOT'')]),
      (''coinbase'', ''https://api.exchange.coinbase.com/products'', []),
      (''kraken'', ''https://api.kraken.com/0/public/AssetPairs'', []),
      (''kucoin'', ''https://api.kucoin.com/api/v2/symbols'', []),
      (''bitget'', ''https://api.bitget.com/api/v2/spot/public/symbols'', []),
      (''gateio'', ''https://api.gateio.ws/api/v4/spot/currency_pairs'', []),
      (''htx'', ''https://api.huobi.pro/v2/settings/common/symbols'', []),
      (''mexc'', ''https://api.mexc.com/api/v3/exchangeInfo'', [])]"

definition query_first_exchanges :: "string list" where
  "query_first_exchanges = [''coinbase'', ''kraken'', ''gateio'', ''htx'']"

definition spot_symbol_endpoint :: "string \<Rightarrow> string \<Rightarrow> (string \<times> http_params) res" where
  "spot_symbol_endpoint exchange market =
     (if exchange = ''okx'' then
        Inr (''https://www.okx.com/api/v5/public/instruments'', [(''instType'', JStr (if market = ''margin'' then ''MARGIN'' else ''SPOT''))])
      else if exchange = ''kucoin'' \<and> market = ''margin'' then Inr (''https://api.kucoin.com/api/v3/margin/symbols'', [])
      else if exchange = ''bitget'' \<and> market = ''margin'' then Inr (''https://api.bitget.com/api/v2/margin/currencies'', [])
      else if exchange = ''gateio'' \<and> market = ''margin'' then Inr (''https://api.gateio.ws/api/v4/margin/currency_pairs'', [])
      else case map_of public_spot_symbol_endpoints exchange of Some e \<Rightarrow> Inr e | None \<Rightarrow> Inl (PyKeyError exchange))"

definition futures_symbol_endpoint :: "string \<Rightarrow> string \<Rightarrow> (string \<times> http_params) res" where
  "futures_symbol_endpoint exchange market =
     (if exchange = ''okx'' then
        Inr (''https://www.okx.com/api/v5/public/instruments'', [(''instType'', JStr (if market = ''delivery_futures'' then ''FUTURES'' else ''SWAP''))])
      else if exchange = ''kraken'' then Inr (''https://futures.kraken.com/derivatives/api/v3/instruments'', [])
      else if exchange = ''kucoin'' then Inr (''https://api-futures.kucoin.com/api/v1/contracts/active'', [])
      else if exchange = ''bitget'' then
        Inr (''https://api.bitget.com/api/v2/mix/market/contracts'',
             [(''productType'', JStr (if market = ''linear'' then ''USDT-FUTURES'' else ''COIN-FUTURES''))])
      else if exchange = ''gateio'' then
        Inr (''https://api.gateio.ws/api/v4/'' @ (if market = ''delivery_futures'' then ''delivery'' else ''futures'') @ ''/'' @
               (if market = ''linear'' then ''usdt'' else ''btc'') @ ''/contracts'', [])
      else if exchange = ''htx'' then
        (if market = ''linear'' then Inr (''https://api.hbdm.com/linear-swap-api/v1/swap_contract_info'', [(''business_type'', JStr ''swap'')])
         else if market = ''delivery_futures''
           then Inr (''https://api.hbdm.com/linear-swap-api/v1/swap_contract_info'', [(''business_type'', JStr ''futures'')])
         else Inr (''https://api.hbdm.com/swap-api/v1/swap_contract_info'', []))
      else if exchange = ''mexc'' then Inr (''https://contract.mexc.com/api/v1/contract/detail'', [])
      else Inl (MDUnsupportedFeature ''Symbol discovery unsupported''))"

definition public_symbol_endpoint :: "string \<Rightarrow> string \<Rightarrow> (string \<times> http_params) res" where
  "public_symbol_endpoint exchange market =
     (if market \<notin> {''spot'', ''margin'', ''linear'', ''inverse'', ''delivery_futures''}
        then Inl (MDUnsupportedFeature ''Symbol discovery unsupported'')
      else if market \<in> {''spot'', ''margin''} then spot_symbol_endpoint exchange market
      else futures_symbol_endpoint exchange market)"

subsection \<open>Spot rows\<close>

definition is_disabled_status :: "json \<Rightarrow> bool" where
  "is_disabled_status v \<longleftrightarrow>
     py_upper (py_strip (text_of v)) \<in> {''BREAK'', ''DISABLED'', ''OFFLINE'', ''SETTLED'', ''SUSPENDED'', ''HALT'', ''CANCEL_ONLY''}"

definition parse_public_spot_symbol_row :: "string \<Rightarrow> (string \<times> json) list \<Rightarrow> symbol_parts option" where
  "parse_public_spot_symbol_row exchange row =
     (let get = obj_get row in
      if exchange = ''okx'' then
        (if py_lower (text_of (get ''state'')) \<notin> {''live'', []} then None
         else symbol_tuple (get ''instId'') (get ''baseCcy'') (get ''quoteCcy''))
      else if exchange = ''coinbase'' then
        (if get ''trading_disabled'' = JBool True \<or> is_disabled_status (get ''status'') then None
         else symbol_tuple (get ''id'') (get ''base_currency'') (get ''quote_currency''))
      else if exchange = ''kraken'' then
        (if is_disabled_status (get ''status'') then None
         else case split_once CHR ''/'' (text_of (get ''wsname'')) of
                Some (base, quote) \<Rightarrow> symbol_tuple (get ''altname'') (JStr base) (JStr quote)
              | None \<Rightarrow> symbol_tuple (get ''altname'') (get ''base'') (get ''quote''))
      else if exchange = ''kucoin'' then
        (if get ''enableTrading'' = JBool False \<or> is_disabled_status (get ''status'') then None
         else symbol_tuple (get ''symbol'') (get ''baseCurrency'') (get ''quoteCurrency''))
      else if exchange = ''bitget'' then
        (if is_disabled_status (get ''status'') then None else symbol_tuple (get ''symbol'') (get ''baseCoin'') (get ''quoteCoin''))
      else if exchange = ''gateio'' then
        (if py_lower (text_of (get ''trade_status'')) \<notin> {''tradable'', []} then None else symbol_tuple (get ''id'') (get ''base'') (get ''quote''))
      else if exchange = ''htx'' then
        (if py_lower (text_of (get ''state'')) \<notin> {''online'', []} then None else symbol_tuple (get ''sc'') (get ''bcdn'') (get ''qcdn''))
      else if exchange = ''mexc'' then
        (if is_disabled_status (get ''status'') then None else symbol_tuple (get ''symbol'') (get ''baseAsset'') (get ''quoteAsset''))
      else None)"

definition payload_field :: "json \<Rightarrow> string \<Rightarrow> json list res" where
  "payload_field payload key = (case payload of JObj d \<Rightarrow> json_iter (obj_get_or (JArr []) d key) | _ \<Rightarrow> Inr [])"

definition public_spot_rows :: "string \<Rightarrow> json \<Rightarrow> json list res" where
  "public_spot_rows ex payload =
     (if ex = ''okx'' then payload_field payload ''data''
      else if ex = ''kraken'' then
        (case payload of
           JObj d \<Rightarrow> (case obj_get_or (JObj []) d ''result'' of JObj r \<Rightarrow> Inr (map snd r) | _ \<Rightarrow> Inr [])
         | _ \<Rightarrow> Inr [])
      else if ex \<in> {''kucoin'', ''bitget'', ''htx''} then payload_field payload ''data''
      else if ex = ''mexc'' then payload_field payload ''symbols''
      else Inr (case payload of JArr xs \<Rightarrow> xs | _ \<Rightarrow> []))"

definition spot_symbol_info :: "string \<Rightarrow> json \<Rightarrow> symbol_info option" where
  "spot_symbol_info ex row =
     (case row of JObj d \<Rightarrow> map_option (plain_symbol_info ex ''spot'') (parse_public_spot_symbol_row ex d) | _ \<Rightarrow> None)"

definition normalize_public_spot_symbols ::
  "string \<Rightarrow> json \<Rightarrow> string \<Rightarrow> bool \<Rightarrow> string list \<Rightarrow> int option \<Rightarrow> symbol_info list res" where
  "normalize_public_spot_symbols exchange payload query stable_quotes_only stable_quote_assets limit =
     (let ex = py_lower exchange in
      bindR (public_spot_rows ex payload) (\<lambda>rows.
      Inr (filter_symbol_infos (List.map_filter (spot_symbol_info ex) rows) query stable_quotes_only stable_quote_assets limit)))"

subsection \<open>Rows of derivatives\<close>

text \<open>\<open>for sep in ('_', '-')\<close>: the first separator that splits off two nonempty parts.\<close>

definition delimited_by :: "string \<Rightarrow> char \<Rightarrow> symbol_parts option" where
  "delimited_by raw sep =
     (case py_split sep raw of
        a # b # _ \<Rightarrow> if a \<noteq> [] \<and> b \<noteq> [] then Some (raw, a, b) else None
      | _ \<Rightarrow> None)"

definition symbol_tuple_from_delimited :: "string \<Rightarrow> symbol_parts option" where
  "symbol_tuple_from_delimited symbol =
     (let raw = py_upper (py_strip symbol) in
      case delimited_by raw CHR ''_'' of Some p \<Rightarrow> Some p | None \<Rightarrow> delimited_by raw CHR ''-'')"

definition or_else :: "'a option \<Rightarrow> 'a option \<Rightarrow> 'a option" where
  "or_else a b = (case a of Some x \<Rightarrow> Some x | None \<Rightarrow> b)"

definition okx_symbol_parts :: "(string \<times> json) list \<Rightarrow> symbol_parts option" where
  "okx_symbol_parts row =
     (let get = obj_get row in
      or_else (symbol_tuple (get ''instId'') (get ''baseCcy'') (json_or (get ''quoteCcy'') (get ''settleCcy'')))
        (or_else (map_option (\<lambda>(family, base, quote). (py_upper (py_strip (json_str (json_or (get ''instId'') (JStr family)))), base, quote))
                    (symbol_tuple_from_delimited (text_of (get ''instFamily''))))
                 (symbol_tuple_from_delimited (text_of (get ''instId'')))))"

text \<open>\<open>v in {None, '', 0}\<close>: a container is not hashable.\<close>

definition unset_value :: "json \<Rightarrow> bool res" where
  "unset_value v =
     (case v of
        JArr _ \<Rightarrow> Inl (PyTypeError ''unhashable type'')
      | JObj _ \<Rightarrow> Inl (PyTypeError ''unhashable type'')
      | _ \<Rightarrow> Inr (\<not> json_truthy v))"

definition with_contract :: "string \<Rightarrow> symbol_parts option \<Rightarrow> (symbol_parts \<times> string) option" where
  "with_contract contract parts = map_option (\<lambda>p. (p, contract)) parts"

definition kraken_contract_market :: "string \<Rightarrow> string \<Rightarrow> string" where
  "kraken_contract_market symbol kind =
     (if starts_with ''FF_'' symbol \<or> starts_with ''FI_'' symbol then ''delivery_futures''
      else if kind = ''futures_inverse'' \<or> starts_with ''PI_'' symbol then ''inverse'' else ''linear'')"

definition parse_public_market_symbol_row ::
  "string \<Rightarrow> string \<Rightarrow> (string \<times> json) list \<Rightarrow> (symbol_parts \<times> string) option res" where
  "parse_public_market_symbol_row exchange market row =
     (let get = obj_get row in
      if exchange = ''okx'' then
        (let ct_type = py_lower (text_of (get ''ctType'')) in
         if py_lower (text_of (get ''state'')) \<notin> {''live'', []} then Inr None
         else if market \<in> {''linear'', ''inverse''} \<and> ct_type \<noteq> [] \<and> ct_type \<noteq> market then Inr None
         else Inr (with_contract (if ct_type \<noteq> [] then ct_type else market) (okx_symbol_parts row)))
      else if exchange = ''kraken'' then
        (let symbol = py_upper (text_of (get ''symbol''));
             contract = kraken_contract_market symbol (py_lower (text_of (get ''type''))) in
         if get ''tradeable'' = JBool False \<or> is_disabled_status (get ''status'') \<or> market \<noteq> contract then Inr None
         else Inr (with_contract contract (symbol_tuple (JStr symbol) (get ''base'') (get ''quote''))))
      else if exchange = ''kucoin'' then
        (if is_disabled_status (get ''status'') then Inr None
         else
           bindR (unset_value (get ''expireDate'')) (\<lambda>perpetual.
           let contract = (if \<not> perpetual then ''delivery_futures'' else if json_truthy (get ''isInverse'') then ''inverse'' else ''linear'') in
           if market \<noteq> contract then Inr None
           else Inr (with_contract contract (symbol_tuple (get ''symbol'') (get ''baseCurrency'') (get ''quoteCurrency'')))))
      else if exchange = ''bitget'' then
        (if is_disabled_status (get ''status'') then Inr None
         else Inr (with_contract market (symbol_tuple (get ''symbol'') (get ''baseCoin'') (get ''quoteCoin''))))
      else if exchange = ''gateio'' then
        (if get ''in_delisting'' = JBool True \<or> is_disabled_status (get ''trade_status'') then Inr None
         else
           let symbol = py_upper (text_of (json_or (get ''name'') (get ''id''))) in
           Inr (with_contract market (or_else (symbol_tuple (JStr symbol) (get ''base'') (get ''quote'')) (symbol_tuple_from_delimited symbol))))
      else if exchange = ''htx'' then
        (if is_disabled_status (get ''contract_status'') then Inr None
         else
           let symbol = py_upper (text_of (get ''contract_code'')) in
           Inr (with_contract market (or_else (symbol_tuple (JStr symbol) (get ''symbol'') (get ''trade_partition'')) (symbol_tuple_from_delimited symbol))))
      else if exchange = ''mexc'' then
        (let contract = (if py_upper (text_of (get ''settleCoin'')) \<in> {''USDT'', ''USDC''} then ''linear'' else ''inverse'') in
         if json_str (json_or (get ''state'') (JStr ''0'')) \<notin> {''0'', []} \<or> get ''apiAllowed'' = JBool False \<or> market \<noteq> contract then Inr None
         else Inr (with_contract contract
                (or_else (symbol_tuple (get ''symbol'') (get ''baseCoin'') (get ''quoteCoin'')) (symbol_tuple_from_delimited (text_of (get ''symbol''))))))
      else Inr None)"

definition public_market_rows :: "string \<Rightarrow> json \<Rightarrow> json list" where
  "public_market_rows exchange payload =
     (let field = (\<lambda>key. case payload of JObj d \<Rightarrow> obj_get_or (JArr []) d key | _ \<Rightarrow> JArr []);
          rows = (if exchange \<in> {''okx'', ''bitget'', ''htx'', ''kucoin'', ''mexc''} then field ''data''
                  else if exchange = ''kraken'' then field ''instruments''
                  else payload)
      in case rows of JArr xs \<Rightarrow> xs | _ \<Rightarrow> [])"

definition market_symbol_info :: "string \<Rightarrow> string \<Rightarrow> json \<Rightarrow> symbol_info option res" where
  "market_symbol_info ex market row =
     (case row of
        JObj d \<Rightarrow>
          bindR (parse_public_market_symbol_row ex market d) (\<lambda>parsed.
          Inr (map_option (\<lambda>(p, contract). (plain_symbol_info ex market p)\<lparr>si_contract_type := Some contract\<rparr>) parsed))
      | _ \<Rightarrow> Inr None)"

definition normalize_public_market_symbols ::
  "string \<Rightarrow> string \<Rightarrow> json \<Rightarrow> string \<Rightarrow> bool \<Rightarrow> string list \<Rightarrow> int option \<Rightarrow> symbol_info list res" where
  "normalize_public_market_symbols exchange market payload query stable_quotes_only stable_quote_assets limit =
     (let ex = py_lower exchange; provider_market = py_lower market in
      if provider_market \<in> {''spot'', ''margin''} then
        bindR (normalize_public_spot_symbols ex payload query stable_quotes_only stable_quote_assets limit) (\<lambda>items.
        Inr (if provider_market = ''spot'' then items else map (\<lambda>i. i\<lparr>si_market := ''margin''\<rparr>) items))
      else
        bindR (mapR (market_symbol_info ex provider_market) (public_market_rows ex payload)) (\<lambda>infos.
        Inr (filter_symbol_infos (List.map_filter (\<lambda>i. i) infos) query stable_quotes_only stable_quote_assets limit)))"

subsection \<open>Searching\<close>

definition query_base_asset :: "string \<Rightarrow> string" where
  "query_base_asset query =
     (let raw = replace_char CHR ''_'' CHR ''-'' (replace_char CHR ''/'' CHR ''-'' (py_upper (py_strip query))) in
      if CHR ''-'' \<in> set raw then takeWhile (\<lambda>c. c \<noteq> CHR ''-'') raw
      else case quote_asset raw default_stable_quote_assets of
             Some quote \<Rightarrow> if quote \<noteq> [] \<and> length quote < length raw then take (length raw - length quote) raw else raw
           | None \<Rightarrow> raw)"

definition candidate_spot_symbol :: "string \<Rightarrow> string \<Rightarrow> string \<Rightarrow> string" where
  "candidate_spot_symbol exchange base quote =
     (if exchange \<in> {''coinbase'', ''okx'', ''kucoin''} then base @ ''-'' @ quote
      else if exchange = ''gateio'' then base @ ''_'' @ quote else base @ quote)"

definition query_first_url :: "string \<Rightarrow> string \<Rightarrow> (string \<times> http_params) res" where
  "query_first_url exchange symbol =
     (if exchange = ''coinbase'' then Inr (''https://api.exchange.coinbase.com/products/'' @ symbol, [])
      else if exchange = ''kraken'' then Inr (''https://api.kraken.com/0/public/AssetPairs'', [(''pair'', JStr symbol)])
      else if exchange = ''gateio'' then Inr (''https://api.gateio.ws/api/v4/spot/currency_pairs/'' @ symbol, [])
      else if exchange = ''htx'' then Inr (''https://api.huobi.pro/market/detail/merged'', [(''symbol'', JStr (py_lower symbol))])
      else Inl (MDUnsupportedFeature ''Query-first discovery unsupported''))"

definition normalize_query_first_payload :: "string \<Rightarrow> string \<Rightarrow> string \<Rightarrow> string \<Rightarrow> json \<Rightarrow> symbol_info list res" where
  "normalize_query_first_payload exchange symbol base quote payload =
     (let spot = (\<lambda>p. normalize_public_spot_symbols exchange p [] False default_stable_quote_assets None) in
      if exchange = ''coinbase'' then spot (JArr [payload])
      else if exchange = ''kraken'' then spot payload
      else if exchange = ''gateio'' then spot (JArr [payload])
      else if exchange = ''htx'' then
        (case payload of
           JObj d \<Rightarrow>
             if obj_get d ''status'' \<noteq> JStr ''ok'' \<or> \<not> json_truthy (obj_get d ''tick'') then Inr []
             else Inr (case symbol_tuple (JStr symbol) (JStr base) (JStr quote) of Some p \<Rightarrow> [plain_symbol_info exchange ''spot'' p] | None \<Rightarrow> [])
         | _ \<Rightarrow> Inr [])
      else Inr [])"

definition add_new_symbols :: "symbol_info list \<Rightarrow> symbol_info list \<Rightarrow> symbol_info list" where
  "add_new_symbols items new =
     foldl (\<lambda>items i. if si_symbol i \<in> si_symbol ` set items then items else items @ [i]) items new"

fun query_first_loop ::
  "(string \<Rightarrow> http_params \<Rightarrow> json option) \<Rightarrow> string \<Rightarrow> string \<Rightarrow> string \<Rightarrow> int \<Rightarrow> symbol_info list \<Rightarrow> string list \<Rightarrow> symbol_info list res" where
  "query_first_loop http exchange base lookup_base result_limit items [] = Inr items"
| "query_first_loop http exchange base lookup_base result_limit items (quote # quotes) =
     (let symbol = candidate_spot_symbol exchange lookup_base (py_upper quote) in
      bindR (query_first_url exchange symbol) (\<lambda>(url, params).
      case http url params of
        None \<Rightarrow> query_first_loop http exchange base lookup_base result_limit items quotes
      | Some payload \<Rightarrow>
          bindR (normalize_query_first_payload exchange symbol base (py_upper quote) payload) (\<lambda>new.
          let items = add_new_symbols items new in
          if result_limit \<le> int (length items) then Inr items
          else query_first_loop http exchange base lookup_base result_limit items quotes)))"

definition search_public_spot_symbols_by_query ::
  "(string \<Rightarrow> http_params \<Rightarrow> json option) \<Rightarrow> string \<Rightarrow> string \<Rightarrow> string list \<Rightarrow> int \<Rightarrow> symbol_info list res" where
  "search_public_spot_symbols_by_query http exchange query quote_assets result_limit =
     (let base = query_base_asset query in
      if base = [] then Inr []
      else
        bindR (query_first_loop http exchange base (if exchange = ''kraken'' \<and> base = ''BTC'' then ''XBT'' else base) result_limit [] quote_assets)
          (\<lambda>items. Inr (slice_to result_limit items)))"

record search_config =
  sc_stable_quotes_only :: bool
  sc_stable_quote_assets :: "string list"
  sc_max_results :: int
  sc_binance_spot_url :: string
  sc_binance_usdm_url :: string
  sc_binance_coinm_url :: string
  sc_bybit_url :: string

definition http_get_json :: "(string \<Rightarrow> http_params \<Rightarrow> json option) \<Rightarrow> string \<Rightarrow> http_params \<Rightarrow> json res" where
  "http_get_json http url params =
     (case http url params of Some payload \<Rightarrow> Inr payload | None \<Rightarrow> Inl (MDNetworkUnavailable ''Symbol discovery request failed''))"

definition binance_symbols_url :: "search_config \<Rightarrow> string \<Rightarrow> string res" where
  "binance_symbols_url cfg market =
     (if market = ''spot'' then Inr (sc_binance_spot_url cfg @ ''/api/v3/exchangeInfo'')
      else if market = ''usdm'' then Inr (sc_binance_usdm_url cfg @ ''/fapi/v1/exchangeInfo'')
      else if market = ''coinm'' then Inr (sc_binance_coinm_url cfg @ ''/dapi/v1/exchangeInfo'')
      else Inl (MDUnsupportedFeature ''Unsupported Binance symbol market''))"

definition search_symbols ::
  "(string \<Rightarrow> http_params \<Rightarrow> json option) \<Rightarrow> search_config \<Rightarrow> string \<Rightarrow> string \<Rightarrow> string \<Rightarrow> bool option \<Rightarrow> string list \<Rightarrow>
   int option \<Rightarrow> symbol_info list res" where
  "search_symbols http cfg exchange market query stable_quotes_only stable_quote_assets limit =
     (let stable_only = (case stable_quotes_only of None \<Rightarrow> sc_stable_quotes_only cfg | Some b \<Rightarrow> b);
          quote_assets = (if stable_quote_assets \<noteq> [] then stable_quote_assets else sc_stable_quote_assets cfg);
          result_limit = (case limit of Some l \<Rightarrow> l | None \<Rightarrow> sc_max_results cfg);
          ex = py_lower (py_strip exchange) in
      if ex = ''binance'' then
        bindR (provider_market ''BINANCE'' market) (\<lambda>provider_market.
        bindR (binance_symbols_url cfg provider_market) (\<lambda>url.
        bindR (http_get_json http url []) (\<lambda>payload.
        normalize_binance_exchange_info_symbols payload provider_market stable_only quote_assets query (Some result_limit))))
      else if ex = ''bybit'' then
        bindR (provider_market ''BYBIT'' market) (\<lambda>provider_market.
        bindR (http_get_json http (sc_bybit_url cfg @ ''/v5/market/instruments-info'') [(''category'', JStr provider_market)]) (\<lambda>payload.
        normalize_bybit_instruments_info_symbols payload provider_market stable_only quote_assets query (Some result_limit)))
      else if ex \<in> set (map fst public_spot_symbol_endpoints) then
        bindR (provider_market (py_upper ex) market) (\<lambda>provider_market.
        if provider_market = ''spot'' \<and> ex \<in> set query_first_exchanges \<and> query \<noteq> []
        then search_public_spot_symbols_by_query http ex query quote_assets result_limit
        else
          bindR (public_symbol_endpoint ex provider_market) (\<lambda>(url, params).
          bindR (http_get_json http url params) (\<lambda>payload.
          normalize_public_market_symbols ex provider_market payload query stable_only quote_assets (Some result_limit))))
      else Inl (MDUnsupportedFeature ''Symbol discovery unsupported for exchange''))"

subsection \<open>What a search lists\<close>

definition parts_ok :: "symbol_parts \<Rightarrow> bool" where
  "parts_ok p \<longleftrightarrow> is_upper (fst p) \<and> is_upper (fst (snd p)) \<and> is_upper (snd (snd p)) \<and> fst (snd p) \<noteq> [] \<and> snd (snd p) \<noteq> []"

definition listed_ok :: "string \<Rightarrow> symbol_info \<Rightarrow> bool" where
  "listed_ok ex i \<longleftrightarrow> si_exchange i = ex \<and> si_active i \<and> parts_ok (si_symbol i, si_base_asset i, si_quote_asset i)"

definition parsed_ok :: "symbol_parts option \<Rightarrow> bool" where
  "parsed_ok p \<longleftrightarrow> (case p of None \<Rightarrow> True | Some p \<Rightarrow> parts_ok p)"

lemma parsed_ok_simps [simp]: "parsed_ok None" "parsed_ok (Some p) \<longleftrightarrow> parts_ok p"
  by (simp_all add: parsed_ok_def)

lemma parsed_ok_or_else: "parsed_ok a \<Longrightarrow> parsed_ok b \<Longrightarrow> parsed_ok (or_else a b)"
  by (cases a) (simp_all add: or_else_def)

lemma plain_listed: "parts_ok p \<Longrightarrow> listed_ok ex (plain_symbol_info ex market p)"
  by (simp add: listed_ok_def plain_symbol_info_def)

lemma quote_asset_upper: "quote_asset symbol assets = Some q \<Longrightarrow> is_upper q"
proof -
  assume "quote_asset symbol assets = Some q"
  then have "q \<in> set (sort_key (\<lambda>q. - int (length q)) (map py_upper assets))"
    unfolding quote_asset_def find_Some_iff by (metis nth_mem)
  then show "is_upper q" by (auto simp: is_upper_upper)
qed

lemma normalize_asset_upper: "is_upper s \<Longrightarrow> is_upper (normalize_asset s)"
proof -
  have "is_upper ''BTC''" by code_simp
  then show "is_upper s \<Longrightarrow> is_upper (normalize_asset s)" by (simp add: normalize_asset_def)
qed

lemma is_upper_Nil: "is_upper []"
  by (simp add: is_upper_def)

lemma symbol_tuple_ok: "parsed_ok (symbol_tuple symbol base quote)"
  unfolding symbol_tuple_def Let_def
  by (auto simp: parts_ok_def is_upper_upper is_upper_take is_upper_Nil normalize_asset_upper quote_asset_upper split: option.split)

lemma py_split_subset: "t \<in> set (py_split sep s) \<Longrightarrow> set t \<subseteq> set s"
proof (induction s arbitrary: t)
  case (Cons c s)
  obtain w ws where w: "py_split sep s = w # ws" by (cases "py_split sep s") auto
  then show ?case using Cons.IH [of w] Cons.IH [of t] Cons.prems by (auto split: if_splits)
qed simp

lemma is_upper_split: "is_upper s \<Longrightarrow> t \<in> set (py_split sep s) \<Longrightarrow> is_upper t"
  using py_split_subset unfolding is_upper_def by blast

lemma delimited_ok: "is_upper raw \<Longrightarrow> parsed_ok (delimited_by raw sep)"
  using is_upper_split [of raw _ sep] by (auto simp: delimited_by_def parts_ok_def split: list.split)

lemma from_delimited_ok: "parsed_ok (symbol_tuple_from_delimited symbol)"
  using delimited_ok [OF is_upper_upper, of "py_strip symbol"]
  by (cases "delimited_by (py_upper (py_strip symbol)) CHR ''_''") (simp_all add: symbol_tuple_from_delimited_def Let_def, metis parsed_ok_simps(2))

lemma spot_row_ok: "parsed_ok (parse_public_spot_symbol_row ex row)"
  unfolding parse_public_spot_symbol_row_def Let_def
  by (simp add: symbol_tuple_ok split: option.split)

lemma okx_parts_ok: "parsed_ok (okx_symbol_parts row)"
  unfolding okx_symbol_parts_def Let_def
  using from_delimited_ok [of "text_of (obj_get row ''instFamily'')"]
  by (intro parsed_ok_or_else symbol_tuple_ok from_delimited_ok)
     (auto simp: parsed_ok_def parts_ok_def is_upper_upper split: option.splits)

lemma with_contract_ok: "parsed_ok p \<Longrightarrow> with_contract c p = Some (q, d) \<Longrightarrow> parts_ok q"
  by (auto simp: with_contract_def)

lemma market_row_ok:
  assumes "parse_public_market_symbol_row ex market row = Inr (Some (p, contract))"
  shows "parts_ok p"
proof -
  obtain c q where "parsed_ok q" "with_contract c q = Some (p, contract)"
    using assms symbol_tuple_ok okx_parts_ok parsed_ok_or_else [OF symbol_tuple_ok from_delimited_ok]
    unfolding parse_public_market_symbol_row_def Let_def
    by (simp add: bindR_Inr split: if_splits) metis+
  then show ?thesis by (rule with_contract_ok)
qed

lemma take_wanted_subset: "set (take_wanted keep limit n xs) \<subseteq> set xs"
  by (induction xs arbitrary: n) auto

lemma filter_listed: "list_all (listed_ok ex) xs \<Longrightarrow> list_all (listed_ok ex) (filter_symbol_infos xs query stable_only assets limit)"
  unfolding filter_symbol_infos_def list_all_iff by (meson in_mono take_wanted_subset)

lemma map_filter_listed: "(\<And>x i. f x = Some i \<Longrightarrow> listed_ok ex i) \<Longrightarrow> list_all (listed_ok ex) (List.map_filter f xs)"
  by (induction xs) (auto simp: map_filter_simps split: option.split)

lemma listed_row_ok: "listed_row ex market b q row = Some i \<Longrightarrow> listed_ok ex i"
  by (auto simp: listed_row_def Let_def is_upper_upper parts_ok_def intro!: plain_listed split: if_splits)

lemma binance_listed:
  assumes "normalize_binance_exchange_info_symbols payload market stable_only assets query limit = Inr items"
  shows "list_all (listed_ok ''binance'') items"
proof -
  have "binance_symbol_row market row = Some i \<Longrightarrow> listed_ok ''binance'' i" for row i
    by (auto simp: binance_symbol_row_def intro: listed_row_ok split: json.splits if_splits)
  then show ?thesis
    using assms by (auto intro!: filter_listed map_filter_listed simp: normalize_binance_exchange_info_symbols_def split: json.splits)
qed

lemma bybit_listed:
  assumes "normalize_bybit_instruments_info_symbols payload market stable_only assets query limit = Inr items"
  shows "list_all (listed_ok ''bybit'') items"
proof -
  have "bybit_symbol_row market row = Some i \<Longrightarrow> listed_ok ''bybit'' i" for row i
    by (auto simp: bybit_symbol_row_def intro: listed_row_ok split: json.splits if_splits)
  then show ?thesis
    using assms by (auto intro!: filter_listed map_filter_listed simp: normalize_bybit_instruments_info_symbols_def split: json.splits)
qed

lemma spot_listed:
  assumes "normalize_public_spot_symbols ex payload query stable_only assets limit = Inr items"
  shows "list_all (listed_ok (py_lower ex)) items"
proof -
  have "spot_symbol_info e row = Some i \<Longrightarrow> listed_ok e i" for e row i
    using spot_row_ok [of e] by (auto simp: spot_symbol_info_def intro!: plain_listed split: json.splits) (metis parsed_ok_simps(2))
  then show ?thesis
    using assms by (auto intro!: filter_listed map_filter_listed simp: normalize_public_spot_symbols_def Let_def res_simps)
qed

lemma market_info_listed: "market_symbol_info ex market row = Inr (Some i) \<Longrightarrow> listed_ok ex i"
  using market_row_ok by (fastforce simp: market_symbol_info_def res_simps listed_ok_def plain_symbol_info_def split: json.splits)

lemma market_listed:
  assumes "normalize_public_market_symbols ex market payload query stable_only assets limit = Inr items"
  shows "list_all (listed_ok (py_lower ex)) items"
proof (cases "py_lower market \<in> {''spot'', ''margin''}")
  case True
  then obtain spot where s: "normalize_public_spot_symbols (py_lower ex) payload query stable_only assets limit = Inr spot"
    "items = spot \<or> items = map (\<lambda>i. i\<lparr>si_market := ''margin''\<rparr>) spot"
    using assms by (auto simp: normalize_public_market_symbols_def Let_def res_simps)
  have "list_all (listed_ok (py_lower ex)) spot" using spot_listed [OF s(1)] by simp
  then show ?thesis using s(2) by (auto simp: list_all_iff listed_ok_def)
next
  case False
  then obtain infos where i: "mapR (market_symbol_info (py_lower ex) (py_lower market)) (public_market_rows (py_lower ex) payload) = Inr infos"
    "items = filter_symbol_infos (List.map_filter (\<lambda>i. i) infos) query stable_only assets limit"
    using assms by (auto simp: normalize_public_market_symbols_def Let_def res_simps)
  have "\<exists>row. market_symbol_info (py_lower ex) (py_lower market) row = Inr x" if "x \<in> set infos" for x
    using i(1) that unfolding mapR_list_all2 in_set_conv_nth list_all2_conv_all_nth by metis
  then have "list_all (listed_ok (py_lower ex)) (List.map_filter (\<lambda>i. i) infos)"
    using market_info_listed by (fastforce simp: list_all_iff map_filter_def)
  then show ?thesis unfolding i(2) by (rule filter_listed)
qed

lemma query_first_listed:
  assumes "normalize_query_first_payload (py_lower ex) symbol base quote payload = Inr items"
  shows "list_all (listed_ok (py_lower ex)) items"
proof -
  have "symbol_tuple a b c = Some p \<Longrightarrow> parts_ok p" for a b c p using symbol_tuple_ok [of a b c] by simp
  then show ?thesis
    using assms spot_listed [of "py_lower ex"]
    by (auto simp: normalize_query_first_payload_def Let_def intro!: plain_listed split: if_splits json.splits option.splits)
qed

lemma add_new_listed: "list_all (listed_ok ex) items \<Longrightarrow> list_all (listed_ok ex) new \<Longrightarrow> list_all (listed_ok ex) (add_new_symbols items new)"
  unfolding add_new_symbols_def by (induction new arbitrary: items) auto

lemma query_loop_listed:
  "query_first_loop http (py_lower ex) base lookup limit items quotes = Inr out \<Longrightarrow> list_all (listed_ok (py_lower ex)) items \<Longrightarrow>
   list_all (listed_ok (py_lower ex)) out"
proof (induction quotes arbitrary: items)
  case (Cons quote quotes)
  then show ?case
    using query_first_listed add_new_listed
    by (fastforce simp: Let_def res_simps split: option.splits if_splits)
qed simp

text \<open>
  A search lists usable symbols of its exchange. Whatever the exchange answers, every symbol a
  search returns belongs to the exchange asked for, is active, has a base and a quote asset, and is
  spelled in upper case throughout.
\<close>

theorem search_symbols_listed:
  assumes "search_symbols http cfg exchange market query stable_only assets limit = Inr items"
  shows "\<forall>i \<in> set items. si_exchange i = py_lower (py_strip exchange) \<and> si_active i \<and> si_base_asset i \<noteq> [] \<and> si_quote_asset i \<noteq> [] \<and>
     py_upper (si_symbol i) = si_symbol i \<and> py_upper (si_base_asset i) = si_base_asset i \<and> py_upper (si_quote_asset i) = si_quote_asset i"
proof -
  let ?ex = "py_lower (py_strip exchange)"
  have slice: "list_all P xs \<Longrightarrow> list_all P (slice_to n xs)" for P :: "symbol_info \<Rightarrow> bool" and xs n
    by (auto simp: slice_to_def list_all_iff dest: in_set_takeD split: if_splits)
  have query: "list_all (listed_ok ?ex) out" if q: "search_public_spot_symbols_by_query http ?ex query a l = Inr out" for a l out
  proof (cases "query_base_asset query = []")
    case True
    then show ?thesis using q by (simp add: search_public_spot_symbols_by_query_def)
  next
    case False
    then obtain base found where "query_first_loop http ?ex (query_base_asset query) base l [] a = Inr found" "out = slice_to l found"
      using q unfolding search_public_spot_symbols_by_query_def Let_def by (simp only: if_False bindR_Inr) blast
    then show ?thesis using query_loop_listed [of http "py_strip exchange"] slice by simp
  qed
  have "list_all (listed_ok ?ex) items"
  proof (cases "?ex = ''binance'' \<or> ?ex = ''bybit''")
    case True
    then show ?thesis using assms binance_listed bybit_listed unfolding search_symbols_def Let_def by (auto simp: bindR_Inr)
  next
    case False
    have market: "list_all (listed_ok ?ex) out" if "normalize_public_market_symbols ?ex m payload q o' a l = Inr out" for m payload q o' a l out
      using market_listed [OF that] by simp
    show ?thesis using assms False query market unfolding search_symbols_def Let_def
      by (auto simp: bindR_Inr split: if_splits)
  qed
  then show ?thesis by (auto simp: list_all_iff listed_ok_def parts_ok_def is_upper_id)
qed

definition sample_search :: search_config where
  "sample_search = \<lparr>sc_stable_quotes_only = True, sc_stable_quote_assets = default_stable_quote_assets, sc_max_results = 50,
     sc_binance_spot_url = ''https://api.binance.com'', sc_binance_usdm_url = ''https://fapi.binance.com'',
     sc_binance_coinm_url = ''https://dapi.binance.com'', sc_bybit_url = ''https://api.bybit.com''\<rparr>"

definition sample_listing :: json where
  "sample_listing = JObj [(''symbols'', JArr
     [JObj [(''symbol'', JStr ''BTCUSDT''), (''status'', JStr ''TRADING''), (''baseAsset'', JStr ''BTC''), (''quoteAsset'', JStr ''USDT'')],
      JObj [(''symbol'', JStr ''ETHBTC''), (''status'', JStr ''TRADING''), (''baseAsset'', JStr ''ETH''), (''quoteAsset'', JStr ''BTC'')]])]"

theorem search_symbols_listed_witness:
  "\<exists>i. search_symbols (\<lambda>_ _. Some sample_listing) sample_search '' Binance'' ''spot'' [] None [] None = Inr [i] \<and> si_symbol i = ''BTCUSDT'' \<and>
     si_exchange i = ''binance'' \<and> si_base_asset i \<noteq> []"
proof -
  let ?i = "plain_symbol_info ''binance'' ''spot'' (''BTCUSDT'', ''BTC'', ''USDT'')"
  have s: "search_symbols (\<lambda>_ _. Some sample_listing) sample_search '' Binance'' ''spot'' [] None [] None = Inr [?i]" by code_simp
  have "py_lower (py_strip '' Binance'') = ''binance''" by code_simp
  with search_symbols_listed [OF s] s show ?thesis by (intro exI [of _ ?i]) (simp add: plain_symbol_info_def)
qed

end
