(* ===== verification/Klines.thy ===== *)
theory Klines
  imports Symbols SegmentCsv
begin

section \<open>Klines of the exchanges\<close>

text \<open>
  Models \<^verbatim>\<open>exchanges/binance/rest.py\<close>, \<^verbatim>\<open>exchanges/bybit/rest.py\<close>, the rows of trades
  of \<^verbatim>\<open>exchanges/binance/trades.py\<close> and the finality rule of \<^verbatim>\<open>canonical/bar.py\<close>: the
  responses of the two exchanges become market bars. Responses are \<^typ>\<open>json\<close>.
\<close>

subsection \<open>Subscripts\<close>

definition json_len :: "json \<Rightarrow> nat res" where
  "json_len v =
     (case v of
        JArr xs \<Rightarrow> Inr (length xs)
      | JStr s \<Rightarrow> Inr (length s)
      | JObj kvs \<Rightarrow> Inr (length kvs)
      | _ \<Rightarrow> Inl (PyTypeError ''object has no len()''))"

text \<open>\<open>v[i]\<close> for a literal index, and \<open>v[key]\<close> for a literal name.\<close>

definition json_at :: "json \<Rightarrow> nat \<Rightarrow> json res" where
  "json_at v i =
     (case v of
        JArr xs \<Rightarrow> if i < length xs then Inr (xs ! i) else Inl (PyIndexError ''list index out of range'')
      | JStr s \<Rightarrow> if i < length s then Inr (JStr [s ! i]) else Inl (PyIndexError ''string index out of range'')
      | JObj _ \<Rightarrow> Inl (PyKeyError (str_of_nat i))
      | _ \<Rightarrow> Inl (PyTypeError ''object is not subscriptable''))"

definition json_item :: "json \<Rightarrow> string \<Rightarrow> json res" where
  "json_item v key = (case v of JObj d \<Rightarrow> obj_item d key | _ \<Rightarrow> Inl (PyTypeError ''indices must be integers''))"

definition int_at :: "json \<Rightarrow> nat \<Rightarrow> int res" where
  "int_at v i = bindR (json_at v i) json_int"

definition float_at :: "json \<Rightarrow> nat \<Rightarrow> float64 res" where
  "float_at v i = bindR (json_at v i) json_float"

definition text_at :: "json \<Rightarrow> nat \<Rightarrow> string res" where
  "text_at v i = bindR (json_at v i) (\<lambda>x. Inr (json_str x))"

text \<open>\<open>conv(r[i]) if len(r) > i and r[i] not in (None, '') else None\<close>.\<close>

definition opt_at :: "(json \<Rightarrow> 'a res) \<Rightarrow> json \<Rightarrow> nat \<Rightarrow> 'a option res" where
  "opt_at conv v i =
     bindR (json_len v) (\<lambda>n.
     if n \<le> i then Inr None
     else bindR (json_at v i) (\<lambda>x. if x = JNull \<or> x = JStr [] then Inr None else bindR (conv x) (\<lambda>y. Inr (Some y))))"

subsection \<open>Finality\<close>

text \<open>True is \<open>Finality.FINAL\<close>, false \<open>Finality.OPEN\<close>.\<close>

definition bar_finality :: "int \<Rightarrow> int option \<Rightarrow> bool res" where
  "bar_finality close server_time_ms =
     (case server_time_ms of
        None \<Rightarrow> Inl (MDValidationError ''server_time_ms required'')
      | Some now \<Rightarrow> Inr (close \<le> now))"

subsection \<open>Binance\<close>

definition binance_close_time :: "json \<Rightarrow> nat \<Rightarrow> int \<Rightarrow> string \<Rightarrow> int res" where
  "binance_close_time r n open_time timeframe =
     bindR (if 6 < n then json_at r 6 else Inr JNull) (\<lambda>c.
     bindR (if c = JNull then close_time_ms open_time timeframe else json_int c) (\<lambda>close_time.
     if close_time \<le> open_time then close_time_ms open_time timeframe else Inr close_time))"

definition binance_kline_row :: "string \<Rightarrow> string \<Rightarrow> string \<Rightarrow> int option \<Rightarrow> json \<Rightarrow> market_bar res" where
  "binance_kline_row symbol market timeframe server_time_ms r =
     bindR (json_len r) (\<lambda>n.
     if n < 6 then Inl (MDInvalidExchangeResponse ''Binance kline row too short'')
     else
       bindR (int_at r 0) (\<lambda>open_time.
       bindR (binance_close_time r n open_time timeframe) (\<lambda>close_time.
       bindR (bar_finality close_time server_time_ms) (\<lambda>closed.
       bindR (float_at r 1) (\<lambda>o'. bindR (float_at r 2) (\<lambda>h. bindR (float_at r 3) (\<lambda>l. bindR (float_at r 4) (\<lambda>c.
       bindR (float_at r 5) (\<lambda>v.
       bindR (text_at r 1) (\<lambda>ot. bindR (text_at r 2) (\<lambda>ht. bindR (text_at r 3) (\<lambda>lt. bindR (text_at r 4) (\<lambda>ct.
       bindR (text_at r 5) (\<lambda>vt.
       bindR (opt_at json_float r 7) (\<lambda>quote_volume.
       bindR (opt_at json_int r 8) (\<lambda>trades_count.
       bindR (opt_at json_float r 9) (\<lambda>taker_base.
       bindR (opt_at json_float r 10) (\<lambda>taker_quote.
       market_bar_post_init (market_bar_defaults
         \<lparr>b_time := open_time, b_open := o', b_high := h, b_low := l, b_close := c, b_volume := v, b_time_close := Some close_time,
          m_exchange := ''binance'', m_market := market, m_symbol := py_upper symbol, m_timeframe := timeframe, m_source := ''fixture'',
          m_is_closed := Some closed, m_open_text := Some ot, m_high_text := Some ht, m_low_text := Some lt, m_close_text := Some ct,
          m_volume_text := Some vt, m_quote_volume := quote_volume, m_trades_count := trades_count,
          m_taker_buy_base_volume := taker_base, m_taker_buy_quote_volume := taker_quote\<rparr>)))))))))))))))))))"

text \<open>The end both normalisers share: order by time, drop open candles unless asked for, validate.\<close>

definition finish_klines :: "int option \<Rightarrow> bool \<Rightarrow> market_bar list \<Rightarrow> market_bar list res" where
  "finish_klines server_time_ms include_open_candle bars =
     (let bars = sort_key b_time bars in
      bindR (if include_open_candle then Inr bars else exclude_open_candle bars server_time_ms) (\<lambda>bars.
      bindR (validate_bars bars True) (\<lambda>_. Inr bars)))"

definition normalize_binance_klines ::
  "json list \<Rightarrow> string \<Rightarrow> string \<Rightarrow> string \<Rightarrow> int option \<Rightarrow> bool \<Rightarrow> market_bar list res" where
  "normalize_binance_klines rows symbol market timeframe server_time_ms include_open_candle =
     bindR (mapR (binance_kline_row symbol market timeframe server_time_ms) rows) (finish_klines server_time_ms include_open_candle)"

definition within_window :: "int option \<Rightarrow> int option \<Rightarrow> market_bar list \<Rightarrow> market_bar list" where
  "within_window start stop bars = filter (\<lambda>b. in_range start stop (b_time b)) bars"

text \<open>The offline adapter: \<open>rows[: limit or len(rows)]\<close> of fixed rows.\<close>

definition offline_binance_klines ::
  "json list \<Rightarrow> int option \<Rightarrow> string \<Rightarrow> string \<Rightarrow> string \<Rightarrow> int option \<Rightarrow> int option \<Rightarrow> int option \<Rightarrow> bool \<Rightarrow> market_bar list res" where
  "offline_binance_klines rows server_time_ms symbol market interval start stop limit include_open_candle =
     bindR (to_binance_interval interval) (\<lambda>_.
     let rows = (case limit of None \<Rightarrow> rows | Some l \<Rightarrow> if l = 0 then rows else slice_to l rows) in
     bindR (normalize_binance_klines rows symbol market interval server_time_ms include_open_candle) (\<lambda>bars.
     Inr (within_window start stop bars)))"

subsection \<open>Bybit\<close>

definition bybit_rows :: "json \<Rightarrow> json res" where
  "bybit_rows payload =
     (case payload of
        JObj d \<Rightarrow>
          (case bindR (obj_item d ''result'') (\<lambda>r. json_item r ''list'') of
             Inl _ \<Rightarrow> Inl (MDInvalidExchangeResponse ''Bybit payload missing result.list'')
           | Inr rows \<Rightarrow> Inr rows)
      | _ \<Rightarrow> Inr payload)"

text \<open>\<open>except (IndexError, TypeError, ValueError)\<close>; the contract exceptions are value errors.\<close>

definition is_row_error :: "error \<Rightarrow> bool" where
  "is_row_error e \<longleftrightarrow>
     (case e of
        PyIndexError _ \<Rightarrow> True | PyTypeError _ \<Rightarrow> True | PyValueError _ \<Rightarrow> True
      | InvalidInstrumentError _ \<Rightarrow> True | InvalidTimeframeError _ \<Rightarrow> True | InvalidBarError _ \<Rightarrow> True
      | InvalidBarQueryError _ \<Rightarrow> True | CoverageValidationError _ \<Rightarrow> True
      | _ \<Rightarrow> False)"

definition catch_row :: "(error \<Rightarrow> bool) \<Rightarrow> error \<Rightarrow> 'a res \<Rightarrow> 'a res" where
  "catch_row catches e r = (case r of Inl e' \<Rightarrow> Inl (if catches e' then e else e') | Inr x \<Rightarrow> Inr x)"

definition bybit_row_body :: "string \<Rightarrow> string \<Rightarrow> string \<Rightarrow> int option \<Rightarrow> json \<Rightarrow> market_bar res" where
  "bybit_row_body symbol market timeframe server_time_ms r =
     bindR (int_at r 0) (\<lambda>open_time.
     bindR (close_time_ms open_time timeframe) (\<lambda>close_time.
     bindR (float_at r 1) (\<lambda>o'. bindR (float_at r 2) (\<lambda>h. bindR (float_at r 3) (\<lambda>l. bindR (float_at r 4) (\<lambda>c.
     bindR (float_at r 5) (\<lambda>v.
     bindR (bar_finality close_time server_time_ms) (\<lambda>closed.
     bindR (text_at r 1) (\<lambda>ot. bindR (text_at r 2) (\<lambda>ht. bindR (text_at r 3) (\<lambda>lt. bindR (text_at r 4) (\<lambda>ct.
     bindR (text_at r 5) (\<lambda>vt.
     bindR (opt_at json_float r 6) (\<lambda>quote_volume.
     market_bar_post_init (market_bar_defaults
       \<lparr>b_time := open_time, b_open := o', b_high := h, b_low := l, b_close := c, b_volume := v, b_time_close := Some close_time,
        m_exchange := ''bybit'', m_market := market, m_symbol := py_upper symbol, m_timeframe := timeframe, m_source := ''fixture'',
        m_is_closed := Some closed, m_open_text := Some ot, m_high_text := Some ht, m_low_text := Some lt, m_close_text := Some ct,
        m_volume_text := Some vt, m_quote_volume := quote_volume\<rparr>)))))))))))))))"

definition bybit_kline_row :: "string \<Rightarrow> string \<Rightarrow> string \<Rightarrow> int option \<Rightarrow> json \<Rightarrow> market_bar res" where
  "bybit_kline_row symbol market timeframe server_time_ms r =
     catch_row is_row_error (MDInvalidExchangeResponse ''Bybit kline row is invalid'') (bybit_row_body symbol market timeframe server_time_ms r)"

definition normalize_bybit_klines :: "json \<Rightarrow> string \<Rightarrow> string \<Rightarrow> string \<Rightarrow> int option \<Rightarrow> bool \<Rightarrow> market_bar list res" where
  "normalize_bybit_klines payload symbol market timeframe server_time_ms include_open_candle =
     bindR (bybit_rows payload) (\<lambda>rows.
     bindR (json_iter rows) (\<lambda>rows.
     bindR (mapR (bybit_kline_row symbol market timeframe server_time_ms) rows) (finish_klines server_time_ms include_open_candle)))"

definition offline_bybit_klines ::
  "json \<Rightarrow> int option \<Rightarrow> string \<Rightarrow> string \<Rightarrow> string \<Rightarrow> int option \<Rightarrow> int option \<Rightarrow> int option \<Rightarrow> bool \<Rightarrow> market_bar list res" where
  "offline_bybit_klines payload server_time_ms symbol market interval start stop limit include_open_candle =
     bindR (to_bybit_interval interval) (\<lambda>_.
     bindR (normalize_bybit_klines payload symbol market interval server_time_ms include_open_candle) (\<lambda>bars.
     let filtered = within_window start stop bars in
     Inr (case limit of None \<Rightarrow> filtered | Some l \<Rightarrow> slice_to l filtered)))"

subsection \<open>Trades of Binance\<close>

definition agg_trade_row :: "json \<Rightarrow> agg_trade res" where
  "agg_trade_row row =
     catch_row (\<lambda>e. (case e of PyKeyError _ \<Rightarrow> True | PyIndexError _ \<Rightarrow> False | _ \<Rightarrow> is_row_error e))
       (MDInvalidExchangeResponse ''Binance aggTrade row is invalid'')
       (bindR (bindR (json_item row ''a'') json_int) (\<lambda>trade_id.
        bindR (bindR (json_item row ''T'') json_int) (\<lambda>time.
        bindR (bindR (json_item row ''p'') json_float) (\<lambda>price.
        bindR (bindR (json_item row ''q'') json_float) (\<lambda>quantity.
        bindR (json_item row ''m'') (\<lambda>m.
        Inr \<lparr>at_trade_id = trade_id, at_time = time, at_price = price, at_quantity = quantity, at_buyer_maker = json_truthy m\<rparr>))))))"

definition normalize_binance_agg_trades :: "json \<Rightarrow> agg_trade list res" where
  "normalize_binance_agg_trades payload =
     (case payload of
        JArr rows \<Rightarrow>
          bindR (mapR agg_trade_row rows) (\<lambda>trades.
          Inr (sort_key at_time (sort_key at_trade_id trades)))
      | _ \<Rightarrow> Inl (MDInvalidExchangeResponse ''Binance aggTrades payload must be a list''))"

subsection \<open>Facts\<close>

lemma finish_klines_sorted:
  "finish_klines server include bars = Inr out \<Longrightarrow> sorted_wrt (<) (map b_time out) \<and> (\<forall>b \<in> set out. b \<in> set bars)"
  using validate_loop_iff [of "{}" None]
  by (auto simp: finish_klines_def Let_def res_simps validate_bars_def exclude_open_candle_def exclude_loop_filter split: if_splits option.splits)

end
