(* ===== verification/PublicKlines.thy ===== *)
theory PublicKlines
  imports Klines
begin

section \<open>Klines of the public exchanges\<close>

text \<open>
  Models \<^verbatim>\<open>exchanges/public_spot.py\<close> and \<^verbatim>\<open>exchanges/public_intervals.py\<close>: the request
  to one of the eight public exchanges and the bars read from its response. The HTTP client and the
  text of an instant in ISO form are parameters.
\<close>

subsection \<open>Intervals\<close>

definition interval_in :: "(string \<times> 'a) list \<Rightarrow> string \<Rightarrow> 'a res" where
  "interval_in table timeframe =
     (case map_of table (py_lower timeframe) of Some v \<Rightarrow> Inr v | None \<Rightarrow> Inl (MDSymbolUnsupported ''Unsupported timeframe''))"

definition minutes_of :: "string \<Rightarrow> int res" where
  "minutes_of = interval_in
     [(''1m'', 1), (''3m'', 3), (''5m'', 5), (''15m'', 15), (''30m'', 30), (''1h'', 60), (''4h'', 240), (''1d'', 1440)]"

definition requested_limit :: "string \<Rightarrow> int option \<Rightarrow> int option \<Rightarrow> int \<Rightarrow> int res" where
  "requested_limit timeframe start stop max_limit =
     (case (start, stop) of
        (Some s, Some e) \<Rightarrow>
          if e \<le> s then Inr max_limit
          else
            bindR (close_time_ms 0 timeframe) (\<lambda>c.
            let duration = c + 1 in
            if duration = 0 then Inl (PyZeroDivisionError ''integer division or modulo by zero'')
            else Inr (min max_limit (max 1 ((e - s + duration - 1) div duration))))
      | _ \<Rightarrow> Inr max_limit)"

definition coinbase_granularity :: "string \<Rightarrow> int res" where
  "coinbase_granularity timeframe =
     bindR (minutes_of timeframe) (\<lambda>m.
     case map_of [(1, 60), (5, 300), (15, 900), (60, 3600), (360, 21600), (1440, 86400)] m of
       Some g \<Rightarrow> Inr g
     | None \<Rightarrow> Inl (MDSymbolUnsupported ''Unsupported Coinbase timeframe''))"

definition okx_bar :: "string \<Rightarrow> string res" where
  "okx_bar = interval_in
     [(''1m'', ''1m''), (''3m'', ''3m''), (''5m'', ''5m''), (''15m'', ''15m''), (''30m'', ''30m''), (''1h'', ''1H''), (''4h'', ''4H''), (''1d'', ''1D'')]"

definition kucoin_type :: "string \<Rightarrow> string res" where
  "kucoin_type = interval_in
     [(''1m'', ''1min''), (''3m'', ''3min''), (''5m'', ''5min''), (''15m'', ''15min''), (''30m'', ''30min''), (''1h'', ''1hour''),
      (''4h'', ''4hour''), (''1d'', ''1day'')]"

definition bitget_granularity :: "string \<Rightarrow> string res" where
  "bitget_granularity = interval_in
     [(''1m'', ''1min''), (''3m'', ''3min''), (''5m'', ''5min''), (''15m'', ''15min''), (''30m'', ''30min''), (''1h'', ''1h''),
      (''4h'', ''4h''), (''1d'', ''1day'')]"

definition bitget_mix_granularity :: "string \<Rightarrow> string res" where
  "bitget_mix_granularity = interval_in
     [(''1m'', ''1m''), (''3m'', ''3m''), (''5m'', ''5m''), (''15m'', ''15m''), (''30m'', ''30m''), (''1h'', ''1H''), (''4h'', ''4H''), (''1d'', ''1D'')]"

text \<open>Kraken futures, Gate.io and MEXC spot share one table.\<close>

definition plain_intervals :: "(string \<times> string) list" where
  "plain_intervals =
     [(''1m'', ''1m''), (''5m'', ''5m''), (''15m'', ''15m''), (''30m'', ''30m''), (''1h'', ''1h''), (''4h'', ''4h''), (''1d'', ''1d'')]"

definition kraken_futures_interval :: "string \<Rightarrow> string res" where
  "kraken_futures_interval = interval_in plain_intervals"

definition gate_interval :: "string \<Rightarrow> string res" where
  "gate_interval = interval_in plain_intervals"

definition mexc_interval :: "string \<Rightarrow> string res" where
  "mexc_interval = interval_in plain_intervals"

definition htx_period :: "string \<Rightarrow> string res" where
  "htx_period = interval_in
     [(''1m'', ''1min''), (''5m'', ''5min''), (''15m'', ''15min''), (''30m'', ''30min''), (''1h'', ''60min''), (''4h'', ''4hour''), (''1d'', ''1day'')]"

definition mexc_contract_interval :: "string \<Rightarrow> string res" where
  "mexc_contract_interval = interval_in
     [(''1m'', ''Min1''), (''5m'', ''Min5''), (''15m'', ''Min15''), (''30m'', ''Min30''), (''1h'', ''Min60''), (''4h'', ''Hour4''), (''1d'', ''Day1'')]"

definition gate_settlement :: "string \<Rightarrow> string \<Rightarrow> string" where
  "gate_settlement symbol market =
     (if market = ''linear'' \<or> within ''USDT'' (py_upper symbol) then ''usdt''
      else
        let base = py_lower (takeWhile (\<lambda>c. c \<noteq> CHR ''-'') (takeWhile (\<lambda>c. c \<noteq> CHR ''_'') (py_upper symbol)))
        in if base \<noteq> [] then base else ''btc'')"

subsection \<open>Requests\<close>

type_synonym http_params = "(string \<times> json) list"

definition opt_param :: "string \<Rightarrow> ('a \<Rightarrow> json) \<Rightarrow> 'a option \<Rightarrow> http_params" where
  "opt_param key f v = (case v of None \<Rightarrow> [] | Some x \<Rightarrow> [(key, f x)])"

definition opt_text :: "(int \<Rightarrow> string res) \<Rightarrow> int option \<Rightarrow> string option res" where
  "opt_text f v = (case v of None \<Rightarrow> Inr None | Some x \<Rightarrow> bindR (f x) (\<lambda>t. Inr (Some t)))"

abbreviation seconds :: "int \<Rightarrow> json" where
  "seconds t \<equiv> JInt (t div 1000)"

definition spot_request ::
  "(int \<Rightarrow> string res) \<Rightarrow> string \<Rightarrow> string \<Rightarrow> string \<Rightarrow> int option \<Rightarrow> int option \<Rightarrow> (string \<times> http_params) res" where
  "spot_request iso_ms exchange symbol timeframe start stop =
     (if exchange = ''okx'' then
        bindR (okx_bar timeframe) (\<lambda>bar.
        Inr (''https://www.okx.com/api/v5/market/candles'',
             [(''instId'', JStr (py_upper symbol)), (''bar'', JStr bar), (''limit'', JInt 300)] @ opt_param ''after'' JInt stop))
      else if exchange = ''coinbase'' then
        bindR (coinbase_granularity timeframe) (\<lambda>g.
        bindR (opt_text iso_ms start) (\<lambda>s.
        bindR (opt_text iso_ms stop) (\<lambda>e.
        Inr (''https://api.exchange.coinbase.com/products/'' @ py_upper symbol @ ''/candles'',
             [(''granularity'', JInt g)] @ opt_param ''start'' JStr s @ opt_param ''end'' JStr e))))
      else if exchange = ''kraken'' then
        bindR (minutes_of timeframe) (\<lambda>m.
        Inr (''https://api.kraken.com/0/public/OHLC'', [(''pair'', JStr (py_upper symbol)), (''interval'', JInt m)] @ opt_param ''since'' seconds start))
      else if exchange = ''kucoin'' then
        bindR (kucoin_type timeframe) (\<lambda>t.
        Inr (''https://api.kucoin.com/api/v1/market/candles'',
             [(''symbol'', JStr (py_upper symbol)), (''type'', JStr t)] @ opt_param ''startAt'' seconds start @ opt_param ''endAt'' seconds stop))
      else if exchange = ''bitget'' then
        bindR (bitget_granularity timeframe) (\<lambda>g.
        Inr (''https://api.bitget.com/api/v2/spot/market/candles'',
             [(''symbol'', JStr (py_upper symbol)), (''granularity'', JStr g), (''limit'', JInt 1000)] @
             opt_param ''startTime'' JInt start @ opt_param ''endTime'' JInt stop))
      else if exchange = ''gateio'' then
        bindR (gate_interval timeframe) (\<lambda>i.
        Inr (''https://api.gateio.ws/api/v4/spot/candlesticks'',
             [(''currency_pair'', JStr (py_upper symbol)), (''interval'', JStr i), (''limit'', JInt 1000)] @
             opt_param ''from'' seconds start @ opt_param ''to'' seconds stop))
      else if exchange = ''htx'' then
        bindR (htx_period timeframe) (\<lambda>p.
        bindR (requested_limit timeframe start stop 2000) (\<lambda>size.
        Inr (''https://api.huobi.pro/market/history/kline'', [(''symbol'', JStr (py_lower symbol)), (''period'', JStr p), (''size'', JInt size)])))
      else if exchange = ''mexc'' then
        bindR (mexc_interval timeframe) (\<lambda>i.
        Inr (''https://api.mexc.com/api/v3/klines'',
             [(''symbol'', JStr (py_upper symbol)), (''interval'', JStr i), (''limit'', JInt 1000)] @
             opt_param ''startTime'' JInt start @ opt_param ''endTime'' (\<lambda>e. JInt (e - 1)) stop))
      else Inl (MDSymbolUnsupported ''Unsupported public spot exchange''))"

definition market_request ::
  "(int \<Rightarrow> string res) \<Rightarrow> string \<Rightarrow> string \<Rightarrow> string \<Rightarrow> string \<Rightarrow> int option \<Rightarrow> int option \<Rightarrow> (string \<times> http_params) res" where
  "market_request iso_ms exchange market symbol timeframe start stop =
     (if exchange = ''okx'' then spot_request iso_ms exchange symbol timeframe start stop
      else if exchange = ''kraken'' then
        bindR (kraken_futures_interval timeframe) (\<lambda>i.
        Inr (''https://futures.kraken.com/api/charts/v1/trade/'' @ py_upper symbol @ ''/'' @ i,
             opt_param ''from'' seconds start @ opt_param ''to'' seconds stop))
      else if exchange = ''kucoin'' then
        bindR (minutes_of timeframe) (\<lambda>m.
        Inr (''https://api-futures.kucoin.com/api/v1/kline/query'',
             [(''symbol'', JStr (py_upper symbol)), (''granularity'', JInt m)] @ opt_param ''from'' JInt start @ opt_param ''to'' JInt stop))
      else if exchange = ''bitget'' then
        bindR (bitget_mix_granularity timeframe) (\<lambda>g.
        Inr (''https://api.bitget.com/api/v2/mix/market/candles'',
             [(''symbol'', JStr (py_upper symbol)), (''productType'', JStr (if market = ''linear'' then ''USDT-FUTURES'' else ''COIN-FUTURES'')),
              (''granularity'', JStr g), (''limit'', JInt 1000)] @ opt_param ''startTime'' JInt start @ opt_param ''endTime'' JInt stop))
      else if exchange = ''gateio'' then
        bindR (gate_interval timeframe) (\<lambda>i.
        Inr (''https://api.gateio.ws/api/v4/'' @ (if market = ''delivery_futures'' then ''delivery'' else ''futures'') @ ''/'' @
               gate_settlement symbol market @ ''/candlesticks'',
             [(''contract'', JStr (py_upper symbol)), (''interval'', JStr i), (''limit'', JInt 1000)] @
             opt_param ''from'' seconds start @ opt_param ''to'' seconds stop))
      else if exchange = ''htx'' then
        bindR (htx_period timeframe) (\<lambda>p.
        bindR (requested_limit timeframe start stop 2000) (\<lambda>size.
        Inr (if market = ''linear'' \<or> market = ''delivery_futures'' then ''https://api.hbdm.com/linear-swap-ex/market/history/kline''
             else ''https://api.hbdm.com/swap-ex/market/history/kline'',
             [(''contract_code'', JStr (py_upper symbol)), (''period'', JStr p), (''size'', JInt size)])))
      else if exchange = ''mexc'' then
        bindR (mexc_contract_interval timeframe) (\<lambda>i.
        Inr (''https://contract.mexc.com/api/v1/contract/kline/'' @ py_upper symbol,
             [(''interval'', JStr i)] @ opt_param ''start'' seconds start @ opt_param ''end'' seconds stop))
      else Inl (MDSymbolUnsupported ''Unsupported public market exchange''))"

subsection \<open>Rows\<close>

definition plain_bar :: "int \<Rightarrow> json list \<Rightarrow> string \<Rightarrow> bar res" where
  "plain_bar time_ms values timeframe =
     bindR (mapR (\<lambda>v. py_float (json_str v)) values) (\<lambda>xs.
     bindR (close_time_ms time_ms timeframe) (\<lambda>c.
     Inr \<lparr>b_time = time_ms, b_open = xs ! 0, b_high = xs ! 1, b_low = xs ! 2, b_close = xs ! 3, b_volume = xs ! 4, b_time_close = Some c\<rparr>))"

datatype time_unit = Millis | Seconds | Epoch

definition epoch_ms :: "time_unit \<Rightarrow> int \<Rightarrow> int" where
  "epoch_ms u v = (case u of Millis \<Rightarrow> v | Seconds \<Rightarrow> v * 1000 | Epoch \<Rightarrow> if 10000000000 \<le> v then v else v * 1000)"

text \<open>\<open>_bar_ms\<close>, \<open>_bar_seconds\<close> and \<open>_bar_epoch\<close>: an open time in a unit, then open, high, low, close, volume.\<close>

definition bar_in :: "time_unit \<Rightarrow> json \<Rightarrow> json list \<Rightarrow> string \<Rightarrow> bar res" where
  "bar_in u open_time values timeframe =
     bindR (py_int (json_str open_time)) (\<lambda>v. plain_bar (epoch_ms u v) values timeframe)"

definition indexed_bar :: "time_unit \<Rightarrow> nat list \<Rightarrow> json \<Rightarrow> string \<Rightarrow> bar res" where
  "indexed_bar u positions row timeframe =
     bindR (json_at row 0) (\<lambda>t. bindR (mapR (json_at row) positions) (\<lambda>vs. bar_in u t vs timeframe))"

definition named_bar :: "time_unit \<Rightarrow> string \<Rightarrow> string list \<Rightarrow> json \<Rightarrow> string \<Rightarrow> bar res" where
  "named_bar u time_name names row timeframe =
     bindR (json_item row time_name) (\<lambda>t. bindR (mapR (json_item row) names) (\<lambda>vs. bar_in u t vs timeframe))"

definition catch_public_row :: "bar res \<Rightarrow> bar res" where
  "catch_public_row r =
     catch_row (\<lambda>e. is_row_error e \<or> (case e of PyKeyError _ \<Rightarrow> True | _ \<Rightarrow> False)) (MDInvalidExchangeResponse ''kline row is invalid'') r"

definition json_is_obj :: "json \<Rightarrow> bool" where
  "json_is_obj v \<longleftrightarrow> (case v of JObj _ \<Rightarrow> True | _ \<Rightarrow> False)"

definition spot_row_bar :: "string \<Rightarrow> json \<Rightarrow> string \<Rightarrow> bar option res" where
  "spot_row_bar exchange row timeframe =
     (let ret = (\<lambda>r. bindR (catch_public_row r) (\<lambda>b. Inr (Some b))) in
      if exchange \<in> {''okx'', ''bitget'', ''mexc''} then ret (indexed_bar Millis [1, 2, 3, 4, 5] row timeframe)
      else if exchange = ''coinbase'' then ret (indexed_bar Seconds [3, 2, 1, 4, 5] row timeframe)
      else if exchange = ''kraken'' then ret (indexed_bar Seconds [1, 2, 3, 4, 6] row timeframe)
      else if exchange = ''kucoin'' then ret (indexed_bar Seconds [1, 3, 4, 2, 5] row timeframe)
      else if exchange = ''gateio'' then ret (indexed_bar Seconds [5, 3, 4, 2, 1] row timeframe)
      else if exchange = ''htx'' then ret (named_bar Seconds ''id'' [''open'', ''high'', ''low'', ''close'', ''amount''] row timeframe)
      else Inr None)"

definition market_row_bar :: "string \<Rightarrow> json \<Rightarrow> string \<Rightarrow> bar option res" where
  "market_row_bar exchange row timeframe =
     (let ret = (\<lambda>r. bindR (catch_public_row r) (\<lambda>b. Inr (Some b))) in
      if exchange \<in> {''okx'', ''bitget''} then ret (indexed_bar Millis [1, 2, 3, 4, 5] row timeframe)
      else if exchange = ''kraken'' then ret (named_bar Epoch ''time'' [''open'', ''high'', ''low'', ''close'', ''volume''] row timeframe)
      else if exchange = ''kucoin'' then ret (indexed_bar Epoch [1, 2, 3, 4, 5] row timeframe)
      else if exchange = ''gateio'' then
        ret (if json_is_obj row then named_bar Seconds ''t'' [''o'', ''h'', ''l'', ''c'', ''v''] row timeframe
             else indexed_bar Seconds [5, 3, 4, 2, 1] row timeframe)
      else if exchange = ''htx'' then ret (named_bar Seconds ''id'' [''open'', ''high'', ''low'', ''close'', ''amount''] row timeframe)
      else if exchange = ''mexc'' then
        ret (if json_is_obj row then named_bar Epoch ''time'' [''open'', ''high'', ''low'', ''close'', ''vol''] row timeframe
             else indexed_bar Epoch [1, 2, 3, 4, 5] row timeframe)
      else Inr None)"

definition rows_list :: "json \<Rightarrow> json list res" where
  "rows_list v = (case v of JArr rows \<Rightarrow> Inr rows | _ \<Rightarrow> Inl (MDInvalidExchangeResponse ''kline payload missing rows''))"

definition dict_get :: "json \<Rightarrow> string \<Rightarrow> json" where
  "dict_get payload key = (case payload of JObj d \<Rightarrow> obj_get d key | _ \<Rightarrow> JNull)"

definition spot_rows :: "string \<Rightarrow> json \<Rightarrow> json list res" where
  "spot_rows exchange payload =
     rows_list
       (if exchange \<in> {''okx'', ''kucoin'', ''bitget'', ''htx''} then dict_get payload ''data''
        else if exchange = ''kraken'' then
          (case (case payload of JObj d \<Rightarrow> obj_get_or (JObj []) d ''result'' | _ \<Rightarrow> JObj []) of
             JObj r \<Rightarrow> (case find (\<lambda>kv. fst kv \<noteq> ''last'') r of Some kv \<Rightarrow> snd kv | None \<Rightarrow> JArr [])
           | _ \<Rightarrow> JArr [])
        else payload)"

definition mexc_contract_rows :: "json \<Rightarrow> json res" where
  "mexc_contract_rows payload =
     (case dict_get payload ''data'' of
        JArr xs \<Rightarrow> Inr (JArr xs)
      | JObj data \<Rightarrow>
          (case obj_get data ''time'' of
             JArr ts \<Rightarrow>
               (let keys = [''time'', ''open'', ''high'', ''low'', ''close'', ''vol''] in
                case mapR (\<lambda>i. mapR (\<lambda>key. bindR (obj_item data key) (\<lambda>column. bindR (json_at column i) (\<lambda>v. Inr (key, v)))) keys) [0..<length ts] of
                  Inl _ \<Rightarrow> Inl (MDInvalidExchangeResponse ''mexc kline row is invalid'')
                | Inr rows \<Rightarrow> Inr (JArr (map JObj rows)))
           | _ \<Rightarrow> Inr JNull)
      | _ \<Rightarrow> Inr JNull)"

definition market_rows :: "string \<Rightarrow> json \<Rightarrow> json list res" where
  "market_rows exchange payload =
     bindR (if exchange \<in> {''okx'', ''kucoin'', ''bitget''} then Inr (dict_get payload ''data'')
            else if exchange = ''kraken'' then Inr (dict_get payload ''candles'')
            else if exchange \<in> {''gateio'', ''htx''} then Inr (if json_is_obj payload then dict_get payload ''data'' else payload)
            else if exchange = ''mexc'' then mexc_contract_rows payload
            else Inr JNull) rows_list"

definition sorted_bars_of :: "(json \<Rightarrow> bar option res) \<Rightarrow> json list \<Rightarrow> bar list res" where
  "sorted_bars_of f rows = bindR (mapR f rows) (\<lambda>bars. Inr (sort_key b_time (List.map_filter (\<lambda>b. b) bars)))"

definition normalize_spot_klines :: "string \<Rightarrow> json \<Rightarrow> string \<Rightarrow> bar list res" where
  "normalize_spot_klines exchange payload timeframe =
     bindR (spot_rows exchange payload) (sorted_bars_of (\<lambda>row. spot_row_bar exchange row timeframe))"

definition normalize_market_klines :: "string \<Rightarrow> json \<Rightarrow> string \<Rightarrow> bar list res" where
  "normalize_market_klines exchange payload timeframe =
     bindR (market_rows exchange payload) (sorted_bars_of (\<lambda>row. market_row_bar exchange row timeframe))"

subsection \<open>Fetching\<close>

definition supported_public_spot_exchanges :: "string list" where
  "supported_public_spot_exchanges = [''okx'', ''coinbase'', ''kraken'', ''kucoin'', ''bitget'', ''gateio'', ''htx'', ''mexc'']"

definition public_market_aliases :: "(string \<times> string) list" where
  "public_market_aliases =
     [(''spot'', ''spot''), (''cash'', ''spot''), (''margin'', ''margin''), (''linear'', ''linear''), (''usdm'', ''linear''),
      (''futures'', ''linear''), (''usdt_futures'', ''linear''), (''usdt-futures'', ''linear''), (''usdc_futures'', ''linear''),
      (''usdc-futures'', ''linear''), (''swap'', ''linear''), (''inverse'', ''inverse''), (''coinm'', ''inverse''),
      (''coin_futures'', ''inverse''), (''coin-futures'', ''inverse''), (''delivery'', ''inverse''), (''delivery_futures'', ''delivery_futures''),
      (''delivery-futures'', ''delivery_futures''), (''dated_futures'', ''delivery_futures''), (''dated-futures'', ''delivery_futures'')]"

definition public_provider_market :: "string \<Rightarrow> string res" where
  "public_provider_market market =
     (case map_of public_market_aliases (replace_char CHR '' '' CHR ''_'' (py_lower (py_strip market))) of
        Some m \<Rightarrow> Inr m
      | None \<Rightarrow> Inl (MDSymbolUnsupported ''Unsupported public market type''))"

definition checked_window :: "int option \<Rightarrow> int option \<Rightarrow> bar list \<Rightarrow> bar list res" where
  "checked_window start stop bars =
     (let filtered = filter (\<lambda>b. in_range start stop (b_time b)) bars in
      bindR (validate_bars filtered True) (\<lambda>_. Inr filtered))"

definition public_spot_get_bars ::
  "(string \<Rightarrow> http_params \<Rightarrow> json res) \<Rightarrow> (int \<Rightarrow> string res) \<Rightarrow> string \<Rightarrow> string \<Rightarrow> string \<Rightarrow> int option \<Rightarrow> int option \<Rightarrow> bar list res" where
  "public_spot_get_bars http iso_ms exchange symbol timeframe start stop =
     (let ex = py_lower (py_strip exchange) in
      if ex \<notin> set supported_public_spot_exchanges then Inl (MDSymbolUnsupported ''Unsupported public spot exchange'')
      else
        bindR (spot_request iso_ms ex symbol timeframe start stop) (\<lambda>(url, params).
        bindR (http url params) (\<lambda>payload.
        bindR (normalize_spot_klines ex payload timeframe) (checked_window start stop))))"

definition public_market_get_bars ::
  "(string \<Rightarrow> http_params \<Rightarrow> json res) \<Rightarrow> (int \<Rightarrow> string res) \<Rightarrow> string \<Rightarrow> string \<Rightarrow> string \<Rightarrow> string \<Rightarrow> int option \<Rightarrow> int option \<Rightarrow>
   bar list res" where
  "public_market_get_bars http iso_ms exchange market symbol timeframe start stop =
     (let ex = py_lower (py_strip exchange) in
      bindR (public_provider_market market) (\<lambda>provider_market.
      if ex \<notin> set supported_public_spot_exchanges then Inl (MDSymbolUnsupported ''Unsupported public market exchange'')
      else if provider_market \<in> {''spot'', ''margin''} then public_spot_get_bars http iso_ms ex symbol timeframe start stop
      else if ex = ''coinbase'' then Inl (MDSymbolUnsupported ''Unsupported Coinbase market'')
      else
        bindR (market_request iso_ms ex provider_market symbol timeframe start stop) (\<lambda>(url, params).
        bindR (http url params) (\<lambda>payload.
        bindR (normalize_market_klines ex payload timeframe) (checked_window start stop)))))"

subsection \<open>Facts\<close>

text \<open>The tables are read in lower case, where a month is spelled as a minute.\<close>

lemma monthly_is_minute: "okx_bar ''1M'' = okx_bar ''1m''" "minutes_of ''1M'' = Inr 1" "mexc_interval ''1M'' = Inr ''1m''"
  by code_simp+

lemma spot_bars_window:
  assumes "public_spot_get_bars http iso_ms exchange symbol timeframe start stop = Inr bars"
  shows "sorted_wrt (<) (map b_time bars) \<and> (\<forall>b \<in> set bars. in_range start stop (b_time b))"
  using assms validate_loop_iff [of "{}" None]
  by (auto simp: public_spot_get_bars_def checked_window_def Let_def res_simps validate_bars_def split: if_splits)

end
