(* ===== verification/Pagination.thy ===== *)
theory Pagination
  imports PublicKlines
begin

section \<open>Requests in pages\<close>

text \<open>
  Models the clients of \<^verbatim>\<open>exchanges/binance/provider.py\<close>, \<^verbatim>\<open>exchanges/bybit/provider.py\<close>
  and \<^verbatim>\<open>exchanges/binance/trades.py\<close>: requests that are retried, and windows that are fetched
  page by page. The network is an oracle: the response to the attempt of a request, for any
  address and parameters. A loop over pages is a partial function, whose value \<open>None\<close> is not
  returning. Sleeping is left out, except where its argument may raise.
\<close>

subsection \<open>Retries\<close>

text \<open>
  A response has its status, its \<open>Retry-After\<close> header, whether \<open>raise_for_status\<close> accepts it, and what
  \<open>json()\<close> gives; \<open>HttpFailed\<close> is an \<open>httpx.HTTPError\<close> of the request itself.
\<close>

datatype http_response = HttpFailed | HttpResponse (rp_status: int) (rp_retry_after: "string option") (rp_ok: bool) (rp_json: "json res")

fun get_json ::
  "(int \<Rightarrow> bool) \<Rightarrow> (string option \<Rightarrow> unit res) \<Rightarrow> (json \<Rightarrow> bool res) \<Rightarrow> int \<Rightarrow> (int \<Rightarrow> http_response) \<Rightarrow> int list \<Rightarrow> json res" where
  "get_json limited wait throttled max_retries respond [] = Inl (MDNetworkUnavailable ''HTTP request failed'')"
| "get_json limited wait throttled max_retries respond (attempt # attempts) =
     (let again = get_json limited wait throttled max_retries respond attempts;
          failed = (if max_retries \<le> attempt then Inl (MDNetworkUnavailable ''HTTP request failed'') else again) in
      case respond attempt of
        HttpFailed \<Rightarrow> failed
      | HttpResponse status retry_after ok body \<Rightarrow>
          if limited status then
            (if max_retries \<le> attempt then Inl (MDNetworkUnavailable ''rate limit exceeded'')
             else bindR (wait retry_after) (\<lambda>_. again))
          else if 500 \<le> status \<and> status < 600 \<and> attempt < max_retries then again
          else if \<not> ok then failed
          else
            bindR body (\<lambda>payload.
            bindR (throttled payload) (\<lambda>busy.
            if \<not> busy then Inr payload
            else if max_retries \<le> attempt then Inl (MDNetworkUnavailable ''rate limit exceeded'')
            else again)))"

definition with_retries ::
  "(int \<Rightarrow> bool) \<Rightarrow> (string option \<Rightarrow> unit res) \<Rightarrow> (json \<Rightarrow> bool res) \<Rightarrow> int \<Rightarrow> (int \<Rightarrow> http_response) \<Rightarrow> json res" where
  "with_retries limited wait throttled max_retries respond = get_json limited wait throttled max_retries respond [0..max_retries]"

text \<open>\<open>time.sleep(float(retry_after) if retry_after else ...)\<close>.\<close>

definition sleep_retry_after :: "string option \<Rightarrow> unit res" where
  "sleep_retry_after header =
     (case header of
        None \<Rightarrow> Inr ()
      | Some t \<Rightarrow>
          if t = [] then Inr ()
          else
            bindR (py_float t) (\<lambda>x.
            if f_isnan x then Inl (PyValueError ''Invalid value NaN (not a number)'')
            else if f_lt x f_zero then Inl (PyValueError ''sleep length must be non-negative'')
            else if f_isinf x then Inl (PyOverflowError ''timestamp out of range'')
            else Inr ()))"

definition binance_get_json :: "int \<Rightarrow> (int \<Rightarrow> http_response) \<Rightarrow> json res" where
  "binance_get_json = with_retries (\<lambda>s. s \<in> {418, 429}) sleep_retry_after (\<lambda>_. Inr False)"

definition trades_get_json :: "int \<Rightarrow> (int \<Rightarrow> http_response) \<Rightarrow> json res" where
  "trades_get_json = with_retries (\<lambda>s. s \<in> {418, 429}) (\<lambda>_. Inr ()) (\<lambda>_. Inr False)"

definition public_get_json :: "int \<Rightarrow> (int \<Rightarrow> http_response) \<Rightarrow> json res" where
  "public_get_json = with_retries (\<lambda>s. s \<in> {418, 429}) (\<lambda>_. Inr ()) (\<lambda>_. Inr False)"

definition ret_code :: "json \<Rightarrow> int res" where
  "ret_code payload = (case payload of JObj d \<Rightarrow> json_int (obj_get_or (JInt 0) d ''retCode'') | _ \<Rightarrow> Inr 0)"

definition bybit_get_json :: "int \<Rightarrow> (int \<Rightarrow> http_response) \<Rightarrow> json res" where
  "bybit_get_json = with_retries (\<lambda>s. s = 429) (\<lambda>_. Inr ()) (\<lambda>payload. bindR (ret_code payload) (\<lambda>c. Inr (c = 10006)))"

subsection \<open>Server time\<close>

definition any_invalid :: "string \<Rightarrow> 'a res \<Rightarrow> 'a res" where
  "any_invalid msg r = catch_row (\<lambda>_. True) (MDInvalidExchangeResponse msg) r"

definition binance_server_time :: "json \<Rightarrow> int res" where
  "binance_server_time payload =
     any_invalid ''Binance server time payload missing serverTime'' (bindR (json_item payload ''serverTime'') json_int)"

definition bybit_server_time :: "json \<Rightarrow> int res" where
  "bybit_server_time payload =
     any_invalid ''Bybit server time payload missing result.timeNano/timeSecond''
       (case (case payload of JObj d \<Rightarrow> obj_get_or (JObj []) d ''result'' | _ \<Rightarrow> JObj []) of
          JObj result \<Rightarrow>
            let nano = obj_get result ''timeNano''; second = obj_get result ''timeSecond'' in
            if json_truthy nano \<or> nano = JArr [] \<or> nano = JObj [] then bindR (json_int nano) (\<lambda>n. Inr (n div 1000000))
            else if second \<noteq> JNull \<and> second \<noteq> JStr [] then bindR (json_int second) (\<lambda>n. Inr (n * 1000))
            else Inl (PyKeyError ''timeNano/timeSecond'')
        | _ \<Rightarrow> Inl (PyAttributeError ''get''))"

subsection \<open>The loop over pages of candles\<close>

text \<open>
  A request for a page gives its normalised bars and the length of the raw page. The loops of both
  exchanges are this one.
\<close>

type_synonym page_fetch = "nat \<Rightarrow> int option \<Rightarrow> int \<Rightarrow> (market_bar list \<times> nat) res"

partial_function (option) page_loop ::
  "page_fetch \<Rightarrow> string \<Rightarrow> int option \<Rightarrow> int option \<Rightarrow> int \<Rightarrow> int option \<Rightarrow> nat \<Rightarrow> int option \<Rightarrow> market_bar list \<Rightarrow> market_bar list res option" where
  "page_loop fetch timeframe start stop per_page max_bars n cursor out =
     (let remaining = map_option (\<lambda>m. m - int (length out)) max_bars in
      if (case remaining of Some r \<Rightarrow> r \<le> 0 | None \<Rightarrow> False) then Some (Inr out)
      else
        (let limit = (case remaining of Some r \<Rightarrow> min per_page r | None \<Rightarrow> per_page) in
         case fetch n cursor limit of
           Inl e \<Rightarrow> Some (Inl e)
         | Inr (raw_page, count) \<Rightarrow>
             (let page = within_window start stop raw_page; out' = out @ page in
              if page = [] then Some (Inr out)
              else if int count < limit then Some (Inr out')
              else
                (case next_open_time_ms (b_time (last page)) timeframe of
                   Inl e \<Rightarrow> Some (Inl e)
                 | Inr next \<Rightarrow>
                     if (case cursor of Some c \<Rightarrow> next \<le> c | None \<Rightarrow> False)
                     then Some (Inl (MDPaginationStalled ''pagination cursor did not advance''))
                     else if (case stop of Some e \<Rightarrow> e \<le> next | None \<Rightarrow> False) then Some (Inr out')
                     else page_loop fetch timeframe start stop per_page max_bars (Suc n) (Some next) out'))))"

definition finish_pages :: "int option \<Rightarrow> market_bar list \<Rightarrow> market_bar list res" where
  "finish_pages max_bars out =
     (let final = sorted_vals (dict_of b_time out);
          final = (case max_bars of None \<Rightarrow> final | Some m \<Rightarrow> slice_to m final) in
      bindR (validate_bars final True) (\<lambda>_. Inr final))"

definition page_size :: "int \<Rightarrow> int option \<Rightarrow> int" where
  "page_size max_limit max_bars = min max_limit (case max_bars of Some m \<Rightarrow> if m = 0 then max_limit else m | None \<Rightarrow> max_limit)"

subsection \<open>Binance\<close>

record binance_config =
  bn_spot_base_url :: string
  bn_usdm_base_url :: string
  bn_coinm_base_url :: string
  bn_max_limit_spot :: int
  bn_max_limit_usdm :: int

text \<open>The network: the response to an attempt of the n-th request, for an address and parameters.\<close>

type_synonym network = "nat \<Rightarrow> int \<Rightarrow> string \<Rightarrow> http_params \<Rightarrow> http_response"

definition binance_base_url :: "binance_config \<Rightarrow> string \<Rightarrow> string res" where
  "binance_base_url cfg market =
     (if market = ''spot'' then Inr (bn_spot_base_url cfg)
      else if market = ''usdm'' then Inr (bn_usdm_base_url cfg)
      else if market = ''coinm'' then Inr (bn_coinm_base_url cfg)
      else Inl (MDSymbolUnsupported ''Unsupported Binance market''))"

definition binance_limit :: "binance_config \<Rightarrow> string \<Rightarrow> int" where
  "binance_limit cfg market = (if market = ''spot'' then bn_max_limit_spot cfg else bn_max_limit_usdm cfg)"

definition binance_endpoints :: "(string \<times> string) list" where
  "binance_endpoints = [(''spot'', ''/api/v3/klines''), (''usdm'', ''/fapi/v1/klines''), (''coinm'', ''/dapi/v1/klines'')]"

definition binance_time_endpoint :: "string \<Rightarrow> string" where
  "binance_time_endpoint market =
     (if market = ''spot'' then ''/api/v3/time'' else if market = ''coinm'' then ''/dapi/v1/time'' else ''/fapi/v1/time'')"

definition binance_page ::
  "network \<Rightarrow> int \<Rightarrow> string \<Rightarrow> normalized_symbol \<Rightarrow> string \<Rightarrow> string \<Rightarrow> int option \<Rightarrow> int \<Rightarrow> bool \<Rightarrow> page_fetch" where
  "binance_page net max_retries url ns interval timeframe stop server_time include_open_candle n cursor limit =
     (let params = [(''symbol'', JStr (ns_exchange_symbol ns)), (''interval'', JStr interval), (''limit'', JInt limit)] @
            opt_param ''startTime'' JInt cursor @ opt_param ''endTime'' (\<lambda>e. JInt (e - 1)) stop in
      bindR (binance_get_json max_retries (\<lambda>a. net n a url params)) (\<lambda>payload.
      case payload of
        JArr rows \<Rightarrow>
          bindR (normalize_binance_klines rows (ns_exchange_symbol ns) (ns_market ns) timeframe (Some server_time) include_open_candle)
            (\<lambda>page. Inr (page, length rows))
      | _ \<Rightarrow> Inl (MDInvalidExchangeResponse ''Binance kline payload must be a list'')))"

definition binance_get_bars ::
  "network \<Rightarrow> binance_config \<Rightarrow> string \<Rightarrow> string \<Rightarrow> int option \<Rightarrow> int option \<Rightarrow> string option \<Rightarrow> int \<Rightarrow> int option \<Rightarrow> bool \<Rightarrow>
   market_bar list res option" where
  "binance_get_bars net cfg symbol timeframe start stop market max_retries max_bars include_open_candle =
     (case bindR (normalize_symbol symbol (Some ''BINANCE'') market) (\<lambda>ns.
           bindR (to_binance_interval timeframe) (\<lambda>interval.
           bindR (binance_base_url cfg (ns_market ns)) (\<lambda>base.
           bindR (case map_of binance_endpoints (ns_market ns) of Some e \<Rightarrow> Inr e | None \<Rightarrow> Inl (PyKeyError (ns_market ns))) (\<lambda>endpoint.
           bindR (bindR (binance_get_json max_retries (\<lambda>a. net 0 a (base @ binance_time_endpoint (ns_market ns)) [])) binance_server_time)
             (\<lambda>server_time. Inr (ns, interval, base @ endpoint, server_time)))))) of
        Inl e \<Rightarrow> Some (Inl e)
      | Inr (ns, interval, url, server_time) \<Rightarrow>
          map_option (\<lambda>r. bindR r (finish_pages max_bars))
            (page_loop (binance_page net max_retries url ns interval timeframe stop server_time include_open_candle) timeframe start stop
               (page_size (binance_limit cfg (ns_market ns)) max_bars) max_bars 1 start []))"

definition binance_get_intrabar_bars ::
  "network \<Rightarrow> binance_config \<Rightarrow> string \<Rightarrow> bar \<Rightarrow> string option \<Rightarrow> string option \<Rightarrow> int \<Rightarrow> market_bar list res option" where
  "binance_get_intrabar_bars net cfg symbol chart_bar lower_timeframe market max_retries =
     binance_get_bars net cfg symbol (str_or lower_timeframe ''1m'') (Some (b_time chart_bar)) (map_option (\<lambda>c. c + 1) (b_time_close chart_bar))
       market max_retries None False"

subsection \<open>Bybit\<close>

record bybit_config =
  by_base_url :: string
  by_max_limit :: int

definition bybit_category :: "string \<Rightarrow> string res" where
  "bybit_category market =
     (if market \<in> {''spot'', ''linear'', ''inverse''} then Inr market else Inl (MDSymbolUnsupported ''Unsupported Bybit market''))"

definition bybit_page ::
  "network \<Rightarrow> int \<Rightarrow> string \<Rightarrow> string \<Rightarrow> normalized_symbol \<Rightarrow> string \<Rightarrow> string \<Rightarrow> int option \<Rightarrow> int \<Rightarrow> bool \<Rightarrow> page_fetch" where
  "bybit_page net max_retries url category ns interval timeframe stop server_time include_open_candle n cursor limit =
     (let params = [(''category'', JStr category), (''symbol'', JStr (ns_exchange_symbol ns)), (''interval'', JStr interval), (''limit'', JInt limit)] @
            opt_param ''start'' JInt cursor @ opt_param ''end'' (\<lambda>e. JInt (e - 1)) stop in
      bindR (bybit_get_json max_retries (\<lambda>a. net n a url params)) (\<lambda>payload.
      case payload of
        JObj d \<Rightarrow>
          bindR (ret_code payload) (\<lambda>code.
          if code \<noteq> 0 then Inl (MDInvalidExchangeResponse ''Bybit kline request returned non-zero retCode'')
          else
            bindR (normalize_bybit_klines payload (ns_exchange_symbol ns) (ns_market ns) timeframe (Some server_time) include_open_candle) (\<lambda>page.
            bindR (bindR (json_item (obj_get_or (JObj []) d ''result'') ''list'') json_len) (\<lambda>count.
            Inr (page, count))))
      | _ \<Rightarrow> Inl (MDInvalidExchangeResponse ''Bybit kline request returned non-zero retCode'')))"

definition bybit_get_bars ::
  "network \<Rightarrow> bybit_config \<Rightarrow> string \<Rightarrow> string \<Rightarrow> int option \<Rightarrow> int option \<Rightarrow> string option \<Rightarrow> int \<Rightarrow> int option \<Rightarrow> bool \<Rightarrow>
   market_bar list res option" where
  "bybit_get_bars net cfg symbol timeframe start stop market max_retries max_bars include_open_candle =
     (case bindR (normalize_symbol symbol (Some ''BYBIT'') market) (\<lambda>ns.
           bindR (bybit_category (ns_market ns)) (\<lambda>category.
           bindR (to_bybit_interval timeframe) (\<lambda>interval.
           bindR (bindR (bybit_get_json max_retries (\<lambda>a. net 0 a (by_base_url cfg @ ''/v5/market/time'') [])) bybit_server_time)
             (\<lambda>server_time. Inr (ns, category, interval, server_time))))) of
        Inl e \<Rightarrow> Some (Inl e)
      | Inr (ns, category, interval, server_time) \<Rightarrow>
          map_option (\<lambda>r. bindR r (finish_pages max_bars))
            (page_loop (bybit_page net max_retries (by_base_url cfg @ ''/v5/market/kline'') category ns interval timeframe stop server_time include_open_candle)
               timeframe start stop (page_size (by_max_limit cfg) max_bars) max_bars 1 start []))"

definition bybit_get_intrabar_bars ::
  "network \<Rightarrow> bybit_config \<Rightarrow> string \<Rightarrow> bar \<Rightarrow> string option \<Rightarrow> string option \<Rightarrow> int \<Rightarrow> market_bar list res option" where
  "bybit_get_intrabar_bars net cfg symbol chart_bar lower_timeframe market max_retries =
     bybit_get_bars net cfg symbol (str_or lower_timeframe ''1m'') (Some (b_time chart_bar)) (map_option (\<lambda>c. c + 1) (b_time_close chart_bar))
       market max_retries None False"

subsection \<open>The loop over pages of trades\<close>

type_synonym trade_fetch = "nat \<Rightarrow> int \<Rightarrow> int \<Rightarrow> agg_trade list res"

partial_function (option) trade_loop ::
  "trade_fetch \<Rightarrow> int \<Rightarrow> int \<Rightarrow> int \<Rightarrow> int option \<Rightarrow> nat \<Rightarrow> int \<Rightarrow> agg_trade list \<Rightarrow> agg_trade list res option" where
  "trade_loop fetch start stop per_page max_trades n cursor out =
     (let remaining = map_option (\<lambda>m. m - int (length out)) max_trades in
      if stop \<le> cursor \<or> (case remaining of Some r \<Rightarrow> r \<le> 0 | None \<Rightarrow> False) then Some (Inr out)
      else
        (let limit = (case remaining of Some r \<Rightarrow> min per_page r | None \<Rightarrow> per_page) in
         case fetch n cursor limit of
           Inl e \<Rightarrow> Some (Inl e)
         | Inr trades \<Rightarrow>
             (let page = filter (\<lambda>t. start \<le> at_time t \<and> at_time t < stop) trades; out' = out @ page in
              if page = [] then Some (Inr out)
              else if int (length page) < limit then Some (Inr out')
              else trade_loop fetch start stop per_page max_trades (Suc n) (at_time (last page) + 1) out')))"

definition trades_page :: "network \<Rightarrow> int \<Rightarrow> string \<Rightarrow> normalized_symbol \<Rightarrow> int \<Rightarrow> trade_fetch" where
  "trades_page net max_retries url ns stop n cursor limit =
     (let params = [(''symbol'', JStr (ns_exchange_symbol ns)), (''startTime'', JInt cursor), (''endTime'', JInt (stop - 1)), (''limit'', JInt limit)] in
      bindR (trades_get_json max_retries (\<lambda>a. net n a url params)) normalize_binance_agg_trades)"

definition binance_trade_endpoints :: "(string \<times> string) list" where
  "binance_trade_endpoints = [(''spot'', ''/api/v3/aggTrades''), (''usdm'', ''/fapi/v1/aggTrades'')]"

definition binance_get_agg_trades ::
  "network \<Rightarrow> binance_config \<Rightarrow> string \<Rightarrow> int \<Rightarrow> int \<Rightarrow> string option \<Rightarrow> int \<Rightarrow> int option \<Rightarrow> agg_trade list res option" where
  "binance_get_agg_trades net cfg symbol start stop market max_retries max_trades =
     (case normalize_symbol symbol (Some ''BINANCE'') market of
        Inl e \<Rightarrow> Some (Inl e)
      | Inr ns \<Rightarrow>
          (case map_of binance_trade_endpoints (ns_market ns) of
             None \<Rightarrow> Some (Inr [])
           | Some endpoint \<Rightarrow>
               (case binance_base_url cfg (ns_market ns) of
                  Inl e \<Rightarrow> Some (Inl e)
                | Inr base \<Rightarrow>
                    map_option (\<lambda>r. bindR r (\<lambda>out. Inr (sorted_vals (dict_of at_trade_id out))))
                      (trade_loop (trades_page net max_retries (base @ endpoint) ns stop) start stop (page_size 1000 max_trades) max_trades 0 start []))))"

end
