(* ===== verification/PageSafety.thy ===== *)
theory PageSafety
  imports Pagination
begin

section \<open>What fetching in pages guarantees\<close>

text \<open>
  The loops over pages return, whatever the exchange answers, and against an exchange that honours
  its interface they return exactly the closed candles of the window; a request succeeds when an
  attempt within its retries does.
\<close>

subsection \<open>Retries\<close>

definition transient :: "(int \<Rightarrow> bool) \<Rightarrow> (string option \<Rightarrow> unit res) \<Rightarrow> http_response \<Rightarrow> bool" where
  "transient limited wait r \<longleftrightarrow>
     (case r of
        HttpFailed \<Rightarrow> True
      | HttpResponse status retry_after ok _ \<Rightarrow>
          if limited status then wait retry_after = Inr () else (500 \<le> status \<and> status < 600) \<or> \<not> ok)"

lemma get_json_skips:
  assumes "\<forall>a \<in> set attempts. a < max_retries \<and> transient limited wait (respond a)"
  shows "get_json limited wait throttled max_retries respond (attempts @ rest) = get_json limited wait throttled max_retries respond rest"
  using assms by (induction attempts) (auto simp: transient_def Let_def split: http_response.splits if_splits)

text \<open>
  C34. A request that can succeed within its retries does. When the attempts before one fail in ways
  that may pass, by a broken connection, a server error or a rate limit, and that attempt, at most
  the last allowed, is answered, the request returns its payload.
\<close>

theorem retries_reach_answer:
  assumes "0 \<le> k" and "k \<le> max_retries"
    and "\<forall>a. 0 \<le> a \<and> a < k \<longrightarrow> transient limited wait (respond a)"
    and "respond k = HttpResponse status header True (Inr payload)" and "\<not> limited status" and "status < 500"
    and "throttled payload = Inr False"
  shows "with_retries limited wait throttled max_retries respond = Inr payload"
proof -
  have "[0..max_retries] = [0..k - 1] @ k # [k + 1..max_retries]"
    using assms(1,2) by (metis upto_split1 upto_split2 upto_split3)
  moreover have "get_json limited wait throttled max_retries respond ([0..k - 1] @ k # [k + 1..max_retries]) =
      get_json limited wait throttled max_retries respond (k # [k + 1..max_retries])"
    using assms(2,3) by (intro get_json_skips) auto
  ultimately show ?thesis using assms(4-7) by (simp add: with_retries_def)
qed

theorem retries_reach_answer_witness:
  "binance_get_json 3 (\<lambda>a. if a = 0 then HttpFailed else if a = 1 then HttpResponse 429 (Some ''2'') False (Inr JNull)
     else HttpResponse 200 None True (Inr (JArr []))) = Inr (JArr [])"
proof -
  have w: "sleep_retry_after (Some ''2'') = Inr ()" by code_simp
  show ?thesis
    unfolding binance_get_json_def
    by (rule retries_reach_answer [where k = 2 and status = 200 and header = None]) (auto simp: transient_def w)
qed

subsection \<open>Termination\<close>

lemma page_loop_cursor:
  "\<exists>r. page_loop fetch timeframe start (Some e) per_page max_bars n (Some c) out = Some r"
proof (induction "nat (e - c)" arbitrary: n c out rule: less_induct)
  case less
  have "c < next \<Longrightarrow> next < e \<Longrightarrow> \<exists>r. page_loop fetch timeframe start (Some e) per_page max_bars (Suc n) (Some next) out' = Some r" for "next" out'
    by (rule less) simp
  then show ?case
    by (subst page_loop.simps) (auto simp: Let_def split: option.splits sum.splits prod.splits)
qed

lemma page_loop_stop: "\<exists>r. page_loop fetch timeframe start (Some e) per_page max_bars n cursor out = Some r"
proof (cases cursor)
  case None
  then show ?thesis using page_loop_cursor
    by (subst page_loop.simps) (auto simp: Let_def split: option.splits sum.splits prod.splits)
qed (simp add: page_loop_cursor)

lemma page_loop_limited: "\<exists>r. page_loop fetch timeframe start stop per_page (Some m) n cursor out = Some r"
proof (induction "nat (m - int (length out))" arbitrary: n cursor out rule: less_induct)
  case less
  have "page \<noteq> [] \<Longrightarrow> 0 < m - int (length out) \<Longrightarrow>
      \<exists>r. page_loop fetch timeframe start stop per_page (Some m) (Suc n) (Some next) (out @ page) = Some r" for "next" page
    by (rule less) (cases page; simp)
  then show ?case
    by (subst page_loop.simps) (auto simp: Let_def split: option.splits sum.splits prod.splits)
qed

lemma get_bars_return:
  assumes "stop \<noteq> None \<or> max_bars \<noteq> None"
  shows "\<exists>r. binance_get_bars net bn symbol timeframe start stop market max_retries max_bars include_open_candle = Some r"
    "\<exists>r. bybit_get_bars net by symbol timeframe start stop market max_retries max_bars include_open_candle = Some r"
proof -
  have loop: "\<exists>r. page_loop fetch timeframe start stop per_page max_bars n cursor out = Some r" for fetch per_page n cursor out
    using assms page_loop_stop page_loop_limited by (cases stop; cases max_bars) auto
  show "\<exists>r. binance_get_bars net bn symbol timeframe start stop market max_retries max_bars include_open_candle = Some r"
    using loop unfolding binance_get_bars_def by (auto simp del: split_paired_Ex split: sum.splits prod.splits)
  show "\<exists>r. bybit_get_bars net by symbol timeframe start stop market max_retries max_bars include_open_candle = Some r"
    using loop unfolding bybit_get_bars_def by (auto simp del: split_paired_Ex split: sum.splits prod.splits)
qed

text \<open>
  C33. Fetching candles returns. Whatever the network answers to any request, \<open>binance_get_bars_sync\<close>
  and \<open>bybit_get_bars_sync\<close> return, with bars or an exception, when an end or a maximum is given.
\<close>

theorem get_bars_terminate:
  assumes "stop \<noteq> None \<or> max_bars \<noteq> None"
  shows "\<exists>r r'. binance_get_bars net bn symbol timeframe start stop market max_retries max_bars include_open_candle = Some r \<and>
     bybit_get_bars net by symbol timeframe start stop market max_retries max_bars include_open_candle = Some r'"
  using get_bars_return [OF assms] by blast

theorem get_bars_terminate_witness:
  "\<forall>net bn bb. \<exists>r r'. binance_get_bars net bn ''BTCUSDT'' ''1m'' None (Some 60000) None 3 None False = Some r \<and>
     bybit_get_bars net bb ''BTCUSDT'' ''1m'' None (Some 60000) None 3 None False = Some r'"
  by (intro allI get_bars_terminate) simp

subsection \<open>Exactness\<close>

text \<open>A later candle opens no earlier than the one before it ends.\<close>

definition spaced :: "string \<Rightarrow> market_bar list \<Rightarrow> bool" where
  "spaced timeframe candles \<longleftrightarrow>
     sorted_wrt (\<lambda>a b. \<exists>t. next_open_time_ms (b_time a) timeframe = Inr t \<and> t \<le> b_time b) candles \<and>
     (\<forall>b \<in> set candles. \<exists>t. next_open_time_ms (b_time b) timeframe = Inr t \<and> b_time b < t)"

definition honest_fetch :: "market_bar list \<Rightarrow> (market_bar \<Rightarrow> bool) \<Rightarrow> int \<Rightarrow> page_fetch \<Rightarrow> bool" where
  "honest_fetch candles keep stop fetch \<longleftrightarrow>
     (\<forall>n c limit. 0 < n \<and> 0 < limit \<longrightarrow>
        (let rows = take (nat limit) (filter (\<lambda>b. c \<le> b_time b \<and> b_time b < stop) candles)
         in fetch n (Some c) limit = Inr (filter keep rows, length rows)))"

lemma spaced_split:
  assumes "spaced timeframe (pre @ b # post)" and "next_open_time_ms (b_time b) timeframe = Inr t"
  shows "filter (\<lambda>x. t \<le> b_time x) (pre @ b # post) = post" "b_time b < t"
proof -
  have bt: "b_time b < t" using assms by (auto simp: spaced_def)
  have "b_time x < t" if "x \<in> set pre" for x
  proof -
    have "\<exists>u. next_open_time_ms (b_time x) timeframe = Inr u \<and> u \<le> b_time b" "\<exists>u. next_open_time_ms (b_time x) timeframe = Inr u \<and> b_time x < u"
      using assms(1) that by (simp_all add: spaced_def sorted_wrt_append)
    with bt show ?thesis by auto
  qed
  then have "filter (\<lambda>x. t \<le> b_time x) pre = []" by (force simp: filter_empty_conv)
  moreover have "filter (\<lambda>x. t \<le> b_time x) post = post" using assms by (intro filter_True) (auto simp: spaced_def sorted_wrt_append)
  ultimately show "filter (\<lambda>x. t \<le> b_time x) (pre @ b # post) = post" using bt by simp
  show "b_time b < t" by (rule bt)
qed

lemma spaced_filter: "spaced timeframe candles \<Longrightarrow> spaced timeframe (filter P candles)"
  by (auto simp: spaced_def sorted_wrt_filter)

lemma page_loop_exact:
  assumes "honest_fetch candles keep e fetch" and "spaced timeframe candles" and "sorted_wrt (\<lambda>a b. keep b \<longrightarrow> keep a) candles"
    and "0 < per_page" and "s \<le> c" and "0 < n"
  shows "page_loop fetch timeframe (Some s) (Some e) per_page None n (Some c) out =
     Some (Inr (out @ filter keep (filter (\<lambda>b. c \<le> b_time b \<and> b_time b < e) candles)))"
  using assms(5,6)
proof (induction "length (filter (\<lambda>b. c \<le> b_time b \<and> b_time b < e) candles)" arbitrary: n c out rule: less_induct)
  case less
  define R where "R = filter (\<lambda>b. c \<le> b_time b \<and> b_time b < e) candles"
  define rows where "rows = take (nat per_page) R"
  define page where "page = filter keep rows"
  have f: "fetch n (Some c) per_page = Inr (page, length rows)"
    using assms(1,4) less(3) by (simp add: honest_fetch_def Let_def R_def rows_def page_def)
  have R: "\<forall>x \<in> set R. c \<le> b_time x \<and> b_time x < e" "spaced timeframe R" "sorted_wrt (\<lambda>a b. keep b \<longrightarrow> keep a) R"
    using assms(2,3) by (auto simp: R_def spaced_filter sorted_wrt_filter)
  have rows: "set rows \<subseteq> set R" "R = rows @ drop (nat per_page) R" by (auto simp: rows_def dest: in_set_takeD)
  have "set page \<subseteq> set R" using rows(1) by (auto simp: page_def)
  then have w: "within_window (Some s) (Some e) page = page"
    using R(1) less(2) unfolding within_window_def by (intro filter_True) (force simp: in_range_def)
  show ?case
  proof (cases "page = []")
    case True
    have "filter keep R = []"
    proof (cases R)
      case (Cons x xs)
      then have "x \<in> set rows" using assms(4) by (cases "nat per_page") (auto simp: rows_def)
      then have "\<not> keep x" using True by (auto simp: page_def filter_empty_conv)
      then show ?thesis using R(3) Cons by (auto simp: filter_empty_conv)
    qed simp
    then show ?thesis using f True w by (subst page_loop.simps) (simp add: R_def)
  next
    case False
    show ?thesis
    proof (cases "int (length rows) < per_page")
      case True
      then have "rows = R" using assms(4) by (auto simp: rows_def)
      then show ?thesis using f False True w by (subst page_loop.simps) (simp add: page_def R_def [symmetric])
    next
      case full: False
      obtain pre b post where b: "rows = pre @ b # post" "keep b" "\<forall>x \<in> set post. \<not> keep x"
        using False split_list_last_prop [of rows keep] by (auto simp: page_def filter_empty_conv)
      define rest where "rest = drop (nat per_page) R"
      have R_eq: "R = pre @ b # (post @ rest)" using rows(2) b(1) by (simp add: rest_def)
      have page: "page = filter keep pre @ [b]" using b by (simp add: page_def)
      obtain t where t: "next_open_time_ms (b_time b) timeframe = Inr t" using R(2) by (auto simp: R_eq spaced_def)
      note split = spaced_split [OF R(2) [unfolded R_eq] t]
      have "c < t" using R(1) split(2) by (force simp: R_eq)
      have R': "filter (\<lambda>b. t \<le> b_time b \<and> b_time b < e) candles = post @ rest"
      proof -
        have "filter (\<lambda>b. t \<le> b_time b \<and> b_time b < e) candles = filter (\<lambda>x. t \<le> b_time x) R"
          using \<open>c < t\<close> by (auto simp: R_def intro!: filter_cong)
        then show ?thesis using split(1) by (simp add: R_eq)
      qed
      have kept: "filter keep R = page @ filter keep (post @ rest)" using b(2,3) by (simp add: R_eq page)
      have step: "page_loop fetch timeframe (Some s) (Some e) per_page None n (Some c) out =
          (if e \<le> t then Some (Inr (out @ page)) else page_loop fetch timeframe (Some s) (Some e) per_page None (Suc n) (Some t) (out @ page))"
        using f False w full t \<open>c < t\<close> by (subst page_loop.simps) (simp add: page)
      show ?thesis
      proof (cases "e \<le> t")
        case True
        then have "post @ rest = []" using R' by (auto simp: filter_empty_conv simp flip: R')
        then show ?thesis using step True kept by (simp add: R_def)
      next
        case False
        have "length (post @ rest) < length R" by (simp add: R_eq)
        then have "page_loop fetch timeframe (Some s) (Some e) per_page None (Suc n) (Some t) (out @ page) =
            Some (Inr ((out @ page) @ filter keep (post @ rest)))"
          using less(1) [of t "Suc n" "out @ page"] less(2) \<open>c < t\<close> unfolding R' R_def [symmetric] by simp
        then show ?thesis using step False kept by (simp add: R_def)
      qed
    qed
  qed
qed

lemma spaced_sorted: "spaced timeframe candles \<Longrightarrow> sorted_wrt (<) (map b_time candles)"
proof (induction candles)
  case (Cons b candles)
  obtain t where "next_open_time_ms (b_time b) timeframe = Inr t" "b_time b < t" using Cons.prems by (auto simp: spaced_def)
  then show ?case using Cons by (fastforce simp: spaced_def)
qed simp

subsection \<open>An exchange that honours its interface\<close>

text \<open>
  Binance documents that klines are the candles that open from \<open>startTime\<close> to \<open>endTime\<close>, in order,
  at most \<open>limit\<close> of them. \<open>row\<close> is the JSON of a candle.
\<close>

definition kline_server :: "(market_bar \<Rightarrow> json) \<Rightarrow> market_bar list \<Rightarrow> http_params \<Rightarrow> json" where
  "kline_server row candles params =
     (case (map_of params ''startTime'', map_of params ''endTime'', map_of params ''limit'') of
        (Some (JInt s), Some (JInt e), Some (JInt l)) \<Rightarrow>
          JArr (map row (take (nat l) (filter (\<lambda>b. s \<le> b_time b \<and> b_time b \<le> e) candles)))
      | _ \<Rightarrow> JNull)"

definition honest_binance :: "network \<Rightarrow> (market_bar \<Rightarrow> json) \<Rightarrow> market_bar list \<Rightarrow> int \<Rightarrow> bool" where
  "honest_binance net row candles now \<longleftrightarrow>
     (\<forall>n a url params. net n a url params =
        HttpResponse 200 None True (Inr (if n = 0 then JObj [(''serverTime'', JInt now)] else kline_server row candles params)))"

text \<open>Each candle is what its row is read as, and a candle closes no later than the next.\<close>

definition readable_candles :: "normalized_symbol \<Rightarrow> string \<Rightarrow> int \<Rightarrow> (market_bar \<Rightarrow> json) \<Rightarrow> market_bar list \<Rightarrow> bool" where
  "readable_candles ns timeframe now row candles \<longleftrightarrow>
     spaced timeframe candles \<and> sorted_wrt (\<lambda>a b. the (b_time_close a) \<le> the (b_time_close b)) candles \<and>
     (\<forall>b \<in> set candles. binance_kline_row (ns_exchange_symbol ns) (ns_market ns) timeframe (Some now) (row b) = Inr b \<and>
        bar_sane b \<and> b_time_close b \<noteq> None)"

abbreviation closed_at :: "int \<Rightarrow> market_bar \<Rightarrow> bool" where
  "closed_at now b \<equiv> the (b_time_close b) \<le> now"

lemma validate_sane: "sorted_wrt (<) (map b_time bars) \<Longrightarrow> \<forall>b \<in> set bars. bar_sane b \<Longrightarrow> validate_bars bars True = Inr ()"
  using validate_loop_iff [of "{}" None bars] by (simp add: validate_bars_def)

lemma readable_rows:
  assumes "readable_candles ns timeframe now row candles"
  shows "normalize_binance_klines (map row candles) (ns_exchange_symbol ns) (ns_market ns) timeframe (Some now) False = Inr (filter (closed_at now) candles)"
proof -
  have sorted: "sorted_wrt (<) (map b_time candles)" using assms by (auto simp: readable_candles_def spaced_sorted)
  have parsed: "mapR (binance_kline_row (ns_exchange_symbol ns) (ns_market ns) timeframe (Some now)) (map row candles) = Inr candles"
    using assms by (auto simp: readable_candles_def mapR_list_all2 list_all2_conv_all_nth)
  have sort: "sort_key b_time candles = candles" using sorted by (intro sort_key_id_if_sorted) (simp add: strict_sorted_iff)
  have exclude: "exclude_open_candle candles (Some now) = Inr (filter (closed_at now) candles)"
    using assms by (auto simp: exclude_open_candle_def exclude_loop_filter readable_candles_def)
  have "validate_bars (filter (closed_at now) candles) True = Inr ()"
    using assms sorted by (intro validate_sane) (auto simp: readable_candles_def sorted_wrt_less_map_filter)
  then show ?thesis by (simp add: normalize_binance_klines_def parsed finish_klines_def sort exclude)
qed

lemma readable_part:
  assumes "readable_candles ns timeframe now row candles"
  shows "readable_candles ns timeframe now row (take k (filter P candles))"
  using assms by (auto simp: readable_candles_def spaced_def sorted_wrt_filter sorted_wrt_take dest: in_set_takeD)

lemma answered:
  assumes "0 \<le> max_retries" and "respond 0 = HttpResponse 200 None True (Inr payload)"
  shows "binance_get_json max_retries respond = Inr payload"
  using assms by (simp add: binance_get_json_def with_retries_def upto_rec1 Let_def)

lemma honest_page:
  assumes "honest_binance net row candles now" and "readable_candles ns timeframe now row candles" and "0 \<le> max_retries"
  shows "honest_fetch candles (closed_at now) stop (binance_page net max_retries url ns interval timeframe (Some stop) now False)"
proof -
  have "binance_page net max_retries url ns interval timeframe (Some stop) now False n (Some c) limit =
      (let rows = take (nat limit) (filter (\<lambda>b. c \<le> b_time b \<and> b_time b < stop) candles) in Inr (filter (closed_at now) rows, length rows))"
    if "0 < n" for n c limit
  proof -
    let ?rows = "take (nat limit) (filter (\<lambda>b. c \<le> b_time b \<and> b_time b < stop) candles)"
    let ?params = "[(''symbol'', JStr (ns_exchange_symbol ns)), (''interval'', JStr interval), (''limit'', JInt limit)] @
            opt_param ''startTime'' JInt (Some c) @ opt_param ''endTime'' (\<lambda>e. JInt (e - 1)) (Some stop)"
    have "kline_server row candles ?params = JArr (map row ?rows)"
      by (simp add: kline_server_def opt_param_def)
    then have "binance_get_json max_retries (\<lambda>a. net n a url ?params) = Inr (JArr (map row ?rows))"
      using assms(1,3) that by (intro answered) (simp_all add: honest_binance_def)
    then show ?thesis using readable_rows [OF readable_part [OF assms(2)]] by (simp add: binance_page_def Let_def)
  qed
  then show ?thesis by (simp add: honest_fetch_def)
qed

lemma finish_sorted:
  assumes "sorted_wrt (<) (map b_time bars)" and "\<forall>b \<in> set bars. bar_sane b"
  shows "finish_pages None bars = Inr bars"
  using assms by (simp add: finish_pages_def sorted_vals_dict_of_sorted validate_sane)

text \<open>
  C11. Every closed candle is fetched. Against a Binance that honours its interface, however many pages
  it takes, \<open>binance_get_bars_sync\<close> returns exactly the candles that open in the window and had closed
  at the exchange's time, in order, each once.
\<close>

theorem binance_get_bars_exact:
  assumes "normalize_symbol symbol (Some ''BINANCE'') market = Inr ns" and "ns_market ns \<in> {''spot'', ''usdm'', ''coinm''}"
    and "to_binance_interval timeframe = Inr interval"
    and "honest_binance net row candles now" and "readable_candles ns timeframe now row candles"
    and "0 < bn_max_limit_spot cfg" and "0 < bn_max_limit_usdm cfg" and "0 \<le> max_retries"
  shows "binance_get_bars net cfg symbol timeframe (Some start) (Some stop) market max_retries None False =
     Some (Inr (filter (\<lambda>b. start \<le> b_time b \<and> b_time b < stop \<and> closed_at now b) candles))"
proof -
  obtain base where base: "binance_base_url cfg (ns_market ns) = Inr base" using assms(2) by (auto simp: binance_base_url_def)
  obtain endpoint where endpoint: "map_of binance_endpoints (ns_market ns) = Some endpoint" using assms(2) by (auto simp: binance_endpoints_def)
  let ?page = "binance_page net max_retries (base @ endpoint) ns interval timeframe (Some stop) now False"
  let ?limit = "page_size (binance_limit cfg (ns_market ns)) None"
  let ?bars = "filter (closed_at now) (filter (\<lambda>b. start \<le> b_time b \<and> b_time b < stop) candles)"
  have "binance_get_json max_retries (\<lambda>a. net 0 a (base @ binance_time_endpoint (ns_market ns)) []) = Inr (JObj [(''serverTime'', JInt now)])"
    using assms(4,8) by (intro answered) (simp_all add: honest_binance_def)
  then have "binance_get_bars net cfg symbol timeframe (Some start) (Some stop) market max_retries None False =
      map_option (\<lambda>r. bindR r (finish_pages None)) (page_loop ?page timeframe (Some start) (Some stop) ?limit None 1 (Some start) [])"
    by (simp add: binance_get_bars_def assms(1,3) base endpoint binance_server_time_def any_invalid_def catch_row_def json_item_def obj_item_def)
  moreover have "0 < ?limit" using assms(6,7) by (simp add: page_size_def binance_limit_def)
  moreover have "sorted_wrt (\<lambda>a b. closed_at now b \<longrightarrow> closed_at now a) candles"
    using assms(5) unfolding readable_candles_def by (auto elim: sorted_wrt_mono_rel [rotated])
  ultimately have "binance_get_bars net cfg symbol timeframe (Some start) (Some stop) market max_retries None False = Some (finish_pages None ?bars)"
    using page_loop_exact [OF honest_page [OF assms(4,5,8)], where per_page = ?limit and n = 1 and out = "[]"] assms(5)
    by (simp add: readable_candles_def)
  moreover have "finish_pages None ?bars = Inr ?bars"
    using assms(5) by (intro finish_sorted) (auto simp: readable_candles_def spaced_sorted sorted_wrt_less_map_filter)
  ultimately show ?thesis by (simp add: conj_commute conj_left_commute)
qed

definition sample_row :: "market_bar \<Rightarrow> json" where
  "sample_row b = JArr [JInt (b_time b), JStr ''7'', JStr ''8'', JStr ''6'', JStr ''7'', JStr ''1'', JInt (b_time b + 59999)]"

definition sample_candle :: "int \<Rightarrow> market_bar" where
  "sample_candle t = (case binance_kline_row ''BTCUSDT'' ''spot'' ''1m'' (Some 100000) (sample_row (market_bar_defaults\<lparr>b_time := t\<rparr>)) of Inr b \<Rightarrow> b)"

definition sample_network :: network where
  "sample_network n a url params =
     HttpResponse 200 None True (Inr (if n = 0 then JObj [(''serverTime'', JInt 100000)] else kline_server sample_row [sample_candle 0, sample_candle 60000] params))"

definition sample_binance :: binance_config where
  "sample_binance = \<lparr>bn_spot_base_url = ''https://api.binance.com'', bn_usdm_base_url = ''https://fapi.binance.com'',
     bn_coinm_base_url = ''https://dapi.binance.com'', bn_max_limit_spot = 1000, bn_max_limit_usdm = 1500\<rparr>"

theorem binance_get_bars_exact_witness:
  "binance_get_bars sample_network sample_binance ''btcusdt'' ''1m'' (Some 0) (Some 120000) None 3 None False = Some (Inr [sample_candle 0])"
proof -
  let ?ns = "\<lparr>ns_exchange = ''binance'', ns_market = ''spot'', ns_base_symbol = ''BTC'', ns_tv_symbol = ''BINANCE:BTCUSDT'',
    ns_exchange_symbol = ''BTCUSDT'', ns_is_perpetual = False\<rparr>"
  let ?candles = "[sample_candle 0, sample_candle 60000]"
  have ns: "normalize_symbol ''btcusdt'' (Some ''BINANCE'') None = Inr ?ns" "to_binance_interval ''1m'' = Inr ''1m''" by code_simp+
  have times: "b_time (sample_candle 0) = 0" "b_time (sample_candle 60000) = 60000" "b_time_close (sample_candle 0) = Some 59999"
    "b_time_close (sample_candle 60000) = Some 119999" "next_open_time_ms 0 ''1m'' = Inr 60000" "next_open_time_ms 60000 ''1m'' = Inr 120000"
    by code_simp+
  have rows: "list_all (\<lambda>b. binance_kline_row ''BTCUSDT'' ''spot'' ''1m'' (Some 100000) (sample_row b) = Inr b \<and> bar_sane b) ?candles" by code_simp
  have "readable_candles ?ns ''1m'' 100000 sample_row ?candles" using rows times by (simp add: readable_candles_def spaced_def)
  moreover have "honest_binance sample_network sample_row ?candles 100000" by (simp add: honest_binance_def sample_network_def)
  ultimately show ?thesis
    using binance_get_bars_exact [OF ns(1) _ ns(2), of sample_network sample_row ?candles 100000 sample_binance 3 0 120000] times
    by (simp add: sample_binance_def)
qed

subsection \<open>Trades\<close>

text \<open>An exchange that honours the start of a request returns no earlier trade.\<close>

lemma trade_loop_forward:
  assumes "\<forall>n c limit trades. fetch n c limit = Inr trades \<longrightarrow> (\<forall>t \<in> set trades. c \<le> at_time t)"
  shows "\<exists>r. trade_loop fetch start stop per_page max_trades n cursor out = Some r"
proof (induction "nat (stop - cursor)" arbitrary: n cursor out rule: less_induct)
  case less
  have "\<exists>r. trade_loop fetch start stop per_page max_trades (Suc n) (at_time (last page) + 1) out' = Some r"
    if "fetch n cursor limit = Inr trades" "page = filter (\<lambda>t. start \<le> at_time t \<and> at_time t < stop) trades" "page \<noteq> []" for limit trades page out'
  proof -
    have "last page \<in> set page" using that(3) by simp
    then have "cursor \<le> at_time (last page)" "at_time (last page) < stop" using assms that(1,2) by auto
    then show ?thesis by (intro less) simp
  qed
  then show ?case
    by (subst trade_loop.simps) (auto simp: Let_def split: option.splits sum.splits)
qed

lemma trade_loop_limited:
  "\<exists>r. trade_loop fetch start stop per_page (Some m) n cursor out = Some r"
proof (induction "nat (m - int (length out))" arbitrary: n cursor out rule: less_induct)
  case less
  have "page \<noteq> [] \<Longrightarrow> 0 < m - int (length out) \<Longrightarrow>
      \<exists>r. trade_loop fetch start stop per_page (Some m) (Suc n) cursor' (out @ page) = Some r" for cursor' page
    by (rule less) (cases page; simp)
  then show ?case
    by (subst trade_loop.simps) (auto simp: Let_def split: option.splits sum.splits)
qed

text \<open>A full page that never moves on keeps the loop going: it has no check of its cursor.\<close>

lemma trade_loop_stalls:
  assumes "\<forall>n c limit. fetch n c limit = Inr [t]" and "start \<le> at_time t" and "at_time t + 1 < stop" and "cursor < stop"
  shows "trade_loop fetch start stop 1 None n cursor out = None"
proof (rule ccontr)
  define P where "P f s e (p :: int) (m :: int option) (n :: nat) c (o' :: agg_trade list) (r :: agg_trade list res) \<longleftrightarrow>
      \<not> (f = fetch \<and> s = start \<and> e = stop \<and> p = 1 \<and> m = None \<and> c < stop)" for f :: trade_fetch and s e p m n c o' r
  assume "trade_loop fetch start stop 1 None n cursor out \<noteq> None"
  then obtain r where "trade_loop fetch start stop 1 None n cursor out = Some r" by blast
  then have "P fetch start stop 1 None n cursor out r"
  proof (rule trade_loop.raw_induct [rotated])
    fix loop f s e p m n c o' r
    assume IH: "\<And>f s e p m n c o' r. loop f s e p m n c o' = Some r \<Longrightarrow> P f s e p m n c o' r"
      and body: "(let remaining = map_option (\<lambda>m. m - int (length o')) m in
      if e \<le> c \<or> (case remaining of Some r \<Rightarrow> r \<le> 0 | None \<Rightarrow> False) then Some (Inr o')
      else
        (let limit = (case remaining of Some r \<Rightarrow> min p r | None \<Rightarrow> p) in
         case f n c limit of
           Inl e \<Rightarrow> Some (Inl e)
         | Inr trades \<Rightarrow>
             (let page = filter (\<lambda>t. s \<le> at_time t \<and> at_time t < e) trades; out' = o' @ page in
              if page = [] then Some (Inr o')
              else if int (length page) < limit then Some (Inr out')
              else loop f s e p m (Suc n) (at_time (last page) + 1) out'))) = Some r"
    show "P f s e p m n c o' r"
    proof (rule ccontr)
      assume "\<not> P f s e p m n c o' r"
      then have "f = fetch" "s = start" "e = stop" "p = 1" "m = None" "c < stop" by (auto simp: P_def)
      with body assms have "loop fetch start stop 1 None (Suc n) (at_time t + 1) (o' @ [t]) = Some r" by (simp add: Let_def)
      from IH [OF this] assms(3) show False by (simp add: P_def)
    qed
  qed
  then show False using assms(4) by (simp add: P_def)
qed

end
