(* ===== verification/ServiceClients.thy ===== *)
theory ServiceClients
  imports Service PageSafety
begin

section \<open>The service over its clients\<close>

text \<open>
  Models how \<^verbatim>\<open>service.py\<close> calls the clients of the exchanges: the parameters of the record
  \<open>service\<close> filled with the models of those clients, over one network.
\<close>

definition returned :: "'a res option \<Rightarrow> 'a res" where
  "returned r = (case r of Some x \<Rightarrow> x | None \<Rightarrow> Inl (PyRuntimeError ''does not return''))"

definition market_clients :: "market_bar list res \<Rightarrow> client_bar list res" where
  "market_clients r = bindR r (\<lambda>bars. Inr (map ClientBar bars))"

definition binance_client :: "network \<Rightarrow> binance_config \<Rightarrow> bool \<Rightarrow> bar_query \<Rightarrow> client_bar list res" where
  "binance_client net cfg include_open_candle query =
     market_clients (returned (binance_get_bars net cfg (ik_symbol (q_instrument query)) (tf_canonical (q_timeframe query))
       (Some (q_start_ms query)) (Some (q_end_ms query)) (Some (ik_market (q_instrument query))) 3 None include_open_candle))"

definition bybit_client :: "network \<Rightarrow> bybit_config \<Rightarrow> bool \<Rightarrow> bar_query \<Rightarrow> client_bar list res" where
  "bybit_client net cfg include_open_candle query =
     market_clients (returned (bybit_get_bars net cfg (ik_symbol (q_instrument query)) (tf_canonical (q_timeframe query))
       (Some (q_start_ms query)) (Some (q_end_ms query)) (Some (ik_market (q_instrument query))) 3 None include_open_candle))"

definition public_client :: "network \<Rightarrow> (int \<Rightarrow> string res) \<Rightarrow> bar_query \<Rightarrow> client_bar list res" where
  "public_client net iso_ms query =
     (let http = (\<lambda>url params. public_get_json 3 (\<lambda>a. net 0 a url params)); ik = q_instrument query;
          timeframe = tf_canonical (q_timeframe query); start = Some (q_start_ms query); stop = Some (q_end_ms query) in
      bindR (if ik_market ik = ''spot'' then public_spot_get_bars http iso_ms (ik_exchange ik) (ik_symbol ik) timeframe start stop
             else public_market_get_bars http iso_ms (ik_exchange ik) (ik_market ik) (ik_symbol ik) timeframe start stop)
        (\<lambda>bars. Inr (map PlainBar bars)))"

definition over_network :: "network \<Rightarrow> binance_config \<Rightarrow> bybit_config \<Rightarrow> (int \<Rightarrow> string res) \<Rightarrow> bool \<Rightarrow> service \<Rightarrow> service" where
  "over_network net bn bb iso_ms include_open_candle sv =
     sv\<lparr>sv_binance := binance_client net bn include_open_candle, sv_bybit := bybit_client net bb include_open_candle,
        sv_public := public_client net iso_ms\<rparr>"

text \<open>A window has an end, so its loop over pages returns.\<close>

lemma clients_return:
  "binance_get_bars net bn symbol timeframe start (Some stop) market retries max_bars include =
     Some (returned (binance_get_bars net bn symbol timeframe start (Some stop) market retries max_bars include))"
  "bybit_get_bars net by symbol timeframe start (Some stop) market retries max_bars include =
     Some (returned (bybit_get_bars net by symbol timeframe start (Some stop) market retries max_bars include))"
  using get_bars_return [of "Some stop" max_bars] by (auto simp: returned_def split: option.split)

subsection \<open>Bars of the public exchanges\<close>

lemma catch_row_Inr [res_simps]: "catch_row P e r = Inr x \<longleftrightarrow> r = Inr x"
  by (simp add: catch_row_def split: sum.split)

definition has_close :: "bar option res \<Rightarrow> bool" where
  "has_close r \<longleftrightarrow> (\<forall>b. r = Inr (Some b) \<longrightarrow> b_time_close b \<noteq> None)"

lemma bar_in_close: "bar_in u t vs timeframe = Inr b \<Longrightarrow> b_time_close b \<noteq> None"
  by (auto simp: bar_in_def plain_bar_def bindR_Inr)

lemma has_close_rows:
  "has_close (bindR (catch_public_row (indexed_bar u is row timeframe)) (\<lambda>b. Inr (Some b)))"
  "has_close (bindR (catch_public_row (named_bar u k ks row timeframe)) (\<lambda>b. Inr (Some b)))"
  using bar_in_close by (auto simp: has_close_def catch_public_row_def indexed_bar_def named_bar_def bindR_Inr catch_row_Inr)

lemma has_close_if: "has_close a \<Longrightarrow> has_close b \<Longrightarrow> has_close (if c then a else b)"
  by simp

lemma has_close_None: "has_close (Inr None)"
  by (simp add: has_close_def)

lemma row_close: "has_close (spot_row_bar exchange row timeframe)" "has_close (market_row_bar exchange row timeframe)"
  unfolding spot_row_bar_def market_row_bar_def Let_def if_distrib [of catch_public_row] if_distrib [of "\<lambda>r. bindR r _"]
  by (intro has_close_if has_close_rows has_close_None)+

lemma sorted_bars_close:
  assumes "sorted_bars_of f rows = Inr bars" and "\<And>row. has_close (f row)" and "b \<in> set bars"
  shows "b_time_close b \<noteq> None"
proof -
  obtain xs where xs: "mapR f rows = Inr xs" "bars = sort_key b_time (List.map_filter (\<lambda>b. b) xs)"
    using assms(1) by (auto simp: sorted_bars_of_def bindR_Inr)
  have "Some b \<in> set xs" using assms(3) by (auto simp: xs(2) map_filter_def)
  then obtain row where "f row = Inr (Some b)" using xs(1) unfolding mapR_list_all2 in_set_conv_nth list_all2_conv_all_nth by metis
  then show ?thesis using assms(2) unfolding has_close_def by blast
qed

lemma klines_close:
  "normalize_spot_klines ex payload timeframe = Inr bars \<Longrightarrow> b \<in> set bars \<Longrightarrow> b_time_close b \<noteq> None"
  "normalize_market_klines ex payload timeframe = Inr bars \<Longrightarrow> b \<in> set bars \<Longrightarrow> b_time_close b \<noteq> None"
  unfolding normalize_spot_klines_def normalize_market_klines_def bindR_Inr
  using sorted_bars_close row_close by blast+

lemma window_subset: "checked_window start stop bars = Inr out \<Longrightarrow> set out \<subseteq> set bars"
  unfolding checked_window_def Let_def bindR_Inr by auto

lemma spot_bars_close:
  assumes "public_spot_get_bars http iso_ms exchange symbol timeframe start stop = Inr bars" and "b \<in> set bars"
  shows "b_time_close b \<noteq> None"
proof -
  obtain ex payload klines where "normalize_spot_klines ex payload timeframe = Inr klines" "checked_window start stop klines = Inr bars"
    using assms(1) unfolding public_spot_get_bars_def Let_def by (auto simp: bindR_Inr split: if_splits prod.splits)
  then show ?thesis using window_subset assms(2) klines_close(1) by blast
qed

lemma market_bars_close:
  assumes "public_market_get_bars http iso_ms exchange market symbol timeframe start stop = Inr bars" and "b \<in> set bars"
  shows "b_time_close b \<noteq> None"
proof (cases "\<exists>ex. public_spot_get_bars http iso_ms ex symbol timeframe start stop = Inr bars")
  case True
  then show ?thesis using spot_bars_close assms(2) by blast
next
  case False
  then obtain ex payload klines where "normalize_market_klines ex payload timeframe = Inr klines" "checked_window start stop klines = Inr bars"
    using assms(1) unfolding public_market_get_bars_def Let_def by (auto simp: bindR_Inr split: if_splits prod.splits)
  then show ?thesis using window_subset assms(2) klines_close(2) by blast
qed

lemma public_client_bars:
  assumes "public_client net iso_ms query = Inr cs" and "c \<in> set cs"
  shows "\<exists>b t. c = PlainBar b \<and> b_time_close b = Some t"
proof -
  obtain bars where bars: "cs = map PlainBar bars" "\<And>b. b \<in> set bars \<Longrightarrow> b_time_close b \<noteq> None"
    using assms(1) spot_bars_close market_bars_close unfolding public_client_def Let_def bindR_Inr by (metis (no_types, lifting) sum.inject(2))
  then show ?thesis using assms(2) by fastforce
qed

lemma plain_refused:
  "b_time_close b = Some t \<Longrightarrow>
   market_bar_from_core query transport None (PlainBar b) = Inl (MDMissingFinality ''source bar is missing explicit finality'')"
  by (simp add: market_bar_from_core_def client_market_bar_def)

text \<open>
  C32. No bar of a public exchange can be served. Their clients give plain bars, which say nothing of
  finality, and the service asks every bar for it: whenever one of the eight public exchanges
  answers with at least one bar, fetching from it raises \<open>MDMissingFinality\<close>.
\<close>

theorem public_bars_refused:
  assumes "ik_exchange (q_instrument query) \<in> set supported_public_exchanges" and "public_client net iso_ms query = Inr cs"
  shows "fetch_from_sources (over_network net bn bb iso_ms include_open_candle sv) query =
     (if cs = [] then Inr [] else Inl (MDMissingFinality ''source bar is missing explicit finality''))"
proof -
  let ?ex = "ik_exchange (q_instrument query)"
  have "?ex \<noteq> ''binance''" "?ex \<noteq> ''bybit''" using assms(1) by (auto simp: supported_public_exchanges_def)
  then have fetch: "fetch_from_sources (over_network net bn bb iso_ms include_open_candle sv) query =
      bindR (mapR (market_bar_from_core query ''rest'' None) cs) (bind_source_identity (sv_hash sv) query ?ex ''rest'')"
    using assms by (simp add: fetch_from_sources_def public_fetch_def source_fetch_def over_network_def)
  show ?thesis
  proof (cases cs)
    case Nil
    then show ?thesis using fetch by (simp add: bind_source_identity_def)
  next
    case (Cons c rest)
    then obtain b t where "c = PlainBar b" "b_time_close b = Some t" using public_client_bars [OF assms(2)] by fastforce
    then show ?thesis using fetch plain_refused Cons by simp
  qed
qed

definition okx_query :: bar_query where
  "okx_query = \<lparr>q_instrument = \<lparr>ik_exchange = ''okx'', ik_market = ''spot'', ik_symbol = ''BTC-USDT''\<rparr>,
     q_timeframe = \<lparr>tf_raw = ''1m'', tf_canonical = ''1m'', tf_multiplier = 1, tf_unit = Minute, tf_duration_ms = Some 60000\<rparr>,
     q_start_ms = 0, q_end_ms = 60000, q_source = ''auto'', q_gap_policy = ''fail'', q_error_policy = ''raise''\<rparr>"

definition okx_network :: network where
  "okx_network n a url params =
     HttpResponse 200 None True (Inr (JObj [(''data'', JArr [JArr [JStr ''0'', JStr ''7'', JStr ''8'', JStr ''6'', JStr ''7'', JStr ''1'']])]))"

theorem public_bars_refused_witness:
  "\<forall>bn bb sv. fetch_from_sources (over_network okx_network bn bb (\<lambda>_. Inr []) False sv) okx_query =
     Inl (MDMissingFinality ''source bar is missing explicit finality'')"
proof -
  have e: "ik_exchange (q_instrument okx_query) \<in> set supported_public_exchanges" by code_simp
  have "case public_client okx_network (\<lambda>_. Inr []) okx_query of Inl _ \<Rightarrow> False | Inr cs \<Rightarrow> cs \<noteq> []" by code_simp
  then obtain cs where c: "public_client okx_network (\<lambda>_. Inr []) okx_query = Inr cs" "cs \<noteq> []" by (auto split: sum.splits)
  show ?thesis using public_bars_refused [OF e c(1)] c(2) by simp
qed

end
