(* ===== verification/Repair.thy ===== *)
theory Repair
  imports Klines Service
begin

section \<open>Audit and repair\<close>

text \<open>
  Models \<^verbatim>\<open>store/repair.py\<close>: the bars of a repair source, the audit of a stored series
  against them, and the repair that rewrites the series where it differs. The file of a source is the
  result of opening it; the member of the enumeration \<open>Finality\<close> that a text names belongs to the
  contracts package and is the parameter \<open>finality_of\<close>, true for \<open>FINAL\<close>. A repair log is written as
  JSON under its path; its temporary file is not modelled.
\<close>

record audit_issue =
  ai_code :: string
  ai_time :: int
  ai_message :: string

record audit_report =
  ar_ok :: bool
  ar_checked :: int
  ar_issues :: "audit_issue list"

record repair_log =
  rl_schema_version :: string
  rl_exchange :: string
  rl_market :: string
  rl_symbol :: string
  rl_timeframe :: string
  rl_policy :: string
  rl_checked :: int
  rl_changed :: int
  rl_issues :: "audit_issue list"
  rl_applied :: bool

subsection \<open>The bars of a source\<close>

definition has_text :: "string option \<Rightarrow> bool" where
  "has_text t \<longleftrightarrow> t \<noteq> None \<and> t \<noteq> Some []"

definition market_bar_from_bar :: "series_key \<Rightarrow> string \<Rightarrow> client_bar \<Rightarrow> market_bar res" where
  "market_bar_from_bar key source_transport c =
     (case c of
        PlainBar _ \<Rightarrow> Inl (MDMissingFinality ''repair source bar is missing explicit finality'')
      | ClientBar b \<Rightarrow>
          (if m_is_closed b = None then Inl (MDMissingFinality ''repair source bar is missing explicit finality'')
           else if b_time_close b = None then Inl (MDValidationError ''repair source bar is missing explicit close time'')
           else if m_is_closed b \<noteq> Some True then Inl (MDValidationError ''repair source bar must be FINAL'')
           else if m_provider b = [] \<or> \<not> has_text (m_provider_revision b)
             then Inl (MDValidationError ''repair source bar is missing provider identity'')
           else if \<not> list_all has_text [m_open_text b, m_high_text b, m_low_text b, m_close_text b, m_volume_text b]
             then Inl (MDValidationError ''repair source bar is missing exact source decimal text: '')
           else
             bindR (canonical_timeframe (sk_timeframe key)) (\<lambda>tf.
             market_bar_post_init (b\<lparr>m_exchange := py_lower (sk_exchange key), m_market := py_lower (sk_market key),
               m_symbol := py_upper (sk_symbol key), m_timeframe := tf, m_source_transport := source_transport,
               m_source_kind := sk_source_kind key, m_source := [], m_metadata := []\<rparr>))))"

text \<open>\<^verbatim>\<open>row.get(first) or row.get(second)\<close>, \<^const>\<open>None\<close> where that is missing or empty.\<close>

definition either_cell :: "csv_dict \<Rightarrow> string \<Rightarrow> string \<Rightarrow> string option" where
  "either_cell r first second = (case cell r first of Some v \<Rightarrow> Some v | None \<Rightarrow> cell r second)"

text \<open>What the rows of a source must name, up to the numbers: times, provider, revision and the five texts.\<close>

definition repair_revision :: "(revision_state \<Rightarrow> string) \<Rightarrow> csv_dict \<Rightarrow> (revision_state \<times> int) res" where
  "repair_revision rs r =
     (case (cell r ''revision_state'', cell r ''revision'') of
        (Some state, Some n) \<Rightarrow>
          (case revision_state_of rs state of
             None \<Rightarrow> Inl (MDValidationError ''repair source row revision identity is invalid'')
           | Some m \<Rightarrow>
               catch_row is_row_error (MDValidationError ''repair source row revision identity is invalid'')
                 (bindR (py_int n) (\<lambda>n. Inr (m, n))))
      | _ \<Rightarrow> Inl (MDValidationError ''repair source row revision identity is required''))"

definition repair_numbers :: "csv_dict \<Rightarrow> string \<Rightarrow> string \<Rightarrow> bar res" where
  "repair_numbers r time_raw close_raw =
     catch_row is_row_error (MDValidationError ''repair source row is invalid'')
       (bindR (py_int time_raw) (\<lambda>time.
        bindR (py_float (cell_text r ''open'' [])) (\<lambda>o'.
        bindR (py_float (cell_text r ''high'' [])) (\<lambda>h.
        bindR (py_float (cell_text r ''low'' [])) (\<lambda>l.
        bindR (py_float (cell_text r ''close'' [])) (\<lambda>c.
        bindR (py_float (cell_text r ''volume'' [])) (\<lambda>v.
        bindR (py_int close_raw) (\<lambda>time_close.
        Inr \<lparr>b_time = time, b_open = o', b_high = h, b_low = l, b_close = c, b_volume = v, b_time_close = Some time_close\<rparr>))))))))"

definition repair_row :: "(revision_state \<Rightarrow> string) \<Rightarrow> (string \<Rightarrow> bool option) \<Rightarrow> series_key \<Rightarrow> string \<Rightarrow> csv_dict \<Rightarrow> market_bar res" where
  "repair_row rs finality_of key source_transport r =
     (case cell r ''finality'' of
        None \<Rightarrow> Inl (MDMissingFinality ''repair source row finality is required'')
      | Some finality \<Rightarrow>
          if finality_of finality = None then Inl (MDValidationError ''repair source row finality is invalid'')
          else if finality_of finality \<noteq> Some True then Inl (MDValidationError ''repair source row must be FINAL'')
          else
            (case either_cell r ''time'' ''open_time'' of
               None \<Rightarrow> Inl (MDValidationError ''repair source row time is required'')
             | Some time_raw \<Rightarrow>
            (case either_cell r ''time_close'' ''close_time'' of
               None \<Rightarrow> Inl (MDValidationError ''repair source row time_close is required'')
             | Some close_raw \<Rightarrow>
                 if cell r ''provider'' = None \<or> cell r ''provider_revision'' = None
                 then Inl (MDValidationError ''repair source row provider identity is required'')
                 else if py_lower (cell_text r ''provider'' []) \<noteq> py_lower (sk_exchange key)
                 then Inl (MDValidationError ''repair source row provider does not match exchange'')
                 else
                   bindR (repair_revision rs r) (\<lambda>(revision_state, revision).
                   if \<not> list_all (\<lambda>name. cell r name \<noteq> None) [''open'', ''high'', ''low'', ''close'', ''volume'']
                   then Inl (MDValidationError ''repair source row is missing exact source decimal text: '')
                   else
                     bindR (repair_numbers r time_raw close_raw) (\<lambda>b.
                     bindR (market_bar_post_init (market_bar_defaults\<lparr>b_time := b_time b, b_open := b_open b, b_high := b_high b,
                        b_low := b_low b, b_close := b_close b, b_volume := b_volume b, b_time_close := b_time_close b,
                        m_is_closed := Some True, m_provider := cell_text r ''provider'' [],
                        m_provider_revision := cell r ''provider_revision'', m_revision_state := revision_state,
                        m_revision := revision, m_open_text := cell r ''open'', m_high_text := cell r ''high'',
                        m_low_text := cell r ''low'', m_close_text := cell r ''close'', m_volume_text := cell r ''volume''\<rparr>)) (\<lambda>m.
                     market_bar_from_bar key source_transport (ClientBar m)))))))"

text \<open>\<open>Path(path).suffix\<close>: from the last dot of the last component, unless it leads or ends it.\<close>

definition path_name :: "string \<Rightarrow> string" where
  "path_name path = (case filter (\<lambda>p. p \<noteq> [] \<and> p \<noteq> ''.'') (py_split (CHR ''/'') path) of [] \<Rightarrow> [] | ps \<Rightarrow> last ps)"

definition path_suffix :: "string \<Rightarrow> string" where
  "path_suffix path =
     (let name = path_name path;
          ext = rev (takeWhile (\<lambda>c. c \<noteq> CHR ''.'') (rev name)) in
      if length ext = 0 \<or> length ext + 1 \<ge> length name then [] else CHR ''.'' # ext)"

text \<open>The sort by time and revision is two stable sorts.\<close>

definition load_repair_source ::
  "(revision_state \<Rightarrow> string) \<Rightarrow> (string \<Rightarrow> bool option) \<Rightarrow> string \<Rightarrow> string res \<Rightarrow> series_key \<Rightarrow> string \<Rightarrow> market_bar list res" where
  "load_repair_source rs finality_of path opened key source_transport =
     (if py_lower (path_suffix path) \<noteq> ''.csv''
      then Inl (MDValidationError ''canonical repair source currently requires CSV'')
      else
        bindR opened (\<lambda>content.
        bindR (mapR (repair_row rs finality_of key source_transport) (dict_rows content)) (\<lambda>bars.
        Inr (sort_key b_time (sort_key m_revision bars)))))"

subsection \<open>The audit\<close>

text \<open>\<^verbatim>\<open>set(existing) - set(source)\<close>.\<close>

definition extra_times :: "(int \<times> market_bar) list \<Rightarrow> market_bar list \<Rightarrow> int list" where
  "extra_times existing source = filter (\<lambda>t. t \<notin> b_time ` set source) (map fst existing)"

definition audit_issue_of :: "(int \<times> market_bar) list \<Rightarrow> market_bar \<Rightarrow> audit_issue option" where
  "audit_issue_of existing s =
     (case map_of existing (b_time s) of
        None \<Rightarrow> Some \<lparr>ai_code = ''MD_AUDIT_MISSING_BAR'', ai_time = b_time s, ai_message = ''bar missing from finalized store''\<rparr>
      | Some cur \<Rightarrow>
          (if same_canonical_candle cur s then None
           else Some \<lparr>ai_code = ''MD_WS_REST_CANDLE_MISMATCH'', ai_time = b_time s, ai_message = ''stored candle differs from source candle''\<rparr>))"

definition audit_bars :: "bool \<Rightarrow> market_bar list \<Rightarrow> market_bar list \<Rightarrow> audit_report" where
  "audit_bars strict bars source =
     (let existing = dict_of b_time bars;
          issues = List.map_filter (audit_issue_of existing) source @
            (if strict then map (\<lambda>t. \<lparr>ai_code = ''MD_AUDIT_EXTRA_BAR'', ai_time = t,
                ai_message = ''bar exists in store but not in reconciliation source''\<rparr>) (sort (extra_times existing source)) else []) in
      \<lparr>ar_ok = (issues = []), ar_checked = int (length source), ar_issues = issues\<rparr>)"

definition audit_against_source ::
  "(byte list \<Rightarrow> byte list) \<Rightarrow> (revision_state \<Rightarrow> string) \<Rightarrow> series_key \<Rightarrow> bool \<Rightarrow> market_bar list \<Rightarrow> audit_report cio" where
  "audit_against_source sha rs key strict source =
     and_then (get_market_bars sha rs key None None) (\<lambda>bars cs. (Inr (audit_bars strict bars source), cs))"

subsection \<open>The repair\<close>

definition repair_step :: "(int \<times> market_bar) list \<times> int \<Rightarrow> market_bar \<Rightarrow> (int \<times> market_bar) list \<times> int" where
  "repair_step acc s =
     (case map_of (fst acc) (b_time s) of
        Some cur \<Rightarrow> if same_canonical_candle cur s then acc else (AList.update (b_time s) s (fst acc), snd acc + 1)
      | None \<Rightarrow> (AList.update (b_time s) s (fst acc), snd acc + 1))"

definition repair_changes :: "bool \<Rightarrow> market_bar list \<Rightarrow> market_bar list \<Rightarrow> (int \<times> market_bar) list \<times> int" where
  "repair_changes strict bars source =
     (let (existing, changed) = foldl repair_step (dict_of b_time bars, 0) source in
      if strict
      then let extra = sort (extra_times existing source) in
        (foldl (\<lambda>d t. AList.delete t d) existing extra, changed + int (length extra))
      else (existing, changed))"

definition repair_log_of :: "series_key \<Rightarrow> string \<Rightarrow> audit_report \<Rightarrow> int \<Rightarrow> bool \<Rightarrow> repair_log res" where
  "repair_log_of key policy report changed applied =
     bindR (canonical_timeframe (sk_timeframe key)) (\<lambda>tf.
     Inr \<lparr>rl_schema_version = ''stage-d-repair-1'', rl_exchange = py_lower (sk_exchange key), rl_market = py_lower (sk_market key),
          rl_symbol = py_upper (sk_symbol key), rl_timeframe = tf, rl_policy = policy, rl_checked = ar_checked report,
          rl_changed = changed, rl_issues = ar_issues report, rl_applied = applied\<rparr>)"

text \<open>
  Under the writer lock of the series the two reads find the lock taken and read at once, so they run
  no recovery of their own.
\<close>

definition repair_locked ::
  "(byte list \<Rightarrow> byte list) \<Rightarrow> (revision_state \<Rightarrow> string) \<Rightarrow> series_key \<Rightarrow> string \<Rightarrow> market_bar list \<Rightarrow> repair_log io" where
  "repair_locked sha rs key policy source st =
     (let strict = (policy = ''strict'') in
      case read_all_locked sha rs None None st of
        (Inl e, st1) \<Rightarrow> (Inl e, st1)
      | (Inr audited, st1) \<Rightarrow>
          (case read_all_locked sha rs None None st1 of
             (Inl e, st2) \<Rightarrow> (Inl e, st2)
           | (Inr bars, st2) \<Rightarrow>
               (let report = audit_bars strict audited source; (existing, changed) = repair_changes strict bars source in
                if changed = 0 then (repair_log_of key policy report changed False, st2)
                else case replace_all_locked sha rs key None (map snd existing) st2 of
                  (Inl e, st3) \<Rightarrow> (Inl e, st3)
                | (Inr _, st3) \<Rightarrow> (repair_log_of key policy report changed True, st3))))"

text \<open>The log of a repair, and where it goes.\<close>

definition repair_log_path :: "string \<Rightarrow> series_key \<Rightarrow> string res" where
  "repair_log_path root key =
     bindR (canonical_timeframe (sk_timeframe key)) (\<lambda>tf.
     Inr (root @ ''/repair-logs/'' @ py_lower (sk_exchange key) @ ''-'' @ py_lower (sk_market key) @ ''-'' @
          py_upper (sk_symbol key) @ ''-'' @ tf @ ''.json''))"

definition repair_log_json :: "repair_log \<Rightarrow> json" where
  "repair_log_json l =
     JObj [(''applied'', JBool (rl_applied l)), (''changed'', JInt (rl_changed l)), (''checked'', JInt (rl_checked l)),
           (''exchange'', JStr (rl_exchange l)),
           (''issues'', JArr (map (\<lambda>i. JObj [(''code'', JStr (ai_code i)), (''message'', JStr (ai_message i)), (''time'', JInt (ai_time i))]) (rl_issues l))),
           (''market'', JStr (rl_market l)), (''policy'', JStr (rl_policy l)), (''schema_version'', JStr (rl_schema_version l)),
           (''symbol'', JStr (rl_symbol l)), (''timeframe'', JStr (rl_timeframe l))]"

definition write_repair_log :: "string \<Rightarrow> repair_log \<Rightarrow> (string \<rightharpoonup> json) \<Rightarrow> (string \<rightharpoonup> json)" where
  "write_repair_log path l files = files(path \<mapsto> repair_log_json l)"

text \<open>The last step of a repair: its log, when a path was given.\<close>

definition log_repair :: "string option \<Rightarrow> repair_log res \<Rightarrow> (string \<rightharpoonup> json) \<Rightarrow> (string \<rightharpoonup> json)" where
  "log_repair log_path r files =
     (case (log_path, r) of (Some path, Inr l) \<Rightarrow> write_repair_log path l files | _ \<Rightarrow> files)"

text \<open>The repair of a series beside the files of the logs.\<close>

definition repair_from_source ::
  "(byte list \<Rightarrow> byte list) \<Rightarrow> (revision_state \<Rightarrow> string) \<Rightarrow> series_key \<Rightarrow> string \<Rightarrow> string option \<Rightarrow> market_bar list \<Rightarrow>
   (string \<rightharpoonup> json) \<times> candle_state \<Rightarrow> repair_log res \<times> (string \<rightharpoonup> json) \<times> candle_state" where
  "repair_from_source sha rs key policy log_path source state =
     (let r = on_series key (series_writer_lock key (repair_locked sha rs key policy source)) (snd state) in
      (fst r, log_repair log_path (fst r) (fst state), snd r))"

subsection \<open>What a repair leaves\<close>

text \<open>
  The specification: stored bars the source confirms, and those it does not name unless the policy is
  strict, with the bars of the source that are missing or differ.
\<close>

definition bar_at :: "market_bar list \<Rightarrow> int \<Rightarrow> market_bar option" where
  "bar_at bars t = find (\<lambda>b. b_time b = t) bars"

definition stays :: "bool \<Rightarrow> market_bar list \<Rightarrow> market_bar \<Rightarrow> bool" where
  "stays strict source b = (case bar_at source (b_time b) of None \<Rightarrow> \<not> strict | Some s \<Rightarrow> same_canonical_candle b s)"

definition differs :: "market_bar list \<Rightarrow> market_bar \<Rightarrow> bool" where
  "differs bars s = (case bar_at bars (b_time s) of None \<Rightarrow> True | Some b \<Rightarrow> \<not> same_canonical_candle b s)"

definition repaired :: "bool \<Rightarrow> market_bar list \<Rightarrow> market_bar list \<Rightarrow> market_bar list" where
  "repaired strict bars source = sort_key b_time (filter (stays strict source) bars @ filter (differs bars) source)"

lemma map_of_keyed: "keyed b_time d \<Longrightarrow> x \<in> set (map snd d) \<longleftrightarrow> map_of d (b_time x) = Some x"
  by (force simp: keyed_def image_iff dest: map_of_SomeD)

lemma keyed_values_distinct: "keyed b_time d \<Longrightarrow> distinct (map b_time (map snd d))"
proof -
  assume k: "keyed b_time d"
  then have "map (b_time \<circ> snd) d = map fst d" by (intro map_cong) (auto simp: keyed_def)
  then show ?thesis using k by (simp only: map_map keyed_def)
qed

lemma sort_by_time_distinct:
  fixes xs :: "market_bar list"
  shows "distinct (map b_time xs) \<Longrightarrow> distinct (map b_time (sort_key b_time xs))"
  by (simp add: distinct_map)

lemma sort_by_time_unique:
  fixes xs ys :: "market_bar list"
  assumes "set xs = set ys" and "distinct (map b_time xs)" and "distinct (map b_time ys)"
  shows "sort_key b_time xs = sort_key b_time ys"
proof -
  have "map b_time (sort_key b_time xs) = map b_time (sort_key b_time ys)"
    using assms by (intro sorted_distinct_set_unique sort_by_time_distinct) simp_all
  moreover have "inj_on b_time (set (sort_key b_time xs) \<union> set (sort_key b_time ys))"
    using assms by (simp add: distinct_map)
  ultimately show ?thesis by (rule map_inj_on)
qed

definition repaired_bar :: "market_bar option \<Rightarrow> market_bar \<Rightarrow> market_bar" where
  "repaired_bar cur s = (case cur of Some c \<Rightarrow> if same_canonical_candle c s then c else s | None \<Rightarrow> s)"

lemma bar_at_simps [simp]:
  "bar_at [] t = None" "bar_at (b # bs) t = (if b_time b = t then Some b else bar_at bs t)"
  by (simp_all add: bar_at_def)

lemma bar_at_None: "bar_at bars t = None \<longleftrightarrow> t \<notin> b_time ` set bars"
  by (induction bars) auto

lemma bar_at_time: "bar_at bars t = Some b \<Longrightarrow> b \<in> set bars \<and> b_time b = t"
  by (induction bars) (auto split: if_splits)

lemma bar_at_member: "distinct (map b_time bars) \<Longrightarrow> b \<in> set bars \<Longrightarrow> bar_at bars (b_time b) = Some b"
  by (induction bars) force+

lemma dict_of_bar_at: "distinct (map b_time bars) \<Longrightarrow> map_of (dict_of b_time bars) t = bar_at bars t"
  by (induction bars) (simp_all add: dict_of_distinct)

lemma differs_issue: "distinct (map b_time bars) \<Longrightarrow> differs bars s \<longleftrightarrow> audit_issue_of (dict_of b_time bars) s \<noteq> None"
  by (auto simp: differs_def audit_issue_of_def dict_of_bar_at split: option.splits)

lemma repair_step_get:
  "map_of (fst (repair_step (d, n) s)) t = (if t = b_time s then Some (repaired_bar (map_of d t) s) else map_of d t)"
  by (auto simp: repair_step_def repaired_bar_def update_conv' split: option.splits)

lemma repair_loop_get:
  assumes "distinct (map b_time source)"
  shows "map_of (fst (foldl repair_step (d, n) source)) t =
    (case bar_at source t of None \<Rightarrow> map_of d t | Some s \<Rightarrow> Some (repaired_bar (map_of d t) s))"
  using assms
proof (induction source arbitrary: d n)
  case (Cons s ss)
  obtain d' n' where d: "repair_step (d, n) s = (d', n')" by fastforce
  have "map_of d' t = (if t = b_time s then Some (repaired_bar (map_of d t) s) else map_of d t)"
    using repair_step_get [of d n s t] d by simp
  moreover have "bar_at ss t = None" if "t = b_time s" using Cons.prems that by (simp add: bar_at_None)
  ultimately show ?case using Cons.IH [of d' n'] Cons.prems d by (auto split: option.splits)
qed simp

lemma repair_loop_keyed: "keyed b_time d \<Longrightarrow> keyed b_time (fst (foldl repair_step (d, n) source))"
proof (induction source arbitrary: d n)
  case (Cons s ss)
  have "keyed b_time (fst (repair_step (d, n) s))"
    using Cons.prems by (auto simp: repair_step_def keyed_update split: option.splits)
  then show ?case using Cons.IH [of "fst (repair_step (d, n) s)" "snd (repair_step (d, n) s)"] by simp
qed simp

lemma delete_loop:
  "map_of (foldl (\<lambda>d t. AList.delete t d) d ts) t = (if t \<in> set ts then None else map_of d t)"
  "keyed b_time d \<Longrightarrow> keyed b_time (foldl (\<lambda>d t. AList.delete t d) d ts)"
proof (induction ts arbitrary: d)
  case (Cons k ts)
  {
    case 1
    show ?case using Cons.IH(1) [of "AList.delete k d"] by (simp add: delete_conv')
  next
    case 2
    then have "keyed b_time (AList.delete k d)"
      by (auto simp: keyed_def AList.delete_eq distinct_map_filter)
    then show ?case using Cons.IH(2) by simp
  }
qed simp_all

lemma extra_times_update:
  assumes "k \<in> b_time ` set source"
  shows "extra_times (AList.update k v d) source = extra_times d source"
  using assms by (induction d) (auto simp: extra_times_def)

lemma extra_times_loop:
  assumes "set ss \<subseteq> set source"
  shows "extra_times (fst (foldl repair_step (d, n) ss)) source = extra_times d source"
  using assms
proof (induction ss arbitrary: d n)
  case (Cons s ss)
  have "extra_times (fst (repair_step (d, n) s)) source = extra_times d source"
    using Cons.prems by (auto simp: repair_step_def extra_times_update split: option.splits)
  then show ?case using Cons.IH [of "fst (repair_step (d, n) s)" "snd (repair_step (d, n) s)"] Cons.prems by simp
qed simp

text \<open>With one bar per time, a repair changes as many bars as the audit reports.\<close>

lemma repair_loop_count:
  assumes "distinct (map b_time source)"
  shows "snd (foldl repair_step (d, n) source) = n + int (length (List.map_filter (audit_issue_of d) source))"
  using assms
proof (induction source arbitrary: d n)
  case Nil
  show ?case by (simp add: List.map_filter_simps)
next
  case (Cons s ss)
  obtain d' n' where d: "repair_step (d, n) s = (d', n')" by fastforce
  have same: "map_of d' t = map_of d t" if "t \<noteq> b_time s" for t using repair_step_get [of d n s t] d that by simp
  then have "audit_issue_of d' x = audit_issue_of d x" if "x \<in> set ss" for x
  proof -
    have "b_time x \<noteq> b_time s" using that Cons.prems by (metis distinct.simps(2) image_eqI list.set_map list.simps(9))
    then show ?thesis using same by (simp add: audit_issue_of_def)
  qed
  then have "List.map_filter (audit_issue_of d') ss = List.map_filter (audit_issue_of d) ss"
    by (auto simp: List.map_filter_def intro!: map_cong filter_cong)
  moreover have "n' = (case audit_issue_of d s of None \<Rightarrow> n | Some _ \<Rightarrow> n + 1)"
    using d by (auto simp: repair_step_def audit_issue_of_def split: option.splits if_splits)
  ultimately show ?case using Cons.IH [of d' n'] Cons.prems d
    by (auto simp: List.map_filter_simps split: option.splits)
qed

lemma repair_changes_count:
  assumes "distinct (map b_time source)"
  shows "snd (repair_changes strict bars source) = int (length (ar_issues (audit_bars strict bars source)))"
  using repair_loop_count [OF assms, of "dict_of b_time bars" 0] extra_times_loop [of source source "dict_of b_time bars" 0]
  by (auto simp: repair_changes_def audit_bars_def Let_def split: prod.splits)

lemma repair_changes_get:
  assumes "distinct (map b_time source)" and "distinct (map b_time bars)"
  shows "map_of (fst (repair_changes strict bars source)) t =
    (case bar_at source t of None \<Rightarrow> if strict then None else bar_at bars t | Some s \<Rightarrow> Some (repaired_bar (bar_at bars t) s))"
proof -
  obtain d n where l: "foldl repair_step (dict_of b_time bars, 0) source = (d, n)" by fastforce
  note at = dict_of_bar_at [OF assms(2)]
  have get: "map_of d t = (case bar_at source t of None \<Rightarrow> bar_at bars t | Some s \<Rightarrow> Some (repaired_bar (bar_at bars t) s))"
    using repair_loop_get [OF assms(1), of "dict_of b_time bars" 0 t] unfolding l at by simp
  have "t \<in> set (extra_times d source) \<longleftrightarrow> map_of d t \<noteq> None \<and> bar_at source t = None"
    by (auto simp: extra_times_def bar_at_None map_of_eq_None_iff)
  then show ?thesis using l get by (auto simp: repair_changes_def Let_def delete_loop(1) split: option.splits)
qed

lemma repair_changes_keyed: "keyed b_time (fst (repair_changes strict bars source))"
  using repair_loop_keyed [OF keyed_dict_of, of bars 0 source]
  by (auto simp: repair_changes_def Let_def delete_loop(2) split: prod.splits)

lemma repaired_members:
  assumes "distinct (map b_time source)" and "distinct (map b_time bars)"
  shows "x \<in> set (filter (stays strict source) bars @ filter (differs bars) source) \<longleftrightarrow>
    map_of (fst (repair_changes strict bars source)) (b_time x) = Some x"
proof -
  have bars: "x \<in> set bars \<longleftrightarrow> bar_at bars (b_time x) = Some x" and source: "x \<in> set source \<longleftrightarrow> bar_at source (b_time x) = Some x"
    using assms bar_at_member bar_at_time by blast+
  show ?thesis
    unfolding set_append set_filter Un_iff mem_Collect_eq bars source repair_changes_get [OF assms] stays_def differs_def
    by (auto simp: repaired_bar_def split: option.splits if_splits)
qed

lemma repaired_values:
  assumes "distinct (map b_time source)" and "distinct (map b_time bars)"
  shows "sort_key b_time (map snd (fst (repair_changes strict bars source))) = repaired strict bars source"
  unfolding repaired_def
proof (rule sort_by_time_unique)
  let ?d = "fst (repair_changes strict bars source)"
  let ?xs = "filter (stays strict source) bars @ filter (differs bars) source"
  show "set (map snd ?d) = set ?xs" using map_of_keyed [OF repair_changes_keyed] repaired_members [OF assms] by blast
  show "distinct (map b_time (map snd ?d))" by (rule keyed_values_distinct [OF repair_changes_keyed])
  have "b_time b \<noteq> b_time s" if "b \<in> set bars" "stays strict source b" "s \<in> set source" "differs bars s" for b s
  proof
    assume t: "b_time b = b_time s"
    have "bar_at bars (b_time s) = Some b" "bar_at source (b_time b) = Some s"
      using bar_at_member [OF assms(2) that(1)] bar_at_member [OF assms(1) that(3)] t by simp_all
    then show False using that(2,4) by (simp add: stays_def differs_def)
  qed
  then show "distinct (map b_time ?xs)"
    using assms by (auto simp: distinct_map_filter)
qed

text \<open>Where the source has its own candle for every time it names, the repaired bars pass its audit.\<close>

lemma repaired_get:
  assumes "distinct (map b_time source)" and "distinct (map b_time bars)"
  shows "bar_at (repaired strict bars source) t =
    (case bar_at source t of None \<Rightarrow> if strict then None else bar_at bars t | Some s \<Rightarrow> Some (repaired_bar (bar_at bars t) s))"
proof -
  let ?d = "fst (repair_changes strict bars source)"
  let ?r = "repaired strict bars source"
  have r: "?r = sort_key b_time (map snd ?d)" by (rule repaired_values [OF assms, symmetric])
  have "distinct (map b_time ?r)"
    unfolding r by (intro sort_by_time_distinct keyed_values_distinct repair_changes_keyed)
  then have at: "bar_at ?r t = Some x \<longleftrightarrow> x \<in> set ?r \<and> b_time x = t" for x
    using bar_at_member bar_at_time by metis
  have member: "x \<in> set ?r \<longleftrightarrow> map_of ?d (b_time x) = Some x" for x
    unfolding r using map_of_keyed [OF repair_changes_keyed, of x strict bars source] by simp
  have same: "bar_at ?r t = Some x \<longleftrightarrow> map_of ?d t = Some x" for x
    unfolding at member using keyed_get [OF repair_changes_keyed, of strict bars source t x] by (cases "b_time x = t") auto
  have "bar_at ?r t = map_of ?d t"
  proof (cases "map_of ?d t")
    case None
    then show ?thesis using same not_Some_eq by metis
  next
    case (Some x)
    then show ?thesis using same [of x] by simp
  qed
  then show ?thesis by (simp only: repair_changes_get [OF assms])
qed

lemma repaired_audit:
  assumes "distinct (map b_time source)" and "distinct (map b_time bars)" and "list_all (\<lambda>s. same_canonical_candle s s) source"
    and "distinct (map b_time (repaired strict bars source))"
  shows "audit_bars strict (repaired strict bars source) source = \<lparr>ar_ok = True, ar_checked = int (length source), ar_issues = []\<rparr>"
proof -
  let ?r = "repaired strict bars source"
  note at = dict_of_bar_at [OF assms(4)]
  have none: "audit_issue_of (dict_of b_time ?r) s = None" if "s \<in> set source" for s
    using that bar_at_member [OF assms(1) that] assms(3)
    by (auto simp: audit_issue_of_def at repaired_get [OF assms(1,2)] repaired_bar_def list_all_iff split: option.splits)
  have "t \<notin> set (extra_times (dict_of b_time ?r) source)" if strict for t
  proof
    assume "t \<in> set (extra_times (dict_of b_time ?r) source)"
    then have "bar_at source t = None" "bar_at ?r t \<noteq> None"
      unfolding at [symmetric] by (auto simp: extra_times_def bar_at_None map_of_eq_None_iff)
    then show False using repaired_get [OF assms(1,2), of strict t] that by simp
  qed
  then have "strict \<Longrightarrow> extra_times (dict_of b_time ?r) source = []" by (cases "extra_times (dict_of b_time ?r) source") auto
  moreover have "List.map_filter (audit_issue_of (dict_of b_time ?r)) source = []"
    using none by (simp add: List.map_filter_def filter_empty_conv)
  ultimately show ?thesis by (auto simp: audit_bars_def Let_def)
qed

subsection \<open>A repair against its specification\<close>

lemma repaired_sub: "set (repaired strict bars source) \<subseteq> set bars \<union> set source"
  by (auto simp: repaired_def)

text \<open>No change is needed exactly when nothing is reported, and then the bars are the repaired ones.\<close>

lemma repaired_unchanged:
  assumes "distinct (map b_time source)" and "bars_ok rs bars" and "snd (repair_changes strict bars source) = 0"
  shows "repaired strict bars source = bars"
proof -
  have d: "distinct (map b_time bars)" by (rule bars_ok_distinct [OF assms(2)])
  have none: "ar_issues (audit_bars strict bars source) = []" using repair_changes_count [OF assms(1), of strict bars] assms(3) by simp
  then have "List.map_filter (audit_issue_of (dict_of b_time bars)) source = []" by (simp add: audit_bars_def Let_def)
  then have issue: "s \<in> set source \<Longrightarrow> audit_issue_of (dict_of b_time bars) s = None" for s
    by (auto simp: List.map_filter_def filter_empty_conv)
  then have "\<not> differs bars s" if "s \<in> set source" for s
    using issue [OF that] by (simp add: differs_issue [OF d])
  moreover have "stays strict source b" if b: "b \<in> set bars" for b
  proof (cases "bar_at source (b_time b)")
    case None
    have "strict \<Longrightarrow> length (sort (extra_times (dict_of b_time bars) source)) = 0" using none by (simp add: audit_bars_def Let_def)
    then have "strict \<Longrightarrow> extra_times (dict_of b_time bars) source = []" by simp
    then have "\<not> strict"
      using None b by (auto simp: extra_times_def filter_empty_conv bar_at_None dict_of_distinct [OF d])
    then show ?thesis using None by (simp add: stays_def)
  next
    case (Some s)
    then show ?thesis using issue [of s] bar_at_time [OF Some] bar_at_member [OF d b]
      by (auto simp: stays_def audit_issue_of_def dict_of_bar_at [OF d] split: if_splits)
  qed
  ultimately have "filter (stays strict source) bars @ filter (differs bars) source = bars"
    by (simp add: filter_id_conv)
  then show ?thesis by (simp add: repaired_def sorted_bars [OF assms(2)])
qed

definition repairable ::
  "(byte list \<Rightarrow> byte list) \<Rightarrow> (revision_state \<Rightarrow> string) \<Rightarrow> series_key \<Rightarrow> bool \<Rightarrow> market_bar list option \<Rightarrow> market_bar list \<Rightarrow> bool" where
  "repairable sha rs key strict c source \<longleftrightarrow>
     rs_ok rs \<and> (\<exists>i. key_identity key = Inr i) \<and> distinct (map b_time source) \<and>
     list_all (\<lambda>s. same_canonical_candle s s) source \<and> list_all (encodable rs) source \<and>
     bars_ok rs (repaired strict (content c) source)"

lemma repair_locked_exact:
  assumes "repairable sha rs key (policy = ''strict'') c source" and "contains sha rs key c st"
  shows "\<exists>l st' c'. repair_locked sha rs key policy source st = (Inr l, st') \<and> contains sha rs key c' st' \<and>
    content c' = repaired (policy = ''strict'') (content c) source \<and>
    rl_issues l = ar_issues (audit_bars (policy = ''strict'') (content c) source) \<and>
    rl_changed l = int (length (rl_issues l)) \<and> rl_applied l = (rl_issues l \<noteq> [])"
proof -
  let ?strict = "policy = ''strict''"
  obtain d n where dn: "repair_changes ?strict (content c) source = (d, n)" by fastforce
  let ?report = "audit_bars ?strict (content c) source"
  obtain i where p: "rs_ok rs" "key_identity key = Inr i" "distinct (map b_time source)"
    "list_all (encodable rs) source" "bars_ok rs (repaired ?strict (content c) source)"
    using assms(1) by (auto simp: repairable_def)
  obtain st1 where r1: "read_all_locked sha rs None None st = (Inr (content c), st1)" "contains sha rs key c st1"
    using read_locked_contains [OF p(1) assms(2)] by blast
  obtain st2 where r2: "read_all_locked sha rs None None st1 = (Inr (content c), st2)" "contains sha rs key c st2"
    using read_locked_contains [OF p(1) r1(2)] by blast
  have ok: "bars_ok rs (content c)" by (rule contains_ok [OF r2(2)])
  have count: "n = int (length (ar_issues ?report))" using repair_changes_count [OF p(3), of ?strict "content c"] dn by simp
  obtain tf where tf: "canonical_timeframe (sk_timeframe key) = Inr tf" using p(2) by (auto simp: key_identity_def res_simps)
  show ?thesis
  proof (cases "n = 0")
    case True
    then have "repaired ?strict (content c) source = content c" using repaired_unchanged [OF p(3) ok] dn by simp
    then show ?thesis using r1 r2 dn True count tf by (auto simp: repair_locked_def Let_def repair_log_of_def)
  next
    case False
    let ?r = "repaired ?strict (content c) source"
    have v: "sort_key b_time (map snd d) = ?r"
      using repaired_values [OF p(3) bars_ok_distinct [OF ok], of ?strict] dn by simp
    have "set (map snd d) \<subseteq> set (content c) \<union> set source"
      using repaired_sub [of ?strict "content c" source] unfolding v [symmetric] by simp
    moreover have "list_all (encodable rs) (content c)"
      using r2(2) stored_encodable by (auto simp: contains_def content_def split: option.splits)
    ultimately have "list_all (encodable rs) (map snd d)" using p(4) by (auto simp: list_all_iff)
    then obtain m st3 where w: "replace_all_locked sha rs key None (map snd d) st2 = (Inr m, st3)" "stored sha rs key ?r st3"
      using replace_locked_stored [OF r2(2) p(2), of None "map snd d"] p(5) unfolding v by auto
    then show ?thesis using r1 r2 dn False count tf
      by (intro exI [of _ "Some ?r"] exI [of _ st3] exI) (auto simp: repair_locked_def Let_def repair_log_of_def contains_def content_def)
  qed
qed

text \<open>
  C4. A repair makes a series agree with its source. Given a source with one bar per time whose prices
  are numbers, repairing a series, whether it has a segment or not, returns; it leaves the stored
  bars that the source confirms, and under the lenient policy those it does not name, with the
  source's own bar wherever one was missing or differed. The log reports one issue per change and
  says whether anything was written, and an audit of the result against the same source finds nothing.
\<close>

theorem repair_then_audit:
  assumes "repairable sha rs key (policy = ''strict'') c source" and "contains sha rs key c (series_at path cs)"
    and "series_path key = Inr path"
  shows "\<exists>l files' cs' c' cs''. repair_from_source sha rs key policy log_path source (files, cs) = (Inr l, files', cs') \<and>
    contains sha rs key c' (series_at path cs') \<and> content c' = repaired (policy = ''strict'') (content c) source \<and>
    rl_changed l = int (length (rl_issues l)) \<and> rl_applied l = (rl_issues l \<noteq> []) \<and>
    (case log_path of None \<Rightarrow> files' = files | Some p \<Rightarrow> files' = files(p \<mapsto> repair_log_json l)) \<and>
    audit_against_source sha rs key (policy = ''strict'') source cs' =
      (Inr \<lparr>ar_ok = True, ar_checked = int (length source), ar_issues = []\<rparr>, cs'')"
proof -
  let ?strict = "policy = ''strict''"
  have p: "rs_ok rs" "distinct (map b_time source)" "list_all (\<lambda>s. same_canonical_candle s s) source"
    "bars_ok rs (repaired ?strict (content c) source)"
    using assms(1) by (simp_all add: repairable_def)
  obtain l st c' where r: "repair_locked sha rs key policy source (series_at path cs) = (Inr l, st)" "contains sha rs key c' st"
    "content c' = repaired ?strict (content c) source" "rl_changed l = int (length (rl_issues l))" "rl_applied l = (rl_issues l \<noteq> [])"
    using repair_locked_exact [OF assms(1,2)] by blast
  let ?cs = "put_series path st cs"
  have repair: "repair_from_source sha rs key policy log_path source (files, cs) = (Inr l, log_repair log_path (Inr l) files, ?cs)"
    using r(1) assms(3) by (simp add: repair_from_source_def on_series_def contains_locked [OF assms(2,3)] Let_def)
  obtain st' where "read_all_locked sha rs None None st = (Inr (content c'), st')"
    using read_locked_contains [OF p(1) r(2)] by blast
  then have "audit_against_source sha rs key ?strict source ?cs = (Inr (audit_bars ?strict (content c') source), put_series path st' ?cs)"
    using assms(3) by (simp add: audit_against_source_def and_then_def get_market_bars_def on_series_def read_all_def
        series_reader_lock_def contains_locked [OF r(2) assms(3)] Let_def)
  moreover have "audit_bars ?strict (content c') source = \<lparr>ar_ok = True, ar_checked = int (length source), ar_issues = []\<rparr>"
    unfolding r(3) using p(2) bars_ok_distinct [OF contains_ok [OF assms(2)]] p(3) bars_ok_distinct [OF p(4)] by (rule repaired_audit)
  moreover have "case log_path of None \<Rightarrow> log_repair log_path (Inr l) files = files
      | Some p \<Rightarrow> log_repair log_path (Inr l) files = files(p \<mapsto> repair_log_json l)"
    by (simp add: log_repair_def write_repair_log_def split: option.split)
  ultimately show ?thesis using repair r(2-5) by (intro exI [of _ l] exI [of _ "log_repair log_path (Inr l) files"] exI [of _ ?cs] exI [of _ c'] exI) simp
qed

lemma sample_repaired: "repaired True (content None) [sample_bar 60000, sample_bar 0] = [sample_bar 0, sample_bar 60000]"
  by (simp add: repaired_def content_def differs_def)

lemma sample_repairable: "repairable sample_sha sample_rs sample_key True None [sample_bar 60000, sample_bar 0]"
proof -
  have "list_all (\<lambda>s. same_canonical_candle s s) [sample_bar 60000, sample_bar 0]" by code_simp
  then show ?thesis using sample_rs_ok sample_identity sample_encodable sample_bars_ok(4)
    by (auto simp: repairable_def sample_repaired)
qed

theorem repair_then_audit_witness:
  "\<exists>path l files cs c. series_path sample_key = Inr path \<and>
     repair_from_source sample_sha sample_rs sample_key ''strict'' (Some ''log'') [sample_bar 60000, sample_bar 0] (Map.empty, empty_store) = (Inr l, files, cs) \<and>
     contains sample_sha sample_rs sample_key c (series_at path cs) \<and> content c = [sample_bar 0, sample_bar 60000] \<and>
     rl_changed l = int (length (rl_issues l)) \<and> files ''log'' = Some (repair_log_json l)"
proof -
  obtain path where path: "series_path sample_key = Inr path" using sample_path by blast
  have s: "repairable sample_sha sample_rs sample_key (''strict'' = ''strict'') None [sample_bar 60000, sample_bar 0]"
    using sample_repairable by simp
  from repair_then_audit [OF s empty_store_contains path, of "Some ''log''" Map.empty] path sample_repaired show ?thesis by auto
qed

text \<open>A source that names two candles of one time never agrees with a store, whatever was repaired.\<close>

lemma two_revisions_never_agree:
  assumes "s \<in> set source" and "s' \<in> set source" and "b_time s = b_time s'" and "m_close_text s \<noteq> m_close_text s'"
  shows "\<not> ar_ok (audit_bars strict bars source)"
proof
  assume "ar_ok (audit_bars strict bars source)"
  then have "x \<in> set source \<Longrightarrow> audit_issue_of (dict_of b_time bars) x = None" for x
    by (auto simp: audit_bars_def Let_def List.map_filter_def filter_empty_conv split: if_splits)
  then have "\<exists>c. map_of (dict_of b_time bars) (b_time x) = Some c \<and> same_canonical_candle c x" if "x \<in> set source" for x
    using that by (fastforce simp: audit_issue_of_def split: option.splits if_splits)
  from this [OF assms(1)] this [OF assms(2)] show False using assms(3,4) by (auto simp: same_canonical_candle_def)
qed

end
