(* ===== verification/RawStore.thy ===== *)
theory RawStore
  imports Footprint Klines SegmentState "HOL-Library.List_Lexorder" "HOL-Library.Char_ord"
begin

section \<open>The store of raw payloads\<close>

text \<open>
  Models \<^verbatim>\<open>store/raw_store.py\<close> with plain files: the optional package zstandard is not under
  \<^verbatim>\<open>src/\<close>, and without it the constructor refuses its format. A series has a directory, a
  partition of it a subdirectory; each holds data files, named by their digest, and one manifest. A data
  file is kept as the rows that its lines parse to, and the digest is over the lines that the rows
  are printed as.
\<close>

subsection \<open>Compact JSON\<close>

text \<open>\<^verbatim>\<open>json.dumps(v, sort_keys=True, separators=(",", ":"))\<close>.\<close>

definition json_escape :: "char \<Rightarrow> string" where
  "json_escape c =
     (let n = char_code c; esc = CHR 0x5C in
      if n = 34 \<or> n = 92 then [esc, c]
      else if n = 10 then [esc, CHR ''n'']
      else if n = 13 then [esc, CHR ''r'']
      else if n = 9 then [esc, CHR ''t'']
      else if n = 8 then [esc, CHR ''b'']
      else if n = 12 then [esc, CHR ''f'']
      else if n < 32 \<or> 126 < n then [esc, CHR ''u'', CHR ''0'', CHR ''0''] @ hexdigest (text_bytes [c])
      else [c])"

definition json_quote :: "string \<Rightarrow> string" where
  "json_quote s = CHR 0x22 # concat (map json_escape s) @ [CHR 0x22]"

fun commas :: "string list \<Rightarrow> string" where
  "commas [] = []"
| "commas [x] = x"
| "commas (x # y # xs) = x @ '','' @ commas (y # xs)"

fun json_dumps :: "json \<Rightarrow> string" where
  "json_dumps JNull = ''null''"
| "json_dumps (JBool b) = (if b then ''true'' else ''false'')"
| "json_dumps (JInt n) = str_of_int n"
| "json_dumps (JFloat x) = json_float_text x"
| "json_dumps (JStr s) = json_quote s"
| "json_dumps (JArr xs) = ''['' @ commas (map json_dumps xs) @ '']''"
| "json_dumps (JObj kvs) =
     ''{'' @ commas (map (\<lambda>kv. json_quote (fst kv) @ '':'' @ snd kv) (sort_key fst (map (\<lambda>kv. (fst kv, json_dumps (snd kv))) kvs))) @ ''}''"

subsection \<open>Batches\<close>

record raw_key =
  rk_exchange :: string
  rk_market :: string
  rk_symbol :: string
  rk_source_transport :: string
  rk_source_kind :: string

record raw_manifest =
  rm_schema_version :: string
  rm_exchange :: string
  rm_market :: string
  rm_symbol :: string
  rm_source_transport :: string
  rm_source_kind :: string
  rm_compression :: string
  rm_rows_count :: int
  rm_checksum :: string
  rm_file_name :: string

record raw_store =
  rw_files :: "(string \<times> json list) list"
  rw_manifests :: "(string \<times> raw_manifest) list"

text \<open>The constructor, without the package of the other format.\<close>

definition raw_store_new :: "string \<Rightarrow> raw_store res" where
  "raw_store_new compression =
     (if compression \<noteq> ''plain'' \<and> compression \<noteq> ''zstd''
      then Inl (MDUnsupportedFeature ''Unsupported raw compression: '')
      else if compression = ''zstd''
      then Inl (MDUnsupportedFeature ''RawStore zstd compression requires optional dependency zstandard; use plain NDJSON otherwise'')
      else Inr \<lparr>rw_files = [], rw_manifests = []\<rparr>)"

definition raw_series_dir :: "raw_key \<Rightarrow> string" where
  "raw_series_dir k =
     ''raw-v1/exchange='' @ py_lower (safe_path_part (rk_exchange k)) @ ''/market='' @ py_lower (safe_path_part (rk_market k)) @
     ''/symbol='' @ safe_path_part (rk_symbol k) @ ''/transport='' @ py_lower (safe_path_part (rk_source_transport k)) @
     ''/source='' @ py_lower (safe_path_part (rk_source_kind k))"

definition partition_prefix :: "raw_key \<Rightarrow> string" where
  "partition_prefix k = raw_series_dir k @ ''/partition=''"

definition raw_dir :: "raw_key \<Rightarrow> string \<Rightarrow> string" where
  "raw_dir k part = (if part = [] then raw_series_dir k else partition_prefix k @ safe_path_part part)"

definition raw_checksum :: "(byte list \<Rightarrow> byte list) \<Rightarrow> json list \<Rightarrow> string" where
  "raw_checksum sha rows = hexdigest (sha (text_bytes (concat (map (\<lambda>r. json_dumps r @ [CHR 0x0A]) rows))))"

definition raw_file_name :: "string \<Rightarrow> string" where
  "raw_file_name checksum = ''payloads-'' @ take 16 checksum @ ''.ndjson''"

definition write_batch :: "(byte list \<Rightarrow> byte list) \<Rightarrow> raw_key \<Rightarrow> string \<Rightarrow> json list \<Rightarrow> raw_store \<Rightarrow> raw_manifest \<times> raw_store" where
  "write_batch sha k part rows st =
     (let checksum = raw_checksum sha rows; d = raw_dir k part; name = raw_file_name checksum;
          manifest = \<lparr>rm_schema_version = ''stage-d-raw-1'', rm_exchange = py_lower (rk_exchange k), rm_market = py_lower (rk_market k),
            rm_symbol = py_upper (rk_symbol k), rm_source_transport = rk_source_transport k, rm_source_kind = rk_source_kind k,
            rm_compression = ''plain'', rm_rows_count = int (length rows), rm_checksum = checksum, rm_file_name = name\<rparr> in
      (manifest, st\<lparr>rw_files := AList.update (d @ ''/'' @ name) rows (rw_files st),
                    rw_manifests := AList.update d manifest (rw_manifests st)\<rparr>))"

definition read_batch :: "(byte list \<Rightarrow> byte list) \<Rightarrow> raw_key \<Rightarrow> string \<Rightarrow> raw_store \<Rightarrow> json list res" where
  "read_batch sha k part st =
     (let d = raw_dir k part in
      case map_of (rw_manifests st) d of
        None \<Rightarrow> Inr []
      | Some m \<Rightarrow>
          (case map_of (rw_files st) (d @ ''/'' @ rm_file_name m) of
             None \<Rightarrow> Inl (PyFileNotFoundError (rm_file_name m))
           | Some rows \<Rightarrow>
               if rm_compression m \<noteq> ''plain''
               then Inl (MDUnsupportedFeature ''Reading zstd RawStore payloads requires optional dependency zstandard'')
               else if raw_checksum sha rows \<noteq> rm_checksum m then Inl (MDUnsupportedFeature ''RawStore checksum mismatch'')
               else Inr rows))"

text \<open>The partitions of a series that have a manifest, in the order of their paths.\<close>

definition partition_names :: "raw_key \<Rightarrow> raw_store \<Rightarrow> string list" where
  "partition_names k st =
     map (drop (length (partition_prefix k)))
       (sort (filter (\<lambda>d. take (length (partition_prefix k)) d = partition_prefix k) (map fst (rw_manifests st))))"

definition read_partitions :: "(byte list \<Rightarrow> byte list) \<Rightarrow> raw_key \<Rightarrow> raw_store \<Rightarrow> json list res" where
  "read_partitions sha k st =
     bindR (if map_of (rw_manifests st) (raw_series_dir k) \<noteq> None then read_batch sha k [] st else Inr []) (\<lambda>root.
     bindR (mapR (\<lambda>p. read_batch sha k p st) (partition_names k st)) (\<lambda>batches.
     Inr (root @ concat batches)))"

definition inspect_raw :: "raw_store \<Rightarrow> raw_manifest list" where
  "inspect_raw st = map (\<lambda>d. the (map_of (rw_manifests st) d)) (sort (map fst (rw_manifests st)))"

subsection \<open>What is written is read\<close>

lemma read_written_batch:
  assumes "write_batch sha k part rows st = (m, st')"
  shows "read_batch sha k part st' = Inr rows"
  using assms by (auto simp: write_batch_def read_batch_def update_conv' Let_def)

end
