(* ===== verification/FootprintService.thy ===== *)
theory FootprintService
  imports RawStore Pagination
begin

section \<open>The footprint service\<close>

text \<open>
  Models \<^verbatim>\<open>footprint/service.py\<close>: footprints are served from the footprint store or
  aggregated from raw trades, which are kept in the raw store by day and fetched when the stored
  ones do not cover the query. The result is \<^const>\<open>None\<close> where the loop over pages of trades does not return.
\<close>

record footprint_service =
  fsv_raw :: raw_store
  fsv_store :: footprint_store

type_synonym trade_client = "footprint_query \<Rightarrow> agg_trade list res option"

text \<open>The client the service calls, over a network.\<close>

definition binance_trades_of :: "network \<Rightarrow> binance_config \<Rightarrow> trade_client" where
  "binance_trades_of net cfg q =
     binance_get_agg_trades net cfg (ik_symbol (fq_instrument q)) (fq_start_ms q) (fq_end_ms q) (Some (ik_market (fq_instrument q))) 3 None"

definition trades_key :: "footprint_query \<Rightarrow> raw_key" where
  "trades_key q = \<lparr>rk_exchange = ik_exchange (fq_instrument q), rk_market = ik_market (fq_instrument q), rk_symbol = ik_symbol (fq_instrument q),
     rk_source_transport = ''rest'', rk_source_kind = ''agg_trades''\<rparr>"

subsection \<open>Trades as rows\<close>

definition trade_row :: "agg_trade \<Rightarrow> json" where
  "trade_row t = JObj [(''trade_id'', JInt (at_trade_id t)), (''time'', JInt (at_time t)), (''price'', JFloat (at_price t)),
     (''quantity'', JFloat (at_quantity t)), (''buyer_maker'', JBool (at_buyer_maker t))]"

definition row_time :: "json \<Rightarrow> int res" where
  "row_time row = bindR (json_item row ''time'') json_int"

definition row_trade :: "json \<Rightarrow> agg_trade res" where
  "row_trade row =
     bindR (bindR (json_item row ''trade_id'') json_int) (\<lambda>trade_id.
     bindR (row_time row) (\<lambda>time.
     bindR (bindR (json_item row ''price'') json_float) (\<lambda>price.
     bindR (bindR (json_item row ''quantity'') json_float) (\<lambda>quantity.
     bindR (json_item row ''buyer_maker'') (\<lambda>m.
     Inr \<lparr>at_trade_id = trade_id, at_time = time, at_price = price, at_quantity = quantity, at_buyer_maker = json_truthy m\<rparr>)))))"

fun window_trades :: "int \<Rightarrow> int \<Rightarrow> json list \<Rightarrow> agg_trade list res" where
  "window_trades start stop [] = Inr []"
| "window_trades start stop (row # rows) =
     bindR (row_time row) (\<lambda>time.
       if start \<le> time \<and> time < stop
       then bindR (row_trade row) (\<lambda>t. bindR (window_trades start stop rows) (\<lambda>ts. Inr (t # ts)))
       else window_trades start stop rows)"

definition read_raw_trades :: "(byte list \<Rightarrow> byte list) \<Rightarrow> footprint_query \<Rightarrow> raw_store \<Rightarrow> agg_trade list res" where
  "read_raw_trades sha q st =
     bindR (read_partitions sha (trades_key q) st) (\<lambda>rows.
     bindR (window_trades (fq_start_ms q) (fq_end_ms q) rows) (\<lambda>trades.
     Inr (sorted_vals (dict_of at_trade_id trades))))"

definition two_digits :: "int \<Rightarrow> string" where
  "two_digits n = (if n < 10 then ''0'' else []) @ str_of_int n"

definition day_partition :: "int \<Rightarrow> string res" where
  "day_partition ms =
     bindR (dt ms) (\<lambda>(y, m, d). Inr (''day='' @ str_of_int y @ ''-'' @ two_digits m @ ''-'' @ two_digits d))"

text \<open>The rows of each day in the order the days come; a day that cannot be named raises before anything is written.\<close>

definition add_to_day :: "(string \<times> json list) list \<Rightarrow> string \<times> agg_trade \<Rightarrow> (string \<times> json list) list" where
  "add_to_day d pt = AList.update (fst pt) ((case map_of d (fst pt) of None \<Rightarrow> [] | Some rows \<Rightarrow> rows) @ [trade_row (snd pt)]) d"

definition trades_by_day :: "agg_trade list \<Rightarrow> (string \<times> json list) list res" where
  "trades_by_day trades =
     bindR (mapR (\<lambda>t. bindR (day_partition (at_time t)) (\<lambda>p. Inr (p, t))) trades) (\<lambda>pts. Inr (foldl add_to_day [] pts))"

definition write_raw_trades ::
  "(byte list \<Rightarrow> byte list) \<Rightarrow> footprint_query \<Rightarrow> agg_trade list \<Rightarrow> raw_store \<Rightarrow> unit res \<times> raw_store" where
  "write_raw_trades sha q trades st =
     (case trades_by_day trades of
        Inl e \<Rightarrow> (Inl e, st)
      | Inr days \<Rightarrow> (Inr (), foldl (\<lambda>st (p, rows). snd (write_batch sha (trades_key q) p rows st)) st days))"

subsection \<open>The pipeline\<close>

definition raw_covers :: "agg_trade list \<Rightarrow> footprint_query \<Rightarrow> bool" where
  "raw_covers trades q \<longleftrightarrow> trades \<noteq> [] \<and> at_time (hd trades) \<le> fq_start_ms q \<and> at_time (last trades) < fq_end_ms q"

definition ensure_raw_trades ::
  "(byte list \<Rightarrow> byte list) \<Rightarrow> trade_client \<Rightarrow> footprint_query \<Rightarrow> raw_store \<Rightarrow> (agg_trade list res \<times> raw_store) option" where
  "ensure_raw_trades sha client q st =
     (case read_raw_trades sha q st of
        Inl e \<Rightarrow> Some (Inl e, st)
      | Inr cached \<Rightarrow>
          if raw_covers cached q then Some (Inr cached, st)
          else if ik_exchange (fq_instrument q) \<noteq> ''binance''
          then Some (Inl (MDUnsupportedFeature ''Unsupported footprint exchange: ''), st)
          else
            (case client q of
               None \<Rightarrow> None
             | Some (Inl e) \<Rightarrow> Some (Inl e, st)
             | Some (Inr fetched) \<Rightarrow>
                 (case write_raw_trades sha q fetched st of
                    (Inl e, st') \<Rightarrow> Some (Inl e, st')
                  | (Inr _, st') \<Rightarrow> Some (read_raw_trades sha q st', st'))))"

definition coverage_for :: "footprint_query \<Rightarrow> footprint_bar list \<Rightarrow> coverage_report res" where
  "coverage_for q bars =
     (let duration = query_duration q; delivered = map fb_time bars in
      bindR (py_range (fq_start_ms q) (fq_end_ms q) duration) (\<lambda>starts.
      let missing = map (\<lambda>start. (start, min (start + duration) (fq_end_ms q))) (filter (\<lambda>start. start \<notin> set delivered) starts) in
      Inr \<lparr>cr_requested_start_ms = fq_start_ms q, cr_requested_end_ms = fq_end_ms q,
           cr_delivered_start_ms = (case bars of [] \<Rightarrow> None | b # _ \<Rightarrow> Some (fb_time b)),
           cr_delivered_end_ms = (case bars of [] \<Rightarrow> None | _ \<Rightarrow> Some (fb_time_close (last bars))),
           cr_missing_intervals = missing, cr_duplicate_timestamps = [], cr_source_mix = [''footprint''],
           cr_status = (if bars = [] then Empty else if missing \<noteq> [] then Gap else Valid)\<rparr>))"

definition refuse_gaps :: "string \<Rightarrow> footprint_query \<Rightarrow> footprint_series \<Rightarrow> footprint_series res" where
  "refuse_gaps message q s =
     (if fq_gap_policy q = ''fail'' \<and> \<not> is_complete (fs_coverage s) then Inl (MDUnsupportedFeature message) else Inr s)"

definition build_footprint ::
  "(byte list \<Rightarrow> byte list) \<Rightarrow> trade_client \<Rightarrow> footprint_query \<Rightarrow> footprint_service \<Rightarrow> (footprint_series res \<times> footprint_service) option" where
  "build_footprint sha client q sv =
     (case ensure_raw_trades sha client q (fsv_raw sv) of
        None \<Rightarrow> None
      | Some (Inl e, raw) \<Rightarrow> Some (Inl e, sv\<lparr>fsv_raw := raw\<rparr>)
      | Some (Inr trades, raw) \<Rightarrow>
          (let sv' = sv\<lparr>fsv_raw := raw\<rparr>; gap = refuse_gaps ''footprint coverage incomplete: '' q in
           case bindR (aggregate_trades_to_footprint trades q) (\<lambda>bars.
                bindR (coverage_for q bars) (\<lambda>coverage. Inr \<lparr>fs_query = q, fs_bars = bars, fs_coverage = coverage\<rparr>)) of
             Inl e \<Rightarrow> Some (Inl e, sv')
           | Inr series \<Rightarrow>
               if fs_bars series = [] then Some (gap series, sv')
               else
                 (case footprint_write (\<lambda>text. hexdigest (sha (text_bytes text))) series (fsv_store sv') of
                    Inl e \<Rightarrow> Some (Inl e, sv')
                  | Inr (_, store) \<Rightarrow> Some (bindR (footprint_read store q) gap, sv'\<lparr>fsv_store := store\<rparr>))))"

definition fetch_footprint ::
  "(byte list \<Rightarrow> byte list) \<Rightarrow> trade_client \<Rightarrow> footprint_query \<Rightarrow> footprint_service \<Rightarrow> (footprint_series res \<times> footprint_service) option" where
  "fetch_footprint sha client q sv =
     (if fq_source q \<in> {''storage'', ''auto''}
      then
        (case footprint_read (fsv_store sv) q of
           Inl e \<Rightarrow> Some (Inl e, sv)
         | Inr stored_series \<Rightarrow>
             if is_complete (fs_coverage stored_series) \<or> fq_source q = ''storage''
             then Some (refuse_gaps ''footprint storage coverage incomplete: '' q stored_series, sv)
             else build_footprint sha client q sv)
      else build_footprint sha client q sv)"

subsection \<open>Day partitions\<close>

definition day_char :: "char \<Rightarrow> bool" where
  "day_char c \<longleftrightarrow> is_digit c \<or> c = CHR ''-''"

lemma day_char_facts: "day_char c \<Longrightarrow> safe_char c \<and> char_upper c = c \<and> c \<notin> set ''._'' \<and> \<not> py_isspace c"
proof -
  have "char_upper CHR ''-'' = CHR ''-''" "safe_char CHR ''-''" "\<not> py_isspace CHR ''-''" by code_simp+
  moreover have "\<not> is_digit CHR ''.''" "\<not> is_digit CHR ''_''" by code_simp+
  then have "is_digit c \<Longrightarrow> c \<notin> set ''._''" by auto
  moreover assume "day_char c"
  ultimately show ?thesis using digit_not_space [of c]
    by (auto simp: day_char_def is_digit_def safe_char_def char_upper_def Let_def)
qed

lemma collapse_safe: "list_all safe_char xs \<Longrightarrow> collapse_unsafe b xs = xs"
  by (induction xs arbitrary: b) auto

lemma strip_chars_id: "s \<noteq> [] \<Longrightarrow> hd s \<notin> set cs \<Longrightarrow> last s \<notin> set cs \<Longrightarrow> strip_chars cs s = s"
  by (simp add: strip_chars_def dropWhile_id hd_rev)

lemma day_safe:
  assumes "list_all day_char s" and "s \<noteq> []"
  shows "safe_path_part (''day='' @ s) = ''DAY_'' @ s" "safe_path_part (''DAY_'' @ s) = ''DAY_'' @ s"
proof -
  have l: "day_char (last s)" using assms by (simp add: list_all_iff)
  have up: "py_upper s = s" using assms(1) day_char_facts by (auto simp: py_upper_def list_all_iff intro!: map_idI)
  have "\<not> py_isspace CHR ''d''" "\<not> py_isspace CHR ''D''" by code_simp+
  then have strip: "py_strip (''day='' @ s) = ''day='' @ s" "py_strip (''DAY_'' @ s) = ''DAY_'' @ s"
    using assms(2) day_char_facts [OF l] by (simp_all add: py_strip_ends)
  have pre: "py_upper ''day='' = ''DAY=''" "py_upper ''DAY_'' = ''DAY_''" "\<not> safe_char CHR ''=''" "list_all safe_char ''DAY_''"
    "safe_char CHR ''D''" "safe_char CHR ''A''" "safe_char CHR ''Y''" by code_simp+
  have safe: "list_all safe_char s" using assms(1) day_char_facts by (auto simp: list_all_iff)
  have ends: "strip_chars ''._'' (''DAY_'' @ s) = ''DAY_'' @ s"
    using assms(2) day_char_facts [OF l] by (intro strip_chars_id) simp_all
  have "collapse_unsafe False (''DAY='' @ s) = ''DAY_'' @ s" "collapse_unsafe False (''DAY_'' @ s) = ''DAY_'' @ s"
    using pre(3-7) safe by (simp_all add: collapse_safe)
  moreover have "py_upper (''day='' @ s) = ''DAY='' @ s" "py_upper (''DAY_'' @ s) = ''DAY_'' @ s"
    using up pre(1,2) by (simp_all add: py_upper_def)
  ultimately show "safe_path_part (''day='' @ s) = ''DAY_'' @ s" "safe_path_part (''DAY_'' @ s) = ''DAY_'' @ s"
    using ends unfolding safe_path_part_def strip by (simp_all add: Let_def)
qed

lemma int_day_chars: "list_all day_char (str_of_int n)"
  by (auto simp: str_of_int_def list_all_iff day_char_def dest: str_of_nat_digit_set)

definition day_names :: "string set" where
  "day_names = {''day='' @ s |s. list_all day_char s \<and> s \<noteq> []}"

lemma day_partition_name: "day_partition ms = Inr p \<Longrightarrow> p \<in> day_names"
proof -
  assume "day_partition ms = Inr p"
  then obtain y m d where "p = ''day='' @ str_of_int y @ ''-'' @ two_digits m @ ''-'' @ two_digits d"
    by (auto simp: day_partition_def res_simps)
  moreover have "is_digit CHR ''0''" by code_simp
  then have "list_all day_char (two_digits n)" for n
    using int_day_chars [of n] by (auto simp: two_digits_def day_char_def)
  moreover have "day_char CHR ''-''" by (simp add: day_char_def)
  ultimately show ?thesis using int_day_chars unfolding day_names_def
    by (intro CollectI exI [of _ "str_of_int y @ ''-'' @ two_digits m @ ''-'' @ two_digits d"]) simp
qed

definition day_dir :: "raw_key \<Rightarrow> string \<Rightarrow> string" where
  "day_dir k p = partition_prefix k @ safe_path_part p"

lemma day_dir_facts:
  assumes "p \<in> day_names"
  shows "raw_dir k p = day_dir k p" "raw_dir k (safe_path_part p) = day_dir k p" "inj_on (day_dir k) day_names"
    "take (length (partition_prefix k)) (day_dir k p) = partition_prefix k" "drop (length (partition_prefix k)) (day_dir k p) = safe_path_part p"
    "day_dir k p \<noteq> raw_series_dir k"
proof -
  have s: "safe_path_part (''day='' @ s) = ''DAY_'' @ s \<and> safe_path_part (''DAY_'' @ s) = ''DAY_'' @ s" if "list_all day_char s" "s \<noteq> []" for s
    using day_safe [OF that] by simp
  obtain s where p: "p = ''day='' @ s" "list_all day_char s" "s \<noteq> []" using assms by (auto simp: day_names_def)
  show "raw_dir k p = day_dir k p" "raw_dir k (safe_path_part p) = day_dir k p"
    using s [OF p(2,3)] by (simp_all add: raw_dir_def day_dir_def p(1))
  show "inj_on (day_dir k) day_names"
    using s by (auto simp: inj_on_def day_dir_def day_names_def)
  show "take (length (partition_prefix k)) (day_dir k p) = partition_prefix k" "drop (length (partition_prefix k)) (day_dir k p) = safe_path_part p"
    by (simp_all add: day_dir_def)
  show "day_dir k p \<noteq> raw_series_dir k" by (simp add: day_dir_def partition_prefix_def)
qed

lemma slash_split:
  assumes "CHR ''/'' \<notin> set s" and "CHR ''/'' \<notin> set s'" and "s @ CHR ''/'' # n = s' @ CHR ''/'' # n'"
  shows "s = s'"
proof -
  have "takeWhile (\<lambda>c. c \<noteq> CHR ''/'') (t @ CHR ''/'' # m) = t" if "CHR ''/'' \<notin> set t" for t m :: string
    using that by (induction t) auto
  from this [OF assms(1), of n] this [OF assms(2), of n'] show ?thesis using assms(3) by simp
qed

lemma day_file_inj:
  assumes "p \<in> day_names" and "p' \<in> day_names" and "day_dir k p @ ''/'' @ n = day_dir k p' @ ''/'' @ n'"
  shows "p = p'"
proof -
  obtain s s' where s: "p = ''day='' @ s" "list_all day_char s" "s \<noteq> []" and s': "p' = ''day='' @ s'" "list_all day_char s'" "s' \<noteq> []"
    using assms(1,2) by (auto simp: day_names_def)
  have "\<not> day_char CHR ''/''" by code_simp
  then have n: "CHR ''/'' \<notin> set s" "CHR ''/'' \<notin> set s'" using s(2) s'(2) by (auto simp: list_all_iff)
  have "s @ CHR ''/'' # n = s' @ CHR ''/'' # n'"
    using assms(3) day_safe(1) [OF s(2,3)] day_safe(1) [OF s'(2,3)] by (simp add: day_dir_def s(1) s'(1))
  from slash_split [OF n this] show ?thesis by (simp add: s(1) s'(1))
qed

subsection \<open>Trades written and read\<close>

lemma row_trade_row: "row_time (trade_row t) = Inr (at_time t)" "row_trade (trade_row t) = Inr t"
  by (simp_all add: row_time_def row_trade_def trade_row_def json_item_def obj_item_def)

lemma window_trade_rows: "window_trades start stop (map trade_row ts) = Inr (filter (\<lambda>t. start \<le> at_time t \<and> at_time t < stop) ts)"
  by (induction ts) (auto simp: row_trade_row)

definition rows_of :: "(string \<times> json list) list \<Rightarrow> string \<Rightarrow> json list" where
  "rows_of d p = (case map_of d p of None \<Rightarrow> [] | Some rows \<Rightarrow> rows)"

lemma add_to_day_rows: "rows_of (add_to_day d pt) p = rows_of d p @ (if p = fst pt then [trade_row (snd pt)] else [])"
  by (simp add: add_to_day_def rows_of_def update_conv')

lemma days_rows: "rows_of (foldl add_to_day d pts) p = rows_of d p @ map (\<lambda>pt. trade_row (snd pt)) (filter (\<lambda>pt. fst pt = p) pts)"
  by (induction pts arbitrary: d) (simp_all add: add_to_day_rows)

lemma days_keys:
  "distinct (map fst d) \<Longrightarrow> distinct (map fst (foldl add_to_day d pts))"
  "fst ` set (foldl add_to_day d pts) = fst ` set d \<union> fst ` set pts"
proof (induction pts arbitrary: d)
  case (Cons pt pts)
  {
    case 1
    then have "distinct (map fst (add_to_day d pt))" by (simp add: add_to_day_def distinct_update)
    then show ?case using Cons.IH(1) by simp
  next
    case 2
    have "fst ` set (add_to_day d pt) = insert (fst pt) (fst ` set d)"
      by (simp add: add_to_day_def dom_update [unfolded dom_map_of_conv_image_fst])
    then show ?case using Cons.IH(2) by simp
  }
qed simp_all

text \<open>A batch of another day leaves what a day holds.\<close>

lemma read_other_day:
  assumes "p \<in> day_names" and "p' \<in> day_names" and "p \<noteq> p'"
  shows "read_batch sha k p (snd (write_batch sha k p' rows st)) = read_batch sha k p st"
proof -
  have "day_dir k p \<noteq> day_dir k p'" using day_dir_facts(3) [OF assms(1)] assms by (auto dest: inj_onD)
  moreover have "day_dir k p @ ''/'' @ n \<noteq> day_dir k p' @ ''/'' @ n'" for n n' using day_file_inj [OF assms(1,2)] assms(3) by blast
  ultimately show ?thesis
    using day_dir_facts(1) [OF assms(1), of k] day_dir_facts(1) [OF assms(2), of k]
    by (simp add: read_batch_def write_batch_def Let_def update_conv' split: option.split)
qed

abbreviation write_days :: "(byte list \<Rightarrow> byte list) \<Rightarrow> raw_key \<Rightarrow> (string \<times> json list) list \<Rightarrow> raw_store \<Rightarrow> raw_store" where
  "write_days sha k days st \<equiv> foldl (\<lambda>st (p, rows). snd (write_batch sha k p rows st)) st days"

lemma write_days_other:
  assumes "p \<in> day_names" and "fst ` set days \<subseteq> day_names" and "p \<notin> fst ` set days"
  shows "read_batch sha k p (write_days sha k days st) = read_batch sha k p st"
  using assms(2,3)
proof (induction days arbitrary: st)
  case (Cons d days)
  then show ?case using read_other_day [OF assms(1), of "fst d" sha k "snd d" st] by (cases d) simp
qed simp

lemma write_days_read:
  assumes "distinct (map fst days)" and "fst ` set days \<subseteq> day_names" and "(p, rows) \<in> set days"
  shows "read_batch sha k p (write_days sha k days st) = Inr rows"
  using assms
proof (induction days arbitrary: st)
  case (Cons d days)
  show ?case
  proof (cases "d = (p, rows)")
    case True
    have "read_batch sha k p (snd (write_batch sha k p rows st)) = Inr rows"
      using read_written_batch [of sha k p rows st] by (cases "write_batch sha k p rows st") simp
    moreover have "p \<in> day_names" "p \<notin> fst ` set days" "fst ` set days \<subseteq> day_names" using Cons.prems True by auto
    ultimately show ?thesis using True by (simp add: write_days_other)
  next
    case False
    then show ?thesis using Cons by (cases d) auto
  qed
qed simp

lemma write_days_names:
  assumes "distinct (map fst days)" and "fst ` set days \<subseteq> day_names"
    and "filter (\<lambda>d. take (length (partition_prefix k)) d = partition_prefix k) (map fst (rw_manifests st)) = map (day_dir k) ps"
    and "set ps \<subseteq> day_names" and "set ps \<inter> fst ` set days = {}"
  shows "filter (\<lambda>d. take (length (partition_prefix k)) d = partition_prefix k) (map fst (rw_manifests (write_days sha k days st))) =
      map (day_dir k) (ps @ map fst days)"
  using assms
proof (induction days arbitrary: st ps)
  case (Cons d days)
  obtain p rows where d: "d = (p, rows)" by fastforce
  let ?st = "snd (write_batch sha k p rows st)"
  have p: "p \<in> day_names" "p \<notin> set ps" using Cons.prems(2,5) d by auto
  have "day_dir k p \<notin> day_dir k ` set ps" using p Cons.prems(4) day_dir_facts(3) [OF p(1), of k] by (auto dest: inj_onD)
  moreover have "day_dir k p \<in> fst ` set (rw_manifests st) \<Longrightarrow> day_dir k p \<in> set (map (day_dir k) ps)"
    unfolding Cons.prems(3) [symmetric] using day_dir_facts(4) [OF p(1)] by auto
  ultimately have "day_dir k p \<notin> fst ` set (rw_manifests st)" by auto
  then have "map fst (rw_manifests ?st) = map fst (rw_manifests st) @ [day_dir k p]"
    using day_dir_facts(1) [OF p(1), of k] by (simp add: write_batch_def Let_def update_nonexist)
  then have "filter (\<lambda>d. take (length (partition_prefix k)) d = partition_prefix k) (map fst (rw_manifests ?st)) = map (day_dir k) (ps @ [p])"
    using Cons.prems(3) day_dir_facts(4) [OF p(1)] by simp
  from Cons.IH [OF _ _ this] show ?case using Cons.prems p d by auto
qed simp

lemma write_days_root: "fst ` set days \<subseteq> day_names \<Longrightarrow>
  map_of (rw_manifests (write_days sha k days st)) (raw_series_dir k) = map_of (rw_manifests st) (raw_series_dir k)"
proof (induction days arbitrary: st)
  case (Cons d days)
  obtain p rows where d: "d = (p, rows)" by fastforce
  then have "p \<in> day_names" using Cons.prems by simp
  then have "map_of (rw_manifests (snd (write_batch sha k p rows st))) (raw_series_dir k) = map_of (rw_manifests st) (raw_series_dir k)"
    using day_dir_facts(1,6) [of p k] by (simp add: write_batch_def Let_def update_conv')
  then show ?case using Cons d by simp
qed simp

lemma found: "find P xs = Some x \<Longrightarrow> x \<in> set xs \<and> P x"
  by (induction xs) (auto split: if_splits)

lemma mapR_of_map: "(\<And>x. x \<in> set xs \<Longrightarrow> f (g x) = Inr (h x)) \<Longrightarrow> mapR f (map g xs) = Inr (map h xs)"
  by (induction xs) auto

text \<open>A raw store with nothing of this series.\<close>

definition no_batches :: "raw_key \<Rightarrow> raw_store \<Rightarrow> bool" where
  "no_batches k st \<longleftrightarrow> map_of (rw_manifests st) (raw_series_dir k) = None \<and>
     filter (\<lambda>d. take (length (partition_prefix k)) d = partition_prefix k) (map fst (rw_manifests st)) = []"

lemma read_written_days:
  assumes "no_batches k st" and "distinct (map fst days)" and "fst ` set days \<subseteq> day_names"
  shows "\<exists>ps. mset ps = mset (map fst days) \<and> read_partitions sha k (write_days sha k days st) = Inr (concat (map (rows_of days) ps))"
proof -
  let ?st = "write_days sha k days st"
  let ?ps = "sort_key (day_dir k) (map fst days)"
  have days: "p \<in> set ?ps \<Longrightarrow> p \<in> day_names" for p using assms(3) by auto
  have "filter (\<lambda>d. take (length (partition_prefix k)) d = partition_prefix k) (map fst (rw_manifests ?st)) = map (day_dir k) (map fst days)"
    using write_days_names [OF assms(2,3), of k st "[]"] assms(1) by (simp add: no_batches_def)
  moreover have "sort (map (day_dir k) (map fst days)) = map (day_dir k) ?ps"
    by (rule properties_for_sort) (simp_all add: multiset.map_comp)
  ultimately have names: "partition_names k ?st = map safe_path_part ?ps"
    using days day_dir_facts(5) by (simp add: partition_names_def)
  have "read_batch sha k (safe_path_part p) ?st = Inr (rows_of days p)" if "p \<in> set ?ps" for p
  proof -
    obtain rows where r: "(p, rows) \<in> set days" using \<open>p \<in> set ?ps\<close> by auto
    have "read_batch sha k (safe_path_part p) ?st = read_batch sha k p ?st"
      using day_dir_facts(1,2) [OF days [OF that], of k] by (simp add: read_batch_def)
    then show ?thesis using write_days_read [OF assms(2,3) r] r assms(2) by (simp add: rows_of_def)
  qed
  then have "mapR (\<lambda>p. read_batch sha k p ?st) (map safe_path_part ?ps) = Inr (map (rows_of days) ?ps)"
    by (rule mapR_of_map)
  then have "read_partitions sha k ?st = Inr (concat (map (rows_of days) ?ps))"
    using write_days_root [OF assms(3), of sha k st] assms(1) names by (simp add: read_partitions_def no_batches_def)
  then show ?thesis by (intro exI [of _ ?ps] conjI) simp_all
qed

text \<open>By identifier, the trades read are the trades written, in whatever order their days come.\<close>

lemma sorted_by_id:
  fixes ts us :: "agg_trade list"
  assumes "set ts = set us" and "distinct (map at_trade_id us)"
  shows "sorted_vals (dict_of at_trade_id ts) = sort_key at_trade_id us"
proof -
  have inj: "inj_on at_trade_id (set us)" using assms(2) by (simp add: distinct_map)
  have "find (\<lambda>x. at_trade_id x = at_trade_id t) (rev ts) = Some t \<longleftrightarrow> t \<in> set ts" for t
  proof
    assume "t \<in> set ts"
    then obtain u where u: "find (\<lambda>x. at_trade_id x = at_trade_id t) (rev ts) = Some u"
      by (cases "find (\<lambda>x. at_trade_id x = at_trade_id t) (rev ts)") (auto simp: find_None_iff)
    then have "u \<in> set ts" "at_trade_id u = at_trade_id t" using found by fastforce+
    then have "u = t" using inj \<open>t \<in> set ts\<close> assms(1) by (auto dest: inj_onD)
    with u show "find (\<lambda>x. at_trade_id x = at_trade_id t) (rev ts) = Some t" by simp
  qed (auto dest: found)
  then have set: "set (sorted_vals (dict_of at_trade_id ts)) = set us"
    using sorted_vals_set [OF keyed_dict_of, of _ at_trade_id ts] assms(1) by (auto simp: dict_of_get)
  have "distinct (map at_trade_id (sort_key at_trade_id us))" using assms(2) by (simp add: distinct_map)
  moreover have "sorted_wrt (<) (map at_trade_id (sorted_vals (dict_of at_trade_id ts)))" by (rule sorted_vals_strict [OF keyed_dict_of])
  ultimately have "map at_trade_id (sorted_vals (dict_of at_trade_id ts)) = map at_trade_id (sort_key at_trade_id us)"
    using set by (intro sorted_distinct_set_unique) (simp_all add: strict_sorted_iff)
  then show ?thesis using inj set by (intro map_inj_on [of at_trade_id]) simp_all
qed

definition nameable :: "agg_trade list \<Rightarrow> bool" where
  "nameable trades \<longleftrightarrow> (\<forall>t \<in> set trades. case day_partition (at_time t) of Inl _ \<Rightarrow> False | Inr _ \<Rightarrow> True)"

definition in_query :: "footprint_query \<Rightarrow> agg_trade \<Rightarrow> bool" where
  "in_query q t \<longleftrightarrow> fq_start_ms q \<le> at_time t \<and> at_time t < fq_end_ms q"

lemma raw_trades_stored:
  assumes "no_batches (trades_key q) st" and "nameable trades" and "distinct (map at_trade_id trades)"
  shows "\<exists>st'. write_raw_trades sha q trades st = (Inr (), st') \<and>
    (\<forall>q'. trades_key q' = trades_key q \<longrightarrow> read_raw_trades sha q' st' = Inr (sort_key at_trade_id (filter (in_query q') trades)))"
proof -
  define name :: "agg_trade \<Rightarrow> string" where "name t = (case day_partition (at_time t) of Inr p \<Rightarrow> p | Inl _ \<Rightarrow> [])" for t
  have name: "day_partition (at_time t) = Inr (name t)" if "t \<in> set trades" for t
    using assms(2) that by (auto simp: nameable_def name_def split: sum.splits)
  define days where "days = foldl add_to_day [] (map (\<lambda>t. (name t, t)) trades)"
  have "mapR (\<lambda>t. bindR (day_partition (at_time t)) (\<lambda>p. Inr (p, t))) trades = Inr (map (\<lambda>t. (name t, t)) trades)"
    using name by (intro mapR_Inr) simp
  then have days: "trades_by_day trades = Inr days" by (simp add: trades_by_day_def days_def)
  have keys: "distinct (map fst days)" "fst ` set days = name ` set trades"
    using days_keys [of "[]" "map (\<lambda>t. (name t, t)) trades"] by (auto simp: days_def image_image)
  then have named: "fst ` set days \<subseteq> day_names" using name day_partition_name by auto
  have rows: "rows_of days p = map trade_row (filter (\<lambda>t. name t = p) trades)" for p
    by (simp add: days_def days_rows filter_map o_def) (simp add: rows_of_def)
  obtain ps where ps: "mset ps = mset (map fst days)"
    "read_partitions sha (trades_key q) (write_days sha (trades_key q) days st) = Inr (concat (map (rows_of days) ps))"
    using read_written_days [OF assms(1) keys(1) named] by blast
  let ?ts = "concat (map (\<lambda>p. filter (\<lambda>t. name t = p) trades) ps)"
  have "set ps = name ` set trades" using mset_eq_setD [OF ps(1)] keys(2) by simp
  then have ts: "set ?ts = set trades" by auto
  have m: "map (rows_of days) ps = map (\<lambda>p. map trade_row (filter (\<lambda>t. name t = p) trades)) ps" by (rule map_cong [OF refl rows])
  have flat: "concat (map (rows_of days) ps) = map trade_row ?ts" unfolding m by (simp add: map_concat o_def)
  have "read_raw_trades sha q' (write_days sha (trades_key q) days st) = Inr (sort_key at_trade_id (filter (in_query q') trades))"
    if k: "trades_key q' = trades_key q" for q'
  proof -
    have "distinct (map at_trade_id (filter (in_query q') trades))" using assms(3) by (rule distinct_map_filter)
    moreover have "set (filter (in_query q') ?ts) = set (filter (in_query q') trades)" using ts by auto
    ultimately have "sorted_vals (dict_of at_trade_id (filter (in_query q') ?ts)) = sort_key at_trade_id (filter (in_query q') trades)"
      by (intro sorted_by_id)
    moreover have "window_trades (fq_start_ms q') (fq_end_ms q') (map trade_row ?ts) = Inr (filter (in_query q') ?ts)"
      unfolding window_trade_rows in_query_def ..
    ultimately show ?thesis using ps(2) unfolding read_raw_trades_def k flat by simp
  qed
  then show ?thesis using days by (simp add: write_raw_trades_def)
qed

text \<open>
  C38. Fetched trades are kept. On a raw store that holds nothing of a series, writing trades with distinct
  identifiers, however they spread over days, succeeds, and every later query of the series
  reads back exactly the trades of its window, ordered by identifier.
\<close>

theorem raw_trades_round_trip:
  assumes "no_batches (trades_key q) st" and "nameable trades" and "distinct (map at_trade_id trades)"
  shows "\<exists>st'. write_raw_trades sha q trades st = (Inr (), st') \<and>
    (\<forall>q'. trades_key q' = trades_key q \<longrightarrow> read_raw_trades sha q' st' = Inr (sort_key at_trade_id (filter (in_query q') trades)))"
  using raw_trades_stored [OF assms] .

text \<open>The first trade of a window decides whether what is stored covers it.\<close>

lemma read_window: "read_raw_trades sha q st = Inr ts \<Longrightarrow> t \<in> set ts \<Longrightarrow> in_query q t"
proof -
  assume "read_raw_trades sha q st = Inr ts" and t: "t \<in> set ts"
  then obtain rows trades where w: "window_trades (fq_start_ms q) (fq_end_ms q) rows = Inr trades" "ts = sorted_vals (dict_of at_trade_id trades)"
    by (auto simp: read_raw_trades_def res_simps)
  have "t \<in> set trades" using t w(2) sorted_vals_set [OF keyed_dict_of, of t at_trade_id trades] by (auto simp: dict_of_get dest: found)
  moreover have "window_trades a b xs = Inr us \<Longrightarrow> u \<in> set us \<Longrightarrow> a \<le> at_time u \<and> at_time u < b" for a b xs us u
  proof (induction xs arbitrary: us)
    case (Cons x xs)
    have "row_trade x = Inr v \<Longrightarrow> row_time x = Inr (at_time v)" for v by (auto simp: row_trade_def res_simps)
    with Cons show ?case by (fastforce simp: res_simps split: if_splits)
  qed simp
  ultimately show ?thesis using w(1) by (auto simp: in_query_def)
qed

lemma covers_first:
  assumes "read_raw_trades sha q st = Inr ts"
  shows "raw_covers ts q \<longleftrightarrow> ts \<noteq> [] \<and> at_time (hd ts) = fq_start_ms q"
proof (cases "ts = []")
  case False
  then have "in_query q (hd ts)" "in_query q (last ts)" using read_window [OF assms] by simp_all
  then show ?thesis by (auto simp: raw_covers_def in_query_def)
qed (simp add: raw_covers_def)

text \<open>
  C39. Stored trades that begin a window are taken for the whole of it. Once the trades of some window were
  stored, the first of them at its start, a query of the same series with the same start and any
  later end is answered with those trades alone: no client is asked for the rest.
\<close>

theorem stored_prefix_taken_for_window:
  assumes "no_batches (trades_key q) st" and "nameable trades" and "distinct (map at_trade_id trades)" and "trades \<noteq> []"
    and "\<forall>t \<in> set trades. in_query q t" and "at_time (hd (sort_key at_trade_id trades)) = fq_start_ms q"
    and "q' = q\<lparr>fq_end_ms := stop\<rparr>" and "fq_end_ms q \<le> stop"
  shows "\<exists>st'. write_raw_trades sha q trades st = (Inr (), st') \<and>
    (\<forall>client. ensure_raw_trades sha client q' st' = Some (Inr (sort_key at_trade_id trades), st'))"
proof -
  have "trades_key q' = trades_key q" by (simp add: assms(7) trades_key_def)
  moreover have "filter (in_query q') trades = trades"
    using assms(5,7,8) by (force simp: in_query_def filter_id_conv)
  ultimately obtain st' where w: "write_raw_trades sha q trades st = (Inr (), st')" "read_raw_trades sha q' st' = Inr (sort_key at_trade_id trades)"
    using raw_trades_stored [OF assms(1-3), of sha] by metis
  have "sort_key at_trade_id trades \<noteq> []" using assms(4) by (metis set_empty set_sort)
  then have "raw_covers (sort_key at_trade_id trades) q'" using covers_first [OF w(2)] assms(6,7) by simp
  then show ?thesis using w by (simp add: ensure_raw_trades_def)
qed

subsection \<open>Samples\<close>

definition sample_trade :: "int \<Rightarrow> int \<Rightarrow> agg_trade" where
  "sample_trade i t = \<lparr>at_trade_id = i, at_time = t, at_price = f_of_int 7, at_quantity = f_of_int 1, at_buyer_maker = False\<rparr>"

definition sample_footprint_query :: "int \<Rightarrow> footprint_query" where
  "sample_footprint_query stop =
     \<lparr>fq_instrument = \<lparr>ik_exchange = ''binance'', ik_market = ''spot'', ik_symbol = ''BTCUSDT''\<rparr>,
      fq_timeframe = \<lparr>tf_raw = ''1m'', tf_canonical = ''1m'', tf_multiplier = 1, tf_unit = Minute, tf_duration_ms = Some 60000\<rparr>,
      fq_start_ms = 86340000, fq_end_ms = stop, fq_price_bucket = Some (f_of_int 10), fq_tick_size = None, fq_ticks_per_row = 1,
      fq_source = ''auto'', fq_gap_policy = ''fail''\<rparr>"

definition sample_trades :: "agg_trade list" where
  "sample_trades = [sample_trade 2 86400000, sample_trade 1 86340000]"

lemma sample_trades_ok: "no_batches k \<lparr>rw_files = [], rw_manifests = []\<rparr>" "nameable sample_trades" "distinct (map at_trade_id sample_trades)"
proof -
  show "nameable sample_trades" by code_simp
qed (simp_all add: no_batches_def sample_trades_def sample_trade_def)

lemma sample_trades_sorted: "sort_key at_trade_id sample_trades = [sample_trade 1 86340000, sample_trade 2 86400000]"
  by (simp add: sample_trades_def sample_trade_def)

theorem raw_trades_round_trip_witness:
  "\<exists>st. write_raw_trades (\<lambda>_. []) (sample_footprint_query 86460000) sample_trades \<lparr>rw_files = [], rw_manifests = []\<rparr> = (Inr (), st) \<and>
     read_raw_trades (\<lambda>_. []) (sample_footprint_query 86460000) st = Inr [sample_trade 1 86340000, sample_trade 2 86400000]"
proof -
  have "filter (in_query (sample_footprint_query 86460000)) sample_trades = sample_trades"
    by (simp add: sample_trades_def sample_trade_def in_query_def sample_footprint_query_def)
  then show ?thesis
    using raw_trades_round_trip [OF sample_trades_ok, where q = "sample_footprint_query 86460000" and sha = "\<lambda>_. []"] sample_trades_sorted by metis
qed

theorem stored_prefix_taken_for_window_witness:
  "\<exists>st. write_raw_trades (\<lambda>_. []) (sample_footprint_query 86460000) sample_trades \<lparr>rw_files = [], rw_manifests = []\<rparr> = (Inr (), st) \<and>
     (\<forall>client. ensure_raw_trades (\<lambda>_. []) client (sample_footprint_query 172800000) st =
       Some (Inr [sample_trade 1 86340000, sample_trade 2 86400000], st))"
proof -
  have "sample_trades \<noteq> []" "\<forall>t \<in> set sample_trades. in_query (sample_footprint_query 86460000) t"
    by (simp_all add: sample_trades_def sample_trade_def in_query_def sample_footprint_query_def)
  moreover have "at_time (hd (sort_key at_trade_id sample_trades)) = fq_start_ms (sample_footprint_query 86460000)"
    unfolding sample_trades_sorted by (simp add: sample_trade_def sample_footprint_query_def)
  moreover have "sample_footprint_query 172800000 = (sample_footprint_query 86460000)\<lparr>fq_end_ms := 172800000\<rparr>"
    "fq_end_ms (sample_footprint_query 86460000) \<le> 172800000"
    by (simp_all add: sample_footprint_query_def)
  ultimately show ?thesis
    using stored_prefix_taken_for_window [OF sample_trades_ok] unfolding sample_trades_sorted by blast
qed

end
