(* ===== verification/Canonical.thy ===== *)
theory Canonical
  imports Decimals Symbols SegmentRows JsonValues
begin

section \<open>Canonical bars and snapshots\<close>

text \<open>
  Models \<^verbatim>\<open>canonical/envelope.py\<close> and \<^verbatim>\<open>canonical/bar.py\<close>: bars as mappings that
  carry their revision and the hash of the bar they supersede, and the snapshot that resolves the
  revisions of a window and accounts for its gaps. The package openpine_contracts is not under
  \<^verbatim>\<open>src/\<close>: its functions are the record \<open>contracts\<close>. A member of one of its enumerations is its text,
  which is what its parser takes as well. A mapping is the list of its items in their order.
\<close>

type_synonym dict = "(string \<times> json) list"

record contracts =
  ct_finality :: "string \<Rightarrow> bool"
  ct_final :: string
  ct_open :: string
  ct_rs :: "revision_state \<Rightarrow> string"
  ct_decimal_string :: "json \<Rightarrow> string option"
  ct_hash :: "json \<Rightarrow> string \<Rightarrow> string"
  ct_seal :: "dict \<Rightarrow> string \<Rightarrow> dict"
  ct_validate :: "string \<Rightarrow> dict \<Rightarrow> unit res"
  ct_verify :: "dict \<Rightarrow> string \<Rightarrow> bool"
  ct_serializer_id :: string
  ct_hash_alg :: string

subsection \<open>Envelopes (\<^verbatim>\<open>canonical/envelope.py\<close>)\<close>

definition bar_schema_id :: string where "bar_schema_id = ''openpine.marketdata.bar.v2''"
definition snapshot_schema_id :: string where "snapshot_schema_id = ''openpine.marketdata.v2''"

definition revision_json :: "string \<Rightarrow> json" where
  "revision_json r = JObj [(''known'', JBool True), (''revision'', JStr r)]"

definition known_provider_revision :: "json \<Rightarrow> string res" where
  "known_provider_revision v =
     (case v of JStr r \<Rightarrow> if r = [] then Inl (MDValidationError ''provider_revision revision is required'') else Inr r
      | _ \<Rightarrow> Inl (MDValidationError ''provider_revision revision is required''))"

text \<open>The revision of a typed identity.\<close>

definition normalize_provider_revision :: "json \<Rightarrow> string res" where
  "normalize_provider_revision v =
     (case v of
        JObj d \<Rightarrow>
          (if set (map fst d) \<noteq> {''known'', ''revision''}
           then Inl (MDValidationError ''provider_revision must contain known and revision'')
           else if obj_get d ''known'' \<noteq> JBool True
           then Inl (MDValidationError ''provider_revision must be known in production'')
           else known_provider_revision (obj_get d ''revision''))
      | _ \<Rightarrow> Inl (MDValidationError ''provider_revision must be a typed identity''))"

definition lower_hex :: "char \<Rightarrow> bool" where
  "lower_hex c \<longleftrightarrow> c \<in> set ''0123456789abcdef''"

definition nonzero_hex :: "nat \<Rightarrow> string \<Rightarrow> bool" where
  "nonzero_hex n s \<longleftrightarrow> length s = n \<and> list_all lower_hex s \<and> \<not> list_all (\<lambda>c. c = CHR ''0'') s"

definition validate_artifact_identity :: "json \<Rightarrow> json \<Rightarrow> (string \<times> string) res" where
  "validate_artifact_identity producer_commit stack_id =
     (case producer_commit of
        JStr commit \<Rightarrow>
          (if \<not> nonzero_hex 40 commit then Inl (MDValidationError ''producer_commit must be an exact nonzero 40-hex commit'')
           else
             (case stack_id of
                JStr stack \<Rightarrow>
                  (if starts_with ''sha256:'' stack \<and> nonzero_hex 64 (drop 7 stack) then Inr (commit, stack)
                   else Inl (MDValidationError ''stack_id must be an exact nonzero sha256 manifest hash''))
              | _ \<Rightarrow> Inl (MDValidationError ''stack_id must be an exact nonzero sha256 manifest hash'')))
      | _ \<Rightarrow> Inl (MDValidationError ''producer_commit must be an exact nonzero 40-hex commit''))"

definition envelope_metadata :: "contracts \<Rightarrow> json \<Rightarrow> json \<Rightarrow> json \<Rightarrow> dict res" where
  "envelope_metadata ct producer_commit stack_id created_at =
     bindR (validate_artifact_identity producer_commit stack_id) (\<lambda>(commit, stack).
     (case created_at of
        JInt n \<Rightarrow>
          (if n < 0 then Inl (MDValidationError ''created_at_utc_ms must be a nonnegative integer'')
           else Inr [(''schema_version'', JStr ''2.1.0''), (''producer'', JStr ''marketdata-provider''),
                     (''producer_version'', JStr ''5.0.0-rc.5''), (''producer_commit'', JStr commit), (''stack_id'', JStr stack),
                     (''created_at_utc_ms'', JInt n), (''serializer_id'', JStr (ct_serializer_id ct)),
                     (''content_hash_alg'', JStr (ct_hash_alg ct))])
      | _ \<Rightarrow> Inl (MDValidationError ''created_at_utc_ms must be a nonnegative integer'')))"

definition seal_and_validate :: "contracts \<Rightarrow> string \<Rightarrow> dict \<Rightarrow> dict res" where
  "seal_and_validate ct schema_id payload =
     (let sealed = ct_seal ct payload schema_id in
      bindR (ct_validate ct schema_id sealed) (\<lambda>_.
      if \<not> ct_verify ct sealed schema_id then Inl (MDValidationError ''content_hash verification failed after sealing'')
      else Inr sealed))"

subsection \<open>Fields\<close>

definition supported_timeframes :: "string list" where
  "supported_timeframes =
     [''1s'', ''1m'', ''3m'', ''5m'', ''15m'', ''30m'', ''1h'', ''2h'', ''4h'', ''6h'', ''12h'', ''1D'', ''1W'', ''1M'']"

definition required_bar_fields :: "string list" where
  "required_bar_fields =
     [''instrument_id'', ''timeframe'', ''open_time_utc_ms'', ''close_time_utc_ms'', ''open'', ''high'', ''low'', ''close'',
      ''volume'', ''finality'', ''revision_state'', ''revision'', ''snapshot_id'', ''provider'', ''provider_revision'',
      ''series_id'', ''bar_content_hash'', ''superseded_bar_hash'']"

definition bar_finality_text :: "contracts \<Rightarrow> int \<Rightarrow> int option \<Rightarrow> string res" where
  "bar_finality_text ct close_time server_time =
     (case server_time of
        None \<Rightarrow> Inl (MDValidationError ''server_time_ms required'')
      | Some now \<Rightarrow> Inr (if close_time \<le> now then ct_final ct else ct_open ct))"

definition required_text :: "json \<Rightarrow> string res" where
  "required_text v = (case v of JStr s \<Rightarrow> if s = [] then Inl (MDValidationError '' is required'') else Inr s
     | _ \<Rightarrow> Inl (MDValidationError '' is required''))"

definition integer_field :: "json \<Rightarrow> int res" where
  "integer_field v = (case v of JInt n \<Rightarrow> if n < 0 then Inl (MDValidationError '' must be >= 0'') else Inr n
     | _ \<Rightarrow> Inl (MDValidationError '' must be an integer''))"

definition canonical_timeframe_field :: "json \<Rightarrow> string res" where
  "canonical_timeframe_field v =
     bindR (required_text v) (\<lambda>timeframe.
     case canonical_timeframe timeframe of
       Inl (MDTimeframeUnsupported _) \<Rightarrow> Inl (MDValidationError ''unsupported timeframe: '')
     | Inl e \<Rightarrow> Inl e
     | Inr normalized \<Rightarrow>
         (if normalized \<noteq> timeframe then Inl (MDValidationError ''canonical timeframe required: '')
          else if normalized \<notin> set supported_timeframes then Inl (MDValidationError ''unsupported timeframe: '')
          else Inr normalized))"

definition normalize_finality :: "contracts \<Rightarrow> json \<Rightarrow> string res" where
  "normalize_finality ct v =
     (case v of
        JNull \<Rightarrow> Inl (MDMissingFinality ''finality is required'')
      | JBool _ \<Rightarrow> Inl (MDValidationError ''finality bool is invalid'')
      | JStr s \<Rightarrow> if ct_finality ct s then Inr s else Inl (MDValidationError ''unknown finality: '')
      | _ \<Rightarrow> Inl (MDValidationError ''finality must be a Finality value''))"

definition normalize_revision_state :: "contracts \<Rightarrow> json \<Rightarrow> revision_state res" where
  "normalize_revision_state ct v =
     (case v of
        JBool _ \<Rightarrow> Inl (MDValidationError ''revision_state bool is invalid'')
      | JStr s \<Rightarrow> (case revision_state_of (ct_rs ct) s of Some m \<Rightarrow> Inr m | None \<Rightarrow> Inl (MDValidationError ''unknown revision_state: ''))
      | _ \<Rightarrow> Inl (MDValidationError ''revision_state must be a RevisionState value''))"

definition normalize_revision :: "json \<Rightarrow> revision_state \<Rightarrow> int res" where
  "normalize_revision v state =
     bindR (integer_field v) (\<lambda>revision.
       if state = ORIGINAL \<and> revision \<noteq> 0 then Inl (MDValidationError ''ORIGINAL revision must be 0'')
       else if state \<noteq> ORIGINAL \<and> revision = 0 then Inl (MDValidationError '' revision must be >= 1'')
       else Inr revision)"

definition decimal_field :: "contracts \<Rightarrow> json \<Rightarrow> string res" where
  "decimal_field ct v =
     (case v of
        JFloat _ \<Rightarrow> Inl (MDValidationError '' float is forbidden on contract boundary'')
      | _ \<Rightarrow> (case ct_decimal_string ct v of Some s \<Rightarrow> Inr s | None \<Rightarrow> Inl (MDValidationError ''invalid '')))"

definition decimal_le :: "decimal \<Rightarrow> decimal \<Rightarrow> bool res" where
  "decimal_le a b = bindR (decimal_lt b a) (\<lambda>less. Inr (\<not> less))"

definition decimal_min2 :: "decimal \<Rightarrow> decimal \<Rightarrow> decimal res" where
  "decimal_min2 a b = bindR (decimal_lt b a) (\<lambda>less. Inr (if less then b else a))"

definition decimal_max2 :: "decimal \<Rightarrow> decimal \<Rightarrow> decimal res" where
  "decimal_max2 a b = bindR (decimal_lt a b) (\<lambda>less. Inr (if less then b else a))"

text \<open>\<^verbatim>\<open>low <= min(open, close) <= max(open, close) <= high\<close>, left to right.\<close>

definition ohlc_ordered :: "decimal \<Rightarrow> decimal \<Rightarrow> decimal \<Rightarrow> decimal \<Rightarrow> bool res" where
  "ohlc_ordered o' h l c =
     bindR (decimal_min2 o' c) (\<lambda>least.
     bindR (decimal_le l least) (\<lambda>first.
     if \<not> first then Inr False
     else bindR (decimal_max2 o' c) (\<lambda>most.
       bindR (decimal_le least most) (\<lambda>second. if \<not> second then Inr False else decimal_le most h))))"

record price_texts =
  pt_open :: string
  pt_high :: string
  pt_low :: string
  pt_close :: string
  pt_volume :: string

definition validated_prices :: "contracts \<Rightarrow> json \<Rightarrow> json \<Rightarrow> json \<Rightarrow> json \<Rightarrow> json \<Rightarrow> price_texts res" where
  "validated_prices ct o' h l c v =
     bindR (decimal_field ct o') (\<lambda>os. bindR (decimal_field ct h) (\<lambda>hs. bindR (decimal_field ct l) (\<lambda>ls.
     bindR (decimal_field ct c) (\<lambda>cs. bindR (decimal_field ct v) (\<lambda>vs.
     bindR (decimal_of_text vs) (\<lambda>vd. bindR (decimal_lt vd (DFin 0 0)) (\<lambda>negative.
     if negative then Inl (MDValidationError ''volume must be nonnegative'')
     else
       bindR (decimal_of_text os) (\<lambda>od. bindR (decimal_of_text hs) (\<lambda>hd. bindR (decimal_of_text ls) (\<lambda>ld. bindR (decimal_of_text cs) (\<lambda>cd.
       bindR (ohlc_ordered od hd ld cd) (\<lambda>ordered.
       if \<not> ordered then Inl (MDValidationError ''OHLC invariants violated'')
       else Inr \<lparr>pt_open = os, pt_high = hs, pt_low = ls, pt_close = cs, pt_volume = vs\<rparr>))))))))))))"

definition canonical_close_time :: "string \<Rightarrow> int \<Rightarrow> json \<Rightarrow> int res" where
  "canonical_close_time timeframe open_time supplied =
     bindR (close_time_ms open_time timeframe) (\<lambda>expected.
     if supplied = JNull then Inr expected
     else bindR (integer_field supplied) (\<lambda>close.
       if close \<noteq> expected then Inl (MDValidationError ''close_time_utc_ms does not match canonical timeframe boundary'')
       else Inr close))"

definition identity_fields :: "string list" where
  "identity_fields =
     [''series_id'', ''instrument_id'', ''timeframe'', ''open_time_utc_ms'', ''close_time_utc_ms'', ''open'', ''high'', ''low'',
      ''close'', ''volume'', ''finality'', ''revision_state'', ''revision'', ''provider'', ''provider_revision'', ''superseded_bar_hash'']"

definition bar_identity_payload :: "dict \<Rightarrow> json" where
  "bar_identity_payload bar = JObj (map (\<lambda>k. (k, obj_get bar k)) identity_fields)"

definition bar_content_hash :: "contracts \<Rightarrow> dict \<Rightarrow> string" where
  "bar_content_hash ct bar = ct_hash ct (bar_identity_payload bar) ''openpine.marketdata.bar.v2''"

definition superseded_hash :: "json \<Rightarrow> revision_state \<Rightarrow> string option res" where
  "superseded_hash v state =
     (if state = ORIGINAL
      then (if v \<noteq> JNull then Inl (MDValidationError ''ORIGINAL superseded_bar_hash must be null'') else Inr None)
      else
        (case v of
           JStr s \<Rightarrow>
             (if \<not> starts_with ''sha256:'' s \<or> length s \<noteq> 71
              then Inl (MDValidationError '' superseded_bar_hash must bind the preceding canonical bar'') else Inr (Some s))
         | _ \<Rightarrow> Inl (MDValidationError '' superseded_bar_hash must bind the preceding canonical bar'')))"

definition opt_str :: "string option \<Rightarrow> json" where
  "opt_str v = (case v of None \<Rightarrow> JNull | Some s \<Rightarrow> JStr s)"

subsection \<open>Making a bar\<close>

record bar_request =
  mk_instrument_id :: json
  mk_timeframe :: json
  mk_open_time :: json
  mk_open :: json
  mk_high :: json
  mk_low :: json
  mk_close :: json
  mk_volume :: json
  mk_snapshot_id :: json
  mk_provider :: json
  mk_provider_revision :: json
  mk_producer_commit :: json
  mk_stack_id :: json
  mk_superseded :: json
  mk_finality :: json
  mk_revision_state :: json
  mk_revision :: json
  mk_close_time :: json
  mk_created_at :: json

text \<open>The order of the checks is the order of the calls; \<open>now\<close> is what the clock shows.\<close>

definition make_canonical_bar :: "contracts \<Rightarrow> int \<Rightarrow> bar_request \<Rightarrow> dict res" where
  "make_canonical_bar ct now r =
     bindR (required_text (mk_instrument_id r)) (\<lambda>instrument.
     bindR (canonical_timeframe_field (mk_timeframe r)) (\<lambda>tf.
     bindR (required_text (mk_snapshot_id r)) (\<lambda>snapshot.
     bindR (required_text (mk_provider r)) (\<lambda>provider.
     bindR (normalize_provider_revision (mk_provider_revision r)) (\<lambda>provider_revision.
     bindR (integer_field (mk_open_time r)) (\<lambda>open_ms.
     bindR (normalize_finality ct (mk_finality r)) (\<lambda>finality.
     bindR (normalize_revision_state ct (mk_revision_state r)) (\<lambda>state.
     bindR (normalize_revision (mk_revision r) state) (\<lambda>revision.
     bindR (superseded_hash (mk_superseded r) state) (\<lambda>lineage.
     bindR (validated_prices ct (mk_open r) (mk_high r) (mk_low r) (mk_close r) (mk_volume r)) (\<lambda>p.
     bindR (canonical_close_time tf open_ms (mk_close_time r)) (\<lambda>close_ms.
     bindR (envelope_metadata ct (mk_producer_commit r) (mk_stack_id r)
              (if mk_created_at r = JNull then JInt now else mk_created_at r)) (\<lambda>meta.
     let envelope = [(''schema_id'', JStr bar_schema_id)] @ meta @
           [(''instrument_id'', JStr instrument), (''timeframe'', JStr tf), (''open_time_utc_ms'', JInt open_ms),
            (''close_time_utc_ms'', JInt close_ms), (''open'', JStr (pt_open p)), (''high'', JStr (pt_high p)),
            (''low'', JStr (pt_low p)), (''close'', JStr (pt_close p)), (''volume'', JStr (pt_volume p)),
            (''finality'', JStr finality), (''revision_state'', JStr (ct_rs ct state)), (''revision'', JInt revision),
            (''snapshot_id'', JStr snapshot), (''provider'', JStr provider), (''provider_revision'', revision_json provider_revision),
            (''series_id'', JStr (instrument @ '':'' @ tf)), (''superseded_bar_hash'', opt_str lineage)] in
     seal_and_validate ct bar_schema_id (envelope @ [(''bar_content_hash'', JStr (bar_content_hash ct envelope))]))))))))))))))"

end
