(* ===== verification/Snapshots.thy ===== *)
theory Snapshots
  imports Canonical Samples
begin

section \<open>Snapshots of canonical bars\<close>

text \<open>
  Models \<open>build_data_snapshot\<close> of \<^verbatim>\<open>canonical/bar.py\<close> and what it calls: bars are checked one by
  one, the bars of one opening time are resolved to the last of their revision chain, and the window
  is accounted for. A normalised bar keeps the mapping that leaves the function beside the values
  that the code reads from it; the content hash and the provider are texts, since the schema was
  checked when they are read.
\<close>

record snapshot_bar =
  sb_dict :: dict
  sb_open :: int
  sb_close :: int
  sb_finality :: string
  sb_state :: revision_state
  sb_revision :: int
  sb_provider :: json
  sb_hash :: string
  sb_superseded :: "string option"

subsection \<open>One bar\<close>

definition set_field :: "string \<Rightarrow> json \<Rightarrow> dict \<Rightarrow> dict" where
  "set_field k v d = AList.update k v d"

definition missing_field :: "dict \<Rightarrow> string option" where
  "missing_field bar = find (\<lambda>k. k \<notin> set (map fst bar)) required_bar_fields"

definition normalized_dict ::
  "contracts \<Rightarrow> dict \<Rightarrow> string \<Rightarrow> revision_state \<Rightarrow> int \<Rightarrow> string \<Rightarrow> string \<Rightarrow> int \<Rightarrow> int \<Rightarrow> price_texts \<Rightarrow> string option \<Rightarrow> dict" where
  "normalized_dict ct bar finality state revision provider_revision tf open_ms close_ms p lineage =
     foldl (\<lambda>d (k, v). set_field k v d) bar
       [(''finality'', JStr finality), (''revision_state'', JStr (ct_rs ct state)), (''revision'', JInt revision),
        (''provider_revision'', revision_json provider_revision), (''timeframe'', JStr tf), (''open_time_utc_ms'', JInt open_ms),
        (''close_time_utc_ms'', JInt close_ms), (''open'', JStr (pt_open p)), (''high'', JStr (pt_high p)), (''low'', JStr (pt_low p)),
        (''close'', JStr (pt_close p)), (''volume'', JStr (pt_volume p)), (''superseded_bar_hash'', opt_str lineage)]"

definition normalize_snapshot_bar :: "contracts \<Rightarrow> dict \<Rightarrow> snapshot_bar res" where
  "normalize_snapshot_bar ct bar =
     (if ''finality'' \<notin> set (map fst bar) then Inl (MDMissingFinality ''finality is required'')
      else if missing_field bar \<noteq> None then Inl (MDValidationError ''bar missing required field: '')
      else
        bindR (normalize_finality ct (obj_get bar ''finality'')) (\<lambda>finality.
        bindR (normalize_revision_state ct (obj_get bar ''revision_state'')) (\<lambda>state.
        bindR (normalize_revision (obj_get bar ''revision'') state) (\<lambda>revision.
        bindR (normalize_provider_revision (obj_get bar ''provider_revision'')) (\<lambda>provider_revision.
        bindR (canonical_timeframe_field (obj_get bar ''timeframe'')) (\<lambda>tf.
        bindR (integer_field (obj_get bar ''open_time_utc_ms'')) (\<lambda>open_ms.
        bindR (canonical_close_time tf open_ms (obj_get bar ''close_time_utc_ms'')) (\<lambda>close_ms.
        bindR (validated_prices ct (obj_get bar ''open'') (obj_get bar ''high'') (obj_get bar ''low'') (obj_get bar ''close'') (obj_get bar ''volume'')) (\<lambda>p.
        bindR (superseded_hash (obj_get bar ''superseded_bar_hash'') state) (\<lambda>lineage.
        let d = normalized_dict ct bar finality state revision provider_revision tf open_ms close_ms p lineage in
        case ct_validate ct bar_schema_id d of
          Inl _ \<Rightarrow> Inl (MDValidationError ''bar schema validation failed: '')
        | Inr _ \<Rightarrow>
            (if \<not> ct_verify ct d bar_schema_id then Inl (MDValidationError ''bar content_hash verification failed'')
             else if obj_get d ''bar_content_hash'' \<noteq> JStr (bar_content_hash ct d)
             then Inl (MDValidationError ''bar_content_hash verification failed'')
             else Inr \<lparr>sb_dict = d, sb_open = open_ms, sb_close = close_ms, sb_finality = finality, sb_state = state,
                       sb_revision = revision, sb_provider = obj_get d ''provider'', sb_hash = bar_content_hash ct d,
                       sb_superseded = lineage\<rparr>)))))))))))"

subsection \<open>The revisions of one opening time\<close>

text \<open>The first bar of every content hash.\<close>

fun unique_bars :: "string set \<Rightarrow> snapshot_bar list \<Rightarrow> snapshot_bar list" where
  "unique_bars seen [] = []"
| "unique_bars seen (b # bs) =
     (if sb_hash b \<in> seen then unique_bars seen bs else b # unique_bars (insert (sb_hash b) seen) bs)"

record duplicate_bar =
  du_open_time :: int
  du_revision :: int
  du_count :: int
  du_hash :: string

definition duplicates_of :: "snapshot_bar list \<Rightarrow> snapshot_bar list \<Rightarrow> duplicate_bar list" where
  "duplicates_of bars unique =
     List.map_filter (\<lambda>b. let n = count_list (map sb_hash bars) (sb_hash b) in
       if n > 1 then Some \<lparr>du_open_time = sb_open (hd bars), du_revision = sb_revision b, du_count = int n, du_hash = sb_hash b\<rparr>
       else None) unique"

definition bar_conflict :: "string \<Rightarrow> 'a res" where
  "bar_conflict reason = Inl (MDBarConflict (''bar content conflict: '' @ reason))"

text \<open>The loop over the unique bars: each must follow the one before it.\<close>

fun check_chain :: "snapshot_bar option \<Rightarrow> int set \<Rightarrow> snapshot_bar list \<Rightarrow> unit res" where
  "check_chain previous seen [] = Inr ()"
| "check_chain previous seen (b # bs) =
     (if sb_revision b \<in> seen then bar_conflict ''same revision has different content''
      else
        (case previous of
           None \<Rightarrow>
             (if sb_state b \<noteq> ORIGINAL then bar_conflict ''revision chain is missing the preceding canonical bar''
              else check_chain (Some b) (insert (sb_revision b) seen) bs)
         | Some p \<Rightarrow>
             (if sb_revision b \<le> sb_revision p then bar_conflict ''revision chain is not strictly increasing''
              else if sb_state p = REVOKED then bar_conflict ''revision follows terminal revocation''
              else if sb_superseded b \<noteq> Some (sb_hash p)
              then bar_conflict ''superseded_bar_hash does not bind the immediately preceding bar''
              else check_chain (Some b) (insert (sb_revision b) seen) bs)))"

record revision_chain =
  rc_open_time :: int
  rc_revisions :: "int list"
  rc_states :: "revision_state list"
  rc_selected :: "int option"
  rc_revoked :: bool

definition resolve_bar_group :: "snapshot_bar list \<Rightarrow> (snapshot_bar option \<times> duplicate_bar list \<times> revision_chain option) res" where
  "resolve_bar_group bars =
     (let unique = unique_bars {} bars in
      if card (set (map sb_provider unique)) \<noteq> 1 then bar_conflict ''provider changed within revision chain''
      else
        bindR (check_chain None {} unique) (\<lambda>_.
        let selected = last unique; revoked = (sb_state selected = REVOKED);
            chain = (if length unique > 1 \<or> sb_state selected \<noteq> ORIGINAL
              then Some \<lparr>rc_open_time = sb_open (hd bars), rc_revisions = map sb_revision unique, rc_states = map sb_state unique,
                         rc_selected = (if revoked then None else Some (sb_revision selected)), rc_revoked = revoked\<rparr>
              else None) in
        Inr (if revoked then None else Some selected, duplicates_of bars unique, chain)))"

subsection \<open>Coverage\<close>

fun gap_loop :: "int \<Rightarrow> snapshot_bar list \<Rightarrow> (int \<times> int) list \<times> int" where
  "gap_loop cursor [] = ([], cursor)"
| "gap_loop cursor (b # bs) =
     (let rest = gap_loop (max cursor (sb_close b + 1)) bs in
      (if sb_open b > cursor then (cursor, sb_open b) # fst rest else fst rest, snd rest))"

record snapshot_coverage =
  sc_requested_start :: int
  sc_requested_end :: int
  sc_covered_start :: "int option"
  sc_covered_end :: "int option"
  sc_bar_count :: int
  sc_gap_count :: int
  sc_complete :: bool

definition snapshot_gaps :: "snapshot_bar list \<Rightarrow> int \<Rightarrow> int \<Rightarrow> (int \<times> int) list" where
  "snapshot_gaps bars start stop =
     (let r = gap_loop start bars in fst r @ (if snd r < stop then [(snd r, stop)] else []))"

definition coverage_metadata :: "snapshot_bar list \<Rightarrow> int \<Rightarrow> int \<Rightarrow> snapshot_coverage \<times> (int \<times> int) list" where
  "coverage_metadata bars start stop =
     (let gaps = snapshot_gaps bars start stop in
      (\<lparr>sc_requested_start = start, sc_requested_end = stop,
        sc_covered_start = (case bars of [] \<Rightarrow> None | b # _ \<Rightarrow> Some (sb_open b)),
        sc_covered_end = (case bars of [] \<Rightarrow> None | _ \<Rightarrow> Some (sb_close (last bars) + 1)),
        sc_bar_count = int (length bars), sc_gap_count = int (length gaps), sc_complete = (gaps = [])\<rparr>, gaps))"

text \<open>The covered ranges, merged where they touch; the last range is kept at the head.\<close>

fun range_step :: "(int \<times> int) list \<Rightarrow> snapshot_bar \<Rightarrow> (int \<times> int) list" where
  "range_step [] b = [(sb_open b, sb_close b + 1)]"
| "range_step ((start, stop) # rs) b =
     (if sb_open b \<le> stop then (start, max stop (sb_close b + 1)) # rs else (sb_open b, sb_close b + 1) # (start, stop) # rs)"

definition contract_coverage :: "snapshot_bar list \<Rightarrow> (int \<times> int) list" where
  "contract_coverage bars = rev (foldl range_step [] bars)"

subsection \<open>The snapshot\<close>

record snapshot_request =
  sr_snapshot_id :: json
  sr_instrument_id :: json
  sr_timeframe :: json
  sr_provider_revision :: json
  sr_producer_commit :: json
  sr_stack_id :: json
  sr_start :: json
  sr_end :: json
  sr_policy :: string

record data_snapshot =
  ds_envelope :: dict
  ds_bars :: "snapshot_bar list"
  ds_snapshot_id :: string
  ds_provider_revision :: string
  ds_query :: json
  ds_coverage :: snapshot_coverage
  ds_gaps :: "(int \<times> int) list"
  ds_duplicates :: "duplicate_bar list"
  ds_chains :: "revision_chain list"
  ds_created_at :: int
  ds_series_hash :: string

text \<open>The loop over the given bars, each matched against the snapshot.\<close>

fun collect_bars ::
  "contracts \<Rightarrow> string \<Rightarrow> string \<Rightarrow> string \<Rightarrow> string \<Rightarrow> int \<Rightarrow> int \<Rightarrow> int option \<Rightarrow> json list \<Rightarrow> snapshot_bar list res" where
  "collect_bars ct snapshot instrument tf provider_revision start stop previous [] = Inr []"
| "collect_bars ct snapshot instrument tf provider_revision start stop previous (raw # raws) =
     (case raw of
        JObj d \<Rightarrow>
          bindR (normalize_snapshot_bar ct d) (\<lambda>b.
            if obj_get (sb_dict b) ''instrument_id'' \<noteq> JStr instrument then Inl (MDValidationError ''bar instrument_id does not match snapshot'')
            else if obj_get (sb_dict b) ''timeframe'' \<noteq> JStr tf then Inl (MDValidationError ''bar timeframe does not match snapshot'')
            else if obj_get (sb_dict b) ''snapshot_id'' \<noteq> JStr snapshot then Inl (MDValidationError ''bar snapshot_id does not match snapshot'')
            else if obj_get (sb_dict b) ''provider_revision'' \<noteq> revision_json provider_revision
            then Inl (MDValidationError ''bar provider_revision does not match snapshot'')
            else if sb_open b < start \<or> stop \<le> sb_close b then Inl (MDValidationError ''bar is outside requested range'')
            else if (case previous of None \<Rightarrow> False | Some t \<Rightarrow> sb_open b < t) then Inl (MDValidationError ''bar open_time is not monotonic'')
            else bindR (collect_bars ct snapshot instrument tf provider_revision start stop (Some (sb_open b)) raws) (\<lambda>bs. Inr (b # bs)))
      | _ \<Rightarrow> Inl (MDValidationError ''each bar must be a mapping''))"

text \<open>The loop over the groups of one opening time: kept bars, duplicates and chains.\<close>

type_synonym resolved = "snapshot_bar list \<times> duplicate_bar list \<times> revision_chain list"

function resolve_groups :: "contracts \<Rightarrow> string \<Rightarrow> int option \<Rightarrow> snapshot_bar list \<Rightarrow> resolved res" where
  "resolve_groups ct policy previous_close [] = Inr ([], [], [])"
| "resolve_groups ct policy previous_close (b # bs) =
     (let rest = dropWhile (\<lambda>x. sb_open x = sb_open b) bs in
      bindR (resolve_bar_group (b # takeWhile (\<lambda>x. sb_open x = sb_open b) bs)) (\<lambda>(selected, dups, chain).
      case selected of
        None \<Rightarrow>
          bindR (resolve_groups ct policy previous_close rest) (\<lambda>(kept, ds, cs).
          Inr (kept, dups @ ds, (case chain of None \<Rightarrow> cs | Some c \<Rightarrow> c # cs)))
      | Some s \<Rightarrow>
          (if (case previous_close of None \<Rightarrow> False | Some t \<Rightarrow> sb_open b \<le> t)
           then Inl (MDValidationError ''bar ranges overlap despite monotonic open_time'')
           else
             bindR (resolve_groups ct policy (Some (sb_close s)) rest) (\<lambda>(kept, ds, cs).
             Inr (if policy = ''ALLOW_OPEN'' \<or> sb_finality s = ct_final ct then s # kept else kept,
                  dups @ ds, (case chain of None \<Rightarrow> cs | Some c \<Rightarrow> c # cs))))))"
  by pat_completeness auto
termination
  by (relation "measure (\<lambda>(ct, policy, previous, bs). length bs)") (auto simp: le_imp_less_Suc length_dropWhile_le)

definition ranges_json :: "string \<Rightarrow> string \<Rightarrow> (int \<times> int) list \<Rightarrow> json" where
  "ranges_json instrument tf rs =
     JArr (map (\<lambda>(s, e). JObj [(''instrument_id'', JStr instrument), (''timeframe'', JStr tf), (''start_utc_ms'', JInt s), (''end_utc_ms'', JInt e)]) rs)"

definition gaps_json :: "(int \<times> int) list \<Rightarrow> json" where
  "gaps_json gaps = JArr (map (\<lambda>(s, e). JObj [(''start_utc_ms'', JInt s), (''end_utc_ms'', JInt e)]) gaps)"

definition contract_query :: "string \<Rightarrow> string \<Rightarrow> int \<Rightarrow> int \<Rightarrow> string \<Rightarrow> dict" where
  "contract_query instrument tf start stop policy =
     [(''instrument_id'', JStr instrument), (''timeframe'', JStr tf), (''start_utc_ms'', JInt start), (''end_utc_ms'', JInt stop),
      (''finality_policy'', JStr policy)]"

definition build_data_snapshot :: "contracts \<Rightarrow> json \<Rightarrow> snapshot_request \<Rightarrow> json list \<Rightarrow> data_snapshot res" where
  "build_data_snapshot ct clock r bars =
     bindR (required_text (sr_snapshot_id r)) (\<lambda>snapshot.
     bindR (required_text (sr_instrument_id r)) (\<lambda>instrument.
     bindR (canonical_timeframe_field (sr_timeframe r)) (\<lambda>tf.
     bindR (normalize_provider_revision (sr_provider_revision r)) (\<lambda>provider_revision.
     bindR (integer_field (sr_start r)) (\<lambda>start.
     bindR (integer_field (sr_end r)) (\<lambda>stop.
     if stop \<le> start then Inl (MDValidationError ''snapshot range must satisfy start_utc_ms < end_utc_ms'')
     else if sr_policy r \<noteq> ''CLOSED_BAR_ONLY'' \<and> sr_policy r \<noteq> ''ALLOW_OPEN'' then Inl (MDValidationError ''unknown finality_policy: '')
     else
       bindR (collect_bars ct snapshot instrument tf provider_revision start stop None bars) (\<lambda>normalized.
       bindR (resolve_groups ct (sr_policy r) None normalized) (\<lambda>(kept, duplicates, chains).
       let query = contract_query instrument tf start stop (sr_policy r);
           coverage = coverage_metadata kept start stop;
           identity = JObj [(''query'', JObj query), (''provider_revision'', revision_json provider_revision),
             (''ordered_bar_content_hashes'', JArr (map (\<lambda>b. JStr (sb_hash b)) kept))] in
       bindR (integer_field clock) (\<lambda>created_at.
       let series_hash = ct_hash ct identity ''marketdata-provider.series.v1'';
           body = JObj [(''snapshot_id'', JStr snapshot), (''query'', JObj query), (''bar_count'', JInt (int (length kept))),
             (''series_hash'', JStr series_hash), (''coverage'', ranges_json instrument tf (contract_coverage kept)),
             (''gaps'', gaps_json (snd coverage)), (''conflicts'', JArr []), (''provider_revision'', revision_json provider_revision),
             (''created_at_utc_ms'', JInt created_at)] in
       bindR (envelope_metadata ct (sr_producer_commit r) (sr_stack_id r) (JInt created_at)) (\<lambda>meta.
       bindR (seal_and_validate ct snapshot_schema_id
                ([(''schema_id'', JStr snapshot_schema_id)] @ meta @ [(''kind'', JStr ''snapshot''), (''body'', body)])) (\<lambda>envelope.
       Inr \<lparr>ds_envelope = envelope, ds_bars = kept, ds_snapshot_id = snapshot, ds_provider_revision = provider_revision,
            ds_query = JObj (query @ [(''provider_revision'', revision_json provider_revision)]), ds_coverage = fst coverage,
            ds_gaps = snd coverage, ds_duplicates = duplicates, ds_chains = chains, ds_created_at = created_at,
            ds_series_hash = series_hash\<rparr>)))))))))))"

subsection \<open>What a resolved group is\<close>

lemma unique_subset: "set (unique_bars seen bs) \<subseteq> set bs"
  by (induction bs arbitrary: seen) auto

lemma unique_hashes: "sb_hash ` set (unique_bars seen bs) = sb_hash ` set bs - seen"
  by (induction bs arbitrary: seen) auto

lemma unique_distinct: "distinct (map sb_hash (unique_bars seen bs))"
proof (induction bs arbitrary: seen)
  case (Cons b bs)
  have "sb_hash b \<notin> sb_hash ` set (unique_bars (insert (sb_hash b) seen) bs)" by (simp add: unique_hashes)
  then show ?case using Cons by auto
qed simp

lemma unique_nonempty: "bs \<noteq> [] \<Longrightarrow> unique_bars {} bs \<noteq> []"
  by (cases bs) simp_all

text \<open>A bar that follows another in its chain.\<close>

definition follows :: "snapshot_bar \<Rightarrow> snapshot_bar \<Rightarrow> bool" where
  "follows p b \<longleftrightarrow> sb_revision p < sb_revision b \<and> sb_state p \<noteq> REVOKED \<and> sb_superseded b = Some (sb_hash p)"

lemma conflict_Inl [simp]: "bar_conflict reason \<noteq> Inr x" "Inr x \<noteq> bar_conflict reason"
  by (simp_all add: bar_conflict_def)

lemma check_chain_follows:
  assumes "check_chain (Some p) seen bs = Inr ()"
  shows "successively follows (p # bs)"
  using assms by (induction bs arbitrary: p seen) (auto simp: follows_def split: if_splits)

lemma check_chain_linked:
  assumes "check_chain None {} bs = Inr ()" and "bs \<noteq> []"
  shows "sb_state (hd bs) = ORIGINAL \<and> successively follows bs"
  using assms check_chain_follows by (cases bs) (auto split: if_splits)

text \<open>
  The bars of one opening time as a resolved group: one provider, one bar per content, an original
  first, each later one bound to the one before it, and the last selected unless it is a revocation.
\<close>

definition linked :: "snapshot_bar list \<Rightarrow> snapshot_bar option \<Rightarrow> bool" where
  "linked bars selected \<longleftrightarrow>
     (\<exists>u. set u \<subseteq> set bars \<and> sb_hash ` set u = sb_hash ` set bars \<and> distinct (map sb_hash u) \<and> u \<noteq> [] \<and>
        sb_state (hd u) = ORIGINAL \<and> successively follows u \<and> (\<forall>a \<in> set u. \<forall>b \<in> set u. sb_provider a = sb_provider b) \<and>
        selected = (if sb_state (last u) = REVOKED then None else Some (last u)))"

lemma resolve_linked:
  assumes "resolve_bar_group bars = Inr (selected, dups, chain)" and "bars \<noteq> []"
  shows "linked bars selected"
proof -
  let ?u = "unique_bars {} bars"
  have c: "card (set (map sb_provider ?u)) = 1" "check_chain None {} ?u = Inr ()"
    and sel: "selected = (if sb_state (last ?u) = REVOKED then None else Some (last ?u))"
    using assms(1) by (auto simp: resolve_bar_group_def Let_def res_simps split: if_splits)
  obtain p where "set (map sb_provider ?u) = {p}" using c(1) by (auto simp: card_1_singleton_iff)
  then have "\<forall>a \<in> set ?u. sb_provider a = p" by auto
  then have one: "\<forall>a \<in> set ?u. \<forall>b \<in> set ?u. sb_provider a = sb_provider b" by metis
  have all: "sb_hash ` set ?u = sb_hash ` set bars" using unique_hashes [of "{}" bars] by simp
  note u = unique_nonempty [OF assms(2)]
  note chain = conjunct1 [OF check_chain_linked [OF c(2) u]] conjunct2 [OF check_chain_linked [OF c(2) u]]
  show ?thesis unfolding linked_def
    by (intro exI [of _ ?u] conjI) (rule unique_subset all unique_distinct u chain one sel)+
qed

lemma linked_selected: "linked bars (Some s) \<Longrightarrow> s \<in> set bars \<and> sb_state s \<noteq> REVOKED"
  by (auto simp: linked_def split: if_splits)

subsection \<open>What a snapshot holds\<close>

definition apart :: "snapshot_bar list \<Rightarrow> bool" where
  "apart bars \<longleftrightarrow> sorted_wrt (\<lambda>a b. sb_close a < sb_open b) bars"

definition after_close :: "int option \<Rightarrow> snapshot_bar \<Rightarrow> bool" where
  "after_close previous b \<longleftrightarrow> (case previous of None \<Rightarrow> True | Some t \<Rightarrow> t < sb_open b)"

text \<open>A bar that may be kept: it ends its chain, and it is final unless open bars are allowed.\<close>

definition keepable :: "contracts \<Rightarrow> string \<Rightarrow> snapshot_bar \<Rightarrow> bool" where
  "keepable ct policy b \<longleftrightarrow> sb_state b \<noteq> REVOKED \<and> (policy = ''ALLOW_OPEN'' \<or> sb_finality b = ct_final ct)"

lemma resolve_groups_kept:
  assumes "resolve_groups ct policy previous bs = Inr (kept, dups, rcs)" and "\<forall>b \<in> set bs. sb_open b \<le> sb_close b"
  shows "apart kept \<and> (\<forall>k \<in> set kept. after_close previous k \<and> keepable ct policy k) \<and> set kept \<subseteq> set bs"
  using assms
proof (induction ct policy previous bs arbitrary: kept dups rcs rule: resolve_groups.induct)
  case (1 ct policy previous)
  then show ?case by (simp add: apart_def)
next
  case (2 ct policy previous b bs)
  let ?bars = "b # takeWhile (\<lambda>x. sb_open x = sb_open b) bs"
  let ?rest = "dropWhile (\<lambda>x. sb_open x = sb_open b) bs"
  have sub: "set ?bars \<subseteq> set (b # bs)" "set ?rest \<subseteq> set bs" by (auto dest: set_takeWhileD set_dropWhileD)
  obtain selected d ch where r: "resolve_bar_group ?bars = Inr (selected, d, ch)"
    using 2(3) by (auto simp: Let_def res_simps split: prod.splits)
  note link = resolve_linked [OF r]
  show ?case
  proof (cases selected)
    case None
    then obtain ds cs where "resolve_groups ct policy previous ?rest = Inr (kept, ds, cs)"
      using 2(3) r by (auto simp: Let_def res_simps split: prod.splits)
    from "2.IH"(1) [OF refl r refl refl None this] 2(4) sub show ?thesis by auto
  next
    case (Some s)
    have "linked ?bars (Some s)" using link Some by simp
    from linked_selected [OF this] have s: "s \<in> set ?bars" "sb_state s \<noteq> REVOKED" by blast+
    then have so: "sb_open s = sb_open b" "s \<in> set (b # bs)" by (auto dest: set_takeWhileD)
    then have le: "sb_open s \<le> sb_close s" using 2(4) by blast
    obtain kept' ds cs where k: "resolve_groups ct policy (Some (sb_close s)) ?rest = Inr (kept', ds, cs)"
      "kept = (if policy = ''ALLOW_OPEN'' \<or> sb_finality s = ct_final ct then s # kept' else kept')" and prev: "after_close previous b"
      using 2(3) r Some by (auto simp: Let_def res_simps after_close_def split: prod.splits if_splits option.splits)
    have free: "\<not> (case previous of None \<Rightarrow> False | Some t \<Rightarrow> sb_open b \<le> t)" using prev by (auto simp: after_close_def split: option.splits)
    have ih: "apart kept'" "\<forall>k \<in> set kept'. sb_close s < sb_open k \<and> keepable ct policy k" "set kept' \<subseteq> set ?rest"
      using "2.IH"(2) [OF refl r refl refl Some free k(1)] 2(4) sub by (auto simp: after_close_def)
    have later: "after_close previous k" if "k \<in> set kept'" for k
    proof -
      have "sb_open b < sb_open k" using ih(2) that so(1) le by fastforce
      then show ?thesis using prev by (auto simp: after_close_def split: option.splits)
    qed
    have "after_close previous s" using prev so(1) by (simp add: after_close_def split: option.splits)
    then show ?thesis using ih later s(2) so(2) sub unfolding k(2) by (auto simp: apart_def keepable_def)
  qed
qed

lemma supported_positive: "tf \<in> set supported_timeframes \<Longrightarrow> timeframe_ms tf \<noteq> Inr 0"
proof -
  have "list_all (\<lambda>tf. timeframe_ms tf \<noteq> Inr 0) supported_timeframes" by code_simp
  then show "tf \<in> set supported_timeframes \<Longrightarrow> ?thesis" by (simp add: list_all_iff)
qed

lemma supported_field:
  assumes "canonical_timeframe_field v = Inr tf"
  shows "tf \<in> set supported_timeframes"
proof -
  obtain timeframe where t: "required_text v = Inr timeframe" using assms by (auto simp: canonical_timeframe_field_def bindR_Inr)
  show ?thesis
  proof (cases "canonical_timeframe timeframe")
    case (Inl e)
    then show ?thesis using assms t by (cases e) (simp_all add: canonical_timeframe_field_def)
  next
    case (Inr n)
    then show ?thesis using assms t by (simp add: canonical_timeframe_field_def split: if_splits)
  qed
qed

lemma normalized_bar_ordered:
  assumes "normalize_snapshot_bar ct d = Inr b"
  shows "sb_open b \<le> sb_close b"
proof -
  obtain tf where tf: "canonical_timeframe_field (obj_get d ''timeframe'') = Inr tf"
    and "canonical_close_time tf (sb_open b) (obj_get d ''close_time_utc_ms'') = Inr (sb_close b)"
    using assms by (auto simp: normalize_snapshot_bar_def Let_def res_simps split: if_splits sum.splits)
  then have "close_time_ms (sb_open b) tf = Inr (sb_close b)"
    by (auto simp: canonical_close_time_def bindR_Inr split: if_splits)
  moreover have "tf \<in> set supported_timeframes"
    by (rule supported_field [OF tf])
  ultimately show ?thesis by (rule close_time_ge_open [OF _ supported_positive])
qed

definition bar_of_snapshot :: "string \<Rightarrow> string \<Rightarrow> string \<Rightarrow> string \<Rightarrow> int \<Rightarrow> int \<Rightarrow> snapshot_bar \<Rightarrow> bool" where
  "bar_of_snapshot snapshot instrument tf provider_revision start stop b \<longleftrightarrow>
     obj_get (sb_dict b) ''instrument_id'' = JStr instrument \<and> obj_get (sb_dict b) ''timeframe'' = JStr tf \<and>
     obj_get (sb_dict b) ''snapshot_id'' = JStr snapshot \<and> obj_get (sb_dict b) ''provider_revision'' = revision_json provider_revision \<and>
     start \<le> sb_open b \<and> sb_open b \<le> sb_close b \<and> sb_close b < stop"

lemma collected_bars:
  assumes "collect_bars ct snapshot instrument tf provider_revision start stop previous raws = Inr bs"
  shows "list_all (bar_of_snapshot snapshot instrument tf provider_revision start stop) bs"
  using assms
proof (induction raws arbitrary: previous bs)
  case (Cons raw raws)
  obtain d b bs' where "normalize_snapshot_bar ct d = Inr b" "bs = b # bs'"
    "collect_bars ct snapshot instrument tf provider_revision start stop (Some (sb_open b)) raws = Inr bs'"
    and m: "obj_get (sb_dict b) ''instrument_id'' = JStr instrument" "obj_get (sb_dict b) ''timeframe'' = JStr tf"
     "obj_get (sb_dict b) ''snapshot_id'' = JStr snapshot" "obj_get (sb_dict b) ''provider_revision'' = revision_json provider_revision"
     "start \<le> sb_open b" "sb_close b < stop"
    using Cons.prems by (cases raw) (auto simp: res_simps split: if_splits)
  then show ?case using Cons.IH normalized_bar_ordered by (auto simp: bar_of_snapshot_def)
qed simp

text \<open>What a request for a snapshot asks for, once its fields are checked.\<close>

definition asked :: "snapshot_request \<Rightarrow> string \<Rightarrow> string \<Rightarrow> string \<Rightarrow> string \<Rightarrow> int \<Rightarrow> int \<Rightarrow> bool" where
  "asked r snapshot instrument tf provider_revision start stop \<longleftrightarrow>
     sr_snapshot_id r = JStr snapshot \<and> sr_instrument_id r = JStr instrument \<and> sr_timeframe r = JStr tf \<and>
     normalize_provider_revision (sr_provider_revision r) = Inr provider_revision \<and>
     sr_start r = JInt start \<and> sr_end r = JInt stop \<and> start < stop"

lemma integer_field_Inr: "integer_field v = Inr n \<longleftrightarrow> v = JInt n \<and> 0 \<le> n"
  by (cases v) (auto simp: integer_field_def)

lemma required_text_Inr: "required_text v = Inr s \<longleftrightarrow> v = JStr s \<and> s \<noteq> []"
  by (cases v) (auto simp: required_text_def)

lemma timeframe_field_same: "canonical_timeframe_field v = Inr tf \<Longrightarrow> v = JStr tf"
proof -
  assume a: "canonical_timeframe_field v = Inr tf"
  then obtain timeframe where t: "v = JStr timeframe" "required_text v = Inr timeframe"
    by (auto simp: canonical_timeframe_field_def bindR_Inr required_text_Inr)
  show ?thesis
  proof (cases "canonical_timeframe timeframe")
    case (Inl e)
    then show ?thesis using a t(2) by (cases e) (simp_all add: canonical_timeframe_field_def)
  next
    case (Inr n)
    then show ?thesis using a t by (simp add: canonical_timeframe_field_def split: if_splits)
  qed
qed

lemma snapshot_parts:
  assumes "build_data_snapshot ct clock r raws = Inr ds"
  shows "\<exists>snapshot instrument tf provider_revision start stop normalized.
    asked r snapshot instrument tf provider_revision start stop \<and>
    collect_bars ct snapshot instrument tf provider_revision start stop None raws = Inr normalized \<and>
    resolve_groups ct (sr_policy r) None normalized = Inr (ds_bars ds, ds_duplicates ds, ds_chains ds) \<and>
    (ds_coverage ds, ds_gaps ds) = coverage_metadata (ds_bars ds) start stop"
proof -
  obtain snapshot instrument tf provider_revision start stop where f: "required_text (sr_snapshot_id r) = Inr snapshot"
    "required_text (sr_instrument_id r) = Inr instrument" "canonical_timeframe_field (sr_timeframe r) = Inr tf"
    "normalize_provider_revision (sr_provider_revision r) = Inr provider_revision"
    "integer_field (sr_start r) = Inr start" "integer_field (sr_end r) = Inr stop"
    using assms unfolding build_data_snapshot_def by (auto simp only: bindR_Inr)
  have less: "start < stop" using assms f by (auto simp: build_data_snapshot_def split: if_splits)
  obtain normalized where c: "collect_bars ct snapshot instrument tf provider_revision start stop None raws = Inr normalized"
    using assms f by (auto simp: build_data_snapshot_def bindR_Inr split: if_splits)
  obtain kept dups rcs where g: "resolve_groups ct (sr_policy r) None normalized = Inr (kept, dups, rcs)"
    using assms f c by (auto simp: build_data_snapshot_def bindR_Inr split: if_splits prod.splits)
  have "ds_bars ds = kept \<and> ds_duplicates ds = dups \<and> ds_chains ds = rcs \<and> (ds_coverage ds, ds_gaps ds) = coverage_metadata kept start stop"
    using assms f c g by (auto simp: build_data_snapshot_def Let_def bindR_Inr split: if_splits)
  moreover have "asked r snapshot instrument tf provider_revision start stop"
    using f less timeframe_field_same [OF f(3)] by (simp add: asked_def integer_field_Inr required_text_Inr)
  ultimately show ?thesis using c g by blast
qed

text \<open>
  C7. The bars of a snapshot are the final state of a series. Whatever mappings it is built from, a snapshot
  that is built holds bars of its own instrument, timeframe, identity and revision, inside its window, each opening
  after the one before it closes; none of them is revoked, and under the closed policy all are final.
\<close>

theorem snapshot_bars_ordered:
  assumes "build_data_snapshot ct clock r raws = Inr ds"
  shows "\<exists>snapshot instrument tf provider_revision start stop. asked r snapshot instrument tf provider_revision start stop \<and>
    apart (ds_bars ds) \<and>
    (\<forall>b \<in> set (ds_bars ds). bar_of_snapshot snapshot instrument tf provider_revision start stop b \<and> keepable ct (sr_policy r) b)"
proof -
  obtain snapshot instrument tf provider_revision start stop normalized where
    p: "asked r snapshot instrument tf provider_revision start stop"
    "collect_bars ct snapshot instrument tf provider_revision start stop None raws = Inr normalized"
    "resolve_groups ct (sr_policy r) None normalized = Inr (ds_bars ds, ds_duplicates ds, ds_chains ds)"
    using snapshot_parts [OF assms] by blast
  have b: "\<forall>b \<in> set normalized. bar_of_snapshot snapshot instrument tf provider_revision start stop b"
    using collected_bars [OF p(2)] by (simp add: list_all_iff)
  then have "\<forall>b \<in> set normalized. sb_open b \<le> sb_close b" by (simp add: bar_of_snapshot_def)
  from resolve_groups_kept [OF p(3) this] b p(1) show ?thesis by blast
qed

subsection \<open>What its gaps are\<close>

definition covered_by :: "snapshot_bar list \<Rightarrow> int \<Rightarrow> bool" where
  "covered_by bars t \<longleftrightarrow> (\<exists>b \<in> set bars. sb_open b \<le> t \<and> t \<le> sb_close b)"

definition in_gaps :: "(int \<times> int) list \<Rightarrow> int \<Rightarrow> bool" where
  "in_gaps gaps t \<longleftrightarrow> (\<exists>(s, e) \<in> set gaps. s \<le> t \<and> t < e)"

lemma gap_simps [simp]:
  "\<not> in_gaps [] t" "in_gaps ((s, e) # gs) t \<longleftrightarrow> (s \<le> t \<and> t < e) \<or> in_gaps gs t" "in_gaps (xs @ ys) t \<longleftrightarrow> in_gaps xs t \<or> in_gaps ys t"
  "\<not> covered_by [] t" "covered_by (b # bs) t \<longleftrightarrow> (sb_open b \<le> t \<and> t \<le> sb_close b) \<or> covered_by bs t"
  by (auto simp: in_gaps_def covered_by_def)

lemma gap_loop_exact:
  assumes "apart bars" and "\<forall>b \<in> set bars. cursor \<le> sb_open b \<and> sb_open b \<le> sb_close b"
  shows "cursor \<le> snd (gap_loop cursor bars) \<and> (\<forall>b \<in> set bars. sb_close b < snd (gap_loop cursor bars)) \<and>
    list_all (\<lambda>(s, e). cursor \<le> s \<and> s < e \<and> e \<le> snd (gap_loop cursor bars)) (fst (gap_loop cursor bars)) \<and>
    (\<forall>t. cursor \<le> t \<and> t < snd (gap_loop cursor bars) \<longrightarrow> (in_gaps (fst (gap_loop cursor bars)) t \<longleftrightarrow> \<not> covered_by bars t))"
  using assms
proof (induction bars arbitrary: cursor)
  case (Cons b bs)
  have b: "cursor \<le> sb_open b" "sb_open b \<le> sb_close b" "apart bs" "\<forall>x \<in> set bs. sb_close b < sb_open x"
    using Cons.prems by (simp_all add: apart_def)
  let ?g = "gap_loop (sb_close b + 1) bs"
  have ih: "sb_close b + 1 \<le> snd ?g" "\<forall>x \<in> set bs. sb_close x < snd ?g"
    "list_all (\<lambda>(s, e). sb_close b + 1 \<le> s \<and> s < e \<and> e \<le> snd ?g) (fst ?g)"
    "\<And>t. sb_close b + 1 \<le> t \<Longrightarrow> t < snd ?g \<Longrightarrow> in_gaps (fst ?g) t \<longleftrightarrow> \<not> covered_by bs t"
    using Cons.IH [of "sb_close b + 1"] b(3,4) Cons.prems(2) by force+
  have step: "gap_loop cursor (b # bs) = ((if cursor < sb_open b then (cursor, sb_open b) # fst ?g else fst ?g), snd ?g)"
    using b(1,2) by (simp add: Let_def max_def)
  have early: "\<not> in_gaps (fst ?g) t" "\<not> covered_by bs t" if "t \<le> sb_close b" for t
    using that ih(3) b(4) by (fastforce simp: in_gaps_def list_all_iff, fastforce simp: covered_by_def)
  have "in_gaps (fst (gap_loop cursor (b # bs))) t \<longleftrightarrow> \<not> covered_by (b # bs) t" if "cursor \<le> t" "t < snd ?g" for t
  proof (cases "t \<le> sb_close b")
    case True
    then show ?thesis using early [OF True] that b(1) unfolding step by auto
  next
    case False
    then show ?thesis using ih(4) [of t] that b(2) unfolding step by auto
  qed
  moreover have "list_all (\<lambda>(s, e). cursor \<le> s \<and> s < e \<and> e \<le> snd ?g) (fst (gap_loop cursor (b # bs)))"
    using ih(1,3) b(1,2) unfolding step by (auto simp: list_all_iff)
  ultimately show ?case using ih(1,2) b(1,2) unfolding step by auto
qed simp

lemma snapshot_gaps_points:
  assumes "apart bars" and "\<forall>b \<in> set bars. start \<le> sb_open b \<and> sb_open b \<le> sb_close b \<and> sb_close b < stop" and "start \<le> t" and "t < stop"
  shows "in_gaps (snapshot_gaps bars start stop) t \<longleftrightarrow> \<not> covered_by bars t"
proof -
  let ?g = "gap_loop start bars"
  have g: "\<forall>b \<in> set bars. sb_close b < snd ?g" "list_all (\<lambda>(s, e). s < e \<and> e \<le> snd ?g) (fst ?g)"
    "t < snd ?g \<Longrightarrow> in_gaps (fst ?g) t \<longleftrightarrow> \<not> covered_by bars t"
    using gap_loop_exact [OF assms(1), of start] assms(2,3) by (auto simp: list_all_iff)
  have "\<not> in_gaps (fst ?g) t" "\<not> covered_by bars t" if "snd ?g \<le> t"
    using that g(1,2) by (fastforce simp: in_gaps_def list_all_iff, fastforce simp: covered_by_def)
  then show ?thesis using g(3) assms(4) by (cases "t < snd ?g") (auto simp: snapshot_gaps_def Let_def)
qed

lemma snapshot_gaps_nonempty:
  assumes "apart bars" and "\<forall>b \<in> set bars. start \<le> sb_open b \<and> sb_open b \<le> sb_close b \<and> sb_close b < stop"
    and "start < stop" and "(s, e) \<in> set (snapshot_gaps bars start stop)"
  shows "start \<le> s \<and> s < e \<and> e \<le> stop"
proof -
  let ?g = "gap_loop start bars"
  have g: "start \<le> snd ?g" "list_all (\<lambda>(s, e). start \<le> s \<and> s < e \<and> e \<le> snd ?g) (fst ?g)"
    using gap_loop_exact [OF assms(1), of start] assms(2) by auto
  have "snd (gap_loop cursor bs) \<le> stop" if "cursor \<le> stop" "\<forall>b \<in> set bs. sb_close b < stop" for cursor bs
    using that by (induction bs arbitrary: cursor) (auto simp: Let_def)
  then have "snd ?g \<le> stop" using assms(2,3) by force
  then show ?thesis using g assms(4) by (fastforce simp: snapshot_gaps_def Let_def list_all_iff split: if_splits)
qed

text \<open>
  C14. A snapshot accounts for every millisecond of its window: its gaps lie in the window, and a
  moment is in a gap exactly when no bar of the snapshot spans it. So it is called complete exactly when
  its bars span the whole window.
\<close>

theorem snapshot_gaps_exact:
  assumes "build_data_snapshot ct clock r raws = Inr ds" and "sr_start r = JInt start" and "sr_end r = JInt stop"
  shows "(\<forall>(s, e) \<in> set (ds_gaps ds). start \<le> s \<and> s < e \<and> e \<le> stop) \<and>
    (\<forall>t. start \<le> t \<and> t < stop \<longrightarrow> (in_gaps (ds_gaps ds) t \<longleftrightarrow> \<not> covered_by (ds_bars ds) t)) \<and>
    (sc_complete (ds_coverage ds) \<longleftrightarrow> (\<forall>t. start \<le> t \<and> t < stop \<longrightarrow> covered_by (ds_bars ds) t))"
proof -
  obtain snapshot instrument tf provider_revision start' stop' normalized where
    p: "asked r snapshot instrument tf provider_revision start' stop'"
    "collect_bars ct snapshot instrument tf provider_revision start' stop' None raws = Inr normalized"
    "resolve_groups ct (sr_policy r) None normalized = Inr (ds_bars ds, ds_duplicates ds, ds_chains ds)"
    "(ds_coverage ds, ds_gaps ds) = coverage_metadata (ds_bars ds) start' stop'"
    using snapshot_parts [OF assms(1)] by blast
  have w: "start' = start" "stop' = stop" "start < stop" using p(1) assms(2,3) by (simp_all add: asked_def)
  have gaps: "ds_gaps ds = snapshot_gaps (ds_bars ds) start stop" "sc_complete (ds_coverage ds) = (ds_gaps ds = [])"
    using p(4) unfolding w by (simp_all add: coverage_metadata_def Let_def)
  have n: "\<forall>b \<in> set normalized. start \<le> sb_open b \<and> sb_open b \<le> sb_close b \<and> sb_close b < stop"
    using collected_bars [OF p(2)] unfolding w by (auto simp: list_all_iff bar_of_snapshot_def)
  then have k: "apart (ds_bars ds)" "set (ds_bars ds) \<subseteq> set normalized" using resolve_groups_kept [OF p(3)] by auto
  then have bars: "\<forall>b \<in> set (ds_bars ds). start \<le> sb_open b \<and> sb_open b \<le> sb_close b \<and> sb_close b < stop" using n by blast
  have within: "\<forall>(s, e) \<in> set (ds_gaps ds). start \<le> s \<and> s < e \<and> e \<le> stop"
    using snapshot_gaps_nonempty [OF k(1) bars w(3)] unfolding gaps(1) by blast
  have points: "\<forall>t. start \<le> t \<and> t < stop \<longrightarrow> (in_gaps (ds_gaps ds) t \<longleftrightarrow> \<not> covered_by (ds_bars ds) t)"
    using snapshot_gaps_points [OF k(1) bars] unfolding gaps(1) by blast
  have "ds_gaps ds = []" if full: "\<forall>t. start \<le> t \<and> t < stop \<longrightarrow> covered_by (ds_bars ds) t"
  proof (rule ccontr)
    assume "ds_gaps ds \<noteq> []"
    then obtain s e where g: "(s, e) \<in> set (ds_gaps ds)" by (cases "ds_gaps ds") force+
    with within have "start \<le> s" "s < e" "e \<le> stop" by auto
    moreover from this g have "in_gaps (ds_gaps ds) s" by (force simp: in_gaps_def)
    ultimately show False using points full by auto
  qed
  then show ?thesis using within points gaps(2) by auto
qed

subsection \<open>A sample\<close>

text \<open>
  Contracts whose digest tells an original bar from a later one, and two bars of one minute: the
  original and its correction.
\<close>

definition sample_digest :: "json \<Rightarrow> string \<Rightarrow> string" where
  "sample_digest j schema =
     ''sha256:'' @ replicate 64 (case j of JObj d \<Rightarrow> if obj_get d ''superseded_bar_hash'' = JNull then CHR ''a'' else CHR ''b'' | _ \<Rightarrow> CHR ''c'')"

definition sample_ct :: contracts where
  "sample_ct = \<lparr>ct_finality = (\<lambda>s. s = ''FINAL'' \<or> s = ''OPEN''), ct_final = ''FINAL'', ct_open = ''OPEN'', ct_rs = sample_rs,
     ct_decimal_string = (\<lambda>v. case v of JStr s \<Rightarrow> Some s | _ \<Rightarrow> None), ct_hash = sample_digest, ct_seal = (\<lambda>d s. set_field ''content_hash'' (JStr ''h'') d),
     ct_validate = (\<lambda>s d. Inr ()), ct_verify = (\<lambda>d s. True), ct_serializer_id = ''canonical-json'', ct_hash_alg = ''sha256''\<rparr>"

definition sample_commit :: string where "sample_commit = replicate 40 CHR ''1''"
definition sample_stack :: string where "sample_stack = ''sha256:'' @ replicate 64 CHR ''2''"

definition sample_make :: "revision_state \<Rightarrow> int \<Rightarrow> json \<Rightarrow> bar_request" where
  "sample_make state revision superseded =
     \<lparr>mk_instrument_id = JStr ''binance:spot:BTCUSDT'', mk_timeframe = JStr ''1m'', mk_open_time = JInt 60000, mk_open = JStr ''7'',
      mk_high = JStr ''8.5'', mk_low = JStr ''6'', mk_close = JStr ''7'', mk_volume = JStr ''1'', mk_snapshot_id = JStr ''s1'',
      mk_provider = JStr ''binance'', mk_provider_revision = revision_json ''r1'', mk_producer_commit = JStr sample_commit,
      mk_stack_id = JStr sample_stack, mk_superseded = superseded, mk_finality = JStr ''FINAL'',
      mk_revision_state = JStr (sample_rs state), mk_revision = JInt revision, mk_close_time = JNull, mk_created_at = JInt 9\<rparr>"

definition sample_bars :: "json list" where
  "sample_bars =
     (case make_canonical_bar sample_ct 0 (sample_make ORIGINAL 0 JNull) of
        Inl _ \<Rightarrow> []
      | Inr d \<Rightarrow>
          (case make_canonical_bar sample_ct 0 (sample_make CORRECTED 1 (obj_get d ''bar_content_hash'')) of
             Inl _ \<Rightarrow> []
           | Inr e \<Rightarrow> [JObj d, JObj e]))"

definition sample_request :: snapshot_request where
  "sample_request =
     \<lparr>sr_snapshot_id = JStr ''s1'', sr_instrument_id = JStr ''binance:spot:BTCUSDT'', sr_timeframe = JStr ''1m'',
      sr_provider_revision = revision_json ''r1'', sr_producer_commit = JStr sample_commit, sr_stack_id = JStr sample_stack,
      sr_start = JInt 0, sr_end = JInt 180000, sr_policy = ''CLOSED_BAR_ONLY''\<rparr>"

lemma sample_snapshot:
  "\<exists>ds. build_data_snapshot sample_ct (JInt 9) sample_request sample_bars = Inr ds \<and> length (ds_bars ds) = 1 \<and>
     ds_gaps ds = [(0, 60000), (120000, 180000)] \<and> length (ds_chains ds) = 1 \<and> map sb_state (ds_bars ds) = [CORRECTED]"
proof -
  have "(case build_data_snapshot sample_ct (JInt 9) sample_request sample_bars of Inl _ \<Rightarrow> False
     | Inr ds \<Rightarrow> length (ds_bars ds) = 1 \<and> ds_gaps ds = [(0, 60000), (120000, 180000)] \<and> length (ds_chains ds) = 1 \<and> map sb_state (ds_bars ds) = [CORRECTED])"
    by code_simp
  then show ?thesis by (auto split: sum.splits)
qed

lemma snapshot_bars_ordered_witness:
  "\<exists>ds snapshot instrument tf provider_revision start stop.
    build_data_snapshot sample_ct (JInt 9) sample_request sample_bars = Inr ds \<and> length (ds_bars ds) = 1 \<and>
    asked sample_request snapshot instrument tf provider_revision start stop \<and> apart (ds_bars ds) \<and>
    (\<forall>b \<in> set (ds_bars ds). bar_of_snapshot snapshot instrument tf provider_revision start stop b \<and> keepable sample_ct (sr_policy sample_request) b)"
proof -
  obtain ds where ds: "build_data_snapshot sample_ct (JInt 9) sample_request sample_bars = Inr ds" "length (ds_bars ds) = 1"
    using sample_snapshot by blast
  show ?thesis using snapshot_bars_ordered [OF ds(1)] ds by blast
qed

lemma snapshot_gaps_exact_witness:
  "\<exists>ds. build_data_snapshot sample_ct (JInt 9) sample_request sample_bars = Inr ds \<and> length (ds_bars ds) = 1 \<and>
    (\<forall>t. 0 \<le> t \<and> t < 180000 \<longrightarrow> (in_gaps (ds_gaps ds) t \<longleftrightarrow> \<not> covered_by (ds_bars ds) t)) \<and> \<not> sc_complete (ds_coverage ds)"
proof -
  obtain ds where ds: "build_data_snapshot sample_ct (JInt 9) sample_request sample_bars = Inr ds" "length (ds_bars ds) = 1"
    "ds_gaps ds = [(0, 60000), (120000, 180000)]"
    using sample_snapshot by blast
  have "sr_start sample_request = JInt 0" "sr_end sample_request = JInt 180000" by (simp_all add: sample_request_def)
  note g = snapshot_gaps_exact [OF ds(1) this]
  have "in_gaps (ds_gaps ds) 0" using ds(3) by simp
  then have "\<not> covered_by (ds_bars ds) 0" using g by simp
  then have "\<not> sc_complete (ds_coverage ds)" using g by fastforce
  then show ?thesis using g ds(1,2) by blast
qed

end
