(* ===== verification/PublicSnapshots.thy ===== *)
theory PublicSnapshots
  imports Snapshots
begin

section \<open>Snapshots of provider bars\<close>

text \<open>
  Models \<^verbatim>\<open>canonical/provider.py\<close>, \<^verbatim>\<open>finality_from_closed\<close> of
  \<^verbatim>\<open>compat/v4.py\<close> and \<^verbatim>\<open>canonical_bars_from_binance_klines\<close> of
  \<^verbatim>\<open>canonical/bar.py\<close>: the bars of a provider or a store become canonical bars, every
  correction bound to the hash of the bar before it, and a snapshot is built from them.
\<close>

record raw_bar =
  rb_instrument_id :: string
  rb_timeframe :: string
  rb_open_time :: int
  rb_close_time :: "int option"
  rb_open :: json
  rb_high :: json
  rb_low :: json
  rb_close :: json
  rb_volume :: json
  rb_finality :: string
  rb_provider :: string
  rb_provider_revision :: string
  rb_state :: revision_state
  rb_revision :: int

definition finality_from_closed :: "contracts \<Rightarrow> bool option \<Rightarrow> string res" where
  "finality_from_closed ct closed =
     (case closed of
        Some True \<Rightarrow> Inr (ct_final ct)
      | Some False \<Rightarrow> Inr (ct_open ct)
      | None \<Rightarrow> Inl (MDValidationError ''missing closed/finality; cannot default to FINAL''))"

definition no_text :: "string option \<Rightarrow> bool" where
  "no_text t \<longleftrightarrow> t = None \<or> t = Some []"

definition raw_bar_from_market_bar :: "contracts \<Rightarrow> string \<Rightarrow> string \<Rightarrow> string \<Rightarrow> market_bar \<Rightarrow> raw_bar res" where
  "raw_bar_from_market_bar ct instrument tf provider b =
     (let source = (if m_provider b = [] then provider else m_provider b) in
      if m_is_closed b = None then Inl (MDMissingFinality ''stored/provider bar is missing finality'')
      else if b_time_close b = None then Inl (MDValidationError ''stored/provider bar is missing close_time_utc_ms'')
      else if source = [] then Inl (MDValidationError ''provider is required'')
      else if no_text (m_provider_revision b) then Inl (MDValidationError ''provider_revision is required'')
      else if no_text (m_open_text b) \<or> no_text (m_high_text b) \<or> no_text (m_low_text b) \<or> no_text (m_close_text b) \<or> no_text (m_volume_text b)
      then Inl (MDValidationError ''stored/provider bar is missing exact source decimal text: '')
      else
        bindR (finality_from_closed ct (m_is_closed b)) (\<lambda>finality.
        Inr \<lparr>rb_instrument_id = instrument, rb_timeframe = tf, rb_open_time = b_time b, rb_close_time = b_time_close b,
             rb_open = opt_str (m_open_text b), rb_high = opt_str (m_high_text b), rb_low = opt_str (m_low_text b),
             rb_close = opt_str (m_close_text b), rb_volume = opt_str (m_volume_text b), rb_finality = finality,
             rb_provider = source, rb_provider_revision = the (m_provider_revision b),
             rb_state = m_revision_state b, rb_revision = m_revision b\<rparr>))"

text \<open>Sorting by opening time and revision: two stable sorts.\<close>

definition raw_sorted :: "raw_bar list \<Rightarrow> raw_bar list" where
  "raw_sorted raws = sort_key rb_open_time (sort_key rb_revision raws)"

definition int_or_null :: "int option \<Rightarrow> json" where
  "int_or_null v = (case v of None \<Rightarrow> JNull | Some n \<Rightarrow> JInt n)"

definition raw_request :: "contracts \<Rightarrow> int \<Rightarrow> string \<Rightarrow> json \<Rightarrow> json \<Rightarrow> string \<Rightarrow> string option \<Rightarrow> raw_bar \<Rightarrow> bar_request" where
  "raw_request ct end_ms revision producer_commit stack_id snapshot previous_hash b =
     \<lparr>mk_instrument_id = JStr (rb_instrument_id b), mk_timeframe = JStr (rb_timeframe b), mk_open_time = JInt (rb_open_time b),
      mk_open = rb_open b, mk_high = rb_high b, mk_low = rb_low b, mk_close = rb_close b, mk_volume = rb_volume b,
      mk_snapshot_id = JStr snapshot, mk_provider = JStr (rb_provider b), mk_provider_revision = revision_json revision,
      mk_producer_commit = producer_commit, mk_stack_id = stack_id,
      mk_superseded = (if rb_state b \<noteq> ORIGINAL then opt_str previous_hash else JNull), mk_finality = JStr (rb_finality b),
      mk_revision_state = JStr (ct_rs ct (rb_state b)), mk_revision = JInt (rb_revision b),
      mk_close_time = int_or_null (rb_close_time b), mk_created_at = JInt end_ms\<rparr>"

text \<open>The inner function: the hash of the bar before is forgotten when the opening time changes.\<close>

fun canonicalize ::
  "contracts \<Rightarrow> int \<Rightarrow> string \<Rightarrow> json \<Rightarrow> json \<Rightarrow> string \<Rightarrow> int option \<Rightarrow> string option \<Rightarrow> raw_bar list \<Rightarrow> dict list res" where
  "canonicalize ct end_ms revision producer_commit stack_id snapshot previous_open previous_hash [] = Inr []"
| "canonicalize ct end_ms revision producer_commit stack_id snapshot previous_open previous_hash (b # bs) =
     (let linked = (if Some (rb_open_time b) \<noteq> previous_open then None else previous_hash) in
      bindR (make_canonical_bar ct end_ms (raw_request ct end_ms revision producer_commit stack_id snapshot linked b)) (\<lambda>bar.
      bindR (obj_item bar ''bar_content_hash'') (\<lambda>hash. bindR (json_text hash) (\<lambda>hash.
      bindR (canonicalize ct end_ms revision producer_commit stack_id snapshot (Some (rb_open_time b)) (Some hash) bs) (\<lambda>bars.
      Inr (bar # bars))))))"

definition snapshot_identity :: "bar_query \<Rightarrow> string \<Rightarrow> string \<Rightarrow> json list \<Rightarrow> json" where
  "snapshot_identity q revision policy hashes =
     JObj [(''instrument_id'', JStr (serialize_instrument (q_instrument q))), (''timeframe'', JStr (tf_canonical (q_timeframe q))),
       (''start_utc_ms'', JInt (q_start_ms q)), (''end_utc_ms'', JInt (q_end_ms q)), (''provider_revision'', revision_json revision),
       (''finality_policy'', JStr policy), (''ordered_input_hashes'', JArr hashes)]"

definition snapshot_request_of :: "bar_query \<Rightarrow> string \<Rightarrow> json \<Rightarrow> json \<Rightarrow> string \<Rightarrow> string \<Rightarrow> snapshot_request" where
  "snapshot_request_of q revision producer_commit stack_id policy snapshot =
     \<lparr>sr_snapshot_id = JStr snapshot, sr_instrument_id = JStr (serialize_instrument (q_instrument q)),
      sr_timeframe = JStr (tf_canonical (q_timeframe q)), sr_provider_revision = revision_json revision,
      sr_producer_commit = producer_commit, sr_stack_id = stack_id, sr_start = JInt (q_start_ms q), sr_end = JInt (q_end_ms q),
      sr_policy = policy\<rparr>"

definition build_public_snapshot ::
  "contracts \<Rightarrow> bar_query \<Rightarrow> raw_bar list \<Rightarrow> json \<Rightarrow> json \<Rightarrow> json \<Rightarrow> string \<Rightarrow> data_snapshot res" where
  "build_public_snapshot ct q raws provider_revision producer_commit stack_id policy =
     bindR (normalize_provider_revision provider_revision) (\<lambda>revision.
     let ordered = raw_sorted raws in
     if list_ex (\<lambda>b. rb_provider_revision b \<noteq> revision) ordered
     then Inl (MDValidationError ''raw bar provider_revision does not match snapshot'')
     else
       bindR (canonicalize ct (q_end_ms q) revision producer_commit stack_id ''pending'' None None ordered) (\<lambda>pending.
       bindR (mapR (\<lambda>bar. obj_item bar ''bar_content_hash'') pending) (\<lambda>hashes.
       let snapshot = ct_hash ct (snapshot_identity q revision policy hashes) ''marketdata-provider.snapshot-id.v1'' in
       bindR (canonicalize ct (q_end_ms q) revision producer_commit stack_id snapshot None None ordered) (\<lambda>bars.
       build_data_snapshot ct (JInt (q_end_ms q)) (snapshot_request_of q revision producer_commit stack_id policy snapshot) (map JObj bars)))))"

definition snapshot_from_market_bars ::
  "contracts \<Rightarrow> bar_query \<Rightarrow> market_bar list \<Rightarrow> string \<Rightarrow> json \<Rightarrow> json \<Rightarrow> json \<Rightarrow> string \<Rightarrow> data_snapshot res" where
  "snapshot_from_market_bars ct q bars provider provider_revision producer_commit stack_id policy =
     bindR (mapR (raw_bar_from_market_bar ct (serialize_instrument (q_instrument q)) (tf_canonical (q_timeframe q)) provider) bars) (\<lambda>raws.
     build_public_snapshot ct q raws provider_revision producer_commit stack_id policy)"

subsection \<open>Canonical bars of klines\<close>

definition kline_request ::
  "contracts \<Rightarrow> json \<Rightarrow> string \<Rightarrow> json \<Rightarrow> json \<Rightarrow> json \<Rightarrow> json \<Rightarrow> json \<Rightarrow> string \<Rightarrow> int \<Rightarrow> json list \<Rightarrow> bar_request" where
  "kline_request ct instrument tf provider provider_revision producer_commit stack_id snapshot finality open_time items =
     \<lparr>mk_instrument_id = instrument, mk_timeframe = JStr tf, mk_open_time = JInt open_time, mk_open = items ! 1, mk_high = items ! 2,
      mk_low = items ! 3, mk_close = items ! 4, mk_volume = items ! 5, mk_snapshot_id = snapshot, mk_provider = provider,
      mk_provider_revision = provider_revision, mk_producer_commit = producer_commit, mk_stack_id = stack_id, mk_superseded = JNull,
      mk_finality = JStr finality, mk_revision_state = JStr (ct_rs ct ORIGINAL), mk_revision = JInt 0,
      mk_close_time = (if 6 < length items then items ! 6 else JNull), mk_created_at = JNull\<rparr>"

fun kline_bars ::
  "contracts \<Rightarrow> int \<Rightarrow> json \<Rightarrow> string \<Rightarrow> json \<Rightarrow> json \<Rightarrow> json \<Rightarrow> json \<Rightarrow> json \<Rightarrow> int \<Rightarrow> bool \<Rightarrow> json list list \<Rightarrow> dict list res" where
  "kline_bars ct now instrument tf provider provider_revision producer_commit stack_id snapshot server_time include_open [] = Inr []"
| "kline_bars ct now instrument tf provider provider_revision producer_commit stack_id snapshot server_time include_open (items # rows) =
     (if length items < 6 then Inl (MDValidationError ''kline row too short'')
      else
        bindR (integer_field (items ! 0)) (\<lambda>open_time.
        bindR (close_time_ms open_time tf) (\<lambda>expected_close.
        bindR (bar_finality_text ct expected_close (Some server_time)) (\<lambda>finality.
        bindR (make_canonical_bar ct now
                 (kline_request ct instrument tf provider provider_revision producer_commit stack_id snapshot finality open_time items)) (\<lambda>bar.
        bindR (if include_open then Inr True else bindR (obj_item bar ''finality'') (\<lambda>f. Inr (f = JStr (ct_final ct)))) (\<lambda>kept.
        bindR (kline_bars ct now instrument tf provider provider_revision producer_commit stack_id snapshot server_time include_open rows) (\<lambda>bars.
        Inr (if kept then bar # bars else bars))))))))"

definition canonical_bars_from_binance_klines ::
  "contracts \<Rightarrow> int \<Rightarrow> json \<Rightarrow> json \<Rightarrow> json \<Rightarrow> json \<Rightarrow> json \<Rightarrow> json \<Rightarrow> json \<Rightarrow> int option \<Rightarrow> bool \<Rightarrow> json list list \<Rightarrow> dict list res" where
  "canonical_bars_from_binance_klines ct now instrument timeframe provider provider_revision producer_commit stack_id snapshot server_time include_open rows =
     (case server_time of
        None \<Rightarrow> Inl (MDValidationError ''server_time_ms required'')
      | Some t \<Rightarrow>
          bindR (canonical_timeframe_field timeframe) (\<lambda>tf.
          kline_bars ct now instrument tf provider provider_revision producer_commit stack_id snapshot t include_open rows))"

end
