(* ===== verification/SnapshotStore.thy ===== *)
theory SnapshotStore
  imports PublicSnapshots
begin

section \<open>Snapshots taken back\<close>

text \<open>
  Models \<^verbatim>\<open>canonical/store_adapter.py\<close>: a snapshot handed back is checked against its envelope
  and built again from its bars, and a canonical bar becomes a bar of the store.
\<close>

subsection \<open>Equality of values\<close>

text \<open>\<open>==\<close> on values: numbers by value, booleans among them, mappings whatever the order of their keys.\<close>

fun json_number :: "json \<Rightarrow> int option" where
  "json_number (JInt n) = Some n"
| "json_number (JBool b) = Some (if b then 1 else 0)"
| "json_number (JFloat x) = (case f_int x of Inr n \<Rightarrow> if f_eq (f_of_int n) x then Some n else None | Inl _ \<Rightarrow> None)"
| "json_number _ = None"

lemma size_zip [termination_simp]: "(a, b) \<in> set (zip xs ys) \<Longrightarrow> size a < Suc (size_list size xs)"
  by (induction xs ys rule: list_induct2') (auto simp: less_Suc_eq_le)

fun json_eq :: "json \<Rightarrow> json \<Rightarrow> bool" where
  "json_eq (JStr s) (JStr t) = (s = t)"
| "json_eq JNull JNull = True"
| "json_eq (JFloat x) (JFloat y) = f_eq x y"
| "json_eq (JArr xs) (JArr ys) = (length xs = length ys \<and> list_all (\<lambda>(x, y). json_eq x y) (zip xs ys))"
| "json_eq (JObj a) (JObj b) =
     (set (map fst a) = set (map fst b) \<and> list_all (\<lambda>(k, v). case map_of b k of None \<Rightarrow> False | Some w \<Rightarrow> json_eq v w) a)"
| "json_eq a b = (json_number a \<noteq> None \<and> json_number a = json_number b)"

subsection \<open>The bundle\<close>

definition coverage_json :: "snapshot_coverage \<Rightarrow> json" where
  "coverage_json c = JObj [(''requested_start_utc_ms'', JInt (sc_requested_start c)), (''requested_end_utc_ms'', JInt (sc_requested_end c)),
     (''covered_start_utc_ms'', int_or_null (sc_covered_start c)), (''covered_end_utc_ms'', int_or_null (sc_covered_end c)),
     (''bar_count'', JInt (sc_bar_count c)), (''gap_count'', JInt (sc_gap_count c)), (''complete'', JBool (sc_complete c))]"

definition duplicate_json :: "duplicate_bar \<Rightarrow> json" where
  "duplicate_json d = JObj [(''open_time_utc_ms'', JInt (du_open_time d)), (''revision'', JInt (du_revision d)),
     (''count'', JInt (du_count d)), (''bar_content_hash'', JStr (du_hash d))]"

definition chain_json :: "contracts \<Rightarrow> revision_chain \<Rightarrow> json" where
  "chain_json ct c = JObj [(''open_time_utc_ms'', JInt (rc_open_time c)), (''revisions'', JArr (map JInt (rc_revisions c))),
     (''revision_states'', JArr (map (\<lambda>m. JStr (ct_rs ct m)) (rc_states c))), (''selected_revision'', int_or_null (rc_selected c)),
     (''revoked'', JBool (rc_revoked c))]"

text \<open>The mapping \<open>build_data_snapshot\<close> returns.\<close>

definition snapshot_bundle :: "contracts \<Rightarrow> data_snapshot \<Rightarrow> dict" where
  "snapshot_bundle ct ds =
     (let coverage = coverage_json (ds_coverage ds); gaps = gaps_json (ds_gaps ds); dups = JArr (map duplicate_json (ds_duplicates ds));
          rcs = JArr (map (chain_json ct) (ds_chains ds)) in
      [(''snapshot_envelope'', JObj (ds_envelope ds)), (''bars'', JArr (map (\<lambda>b. JObj (sb_dict b)) (ds_bars ds))),
       (''diagnostics'', JObj [(''coverage'', coverage), (''gaps'', gaps), (''duplicates'', dups), (''conflicts'', JArr []), (''revision_chains'', rcs)]),
       (''snapshot_id'', JStr (ds_snapshot_id ds)), (''query'', ds_query ds), (''provider_revision'', revision_json (ds_provider_revision ds)),
       (''bar_count'', JInt (int (length (ds_bars ds)))), (''coverage'', coverage), (''gaps'', gaps), (''duplicates'', dups),
       (''conflicts'', JArr []), (''revision_chains'', rcs), (''created_at_utc_ms'', JInt (ds_created_at ds)),
       (''series_hash'', JStr (ds_series_hash ds))])"

subsection \<open>Checking a bundle\<close>

definition text_item :: "dict \<Rightarrow> string \<Rightarrow> string res" where
  "text_item d k = bindR (obj_item d k) json_text"

definition int_item :: "dict \<Rightarrow> string \<Rightarrow> int res" where
  "int_item d k = bindR (obj_item d k) json_int"

text \<open>The envelope and its body, with the query in it.\<close>

definition envelope_parts :: "contracts \<Rightarrow> dict \<Rightarrow> (dict \<times> dict) res" where
  "envelope_parts ct envelope =
     (case ct_validate ct snapshot_schema_id envelope of
        Inl _ \<Rightarrow> Inl (MDValidationError ''canonical snapshot envelope validation failed'')
      | Inr _ \<Rightarrow>
          (if \<not> ct_verify ct envelope snapshot_schema_id
           then Inl (MDValidationError ''canonical snapshot envelope content_hash is invalid'')
           else
             (case (obj_get envelope ''kind'' = JStr ''snapshot'', obj_get envelope ''body'') of
                (True, JObj body) \<Rightarrow>
                  (case obj_get body ''query'' of
                     JObj query \<Rightarrow> Inr (body, query)
                   | _ \<Rightarrow> Inl (MDValidationError ''canonical snapshot envelope query is invalid''))
              | _ \<Rightarrow> Inl (MDValidationError ''canonical snapshot envelope kind/body is invalid''))))"

definition bundle_request :: "string \<Rightarrow> dict \<Rightarrow> dict \<Rightarrow> dict \<Rightarrow> snapshot_request res" where
  "bundle_request revision envelope body query =
     bindR (text_item body ''snapshot_id'') (\<lambda>snapshot.
     bindR (text_item query ''instrument_id'') (\<lambda>instrument.
     bindR (text_item query ''timeframe'') (\<lambda>tf.
     bindR (text_item envelope ''producer_commit'') (\<lambda>commit.
     bindR (text_item envelope ''stack_id'') (\<lambda>stack.
     bindR (int_item query ''start_utc_ms'') (\<lambda>start.
     bindR (int_item query ''end_utc_ms'') (\<lambda>stop.
     bindR (text_item query ''finality_policy'') (\<lambda>policy.
     Inr \<lparr>sr_snapshot_id = JStr snapshot, sr_instrument_id = JStr instrument, sr_timeframe = JStr tf,
          sr_provider_revision = revision_json revision, sr_producer_commit = JStr commit, sr_stack_id = JStr stack,
          sr_start = JInt start, sr_end = JInt stop, sr_policy = policy\<rparr>))))))))"

definition validate_canonical_snapshot :: "contracts \<Rightarrow> dict \<Rightarrow> data_snapshot res" where
  "validate_canonical_snapshot ct snapshot =
     (case (obj_get snapshot ''query'', obj_get snapshot ''bars'', obj_get snapshot ''snapshot_envelope'') of
        (JObj query, JArr bars, JObj envelope) \<Rightarrow>
          bindR (envelope_parts ct envelope) (\<lambda>(body, body_query).
          case obj_get snapshot ''created_at_utc_ms'' of
            JInt created_at \<Rightarrow>
              bindR (normalize_provider_revision (obj_get body ''provider_revision'')) (\<lambda>revision.
              if \<not> json_eq (obj_get query ''provider_revision'') (revision_json revision)
              then Inl (MDValidationError ''canonical snapshot provider_revision does not match envelope'')
              else if \<not> json_eq (obj_get snapshot ''snapshot_id'') (obj_get body ''snapshot_id'')
              then Inl (MDValidationError ''canonical snapshot snapshot_id does not match envelope'')
              else if \<not> json_eq (obj_get snapshot ''series_hash'') (obj_get body ''series_hash'')
              then Inl (MDValidationError ''canonical snapshot series_hash does not match envelope'')
              else if \<not> json_eq (JInt created_at) (obj_get body ''created_at_utc_ms'')
              then Inl (MDValidationError ''canonical snapshot created_at does not match envelope'')
              else
                bindR (bundle_request revision envelope body body_query) (\<lambda>r.
                bindR (build_data_snapshot ct (JInt created_at) r bars) (\<lambda>validated.
                if \<not> json_eq (JObj (ds_envelope validated)) (JObj envelope)
                then Inl (MDValidationError ''canonical snapshot envelope reconstruction failed'')
                else Inr validated)))
          | _ \<Rightarrow> Inl (MDValidationError ''canonical snapshot created_at_utc_ms is required''))
      | _ \<Rightarrow> Inl (MDValidationError ''canonical snapshot query/bars/snapshot_envelope are required''))"

subsection \<open>A bar of the store\<close>

definition float_item :: "dict \<Rightarrow> string \<Rightarrow> float64 res" where
  "float_item d k = bindR (text_item d k) py_float"

definition market_bar_from_canonical :: "contracts \<Rightarrow> dict \<Rightarrow> market_bar res" where
  "market_bar_from_canonical ct bar =
     bindR (bindR (text_item bar ''instrument_id'') parse_instrument) (\<lambda>instrument.
     bindR (text_item bar ''finality'') (\<lambda>finality.
     if \<not> ct_finality ct finality then Inl (PyValueError ''not a valid Finality'')
     else
     bindR (text_item bar ''revision_state'') (\<lambda>state_text.
     case revision_state_of (ct_rs ct) state_text of
       None \<Rightarrow> Inl (PyValueError ''not a valid RevisionState'')
     | Some state \<Rightarrow>
     bindR (bindR (obj_item bar ''provider_revision'') normalize_provider_revision) (\<lambda>revision.
     bindR (int_item bar ''open_time_utc_ms'') (\<lambda>open_ms. bindR (int_item bar ''close_time_utc_ms'') (\<lambda>close_ms.
     bindR (float_item bar ''open'') (\<lambda>o'. bindR (float_item bar ''high'') (\<lambda>h. bindR (float_item bar ''low'') (\<lambda>l.
     bindR (float_item bar ''close'') (\<lambda>c. bindR (float_item bar ''volume'') (\<lambda>v.
     bindR (text_item bar ''timeframe'') (\<lambda>tf. bindR (text_item bar ''provider'') (\<lambda>provider.
     bindR (int_item bar ''revision'') (\<lambda>rev.
     bindR (text_item bar ''open'') (\<lambda>ot. bindR (text_item bar ''high'') (\<lambda>ht. bindR (text_item bar ''low'') (\<lambda>lt.
     bindR (text_item bar ''close'') (\<lambda>cl. bindR (text_item bar ''volume'') (\<lambda>vt.
     market_bar_post_init (market_bar_defaults\<lparr>b_time := open_ms, b_time_close := Some close_ms, b_open := o', b_high := h, b_low := l,
       b_close := c, b_volume := v, m_exchange := ik_exchange instrument, m_market := ik_market instrument, m_symbol := ik_symbol instrument,
       m_timeframe := tf, m_source_transport := ''canonical'', m_is_closed := Some (finality = ct_final ct), m_provider := provider,
       m_provider_revision := Some revision, m_revision_state := state, m_revision := rev, m_open_text := Some ot, m_high_text := Some ht,
       m_low_text := Some lt, m_close_text := Some cl, m_volume_text := Some vt\<rparr>))))))))))))))))))))"

end
