(* ===== verification/Registry.thy ===== *)
theory Registry
  imports Bars
begin

section \<open>The registry of exchanges\<close>

text \<open>
  Models \<^verbatim>\<open>exchanges/registry.py\<close>: the tables of market types and exchanges, the names they are looked up by,
  and the payloads the command line prints. The literal types of the source are strings here, as they are at
  run time.
\<close>

record market_type_info =
  mt_id :: string
  mt_label :: string
  mt_aliases :: "string list"
  mt_description :: string

record exchange_info =
  ex_id :: string
  ex_name :: string
  ex_rank :: int
  ex_status :: string
  ex_native_markets :: "string list"
  ex_listed_market_types :: "string list"
  ex_public_rest_api :: bool
  ex_public_websocket_api :: bool
  ex_archive :: string
  ex_recommended_source :: string
  ex_api_docs_url :: string
  ex_archive_docs_url :: "string option"
  ex_notes :: string

definition native_adapter :: "exchange_info \<Rightarrow> bool" where
  "native_adapter e \<longleftrightarrow> ex_status e = ''native''"

subsection \<open>The tables\<close>

definition market_types :: "market_type_info list" where
  "market_types =
     [\<lparr>mt_id = ''spot'', mt_label = ''Spot'', mt_aliases = [''spot'', ''cash''],
        mt_description = ''Immediate settlement spot markets and spot OHLCV/candle feeds.''\<rparr>,
      \<lparr>mt_id = ''margin'', mt_label = ''Margin'', mt_aliases = [''margin'', ''cross-margin'', ''isolated-margin''],
        mt_description = ''Spot-margin markets. Public market data usually mirrors spot feeds.''\<rparr>,
      \<lparr>mt_id = ''usdt_futures'', mt_label = ''USDT/USDC-margined futures/perpetuals'', mt_aliases = [''linear'', ''usdm'', ''usdt-futures'', ''usdc-futures'', ''swap''],
        mt_description = ''Linear derivatives quoted and settled in stablecoins.''\<rparr>,
      \<lparr>mt_id = ''coin_futures'', mt_label = ''Coin-margined futures/perpetuals'', mt_aliases = [''inverse'', ''coinm'', ''coin-futures'', ''inverse-swap''],
        mt_description = ''Inverse derivatives settled in the base coin.''\<rparr>,
      \<lparr>mt_id = ''delivery_futures'', mt_label = ''Delivery futures'', mt_aliases = [''futures'', ''delivery'', ''dated-futures''],
        mt_description = ''Dated futures contracts with expiry/delivery.''\<rparr>,
      \<lparr>mt_id = ''options'', mt_label = ''Options'', mt_aliases = [''option'', ''options''],
        mt_description = ''Listed crypto options where the exchange publishes public market data.''\<rparr>]"

definition binance_info :: exchange_info where
  "binance_info =
     \<lparr>ex_id = ''binance'', ex_name = ''Binance'', ex_rank = 1, ex_status = ''native'',
      ex_native_markets = [''spot'', ''margin'', ''usdm'', ''coinm''],
      ex_listed_market_types = [''spot'', ''margin'', ''usdt_futures'', ''coin_futures'', ''options''],
      ex_public_rest_api = True, ex_public_websocket_api = True, ex_archive = ''official-bulk'',
      ex_recommended_source = ''Official bulk archive first for deep history; REST/WebSocket for recent/live gaps.'',
      ex_api_docs_url = ''https://developers.binance.com/docs/binance-spot-api-docs/rest-api/market-data-endpoints'',
      ex_archive_docs_url = Some ''https://data.binance.vision/'',
      ex_notes = ''Best first-class source for bulk OHLCV/trades because public daily/monthly archives are available.''\<rparr>"

definition bybit_info :: exchange_info where
  "bybit_info =
     \<lparr>ex_id = ''bybit'', ex_name = ''Bybit'', ex_rank = 2, ex_status = ''native'',
      ex_native_markets = [''spot'', ''linear'', ''inverse''],
      ex_listed_market_types = [''spot'', ''usdt_futures'', ''coin_futures'', ''options''],
      ex_public_rest_api = True, ex_public_websocket_api = True, ex_archive = ''official-partial'',
      ex_recommended_source = ''REST/WebSocket for candles/live data; official history downloads where the required dataset is available.'',
      ex_api_docs_url = ''https://bybit-exchange.github.io/docs/'',
      ex_archive_docs_url = Some ''https://www.bybit.com/derivatives/en/history-data'',
      ex_notes = ''Native adapter currently covers spot and linear kline REST paths.''\<rparr>"

definition okx_info :: exchange_info where
  "okx_info =
     \<lparr>ex_id = ''okx'', ex_name = ''OKX'', ex_rank = 3, ex_status = ''native'',
      ex_native_markets = [''spot'', ''margin'', ''linear'', ''inverse'', ''delivery_futures''],
      ex_listed_market_types = [''spot'', ''margin'', ''usdt_futures'', ''coin_futures'', ''delivery_futures'', ''options''],
      ex_public_rest_api = True, ex_public_websocket_api = True, ex_archive = ''api-only'',
      ex_recommended_source = ''Official REST/WebSocket for candles and live data; use a licensed archive vendor for deep order-book/trade replay.'',
      ex_api_docs_url = ''https://www.okx.com/docs-v5/en/'',
      ex_archive_docs_url = None,
      ex_notes = ''Strong API coverage across spot, margin, swaps, futures, and options.''\<rparr>"

definition coinbase_info :: exchange_info where
  "coinbase_info =
     \<lparr>ex_id = ''coinbase'', ex_name = ''Coinbase Exchange'', ex_rank = 4, ex_status = ''native'',
      ex_native_markets = [''spot''],
      ex_listed_market_types = [''spot''],
      ex_public_rest_api = True, ex_public_websocket_api = True, ex_archive = ''api-only'',
      ex_recommended_source = ''Official public Exchange API for spot candles and live feeds; no first-class public bulk archive in this package metadata.'',
      ex_api_docs_url = ''https://docs.cdp.coinbase.com/exchange/introduction/welcome'',
      ex_archive_docs_url = None,
      ex_notes = ''Good regulated spot source; keep derivative/international APIs as separate future adapters.''\<rparr>"

definition kraken_info :: exchange_info where
  "kraken_info =
     \<lparr>ex_id = ''kraken'', ex_name = ''Kraken'', ex_rank = 5, ex_status = ''native'',
      ex_native_markets = [''spot'', ''margin'', ''linear'', ''inverse'', ''delivery_futures''],
      ex_listed_market_types = [''spot'', ''margin'', ''usdt_futures'', ''coin_futures'', ''delivery_futures''],
      ex_public_rest_api = True, ex_public_websocket_api = True, ex_archive = ''official-partial'',
      ex_recommended_source = ''Official downloadable OHLCVT/history where available; REST OHLC is suitable for recent windows only.'',
      ex_api_docs_url = ''https://docs.kraken.com/api/docs/category/rest-api/market-data/'',
      ex_archive_docs_url = Some ''https://support.kraken.com/articles/360047124832-downloadable-historical-ohlcvt-open-high-low-close-volume-trades-data'',
      ex_notes = ''REST OHLC endpoint is capped, so deep history should prefer downloadable files or a dedicated archive source.''\<rparr>"

definition kucoin_info :: exchange_info where
  "kucoin_info =
     \<lparr>ex_id = ''kucoin'', ex_name = ''KuCoin'', ex_rank = 6, ex_status = ''native'',
      ex_native_markets = [''spot'', ''margin'', ''linear'', ''inverse'', ''delivery_futures''],
      ex_listed_market_types = [''spot'', ''margin'', ''usdt_futures'', ''coin_futures'', ''delivery_futures''],
      ex_public_rest_api = True, ex_public_websocket_api = True, ex_archive = ''api-only'',
      ex_recommended_source = ''Official REST/WebSocket for candles/live data; page by time for history.'',
      ex_api_docs_url = ''https://www.kucoin.com/docs-new/introduction'',
      ex_archive_docs_url = None,
      ex_notes = ''Useful broad altcoin venue; futures kline endpoint is public and paginated.''\<rparr>"

definition bitget_info :: exchange_info where
  "bitget_info =
     \<lparr>ex_id = ''bitget'', ex_name = ''Bitget'', ex_rank = 7, ex_status = ''native'',
      ex_native_markets = [''spot'', ''margin'', ''linear'', ''inverse'', ''delivery_futures''],
      ex_listed_market_types = [''spot'', ''margin'', ''usdt_futures'', ''coin_futures'', ''delivery_futures''],
      ex_public_rest_api = True, ex_public_websocket_api = True, ex_archive = ''api-only'',
      ex_recommended_source = ''Official historical-candle REST endpoints by product type; split long ranges by documented granularity limits.'',
      ex_api_docs_url = ''https://www.bitget.com/api-doc/uta/public/Get-Candle-Data'',
      ex_archive_docs_url = None,
      ex_notes = ''Good derivatives coverage; historical endpoints enforce per-request limits.''\<rparr>"

definition gateio_info :: exchange_info where
  "gateio_info =
     \<lparr>ex_id = ''gateio'', ex_name = ''Gate.io'', ex_rank = 8, ex_status = ''native'',
      ex_native_markets = [''spot'', ''margin'', ''linear'', ''inverse'', ''delivery_futures''],
      ex_listed_market_types = [''spot'', ''margin'', ''usdt_futures'', ''coin_futures'', ''delivery_futures'', ''options''],
      ex_public_rest_api = True, ex_public_websocket_api = True, ex_archive = ''third-party'',
      ex_recommended_source = ''Official API for current/paginated market data; licensed third-party archives for complete deep history.'',
      ex_api_docs_url = ''https://www.gate.com/docs/developers/apiv4/en/'',
      ex_archive_docs_url = None,
      ex_notes = ''Broad product surface; prefer explicit adapter tests before enabling live fetch.''\<rparr>"

definition htx_info :: exchange_info where
  "htx_info =
     \<lparr>ex_id = ''htx'', ex_name = ''HTX / Huobi'', ex_rank = 9, ex_status = ''native'',
      ex_native_markets = [''spot'', ''margin'', ''linear'', ''inverse'', ''delivery_futures''],
      ex_listed_market_types = [''spot'', ''margin'', ''usdt_futures'', ''coin_futures'', ''delivery_futures''],
      ex_public_rest_api = True, ex_public_websocket_api = True, ex_archive = ''official-partial'',
      ex_recommended_source = ''Official REST/WebSocket and HTX download-history pages where available; third-party archive for complete replay datasets.'',
      ex_api_docs_url = ''https://www.htx.com/en-us/opend/newApiPages/'',
      ex_archive_docs_url = Some ''https://www.htx.com/en-us/opend/newApiPages/'',
      ex_notes = ''Former Huobi naming appears in third-party archives and some legacy endpoints.''\<rparr>"

definition mexc_info :: exchange_info where
  "mexc_info =
     \<lparr>ex_id = ''mexc'', ex_name = ''MEXC'', ex_rank = 10, ex_status = ''native'',
      ex_native_markets = [''spot'', ''linear'', ''inverse''],
      ex_listed_market_types = [''spot'', ''usdt_futures'', ''coin_futures''],
      ex_public_rest_api = True, ex_public_websocket_api = True, ex_archive = ''official-partial'',
      ex_recommended_source = ''Official spot historical downloads when sufficient; REST kline/futures market endpoints for recent and segmented history.'',
      ex_api_docs_url = ''https://www.mexc.com/api-docs/spot-v3/market-data-endpoints/klinecandlestick-data'',
      ex_archive_docs_url = Some ''https://www.mexc.com/api-docs/spot-v3/market-data-endpoints/download-historical-market-data'',
      ex_notes = ''Spot historical download is documented from 2023; futures market endpoints are public but should be range-paginated.''\<rparr>"

definition exchanges :: "exchange_info list" where
  "exchanges =
     [binance_info, bybit_info, okx_info, coinbase_info, kraken_info, kucoin_info, bitget_info, gateio_info, htx_info, mexc_info]"


subsection \<open>Lookups\<close>

definition exchange_by_id :: "(string \<times> exchange_info) list" where
  "exchange_by_id = dict_of ex_id exchanges"

definition market_type_by_id :: "(string \<times> market_type_info) list" where
  "market_type_by_id = dict_of mt_id market_types"

definition alias_to_market_type :: "(string \<times> string) list" where
  "alias_to_market_type =
     foldl (\<lambda>d (alias, t). AList.update alias t d) []
       (concat (map (\<lambda>m. map (\<lambda>alias. (alias, mt_id m)) (mt_id m # mt_aliases m)) market_types))"

definition dashed :: "char \<Rightarrow> string \<Rightarrow> string" where
  "dashed c s = map (\<lambda>x. if x = c then CHR ''-'' else x) s"

definition exchange_aliases :: "(string \<times> string) list" where
  "exchange_aliases =
     [(''binanceusdm'', ''binance''), (''bybit-v5'', ''bybit''), (''coinbase-exchange'', ''coinbase''),
      (''coinbasepro'', ''coinbase''), (''gate'', ''gateio''), (''gate-io'', ''gateio''), (''huobi'', ''htx''),
      (''mexc-global'', ''mexc'')]"

definition normalize_exchange_id :: "string \<Rightarrow> string" where
  "normalize_exchange_id exchange =
     (let normalized = dashed CHR ''_'' (py_lower (py_strip exchange)) in
      case map_of exchange_aliases normalized of Some x \<Rightarrow> x | None \<Rightarrow> normalized)"

definition normalize_market_type :: "string \<Rightarrow> string res" where
  "normalize_market_type market_type =
     (let normalized = dashed CHR '' '' (dashed CHR ''_'' (py_lower (py_strip market_type))) in
      case map_of alias_to_market_type normalized of Some x \<Rightarrow> Inr x | None \<Rightarrow> Inl (PyKeyError (''Unknown market type: '' @ market_type)))"

definition list_exchanges :: "bool \<Rightarrow> exchange_info list" where
  "list_exchanges native_only = sort_key ex_rank (if native_only then filter native_adapter exchanges else exchanges)"

definition get_exchange :: "string \<Rightarrow> exchange_info res" where
  "get_exchange exchange =
     (case map_of exchange_by_id (normalize_exchange_id exchange) of
        Some e \<Rightarrow> Inr e | None \<Rightarrow> Inl (PyKeyError (''Unknown exchange: '' @ exchange)))"

definition market_type_of_id :: "string \<Rightarrow> market_type_info res" where
  "market_type_of_id t = (case map_of market_type_by_id t of Some m \<Rightarrow> Inr m | None \<Rightarrow> Inl (PyKeyError t))"

definition list_market_types :: "string option \<Rightarrow> market_type_info list res" where
  "list_market_types exchange =
     (case exchange of
        None \<Rightarrow> Inr market_types
      | Some x \<Rightarrow> bindR (get_exchange x) (\<lambda>info. mapR market_type_of_id (ex_listed_market_types info)))"

text \<open>\<open>_NATIVE_EXCHANGE_IDS\<close> of \<^verbatim>\<open>factories.py\<close>.\<close>

definition native_exchange_ids :: "string list" where
  "native_exchange_ids = map ex_id (list_exchanges True)"

subsection \<open>Payloads\<close>

text \<open>A tuple stays a tuple in \<open>asdict\<close>; it is an array here.\<close>

definition json_texts :: "string list \<Rightarrow> json" where
  "json_texts xs = JArr (map JStr xs)"

definition market_type_json :: "market_type_info \<Rightarrow> (string \<times> json) list" where
  "market_type_json m =
     [(''id'', JStr (mt_id m)), (''label'', JStr (mt_label m)), (''aliases'', json_texts (mt_aliases m)),
      (''description'', JStr (mt_description m))]"

definition exchange_json :: "exchange_info \<Rightarrow> (string \<times> json) list" where
  "exchange_json e =
     [(''id'', JStr (ex_id e)), (''name'', JStr (ex_name e)), (''rank'', JInt (ex_rank e)), (''status'', JStr (ex_status e)),
      (''native_markets'', json_texts (ex_native_markets e)), (''listed_market_types'', json_texts (ex_listed_market_types e)),
      (''public_rest_api'', JBool (ex_public_rest_api e)), (''public_websocket_api'', JBool (ex_public_websocket_api e)),
      (''archive'', JStr (ex_archive e)), (''recommended_source'', JStr (ex_recommended_source e)),
      (''api_docs_url'', JStr (ex_api_docs_url e)),
      (''archive_docs_url'', case ex_archive_docs_url e of None \<Rightarrow> JNull | Some u \<Rightarrow> JStr u), (''notes'', JStr (ex_notes e)),
      (''native_adapter'', JBool (native_adapter e))]"

definition exchange_payloads :: "bool \<Rightarrow> (string \<times> json) list list" where
  "exchange_payloads native_only = map exchange_json (list_exchanges native_only)"

definition market_type_payloads :: "string option \<Rightarrow> (string \<times> json) list list res" where
  "market_type_payloads exchange = bindR (list_market_types exchange) (\<lambda>ms. Inr (map market_type_json ms))"

subsection \<open>What the lookups promise\<close>

lemma exchange_ids:
  "map ex_id exchanges = [''binance'', ''bybit'', ''okx'', ''coinbase'', ''kraken'', ''kucoin'', ''bitget'', ''gateio'', ''htx'', ''mexc'']"
  by code_simp

lemma market_type_ids:
  "map mt_id market_types = [''spot'', ''margin'', ''usdt_futures'', ''coin_futures'', ''delivery_futures'', ''options'']"
  by code_simp

lemma exchanges_distinct: "distinct (map ex_id exchanges)"
  by (simp add: exchange_ids)

lemma exchange_lookup: "map_of exchange_by_id k = Some e \<longleftrightarrow> e \<in> set exchanges \<and> ex_id e = k"
  unfolding exchange_by_id_def dict_of_distinct [OF exchanges_distinct]
  using exchanges_distinct by (subst map_of_eq_Some_iff) (auto simp: comp_def)

lemma listed_types_known: "list_all (\<lambda>e. list_all (\<lambda>t. t \<in> set (map mt_id market_types)) (ex_listed_market_types e)) exchanges"
  by code_simp

lemma market_type_lookup: "t \<in> set (map mt_id market_types) \<Longrightarrow> \<exists>m. market_type_of_id t = Inr m \<and> m \<in> set market_types \<and> mt_id m = t"
proof -
  have d: "distinct (map mt_id market_types)" by (simp add: market_type_ids)
  assume "t \<in> set (map mt_id market_types)"
  then obtain m where m: "m \<in> set market_types" "mt_id m = t" by auto
  then have "map_of market_type_by_id t = Some m"
    unfolding market_type_by_id_def dict_of_distinct [OF d] using d by (subst map_of_eq_Some_iff) (auto simp: comp_def)
  with m show ?thesis by (simp add: market_type_of_id_def)
qed

lemma listed_types_found:
  "get_exchange x = Inr info \<Longrightarrow> \<exists>ms. list_market_types (Some x) = Inr ms \<and> map mt_id ms = ex_listed_market_types info \<and> set ms \<subseteq> set market_types"
proof -
  assume g: "get_exchange x = Inr info"
  then have "info \<in> set exchanges" by (auto simp: get_exchange_def exchange_lookup split: option.splits)
  with listed_types_known have l: "\<forall>t \<in> set (ex_listed_market_types info). t \<in> set (map mt_id market_types)"
    by (simp add: list_all_iff)
  define f where "f t = projr (market_type_of_id t)" for t
  have f: "market_type_of_id t = Inr (f t) \<and> f t \<in> set market_types \<and> mt_id (f t) = t" if "t \<in> set (ex_listed_market_types info)" for t
    using market_type_lookup [of t] l that by (auto simp: f_def)
  have "mapR market_type_of_id (ex_listed_market_types info) = Inr (map f (ex_listed_market_types info))"
    using f by (intro mapR_Inr) blast
  moreover have "map mt_id (map f (ex_listed_market_types info)) = ex_listed_market_types info"
    using f by (simp add: map_idI)
  ultimately show ?thesis using g f by (intro exI [of _ "map f (ex_listed_market_types info)"]) (auto simp: list_market_types_def)
qed

text \<open>Stripping, lower case and dashes, taken once.\<close>

lemma dashed_id: "c \<notin> set s \<Longrightarrow> dashed c s = s"
  by (induction s) (auto simp: dashed_def)

lemma py_strip_dashed: "py_strip (dashed CHR ''_'' s) = dashed CHR ''_'' (py_strip s)"
proof -
  have sp: "py_isspace (if x = CHR ''_'' then CHR ''-'' else x) = py_isspace x" for x
    by (simp add: py_isspace_def char_code_def)
  have d: "dropWhile py_isspace (map (\<lambda>x. if x = CHR ''_'' then CHR ''-'' else x) w) =
      map (\<lambda>x. if x = CHR ''_'' then CHR ''-'' else x) (dropWhile py_isspace w)" for w
    using sp by (simp add: dropWhile_map comp_def)
  show ?thesis unfolding py_strip_def dashed_def by (simp only: d rev_map)
qed

lemma lower_dashed: "py_lower (dashed CHR ''_'' s) = dashed CHR ''_'' (py_lower s)"
proof -
  have "char_lower (if x = CHR ''_'' then CHR ''-'' else x) = (if char_lower x = CHR ''_'' then CHR ''-'' else char_lower x)" for x
  proof (cases "x = CHR ''_''")
    case True
    have "char_lower CHR ''-'' = CHR ''-''" "char_lower CHR ''_'' = CHR ''_''" by code_simp+
    with True show ?thesis by simp
  next
    case False
    have "char_code (char_lower x) \<noteq> 95"
    proof
      assume *: "char_code (char_lower x) = 95"
      then have "char_code x = 95" by (auto simp: char_lower_def Let_def split: if_splits)
      moreover have "char_code CHR ''_'' = 95" by code_simp
      ultimately show False using False by (metis char_code_inj)
    qed
    moreover have "char_code CHR ''_'' = 95" by code_simp
    ultimately show ?thesis using False by auto
  qed
  then show ?thesis by (simp add: py_lower_def dashed_def)
qed

lemma dashed_idem: "dashed CHR ''_'' (dashed CHR ''_'' s) = dashed CHR ''_'' s"
  by (simp add: dashed_def)

lemma normalize_exchange_id_idem: "normalize_exchange_id (normalize_exchange_id x) = normalize_exchange_id x"
proof (cases "map_of exchange_aliases (dashed CHR ''_'' (py_lower (py_strip x)))")
  case None
  then show ?thesis
    by (simp add: normalize_exchange_id_def Let_def py_strip_dashed py_strip_lower lower_dashed dashed_idem)
next
  case (Some y)
  then have "y \<in> set (map snd exchange_aliases)" by (force dest: map_of_SomeD)
  moreover have "list_all (\<lambda>y. normalize_exchange_id y = y) (map snd exchange_aliases)" by code_simp
  ultimately have "normalize_exchange_id y = y" by (auto simp: list_all_iff)
  moreover have "normalize_exchange_id x = y" using Some by (simp add: normalize_exchange_id_def Let_def)
  ultimately show ?thesis by simp
qed

lemma get_exchange_iff: "get_exchange x = Inr e \<longleftrightarrow> e \<in> set exchanges \<and> ex_id e = normalize_exchange_id x"
  by (auto simp: get_exchange_def exchange_lookup [symmetric] split: option.splits)

text \<open>
  Every spelling of an exchange finds the one entry of the registry that carries its normal name, which is a fixed point
  of the normalisation, and lists exactly the market types of that entry, each of them known; a name without an entry is
  refused by both lookups with the same error.
\<close>

theorem registry_lookups:
  "normalize_exchange_id (normalize_exchange_id x) = normalize_exchange_id x \<and>
   (case get_exchange x of
      Inr e \<Rightarrow> e \<in> set exchanges \<and> ex_id e = normalize_exchange_id x \<and>
        (\<exists>ms. list_market_types (Some x) = Inr ms \<and> map mt_id ms = ex_listed_market_types e \<and> set ms \<subseteq> set market_types)
    | Inl err \<Rightarrow> normalize_exchange_id x \<notin> set (map ex_id exchanges) \<and> list_market_types (Some x) = Inl err)"
proof (cases "get_exchange x")
  case (Inl err)
  have "normalize_exchange_id x \<noteq> ex_id e" if "e \<in> set exchanges" for e
    using get_exchange_iff [of x e] Inl that by auto
  then show ?thesis using Inl by (auto simp: list_market_types_def normalize_exchange_id_idem)
next
  case (Inr e)
  with get_exchange_iff [of x e] listed_types_found [OF Inr] show ?thesis by (simp add: normalize_exchange_id_idem)
qed

text \<open>
  The names of market types are looked up after underscores have become dashes; of the identifiers with an underscore
  all but one have an alias with the dash.
\<close>

lemma market_type_names:
  "list_all (\<lambda>m. normalize_market_type (mt_id m) = Inr (mt_id m) \<longleftrightarrow> mt_id m \<noteq> ''delivery_futures'') market_types"
  "normalize_market_type ''delivery_futures'' = Inl (PyKeyError ''Unknown market type: delivery_futures'')"
  by code_simp+

end
