(* ===== verification/CandleAdapters.thy ===== *)
theory CandleAdapters
  imports Adapters SnapshotStore Service Registry
begin

section \<open>The stores and providers handed to clients\<close>

text \<open>
  Models the adapters of \<^verbatim>\<open>factories.py\<close>: the candle store of bar series, the candle store of
  canonical snapshots, and the provider of snapshots of an exchange, each over the store and the service of this
  development. The configuration is its two artifact identities and its default exchange. An error text in a
  result is the text the exception carries here.
\<close>

definition error_text :: "error \<Rightarrow> string" where
  "error_text e = (case e of
      MarketDataError s \<Rightarrow> s | MDSymbolAmbiguous s \<Rightarrow> s | MDSymbolUnsupported s \<Rightarrow> s | MDTimeframeUnsupported s \<Rightarrow> s
    | MDInvalidExchangeResponse s \<Rightarrow> s | MDPaginationStalled s \<Rightarrow> s | MDValidationError s \<Rightarrow> s | MDMissingFinality s \<Rightarrow> s
    | MDBarConflict s \<Rightarrow> s | MDIntrabarDataUnavailable s \<Rightarrow> s | MDRuntimeIntrabarUnsupported s \<Rightarrow> s | MDNetworkUnavailable s \<Rightarrow> s
    | MDUnsupportedFeature s \<Rightarrow> s | MDCacheConflict s \<Rightarrow> s | MDWsRestCandleMismatch s \<Rightarrow> s | MDSymbolNotTradableForStream s \<Rightarrow> s
    | InvalidInstrumentError s \<Rightarrow> s | InvalidTimeframeError s \<Rightarrow> s | InvalidBarError s \<Rightarrow> s | InvalidBarQueryError s \<Rightarrow> s
    | CoverageValidationError s \<Rightarrow> s | PyValueError s \<Rightarrow> s | PyTypeError s \<Rightarrow> s | PyKeyError s \<Rightarrow> s | PyStructError s \<Rightarrow> s
    | PyZeroDivisionError s \<Rightarrow> s | PyOverflowError s \<Rightarrow> s | PyIndexError s \<Rightarrow> s | PyRuntimeError s \<Rightarrow> s | PyStopIteration \<Rightarrow> []
    | SqlIntegrityError s \<Rightarrow> s | PyAssertionError \<Rightarrow> [] | PyInvalidOperation \<Rightarrow> [] | PyAttributeError s \<Rightarrow> s
    | PyFileNotFoundError s \<Rightarrow> s)"

text \<open>The subclasses of \<^verbatim>\<open>ValueError\<close>.\<close>

fun is_value_error :: "error \<Rightarrow> bool" where
  "is_value_error (InvalidInstrumentError _) = True"
| "is_value_error (InvalidTimeframeError _) = True"
| "is_value_error (InvalidBarError _) = True"
| "is_value_error (InvalidBarQueryError _) = True"
| "is_value_error (CoverageValidationError _) = True"
| "is_value_error (PyValueError _) = True"
| "is_value_error _ = False"

subsection \<open>Checks of what is stored and of what is written\<close>

definition snapshot_source_identity :: "market_bar list \<Rightarrow> string \<Rightarrow> (string \<times> string) res" where
  "snapshot_source_identity bars default_provider =
     (let providers = set (filter (\<lambda>p. p \<noteq> []) (map m_provider bars)); revisions = set (List.map_filter m_provider_revision bars) in
      if card providers > 1 \<or> (providers \<noteq> {} \<and> providers \<noteq> {default_provider})
      then Inl (MDValidationError ''stored bars disagree on provider identity'')
      else if bars = [] then Inl (MDValidationError ''provider_revision is unavailable for an empty snapshot'')
      else if list_ex (\<lambda>b. m_provider_revision b = None) bars
      then Inl (MDValidationError ''stored bars have partial provider_revision identity'')
      else if card revisions \<noteq> 1 then Inl (MDValidationError ''snapshot bars must share one provider_revision'')
      else Inr (default_provider, hd (List.map_filter m_provider_revision bars)))"

definition stored_bar_error :: "bar_query \<Rightarrow> market_bar \<Rightarrow> string option res" where
  "stored_bar_error q b =
     (case make_instrument (m_exchange b) (m_market b) (m_symbol b) of
        Inl e \<Rightarrow> if is_value_error e then Inr (Some ''stored bar instrument is invalid ('') else Inl e
      | Inr instrument \<Rightarrow>
          (if instrument \<noteq> q_instrument q then Inr (Some ''stored bar instrument does not match query '')
           else
             (case parse_timeframe (m_timeframe b) of
                Inl e \<Rightarrow> if is_value_error e then Inr (Some ''stored bar timeframe is invalid ('') else Inl e
              | Inr timeframe \<Rightarrow>
                  Inr (if \<not> timeframe_eq timeframe (q_timeframe q) then Some ''stored bar timeframe does not match query '' else None))))"

fun stored_bars_read_error :: "bar_query \<Rightarrow> market_bar list \<Rightarrow> string option res" where
  "stored_bars_read_error q [] = Inr None"
| "stored_bars_read_error q (b # bs) =
     bindR (stored_bar_error q b) (\<lambda>e. case e of None \<Rightarrow> stored_bars_read_error q bs | Some msg \<Rightarrow> Inr (Some msg))"

fun series_write_error :: "bar_query \<Rightarrow> contract_bar list \<Rightarrow> string option" where
  "series_write_error q [] = None"
| "series_write_error q (b # bs) =
     (if cb_instrument b \<noteq> q_instrument q then Some ''bar instrument does not match series query ''
      else if \<not> timeframe_eq (cb_timeframe b) (q_timeframe q) then Some ''bar timeframe does not match series query ''
      else series_write_error q bs)"

definition can_bulk_write_closed :: "market_bar list \<Rightarrow> bool" where
  "can_bulk_write_closed bars \<longleftrightarrow> bars \<noteq> [] \<and> list_all (\<lambda>b. m_is_closed b = Some True) bars \<and>
     list_all (\<lambda>b. m_exchange b = m_exchange (hd bars) \<and> m_market b = m_market (hd bars) \<and> m_symbol b = m_symbol (hd bars) \<and>
       m_timeframe b = m_timeframe (hd bars) \<and> m_source_kind b = m_source_kind (hd bars)) bars"

definition closed_conflict :: "'a res" where
  "closed_conflict = Inl (PyValueError ''conflicting closed candle at '')"

fun closed_batch_loop :: "(int \<times> market_bar) list \<Rightarrow> market_bar list \<Rightarrow> (int \<times> market_bar) list res" where
  "closed_batch_loop by_time [] = Inr by_time"
| "closed_batch_loop by_time (b # bs) =
     (case map_of by_time (b_time b) of
        None \<Rightarrow> closed_batch_loop (by_time @ [(b_time b, b)]) bs
      | Some current \<Rightarrow> if same_canonical_candle current b then closed_batch_loop by_time bs else closed_conflict)"

definition normalize_closed_batch :: "market_bar list \<Rightarrow> market_bar list res" where
  "normalize_closed_batch bars = bindR (closed_batch_loop [] (sort_key b_time bars)) (\<lambda>d. Inr (map snd d))"

subsection \<open>Writing many closed candles at once\<close>

text \<open>The overlap with what is stored: whether a bar before the end is missing there.\<close>

fun overlap_backfill :: "(int \<times> market_bar) list \<Rightarrow> market_bar list \<Rightarrow> bool res" where
  "overlap_backfill by_time [] = Inr False"
| "overlap_backfill by_time (b # bs) =
     (case map_of by_time (b_time b) of
        None \<Rightarrow> bindR (overlap_backfill by_time bs) (\<lambda>_. Inr True)
      | Some current \<Rightarrow> if same_canonical_candle current b then overlap_backfill by_time bs else closed_conflict)"

fun backfill_loop :: "(int \<times> market_bar) list \<Rightarrow> int \<Rightarrow> market_bar list \<Rightarrow> ((int \<times> market_bar) list \<times> int) res" where
  "backfill_loop by_time rows_written [] = Inr (by_time, rows_written)"
| "backfill_loop by_time rows_written (b # bs) =
     (case map_of by_time (b_time b) of
        None \<Rightarrow> backfill_loop (by_time @ [(b_time b, b)]) (rows_written + 1) bs
      | Some current \<Rightarrow> if same_canonical_candle current b then backfill_loop by_time rows_written bs else closed_conflict)"

definition backfill_locked ::
  "(byte list \<Rightarrow> byte list) \<Rightarrow> (revision_state \<Rightarrow> string) \<Rightarrow> series_key \<Rightarrow> market_bar list \<Rightarrow> int io" where
  "backfill_locked sha rs key incoming st =
     (case read_all_locked sha rs None None st of
        (Inl e, st') \<Rightarrow> (Inl e, st')
      | (Inr existing, st') \<Rightarrow>
          (case backfill_loop (dict_of b_time existing) 0 incoming of
             Inl e \<Rightarrow> (Inl e, st')
           | Inr (by_time, rows_written) \<Rightarrow>
               (let r = replace_all_locked sha rs key None (sorted_vals by_time) st' in (bindR (fst r) (\<lambda>_. Inr rows_written), snd r))))"

definition append_tail ::
  "(byte list \<Rightarrow> byte list) \<Rightarrow> (revision_state \<Rightarrow> string) \<Rightarrow> series_key \<Rightarrow> market_bar list \<Rightarrow> int io" where
  "append_tail sha rs key later st =
     (if later = [] then (Inr 0, st)
      else let r = append_locked sha rs key later st in (bindR (fst r) (\<lambda>_. Inr (int (length later))), snd r))"

definition bulk_write_locked ::
  "(byte list \<Rightarrow> byte list) \<Rightarrow> (revision_state \<Rightarrow> string) \<Rightarrow> series_key \<Rightarrow> market_bar list \<Rightarrow> int io" where
  "bulk_write_locked sha rs key bars st =
     (case normalize_closed_batch bars of
        Inl e \<Rightarrow> (Inl e, st)
      | Inr incoming \<Rightarrow>
     (case load_segment_manifest st of
        Inl e \<Rightarrow> (Inl e, st)
      | Inr manifest \<Rightarrow>
     (case (case manifest of None \<Rightarrow> None | Some m \<Rightarrow> sm_end_time m) of
        None \<Rightarrow>
          (let r = replace_all_locked sha rs key None incoming st in (bindR (fst r) (\<lambda>_. Inr (int (length incoming))), snd r))
      | Some end_time \<Rightarrow>
          (let overlap = filter (\<lambda>b. b_time b \<le> end_time) incoming; later = filter (\<lambda>b. end_time < b_time b) incoming in
           if overlap = [] then append_tail sha rs key later st
           else
             (case read_all_locked sha rs (Some (b_time (hd overlap))) (Some (b_time (last overlap) + 1)) st of
                (Inl e, st') \<Rightarrow> (Inl e, st')
              | (Inr existing, st') \<Rightarrow>
                  (case overlap_backfill (dict_of b_time existing) overlap of
                     Inl e \<Rightarrow> (Inl e, st')
                   | Inr False \<Rightarrow> append_tail sha rs key later st'
                   | Inr True \<Rightarrow> backfill_locked sha rs key incoming st'))))))"

definition bulk_write_closed ::
  "(byte list \<Rightarrow> byte list) \<Rightarrow> (revision_state \<Rightarrow> string) \<Rightarrow> market_bar list \<Rightarrow> int cio" where
  "bulk_write_closed sha rs bars =
     (let key = bar_key (hd bars) in on_series key (series_writer_lock key (bulk_write_locked sha rs key bars)))"

subsection \<open>The store of bar series\<close>

text \<open>The bars one by one; the rows written before an exception stay counted.\<close>

fun write_each ::
  "(byte list \<Rightarrow> byte list) \<Rightarrow> (revision_state \<Rightarrow> string) \<Rightarrow> int \<Rightarrow> market_bar list \<Rightarrow> candle_state \<Rightarrow> int \<times> error option \<times> candle_state" where
  "write_each sha rs n [] cs = (n, None, cs)"
| "write_each sha rs n (b # bs) cs =
     (case (if m_is_closed b = Some True then commit_closed sha rs b None None None else upsert_open sha rs b None None None) cs of
        (Inl e, cs') \<Rightarrow> (n, Some e, cs')
      | (Inr r, cs') \<Rightarrow> write_each sha rs (if cm_status r \<in> {''committed'', ''upserted''} then n + 1 else n) bs cs')"

definition store_failure :: "int \<Rightarrow> string \<Rightarrow> store_result" where
  "store_failure n msg = \<lparr>sr_success = False, sr_rows_written = n, sr_error = Some msg\<rparr>"

definition store_success :: "int \<Rightarrow> store_result" where
  "store_success n = \<lparr>sr_success = True, sr_rows_written = n, sr_error = None\<rparr>"

definition write_series :: "service \<Rightarrow> bar_series \<Rightarrow> candle_state \<Rightarrow> store_result \<times> candle_state" where
  "write_series sv series cs =
     (case series_write_error (bs_query series) (bs_bars series) of
        Some msg \<Rightarrow> (store_failure 0 msg, cs)
      | None \<Rightarrow>
          (case mapR (contract_to_market_bar (sv_hash sv)) (bs_bars series) of
             Inl e \<Rightarrow> (store_failure 0 (error_text e), cs)
           | Inr bars \<Rightarrow>
               (if can_bulk_write_closed bars then
                  (case bulk_write_closed (sv_sha sv) (sv_rs sv) bars cs of
                     (Inl e, cs') \<Rightarrow> (store_failure 0 (error_text e), cs')
                   | (Inr n, cs') \<Rightarrow> (store_success n, cs'))
                else
                  (case write_each (sv_sha sv) (sv_rs sv) 0 bars cs of
                     (n, Some e, cs') \<Rightarrow> (store_failure n (error_text e), cs')
                   | (n, None, cs') \<Rightarrow> (store_success n, cs')))))"

definition checked_stored_bars :: "service \<Rightarrow> bar_query \<Rightarrow> market_bar list cio" where
  "checked_stored_bars sv q =
     and_then (stored_bars sv q) (\<lambda>bars.
     and_then (lift_res (stored_bars_read_error q bars)) (\<lambda>e.
     case e of Some msg \<Rightarrow> lift_res (Inl (CoverageValidationError msg)) | None \<Rightarrow> return_io bars))"

definition read_series :: "service \<Rightarrow> bar_query \<Rightarrow> bar_series cio" where
  "read_series sv q = and_then (checked_stored_bars sv q) (\<lambda>bars. lift_res (series_from_market_bars q bars ''storage''))"

definition series_coverage :: "service \<Rightarrow> bar_query \<Rightarrow> coverage_report cio" where
  "series_coverage sv q = and_then (read_series sv q) (\<lambda>s. return_io (bs_coverage s))"

definition query_latest_bar_time :: "bar_query \<Rightarrow> candle_state \<Rightarrow> int option res" where
  "query_latest_bar_time q = latest_bar_time (query_key q)"

subsection \<open>The store of canonical snapshots\<close>

record artifact_identity =
  ai_producer_commit :: json
  ai_stack_id :: json

definition snapshot_of_bars ::
  "contracts \<Rightarrow> bar_query \<Rightarrow> string \<Rightarrow> json \<Rightarrow> json \<Rightarrow> market_bar list \<Rightarrow> data_snapshot res" where
  "snapshot_of_bars ct q default_provider commit stack bars =
     bindR (snapshot_source_identity bars default_provider) (\<lambda>(provider, revision).
     bindR (known_provider_revision (JStr revision)) (\<lambda>known.
     snapshot_from_market_bars ct q bars provider (revision_json known) commit stack ''CLOSED_BAR_ONLY''))"

definition canonical_read :: "contracts \<Rightarrow> service \<Rightarrow> artifact_identity \<Rightarrow> bar_query \<Rightarrow> data_snapshot cio" where
  "canonical_read ct sv ai q =
     and_then (lift_res (validate_artifact_identity (ai_producer_commit ai) (ai_stack_id ai))) (\<lambda>(commit, stack).
     and_then (checked_stored_bars sv q) (\<lambda>bars.
     lift_res (snapshot_of_bars ct q (ik_exchange (q_instrument q)) (JStr commit) (JStr stack) bars)))"

fun write_canonical_each ::
  "contracts \<Rightarrow> service \<Rightarrow> int \<Rightarrow> snapshot_bar list \<Rightarrow> candle_state \<Rightarrow> int \<times> error option \<times> candle_state" where
  "write_canonical_each ct sv n [] cs = (n, None, cs)"
| "write_canonical_each ct sv n (b # bs) cs =
     (case market_bar_from_canonical ct (sb_dict b) of
        Inl e \<Rightarrow> (n, Some e, cs)
      | Inr m \<Rightarrow>
          (case write_each (sv_sha sv) (sv_rs sv) n [m] cs of
             (n', Some e, cs') \<Rightarrow> (n', Some e, cs')
           | (n', None, cs') \<Rightarrow> write_canonical_each ct sv n' bs cs'))"

definition canonical_write :: "contracts \<Rightarrow> service \<Rightarrow> dict \<Rightarrow> candle_state \<Rightarrow> store_result \<times> candle_state" where
  "canonical_write ct sv snapshot cs =
     (case validate_canonical_snapshot ct snapshot of
        Inl e \<Rightarrow> (store_failure 0 (error_text e), cs)
      | Inr validated \<Rightarrow>
          (case write_canonical_each ct sv 0 (ds_bars validated) cs of
             (n, Some e, cs') \<Rightarrow> (store_failure n (error_text e), cs')
           | (n, None, cs') \<Rightarrow> (store_success n, cs')))"

definition canonical_coverage :: "contracts \<Rightarrow> service \<Rightarrow> artifact_identity \<Rightarrow> bar_query \<Rightarrow> snapshot_coverage cio" where
  "canonical_coverage ct sv ai q = and_then (canonical_read ct sv ai q) (\<lambda>ds. return_io (ds_coverage ds))"

subsection \<open>The provider of an exchange\<close>

definition canonical_v2_exchanges :: "string set" where
  "canonical_v2_exchanges = {''binance'', ''bybit''}"

definition add_current :: "bar_query \<Rightarrow> market_bar list \<Rightarrow> market_bar option \<Rightarrow> market_bar list" where
  "add_current q bars current =
     (case current of
        None \<Rightarrow> bars
      | Some c \<Rightarrow>
          (if q_start_ms q \<le> b_time c \<and> b_time c < q_end_ms q then sort_key b_time (sort_key m_revision (bars @ [c])) else bars))"

definition exchange_fetch_bars ::
  "contracts \<Rightarrow> service \<Rightarrow> artifact_identity \<Rightarrow> string \<Rightarrow> bar_query \<Rightarrow> data_snapshot cio" where
  "exchange_fetch_bars ct sv ai default_exchange q =
     (let exchange = py_lower (if default_exchange \<noteq> [] then default_exchange else ik_exchange (q_instrument q)) in
      if exchange \<notin> set native_exchange_ids then lift_res (Inl (MDUnsupportedFeature ''Unsupported provider exchange: ''))
      else if exchange \<notin> canonical_v2_exchanges
      then lift_res (Inl (MDUnsupportedFeature ''Canonical v2 finality is unavailable for exchange: ''))
      else
        and_then (lift_res (validate_artifact_identity (ai_producer_commit ai) (ai_stack_id ai))) (\<lambda>(commit, stack).
        and_then (fetch_bars sv q) (\<lambda>_.
        and_then (stored_bars sv q) (\<lambda>bars.
        and_then (\<lambda>cs. (get_current_market_candle (sv_rs sv) (query_key q) cs, cs)) (\<lambda>current.
        lift_res (snapshot_of_bars ct q exchange (JStr commit) (JStr stack) (add_current q bars current)))))))"

end
