(* ===== verification/SnapshotSafety.thy ===== *)
theory SnapshotSafety
  imports SnapshotStore
begin

section \<open>A snapshot taken back\<close>

text \<open>
  What a snapshot becomes when it is handed back: its bars normalise to themselves, are resolved
  again one by one, and the envelope is sealed again from the same parts.
\<close>

subsection \<open>Values equal to themselves\<close>

fun json_plain :: "json \<Rightarrow> bool" where
  "json_plain (JFloat x) = f_eq x x"
| "json_plain (JArr xs) = list_all json_plain xs"
| "json_plain (JObj d) = (distinct (map fst d) \<and> list_all (\<lambda>(k, v). json_plain v) d)"
| "json_plain _ = True"

lemma json_eq_refl: "json_plain j \<Longrightarrow> json_eq j j"
proof (induction j)
  case (JArr xs)
  then show ?case by (auto simp: list_all_iff zip_same)
next
  case (JObj d)
  then have "json_eq v v" if "(k, v) \<in> set d" for k v using that by (fastforce simp: list_all_iff)
  then show ?case using JObj.prems by (auto simp: list_all_iff)
qed simp_all

subsection \<open>Setting fields\<close>

definition set_fields :: "(string \<times> json) list \<Rightarrow> dict \<Rightarrow> dict" where
  "set_fields kvs d = foldl (\<lambda>d (k, v). set_field k v d) d kvs"

lemma set_field_get [simp]: "obj_get (set_field k v d) k' = (if k' = k then v else obj_get d k')"
  by (simp add: set_field_def obj_get_def update_conv')

lemma set_field_map_of: "map_of (set_field k v d) k' = (if k' = k then Some v else map_of d k')"
  by (simp add: set_field_def update_conv')

lemma set_field_same: "map_of d k = Some v \<Longrightarrow> set_field k v d = d"
  unfolding set_field_def by (induction d) (auto split: if_splits)

lemma set_field_keys [simp]: "fst ` set (set_field k v d) = insert k (fst ` set d)"
  by (simp add: set_field_def dom_update)

lemma set_fields_simps [simp]: "set_fields [] d = d" "set_fields ((k, v) # kvs) d = set_fields kvs (set_field k v d)"
  by (simp_all add: set_fields_def)

lemma set_fields_other: "k \<notin> fst ` set kvs \<Longrightarrow> map_of (set_fields kvs d) k = map_of d k"
  by (induction kvs arbitrary: d) (auto simp: set_field_map_of)

lemma set_fields_get: "distinct (map fst kvs) \<Longrightarrow> (k, v) \<in> set kvs \<Longrightarrow> map_of (set_fields kvs d) k = Some v"
proof (induction kvs arbitrary: d)
  case (Cons kv kvs)
  then show ?case by (cases kv) (auto simp: set_fields_other set_field_map_of)
qed simp

lemma set_fields_same: "list_all (\<lambda>(k, v). map_of d k = Some v) kvs \<Longrightarrow> set_fields kvs d = d"
  by (induction kvs) (auto simp: set_field_same)

lemma set_fields_again: "distinct (map fst kvs) \<Longrightarrow> set_fields kvs (set_fields kvs d) = set_fields kvs d"
  by (rule set_fields_same) (auto simp: list_all_iff intro: set_fields_get)

lemma set_fields_keys: "fst ` set d \<subseteq> fst ` set (set_fields kvs d)"
proof (induction kvs arbitrary: d)
  case (Cons kv kvs)
  obtain k v where "kv = (k, v)" by force
  then show ?case using Cons.IH [of "set_field k v d"] by auto
qed simp

subsection \<open>A checked bar is checked again\<close>

text \<open>
  What is relied on of the contracts package: the texts of revision states are distinct, the text
  of a decimal is its own canonical text, and sealing sets one field, the digest, to a text.
\<close>

definition contracts_ok :: "contracts \<Rightarrow> bool" where
  "contracts_ok ct \<longleftrightarrow> rs_ok (ct_rs ct) \<and>
     (\<forall>v s. ct_decimal_string ct v = Some s \<longrightarrow> ct_decimal_string ct (JStr s) = Some s) \<and>
     (\<forall>d schema. \<exists>h. ct_seal ct d schema = set_field ''content_hash'' (JStr h) d)"

definition normal_fields ::
  "contracts \<Rightarrow> string \<Rightarrow> revision_state \<Rightarrow> int \<Rightarrow> string \<Rightarrow> string \<Rightarrow> int \<Rightarrow> int \<Rightarrow> price_texts \<Rightarrow> string option \<Rightarrow> dict" where
  "normal_fields ct finality state revision provider_revision tf open_ms close_ms p lineage =
     [(''finality'', JStr finality), (''revision_state'', JStr (ct_rs ct state)), (''revision'', JInt revision),
      (''provider_revision'', revision_json provider_revision), (''timeframe'', JStr tf), (''open_time_utc_ms'', JInt open_ms),
      (''close_time_utc_ms'', JInt close_ms), (''open'', JStr (pt_open p)), (''high'', JStr (pt_high p)), (''low'', JStr (pt_low p)),
      (''close'', JStr (pt_close p)), (''volume'', JStr (pt_volume p)), (''superseded_bar_hash'', opt_str lineage)]"

lemma normalized_dict_fields:
  "normalized_dict ct bar finality state revision provider_revision tf open_ms close_ms p lineage =
     set_fields (normal_fields ct finality state revision provider_revision tf open_ms close_ms p lineage) bar"
  by (simp add: normalized_dict_def set_fields_def normal_fields_def)

lemma normal_fields_distinct:
  "distinct (map fst (normal_fields ct finality state revision provider_revision tf open_ms close_ms p lineage))"
  by (simp add: normal_fields_def)

lemma normalize_finality_Inr: "normalize_finality ct v = Inr s \<longleftrightarrow> v = JStr s \<and> ct_finality ct s"
  by (cases v) (auto simp: normalize_finality_def)

lemma normalize_state_again: "contracts_ok ct \<Longrightarrow> normalize_revision_state ct (JStr (ct_rs ct m)) = Inr m"
  by (simp add: normalize_revision_state_def contracts_ok_def revision_state_of_rs)

lemma normalize_revision_again: "normalize_revision v m = Inr n \<Longrightarrow> normalize_revision (JInt n) m = Inr n"
  by (auto simp: normalize_revision_def integer_field_Inr bindR_Inr split: if_splits)

lemma normalize_provider_again: "normalize_provider_revision v = Inr s \<Longrightarrow> normalize_provider_revision (revision_json s) = Inr s"
  by (cases v) (auto simp: normalize_provider_revision_def revision_json_def known_provider_revision_def obj_get_def
      split: if_splits json.splits)

lemma timeframe_field_again: "canonical_timeframe_field v = Inr tf \<Longrightarrow> canonical_timeframe_field (JStr tf) = Inr tf"
  using timeframe_field_same [of v tf] by simp

lemma close_time_again: "canonical_close_time tf t v = Inr n \<Longrightarrow> canonical_close_time tf t (JInt n) = Inr n \<or> n < 0"
  by (auto simp: canonical_close_time_def bindR_Inr integer_field_def split: if_splits)

lemma decimal_again: "contracts_ok ct \<Longrightarrow> decimal_field ct v = Inr s \<Longrightarrow> decimal_field ct (JStr s) = Inr s"
  by (cases v) (auto simp: decimal_field_def contracts_ok_def split: option.splits)

lemma prices_again:
  assumes "contracts_ok ct" and "validated_prices ct o' h l c v = Inr p"
  shows "validated_prices ct (JStr (pt_open p)) (JStr (pt_high p)) (JStr (pt_low p)) (JStr (pt_close p)) (JStr (pt_volume p)) = Inr p"
proof -
  have "decimal_field ct o' = Inr (pt_open p)" "decimal_field ct h = Inr (pt_high p)" "decimal_field ct l = Inr (pt_low p)"
    "decimal_field ct c = Inr (pt_close p)" "decimal_field ct v = Inr (pt_volume p)"
    using assms(2) unfolding validated_prices_def by (auto simp: bindR_Inr split: if_splits)
  moreover from this have "decimal_field ct (JStr (pt_open p)) = Inr (pt_open p)" "decimal_field ct (JStr (pt_high p)) = Inr (pt_high p)"
    "decimal_field ct (JStr (pt_low p)) = Inr (pt_low p)" "decimal_field ct (JStr (pt_close p)) = Inr (pt_close p)"
    "decimal_field ct (JStr (pt_volume p)) = Inr (pt_volume p)"
    using decimal_again [OF assms(1)] by blast+
  ultimately show ?thesis using assms(2) unfolding validated_prices_def by simp
qed

lemma superseded_again: "superseded_hash v m = Inr lin \<Longrightarrow> superseded_hash (opt_str lin) m = Inr lin"
  by (cases v) (auto simp: superseded_hash_def opt_str_def split: if_splits)

lemma missing_field_None: "missing_field d = None \<longleftrightarrow> set required_bar_fields \<subseteq> fst ` set d"
  by (auto simp: missing_field_def find_None_iff)

lemma normalize_again:
  assumes "contracts_ok ct" and "normalize_snapshot_bar ct d = Inr b"
  shows "normalize_snapshot_bar ct (sb_dict b) = Inr b"
proof -
  obtain finality state revision pr tf op cl p lin where f: "normalize_finality ct (obj_get d ''finality'') = Inr finality"
    "normalize_revision_state ct (obj_get d ''revision_state'') = Inr state" "normalize_revision (obj_get d ''revision'') state = Inr revision"
    "normalize_provider_revision (obj_get d ''provider_revision'') = Inr pr" "canonical_timeframe_field (obj_get d ''timeframe'') = Inr tf"
    "integer_field (obj_get d ''open_time_utc_ms'') = Inr op" "canonical_close_time tf op (obj_get d ''close_time_utc_ms'') = Inr cl"
    "validated_prices ct (obj_get d ''open'') (obj_get d ''high'') (obj_get d ''low'') (obj_get d ''close'') (obj_get d ''volume'') = Inr p"
    "superseded_hash (obj_get d ''superseded_bar_hash'') state = Inr lin"
    and m: "missing_field d = None" "''finality'' \<in> fst ` set d"
    using assms(2) by (auto simp: normalize_snapshot_bar_def bindR_Inr Let_def split: if_splits)
  define D where "D = normalized_dict ct d finality state revision pr tf op cl p lin"
  let ?kvs = "normal_fields ct finality state revision pr tf op cl p lin"
  have D: "D = set_fields ?kvs d" by (simp add: D_def normalized_dict_fields)
  have v: "\<exists>u. ct_validate ct bar_schema_id D = Inr u" "ct_verify ct D bar_schema_id" "obj_get D ''bar_content_hash'' = JStr (bar_content_hash ct D)"
    and b: "b = \<lparr>sb_dict = D, sb_open = op, sb_close = cl, sb_finality = finality, sb_state = state, sb_revision = revision,
      sb_provider = obj_get D ''provider'', sb_hash = bar_content_hash ct D, sb_superseded = lin\<rparr>"
    using assms(2) f m D_def [symmetric] by (auto simp: normalize_snapshot_bar_def Let_def split: if_splits sum.splits)
  have get: "obj_get D k = v" if "(k, v) \<in> set ?kvs" for k v
    using set_fields_get [OF normal_fields_distinct that] by (simp add: D obj_get_def)
  have again: "normalized_dict ct D finality state revision pr tf op cl p lin = D"
    unfolding normalized_dict_fields D by (rule set_fields_again) (rule normal_fields_distinct)
  have keys: "''finality'' \<in> fst ` set D" "missing_field D = None"
    using m set_fields_keys [of d ?kvs] unfolding D missing_field_None by blast+
  have nonneg: "0 \<le> op" "op \<le> cl" using f(6) normalized_bar_ordered [OF assms(2)] b by (auto simp: integer_field_Inr)
  then have cl: "canonical_close_time tf op (JInt cl) = Inr cl" using close_time_again [OF f(7)] by simp
  have op: "integer_field (JInt op) = Inr op" using nonneg by (simp add: integer_field_def)
  have fin: "normalize_finality ct (JStr finality) = Inr finality" using f(1) by (simp add: normalize_finality_Inr)
  have g: "obj_get D ''finality'' = JStr finality" "obj_get D ''revision_state'' = JStr (ct_rs ct state)" "obj_get D ''revision'' = JInt revision"
    "obj_get D ''provider_revision'' = revision_json pr" "obj_get D ''timeframe'' = JStr tf" "obj_get D ''open_time_utc_ms'' = JInt op"
    "obj_get D ''close_time_utc_ms'' = JInt cl" "obj_get D ''open'' = JStr (pt_open p)" "obj_get D ''high'' = JStr (pt_high p)"
    "obj_get D ''low'' = JStr (pt_low p)" "obj_get D ''close'' = JStr (pt_close p)" "obj_get D ''volume'' = JStr (pt_volume p)"
    "obj_get D ''superseded_bar_hash'' = opt_str lin"
    by (rule get, simp add: normal_fields_def)+
  obtain u where u: "ct_validate ct bar_schema_id D = Inr u" using v(1) by blast
  have "normalize_snapshot_bar ct D = Inr b"
    using keys v(2,3) unfolding normalize_snapshot_bar_def g b
    by (simp add: fin op cl normalize_state_again [OF assms(1)] normalize_revision_again [OF f(3)] normalize_provider_again [OF f(4)]
        timeframe_field_again [OF f(5)] prices_again [OF assms(1) f(8)] superseded_again [OF f(9)] again u Let_def)
  then show ?thesis by (simp add: b)
qed

text \<open>A bar that a snapshot kept: it normalises to itself.\<close>

definition settled :: "contracts \<Rightarrow> snapshot_bar \<Rightarrow> bool" where
  "settled ct b \<longleftrightarrow> normalize_snapshot_bar ct (sb_dict b) = Inr b"

lemma collected_settled:
  assumes "contracts_ok ct" and "collect_bars ct snapshot instrument tf pr start stop previous raws = Inr bs"
  shows "list_all (settled ct) bs"
  using assms(2)
proof (induction raws arbitrary: previous bs)
  case (Cons raw raws)
  obtain d b bs' where "normalize_snapshot_bar ct d = Inr b" "bs = b # bs'"
    "collect_bars ct snapshot instrument tf pr start stop (Some (sb_open b)) raws = Inr bs'"
    using Cons.prems by (cases raw) (auto simp: bindR_Inr split: if_splits)
  then show ?case using Cons.IH normalize_again [OF assms(1)] by (auto simp: settled_def)
qed simp

lemma collect_again:
  assumes "list_all (settled ct) bs" and "list_all (bar_of_snapshot snapshot instrument tf pr start stop) bs" and "apart bs"
    and "\<forall>b \<in> set bs. case previous of None \<Rightarrow> True | Some t \<Rightarrow> t \<le> sb_open b"
  shows "collect_bars ct snapshot instrument tf pr start stop previous (map (\<lambda>b. JObj (sb_dict b)) bs) = Inr bs"
  using assms
proof (induction bs arbitrary: previous)
  case (Cons b bs)
  have b: "normalize_snapshot_bar ct (sb_dict b) = Inr b" "bar_of_snapshot snapshot instrument tf pr start stop b"
    "\<not> (case previous of None \<Rightarrow> False | Some t \<Rightarrow> sb_open b < t)"
    using Cons.prems by (auto simp: settled_def split: option.splits)
  have "\<forall>x \<in> set bs. sb_open b \<le> sb_open x" using Cons.prems(3) b(2) by (force simp: apart_def bar_of_snapshot_def)
  then have "collect_bars ct snapshot instrument tf pr start stop (Some (sb_open b)) (map (\<lambda>b. JObj (sb_dict b)) bs) = Inr bs"
    using Cons.IH [of "Some (sb_open b)"] Cons.prems(1-3) by (simp add: apart_def)
  then show ?case using b by (simp add: bar_of_snapshot_def)
qed simp

subsection \<open>Kept bars are resolved again\<close>

definition missing_predecessor :: "'a res" where
  "missing_predecessor = bar_conflict ''revision chain is missing the preceding canonical bar''"

lemma resolve_single:
  "resolve_bar_group [b] = (if sb_state b = ORIGINAL then Inr (Some b, [], None) else missing_predecessor)"
  by (simp add: resolve_bar_group_def missing_predecessor_def duplicates_of_def bar_conflict_def Let_def map_filter_simps)

lemma resolve_again:
  assumes "apart bs" and "\<forall>b \<in> set bs. sb_open b \<le> sb_close b \<and> keepable ct policy b \<and> after_close previous b"
  shows "resolve_groups ct policy previous bs =
    (if list_all (\<lambda>b. sb_state b = ORIGINAL) bs then Inr (bs, [], []) else missing_predecessor)"
  using assms
proof (induction bs arbitrary: previous)
  case (Cons b bs)
  have b: "sb_open b \<le> sb_close b" "keepable ct policy b" "after_close previous b" "\<forall>x \<in> set bs. sb_close b < sb_open x" "apart bs"
    using Cons.prems by (simp_all add: apart_def)
  have tw: "takeWhile (\<lambda>x. sb_open x = sb_open b) bs = []" "dropWhile (\<lambda>x. sb_open x = sb_open b) bs = bs"
    using b(1,4) by (cases bs; force)+
  have "\<not> (case previous of None \<Rightarrow> False | Some t \<Rightarrow> sb_open b \<le> t)" using b(3) by (auto simp: after_close_def split: option.splits)
  moreover have "resolve_groups ct policy (Some (sb_close b)) bs =
      (if list_all (\<lambda>b. sb_state b = ORIGINAL) bs then Inr (bs, [], []) else missing_predecessor)"
    using Cons.IH [of "Some (sb_close b)"] Cons.prems(2) b(4,5) by (simp add: after_close_def)
  moreover have "policy = ''ALLOW_OPEN'' \<or> sb_finality b = ct_final ct" using b(2) by (simp add: keepable_def)
  ultimately show ?case
    by (auto simp: tw resolve_single Let_def missing_predecessor_def bar_conflict_def split: if_splits)
qed simp

subsection \<open>The rest of the construction\<close>

definition assemble :: "contracts \<Rightarrow> json \<Rightarrow> snapshot_request \<Rightarrow> string \<Rightarrow> string \<Rightarrow> string \<Rightarrow> string \<Rightarrow> int \<Rightarrow> int \<Rightarrow> resolved \<Rightarrow> data_snapshot res" where
  "assemble ct clock r snapshot instrument tf pr start stop = (\<lambda>(kept, duplicates, rcs).
     let query = contract_query instrument tf start stop (sr_policy r);
         coverage = coverage_metadata kept start stop;
         identity = JObj [(''query'', JObj query), (''provider_revision'', revision_json pr),
           (''ordered_bar_content_hashes'', JArr (map (\<lambda>b. JStr (sb_hash b)) kept))] in
     bindR (integer_field clock) (\<lambda>created_at.
     let series_hash = ct_hash ct identity ''marketdata-provider.series.v1'';
         body = JObj [(''snapshot_id'', JStr snapshot), (''query'', JObj query), (''bar_count'', JInt (int (length kept))),
           (''series_hash'', JStr series_hash), (''coverage'', ranges_json instrument tf (contract_coverage kept)),
           (''gaps'', gaps_json (snd coverage)), (''conflicts'', JArr []), (''provider_revision'', revision_json pr),
           (''created_at_utc_ms'', JInt created_at)] in
     bindR (envelope_metadata ct (sr_producer_commit r) (sr_stack_id r) (JInt created_at)) (\<lambda>meta.
     bindR (seal_and_validate ct snapshot_schema_id
              ([(''schema_id'', JStr snapshot_schema_id)] @ meta @ [(''kind'', JStr ''snapshot''), (''body'', body)])) (\<lambda>envelope.
     Inr \<lparr>ds_envelope = envelope, ds_bars = kept, ds_snapshot_id = snapshot, ds_provider_revision = pr,
          ds_query = JObj (query @ [(''provider_revision'', revision_json pr)]), ds_coverage = fst coverage,
          ds_gaps = snd coverage, ds_duplicates = duplicates, ds_chains = rcs, ds_created_at = created_at,
          ds_series_hash = series_hash\<rparr>))))"

definition policy_ok :: "string \<Rightarrow> bool" where
  "policy_ok policy \<longleftrightarrow> policy = ''CLOSED_BAR_ONLY'' \<or> policy = ''ALLOW_OPEN''"

lemma build_asked:
  assumes "asked r snapshot instrument tf pr start stop" and "snapshot \<noteq> []" and "instrument \<noteq> []"
    and "canonical_timeframe_field (JStr tf) = Inr tf" and "0 \<le> start" and "policy_ok (sr_policy r)"
  shows "build_data_snapshot ct clock r raws =
    bindR (collect_bars ct snapshot instrument tf pr start stop None raws) (\<lambda>normalized.
    bindR (resolve_groups ct (sr_policy r) None normalized) (assemble ct clock r snapshot instrument tf pr start stop))"
  using assms unfolding build_data_snapshot_def assemble_def asked_def policy_ok_def
  by (auto simp: required_text_def integer_field_def Let_def)

lemma build_parts:
  assumes "build_data_snapshot ct clock r raws = Inr ds"
  shows "\<exists>snapshot instrument tf pr start stop normalized.
    asked r snapshot instrument tf pr start stop \<and> snapshot \<noteq> [] \<and> instrument \<noteq> [] \<and>
    canonical_timeframe_field (JStr tf) = Inr tf \<and> 0 \<le> start \<and> policy_ok (sr_policy r) \<and>
    collect_bars ct snapshot instrument tf pr start stop None raws = Inr normalized \<and>
    resolve_groups ct (sr_policy r) None normalized = Inr (ds_bars ds, ds_duplicates ds, ds_chains ds) \<and>
    assemble ct clock r snapshot instrument tf pr start stop (ds_bars ds, ds_duplicates ds, ds_chains ds) = Inr ds"
proof -
  obtain snapshot instrument tf pr start stop where f: "required_text (sr_snapshot_id r) = Inr snapshot"
    "required_text (sr_instrument_id r) = Inr instrument" "canonical_timeframe_field (sr_timeframe r) = Inr tf"
    "normalize_provider_revision (sr_provider_revision r) = Inr pr"
    "integer_field (sr_start r) = Inr start" "integer_field (sr_end r) = Inr stop"
    using assms unfolding build_data_snapshot_def by (auto simp only: bindR_Inr)
  have "start < stop" "policy_ok (sr_policy r)" using assms f by (auto simp: build_data_snapshot_def policy_ok_def split: if_splits)
  moreover from this have a: "asked r snapshot instrument tf pr start stop" "snapshot \<noteq> []" "instrument \<noteq> []" "0 \<le> start"
    using f timeframe_field_same [OF f(3)] by (simp_all add: asked_def integer_field_Inr required_text_Inr)
  moreover note tf = timeframe_field_again [OF f(3)]
  ultimately have "bindR (collect_bars ct snapshot instrument tf pr start stop None raws) (\<lambda>normalized.
      bindR (resolve_groups ct (sr_policy r) None normalized) (assemble ct clock r snapshot instrument tf pr start stop)) = Inr ds"
    using assms build_asked [of r snapshot instrument tf pr start stop ct clock raws] by simp
  then obtain normalized g where g: "collect_bars ct snapshot instrument tf pr start stop None raws = Inr normalized"
    "resolve_groups ct (sr_policy r) None normalized = Inr g" "assemble ct clock r snapshot instrument tf pr start stop g = Inr ds"
    by (auto simp: bindR_Inr)
  then have "g = (ds_bars ds, ds_duplicates ds, ds_chains ds)"
    by (cases g) (auto simp: assemble_def Let_def bindR_Inr)
  with g a tf \<open>policy_ok (sr_policy r)\<close> show ?thesis by blast
qed

subsection \<open>The envelope\<close>

lemma plain_set_field: "json_plain (JObj d) \<Longrightarrow> json_plain v \<Longrightarrow> json_plain (JObj (set_field k v d))"
  unfolding set_field_def by (induction d) (auto simp: dom_update split: if_splits)

definition snapshot_body :: "data_snapshot \<Rightarrow> string \<Rightarrow> string \<Rightarrow> int \<Rightarrow> int \<Rightarrow> string \<Rightarrow> dict" where
  "snapshot_body ds instrument tf start stop policy =
     [(''snapshot_id'', JStr (ds_snapshot_id ds)), (''query'', JObj (contract_query instrument tf start stop policy)),
      (''bar_count'', JInt (int (length (ds_bars ds)))), (''series_hash'', JStr (ds_series_hash ds)),
      (''coverage'', ranges_json instrument tf (contract_coverage (ds_bars ds))), (''gaps'', gaps_json (ds_gaps ds)),
      (''conflicts'', JArr []), (''provider_revision'', revision_json (ds_provider_revision ds)), (''created_at_utc_ms'', JInt (ds_created_at ds))]"

lemma snapshot_body_plain: "json_plain (JObj (snapshot_body ds instrument tf start stop policy))"
  by (auto simp: snapshot_body_def contract_query_def ranges_json_def gaps_json_def revision_json_def list_all_iff)

lemma envelope_metadata_Inr:
  assumes "envelope_metadata ct commit stack (JInt n) = Inr meta"
  shows "\<exists>c s. commit = JStr c \<and> stack = JStr s \<and>
    meta = [(''schema_version'', JStr ''2.1.0''), (''producer'', JStr ''marketdata-provider''), (''producer_version'', JStr ''5.0.0-rc.5''),
      (''producer_commit'', JStr c), (''stack_id'', JStr s), (''created_at_utc_ms'', JInt n),
      (''serializer_id'', JStr (ct_serializer_id ct)), (''content_hash_alg'', JStr (ct_hash_alg ct))]"
  using assms unfolding envelope_metadata_def validate_artifact_identity_def
  by (cases commit; cases stack) (auto split: if_splits)

lemma assembled:
  assumes "contracts_ok ct" and "assemble ct clock r snapshot instrument tf pr start stop (kept, dups, rcs) = Inr ds"
  shows "\<exists>commit stack. sr_producer_commit r = JStr commit \<and> sr_stack_id r = JStr stack \<and> clock = JInt (ds_created_at ds) \<and>
    ds_snapshot_id ds = snapshot \<and> ds_provider_revision ds = pr \<and>
    ds_query ds = JObj (contract_query instrument tf start stop (sr_policy r) @ [(''provider_revision'', revision_json pr)]) \<and>
    json_plain (JObj (ds_envelope ds)) \<and> obj_get (ds_envelope ds) ''kind'' = JStr ''snapshot'' \<and>
    obj_get (ds_envelope ds) ''body'' = JObj (snapshot_body ds instrument tf start stop (sr_policy r)) \<and>
    map_of (ds_envelope ds) ''producer_commit'' = Some (JStr commit) \<and> map_of (ds_envelope ds) ''stack_id'' = Some (JStr stack) \<and>
    ct_validate ct snapshot_schema_id (ds_envelope ds) = Inr () \<and> ct_verify ct (ds_envelope ds) snapshot_schema_id"
proof -
  obtain n meta where n: "integer_field clock = Inr n" "envelope_metadata ct (sr_producer_commit r) (sr_stack_id r) (JInt n) = Inr meta"
    using assms(2) by (auto simp: assemble_def Let_def bindR_Inr)
  obtain c s where cs: "sr_producer_commit r = JStr c" "sr_stack_id r = JStr s"
    and meta: "meta = [(''schema_version'', JStr ''2.1.0''), (''producer'', JStr ''marketdata-provider''), (''producer_version'', JStr ''5.0.0-rc.5''),
      (''producer_commit'', JStr c), (''stack_id'', JStr s), (''created_at_utc_ms'', JInt n),
      (''serializer_id'', JStr (ct_serializer_id ct)), (''content_hash_alg'', JStr (ct_hash_alg ct))]"
    using envelope_metadata_Inr [OF n(2)] by blast
  have d: "ds_bars ds = kept" "ds_snapshot_id ds = snapshot" "ds_provider_revision ds = pr" "ds_created_at ds = n"
    "ds_gaps ds = snd (coverage_metadata kept start stop)"
    "ds_query ds = JObj (contract_query instrument tf start stop (sr_policy r) @ [(''provider_revision'', revision_json pr)])"
    using assms(2) n by (auto simp: assemble_def Let_def bindR_Inr)
  define payload where "payload = [(''schema_id'', JStr snapshot_schema_id)] @ meta @
      [(''kind'', JStr ''snapshot''), (''body'', JObj (snapshot_body ds instrument tf start stop (sr_policy r)))]"
  have e: "seal_and_validate ct snapshot_schema_id payload = Inr (ds_envelope ds)"
    using assms(2) n unfolding payload_def snapshot_body_def by (auto simp: assemble_def Let_def bindR_Inr)
  obtain h where h: "ct_seal ct payload snapshot_schema_id = set_field ''content_hash'' (JStr h) payload"
    using assms(1) unfolding contracts_ok_def by blast
  have env: "ds_envelope ds = set_field ''content_hash'' (JStr h) payload"
    "ct_validate ct snapshot_schema_id (ds_envelope ds) = Inr ()" "ct_verify ct (ds_envelope ds) snapshot_schema_id"
    using e by (auto simp: seal_and_validate_def Let_def h bindR_Inr split: if_splits)
  have plain: "json_plain (JObj payload)"
    unfolding payload_def meta using snapshot_body_plain [of ds instrument tf start stop "sr_policy r"] by simp
  have "json_plain (JObj (ds_envelope ds))" unfolding env(1) by (rule plain_set_field [OF plain]) simp
  moreover have "obj_get payload ''kind'' = JStr ''snapshot''"
    "obj_get payload ''body'' = JObj (snapshot_body ds instrument tf start stop (sr_policy r))"
    "map_of payload ''producer_commit'' = Some (JStr c)" "map_of payload ''stack_id'' = Some (JStr s)"
    by (simp_all add: payload_def meta obj_get_def)
  moreover have "clock = JInt n" using n(1) by (simp add: integer_field_Inr)
  ultimately show ?thesis using cs d env(2,3) by (simp add: env(1) set_field_map_of)
qed

subsection \<open>A bundle taken back\<close>

lemma assemble_again:
  assumes "assemble ct clock r snapshot instrument tf pr start stop (kept, dups, rcs) = Inr ds" and "clock = JInt (ds_created_at ds)"
    and "sr_producer_commit r' = sr_producer_commit r" and "sr_stack_id r' = sr_stack_id r" and "sr_policy r' = sr_policy r"
  shows "assemble ct (JInt (ds_created_at ds)) r' snapshot instrument tf pr start stop (kept, [], []) = Inr (ds\<lparr>ds_duplicates := [], ds_chains := []\<rparr>)"
  using assms(1) unfolding assms(2) [symmetric] by (auto simp: assemble_def Let_def bindR_Inr assms(3-5))

lemma bundle_get:
  "obj_get (snapshot_bundle ct ds) ''query'' = ds_query ds"
  "obj_get (snapshot_bundle ct ds) ''bars'' = JArr (map (\<lambda>b. JObj (sb_dict b)) (ds_bars ds))"
  "obj_get (snapshot_bundle ct ds) ''snapshot_envelope'' = JObj (ds_envelope ds)"
  "obj_get (snapshot_bundle ct ds) ''created_at_utc_ms'' = JInt (ds_created_at ds)"
  "obj_get (snapshot_bundle ct ds) ''snapshot_id'' = JStr (ds_snapshot_id ds)"
  "obj_get (snapshot_bundle ct ds) ''series_hash'' = JStr (ds_series_hash ds)"
  by (simp_all add: snapshot_bundle_def Let_def obj_get_def)

lemma body_get:
  "obj_get (snapshot_body ds instrument tf start stop policy) ''query'' = JObj (contract_query instrument tf start stop policy)"
  "obj_get (snapshot_body ds instrument tf start stop policy) ''provider_revision'' = revision_json (ds_provider_revision ds)"
  "obj_get (snapshot_body ds instrument tf start stop policy) ''snapshot_id'' = JStr (ds_snapshot_id ds)"
  "map_of (snapshot_body ds instrument tf start stop policy) ''snapshot_id'' = Some (JStr (ds_snapshot_id ds))"
  "obj_get (snapshot_body ds instrument tf start stop policy) ''series_hash'' = JStr (ds_series_hash ds)"
  "obj_get (snapshot_body ds instrument tf start stop policy) ''created_at_utc_ms'' = JInt (ds_created_at ds)"
  by (simp_all add: snapshot_body_def obj_get_def)

lemma revision_json_eq: "json_eq (revision_json r) (revision_json r)"
  by (rule json_eq_refl) (simp add: revision_json_def)

lemma taken_back:
  assumes "contracts_ok ct" and "build_data_snapshot ct clock r raws = Inr ds"
  shows "validate_canonical_snapshot ct (snapshot_bundle ct ds) =
    (if list_all (\<lambda>b. sb_state b = ORIGINAL) (ds_bars ds) then Inr (ds\<lparr>ds_duplicates := [], ds_chains := []\<rparr>) else missing_predecessor)"
proof -
  obtain snapshot instrument tf pr start stop normalized where
    a: "asked r snapshot instrument tf pr start stop" "snapshot \<noteq> []" "instrument \<noteq> []" "canonical_timeframe_field (JStr tf) = Inr tf"
      "0 \<le> start" "policy_ok (sr_policy r)"
    and n: "collect_bars ct snapshot instrument tf pr start stop None raws = Inr normalized"
    and g: "resolve_groups ct (sr_policy r) None normalized = Inr (ds_bars ds, ds_duplicates ds, ds_chains ds)"
    and as: "assemble ct clock r snapshot instrument tf pr start stop (ds_bars ds, ds_duplicates ds, ds_chains ds) = Inr ds"
    using build_parts [OF assms(2)] by blast
  obtain commit stack where c: "sr_producer_commit r = JStr commit" "sr_stack_id r = JStr stack" "clock = JInt (ds_created_at ds)"
    "ds_snapshot_id ds = snapshot" "ds_provider_revision ds = pr"
    "ds_query ds = JObj (contract_query instrument tf start stop (sr_policy r) @ [(''provider_revision'', revision_json pr)])"
    and e: "json_plain (JObj (ds_envelope ds))" "obj_get (ds_envelope ds) ''kind'' = JStr ''snapshot''"
      "obj_get (ds_envelope ds) ''body'' = JObj (snapshot_body ds instrument tf start stop (sr_policy r))"
      "map_of (ds_envelope ds) ''producer_commit'' = Some (JStr commit)" "map_of (ds_envelope ds) ''stack_id'' = Some (JStr stack)"
      "ct_validate ct snapshot_schema_id (ds_envelope ds) = Inr ()" "ct_verify ct (ds_envelope ds) snapshot_schema_id"
    using assembled [OF assms(1) as] by blast
  define r' where "r' = r\<lparr>sr_provider_revision := revision_json pr\<rparr>"
  have pr: "normalize_provider_revision (revision_json pr) = Inr pr" using a(1) normalize_provider_again by (auto simp: asked_def)
  have asked: "asked r' snapshot instrument tf pr start stop" using a(1) pr by (simp add: asked_def r'_def)
  have all: "list_all (bar_of_snapshot snapshot instrument tf pr start stop) normalized" "list_all (settled ct) normalized"
    using collected_bars [OF n] collected_settled [OF assms(1) n] by blast+
  then have "\<forall>b \<in> set normalized. sb_open b \<le> sb_close b" by (simp add: list_all_iff bar_of_snapshot_def)
  from resolve_groups_kept [OF g this] have k: "apart (ds_bars ds)" "\<forall>b \<in> set (ds_bars ds). keepable ct (sr_policy r) b" "set (ds_bars ds) \<subseteq> set normalized"
    by blast+
  then have kept: "list_all (bar_of_snapshot snapshot instrument tf pr start stop) (ds_bars ds)" "list_all (settled ct) (ds_bars ds)"
    using all by (auto simp: list_all_iff)
  have collect: "collect_bars ct snapshot instrument tf pr start stop None (map (\<lambda>b. JObj (sb_dict b)) (ds_bars ds)) = Inr (ds_bars ds)"
    by (rule collect_again [OF kept(2,1) k(1)]) simp
  have resolve: "resolve_groups ct (sr_policy r) None (ds_bars ds) =
      (if list_all (\<lambda>b. sb_state b = ORIGINAL) (ds_bars ds) then Inr (ds_bars ds, [], []) else missing_predecessor)"
    using kept(1) k(2) by (intro resolve_again [OF k(1)]) (simp add: list_all_iff bar_of_snapshot_def after_close_def)
  have again: "assemble ct (JInt (ds_created_at ds)) r' snapshot instrument tf pr start stop (ds_bars ds, [], []) = Inr (ds\<lparr>ds_duplicates := [], ds_chains := []\<rparr>)"
    by (rule assemble_again [OF as c(3)]) (simp_all add: r'_def)
  have built: "build_data_snapshot ct (JInt (ds_created_at ds)) r' (map (\<lambda>b. JObj (sb_dict b)) (ds_bars ds)) =
      (if list_all (\<lambda>b. sb_state b = ORIGINAL) (ds_bars ds) then Inr (ds\<lparr>ds_duplicates := [], ds_chains := []\<rparr>) else missing_predecessor)"
    using build_asked [OF asked a(2-5)] a(6) collect resolve again
    by (simp add: r'_def missing_predecessor_def bar_conflict_def)
  have parts: "envelope_parts ct (ds_envelope ds) =
      Inr (snapshot_body ds instrument tf start stop (sr_policy r), contract_query instrument tf start stop (sr_policy r))"
    using e by (simp add: envelope_parts_def body_get)
  have request: "bundle_request pr (ds_envelope ds) (snapshot_body ds instrument tf start stop (sr_policy r))
      (contract_query instrument tf start stop (sr_policy r)) = Inr r'"
    using e(4,5) a(1) c(1,2,4) by (simp add: bundle_request_def text_item_def int_item_def obj_item_def body_get contract_query_def asked_def r'_def)
  have query: "obj_get (contract_query instrument tf start stop (sr_policy r) @ [(''provider_revision'', revision_json pr)]) ''provider_revision'' = revision_json pr"
    by (simp add: contract_query_def obj_get_def)
  show ?thesis
    unfolding validate_canonical_snapshot_def bundle_get c(6)
    using json_eq_refl [OF e(1)]
    by (simp add: parts body_get c(4,5) pr query revision_json_eq request built missing_predecessor_def bar_conflict_def del: json_eq.simps(5))
qed

text \<open>
  C10. A snapshot taken back is the snapshot, unless it kept a correction. When a snapshot was built,
  the bundle of it passes every check and is built again to the same bars, coverage, gaps, identity and envelope, only
  without the record of the revisions it was resolved from, provided that every bar it kept is an original. When it kept
  a correction, the bundle is refused, since the bar that the correction supersedes is not in it.
\<close>

theorem snapshot_taken_back:
  assumes "contracts_ok ct" and "build_data_snapshot ct clock r raws = Inr ds"
  shows "validate_canonical_snapshot ct (snapshot_bundle ct ds) =
    (if list_all (\<lambda>b. sb_state b = ORIGINAL) (ds_bars ds) then Inr (ds\<lparr>ds_duplicates := [], ds_chains := []\<rparr>) else missing_predecessor)"
  by (rule taken_back [OF assms])

lemma sample_contracts_ok: "contracts_ok sample_ct"
  unfolding contracts_ok_def by (auto simp: sample_ct_def sample_rs_ok split: json.splits)

lemma sample_original:
  "\<exists>ds. build_data_snapshot sample_ct (JInt 9) sample_request [hd sample_bars] = Inr ds \<and> map sb_state (ds_bars ds) = [ORIGINAL]"
proof -
  have "(case build_data_snapshot sample_ct (JInt 9) sample_request [hd sample_bars] of Inl _ \<Rightarrow> False
     | Inr ds \<Rightarrow> map sb_state (ds_bars ds) = [ORIGINAL])"
    by code_simp
  then show ?thesis by (auto split: sum.splits)
qed

lemma snapshot_taken_back_witness:
  "(\<exists>ds. build_data_snapshot sample_ct (JInt 9) sample_request [hd sample_bars] = Inr ds \<and> ds_bars ds \<noteq> [] \<and>
      validate_canonical_snapshot sample_ct (snapshot_bundle sample_ct ds) = Inr (ds\<lparr>ds_duplicates := [], ds_chains := []\<rparr>)) \<and>
   (\<exists>ds. build_data_snapshot sample_ct (JInt 9) sample_request sample_bars = Inr ds \<and> ds_bars ds \<noteq> [] \<and>
      validate_canonical_snapshot sample_ct (snapshot_bundle sample_ct ds) = missing_predecessor)"
proof -
  obtain a where a: "build_data_snapshot sample_ct (JInt 9) sample_request [hd sample_bars] = Inr a" "map sb_state (ds_bars a) = [ORIGINAL]"
    using sample_original by (elim exE conjE) (rule that)
  obtain b where b: "build_data_snapshot sample_ct (JInt 9) sample_request sample_bars = Inr b" "map sb_state (ds_bars b) = [CORRECTED]"
    using sample_snapshot by (elim exE conjE) (rule that)
  show ?thesis
    using snapshot_taken_back [OF sample_contracts_ok a(1)] snapshot_taken_back [OF sample_contracts_ok b(1)] a b
    by (auto simp: map_eq_Cons_conv)
qed

end
