(* ===== verification/AdapterSafety.thy ===== *)
theory AdapterSafety
  imports CandleAdapters ServiceSafety Streaming SnapshotSafety
begin

section \<open>What the adapters promise\<close>

subsection \<open>Batches of closed candles\<close>

definition clashing :: "market_bar list \<Rightarrow> bool" where
  "clashing bars \<longleftrightarrow> (\<exists>a \<in> set bars. \<exists>b \<in> set bars. b_time a = b_time b \<and> \<not> same_canonical_candle a b)"

abbreviation keyed_times :: "(int \<times> market_bar) list \<Rightarrow> bool" where
  "keyed_times d \<equiv> list_all (\<lambda>(t, x). b_time x = t) d"

lemma keyed_times_get: "keyed_times d \<Longrightarrow> map_of d t = Some x \<Longrightarrow> x \<in> snd ` set d \<and> b_time x = t"
  by (auto simp: list_all_iff dest!: map_of_SomeD) force+

lemma conflict_not_Inr [simp]: "closed_conflict \<noteq> Inr x" "Inr x \<noteq> closed_conflict"
  by (simp_all add: closed_conflict_def)

text \<open>The loop adds the first bar of every new time, in the order of the batch.\<close>

lemma batch_loop_adds:
  assumes "closed_batch_loop d bs = Inr d'" and "keyed_times d" and "distinct (map fst d)"
  shows "\<exists>new. d' = d @ map (\<lambda>b. (b_time b, b)) new \<and> set new \<subseteq> set bs \<and> distinct (map fst d @ map b_time new) \<and>
    fst ` set d \<union> b_time ` set new = fst ` set d \<union> b_time ` set bs \<and>
    (sorted (map b_time bs) \<longrightarrow> sorted (map b_time new))"
  using assms
proof (induction bs arbitrary: d)
  case Nil
  then show ?case by (intro exI [of _ "[]"]) simp
next
  case (Cons b bs)
  show ?case
  proof (cases "map_of d (b_time b)")
    case None
    then have b: "b_time b \<notin> fst ` set d" by (simp add: map_of_eq_None_iff)
    obtain new where new: "d' = (d @ [(b_time b, b)]) @ map (\<lambda>b. (b_time b, b)) new" "set new \<subseteq> set bs"
      "distinct (map fst (d @ [(b_time b, b)]) @ map b_time new)"
      "fst ` set (d @ [(b_time b, b)]) \<union> b_time ` set new = fst ` set (d @ [(b_time b, b)]) \<union> b_time ` set bs"
      "sorted (map b_time bs) \<longrightarrow> sorted (map b_time new)"
      using Cons.IH [of "d @ [(b_time b, b)]"] Cons.prems None b by auto
    then show ?thesis by (intro exI [of _ "b # new"]) auto
  next
    case (Some x)
    then have "closed_batch_loop d bs = Inr d'" using Cons.prems(1) by (simp split: if_splits)
    then obtain new where new: "d' = d @ map (\<lambda>b. (b_time b, b)) new" "set new \<subseteq> set bs" "distinct (map fst d @ map b_time new)"
      "fst ` set d \<union> b_time ` set new = fst ` set d \<union> b_time ` set bs" "sorted (map b_time bs) \<longrightarrow> sorted (map b_time new)"
      using Cons.IH Cons.prems(2,3) by blast
    moreover have "b_time b \<in> fst ` set d" using Some by (force dest: map_of_SomeD)
    ultimately show ?thesis by (intro exI [of _ new]) auto
  qed
qed

lemma batch_loop_clash:
  assumes "closed_batch_loop d bs = Inl e" and "keyed_times d"
  shows "clashing (map snd d @ bs)"
  using assms
proof (induction bs arbitrary: d)
  case (Cons b bs)
  show ?case
  proof (cases "map_of d (b_time b)")
    case None
    then show ?thesis using Cons.IH [of "d @ [(b_time b, b)]"] Cons.prems by (auto simp: clashing_def)
  next
    case (Some x)
    note x = keyed_times_get [OF Cons.prems(2) Some]
    show ?thesis
    proof (cases "same_canonical_candle x b")
      case True
      then have "clashing (map snd d @ bs)" using Cons.IH [of d] Cons.prems Some by simp
      then show ?thesis by (auto simp: clashing_def)
    next
      case False
      then show ?thesis using x by (auto simp: clashing_def)
    qed
  qed
qed simp

lemma backfill_is_batch:
  "backfill_loop d n bs = bindR (closed_batch_loop d bs) (\<lambda>d'. Inr (d', n + int (length d') - int (length d)))"
proof (induction bs arbitrary: d n)
  case (Cons b bs)
  show ?case
  proof (cases "map_of d (b_time b)")
    case None
    then show ?thesis using Cons.IH [of "d @ [(b_time b, b)]" "n + 1"]
      by (cases "closed_batch_loop (d @ [(b_time b, b)]) bs") simp_all
  next
    case (Some x)
    then show ?thesis using Cons.IH [of d n] by (simp add: closed_conflict_def)
  qed
qed simp

lemma overlap_backfill_result:
  "case overlap_backfill d bs of
     Inl e \<Rightarrow> \<exists>b \<in> set bs. \<exists>x. map_of d (b_time b) = Some x \<and> \<not> same_canonical_candle x b
   | Inr missing \<Rightarrow> missing = (\<exists>b \<in> set bs. map_of d (b_time b) = None)"
proof (induction bs)
  case (Cons b bs)
  then show ?case
    by (cases "overlap_backfill d bs"; cases "map_of d (b_time b)") (auto simp: closed_conflict_def)
qed simp

text \<open>A batch without clashes: its bars in order, one for every time.\<close>

lemma normalized_batch:
  assumes "normalize_closed_batch bars = Inr incoming"
  shows "sorted_wrt (\<lambda>a b. b_time a < b_time b) incoming \<and> set incoming \<subseteq> set bars \<and> b_time ` set incoming = b_time ` set bars"
proof -
  obtain d where d: "closed_batch_loop [] (sort_key b_time bars) = Inr d" "incoming = map snd d"
    using assms by (auto simp: normalize_closed_batch_def bindR_Inr)
  obtain new where "d = map (\<lambda>b. (b_time b, b)) new" "set new \<subseteq> set bars" "distinct (map b_time new)"
    "b_time ` set new = b_time ` set bars" "sorted (map b_time new)"
    using batch_loop_adds [OF d(1)] by auto
  then show ?thesis using d(2) by (auto simp: comp_def strict_sorted_iff simp flip: sorted_wrt_map)
qed

lemma normalized_clash: "normalize_closed_batch bars = Inl e \<Longrightarrow> clashing bars"
  using batch_loop_clash [of "[]" "sort_key b_time bars"]
  by (cases "closed_batch_loop [] (sort_key b_time bars)") (auto simp: normalize_closed_batch_def clashing_def)

subsection \<open>Bars that can be stored\<close>

text \<open>Bars of one series, each of which the store keeps exactly.\<close>

definition batch_ok :: "(revision_state \<Rightarrow> string) \<Rightarrow> series_key \<Rightarrow> market_bar list \<Rightarrow> bool" where
  "batch_ok rs key bars \<longleftrightarrow> (\<forall>b \<in> set bars. bars_ok rs [b] \<and> encodable rs b \<and> bar_key b = key)"

lemma bars_ok_iff: "bars_ok rs bars \<longleftrightarrow> (\<forall>b \<in> set bars. bars_ok rs [b]) \<and> sorted_wrt (\<lambda>a b. b_time a < b_time b) bars"
  by (auto simp: bars_ok_def list_all_iff)

lemma strict_times: "distinct (map b_time bars) \<Longrightarrow> sorted_wrt (\<lambda>a b. b_time a < b_time b) (sort_key b_time bars)"
proof -
  assume d: "distinct (map b_time bars)"
  from distinct_card [OF d] have "card (set (map b_time (sort_key b_time bars))) = length (map b_time (sort_key b_time bars))" by simp
  then have "distinct (map b_time (sort_key b_time bars))" by (rule card_distinct)
  then show ?thesis by (simp add: strict_sorted_iff flip: sorted_wrt_map)
qed

lemma validated_batch:
  assumes "batch_ok rs key bars" and "key_identity key = Inr i" and "sorted_wrt (\<lambda>a b. b_time a < b_time b) bars"
    and "newer_than previous bars"
  shows "validated_append_loop i previous bars = Inr bars"
  using assms
proof (induction bars arbitrary: previous)
  case (Cons b bs)
  have b: "bars_ok rs [b]" "bar_key b = key" "batch_ok rs key bs" using Cons.prems(1) by (simp_all add: batch_ok_def)
  then have v: "validate_persisted_bar_semantics b = Inr ()" "validate_bars [market_bar_to_bar b] True = Inr ()"
    using bars_ok_valid [OF b(1)] by (simp_all add: bars_ok_def)
  have "newer_than (Some b) bs" using Cons.prems(3) by (simp add: newer_than_def list_all_iff)
  then have "validated_append_loop i (Some b) bs = Inr bs" using Cons.IH [OF b(3) assms(2)] Cons.prems(3) by simp
  then show ?case using v b(2) assms(2) Cons.prems(4) by (cases previous) (auto simp: newer_than_def)
qed simp

lemma batch_identity: "batch_ok rs key bars \<Longrightarrow> bars \<noteq> [] \<Longrightarrow> \<exists>i. key_identity key = Inr i"
  using storable_identity [of "hd bars"] by (cases bars) (auto simp: batch_ok_def bars_ok_def)

text \<open>What a write leaves: every old bar, and a bar of the batch for every time that was not stored.\<close>

definition adds :: "market_bar list \<Rightarrow> market_bar list \<Rightarrow> market_bar list \<Rightarrow> bool" where
  "adds old batch all \<longleftrightarrow> set old \<subseteq> set all \<and> set all \<subseteq> set old \<union> set batch \<and> b_time ` set all = b_time ` set old \<union> b_time ` set batch"

definition write_outcome ::
  "(byte list \<Rightarrow> byte list) \<Rightarrow> (revision_state \<Rightarrow> string) \<Rightarrow> series_key \<Rightarrow> market_bar list option \<Rightarrow> market_bar list \<Rightarrow> int res \<Rightarrow> series_state \<Rightarrow> bool" where
  "write_outcome sha rs key c batch r st \<longleftrightarrow>
     (case r of
        Inr n \<Rightarrow> \<exists>all. stored sha rs key all st \<and> adds (content c) batch all \<and> n = int (length all) - int (length (content c))
      | Inl e \<Rightarrow> contains sha rs key c st \<and> clashing (content c @ batch))"

lemma append_tail_outcome:
  assumes "rs_ok rs" and "\<forall>x. length (sha x) = 32" and "stored sha rs key old st" and "old \<noteq> []" and "batch_ok rs key later"
    and "sorted_wrt (\<lambda>a b. b_time a < b_time b) later" and "\<forall>b \<in> set later. b_time (last old) < b_time b"
  shows "\<exists>st'. append_tail sha rs key later st = (Inr (int (length later)), st') \<and> stored sha rs key (old @ later) st'"
proof (cases "later = []")
  case True
  then show ?thesis using assms(3) by (simp add: append_tail_def)
next
  case False
  obtain i where i: "key_identity key = Inr i" using batch_identity [OF assms(5) False] by blast
  have "validated_append_loop i None later = Inr later" by (rule validated_batch [OF assms(5) i assms(6)]) (simp add: newer_than_def)
  then have "validated_append_bars key later = Inr later" by (simp add: validated_append_bars_def i)
  moreover have "b_time (last old) < b_time (hd later)" using assms(7) False by simp
  ultimately have a: "appendable sha rs key old later later"
    using assms(1,2,4,5) by (cases later) (auto simp: appendable_def fits_def batch_ok_def bars_ok_def list_all_iff)
  have "unstored old later = later" using \<open>b_time (last old) < b_time (hd later)\<close> by (cases later) (auto simp: unstored_def)
  then obtain m st' where "append_locked sha rs key later st = (Inr m, st')" "stored sha rs key (old @ later) st'"
    using append_locked_stored [OF a assms(3)] by auto
  then show ?thesis using False by (simp add: append_tail_def Let_def)
qed

lemma contains_each:
  assumes "contains sha rs key c st"
  shows "\<forall>b \<in> set (content c). bars_ok rs [b] \<and> encodable rs b" and "distinct (map b_time (content c))"
proof -
  have ok: "bars_ok rs (content c)" by (rule contains_ok [OF assms])
  then show "distinct (map b_time (content c))" by (rule bars_ok_distinct)
  have "list_all (encodable rs) (content c)" using assms stored_encodable by (auto simp: contains_def content_def split: option.splits)
  then show "\<forall>b \<in> set (content c). bars_ok rs [b] \<and> encodable rs b" using ok bars_ok_iff [of rs "content c"] by (auto simp: list_all_iff)
qed

lemma replace_outcome:
  assumes "contains sha rs key c st" and "batch_ok rs key bars" and "set bars \<noteq> {}"
    and "set given \<subseteq> set (content c) \<union> set bars" and "distinct (map b_time given)"
  shows "\<exists>m st'. replace_all_locked sha rs key None given st = (Inr m, st') \<and> stored sha rs key (sort_key b_time given) st'"
proof -
  have each: "\<forall>b \<in> set given. bars_ok rs [b] \<and> encodable rs b"
    using contains_each(1) [OF assms(1)] assms(2,4) unfolding batch_ok_def by blast
  then have "bars_ok rs (sort_key b_time given)" using strict_times [OF assms(5)] by (subst bars_ok_iff) simp
  moreover have "list_all (encodable rs) given" using each by (simp add: list_all_iff)
  moreover obtain i where "key_identity key = Inr i" using batch_identity [OF assms(2)] assms(3) by auto
  ultimately show ?thesis using replace_locked_stored [OF assms(1), of i None given] by simp
qed

lemma clashing_mono: "clashing xs \<Longrightarrow> set xs \<subseteq> set ys \<Longrightarrow> clashing ys"
  by (auto simp: clashing_def)

lemma backfill_outcome:
  assumes "rs_ok rs" and "contains sha rs key c st" and "batch_ok rs key bars" and "set bars \<noteq> {}"
    and "set incoming \<subseteq> set bars" and "b_time ` set incoming = b_time ` set bars"
  shows "\<exists>r st'. backfill_locked sha rs key incoming st = (r, st') \<and> write_outcome sha rs key c bars r st'"
proof -
  obtain st1 where r: "read_all_locked sha rs None None st = (Inr (content c), st1)" "contains sha rs key c st1"
    using read_locked_contains [OF assms(1,2)] by blast
  let ?d = "map (\<lambda>b. (b_time b, b)) (content c)"
  have d: "dict_of b_time (content c) = ?d" by (rule dict_of_distinct [OF contains_each(2) [OF assms(2)]])
  show ?thesis
  proof (cases "closed_batch_loop ?d incoming")
    case (Inl e)
    have "clashing (content c @ incoming)" using batch_loop_clash [OF Inl] by (simp add: comp_def list_all_iff)
    then have "clashing (content c @ bars)" by (rule clashing_mono) (use assms(5) in auto)
    then show ?thesis using Inl r by (simp add: backfill_locked_def d backfill_is_batch write_outcome_def)
  next
    case (Inr d')
    have pre: "keyed_times ?d" "distinct (map fst ?d)" "map fst ?d = map b_time (content c)" "fst ` set ?d = b_time ` set (content c)"
      using contains_each(2) [OF assms(2)] by (simp_all add: list_all_iff comp_def image_image)
    obtain new where n: "d' = ?d @ map (\<lambda>b. (b_time b, b)) new" "set new \<subseteq> set incoming" "distinct (map fst ?d @ map b_time new)"
      "fst ` set ?d \<union> b_time ` set new = fst ` set ?d \<union> b_time ` set incoming"
      using batch_loop_adds [OF Inr pre(1,2)] by blast
    have new: "d' = map (\<lambda>b. (b_time b, b)) (content c @ new)" "set new \<subseteq> set incoming"
      "distinct (map b_time (content c @ new))" "b_time ` set (content c @ new) = b_time ` set (content c) \<union> b_time ` set incoming"
      using n(1-3) n(4) [unfolded pre(4)] unfolding pre(3) by (simp_all add: image_Un)
    let ?v = "sorted_vals d'"
    have k: "keyed b_time d'" using new(1,3) by (auto simp: keyed_def comp_def)
    have v: "set ?v = set (content c @ new)" "sort_key b_time ?v = ?v" "distinct (map b_time ?v)" "length ?v = length (content c @ new)"
    proof -
      have "map_of d' (b_time x) = Some x \<longleftrightarrow> x \<in> set (content c @ new)" for x
      proof
        assume "map_of d' (b_time x) = Some x"
        then show "x \<in> set (content c @ new)" using map_of_SomeD [of d' "b_time x" x] unfolding new(1) by auto
      next
        assume "x \<in> set (content c @ new)"
        moreover have "distinct (map fst d')" using k by (simp add: keyed_def)
        ultimately show "map_of d' (b_time x) = Some x" by (intro map_of_is_SomeI) (auto simp: new(1))
      qed
      then show "set ?v = set (content c @ new)" using sorted_vals_set [OF k] by blast
      show "distinct (map b_time ?v)" "sort_key b_time ?v = ?v"
        using sorted_vals_strict [OF k] by (simp_all add: strict_sorted_iff sort_key_id_if_sorted)
      show "length ?v = length (content c @ new)" by (simp add: sorted_vals_def new(1))
    qed
    have sub: "set ?v \<subseteq> set (content c) \<union> set bars" using v(1) new(2) assms(5) by auto
    obtain m st2 where w: "replace_all_locked sha rs key None ?v st1 = (Inr m, st2)" "stored sha rs key ?v st2"
      using replace_outcome [OF r(2) assms(3,4) sub v(3)] v(2) by auto
    have "adds (content c) bars ?v" using v(1) new(2,4) assms(5,6) by (auto simp: adds_def)
    moreover have "backfill_locked sha rs key incoming st = (Inr (int (length new)), st2)"
      using Inr r(1) w(1) new(1) by (simp add: backfill_locked_def d backfill_is_batch Let_def)
    ultimately show ?thesis using w(2) v(4) by (auto simp: write_outcome_def)
  qed
qed

lemma dict_of_lookup:
  assumes "distinct (map b_time xs)"
  shows "map_of (dict_of b_time xs) t = Some x \<longleftrightarrow> x \<in> set xs \<and> b_time x = t"
proof -
  have "map_of (map (\<lambda>b. (b_time b, b)) xs) t = Some x \<longleftrightarrow> (t, x) \<in> set (map (\<lambda>b. (b_time b, b)) xs)"
    using assms by (intro map_of_eq_Some_iff) (simp add: comp_def)
  then show ?thesis by (auto simp: dict_of_distinct [OF assms])
qed

lemma dict_of_missing: "distinct (map b_time xs) \<Longrightarrow> map_of (dict_of b_time xs) t = None \<longleftrightarrow> t \<notin> b_time ` set xs"
proof (cases "map_of (dict_of b_time xs) t")
  case (Some x)
  assume "distinct (map b_time xs)"
  then show ?thesis using Some dict_of_lookup [of xs t x] by auto
next
  case None
  assume "distinct (map b_time xs)"
  then show ?thesis using None dict_of_lookup [of xs t] by auto
qed

lemma window_of_sorted:
  assumes "sorted_wrt (\<lambda>a b. b_time a < b_time b) xs" and "b \<in> set xs"
  shows "in_range (Some (b_time (hd xs))) (Some (b_time (last xs) + 1)) (b_time b)"
proof -
  have "b_time (hd xs) \<le> b_time b" using assms by (cases xs) auto
  moreover have "b_time b \<le> b_time (last xs)" using assms by (cases xs rule: rev_cases) (auto simp: sorted_wrt_append)
  ultimately show ?thesis by (simp add: in_range_def)
qed

lemma appended_outcome:
  assumes "rs_ok rs" and "\<forall>x. length (sha x) = 32" and "stored sha rs key old st" and "old \<noteq> []" and "batch_ok rs key bars"
    and "sorted_wrt (\<lambda>a b. b_time a < b_time b) incoming" and "set incoming \<subseteq> set bars" and "b_time ` set incoming = b_time ` set bars"
    and "\<forall>b \<in> set incoming. b_time b \<le> b_time (last old) \<longrightarrow> b_time b \<in> b_time ` set old"
  shows "\<exists>r st'. append_tail sha rs key (filter (\<lambda>b. b_time (last old) < b_time b) incoming) st = (r, st') \<and>
    write_outcome sha rs key (Some old) bars r st'"
proof -
  let ?later = "filter (\<lambda>b. b_time (last old) < b_time b) incoming"
  have "batch_ok rs key ?later" "sorted_wrt (\<lambda>a b. b_time a < b_time b) ?later" "\<forall>b \<in> set ?later. b_time (last old) < b_time b"
    using assms(5-7) by (auto simp: batch_ok_def sorted_wrt_filter)
  from append_tail_outcome [OF assms(1-4) this] obtain st' where
    a: "append_tail sha rs key ?later st = (Inr (int (length ?later)), st')" "stored sha rs key (old @ ?later) st'" by blast
  have "b_time ` set bars \<subseteq> b_time ` set old \<union> b_time ` set ?later"
    unfolding assms(8) [symmetric] using assms(9) by fastforce
  then have "adds old bars (old @ ?later)" using assms(7) by (auto simp: adds_def)
  then show ?thesis using a by (auto simp: write_outcome_def content_def)
qed

lemma bulk_locked_outcome:
  assumes "rs_ok rs" and "\<forall>x. length (sha x) = 32" and "contains sha rs key c st" and "bars \<noteq> []" and "batch_ok rs key bars"
  shows "\<exists>r st'. bulk_write_locked sha rs key bars st = (r, st') \<and> write_outcome sha rs key c bars r st'"
proof (cases "normalize_closed_batch bars")
  case (Inl e)
  have "clashing (content c @ bars)" by (rule clashing_mono [OF normalized_clash [OF Inl]]) simp
  then show ?thesis using Inl assms(3) by (simp add: bulk_write_locked_def write_outcome_def)
next
  case (Inr incoming)
  note inc = normalized_batch [OF Inr]
  then have inc: "sorted_wrt (\<lambda>a b. b_time a < b_time b) incoming" "set incoming \<subseteq> set bars" "b_time ` set incoming = b_time ` set bars"
    by blast+
  have dist: "distinct (map b_time incoming)" using inc(1) strict_sorted_iff [of "map b_time incoming"] by (simp add: sorted_wrt_map)
  obtain m where m: "load_segment_manifest st = Inr m"
    "case c of None \<Rightarrow> m = None | Some bars \<Rightarrow> \<exists>m'. m = Some m' \<and> describes sha rs key m' bars"
    using contains_manifest [OF assms(3)] by blast
  show ?thesis
  proof (cases "content c = []")
    case True
    then have none: "(case m of None \<Rightarrow> None | Some m \<Rightarrow> sm_end_time m) = None"
      using m(2) by (auto simp: content_def describes_def split: option.splits)
    obtain m' st' where r: "replace_all_locked sha rs key None incoming st = (Inr m', st')" "stored sha rs key (sort_key b_time incoming) st'"
      using replace_outcome [OF assms(3,5), of incoming] assms(4) inc(2) dist by auto
    have "adds (content c) bars (sort_key b_time incoming)" using True inc(2,3) by (simp add: adds_def)
    then show ?thesis using r none Inr m(1) True by (auto simp: bulk_write_locked_def write_outcome_def Let_def)
  next
    case False
    then obtain old where c: "c = Some old" "old \<noteq> []" by (cases c) (simp_all add: content_def)
    then have st: "stored sha rs key old st" using assms(3) by (simp add: contains_def)
    have old: "distinct (map b_time old)" by (rule bars_ok_distinct [OF stored_ok [OF st]])
    have some: "(case m of None \<Rightarrow> None | Some m \<Rightarrow> sm_end_time m) = Some (b_time (last old))"
      using m(2) c by (auto simp: describes_def)
    let ?overlap = "filter (\<lambda>b. b_time b \<le> b_time (last old)) incoming"
    let ?later = "filter (\<lambda>b. b_time (last old) < b_time b) incoming"
    show ?thesis
    proof (cases "?overlap = []")
      case True
      then have "\<forall>b \<in> set incoming. b_time b \<le> b_time (last old) \<longrightarrow> b_time b \<in> b_time ` set old" by (auto simp: filter_empty_conv)
      from appended_outcome [OF assms(1,2) st c(2) assms(5) inc this] show ?thesis
        using True Inr m(1) some c(1) by (simp add: bulk_write_locked_def Let_def)
    next
      case False
      let ?range = "\<lambda>b. in_range (Some (b_time (hd ?overlap))) (Some (b_time (last ?overlap) + 1)) (b_time b)"
      obtain st1 where r: "read_all_locked sha rs (Some (b_time (hd ?overlap))) (Some (b_time (last ?overlap) + 1)) st = (Inr (filter ?range old), st1)"
        "stored sha rs key old st1"
        using read_locked_stored [OF assms(1) st] by blast
      have e: "distinct (map b_time (filter ?range old))" using old by (simp add: distinct_map_filter)
      have range: "?range b" if "b \<in> set ?overlap" for b
        using window_of_sorted [of ?overlap b] inc(1) that by (simp add: sorted_wrt_filter)
      have hit: "b_time b \<in> b_time ` set (filter ?range old) \<longleftrightarrow> b_time b \<in> b_time ` set old" if "b \<in> set ?overlap" for b
        using range [OF that] by (auto simp: image_iff)
      note res = overlap_backfill_result [where d = "dict_of b_time (filter ?range old)" and bs = ?overlap]
      show ?thesis
      proof (cases "overlap_backfill (dict_of b_time (filter ?range old)) ?overlap")
        case (Inl err)
        then obtain b x where "b \<in> set ?overlap" "x \<in> set old" "b_time x = b_time b" "\<not> same_canonical_candle x b"
          using res dict_of_lookup [OF e] by auto
        then have "clashing (old @ bars)" using inc(2) by (force simp: clashing_def)
        then show ?thesis using Inl r False Inr m(1) some c(1)
          by (simp add: bulk_write_locked_def Let_def write_outcome_def contains_def content_def)
      next
        case (Inr missing)
        show ?thesis
        proof (cases missing)
          case True
          from backfill_outcome [OF assms(1), of sha key c st1, OF _ assms(5) _ inc(2,3)] show ?thesis
            using True Inr r False \<open>normalize_closed_batch bars = Inr incoming\<close> m(1) some c(1) assms(4)
            by (simp add: bulk_write_locked_def Let_def contains_def)
        next
          case no: False
          then have "\<forall>b \<in> set ?overlap. b_time b \<in> b_time ` set old"
            using res Inr hit dict_of_missing [OF e] by auto
          then have "\<forall>b \<in> set incoming. b_time b \<le> b_time (last old) \<longrightarrow> b_time b \<in> b_time ` set old" by simp
          from appended_outcome [OF assms(1,2) r(2) c(2) assms(5) inc this] show ?thesis
            using no Inr r(1) False \<open>normalize_closed_batch bars = Inr incoming\<close> m(1) some c(1)
            by (simp add: bulk_write_locked_def Let_def)
        qed
      qed
    qed
  qed
qed

text \<open>
  C9. A batch of closed candles is written whole or not at all. Given storable candles of one series in any order,
  the bulk write returns the number of candles it added and leaves every stored candle in place together with one candle
  of the batch for every time that was missing, whether it replaced, appended or backfilled; otherwise it raises, leaves the
  series as it was, and two candles of the batch and the store disagree about one time. Other series and the open candles
  are not touched.
\<close>

theorem bulk_write_whole_or_refused:
  assumes "rs_ok rs" and "\<forall>x. length (sha x) = 32" and "series_path key = Inr path" and "contains sha rs key c (series_at path cs)"
    and "bars \<noteq> []" and "batch_ok rs key bars"
  shows "\<exists>r cs'. bulk_write_closed sha rs bars cs = (r, cs') \<and> write_outcome sha rs key c bars r (series_at path cs') \<and>
    cs_current cs' = cs_current cs \<and> (\<forall>p. p \<noteq> path \<longrightarrow> cs_dirs cs' p = cs_dirs cs p)"
proof -
  have key: "bar_key (hd bars) = key" using assms(5,6) by (simp add: batch_ok_def)
  obtain r st' where r: "bulk_write_locked sha rs key bars (series_at path cs) = (r, st')" "write_outcome sha rs key c bars r st'"
    using bulk_locked_outcome [OF assms(1,2,4-6)] by blast
  then show ?thesis
    by (simp add: bulk_write_closed_def key Let_def on_series_def assms(3) contains_locked [OF assms(4,3)])
qed

lemma sample_batch: "batch_ok sample_rs sample_key [sample_bar 60000, sample_bar 0]"
proof -
  have "bar_key (sample_bar t) = sample_key" for t by (simp add: sample_key_def bar_key_def sample_bar_def)
  then show ?thesis using sample_bars_ok(2,3) sample_encodable by (simp add: batch_ok_def)
qed

lemma bulk_write_whole_or_refused_witness:
  "\<exists>path n cs all. series_path sample_key = Inr path \<and>
     bulk_write_closed sample_sha sample_rs [sample_bar 60000, sample_bar 0] empty_store = (Inr n, cs) \<and>
     stored sample_sha sample_rs sample_key all (series_at path cs) \<and> b_time ` set all = {0, 60000} \<and> n = int (length all)"
proof -
  obtain path where path: "series_path sample_key = Inr path" using sample_path by blast
  have "same_canonical_candle (sample_bar 0) (sample_bar 0)" "same_canonical_candle (sample_bar 60000) (sample_bar 60000)" by code_simp+
  then have "\<not> clashing (content None @ [sample_bar 60000, sample_bar 0])" by (simp add: clashing_def content_def)
  moreover obtain r cs where r: "bulk_write_closed sample_sha sample_rs [sample_bar 60000, sample_bar 0] empty_store = (r, cs)"
    "write_outcome sample_sha sample_rs sample_key None [sample_bar 60000, sample_bar 0] r (series_at path cs)"
    using bulk_write_whole_or_refused [OF sample_rs_ok sample_sha_length path empty_store_contains _ sample_batch] by blast
  ultimately obtain n all where "r = Inr n" "stored sample_sha sample_rs sample_key all (series_at path cs)"
    "adds [] [sample_bar 60000, sample_bar 0] all" "n = int (length all)"
    by (auto simp: write_outcome_def content_def split: sum.splits)
  moreover from this have "b_time ` set all = {0, 60000}" by (auto simp: adds_def)
  ultimately show ?thesis using path r(1) by blast
qed

subsection \<open>Streamed candles as a snapshot\<close>

lemma in_map_filter: "x \<in> set xs \<Longrightarrow> f x = Some y \<Longrightarrow> y \<in> set (List.map_filter f xs)"
  by (induction xs) (auto simp: map_filter_simps split: option.splits)

lemma two_not_single: "i \<in> s \<Longrightarrow> j \<in> s \<Longrightarrow> i \<noteq> j \<Longrightarrow> card s \<noteq> 1"
  by (auto simp: card_1_singleton_iff)

lemma mixed_source_refused:
  assumes "a \<in> set bars" and "b \<in> set bars" and "m_provider_revision a = Some i" and "m_provider_revision b = Some j" and "i \<noteq> j"
  shows "\<exists>e. snapshot_source_identity bars p = Inl e"
proof -
  have "card (set (List.map_filter m_provider_revision bars)) \<noteq> 1"
    using in_map_filter [where f = m_provider_revision, OF assms(1,3)] in_map_filter [where f = m_provider_revision, OF assms(2,4)] assms(5)
    by (rule two_not_single)
  then show ?thesis by (simp add: snapshot_source_identity_def Let_def)
qed

text \<open>What the store reads for a query when these bars are stored.\<close>

abbreviation window_bars :: "bar_query \<Rightarrow> market_bar list \<Rightarrow> market_bar list" where
  "window_bars q bars \<equiv> filter (\<lambda>b. in_range (Some (q_start_ms q)) (Some (q_end_ms q)) (b_time b)) bars"

lemma canonical_read_stored:
  assumes "rs_ok (sv_rs sv)" and "series_path (query_key q) = Inr path" and "stored (sv_sha sv) (sv_rs sv) (query_key q) bars (series_at path cs)"
    and "validate_artifact_identity (ai_producer_commit ai) (ai_stack_id ai) = Inr (commit, stack)"
    and "stored_bars_read_error q (window_bars q bars) = Inr None"
  shows "\<exists>cs'. canonical_read ct sv ai q cs = (snapshot_of_bars ct q (ik_exchange (q_instrument q)) (JStr commit) (JStr stack) (window_bars q bars), cs')"
proof -
  obtain cs' where "stored_bars sv q cs = (Inr (window_bars q bars), cs')" using stored_bars_exact [OF assms(1,3,2)] by blast
  then show ?thesis
    using assms(4,5) by (simp add: canonical_read_def checked_stored_bars_def and_then_def lift_res_def return_io_def)
qed

lemma shared_revision_refused:
  assumes "a \<in> set bars" and "b \<in> set bars" and "m_provider_revision a = Some i" and "m_provider_revision b = Some j" and "i \<noteq> j"
    and "\<forall>x \<in> set bars. m_provider x = p \<and> m_provider_revision x \<noteq> None"
  shows "snapshot_source_identity bars p = Inl (MDValidationError ''snapshot bars must share one provider_revision'')"
proof -
  let ?providers = "set (filter (\<lambda>p. p \<noteq> []) (map m_provider bars))"
  have sub: "?providers \<subseteq> {p}" using assms(6) by auto
  then have "?providers = {} \<or> ?providers = {p}" by (rule subset_singletonD)
  moreover have "card ?providers \<le> 1" using card_mono [OF _ sub] by simp
  ultimately have one: "\<not> (card ?providers > 1 \<or> (?providers \<noteq> {} \<and> ?providers \<noteq> {p}))" by linarith
  have known: "bars \<noteq> []" "\<not> list_ex (\<lambda>b. m_provider_revision b = None) bars" using assms(1,6) by (auto simp: list_ex_iff)
  have "card (set (List.map_filter m_provider_revision bars)) \<noteq> 1"
    using in_map_filter [where f = m_provider_revision, OF assms(1,3)] in_map_filter [where f = m_provider_revision, OF assms(2,4)] assms(5)
    by (rule two_not_single)
  then show ?thesis unfolding snapshot_source_identity_def Let_def by (simp only: one known if_False if_True not_False_eq_True)
qed

text \<open>
  C19. Candles of different events of a stream cannot be read as a snapshot together. A streamed candle takes the identity of its event as
  its provider revision. When a series stores candles of two events of different identity in the window of a query, reading the
  window as a canonical snapshot raises, whatever else is stored; and where nothing else is wrong (the run is identified, the
  bars of the window belong to the query and name its exchange and a revision) it raises just because they
  do not share one provider revision. Events of one identity are not meant, such as two candles in one message of Bybit.
\<close>

theorem streamed_candles_unreadable:
  assumes "rs_ok (sv_rs sv)" and "series_path (query_key q) = Inr path" and "stored (sv_sha sv) (sv_rs sv) (query_key q) bars (series_at path cs)"
    and "kline_to_market_bar hash u d = Inr a" and "kline_to_market_bar hash v d = Inr b" and "a \<in> set bars" and "b \<in> set bars"
    and "ku_raw_event_id u = Some i" and "ku_raw_event_id v = Some j" and "i \<noteq> []" and "j \<noteq> []" and "i \<noteq> j"
    and "q_start_ms q \<le> b_time a" and "b_time a < q_end_ms q" and "q_start_ms q \<le> b_time b" and "b_time b < q_end_ms q"
  shows "\<exists>e cs'. canonical_read ct sv ai q cs = (Inl e, cs') \<and>
    (validate_artifact_identity (ai_producer_commit ai) (ai_stack_id ai) = Inr (commit, stack) \<and>
     stored_bars_read_error q (filter (\<lambda>b. in_range (Some (q_start_ms q)) (Some (q_end_ms q)) (b_time b)) bars) = Inr None \<and>
     (\<forall>x \<in> set bars. m_provider x = ik_exchange (q_instrument q) \<and> m_provider_revision x \<noteq> None) \<longrightarrow>
     e = MDValidationError ''snapshot bars must share one provider_revision'')"
proof -
  obtain cs1 where r: "stored_bars sv q cs = (Inr (window_bars q bars), cs1)" using stored_bars_exact [OF assms(1,3,2)] by blast
  have ab: "a \<in> set (window_bars q bars)" "b \<in> set (window_bars q bars)" using assms(6,7,13-16) by (simp_all add: in_range_def)
  have rev: "m_provider_revision a = Some i" "m_provider_revision b = Some j"
    using assms(4,5,8-11) by (auto simp: kline_to_market_bar_def Let_def bindR_Inr dest!: post_init_fields)
  have "\<exists>e. snapshot_of_bars ct q p commit stack (window_bars q bars) = Inl e" for p commit stack
  proof -
    obtain e where "snapshot_source_identity (window_bars q bars) p = Inl e" using mixed_source_refused [OF ab rev assms(12)] by blast
    then show ?thesis by (simp add: snapshot_of_bars_def)
  qed
  moreover have "(\<exists>e. stored_bars_read_error q (window_bars q bars) = Inl e) \<or> (\<exists>e. stored_bars_read_error q (window_bars q bars) = Inr e)"
    by (cases "stored_bars_read_error q (window_bars q bars)") auto
  ultimately have "\<exists>e cs'. canonical_read ct sv ai q cs = (Inl e, cs')" using r
    by (auto simp: canonical_read_def checked_stored_bars_def and_then_def lift_res_def return_io_def split: sum.splits prod.splits option.splits)
  then obtain e cs' where e: "canonical_read ct sv ai q cs = (Inl e, cs')" by blast
  have "e = MDValidationError ''snapshot bars must share one provider_revision''"
    if "validate_artifact_identity (ai_producer_commit ai) (ai_stack_id ai) = Inr (commit, stack)"
      "stored_bars_read_error q (window_bars q bars) = Inr None"
      "\<forall>x \<in> set bars. m_provider x = ik_exchange (q_instrument q) \<and> m_provider_revision x \<noteq> None"
    using canonical_read_stored [OF assms(1-3) that(1,2), of ct] shared_revision_refused [OF ab rev assms(12)] that(3) e
    by (auto simp: snapshot_of_bars_def)
  with e show ?thesis by blast
qed

text \<open>Two candles of a halted minute, each from its own event.\<close>

definition halted_update :: "string \<Rightarrow> int \<Rightarrow> kline_update" where
  "halted_update event t = \<lparr>ku_exchange = ''binance'', ku_market = ''spot'', ku_symbol = ''BTCUSDT'', ku_timeframe = ''1m'',
     ku_event_time = t + 60000, ku_open_time = t, ku_close_time = t + 59999, ku_open = f_zero, ku_high = f_zero, ku_low = f_zero,
     ku_close = f_zero, ku_volume = f_zero, ku_source_kind = ''trade_kline'', ku_quote_volume = None, ku_turnover = None,
     ku_trades_count = None, ku_taker_buy_base_volume = None, ku_taker_buy_quote_volume = None, ku_is_closed = True, ku_raw_source = ''ws'',
     ku_raw_event_id = Some event, ku_received_at = Some 5, ku_open_text = Some ''0'', ku_high_text = Some ''0'', ku_low_text = Some ''0'',
     ku_close_text = Some ''0'', ku_volume_text = Some ''0''\<rparr>"

definition halted_bar :: "string \<Rightarrow> int \<Rightarrow> market_bar" where
  "halted_bar event t = (sample_bar t)\<lparr>b_open := f_zero, b_high := f_zero, b_low := f_zero, b_close := f_zero, b_volume := f_zero,
     m_source_transport := ''ws'', m_provider_revision := Some event, m_open_text := Some ''0'', m_high_text := Some ''0'',
     m_low_text := Some ''0'', m_close_text := Some ''0'', m_volume_text := Some ''0''\<rparr>"

lemma halted_bar_of_update:
  "event \<noteq> [] \<Longrightarrow> kline_to_market_bar hash (halted_update event t) None = Inr (halted_bar event t)"
proof -
  assume "event \<noteq> []"
  moreover have "canonical_timeframe ''1m'' = Inr ''1m''" "py_lower ''binance'' = ''binance''" "py_lower ''spot'' = ''spot''"
    "py_upper ''BTCUSDT'' = ''BTCUSDT''" by code_simp+
  ultimately show ?thesis
    by (simp add: kline_to_market_bar_def halted_update_def halted_bar_def sample_bar_def market_bar_defaults_def market_bar_post_init_def
        fill_provider_def provider_from_metadata_def revision_from_metadata_def Let_def)
qed

lemma halted_bars_ok: "bars_ok sample_rs [halted_bar ''k:1'' 0, halted_bar ''k:2'' 60000]"
  "list_all (encodable sample_rs) [halted_bar ''k:1'' 0, halted_bar ''k:2'' 60000]"
proof -
  have "storable (halted_bar ''k:1'' 0)" "storable (halted_bar ''k:2'' 60000)" by code_simp+
  moreover have "one_line (bar_line sample_rs (halted_bar ''k:1'' 0))" "one_line (bar_line sample_rs (halted_bar ''k:2'' 60000))" by code_simp+
  moreover have "length (bar_line sample_rs (halted_bar ''k:1'' 0)) \<le> 300" "length (bar_line sample_rs (halted_bar ''k:2'' 60000)) \<le> 300"
    by code_simp+
  moreover have "bar_sane (halted_bar ''k:1'' 0)" "bar_sane (halted_bar ''k:2'' 60000)" by code_simp+
  moreover have "validate_persisted_bar_semantics (halted_bar ''k:1'' 0) = Inr ()" "validate_persisted_bar_semantics (halted_bar ''k:2'' 60000) = Inr ()"
    by code_simp+
  moreover have "b_time (halted_bar e t) = t" for e t by (simp add: halted_bar_def)
  ultimately show "bars_ok sample_rs [halted_bar ''k:1'' 0, halted_bar ''k:2'' 60000]" by (simp add: bars_ok_def line_ok_def)
  show "list_all (encodable sample_rs) [halted_bar ''k:1'' 0, halted_bar ''k:2'' 60000]" by code_simp
qed

text \<open>
  A store of two such candles, each made of its event: the read of both raises for their revisions, the read of the first one
  alone gives a snapshot of it.
\<close>

definition sample_identity_of_run :: artifact_identity where
  "sample_identity_of_run = \<lparr>ai_producer_commit = JStr sample_commit, ai_stack_id = JStr sample_stack\<rparr>"

lemma halted_checks:
  "validate_artifact_identity (ai_producer_commit sample_identity_of_run) (ai_stack_id sample_identity_of_run) = Inr (sample_commit, sample_stack)"
  "stored_bars_read_error (minutes_to 120000) [halted_bar ''k:1'' 0, halted_bar ''k:2'' 60000] = Inr None"
  "stored_bars_read_error (minutes_to 60000) [halted_bar ''k:1'' 0] = Inr None"
  by code_simp+

lemma halted_snapshot:
  "case snapshot_of_bars sample_ct (minutes_to 60000) ''binance'' (JStr sample_commit) (JStr sample_stack) [halted_bar ''k:1'' 0] of
     Inl e \<Rightarrow> False | Inr ds \<Rightarrow> map sb_open (ds_bars ds) = [0]"
  by code_simp

lemma streamed_candles_unreadable_witness:
  "\<exists>cs cs' cs'' ds path a b. series_path sample_key = Inr path \<and> stored sample_sha sample_rs sample_key [a, b] (series_at path cs) \<and>
     kline_to_market_bar (\<lambda>_ _. []) (halted_update ''k:1'' 0) None = Inr a \<and> kline_to_market_bar (\<lambda>_ _. []) (halted_update ''k:2'' 60000) None = Inr b \<and>
     canonical_read sample_ct sample_service sample_identity_of_run (minutes_to 120000) cs =
       (Inl (MDValidationError ''snapshot bars must share one provider_revision''), cs') \<and>
     canonical_read sample_ct sample_service sample_identity_of_run (minutes_to 60000) cs = (Inr ds, cs'') \<and> map sb_open (ds_bars ds) = [0]"
proof -
  let ?a = "halted_bar ''k:1'' 0" and ?b = "halted_bar ''k:2'' 60000"
  obtain path where path: "series_path sample_key = Inr path" using sample_path by blast
  have time: "b_time (halted_bar e t) = t" for e t by (simp add: halted_bar_def)
  have named: "m_provider (halted_bar e t) = ''binance''" "m_provider_revision (halted_bar e t) \<noteq> None" for e t
    by (simp_all add: halted_bar_def sample_bar_def)
  have sorted: "sort_key b_time [?a, ?b] = [?a, ?b]" by (simp add: time)
  obtain st where st: "stored sample_sha sample_rs sample_key [?a, ?b] st"
    using replace_locked_stored [of sample_sha sample_rs sample_key None empty_state _ None "[?a, ?b]", OF _ sample_identity]
      halted_bars_ok sample_vacant unfolding sorted by (auto simp: contains_def)
  have a: "kline_to_market_bar (\<lambda>_ _. []) (halted_update ''k:1'' 0) None = Inr ?a"
    "kline_to_market_bar (\<lambda>_ _. []) (halted_update ''k:2'' 60000) None = Inr ?b"
    by (rule halted_bar_of_update, simp)+
  define cs where "cs = put_series path st empty_store"
  have at: "stored sample_sha sample_rs sample_key [?a, ?b] (series_at path cs)" using st by (simp add: cs_def)
  have w: "window_bars (minutes_to 120000) [?a, ?b] = [?a, ?b]" "window_bars (minutes_to 60000) [?a, ?b] = [?a]"
    by (simp_all add: in_range_def time)
  obtain e cs' where both: "canonical_read sample_ct sample_service sample_identity_of_run (minutes_to 120000) cs = (Inl e, cs')"
    "validate_artifact_identity (ai_producer_commit sample_identity_of_run) (ai_stack_id sample_identity_of_run) = Inr (sample_commit, sample_stack) \<and>
     stored_bars_read_error (minutes_to 120000) (window_bars (minutes_to 120000) [?a, ?b]) = Inr None \<and>
     (\<forall>x \<in> set [?a, ?b]. m_provider x = ik_exchange (q_instrument (minutes_to 120000)) \<and> m_provider_revision x \<noteq> None) \<longrightarrow>
     e = MDValidationError ''snapshot bars must share one provider_revision''"
    using streamed_candles_unreadable [where sv = sample_service and q = "minutes_to 120000" and path = path and bars = "[?a, ?b]" and cs = cs
      and i = "''k:1''" and j = "''k:2''" and ai = sample_identity_of_run and commit = sample_commit and stack = sample_stack and ct = sample_ct, OF _ _ _ a]
      sample_rs_ok sample_query_key path at time by (auto simp: halted_update_def)
  have "e = MDValidationError ''snapshot bars must share one provider_revision''"
    using both(2) halted_checks(1,2) named unfolding w by simp
  moreover obtain ds where ds: "snapshot_of_bars sample_ct (minutes_to 60000) ''binance'' (JStr sample_commit) (JStr sample_stack) [?a] = Inr ds"
    "map sb_open (ds_bars ds) = [0]" using halted_snapshot by (auto split: sum.splits)
  moreover obtain cs'' where "canonical_read sample_ct sample_service sample_identity_of_run (minutes_to 60000) cs = (Inr ds, cs'')"
    using canonical_read_stored [of sample_service "minutes_to 60000" path "[?a, ?b]" cs sample_identity_of_run sample_commit sample_stack sample_ct]
      sample_rs_ok sample_query_key path at halted_checks(1,3) ds(1) unfolding w by auto
  ultimately show ?thesis using path at a both(1) by (intro exI conjI) simp_all
qed

subsection \<open>Corrected snapshots in the store\<close>

text \<open>A snapshot that kept a correction is built, read and served, but the canonical store does not write it.\<close>

lemma corrected_snapshot_not_written:
  assumes "contracts_ok ct" and "build_data_snapshot ct clock r raws = Inr ds" and "\<not> list_all (\<lambda>b. sb_state b = ORIGINAL) (ds_bars ds)"
  shows "canonical_write ct sv (snapshot_bundle ct ds) cs =
    (store_failure 0 ''bar content conflict: revision chain is missing the preceding canonical bar'', cs)"
  using taken_back [OF assms(1,2)] assms(3)
  by (simp add: canonical_write_def missing_predecessor_def bar_conflict_def error_text_def)

end
