(* ===== verification/Archive.thy ===== *)
theory Archive
  imports Bars Decimals Csv "HOL-Library.Product_Lexorder"
begin

section \<open>The archive of an exchange\<close>

text \<open>
  Models \<^verbatim>\<open>exchanges/binance/archive.py\<close>: months and days of a window as archive files, their rows as
  bars, and the gaps of fetched bars filled from them. The network and the ZIP format are parameters: the bytes
  of a URL, \<^const>\<open>None\<close> where the request fails with one of the errors the code catches, \<^const>\<open>Inl\<close> with any other,
  and the text of the first CSV member, \<^const>\<open>None\<close> where there is none or reading it fails. The files on disk are the state. Instants are whole milliseconds, which a float
  number of seconds keeps up to the year 2200.
\<close>

record archive_env =
  ar_fetch :: "string \<Rightarrow> string option res"
  ar_csv :: "string \<Rightarrow> string option"

type_synonym archive_files = "(string \<times> string) list"
type_synonym 'a afetch = "archive_files \<Rightarrow> 'a res \<times> archive_files"

definition then_fetch :: "'a afetch \<Rightarrow> ('a \<Rightarrow> 'b afetch) \<Rightarrow> 'b afetch" where
  "then_fetch f g files = (case f files of (Inl e, files') \<Rightarrow> (Inl e, files') | (Inr x, files') \<Rightarrow> g x files')"

definition archive_market_paths :: "(string \<times> string) list" where
  "archive_market_paths =
     [(''spot'', ''spot''), (''usdm'', ''futures/um''), (''usd-m'', ''futures/um''), (''um'', ''futures/um''),
      (''linear'', ''futures/um''), (''coinm'', ''futures/cm''), (''coin-m'', ''futures/cm''), (''cm'', ''futures/cm''),
      (''inverse'', ''futures/cm'')]"

definition archive_market_path :: "string \<Rightarrow> string option" where
  "archive_market_path market = map_of archive_market_paths (py_lower market)"

definition max_daily_archive_days :: nat where "max_daily_archive_days = 45"
definition max_monthly_archive_months :: nat where "max_monthly_archive_months = 12"

subsection \<open>Days and months of intervals\<close>

definition sorted_set :: "'a::linorder list \<Rightarrow> 'a list" where
  "sorted_set xs = sort (remdups xs)"

definition days_of_interval :: "int \<times> int \<Rightarrow> (int \<times> int \<times> int) list res" where
  "days_of_interval = (\<lambda>(start, stop).
     bindR (py_range ((start div day_ms) * day_ms) ((max start (stop - 1) div day_ms) * day_ms + 1) day_ms) (mapR dt))"

definition days_for_intervals :: "(int \<times> int) list \<Rightarrow> (int \<times> int \<times> int) list res" where
  "days_for_intervals intervals = bindR (mapR days_of_interval intervals) (\<lambda>ds. Inr (sorted_set (concat ds)))"

text \<open>
  The loop over months. Cursor and end are datetimes on the first of a month, and keep the time of
  day they were made from; datetimes compare field by field.
\<close>

definition month_step :: "int \<times> int \<Rightarrow> (int \<times> int) res" where
  "month_step = (\<lambda>(year, month).
     if (year, month) = (9999, 12) then Inl (PyValueError ''year 10000 is out of range'')
     else if 12 < month then Inl (PyValueError ''month must be in 1..12'')
     else Inr (if month = 12 then (year + 1, 1) else (year, month + 1)))"

function months_loop :: "int \<times> int \<Rightarrow> int \<Rightarrow> int \<times> int \<Rightarrow> int \<Rightarrow> (int \<times> int) list res" where
  "months_loop cursor tod last_month last_tod =
     (if cursor < last_month \<or> cursor = last_month \<and> tod \<le> last_tod then
        bindR (month_step cursor) (\<lambda>after.
        bindR (months_loop after tod last_month last_tod) (\<lambda>months. Inr (cursor # months)))
      else Inr [])"
  by pat_completeness auto
termination
  by (relation "measures [\<lambda>(c, t, l, lt). nat (fst l + 1 - fst c), \<lambda>(c, t, l, lt). nat (13 - snd c)]") (auto simp: month_step_def less_prod_def split: if_splits)

declare months_loop.simps [simp del]

definition months_of_interval :: "int \<times> int \<Rightarrow> (int \<times> int) list res" where
  "months_of_interval = (\<lambda>(start, stop).
     bindR (dt start) (\<lambda>(year, month, day).
     bindR (dt (max start (stop - 1))) (\<lambda>(last_year, last_month, last_day).
     months_loop (year, month) (start mod day_ms) (last_year, last_month) (max start (stop - 1) mod day_ms))))"

definition months_for_intervals :: "(int \<times> int) list \<Rightarrow> (int \<times> int) list res" where
  "months_for_intervals intervals = bindR (mapR months_of_interval intervals) (\<lambda>ms. Inr (sorted_set (concat ms)))"

subsection \<open>The rows of one file\<close>

definition epoch_to_ms :: "int \<Rightarrow> int" where
  "epoch_to_ms value = (if 100000000000000 \<le> value then value div 1000 else value)"

definition normalize_open_time :: "int \<Rightarrow> int \<Rightarrow> int res" where
  "normalize_open_time open_time duration =
     (if duration = 0 then Inl (PyZeroDivisionError ''integer division or modulo by zero'') else Inr ((open_time div duration) * duration))"

text \<open>\<open>Decimal(bar.x_text or str(bar.x))\<close>.\<close>

definition exact_value :: "string option \<Rightarrow> float64 \<Rightarrow> decimal res" where
  "exact_value t x = decimal_of_text (case t of None \<Rightarrow> f_repr x | Some s \<Rightarrow> if s = [] then f_repr x else s)"

text \<open>Every bar of an archive is a market bar, so the branch for plain bars is not reached.\<close>

definition merge_same_open_time :: "market_bar option \<Rightarrow> market_bar \<Rightarrow> market_bar res" where
  "merge_same_open_time current new =
     (case current of
        None \<Rightarrow> Inr new
      | Some cur \<Rightarrow>
          bindR (exact_value (m_volume_text cur) (b_volume cur)) (\<lambda>current_volume.
          bindR (exact_value (m_volume_text new) (b_volume new)) (\<lambda>new_volume.
          bindR (exact_value (m_high_text cur) (b_high cur)) (\<lambda>current_high.
          bindR (exact_value (m_high_text new) (b_high new)) (\<lambda>new_high.
          bindR (decimal_lt current_high new_high) (\<lambda>higher.
          bindR (exact_value (m_low_text cur) (b_low cur)) (\<lambda>current_low.
          bindR (exact_value (m_low_text new) (b_low new)) (\<lambda>new_low.
          bindR (decimal_lt new_low current_low) (\<lambda>lower.
          bindR (decimal_add current_volume new_volume) (\<lambda>volume.
          bindR (py_float (decimal_format_f volume)) (\<lambda>v.
          market_bar_post_init (market_bar_defaults\<lparr>b_time := b_time cur, b_open := b_open cur, b_high := f_max (b_high cur) (b_high new),
            b_low := f_min (b_low cur) (b_low new), b_close := b_close new, b_volume := v, b_time_close := b_time_close cur,
            m_exchange := m_exchange cur, m_market := m_market cur, m_symbol := m_symbol cur, m_timeframe := m_timeframe cur,
            m_source_transport := ''archive'', m_is_closed := Some True, m_provider := ''binance'', m_open_text := m_open_text cur,
            m_high_text := (if higher then m_high_text new else m_high_text cur),
            m_low_text := (if lower then m_low_text new else m_low_text cur), m_close_text := m_close_text new,
            m_volume_text := Some (decimal_format_f volume)\<rparr>))))))))))))"

definition row_field :: "string list \<Rightarrow> nat \<Rightarrow> string res" where
  "row_field row i = (if i < length row then Inr (row ! i) else Inl (PyIndexError ''list index out of range''))"

definition archive_bar :: "string \<Rightarrow> string \<Rightarrow> string \<Rightarrow> int \<Rightarrow> int \<Rightarrow> string list \<Rightarrow> market_bar res" where
  "archive_bar symbol market timeframe duration open_time row =
     bindR (row_field row 1) (\<lambda>ot. bindR (py_float ot) (\<lambda>o'.
     bindR (row_field row 2) (\<lambda>ht. bindR (py_float ht) (\<lambda>h.
     bindR (row_field row 3) (\<lambda>lt. bindR (py_float lt) (\<lambda>l.
     bindR (row_field row 4) (\<lambda>cl. bindR (py_float cl) (\<lambda>c.
     bindR (row_field row 5) (\<lambda>vt. bindR (py_float vt) (\<lambda>v.
     market_bar_post_init (market_bar_defaults\<lparr>b_time := open_time, b_open := o', b_high := h, b_low := l, b_close := c, b_volume := v,
       b_time_close := Some (open_time + duration - 1), m_exchange := ''binance'', m_market := py_lower market, m_symbol := py_upper symbol,
       m_timeframe := timeframe, m_source_transport := ''archive'', m_is_closed := Some True, m_provider := ''binance'',
       m_open_text := Some ot, m_high_text := Some ht, m_low_text := Some lt, m_close_text := Some cl, m_volume_text := Some vt\<rparr>)))))))))))"

text \<open>A row whose first cell is no integer, as a heading, is skipped; any other error gives up the file.\<close>

fun archive_rows ::
  "string \<Rightarrow> string \<Rightarrow> string \<Rightarrow> int \<Rightarrow> int \<Rightarrow> int \<Rightarrow> (int \<times> market_bar) list \<Rightarrow> string list list \<Rightarrow> (int \<times> market_bar) list res" where
  "archive_rows symbol market timeframe duration start stop by_time [] = Inr by_time"
| "archive_rows symbol market timeframe duration start stop by_time (row # rows) =
     (case (if row = [] then None else Some (py_int (hd row))) of
        None \<Rightarrow> archive_rows symbol market timeframe duration start stop by_time rows
      | Some (Inl _) \<Rightarrow> archive_rows symbol market timeframe duration start stop by_time rows
      | Some (Inr raw) \<Rightarrow>
          bindR (normalize_open_time (epoch_to_ms raw) duration) (\<lambda>open_time.
          if \<not> (start \<le> open_time \<and> open_time < stop) then archive_rows symbol market timeframe duration start stop by_time rows
          else
            bindR (archive_bar symbol market timeframe duration open_time row) (\<lambda>bar.
            bindR (merge_same_open_time (map_of by_time open_time) bar) (\<lambda>merged.
            archive_rows symbol market timeframe duration start stop (AList.update open_time merged by_time) rows))))"

definition archive_name :: "string \<Rightarrow> string \<Rightarrow> string \<Rightarrow> string" where
  "archive_name symbol interval suffix = symbol @ ''-'' @ interval @ ''-'' @ suffix @ ''.zip''"

definition archive_path :: "string \<Rightarrow> string \<Rightarrow> string \<Rightarrow> string \<Rightarrow> string \<Rightarrow> string" where
  "archive_path market period symbol interval name =
     py_lower market @ ''/'' @ period @ ''/'' @ symbol @ ''/'' @ interval @ ''/'' @ name"

definition archive_url :: "string \<Rightarrow> string \<Rightarrow> string \<Rightarrow> string \<Rightarrow> string \<Rightarrow> string" where
  "archive_url market_path period symbol interval name =
     ''https://data.binance.vision/data/'' @ market_path @ ''/'' @ period @ ''/klines/'' @ symbol @ ''/'' @ interval @ ''/'' @ name"

record archive_request =
  aq_symbol :: string
  aq_market :: string
  aq_timeframe :: string
  aq_start :: int
  aq_stop :: int

definition archive_bars_of :: "archive_env \<Rightarrow> archive_request \<Rightarrow> string \<Rightarrow> market_bar list res" where
  "archive_bars_of env q content =
     bindR (timeframe_ms (aq_timeframe q)) (\<lambda>duration.
     case ar_csv env content of
       None \<Rightarrow> Inr []
     | Some text \<Rightarrow>
         (case archive_rows (py_upper (aq_symbol q)) (aq_market q) (aq_timeframe q) duration (aq_start q) (aq_stop q) [] (csv_parse text) of
            Inl _ \<Rightarrow> Inr []
          | Inr by_time \<Rightarrow> Inr (sorted_vals by_time)))"

definition load_archive_file :: "archive_env \<Rightarrow> archive_request \<Rightarrow> string \<Rightarrow> string \<Rightarrow> market_bar list afetch" where
  "load_archive_file env q period suffix files =
     (case to_binance_interval (aq_timeframe q) of
        Inl e \<Rightarrow> (Inl e, files)
      | Inr interval \<Rightarrow>
          (let symbol = py_upper (aq_symbol q); name = archive_name symbol interval suffix;
               path = archive_path (aq_market q) period symbol interval name in
           case map_of files path of
             Some content \<Rightarrow> (archive_bars_of env q content, files)
           | None \<Rightarrow>
               (case archive_market_path (aq_market q) of
                  None \<Rightarrow> (Inr [], files)
                | Some market_path \<Rightarrow>
                    (case ar_fetch env (archive_url market_path period symbol interval name) of
                       Inl e \<Rightarrow> (Inl e, files)
                     | Inr None \<Rightarrow> (Inr [], files)
                     | Inr (Some content) \<Rightarrow> (archive_bars_of env q content, AList.update path content files)))))"

definition padded :: "nat \<Rightarrow> int \<Rightarrow> string" where
  "padded n v = (let s = str_of_int v in replicate (n - length s) CHR ''0'' @ s)"

definition month_suffix :: "int \<times> int \<Rightarrow> string" where
  "month_suffix = (\<lambda>(y, m). padded 4 y @ ''-'' @ padded 2 m)"

definition day_suffix :: "int \<times> int \<times> int \<Rightarrow> string" where
  "day_suffix = (\<lambda>(y, m, d). padded 4 y @ ''-'' @ padded 2 m @ ''-'' @ padded 2 d)"

fun load_archive_files :: "archive_env \<Rightarrow> archive_request \<Rightarrow> string \<Rightarrow> string list \<Rightarrow> market_bar list afetch" where
  "load_archive_files env q period [] files = (Inr [], files)"
| "load_archive_files env q period (suffix # suffixes) files =
     then_fetch (load_archive_file env q period suffix) (\<lambda>bars.
     then_fetch (load_archive_files env q period suffixes) (\<lambda>more files. (Inr (bars @ more), files))) files"

subsection \<open>Fetching a window\<close>

definition lift_fetch :: "'a res \<Rightarrow> 'a afetch" where
  "lift_fetch r files = (r, files)"

definition dedupe_sorted :: "market_bar list \<Rightarrow> market_bar list" where
  "dedupe_sorted bars = sorted_vals (dict_of b_time bars)"

definition range_coverage_complete :: "market_bar list \<Rightarrow> int \<Rightarrow> int \<Rightarrow> int \<Rightarrow> bool res" where
  "range_coverage_complete bars start stop duration =
     bindR (py_range start stop duration) (\<lambda>expected.
     Inr (expected \<noteq> [] \<and> list_all (\<lambda>t. t \<in> set (map b_time bars)) expected))"

definition fetch_binance_archive_bars :: "archive_env \<Rightarrow> archive_request \<Rightarrow> market_bar list afetch" where
  "fetch_binance_archive_bars env q =
     (if aq_stop q \<le> aq_start q \<or> archive_market_path (aq_market q) = None then lift_fetch (Inr [])
      else
        then_fetch (lift_fetch (timeframe_ms (aq_timeframe q))) (\<lambda>duration.
        then_fetch (lift_fetch (months_for_intervals [(aq_start q, aq_stop q)])) (\<lambda>months.
        then_fetch (load_archive_files env q ''monthly'' (map month_suffix months)) (\<lambda>monthly.
        let bars = dedupe_sorted monthly in
        then_fetch (lift_fetch (range_coverage_complete bars (aq_start q) (aq_stop q) duration)) (\<lambda>complete.
        if complete then lift_fetch (Inr bars)
        else if bars \<noteq> [] \<and> max_monthly_archive_months < length months then lift_fetch (Inr bars)
        else
          then_fetch (lift_fetch (days_for_intervals [(aq_start q, aq_stop q)])) (\<lambda>days.
          then_fetch (load_archive_files env q ''daily'' (map day_suffix days)) (\<lambda>daily_bars.
          then_fetch (lift_fetch (range_coverage_complete daily_bars (aq_start q) (aq_stop q) duration)) (\<lambda>complete.
          lift_fetch (Inr (if complete then daily_bars else bars))))))))))"

subsection \<open>Filling gaps\<close>

definition missing_starts :: "(int \<times> market_bar) list \<Rightarrow> int \<Rightarrow> int \<Rightarrow> int \<Rightarrow> int list res" where
  "missing_starts current start stop duration =
     bindR (py_range start stop duration) (\<lambda>ts. Inr (filter (\<lambda>t. map_of current t = None) ts))"

definition archive_missing_intervals :: "(int \<times> market_bar) list \<Rightarrow> int \<Rightarrow> int \<Rightarrow> int \<Rightarrow> (int \<times> int) list res" where
  "archive_missing_intervals current start stop duration =
     bindR (missing_starts current start stop duration) (\<lambda>ts. Inr (map (\<lambda>t. (t, min (t + duration) stop)) ts))"

fun coalesce_loop :: "int \<Rightarrow> int \<Rightarrow> (int \<times> int) list \<Rightarrow> (int \<times> int) list" where
  "coalesce_loop current_start current_end [] = [(current_start, current_end)]"
| "coalesce_loop current_start current_end ((start, stop) # rest) =
     (if start \<le> current_end then coalesce_loop current_start (max current_end stop) rest
      else (current_start, current_end) # coalesce_loop start stop rest)"

definition coalesce_intervals :: "(int \<times> int) list \<Rightarrow> (int \<times> int) list" where
  "coalesce_intervals intervals =
     (case sort intervals of [] \<Rightarrow> [] | (start, stop) # rest \<Rightarrow> coalesce_loop start stop rest)"

definition archive_covers_intervals :: "market_bar list \<Rightarrow> (int \<times> int) list \<Rightarrow> int \<Rightarrow> bool res" where
  "archive_covers_intervals bars intervals duration =
     bindR (mapR (\<lambda>(start, stop). py_range start stop duration) intervals) (\<lambda>ts.
     Inr (concat ts \<noteq> [] \<and> list_all (\<lambda>t. t \<in> set (map b_time bars)) (concat ts)))"

definition load_archive_months :: "archive_env \<Rightarrow> archive_request \<Rightarrow> (int \<times> int) list \<Rightarrow> market_bar list afetch" where
  "load_archive_months env q missing =
     then_fetch (lift_fetch (months_for_intervals missing)) (\<lambda>months.
     if max_monthly_archive_months < length months then lift_fetch (Inr [])
     else load_archive_files env q ''monthly'' (map month_suffix months))"

definition load_archive_bars :: "archive_env \<Rightarrow> archive_request \<Rightarrow> (int \<times> int) list \<Rightarrow> market_bar list afetch" where
  "load_archive_bars env q missing =
     then_fetch (lift_fetch (days_for_intervals missing)) (\<lambda>days.
     if length days \<le> max_daily_archive_days then
       then_fetch (load_archive_files env q ''daily'' (map day_suffix days)) (\<lambda>bars.
       then_fetch (lift_fetch (bindR (timeframe_ms (aq_timeframe q)) (archive_covers_intervals bars missing))) (\<lambda>covered.
       if covered then lift_fetch (Inr bars) else load_archive_months env q missing))
     else load_archive_months env q missing)"

definition fill_wanted :: "int list \<Rightarrow> (int \<times> market_bar) list \<Rightarrow> market_bar list \<Rightarrow> (int \<times> market_bar) list" where
  "fill_wanted wanted current bars =
     foldl (\<lambda>d b. if b_time b \<in> set wanted then AList.update (b_time b) b d else d) current bars"

text \<open>The gaps of fetched bars; \<open>start\<close> and \<open>stop\<close> of the request are given when the window is.\<close>

definition fill_binance_archive_gaps ::
  "archive_env \<Rightarrow> archive_request \<Rightarrow> bool \<Rightarrow> market_bar list \<Rightarrow> market_bar list afetch" where
  "fill_binance_archive_gaps env q window_given bars =
     (let current = dict_of b_time bars in
      if \<not> window_given \<or> current = [] then lift_fetch (Inr (sorted_vals current))
      else
        then_fetch (lift_fetch (timeframe_ms (aq_timeframe q))) (\<lambda>duration.
        if archive_market_path (aq_market q) = None then lift_fetch (Inr (sorted_vals current))
        else
          then_fetch (lift_fetch (archive_missing_intervals current (aq_start q) (aq_stop q) duration)) (\<lambda>intervals.
          let missing = coalesce_intervals intervals in
          if missing = [] then lift_fetch (Inr (sorted_vals current))
          else
            then_fetch (lift_fetch (missing_starts current (aq_start q) (aq_stop q) duration)) (\<lambda>wanted.
            then_fetch (load_archive_bars env q missing) (\<lambda>archive_bars.
            lift_fetch (Inr (sorted_vals (fill_wanted wanted current archive_bars))))))))"

end
