(* ===== verification/ArchiveSafety.thy ===== *)
theory ArchiveSafety
  imports Archive
begin

section \<open>What the archive of an exchange can deliver\<close>

text \<open>
  Lemmas on the merged intervals of missing candles, the months and days looked up, the bars of a file
  and the filling of gaps, and the properties of \<^verbatim>\<open>exchanges/binance/archive.py\<close> they give.
\<close>

subsection \<open>Merged intervals\<close>

definition covers_point :: "(int \<times> int) list \<Rightarrow> int \<Rightarrow> bool" where
  "covers_point ivs t \<longleftrightarrow> (\<exists>(s, e) \<in> set ivs. s \<le> t \<and> t < e)"

definition ordered_starts :: "(int \<times> int) list \<Rightarrow> bool" where
  "ordered_starts = sorted_wrt (\<lambda>i j. fst i \<le> fst j)"

lemma coalesce_loop_covers:
  "ordered_starts ((s, e) # rest) \<Longrightarrow> covers_point (coalesce_loop s e rest) t \<longleftrightarrow> covers_point ((s, e) # rest) t"
proof (induction s e rest rule: coalesce_loop.induct)
  case (2 s e start stop rest)
  have o: "s \<le> start" "ordered_starts ((start, stop) # rest)" "ordered_starts ((s, max e stop) # rest)"
    using "2.prems" by (auto simp: ordered_starts_def)
  show ?case
  proof (cases "start \<le> e")
    case True
    then show ?thesis using "2.IH"(1) o by (auto simp: covers_point_def)
  next
    case False
    then show ?thesis using "2.IH"(2) o by (auto simp: covers_point_def)
  qed
qed (simp add: covers_point_def)

lemma coalesce_loop_starts: "i \<in> set (coalesce_loop s e rest) \<Longrightarrow> fst i \<in> fst ` set ((s, e) # rest)"
  by (induction s e rest rule: coalesce_loop.induct) (auto split: if_splits)

lemma coalesce_loop_apart:
  "ordered_starts ((s, e) # rest) \<Longrightarrow>
     (\<forall>i \<in> set (coalesce_loop s e rest). s \<le> fst i) \<and> sorted_wrt (\<lambda>i j. snd i < fst j) (coalesce_loop s e rest)"
proof (induction s e rest rule: coalesce_loop.induct)
  case (2 s e start stop rest)
  have o: "s \<le> start" "ordered_starts ((start, stop) # rest)" "ordered_starts ((s, max e stop) # rest)"
    using "2.prems" by (auto simp: ordered_starts_def)
  show ?case
  proof (cases "start \<le> e")
    case True
    then show ?thesis using "2.IH"(1) o by simp
  next
    case False
    then show ?thesis using "2.IH"(2) o by (simp add: Ball_def) (metis linorder_not_le order_trans less_le_trans)
  qed
qed simp

lemma ordered_starts_sort: "ordered_starts (sort ivs)"
  unfolding ordered_starts_def
  by (rule sorted_wrt_mono_rel [OF _ sorted_sort]) (auto simp: less_eq_prod_def)

lemma coalesce_intervals_facts:
  shows "covers_point (coalesce_intervals ivs) t \<longleftrightarrow> covers_point ivs t"
    and "i \<in> set (coalesce_intervals ivs) \<Longrightarrow> fst i \<in> fst ` set ivs"
    and "sorted_wrt (\<lambda>i j. snd i < fst j) (coalesce_intervals ivs)"
proof -
  have c: "covers_point (sort ivs) t \<longleftrightarrow> covers_point ivs t" by (simp add: covers_point_def)
  consider "sort ivs = []" "ivs = []" | s e rest where "sort ivs = (s, e) # rest"
    by (metis list.exhaust set_empty set_sort surj_pair)
  note cases = this
  show "covers_point (coalesce_intervals ivs) t \<longleftrightarrow> covers_point ivs t"
    using cases c coalesce_loop_covers ordered_starts_sort [of ivs]
    by cases (auto simp: coalesce_intervals_def covers_point_def)
  show "sorted_wrt (\<lambda>i j. snd i < fst j) (coalesce_intervals ivs)"
    using cases coalesce_loop_apart ordered_starts_sort [of ivs] by cases (auto simp: coalesce_intervals_def)
  show "fst i \<in> fst ` set ivs" if "i \<in> set (coalesce_intervals ivs)"
    using cases
  proof cases
    case 2
    then have "set ivs = set ((s, e) # rest)" by (metis set_sort)
    with 2 that coalesce_loop_starts show ?thesis by (simp add: coalesce_intervals_def)
  qed (use that in \<open>simp add: coalesce_intervals_def\<close>)
qed

lemma concat_ranges:
  assumes "0 < d"
  shows "mapR (\<lambda>(s, e). py_range s e d) ivs = Inr (map (\<lambda>(s, e). range_pos s e d) ivs)"
  using assms by (intro mapR_Inr) (auto simp: py_range_pos)

lemma merged_ranges:
  assumes d: "0 < d" and m: "missing_starts current start stop d = Inr wanted"
    and i: "archive_missing_intervals current start stop d = Inr ivs"
  shows "set (concat (map (\<lambda>(s, e). range_pos s e d) (coalesce_intervals ivs))) = set wanted" (is "?L = _")
proof -
  have ivs: "ivs = map (\<lambda>t. (t, min (t + d) stop)) wanted"
    using i m by (auto simp: archive_missing_intervals_def)
  have w: "u \<in> set wanted \<longleftrightarrow> start \<le> u \<and> u < stop \<and> d dvd u - start \<and> map_of current u = None" for u
    using m d by (auto simp: missing_starts_def py_range_pos range_pos_mem)
  have starts: "s \<in> set wanted" if "(s, e) \<in> set (coalesce_intervals ivs)" for s e
    using coalesce_intervals_facts(2) [OF that] ivs by auto
  have L: "t \<in> ?L \<longleftrightarrow> (\<exists>(s, e) \<in> set (coalesce_intervals ivs). s \<le> t \<and> t < e \<and> d dvd t - s)" for t
    using d by (force simp: range_pos_mem split: prod.splits)
  have "t \<in> ?L \<longleftrightarrow> t \<in> set wanted" for t
  proof
    assume "t \<in> ?L"
    then obtain s e where se: "(s, e) \<in> set (coalesce_intervals ivs)" "s \<le> t" "t < e" "d dvd t - s" using L by auto
    then have "covers_point (coalesce_intervals ivs) t" by (auto simp: covers_point_def)
    then have "covers_point ivs t" by (simp add: coalesce_intervals_facts(1))
    then obtain u where u: "u \<in> set wanted" "u \<le> t" "t < u + d" by (auto simp: covers_point_def ivs)
    have "d dvd s - start" "d dvd u - start" using w [of s] w [of u] u(1) starts [OF se(1)] by simp_all
    from dvd_diff [OF dvd_add [OF se(4) this(1)] this(2)] have "d dvd (t - s) + (s - start) - (u - start)" .
    then have "d dvd t - u" by simp
    then have "t - u = 0" using u zdvd_not_zless [of "t - u" d] by force
    with u show "t \<in> set wanted" by simp
  next
    assume t: "t \<in> set wanted"
    with d w have "covers_point ivs t" by (force simp: covers_point_def ivs)
    then obtain s e where se: "(s, e) \<in> set (coalesce_intervals ivs)" "s \<le> t" "t < e"
      using coalesce_intervals_facts(1) [of ivs t] by (auto simp: covers_point_def)
    have "d dvd t - start" "d dvd s - start" using w [of s] w [of t] t starts [OF se(1)] by simp_all
    from dvd_diff [OF this] have "d dvd (t - start) - (s - start)" .
    then have "d dvd t - s" by simp
    then have "\<exists>(s, e) \<in> set (coalesce_intervals ivs). s \<le> t \<and> t < e \<and> d dvd t - s" using se by blast
    then show "t \<in> ?L" using L [of t] by (rule iffD2 [rotated])
  qed
  then show ?thesis by blast
qed

lemma coalesced_coverage:
  assumes "0 < d" and "missing_starts current start stop d = Inr wanted"
    and "archive_missing_intervals current start stop d = Inr ivs"
  shows "archive_covers_intervals bars (coalesce_intervals ivs) d = Inr (wanted \<noteq> [] \<and> set wanted \<subseteq> set (map b_time bars))"
proof -
  let ?ts = "concat (map (\<lambda>(s, e). range_pos s e d) (coalesce_intervals ivs))"
  have s: "set ?ts = set wanted" by (rule merged_ranges [OF assms])
  then have "?ts \<noteq> [] \<longleftrightarrow> wanted \<noteq> []" by (metis set_empty)
  moreover have "list_all (\<lambda>t. t \<in> set (map b_time bars)) ?ts \<longleftrightarrow> set wanted \<subseteq> set (map b_time bars)"
    unfolding list_all_iff s by blast
  ultimately show ?thesis
    unfolding archive_covers_intervals_def concat_ranges [OF assms(1)] by simp
qed

text \<open>
  C16. The check that decides whether the daily files of the archive suffice asks, of the merged intervals of
  missing candles, for exactly the candles that are missing: merging neither asks for a candle already there nor
  forgets one, and an empty request is not covered. The merged intervals are separated by at least one moment.
\<close>

theorem coalesced_coverage_exact:
  assumes "0 < duration" and "missing_starts current start stop duration = Inr wanted"
    and "archive_missing_intervals current start stop duration = Inr ivs"
  shows "archive_covers_intervals bars (coalesce_intervals ivs) duration =
           Inr (wanted \<noteq> [] \<and> set wanted \<subseteq> set (map b_time bars)) \<and>
         sorted_wrt (\<lambda>i j. snd i < fst j) (coalesce_intervals ivs)"
  by (intro conjI coalesced_coverage [OF assms] coalesce_intervals_facts(3))

subsection \<open>The bars of the files\<close>

lemma then_fetch_Inr:
  "then_fetch f g files = (Inr y, files') \<longleftrightarrow> (\<exists>x files''. f files = (Inr x, files'') \<and> g x files'' = (Inr y, files'))"
  by (auto simp: then_fetch_def split: prod.splits sum.splits)

lemma lift_fetch_Inr: "lift_fetch r files = (Inr y, files') \<longleftrightarrow> r = Inr y \<and> files' = files"
  by (auto simp: lift_fetch_def)

lemmas fetch_simps = then_fetch_Inr lift_fetch_Inr Let_def

text \<open>A bar of a file opens in the window and at a multiple of the timeframe counted from 1970.\<close>

definition on_grid :: "archive_request \<Rightarrow> market_bar \<Rightarrow> bool" where
  "on_grid q b \<longleftrightarrow> aq_start q \<le> b_time b \<and> b_time b < aq_stop q \<and> (\<forall>d. timeframe_ms (aq_timeframe q) = Inr d \<longrightarrow> d dvd b_time b)"

lemma market_bar_post_init_time: "market_bar_post_init b = Inr b' \<Longrightarrow> b_time b' = b_time b"
  by (auto simp: market_bar_post_init_def fill_provider_def Let_def split: if_splits)

lemma merge_time: "merge_same_open_time cur new = Inr b \<Longrightarrow> b_time b = (case cur of None \<Rightarrow> b_time new | Some c \<Rightarrow> b_time c)"
  by (auto simp: merge_same_open_time_def res_simps dest!: market_bar_post_init_time split: option.splits)

lemma archive_bar_time: "archive_bar s m tf d t row = Inr b \<Longrightarrow> b_time b = t"
  by (auto simp: archive_bar_def res_simps dest!: market_bar_post_init_time)

definition grid_map :: "int \<Rightarrow> int \<Rightarrow> int \<Rightarrow> (int \<times> market_bar) list \<Rightarrow> bool" where
  "grid_map d start stop m \<longleftrightarrow> keyed b_time m \<and> (\<forall>t \<in> fst ` set m. start \<le> t \<and> t < stop \<and> d dvd t)"

lemma grid_map_update:
  assumes "grid_map d start stop m" and "b_time b = t" and "start \<le> t" and "t < stop" and "d dvd t"
  shows "grid_map d start stop (AList.update t b m)"
  using assms by (auto simp: grid_map_def keyed_update dom_update [unfolded dom_map_of_conv_image_fst])

lemma archive_rows_grid:
  "grid_map d start stop m \<Longrightarrow> archive_rows sy mk tf d start stop m rows = Inr m' \<Longrightarrow> grid_map d start stop m'"
proof (induction rows arbitrary: m)
  case (Cons row rows)
  show ?case
  proof (cases "row = [] \<or> (\<exists>e. py_int (hd row) = Inl e)")
    case True
    then show ?thesis using Cons by (cases "row = []") auto
  next
    case False
    then obtain raw where raw: "row \<noteq> []" "py_int (hd row) = Inr raw" by (cases "py_int (hd row)") auto
    obtain t where t: "normalize_open_time (epoch_to_ms raw) d = Inr t" "d dvd t"
      using Cons.prems(2) raw by (auto simp: res_simps normalize_open_time_def split: if_splits)
    show ?thesis
    proof (cases "start \<le> t \<and> t < stop")
      case False
      then show ?thesis using Cons raw t by (auto split: if_splits)
    next
      case True
      then obtain bar b where b: "archive_bar sy mk tf d t row = Inr bar" "merge_same_open_time (map_of m t) bar = Inr b"
          "archive_rows sy mk tf d start stop (AList.update t b m) rows = Inr m'"
        using Cons.prems(2) raw t by (auto simp: res_simps)
      have k: "keyed b_time m" using Cons.prems(1) by (simp add: grid_map_def)
      have "b_time b = t"
        using merge_time [OF b(2)] archive_bar_time [OF b(1)] keyed_get [OF k] by (simp split: option.splits)
      then have "grid_map d start stop (AList.update t b m)" using Cons.prems(1) True t(2) by (intro grid_map_update) auto
      from Cons.IH [OF this b(3)] show ?thesis .
    qed
  qed
qed simp

lemma archive_bars_on_grid:
  assumes "archive_bars_of env q content = Inr bars"
  shows "list_all (on_grid q) bars"
proof -
  obtain d where d: "timeframe_ms (aq_timeframe q) = Inr d" using assms by (auto simp: archive_bars_of_def res_simps)
  show ?thesis
  proof (cases "ar_csv env content")
    case None
    with assms d show ?thesis by (simp add: archive_bars_of_def)
  next
    case (Some body)
    let ?r = "archive_rows (py_upper (aq_symbol q)) (aq_market q) (aq_timeframe q) d (aq_start q) (aq_stop q) [] (csv_parse body)"
    show ?thesis
    proof (cases ?r)
      case (Inl e)
      with assms d Some show ?thesis by (simp add: archive_bars_of_def)
    next
      case (Inr m)
      have g: "grid_map d (aq_start q) (aq_stop q) m"
        by (rule archive_rows_grid [OF _ Inr]) (simp add: grid_map_def)
      have "bars = sorted_vals m" using assms d Some Inr by (simp add: archive_bars_of_def)
      have "on_grid q b" if "b \<in> set bars" for b
      proof -
        have k: "keyed b_time m" using g by (simp add: grid_map_def)
        have "map_of m (b_time b) = Some b" using that unfolding \<open>bars = _\<close> sorted_vals_set [OF k] .
        then have "b_time b \<in> fst ` set m" by (metis domI dom_map_of_conv_image_fst)
        then have "aq_start q \<le> b_time b \<and> b_time b < aq_stop q \<and> d dvd b_time b" using g unfolding grid_map_def by blast
        with d show ?thesis by (simp add: on_grid_def)
      qed
      then show ?thesis by (simp add: list_all_iff)
    qed
  qed
qed

lemma load_archive_file_on_grid:
  "load_archive_file env q period suffix files = (Inr bars, files') \<Longrightarrow> list_all (on_grid q) bars"
  by (auto simp: load_archive_file_def Let_def archive_bars_on_grid split: sum.splits option.splits)

lemma load_archive_files_on_grid:
  "load_archive_files env q period suffixes files = (Inr bars, files') \<Longrightarrow> list_all (on_grid q) bars"
  by (induction suffixes arbitrary: files bars) (auto simp: fetch_simps dest: load_archive_file_on_grid)

lemma load_archive_bars_on_grid:
  assumes "load_archive_bars env q missing files = (Inr bars, files')"
  shows "list_all (on_grid q) bars"
  using assms
  by (auto simp: load_archive_bars_def load_archive_months_def fetch_simps split: if_splits dest!: load_archive_files_on_grid)

lemma find_in_set: "find P xs = Some x \<Longrightarrow> x \<in> set xs"
  by (auto simp: find_Some_iff)

lemma dedupe_sorted_subset: "b \<in> set (dedupe_sorted bars) \<Longrightarrow> b \<in> set bars"
  unfolding dedupe_sorted_def sorted_vals_set [OF keyed_dict_of] dict_of_get by (auto dest: find_in_set)

lemma fetched_on_grid:
  assumes "fetch_binance_archive_bars env q files = (Inr bars, files')"
  shows "list_all (on_grid q) bars"
proof -
  have "list_all (on_grid q) (dedupe_sorted bs)" if "list_all (on_grid q) bs" for bs
    using that dedupe_sorted_subset by (auto simp: list_all_iff)
  with assms show ?thesis
    by (auto simp: fetch_binance_archive_bars_def fetch_simps split: if_splits dest!: load_archive_files_on_grid)
qed

subsection \<open>Filling the gaps of fetched bars\<close>

lemma fill_wanted_extend: "fill_wanted wanted current bars = dict_extend b_time current (filter (\<lambda>b. b_time b \<in> set wanted) bars)"
  unfolding fill_wanted_def by (induction bars arbitrary: current) auto

text \<open>What the filled bars are: the given ones, and bars of the archive where none was given.\<close>

lemma filled_bars:
  assumes "fill_binance_archive_gaps env q w bars files = (Inr out, files')"
  obtains extra where "out = sorted_vals (dict_extend b_time (dict_of b_time bars) extra)"
    and "list_all (on_grid q) extra"
    and "\<forall>b \<in> set extra. b_time b \<notin> b_time ` set bars \<and>
           (\<exists>d. timeframe_ms (aq_timeframe q) = Inr d \<and> d \<noteq> 0 \<and> (0 < d \<longrightarrow> d dvd b_time b - aq_start q))"
proof -
  let ?cur = "dict_of b_time bars"
  consider "out = sorted_vals ?cur"
    | d ts archive_bars where "timeframe_ms (aq_timeframe q) = Inr d"
        "missing_starts ?cur (aq_start q) (aq_stop q) d = Inr ts" "list_all (on_grid q) archive_bars"
        "out = sorted_vals (fill_wanted ts ?cur archive_bars)"
    using assms
    by (auto simp: fill_binance_archive_gaps_def fetch_simps split: if_splits dest: load_archive_bars_on_grid)
  then show ?thesis
  proof cases
    case 1
    then show ?thesis by (intro that [of "[]"]) auto
  next
    case 2
    let ?extra = "filter (\<lambda>b. b_time b \<in> set ts) archive_bars"
    have "d \<noteq> 0" using 2(2) by (auto simp: missing_starts_def py_range_def)
    moreover have "t \<notin> b_time ` set bars \<and> (0 < d \<longrightarrow> d dvd t - aq_start q)" if "t \<in> set ts" for t
      using that 2(2) dict_extend_keys [of b_time "[]" bars]
      by (auto simp: missing_starts_def res_simps py_range_pos range_pos_mem dict_of_extend map_of_eq_None_iff)
    ultimately show ?thesis
      using 2 by (intro that [of ?extra]) (auto simp: fill_wanted_extend list_all_iff)
  qed
qed

lemma extended_given:
  assumes "\<forall>b \<in> set extra. b_time b \<notin> b_time ` set bars"
  shows "b \<in> set (sorted_vals (dict_extend b_time (dict_of b_time bars) extra)) \<longleftrightarrow>
    (if b_time b \<in> b_time ` set bars then find (\<lambda>x. b_time x = b_time b) (rev bars) = Some b
     else find (\<lambda>x. b_time x = b_time b) (rev extra) = Some b)"
proof -
  have n: "find (\<lambda>x. b_time x = b_time b) (rev extra) = None" if "b_time b \<in> b_time ` set bars"
    using that assms by (auto simp: find_None_iff)
  have n': "find (\<lambda>x. b_time x = b_time b) (rev bars) = None" if "b_time b \<notin> b_time ` set bars"
    unfolding find_None_iff set_rev using that by (metis imageI)
  have k: "keyed b_time (dict_extend b_time (dict_of b_time bars) extra)" by (intro keyed_extend keyed_dict_of)
  show ?thesis
    unfolding sorted_vals_set [OF k] dict_extend_get dict_of_get using n n' by (simp split: option.splits)
qed

lemma fill_result:
  assumes "fill_binance_archive_gaps env q w bars files = (Inr out, files')"
  shows "sorted_wrt (<) (map b_time out) \<and>
    (\<forall>b. b_time b \<in> b_time ` set bars \<longrightarrow> (b \<in> set out \<longleftrightarrow> find (\<lambda>x. b_time x = b_time b) (rev bars) = Some b)) \<and>
    (\<forall>b \<in> set out. b_time b \<notin> b_time ` set bars \<longrightarrow> on_grid q b \<and>
       (\<exists>d. timeframe_ms (aq_timeframe q) = Inr d \<and> (0 < d \<longrightarrow> d dvd b_time b - aq_start q)))"
proof -
  obtain extra where m: "out = sorted_vals (dict_extend b_time (dict_of b_time bars) extra)" "list_all (on_grid q) extra"
    "\<forall>b \<in> set extra. b_time b \<notin> b_time ` set bars \<and>
       (\<exists>d. timeframe_ms (aq_timeframe q) = Inr d \<and> d \<noteq> 0 \<and> (0 < d \<longrightarrow> d dvd b_time b - aq_start q))"
    using filled_bars [OF assms] by blast
  have fresh: "\<forall>b \<in> set extra. b_time b \<notin> b_time ` set bars" using m(3) by blast
  have mem: "b \<in> set extra" if "b \<in> set out" "b_time b \<notin> b_time ` set bars" for b
  proof -
    have "find (\<lambda>x. b_time x = b_time b) (rev extra) = Some b"
      using that(1) unfolding m(1) extended_given [OF fresh] by (simp add: that(2))
    from find_in_set [OF this] show ?thesis by simp
  qed
  have k: "keyed b_time (dict_extend b_time (dict_of b_time bars) extra)" by (intro keyed_extend keyed_dict_of)
  have grid: "on_grid q b \<and> (\<exists>d. timeframe_ms (aq_timeframe q) = Inr d \<and> (0 < d \<longrightarrow> d dvd b_time b - aq_start q))"
    if "b \<in> set extra" for b
    using m(2,3) that by (auto simp: list_all_iff)
  show ?thesis
    using sorted_vals_strict [OF k] extended_given [OF fresh] grid mem unfolding m(1) by simp
qed

lemma Inr_inject: "Inr a = Inr b \<Longrightarrow> a = b"
  by simp

lemma fill_off_grid:
  assumes "fill_binance_archive_gaps env q w bars files = (Inr out, files')"
    and d: "timeframe_ms (aq_timeframe q) = Inr d" "0 < d" and off: "\<not> d dvd aq_start q"
  shows "out = sorted_vals (dict_of b_time bars)"
proof -
  obtain extra where m: "out = sorted_vals (dict_extend b_time (dict_of b_time bars) extra)" "list_all (on_grid q) extra"
    "\<forall>b \<in> set extra. b_time b \<notin> b_time ` set bars \<and>
       (\<exists>d. timeframe_ms (aq_timeframe q) = Inr d \<and> d \<noteq> 0 \<and> (0 < d \<longrightarrow> d dvd b_time b - aq_start q))"
    using filled_bars [OF assms(1)] by blast
  have False if "b \<in> set extra" for b
  proof -
    have "d dvd b_time b" using m(2) that d(1) by (auto simp: list_all_iff on_grid_def)
    moreover have "d dvd b_time b - aq_start q" using m(3) that d by auto
    ultimately have "d dvd aq_start q" by (metis dvd_diff diff_diff_eq2 add_diff_cancel_left')
    with off show False by simp
  qed
  then have "extra = []" by (cases extra) auto
  with m(1) show ?thesis by simp
qed

subsection \<open>Months and days\<close>

lemma month_order:
  assumes "dt s = Inr (y0, m0, d0)" and "dt t = Inr (y, m, d)" and "s \<le> t"
  shows "(y0, m0) \<le> (y, m)"
proof (rule ccontr)
  assume "\<not> (y0, m0) \<le> (y, m)"
  then consider "y < y0" | "y = y0" "m < m0" by (fastforce simp: less_eq_prod_def)
  note lt = this
  note a = dt_Inr [OF assms(1)] and b = dt_Inr [OF assms(2)]
  have "ymd2ord y m d < ymd2ord y0 m0 d0"
    using lt
  proof cases
    case 1
    then have "days_before_year (y + 1) \<le> days_before_year y0" by (intro days_before_year_mono) simp
    with ymd2ord_in_year [OF b(1)] ymd2ord_in_year [OF a(1)] show ?thesis by linarith
  next
    case 2
    then show ?thesis
      using a(1) b(1) leap_month_start_step [of m m0 "is_leap y"] by (auto simp: valid_ymd_def ymd2ord_def days_in_month_def)
  qed
  with a(2) b(2) have "t div day_ms < s div day_ms" by simp
  moreover have "s div day_ms \<le> t div day_ms" using assms(3) by (intro zdiv_mono1) (auto simp: day_ms_def)
  ultimately show False by simp
qed

lemma months_loop_members:
  "months_loop c tod l ltod = Inr ms \<Longrightarrow> 1 \<le> snd c \<Longrightarrow> snd c \<le> 12 \<Longrightarrow>
     p \<in> set ms \<longleftrightarrow> 1 \<le> snd p \<and> snd p \<le> 12 \<and> c \<le> p \<and> (p < l \<or> p = l \<and> tod \<le> ltod)"
proof (induction c tod l ltod arbitrary: ms rule: months_loop.induct)
  case (1 c tod l ltod)
  show ?case
  proof (cases "c < l \<or> c = l \<and> tod \<le> ltod")
    case False
    then have "ms = []" using "1.prems"(1) by (subst (asm) months_loop.simps) (simp split: if_splits)
    with False show ?thesis by auto
  next
    case True
    then obtain after rest where ar: "month_step c = Inr after" "months_loop after tod l ltod = Inr rest" "ms = c # rest"
      using "1.prems"(1) by (subst (asm) months_loop.simps) (auto simp: res_simps)
    have after: "1 \<le> snd after" "snd after \<le> 12" and
      nxt: "1 \<le> snd p \<Longrightarrow> snd p \<le> 12 \<Longrightarrow> c \<le> p \<longleftrightarrow> p = c \<or> after \<le> p"
      using ar(1) "1.prems"(2,3)
      by (cases c; cases p; auto simp: month_step_def less_eq_prod_def split: if_splits)+
    show ?thesis
      using "1.IH" [OF True ar(1) ar(2) after] nxt "1.prems"(2,3) True ar(3) by auto
  qed
qed


lemma week_not_monday:
  assumes "weekday (s div day_ms + 719163) = 0" and "day_ms dvd s"
  shows "\<not> 7 * day_ms dvd s"
proof
  assume "7 * day_ms dvd s"
  then obtain k where "s = 7 * day_ms * k" by (elim dvdE)
  then have "s div day_ms = 7 * k" by (simp add: day_ms_def)
  with assms(1) have "(7 * k + 719163 + 6) mod 7 = 0" by (simp add: weekday_def)
  then show False by presburger
qed

text \<open>
  C17. A weekly window that starts at the midnight of a Monday, as weeks do, is never filled: bars of
  the archive open at multiples of a week counted from 1970, a Thursday, so none of them stands where a week
  is missing, whatever files the archive holds.
\<close>

theorem weekly_gaps_stay:
  assumes "fill_binance_archive_gaps env q w bars files = (Inr out, files')"
    and "timeframe_ms (aq_timeframe q) = Inr (7 * day_ms)"
    and "weekday (aq_start q div day_ms + 719163) = 0" and "day_ms dvd aq_start q"
  shows "out = sorted_vals (dict_of b_time bars)"
  by (rule fill_off_grid [OF assms(1,2) _ week_not_monday [OF assms(3,4)]]) (simp add: day_ms_def)

text \<open>
  C29. The month of the last moment of a window is among the months whose files are read exactly when that moment is,
  in its day, not before the time of day of the window's start: the cursor over the months keeps the
  time of day it started with, so a window that ends earlier in the day loses its last month.
\<close>

theorem last_month_read_iff:
  assumes "months_for_intervals [(start, stop)] = Inr months" and "start < stop" and "dt (stop - 1) = Inr (y, m, d)"
  shows "(y, m) \<in> set months \<longleftrightarrow> start mod day_ms \<le> (stop - 1) mod day_ms"
proof -
  have last: "max start (stop - 1) = stop - 1" using assms(2) by simp
  obtain y0 m0 d0 where first: "dt start = Inr (y0, m0, d0)"
    using assms(1) by (auto simp: months_for_intervals_def months_of_interval_def res_simps)
  obtain ms where ms: "months_loop (y0, m0) (start mod day_ms) (y, m) ((stop - 1) mod day_ms) = Inr ms" "set months = set ms"
    using assms(1,3) first by (auto simp: months_for_intervals_def months_of_interval_def res_simps last sorted_set_def)
  have "1 \<le> m" "m \<le> 12" "1 \<le> m0" "m0 \<le> 12" using dt_Inr(1) [OF first] dt_Inr(1) [OF assms(3)] by (auto simp: valid_ymd_def)
  moreover have "(y0, m0) \<le> (y, m)" by (rule month_order [OF first assms(3)]) (use assms(2) in simp)
  ultimately show ?thesis using months_loop_members [OF ms(1), of "(y, m)"] by (simp add: ms(2))
qed

subsection \<open>Witnesses\<close>

text \<open>A file of one row for the first of January 1970, and bars with a gap where it stands.\<close>

definition sample_archive :: archive_env where
  "sample_archive =
     \<lparr>ar_fetch = \<lambda>url. Inr (if url = ''https://data.binance.vision/data/spot/daily/klines/BTCUSDT/1m/BTCUSDT-1m-1970-01-01.zip''
        then Some ''PK'' else None),
      ar_csv = \<lambda>content. if content = ''PK'' then Some ''open_time,open\<newline>60000,1,2,1,2,10\<newline>'' else None\<rparr>"

definition sample_window :: "string \<Rightarrow> int \<Rightarrow> int \<Rightarrow> archive_request" where
  "sample_window tf start stop = \<lparr>aq_symbol = ''btcusdt'', aq_market = ''spot'', aq_timeframe = tf, aq_start = start, aq_stop = stop\<rparr>"

definition sample_fetched :: "int list \<Rightarrow> market_bar list" where
  "sample_fetched = map (\<lambda>t. market_bar_defaults\<lparr>b_time := t, m_is_closed := Some True\<rparr>)"

lemma sample_fill:
  "(case fill_binance_archive_gaps sample_archive (sample_window ''1m'' 0 180000) True (sample_fetched [120000, 0]) [] of
     (Inl e, _) \<Rightarrow> None | (Inr out, files) \<Rightarrow> Some (map b_time out, map m_source_transport out, map fst files)) =
   Some ([0, 60000, 120000], [''rest'', ''archive'', ''rest''], [''spot/daily/BTCUSDT/1m/BTCUSDT-1m-1970-01-01.zip''])"
  by code_simp

lemma fetched_Some:
  assumes "(case r of (Inl e, _) \<Rightarrow> None | (Inr out, files) \<Rightarrow> Some (f out files)) = Some v"
  obtains out files where "r = (Inr out, files)" "f out files = v"
  using assms by (auto split: prod.splits sum.splits)


lemma sample_weeks:
  "(case fill_binance_archive_gaps sample_archive (sample_window ''1W'' 345600000 2160000000) True (sample_fetched [345600000, 1555200000]) [] of
     (Inl e, _) \<Rightarrow> None | (Inr out, files) \<Rightarrow> Some (map b_time out)) = Some [345600000, 1555200000]"
  by code_simp

theorem weekly_gaps_stay_witness:
  "\<exists>out files. fill_binance_archive_gaps sample_archive (sample_window ''1W'' 345600000 2160000000) True (sample_fetched [345600000, 1555200000]) [] = (Inr out, files) \<and>
     out = sorted_vals (dict_of b_time (sample_fetched [345600000, 1555200000])) \<and> length out = 2"
proof -
  obtain out files where r: "fill_binance_archive_gaps sample_archive (sample_window ''1W'' 345600000 2160000000) True (sample_fetched [345600000, 1555200000]) [] = (Inr out, files)"
    "map b_time out = [345600000, 1555200000]"
    by (rule fetched_Some [OF sample_weeks])
  have "timeframe_ms ''1W'' = Inr 604800000" by code_simp
  with weekly_gaps_stay [OF r(1)] have "out = sorted_vals (dict_of b_time (sample_fetched [345600000, 1555200000]))"
    by (simp add: sample_window_def weekday_def day_ms_def)
  moreover have "length out = 2" using r(2) by (metis length_map length_Cons list.size(3) numeral_2_eq_2)
  ultimately show ?thesis using r(1) by blast
qed

theorem last_month_read_iff_witness:
  "\<exists>months. months_for_intervals [(2635200000, 2700000000)] = Inr months \<and> (1970, 2) \<notin> set months \<and> months = [(1970, 1)]"
proof -
  have m: "months_for_intervals [(2635200000, 2700000000)] = Inr [(1970, 1)]" by code_simp
  have "dt (2700000000 - 1) = Inr (1970, 2, 1)" by code_simp
  from last_month_read_iff [OF m _ this] m show ?thesis by (simp add: day_ms_def)
qed

theorem coalesced_coverage_exact_witness:
  "archive_missing_intervals (dict_of b_time (sample_fetched [120000])) 0 300000 60000 =
     Inr [(0, 60000), (60000, 120000), (180000, 240000), (240000, 300000)] \<and>
   archive_covers_intervals (sample_fetched [0, 60000, 180000, 240000])
     (coalesce_intervals [(0, 60000), (60000, 120000), (180000, 240000), (240000, 300000)]) 60000 = Inr True"
proof -
  have m: "missing_starts (dict_of b_time (sample_fetched [120000])) 0 300000 60000 = Inr [0, 60000, 180000, 240000]" by code_simp
  have i: "archive_missing_intervals (dict_of b_time (sample_fetched [120000])) 0 300000 60000 =
     Inr [(0, 60000), (60000, 120000), (180000, 240000), (240000, 300000)]" by code_simp
  from coalesced_coverage_exact [OF _ m i, of "sample_fetched [0, 60000, 180000, 240000]"] i
  show ?thesis by (simp add: sample_fetched_def market_bar_defaults_def)
qed

end
