(* ===== verification/Cache.thy ===== *)
theory Cache
  imports RawStore
begin

section \<open>Cached segments of bars\<close>

text \<open>
  Models \<^verbatim>\<open>cache/local.py\<close>: a segment is a directory with one CSV file of bars and one JSON file of
  metadata. Files are kept by the directory they are in, the CSV file as its text and the metadata as the object its
  text parses to. The digest is a parameter.
\<close>

record cache_key =
  ck_exchange :: string
  ck_market :: string
  ck_symbol :: string
  ck_timeframe :: string

record cache_metadata =
  cm_runtime_contract_version :: string
  cm_exchange :: string
  cm_market :: string
  cm_symbol :: string
  cm_timeframe :: string
  cm_start :: "int option"
  cm_end :: "int option"
  cm_bars :: int
  cm_first_time :: "int option"
  cm_last_time :: "int option"
  cm_checksum :: string
  cm_data_format :: string

record cache_files =
  cf_data :: "(string \<times> string) list"
  cf_metadata :: "(string \<times> (string \<times> json) list) list"

definition cache_segment_dir :: "cache_key \<Rightarrow> string res" where
  "cache_segment_dir k =
     bindR (canonical_timeframe (ck_timeframe k)) (\<lambda>tf.
     Inr (py_lower (ck_exchange k) @ ''/'' @ py_lower (ck_market k) @ ''/'' @ safe_path_part (ck_symbol k) @ ''/'' @ tf))"

definition int_json :: "int option \<Rightarrow> json" where
  "int_json v = (case v of None \<Rightarrow> JNull | Some n \<Rightarrow> JInt n)"

definition cache_row_json :: "'a bar_scheme \<Rightarrow> json" where
  "cache_row_json b =
     JObj [(''time'', JInt (b_time b)), (''open'', JFloat (b_open b)), (''high'', JFloat (b_high b)), (''low'', JFloat (b_low b)),
           (''close'', JFloat (b_close b)), (''volume'', JFloat (b_volume b)), (''time_close'', int_json (b_time_close b))]"

definition cache_checksum :: "(byte list \<Rightarrow> byte list) \<Rightarrow> 'a bar_scheme list \<Rightarrow> string" where
  "cache_checksum sha bars = hexdigest (sha (text_bytes (concat (map (\<lambda>b. json_dumps (cache_row_json b) @ [lf]) bars))))"

subsection \<open>Writing\<close>

definition cache_fields :: "string list" where
  "cache_fields = [''time'', ''open'', ''high'', ''low'', ''close'', ''volume'', ''time_close'']"

definition cache_row :: "'a bar_scheme \<Rightarrow> string list" where
  "cache_row b =
     [str_of_int (b_time b), f_repr (b_open b), f_repr (b_high b), f_repr (b_low b), f_repr (b_close b), f_repr (b_volume b),
      cell_opt str_of_int (b_time_close b)]"

definition cache_text :: "'a bar_scheme list \<Rightarrow> string" where
  "cache_text bars = csv_text (cache_fields # map cache_row bars)"

definition cache_metadata_json :: "cache_metadata \<Rightarrow> (string \<times> json) list" where
  "cache_metadata_json m =
     [(''runtime_contract_version'', JStr (cm_runtime_contract_version m)), (''exchange'', JStr (cm_exchange m)),
      (''market'', JStr (cm_market m)), (''symbol'', JStr (cm_symbol m)), (''timeframe'', JStr (cm_timeframe m)),
      (''start'', int_json (cm_start m)), (''end'', int_json (cm_end m)), (''bars'', JInt (cm_bars m)),
      (''first_time'', int_json (cm_first_time m)), (''last_time'', int_json (cm_last_time m)), (''checksum'', JStr (cm_checksum m)),
      (''data_format'', JStr (cm_data_format m))]"

definition cache_metadata_of ::
  "(byte list \<Rightarrow> byte list) \<Rightarrow> cache_key \<Rightarrow> string \<Rightarrow> 'a bar_scheme list \<Rightarrow> int option \<Rightarrow> int option \<Rightarrow> cache_metadata" where
  "cache_metadata_of sha k tf bars start stop =
     \<lparr>cm_runtime_contract_version = runtime_contract_version, cm_exchange = py_lower (ck_exchange k), cm_market = py_lower (ck_market k),
      cm_symbol = py_upper (ck_symbol k), cm_timeframe = tf, cm_start = start, cm_end = stop, cm_bars = int (length bars),
      cm_first_time = (if bars = [] then None else Some (b_time (hd bars))),
      cm_last_time = (if bars = [] then None else Some (b_time (last bars))), cm_checksum = cache_checksum sha bars,
      cm_data_format = ''csv''\<rparr>"

definition write_cache_segment ::
  "(byte list \<Rightarrow> byte list) \<Rightarrow> cache_key \<Rightarrow> 'a bar_scheme list \<Rightarrow> int option \<Rightarrow> int option \<Rightarrow> cache_files \<Rightarrow> cache_metadata res \<times> cache_files" where
  "write_cache_segment sha k bars start stop files =
     (case bindR (validate_bars bars False) (\<lambda>_. bindR (cache_segment_dir k) (\<lambda>seg. bindR (canonical_timeframe (ck_timeframe k)) (\<lambda>tf. Inr (seg, tf)))) of
        Inl e \<Rightarrow> (Inl e, files)
      | Inr (seg, tf) \<Rightarrow>
          (let m = cache_metadata_of sha k tf bars start stop in
           (Inr m, files\<lparr>cf_data := AList.update seg (cache_text bars) (cf_data files),
                         cf_metadata := AList.update seg (cache_metadata_json m) (cf_metadata files)\<rparr>)))"

subsection \<open>Reading\<close>

text \<open>\<open>row[name]\<close> as the text a number is made of; a missing cell is \<open>None\<close>, which no number is made of.\<close>

definition cache_cell :: "csv_dict \<Rightarrow> string \<Rightarrow> string res" where
  "cache_cell r name =
     (case map_of r name of
        None \<Rightarrow> Inl (PyKeyError name)
      | Some None \<Rightarrow> Inl (PyTypeError ''argument must be a string or a real number, not NoneType'')
      | Some (Some v) \<Rightarrow> Inr v)"

definition cache_volume :: "csv_dict \<Rightarrow> float64 res" where
  "cache_volume r = (case cell r ''volume'' of None \<Rightarrow> Inr f_zero | Some v \<Rightarrow> py_float v)"

definition prices_of_row :: "csv_dict \<Rightarrow> int \<Rightarrow> int option res \<Rightarrow> bar res" where
  "prices_of_row r t close =
     bindR (bindR (cache_cell r ''open'') py_float) (\<lambda>o'.
     bindR (bindR (cache_cell r ''high'') py_float) (\<lambda>h.
     bindR (bindR (cache_cell r ''low'') py_float) (\<lambda>l.
     bindR (bindR (cache_cell r ''close'') py_float) (\<lambda>c.
     bindR (cache_volume r) (\<lambda>v.
     bindR close (\<lambda>tc.
     Inr \<lparr>b_time = t, b_open = o', b_high = h, b_low = l, b_close = c, b_volume = v, b_time_close = tc\<rparr>))))))"

definition bar_of_cache_row :: "csv_dict \<Rightarrow> bar res" where
  "bar_of_cache_row r =
     bindR (bindR (cache_cell r ''time'') py_int) (\<lambda>t.
     prices_of_row r t (case cell r ''time_close'' of None \<Rightarrow> Inr None | Some v \<Rightarrow> bindR (py_int v) (\<lambda>n. Inr (Some n))))"

definition in_window :: "int option \<Rightarrow> int option \<Rightarrow> 'a bar_scheme \<Rightarrow> bool" where
  "in_window start stop b \<longleftrightarrow>
     (case start of None \<Rightarrow> True | Some s \<Rightarrow> s \<le> b_time b) \<and> (case stop of None \<Rightarrow> True | Some e \<Rightarrow> b_time b < e)"

text \<open>\<open>xs[:n]\<close>, which for a negative \<open>n\<close> leaves the last ones out.\<close>

definition py_prefix :: "int option \<Rightarrow> 'a list \<Rightarrow> 'a list" where
  "py_prefix n xs = (case n of None \<Rightarrow> xs | Some k \<Rightarrow> if 0 \<le> k then take (nat k) xs else take (length xs - nat (- k)) xs)"

definition check_cache_metadata :: "(byte list \<Rightarrow> byte list) \<Rightarrow> bar list \<Rightarrow> (string \<times> json) list \<Rightarrow> unit res" where
  "check_cache_metadata sha bars meta =
     (if obj_get meta ''runtime_contract_version'' \<noteq> JStr runtime_contract_version
      then Inl (MDInvalidExchangeResponse ''Unsupported cache runtime_contract_version: '')
      else if obj_get meta ''checksum'' \<noteq> JStr (cache_checksum sha bars)
      then Inl (MDInvalidExchangeResponse ''Cache checksum mismatch'')
      else Inr ())"

definition read_cache_segment ::
  "(byte list \<Rightarrow> byte list) \<Rightarrow> cache_key \<Rightarrow> int option \<Rightarrow> int option \<Rightarrow> int option \<Rightarrow> cache_files \<Rightarrow> bar list res" where
  "read_cache_segment sha k start stop max_bars files =
     bindR (cache_segment_dir k) (\<lambda>seg.
     case (map_of (cf_data files) seg, map_of (cf_metadata files) seg) of
       (Some content, Some meta) \<Rightarrow>
         bindR (mapR bar_of_cache_row (dict_rows content)) (\<lambda>bars.
         bindR (validate_bars bars False) (\<lambda>_.
         bindR (check_cache_metadata sha bars meta) (\<lambda>_.
         Inr (py_prefix max_bars (filter (in_window start stop) bars)))))
     | _ \<Rightarrow> Inl (MDUnsupportedFeature (''Cache segment not found: '' @ seg)))"

subsection \<open>Rows read back\<close>

definition cache_dict :: "'a bar_scheme \<Rightarrow> csv_dict" where
  "cache_dict b = dict_row cache_fields (cache_row b)"

lemma cache_lookup:
  "map_of (cache_dict b) ''time'' = Some (Some (str_of_int (b_time b)))"
  "map_of (cache_dict b) ''open'' = Some (Some (f_repr (b_open b)))"
  "map_of (cache_dict b) ''high'' = Some (Some (f_repr (b_high b)))"
  "map_of (cache_dict b) ''low'' = Some (Some (f_repr (b_low b)))"
  "map_of (cache_dict b) ''close'' = Some (Some (f_repr (b_close b)))"
  "map_of (cache_dict b) ''volume'' = Some (Some (f_repr (b_volume b)))"
  "map_of (cache_dict b) ''time_close'' = Some (Some (cell_opt str_of_int (b_time_close b)))"
  by (simp_all add: cache_dict_def cache_fields_def cache_row_def)

definition exact_floats :: "bar \<Rightarrow> bool" where
  "exact_floats b \<longleftrightarrow> list_all f_text_ok [b_open b, b_high b, b_low b, b_close b, b_volume b]"

lemma cache_cells:
  assumes "exact_floats b"
  shows "bindR (cache_cell (cache_dict b) ''time'') py_int = Inr (b_time b)"
    and "bindR (cache_cell (cache_dict b) ''open'') py_float = Inr (b_open b)"
    and "bindR (cache_cell (cache_dict b) ''high'') py_float = Inr (b_high b)"
    and "bindR (cache_cell (cache_dict b) ''low'') py_float = Inr (b_low b)"
    and "bindR (cache_cell (cache_dict b) ''close'') py_float = Inr (b_close b)"
    and "cache_volume (cache_dict b) = Inr (b_volume b)"
    and "cell (cache_dict b) ''time_close'' = map_option str_of_int (b_time_close b)"
    and "cell (cache_dict b) ''time'' = Some (str_of_int (b_time b))"
  using assms f_repr_nonempty
  by (auto simp: cache_cell_def cache_lookup exact_floats_def f_text_ok_def cache_volume_def cell_def cell_opt_def split: option.splits)

lemma prices_read:
  assumes "exact_floats b"
  shows "prices_of_row (cache_dict b) t close = bindR close (\<lambda>tc. Inr (b\<lparr>b_time := t, b_time_close := tc\<rparr>))"
  unfolding prices_of_row_def cache_cells [OF assms] by (cases close) simp_all

lemma cache_row_read: "exact_floats b \<Longrightarrow> bar_of_cache_row (cache_dict b) = Inr b"
  by (simp add: bar_of_cache_row_def cache_cells prices_read split: option.splits)

lemma cache_rows: "dict_rows (cache_text bars) = map cache_dict bars"
proof -
  have "list_all csv_row_ok (cache_fields # map cache_row bars)"
    by (auto simp: list_all_iff csv_row_ok_def cache_fields_def cache_row_def)
  from csv_parse_text [OF this] show ?thesis by (simp add: dict_rows_def cache_text_def cache_dict_def comp_def)
qed

interpretation cache_row: codec cache_dict bar_of_cache_row exact_floats
  by unfold_locales (rule cache_row_read)

lemma cache_meta_checked: "check_cache_metadata sha bars (cache_metadata_json (cache_metadata_of sha k tf bars start stop)) = Inr ()"
  by (simp add: check_cache_metadata_def cache_metadata_json_def cache_metadata_of_def obj_get_def)

lemma written_segment:
  assumes "write_cache_segment sha k bars start stop files = (Inr m, files')"
  obtains seg tf where "validate_bars bars False = Inr ()" "cache_segment_dir k = Inr seg" "m = cache_metadata_of sha k tf bars start stop"
    "files' = files\<lparr>cf_data := AList.update seg (cache_text bars) (cf_data files), cf_metadata := AList.update seg (cache_metadata_json m) (cf_metadata files)\<rparr>"
  using assms by (fastforce simp: write_cache_segment_def Let_def res_simps split: sum.splits)

lemma read_written:
  assumes "write_cache_segment sha k bars start stop files = (Inr m, files')" and "list_all exact_floats bars"
  shows "read_cache_segment sha k from until max_bars files' = Inr (py_prefix max_bars (filter (in_window from until) bars))"
proof -
  obtain seg tf where w: "validate_bars bars False = Inr ()" "cache_segment_dir k = Inr seg" "m = cache_metadata_of sha k tf bars start stop"
    "files' = files\<lparr>cf_data := AList.update seg (cache_text bars) (cf_data files), cf_metadata := AList.update seg (cache_metadata_json m) (cf_metadata files)\<rparr>"
    using assms(1) by (rule written_segment)
  have "mapR bar_of_cache_row (map cache_dict bars) = Inr bars"
    using cache_row.decode_list [OF assms(2)] by (simp add: mapR_list_all2 list_all2_map1)
  with w show ?thesis by (simp add: read_cache_segment_def cache_rows cache_meta_checked update_conv')
qed

lemma read_other:
  assumes "write_cache_segment sha k bars start stop files = (Inr m, files')" and "cache_segment_dir k' \<noteq> cache_segment_dir k"
  shows "read_cache_segment sha k' from until max_bars files' = read_cache_segment sha k' from until max_bars files"
proof -
  obtain seg tf where w: "cache_segment_dir k = Inr seg" "m = cache_metadata_of sha k tf bars start stop"
    "files' = files\<lparr>cf_data := AList.update seg (cache_text bars) (cf_data files), cf_metadata := AList.update seg (cache_metadata_json m) (cf_metadata files)\<rparr>"
    using assms(1) by (rule written_segment)
  show ?thesis
  proof (cases "cache_segment_dir k'")
    case (Inl e)
    then show ?thesis by (simp add: read_cache_segment_def)
  next
    case (Inr seg')
    with assms(2) w(1) have "seg' \<noteq> seg" by auto
    with Inr w(3) show ?thesis by (simp add: read_cache_segment_def update_conv')
  qed
qed

text \<open>
  Bars written to the cache are read back exactly, cut to any window and length that is asked for, when
  their floats are ones whose text reads back; segments of other directories read as before. The bars pass
  the validation and the checksum on the way back.
\<close>

theorem cache_round_trip:
  assumes "write_cache_segment sha k bars start stop files = (Inr m, files')" and "list_all exact_floats bars"
  shows "read_cache_segment sha k from until max_bars files' = Inr (py_prefix max_bars (filter (in_window from until) bars)) \<and>
    (\<forall>k'. cache_segment_dir k' \<noteq> cache_segment_dir k \<longrightarrow>
       read_cache_segment sha k' from until max_bars files' = read_cache_segment sha k' from until max_bars files)"
  using read_written [OF assms] read_other [OF assms(1)] by blast

definition sample_cached :: "int \<Rightarrow> int option \<Rightarrow> bar" where
  "sample_cached t close = \<lparr>b_time = t, b_open = f_of_int 1, b_high = f_of_int 2, b_low = f_of_int 1, b_close = f_of_int 2, b_volume = f_zero,
     b_time_close = close\<rparr>"

definition sample_cache_key :: cache_key where
  "sample_cache_key = \<lparr>ck_exchange = ''Binance'', ck_market = ''spot'', ck_symbol = ''BTCUSDT'', ck_timeframe = ''1m''\<rparr>"

lemma sample_cached_exact: "exact_floats (sample_cached t close)"
proof -
  have "f_text_ok (f_of_int 1)" "f_text_ok (f_of_int 2)" "f_text_ok f_zero" by code_simp+
  then show ?thesis by (simp add: exact_floats_def sample_cached_def)
qed

lemma sample_cached_valid: "validate_bars [sample_cached 0 None, sample_cached 60000 (Some 119999)] False = Inr ()"
  by code_simp

theorem cache_round_trip_witness:
  "\<exists>m files. write_cache_segment (\<lambda>b. []) sample_cache_key [sample_cached 0 None, sample_cached 60000 (Some 119999)] None None \<lparr>cf_data = [], cf_metadata = []\<rparr> = (Inr m, files) \<and>
     read_cache_segment (\<lambda>b. []) sample_cache_key (Some 60000) None None files = Inr [sample_cached 60000 (Some 119999)]"
proof -
  let ?bars = "[sample_cached 0 None, sample_cached 60000 (Some 119999)]"
  have d: "cache_segment_dir sample_cache_key = Inr ''binance/spot/BTCUSDT/1m''" "canonical_timeframe ''1m'' = Inr ''1m''" by code_simp+
  obtain m files where w: "write_cache_segment (\<lambda>b. []) sample_cache_key ?bars None None \<lparr>cf_data = [], cf_metadata = []\<rparr> = (Inr m, files)"
    using d by (simp add: write_cache_segment_def sample_cached_valid sample_cache_key_def Let_def)
  have e: "list_all exact_floats ?bars" by (simp add: sample_cached_exact)
  from cache_round_trip [OF w e, of "Some 60000" None None]
  have "read_cache_segment (\<lambda>b. []) sample_cache_key (Some 60000) None None files = Inr [sample_cached 60000 (Some 119999)]"
    by (simp add: py_prefix_def in_window_def sample_cached_def)
  with w show ?thesis by blast
qed

end
