(* ===== verification/Providers.thy ===== *)
theory Providers
  imports Cache Repair CandleAdapters Streaming Pagination
begin

section \<open>Configuration, offline data and live events\<close>

text \<open>
  Models \<^verbatim>\<open>config/__init__.py\<close>, \<^verbatim>\<open>providers/offline.py\<close>, the event loop of
  \<^verbatim>\<open>streaming/live.py\<close>, and of \<^verbatim>\<open>factories.py\<close> the adapters over offline files and live streams and the choice
  among the providers. A file is its path and its content: the text of a CSV file, the rows of a Parquet file, \<^const>\<open>None\<close>
  where the package that reads them is missing or fails.
\<close>

subsection \<open>Configuration\<close>

record bybit_config =
  by_base_url :: string
  by_max_limit :: int
  by_user_agent :: string

record streaming_config =
  st_enabled :: bool
  st_reconnect_backoff_sec :: float64
  st_checkpoint_dir :: "string option"

record storage_config =
  so_cache_dir :: string
  so_parquet_enabled :: bool
  so_sqlite_metadata :: bool

record offline_config =
  of_root :: "string option"
  of_assume_utc :: bool

record symbol_discovery_config =
  sy_stable_quotes_only :: bool
  sy_stable_quote_assets :: "string list"
  sy_max_results :: int

record market_data_config =
  mc_runtime_contract_version :: string
  mc_include_open_candle :: bool
  mc_default_exchange :: "string option"
  mc_default_market :: "string option"
  mc_binance :: binance_config
  mc_bybit :: bybit_config
  mc_history :: history_config
  mc_streaming :: streaming_config
  mc_storage :: storage_config
  mc_offline :: offline_config
  mc_symbols :: symbol_discovery_config
  mc_artifact_identity :: artifact_identity

definition binance_defaults :: binance_config where
  "binance_defaults =
     \<lparr>bn_spot_base_url = ''https://api.binance.com'', bn_usdm_base_url = ''https://fapi.binance.com'',
      bn_coinm_base_url = ''https://dapi.binance.com'', bn_max_limit_spot = 1000, bn_max_limit_usdm = 1500\<rparr>"

definition market_data_defaults :: market_data_config where
  "market_data_defaults =
     \<lparr>mc_runtime_contract_version = runtime_contract_version, mc_include_open_candle = False, mc_default_exchange = None,
      mc_default_market = None, mc_binance = binance_defaults,
      mc_bybit = \<lparr>by_base_url = ''https://api.bybit.com'', by_max_limit = 1000, by_user_agent = ''pinelib-marketdata/0.1''\<rparr>,
      mc_history = \<lparr>hc_enabled = True, hc_archive_first = True, hc_base_timeframe = ''1m'', hc_recent_lag_days = 2\<rparr>,
      mc_streaming = \<lparr>st_enabled = False, st_reconnect_backoff_sec = f_of_int 1, st_checkpoint_dir = None\<rparr>,
      mc_storage = \<lparr>so_cache_dir = ''.marketdata-cache'', so_parquet_enabled = False, so_sqlite_metadata = False\<rparr>,
      mc_offline = \<lparr>of_root = None, of_assume_utc = True\<rparr>,
      mc_symbols = \<lparr>sy_stable_quotes_only = True, sy_stable_quote_assets = default_stable_quote_assets, sy_max_results = 50\<rparr>,
      mc_artifact_identity = \<lparr>ai_producer_commit = JNull, ai_stack_id = JNull\<rparr>\<rparr>"

subsection \<open>Offline bars\<close>

record offline_file =
  off_path :: string
  off_csv :: "string res"
  off_parquet :: "(string \<times> json) list list option"

definition first_cell :: "csv_dict \<Rightarrow> string list \<Rightarrow> string option" where
  "first_cell r names = (case List.map_filter (cell r) names of [] \<Rightarrow> None | v # _ \<Rightarrow> Some v)"

definition offline_bar_of_row :: "string \<Rightarrow> csv_dict \<Rightarrow> bar res" where
  "offline_bar_of_row timeframe r =
     bindR (py_int (case first_cell r [''time'', ''timestamp'', ''open_time''] of None \<Rightarrow> ''0'' | Some v \<Rightarrow> v)) (\<lambda>open_time.
     bindR (case first_cell r [''time_close'', ''close_time''] of
              Some v \<Rightarrow> py_int v | None \<Rightarrow> close_time_ms open_time timeframe) (\<lambda>close_time.
     prices_of_row r open_time (Inr (Some close_time))))"

definition sorted_valid :: "bar list \<Rightarrow> bar list res" where
  "sorted_valid bars = (let bars = sort_key b_time bars in bindR (validate_bars bars False) (\<lambda>_. Inr bars))"

definition offline_read_csv :: "string res \<Rightarrow> string \<Rightarrow> bar list res" where
  "offline_read_csv opened timeframe =
     bindR opened (\<lambda>content. bindR (mapR (offline_bar_of_row timeframe) (dict_rows content)) sorted_valid)"

definition parquet_bar :: "string \<Rightarrow> (string \<times> json) list \<Rightarrow> bar res" where
  "parquet_bar timeframe row =
     bindR (bindR (obj_item row ''time'') json_int) (\<lambda>open_time.
     bindR (bindR (obj_item row ''open'') json_float) (\<lambda>o'.
     bindR (bindR (obj_item row ''high'') json_float) (\<lambda>h.
     bindR (bindR (obj_item row ''low'') json_float) (\<lambda>l.
     bindR (bindR (obj_item row ''close'') json_float) (\<lambda>c.
     bindR (json_float (json_or (obj_get row ''volume'') (JInt 0))) (\<lambda>v.
     bindR (if json_truthy (obj_get row ''time_close'') then json_int (obj_get row ''time_close'')
            else close_time_ms open_time timeframe) (\<lambda>close_time.
     Inr \<lparr>b_time = open_time, b_open = o', b_high = h, b_low = l, b_close = c, b_volume = v, b_time_close = Some close_time\<rparr>)))))))"

definition offline_read_parquet :: "(string \<times> json) list list option \<Rightarrow> string \<Rightarrow> bar list res" where
  "offline_read_parquet rows timeframe =
     (case rows of
        None \<Rightarrow> Inl (MDUnsupportedFeature ''Parquet offline data unavailable: '')
      | Some rows \<Rightarrow> bindR (mapR (parquet_bar timeframe) rows) sorted_valid)"

definition offline_get_bars :: "offline_file \<Rightarrow> string \<Rightarrow> int option \<Rightarrow> int option \<Rightarrow> int option \<Rightarrow> bar list res" where
  "offline_get_bars file timeframe start stop max_bars =
     (let suffix = py_lower (path_suffix (off_path file)) in
      bindR (if suffix = ''.csv'' then offline_read_csv (off_csv file) timeframe
             else if suffix = ''.parquet'' then offline_read_parquet (off_parquet file) timeframe
             else Inl (MDUnsupportedFeature ''Unsupported offline format: '')) (\<lambda>bars.
      let out = py_prefix max_bars (filter (in_window start stop) bars) in
      bindR (validate_bars out False) (\<lambda>_. Inr out)))"

definition offline_intrabar_bars ::
  "offline_file \<Rightarrow> string option \<Rightarrow> 'a bar_scheme \<Rightarrow> string option \<Rightarrow> int option \<Rightarrow> bar list res" where
  "offline_intrabar_bars file own chart_bar lower max_bars =
     (case (if lower = None \<or> lower = Some [] then own else lower) of
        None \<Rightarrow> Inl (MDIntrabarDataUnavailable ''Offline intrabar requires lower_timeframe or provider timeframe'')
      | Some timeframe \<Rightarrow>
          offline_get_bars file timeframe (Some (b_time chart_bar)) (map_option (\<lambda>c. c + 1) (b_time_close chart_bar)) max_bars)"

text \<open>The adapter for the older interface.\<close>

definition offline_fetch_series :: "offline_file \<Rightarrow> bar_query \<Rightarrow> bar_series res" where
  "offline_fetch_series file q =
     bindR (offline_get_bars file (tf_canonical (q_timeframe q)) (Some (q_start_ms q)) (Some (q_end_ms q)) None) (\<lambda>bars.
     series_from_core_bars q bars ''provider'')"

subsection \<open>Canonical snapshots of an offline file\<close>

definition offline_revision :: "contracts \<Rightarrow> string \<Rightarrow> string \<Rightarrow> (revision_state \<times> int) res" where
  "offline_revision ct state revision =
     (case (revision_state_of (ct_rs ct) state, py_int revision) of
        (Some s, Inr n) \<Rightarrow> Inr (s, n)
      | _ \<Rightarrow> Inl (MDValidationError ''offline row revision identity is invalid''))"

definition price_cell :: "csv_dict \<Rightarrow> string \<Rightarrow> json res" where
  "price_cell r name =
     (case map_of r name of None \<Rightarrow> Inl (PyKeyError name) | Some None \<Rightarrow> Inr JNull | Some (Some v) \<Rightarrow> Inr (JStr v))"

text \<open>The identity a row must give: finality, provider, revision of the provider, close time, state and number of the revision.\<close>

definition offline_identity :: "csv_dict \<Rightarrow> (string \<times> string \<times> string \<times> string \<times> string \<times> string) option" where
  "offline_identity r =
     (case (cell r ''finality'', cell r ''provider_revision'', cell r ''provider'', cell r ''time_close'', cell r ''revision_state'', cell r ''revision'') of
        (Some f, Some pr, Some p, Some tc, Some rs, Some n) \<Rightarrow> Some (f, pr, p, tc, rs, n)
      | _ \<Rightarrow> None)"

definition offline_missing :: "contracts \<Rightarrow> csv_dict \<Rightarrow> error" where
  "offline_missing ct r =
     (if cell r ''finality'' = None then MDMissingFinality ''offline row finality is required''
      else if \<not> ct_finality ct (cell_text r ''finality'' []) then MDValidationError ''offline row finality is invalid''
      else if cell r ''provider_revision'' = None then MDValidationError ''offline row provider_revision is required''
      else if cell r ''provider'' = None then MDValidationError ''offline row provider is required''
      else if cell r ''time_close'' = None then MDValidationError ''offline row time_close is required''
      else if cell r ''revision_state'' = None then MDValidationError ''offline row revision_state is required''
      else MDValidationError ''offline row revision is required'')"

definition offline_raw_bar :: "contracts \<Rightarrow> bar_query \<Rightarrow> csv_dict \<Rightarrow> raw_bar option res" where
  "offline_raw_bar ct q r =
     bindR (py_int (case first_cell r [''time'', ''open_time''] of None \<Rightarrow> ''0'' | Some v \<Rightarrow> v)) (\<lambda>open_time.
     if \<not> (q_start_ms q \<le> open_time \<and> open_time < q_end_ms q) then Inr None
     else
       (case offline_identity r of
          None \<Rightarrow> Inl (offline_missing ct r)
        | Some (finality, provider_revision, provider, close_time, state, revision) \<Rightarrow>
            if \<not> ct_finality ct finality then Inl (offline_missing ct r)
            else
              bindR (offline_revision ct state revision) (\<lambda>(revision_state, revision).
              bindR (py_int close_time) (\<lambda>close_time.
              bindR (price_cell r ''open'') (\<lambda>o'. bindR (price_cell r ''high'') (\<lambda>h.
              bindR (price_cell r ''low'') (\<lambda>l. bindR (price_cell r ''close'') (\<lambda>c.
              Inr (Some \<lparr>rb_instrument_id = serialize_instrument (q_instrument q), rb_timeframe = tf_canonical (q_timeframe q),
                rb_open_time = open_time, rb_close_time = Some close_time, rb_open = o', rb_high = h, rb_low = l, rb_close = c,
                rb_volume = JStr (cell_text r ''volume'' ''0''), rb_finality = finality, rb_provider = provider,
                rb_provider_revision = provider_revision, rb_state = revision_state, rb_revision = revision\<rparr>)))))))))"

definition offline_fetch_snapshot :: "contracts \<Rightarrow> artifact_identity \<Rightarrow> offline_file \<Rightarrow> bar_query \<Rightarrow> data_snapshot res" where
  "offline_fetch_snapshot ct ai file q =
     (if py_lower (path_suffix (off_path file)) \<noteq> ''.csv''
      then Inl (MDUnsupportedFeature ''canonical offline boundary currently requires CSV'')
      else
        bindR (validate_artifact_identity (ai_producer_commit ai) (ai_stack_id ai)) (\<lambda>(commit, stack).
        bindR (off_csv file) (\<lambda>content.
        bindR (mapR (offline_raw_bar ct q) (dict_rows content)) (\<lambda>rows.
        let raws = List.map_filter id rows in
        (case remdups (map rb_provider_revision raws) of
           [revision] \<Rightarrow>
             bindR (known_provider_revision (JStr revision)) (\<lambda>known.
             build_public_snapshot ct q raws (revision_json known) (JStr commit) (JStr stack) ''CLOSED_BAR_ONLY'')
         | _ \<Rightarrow> Inl (MDValidationError ''offline query requires one provider_revision''))))))"

subsection \<open>The loop of a live stream\<close>

text \<open>
  What the socket gives: a message that is an object with the time it was read at, the time limit, an error of the
  connection, or any other failure.
\<close>

datatype ws_input =
    WsMessage "(string \<times> json) list" int
  | WsTimeout
  | WsOSError string
  | WsFailure error

record live_client =
  lc_exchange :: string
  lc_market :: string
  lc_symbol :: string
  lc_timeframe :: string
  lc_source_kind :: string

record live_event =
  le_update :: kline_update
  le_raw_payload :: "(string \<times> json) list"
  le_diagnostic :: "string option"

text \<open>The updates of one message; an acknowledgement of a subscription is passed over.\<close>

definition message_updates :: "live_client \<Rightarrow> (string \<times> json) list \<Rightarrow> int \<Rightarrow> kline_update list res" where
  "message_updates c payload received_at =
     (if lc_exchange c = ''bybit'' \<and> obj_get payload ''op'' = JStr ''subscribe'' then Inr []
      else if lc_exchange c = ''binance''
      then bindR (normalize_binance_kline payload (lc_market c) (Some (lc_timeframe c)) (lc_source_kind c) (Some received_at)) (\<lambda>u. Inr [u])
      else normalize_bybit_kline payload (lc_market c) (lc_source_kind c) (Some received_at))"

definition event_of :: "(string \<times> json) list \<Rightarrow> kline_update \<Rightarrow> live_event" where
  "event_of payload u = \<lparr>le_update = u, le_raw_payload = payload, le_diagnostic = None\<rparr>"

text \<open>The events until the limit, the time limit or an error; an error ends the stream after the events before it.\<close>

fun live_loop :: "live_client \<Rightarrow> nat option \<Rightarrow> ws_input list \<Rightarrow> live_event list \<times> error option" where
  "live_loop c left [] = ([], None)"
| "live_loop c left (i # is) =
     (if left = Some 0 then ([], None)
      else
        (case i of
           WsTimeout \<Rightarrow> ([], None)
         | WsOSError e \<Rightarrow> ([], Some (MDNetworkUnavailable ''Live WebSocket connection failed''))
         | WsFailure e \<Rightarrow> ([], Some e)
         | WsMessage payload received_at \<Rightarrow>
             (case message_updates c payload received_at of
                Inl e \<Rightarrow> ([], Some e)
              | Inr updates \<Rightarrow>
                  (let events = map (event_of payload) (case left of None \<Rightarrow> updates | Some n \<Rightarrow> take n updates);
                       (more, e) = live_loop c (map_option (\<lambda>n. n - length events) left) is in
                   (events @ more, e)))))"

definition live_events :: "bool \<Rightarrow> bool \<Rightarrow> live_client \<Rightarrow> nat option \<Rightarrow> ws_input list \<Rightarrow> live_event list \<times> error option" where
  "live_events allowed installed c max_messages inputs =
     (if \<not> allowed then ([], Some (MDNetworkUnavailable ''Live WebSocket streaming is disabled''))
      else if \<not> installed then ([], Some (MDNetworkUnavailable ''Live WebSocket requires optional dependency websockets''))
      else live_loop c max_messages inputs)"

subsection \<open>Live events as canonical bars\<close>

record canonical_event =
  ce_bar :: snapshot_bar
  ce_event_time :: int
  ce_received_at :: "int option"
  ce_raw_payload :: "(string \<times> json) list"
  ce_diagnostic_code :: "string option"

definition canonical_event_of :: "contracts \<Rightarrow> (json \<Rightarrow> string \<Rightarrow> string) \<Rightarrow> string \<Rightarrow> string \<Rightarrow> live_event \<Rightarrow> canonical_event res" where
  "canonical_event_of ct hash commit stack ev =
     (let u = le_update ev in
      bindR (make_instrument (ku_exchange u) (ku_market u) (ku_symbol u)) (\<lambda>instrument.
      bindR (parse_timeframe (ku_timeframe u)) (\<lambda>timeframe.
      bindR (kline_to_market_bar hash u None) (\<lambda>b.
      case b_time_close b of
        None \<Rightarrow> Inl (MDValidationError ''live kline is missing explicit close time'')
      | Some close \<Rightarrow>
          if no_text (m_provider_revision b) then Inl (MDValidationError ''live kline is missing provider_revision'')
          else
            bindR (post_init_bar_query \<lparr>q_instrument = instrument, q_timeframe = timeframe, q_start_ms = b_time b, q_end_ms = close + 1,
                     q_source = ''provider'', q_gap_policy = ''fail'', q_error_policy = ''raise''\<rparr>) (\<lambda>q.
            bindR (known_provider_revision (opt_str (m_provider_revision b))) (\<lambda>known.
            bindR (snapshot_from_market_bars ct q [b] (if m_provider b \<noteq> [] then m_provider b else ik_exchange instrument)
                     (revision_json known) (JStr commit) (JStr stack) ''ALLOW_OPEN'') (\<lambda>snapshot.
            (case ds_bars snapshot of
               [] \<Rightarrow> Inl (PyIndexError ''list index out of range'')
             | bar # _ \<Rightarrow>
                 Inr \<lparr>ce_bar = bar, ce_event_time = ku_event_time u, ce_received_at = ku_received_at u, ce_raw_payload = le_raw_payload ev,
                      ce_diagnostic_code = le_diagnostic ev\<rparr>))))))))"

fun canonical_events ::
  "contracts \<Rightarrow> (json \<Rightarrow> string \<Rightarrow> string) \<Rightarrow> string \<Rightarrow> string \<Rightarrow> live_event list \<times> error option \<Rightarrow> canonical_event list \<times> error option" where
  "canonical_events ct hash commit stack ([], e) = ([], e)"
| "canonical_events ct hash commit stack (ev # evs, e) =
     (case canonical_event_of ct hash commit stack ev of
        Inl err \<Rightarrow> ([], Some err)
      | Inr x \<Rightarrow> (let (xs, e') = canonical_events ct hash commit stack (evs, e) in (x # xs, e')))"

definition adapter_events ::
  "contracts \<Rightarrow> (json \<Rightarrow> string \<Rightarrow> string) \<Rightarrow> artifact_identity \<Rightarrow> live_event list \<times> error option \<Rightarrow> canonical_event list \<times> error option" where
  "adapter_events ct hash ai evs =
     (case validate_artifact_identity (ai_producer_commit ai) (ai_stack_id ai) of
        Inl e \<Rightarrow> ([], Some e)
      | Inr (commit, stack) \<Rightarrow> canonical_events ct hash commit stack evs)"

text \<open>The client a configuration and an instrument ask for.\<close>

definition create_live_client :: "market_data_config \<Rightarrow> instrument_key \<Rightarrow> timeframe \<Rightarrow> (live_client \<times> string \<times> string option) res" where
  "create_live_client cfg instrument tf =
     (let exchange = py_lower (str_or (mc_default_exchange cfg) (ik_exchange instrument));
          market = py_lower (str_or (mc_default_market cfg) (ik_market instrument));
          c = \<lparr>lc_exchange = exchange, lc_market = py_lower market, lc_symbol = py_upper (ik_symbol instrument),
               lc_timeframe = tf_canonical tf, lc_source_kind = ''trade_kline''\<rparr> in
      bindR (stream_endpoint exchange market (ik_symbol instrument) (tf_canonical tf)) (\<lambda>endpoint. Inr (c, endpoint)))"

subsection \<open>The choice of a provider\<close>

datatype provider =
    OfflineProvider string artifact_identity
  | ExchangeProvider market_data_config

definition create_provider :: "market_data_config \<Rightarrow> provider" where
  "create_provider cfg =
     (case of_root (mc_offline cfg) of
        Some root \<Rightarrow> OfflineProvider root (mc_artifact_identity cfg)
      | None \<Rightarrow> ExchangeProvider cfg)"

end
