(* ===== verification/ProviderSafety.thy ===== *)
theory ProviderSafety
  imports Providers
begin

section \<open>What offline files and live streams deliver\<close>

text \<open>
  The properties of the adapters: a cache file read as offline data, what the rows of an offline snapshot must
  state, and the live events of Bybit.
\<close>

subsection \<open>Offline bars\<close>

lemma validated_sorted: "validate_bars bars False = Inr () \<Longrightarrow> sorted_wrt (<) (map b_time bars)"
  using validate_loop_iff [of "{}" None bars] by (auto simp: validate_bars_def split: if_splits)

lemma sort_validated: "validate_bars bars False = Inr () \<Longrightarrow> sorted_valid bars = Inr bars"
  using validated_sorted [of bars] by (simp add: sorted_valid_def sort_key_id_if_sorted strict_sorted_imp_sorted)

lemma first_cell_Cons: "first_cell r (n # ns) = (case cell r n of Some v \<Rightarrow> Some v | None \<Rightarrow> first_cell r ns)"
  by (simp add: first_cell_def map_filter_simps split: option.splits)

lemma offline_row_read:
  assumes "exact_floats b"
  shows "offline_bar_of_row tf (cache_dict b) =
    bindR (case b_time_close b of Some c \<Rightarrow> Inr c | None \<Rightarrow> close_time_ms (b_time b) tf) (\<lambda>c. Inr (b\<lparr>b_time_close := Some c\<rparr>))"
proof -
  have n: "cell (cache_dict b) ''close_time'' = None"
    by (simp add: cell_def cache_dict_def cache_fields_def cache_row_def)
  show ?thesis
    using cache_cells(7,8) [OF assms]
    by (cases "b_time_close b"; cases "close_time_ms (b_time b) tf")
      (simp_all add: offline_bar_of_row_def first_cell_Cons first_cell_def [of _ "[]"] map_filter_simps n prices_read [OF assms])
qed

lemma validate_iff:
  "validate_bars bars False = Inr () \<longleftrightarrow> bars \<noteq> [] \<and> sorted_wrt (<) (map b_time bars) \<and> (\<forall>b \<in> set bars. bar_sane b)"
  using validate_loop_iff [of "{}" None bars] by (simp add: validate_bars_def)

lemma py_prefix_take: "\<exists>n. py_prefix k xs = take n xs"
  by (cases k) (auto simp: py_prefix_def intro: exI [of _ "length xs"])

lemma validate_part:
  assumes "validate_bars bars False = Inr ()"
  shows "bindR (validate_bars (py_prefix k (filter P bars)) False) (\<lambda>_. Inr (py_prefix k (filter P bars))) =
    (if py_prefix k (filter P bars) = [] then Inl (MDValidationError ''No bars returned'') else Inr (py_prefix k (filter P bars)))"
proof -
  obtain n where n: "py_prefix k (filter P bars) = take n (filter P bars)" using py_prefix_take by blast
  have v: "sorted_wrt (<) (map b_time bars)" "\<forall>b \<in> set bars. bar_sane b" using assms by (simp_all add: validate_iff)
  have "sorted_wrt (<) (map b_time (take n (filter P bars)))"
    using sorted_wrt_less_map_filter [OF v(1), of P] by (simp add: take_map [symmetric] sorted_wrt_take)
  moreover have "\<forall>b \<in> set (take n (filter P bars)). bar_sane b" using v(2) by (auto dest: in_set_takeD)
  ultimately have "take n (filter P bars) \<noteq> [] \<Longrightarrow> validate_bars (take n (filter P bars)) False = Inr ()"
    by (simp add: validate_iff)
  then show ?thesis unfolding n by (auto simp: validate_bars_def)
qed

lemma offline_rows_read:
  assumes "list_all exact_floats bars" and "list_all (\<lambda>b. b_time_close b \<noteq> None) bars"
  shows "mapR (offline_bar_of_row tf) (map cache_dict bars) = Inr bars"
proof -
  have "offline_bar_of_row tf (cache_dict b) = Inr b" if "b \<in> set bars" for b
    using that assms by (auto simp: list_all_iff offline_row_read)
  then show ?thesis by (simp add: mapR_list_all2 list_all2_map1 list_all2_same)
qed

lemma offline_of_cache:
  assumes w: "write_cache_segment sha k bars start stop files = (Inr m, files')"
    and ok: "list_all exact_floats bars" "list_all (\<lambda>b. b_time_close b \<noteq> None) bars"
    and f: "py_lower (path_suffix (off_path file)) = ''.csv''"
      "cache_segment_dir k = Inr seg" "off_csv file = Inr (the (map_of (cf_data files') seg))"
  shows "offline_get_bars file tf from until max_bars =
    bindR (read_cache_segment sha k from until max_bars files') (\<lambda>out. if out = [] then Inl (MDValidationError ''No bars returned'') else Inr out)"
proof -
  obtain seg' tf' where g: "validate_bars bars False = Inr ()" "cache_segment_dir k = Inr seg'" "m = cache_metadata_of sha k tf' bars start stop"
    "files' = files\<lparr>cf_data := AList.update seg' (cache_text bars) (cf_data files), cf_metadata := AList.update seg' (cache_metadata_json m) (cf_metadata files)\<rparr>"
    using w by (rule written_segment)
  have "off_csv file = Inr (cache_text bars)" using f(2,3) g(2,4) by (simp add: update_conv')
  then have "offline_read_csv (off_csv file) tf = Inr bars"
    using sort_validated [OF g(1)] offline_rows_read [OF ok] by (simp add: offline_read_csv_def cache_rows)
  then show ?thesis
    unfolding read_written [OF w ok(1)] using f(1) validate_part [OF g(1)] by (simp add: offline_get_bars_def)
qed

text \<open>
  C28. The two readers of local files agree: bars written to the cache with their close times are served from its CSV file by the
  offline provider exactly as the cache serves them, for every window and limit, except that the provider
  refuses an empty answer.
\<close>

theorem offline_agrees_with_cache:
  assumes "write_cache_segment sha k bars start stop files = (Inr m, files')"
    and "list_all exact_floats bars" and "list_all (\<lambda>b. b_time_close b \<noteq> None) bars"
    and "py_lower (path_suffix (off_path file)) = ''.csv''"
    and "cache_segment_dir k = Inr seg" and "off_csv file = Inr (the (map_of (cf_data files') seg))"
  shows "offline_get_bars file tf from until max_bars =
    bindR (read_cache_segment sha k from until max_bars files') (\<lambda>out. if out = [] then Inl (MDValidationError ''No bars returned'') else Inr out)"
  by (rule offline_of_cache [OF assms])

theorem offline_agrees_with_cache_witness:
  "\<exists>file. offline_get_bars file ''1m'' (Some 60000) None None = Inr [sample_cached 60000 (Some 119999)] \<and> off_path file = ''cache/bars.csv''"
proof -
  let ?bars = "[sample_cached 0 (Some 59999), sample_cached 60000 (Some 119999)]"
  have d: "cache_segment_dir sample_cache_key = Inr ''binance/spot/BTCUSDT/1m''" "canonical_timeframe ''1m'' = Inr ''1m''"
    "py_lower (path_suffix ''cache/bars.csv'') = ''.csv''" "validate_bars ?bars False = Inr ()" by code_simp+
  obtain m files where w: "write_cache_segment (\<lambda>b. []) sample_cache_key ?bars None None \<lparr>cf_data = [], cf_metadata = []\<rparr> = (Inr m, files)"
    using d by (simp add: write_cache_segment_def sample_cache_key_def Let_def)
  define f where "f = \<lparr>off_path = ''cache/bars.csv'', off_csv = Inr (the (map_of (cf_data files) ''binance/spot/BTCUSDT/1m'')), off_parquet = None\<rparr>"
  have e: "list_all exact_floats ?bars" "list_all (\<lambda>b. b_time_close b \<noteq> None) ?bars" "py_lower (path_suffix (off_path f)) = ''.csv''"
    using d(3) by (simp_all add: sample_cached_exact f_def) (simp_all add: sample_cached_def)
  have "off_csv f = Inr (the (map_of (cf_data files) ''binance/spot/BTCUSDT/1m''))" by (simp add: f_def)
  from offline_agrees_with_cache [OF w e d(1) this, of "''1m''" "Some 60000" None None]
  have "offline_get_bars f ''1m'' (Some 60000) None None = Inr [sample_cached 60000 (Some 119999)]"
    unfolding read_written [OF w e(1)] by (simp add: py_prefix_def in_window_def sample_cached_def)
  then show ?thesis by (intro exI [of _ f]) (simp add: f_def)
qed

subsection \<open>Offline snapshots\<close>

lemma offline_raw_explicit:
  assumes "offline_raw_bar ct q r = Inr (Some b)"
  shows "list_all (\<lambda>n. cell r n \<noteq> None) [''finality'', ''provider'', ''time_close'', ''revision_state'', ''revision''] \<and>
    cell r ''provider_revision'' = Some (rb_provider_revision b) \<and> ct_finality ct (cell_text r ''finality'' [])"
  using assms
  by (auto simp: offline_raw_bar_def offline_identity_def cell_text_def res_simps split: if_splits option.splits prod.splits)

definition row_open_time :: "csv_dict \<Rightarrow> int res" where
  "row_open_time r = py_int (case first_cell r [''time'', ''open_time''] of None \<Rightarrow> ''0'' | Some v \<Rightarrow> v)"

lemma offline_raw_outside:
  "offline_raw_bar ct q r = Inr None \<Longrightarrow> \<exists>t. row_open_time r = Inr t \<and> \<not> (q_start_ms q \<le> t \<and> t < q_end_ms q)"
  by (auto simp: offline_raw_bar_def row_open_time_def res_simps split: if_splits option.splits prod.splits)

lemma offline_raw_inside: "offline_raw_bar ct q r = Inr (Some b) \<Longrightarrow> \<exists>t. row_open_time r = Inr t"
  by (auto simp: offline_raw_bar_def row_open_time_def res_simps)

lemma remdups_single: "remdups xs = [x] \<Longrightarrow> y \<in> set xs \<Longrightarrow> y = x"
  by (metis empty_set insert_iff list.simps(15) set_remdups singletonD)

lemma list_single_cases:
  obtains "xs = []" | x where "xs = [x]" | x y zs where "xs = x # y # zs"
  by (cases xs rule: remdups_adj.cases) auto

lemma offline_rows_explicit:
  assumes "offline_fetch_snapshot ct ai file q = Inr ds"
  obtains body revision where "off_csv file = Inr body"
    "\<forall>r \<in> set (dict_rows body). \<exists>t. row_open_time r = Inr t \<and> (q_start_ms q \<le> t \<and> t < q_end_ms q \<longrightarrow>
       list_all (\<lambda>n. cell r n \<noteq> None) [''finality'', ''provider'', ''time_close'', ''revision_state'', ''revision''] \<and>
       cell r ''provider_revision'' = Some revision \<and> ct_finality ct (cell_text r ''finality'' []))"
proof -
  obtain body rows where b: "off_csv file = Inr body" "mapR (offline_raw_bar ct q) (dict_rows body) = Inr rows"
    using assms by (auto simp: offline_fetch_snapshot_def res_simps split: if_splits)
  have "\<exists>revision. remdups (map rb_provider_revision (List.map_filter id rows)) = [revision]"
  proof (cases "remdups (map rb_provider_revision (List.map_filter id rows))" rule: list_single_cases)
    case 1
    with assms b show ?thesis by (simp add: offline_fetch_snapshot_def res_simps Let_def split: if_splits)
  next
    case (2 x)
    then show ?thesis by blast
  next
    case (3 x y zs)
    with assms b show ?thesis by (simp add: offline_fetch_snapshot_def res_simps Let_def split: if_splits)
  qed
  with b obtain revision where c: "off_csv file = Inr body" "mapR (offline_raw_bar ct q) (dict_rows body) = Inr rows"
    "remdups (map rb_provider_revision (List.map_filter id rows)) = [revision]"
    by blast
  have "\<exists>t. row_open_time r = Inr t \<and> (q_start_ms q \<le> t \<and> t < q_end_ms q \<longrightarrow>
       list_all (\<lambda>n. cell r n \<noteq> None) [''finality'', ''provider'', ''time_close'', ''revision_state'', ''revision''] \<and>
       cell r ''provider_revision'' = Some revision \<and> ct_finality ct (cell_text r ''finality'' []))" if r: "r \<in> set (dict_rows body)" for r
  proof -
    have "list_all2 (\<lambda>x y. offline_raw_bar ct q x = Inr y) (dict_rows body) rows" using c(2) by (simp add: mapR_list_all2)
    with r obtain o' where o': "offline_raw_bar ct q r = Inr o'" "o' \<in> set rows"
      by (auto simp: list_all2_conv_all_nth in_set_conv_nth) (metis nth_mem in_set_conv_nth)
    show ?thesis
    proof (cases o')
      case None
      with offline_raw_outside o'(1) show ?thesis by blast
    next
      case (Some b)
      then have "rb_provider_revision b \<in> set (map rb_provider_revision (List.map_filter id rows))"
        using o'(2) by (force simp: map_filter_def)
      then have "rb_provider_revision b = revision" by (rule remdups_single [OF c(3)])
      with offline_raw_explicit [of ct q r b] offline_raw_inside [of ct q r b] o'(1) Some show ?thesis by auto
    qed
  qed
  with c(1) that show ?thesis by blast
qed

text \<open>
  C26. An offline snapshot defaults nothing: when one is returned, every row of the file has a time that reads as an integer, and
  every row inside the window states its finality, provider, close time and revision, and one and the same
  revision of the provider.
\<close>

theorem offline_snapshot_explicit:
  assumes "offline_fetch_snapshot ct ai file q = Inr ds"
  shows "\<exists>body revision. off_csv file = Inr body \<and>
    (\<forall>r \<in> set (dict_rows body). \<exists>t. row_open_time r = Inr t \<and> (q_start_ms q \<le> t \<and> t < q_end_ms q \<longrightarrow>
       list_all (\<lambda>n. cell r n \<noteq> None) [''finality'', ''provider'', ''time_close'', ''revision_state'', ''revision''] \<and>
       cell r ''provider_revision'' = Some revision \<and> ct_finality ct (cell_text r ''finality'' [])))"
  using offline_rows_explicit [OF assms] by blast

text \<open>A file of two rows, the second outside the window and without any identity.\<close>

definition sample_offline :: offline_file where
  "sample_offline =
     \<lparr>off_path = ''bars.csv'',
      off_csv = Inr (''time,open,high,low,close,volume,time_close,finality,provider,provider_revision,revision_state,revision\<newline>60000,7,8.5,6,7,1,119999,FINAL,binance,r1,'' @
        sample_rs ORIGINAL @ '',0\<newline>120000,1,1,1,1,1,,,,,,\<newline>''),
      off_parquet = None\<rparr>"

definition sample_offline_query :: bar_query where
  "sample_offline_query =
     \<lparr>q_instrument = \<lparr>ik_exchange = ''binance'', ik_market = ''spot'', ik_symbol = ''BTCUSDT''\<rparr>,
      q_timeframe = \<lparr>tf_raw = ''1m'', tf_canonical = ''1m'', tf_multiplier = 1, tf_unit = Minute, tf_duration_ms = Some 60000\<rparr>,
      q_start_ms = 60000, q_end_ms = 120000, q_source = ''auto'', q_gap_policy = ''fail'', q_error_policy = ''raise''\<rparr>"

lemma sample_offline_snapshot:
  "case offline_fetch_snapshot sample_ct \<lparr>ai_producer_commit = JStr sample_commit, ai_stack_id = JStr sample_stack\<rparr> sample_offline sample_offline_query of
     Inl e \<Rightarrow> False | Inr ds \<Rightarrow> map sb_open (ds_bars ds) = [60000]"
  by code_simp

theorem offline_snapshot_explicit_witness:
  "\<exists>ds body revision. offline_fetch_snapshot sample_ct \<lparr>ai_producer_commit = JStr sample_commit, ai_stack_id = JStr sample_stack\<rparr> sample_offline sample_offline_query = Inr ds \<and>
     map sb_open (ds_bars ds) = [60000] \<and> off_csv sample_offline = Inr body \<and> length (dict_rows body) = 2 \<and>
     (\<exists>t. row_open_time (hd (dict_rows body)) = Inr t \<and> cell (hd (dict_rows body)) ''provider_revision'' = Some revision)"
proof -
  obtain ds where ds: "offline_fetch_snapshot sample_ct \<lparr>ai_producer_commit = JStr sample_commit, ai_stack_id = JStr sample_stack\<rparr> sample_offline sample_offline_query = Inr ds"
    "map sb_open (ds_bars ds) = [60000]"
    using sample_offline_snapshot by (auto split: sum.splits)
  obtain body revision where b: "off_csv sample_offline = Inr body"
    "\<forall>r \<in> set (dict_rows body). \<exists>t. row_open_time r = Inr t \<and> (q_start_ms sample_offline_query \<le> t \<and> t < q_end_ms sample_offline_query \<longrightarrow>
       list_all (\<lambda>n. cell r n \<noteq> None) [''finality'', ''provider'', ''time_close'', ''revision_state'', ''revision''] \<and>
       cell r ''provider_revision'' = Some revision \<and> ct_finality sample_ct (cell_text r ''finality'' []))"
    using offline_snapshot_explicit [OF ds(1)] by (elim exE conjE) (rule that)
  have "case off_csv sample_offline of Inl e \<Rightarrow> False | Inr w \<Rightarrow> length (dict_rows w) = 2 \<and> row_open_time (hd (dict_rows w)) = Inr 60000" by code_simp
  then have l: "length (dict_rows body) = 2" "row_open_time (hd (dict_rows body)) = Inr 60000" using b(1) by simp_all
  then have "hd (dict_rows body) \<in> set (dict_rows body)" by (intro hd_in_set) auto
  with b(2) l(2) have "cell (hd (dict_rows body)) ''provider_revision'' = Some revision" by (auto simp: sample_offline_query_def)
  with ds b(1) l show ?thesis by (intro exI conjI)
qed

subsection \<open>Live events of Bybit\<close>

text \<open>The intervals of Bybit for hours, and the timeframe their klines are read with.\<close>

definition bybit_hours :: "string list" where
  "bybit_hours = [''60'', ''120'', ''240'', ''360'', ''720'']"

lemma bybit_hours_of: "mapR to_bybit_interval [''1h'', ''2h'', ''4h'', ''6h'', ''12h''] = Inr bybit_hours"
  by code_simp

lemma bybit_hours_timeframes:
  "list_all (\<lambda>tf. case parse_timeframe tf of Inl _ \<Rightarrow> False | Inr t \<Rightarrow> tf_canonical t \<notin> set supported_timeframes) bybit_hours"
  by code_simp

lemma unsupported_field: "tf \<notin> set supported_timeframes \<Longrightarrow> \<exists>e. canonical_timeframe_field (JStr tf) = Inl e"
  by (cases "canonical_timeframe_field (JStr tf)") (auto simp: canonical_timeframe_field_def res_simps required_text_def split: sum.splits error.splits if_splits)

lemma make_canonical_unsupported:
  assumes "mk_timeframe r = JStr tf" and "tf \<notin> set supported_timeframes"
  shows "\<exists>e. make_canonical_bar ct now r = Inl e"
proof (cases "required_text (mk_instrument_id r)")
  case (Inl e)
  then show ?thesis by (simp add: make_canonical_bar_def)
next
  case (Inr i)
  with unsupported_field [OF assms(2)] assms(1) show ?thesis by (auto simp: make_canonical_bar_def)
qed

lemma snapshot_unsupported:
  assumes "tf_canonical (q_timeframe q) \<notin> set supported_timeframes"
  shows "\<exists>e. snapshot_from_market_bars ct q [b] provider r commit stack policy = Inl e"
proof -
  have c: "\<exists>e. canonicalize ct e' r c s i None None (raw_sorted [w]) = Inl e" if "rb_timeframe w = tf_canonical (q_timeframe q)" for e' r c s i w
    using make_canonical_unsupported [of "raw_request ct e' r c s i None w" "tf_canonical (q_timeframe q)" ct e'] that assms
    by (auto simp: raw_request_def raw_sorted_def Let_def)
  have "rb_timeframe w = tf_canonical (q_timeframe q)"
    if "raw_bar_from_market_bar ct (serialize_instrument (q_instrument q)) (tf_canonical (q_timeframe q)) provider b = Inr w" for w
    using that by (auto simp: raw_bar_from_market_bar_def Let_def res_simps split: if_splits)
  with c show ?thesis
    by (cases "snapshot_from_market_bars ct q [b] provider r commit stack policy")
      (fastforce simp: snapshot_from_market_bars_def build_public_snapshot_def res_simps Let_def split: if_splits)+
qed

lemma hourly_event_refused:
  assumes "ku_timeframe (le_update ev) \<in> set bybit_hours"
  shows "\<exists>e. canonical_event_of ct hash commit stack ev = Inl e"
proof (cases "canonical_event_of ct hash commit stack ev")
  case (Inr x)
  obtain t where t: "parse_timeframe (ku_timeframe (le_update ev)) = Inr t" "tf_canonical t \<notin> set supported_timeframes"
    using bybit_hours_timeframes assms by (cases "parse_timeframe (ku_timeframe (le_update ev))") (auto simp: list_all_iff)
  have no: "snapshot_from_market_bars ct q [b] provider r (JStr commit) (JStr stack) policy \<noteq> Inr sn" if "q_timeframe q = t" for q b provider r policy sn
    using snapshot_unsupported [of q ct b provider r "JStr commit" "JStr stack" policy] t(2) that by auto
  from Inr t(1) have False
    by (auto simp: canonical_event_of_def res_simps Let_def post_init_bar_query_def no split: option.splits if_splits)
  then show ?thesis ..
qed simp

text \<open>The updates of Bybit carry the interval of the topic as their timeframe.\<close>

definition topic_of :: "string \<Rightarrow> string \<Rightarrow> string" where
  "topic_of interval symbol = ''kline.'' @ interval @ ''.'' @ symbol"

lemma topic_parts:
  assumes "CHR ''.'' \<notin> set interval"
  shows "py_split CHR ''.'' (topic_of interval s) = ''kline'' # interval # py_split CHR ''.'' s"
proof -
  have "topic_of interval s = ''kline'' @ CHR ''.'' # interval @ CHR ''.'' # s" by (simp add: topic_of_def)
  then show ?thesis using assms by (simp add: py_split_append)
qed

lemma bybit_item_timeframe: "bybit_kline_item topic interval symbol payload market kind at item = Inr u \<Longrightarrow> ku_timeframe u = interval"
  by (auto simp: bybit_kline_item_def res_simps split: json.splits)

lemma bybit_update_timeframe:
  assumes "normalize_bybit_kline payload market kind at = Inr us" and "u \<in> set us"
    and "map_of payload ''topic'' = Some (JStr (topic_of interval s))" and "CHR ''.'' \<notin> set interval"
  shows "ku_timeframe u = interval"
proof -
  have n: "3 \<le> length (''kline'' # interval # py_split CHR ''.'' s)"
    by (cases "py_split CHR ''.'' s") (use py_split_nonempty in auto)
  obtain items where "mapR (bybit_kline_item (topic_of interval s) interval (hd (py_split CHR ''.'' s)) payload market kind at) items = Inr us"
    using assms(1,2,3) n
    by (cases "py_split CHR ''.'' s")
      (auto simp: normalize_bybit_kline_def topic_parts [OF assms(4)] Let_def split: option.splits json.splits)
  then have "list_all2 (\<lambda>x y. bybit_kline_item (topic_of interval s) interval (hd (py_split CHR ''.'' s)) payload market kind at x = Inr y) items us"
    by (simp add: mapR_list_all2)
  with assms(2) show ?thesis by (auto simp: list_all2_conv_all_nth in_set_conv_nth bybit_item_timeframe)
qed

text \<open>The events of a stream come from its messages, and are no more than were asked for.\<close>

lemma live_loop_events:
  "ev \<in> set (fst (live_loop c left is)) \<Longrightarrow>
     \<exists>payload at us. WsMessage payload at \<in> set is \<and> message_updates c payload at = Inr us \<and> le_update ev \<in> set us"
proof (induction "is" arbitrary: left)
  case (Cons i "is")
  show ?case
  proof (cases "left = Some 0")
    case True
    with Cons.prems show ?thesis by simp
  next
    case False
    with Cons.prems obtain payload at us where m: "i = WsMessage payload at" "message_updates c payload at = Inr us"
      by (cases i) (auto split: sum.splits)
    define evs where "evs = map (event_of payload) (case left of None \<Rightarrow> us | Some n \<Rightarrow> take n us)"
    have "fst (live_loop c left (i # is)) = evs @ fst (live_loop c (map_option (\<lambda>n. n - length evs) left) is)"
      using False by (simp add: m evs_def [symmetric] Let_def split: prod.splits)
    with Cons.prems consider "ev \<in> set evs" | "ev \<in> set (fst (live_loop c (map_option (\<lambda>n. n - length evs) left) is))" by auto
    then show ?thesis
    proof cases
      case 1
      then have "le_update ev \<in> set us" by (auto simp: evs_def event_of_def dest: in_set_takeD split: option.splits)
      with m show ?thesis by auto
    next
      case 2
      from Cons.IH [OF this] show ?thesis by auto
    qed
  qed
qed simp

lemma live_loop_bounded: "length (fst (live_loop c (Some n) is)) \<le> n"
proof (induction "is" arbitrary: n)
  case (Cons i "is")
  show ?case
  proof (cases "n = 0")
    case False
    show ?thesis
    proof (cases i)
      case (WsMessage payload at)
      show ?thesis
      proof (cases "message_updates c payload at")
        case (Inr us)
        have "length (fst (live_loop c (Some (n - length (take n us))) is)) \<le> n - length (take n us)" by (rule Cons.IH)
        with False show ?thesis
          by (cases "live_loop c (Some (n - length (take n us))) is") (simp add: WsMessage Inr Let_def)
      qed (use False in \<open>simp add: WsMessage\<close>)
    qed (use False in simp_all)
  qed simp
qed simp

lemma canonical_events_refused:
  "(\<And>ev. ev \<in> set evs \<Longrightarrow> \<exists>err. canonical_event_of ct hash commit stack ev = Inl err) \<Longrightarrow>
     fst (canonical_events ct hash commit stack (evs, e)) = [] \<and> (evs \<noteq> [] \<longrightarrow> snd (canonical_events ct hash commit stack (evs, e)) \<noteq> None)"
proof (cases evs)
  case (Cons ev rest)
  moreover assume "\<And>ev. ev \<in> set evs \<Longrightarrow> \<exists>err. canonical_event_of ct hash commit stack ev = Inl err"
  ultimately obtain err where "canonical_event_of ct hash commit stack ev = Inl err" by auto
  with Cons show ?thesis by simp
qed simp

lemma adapter_refused:
  assumes "\<And>ev. ev \<in> set (fst evs) \<Longrightarrow> ku_timeframe (le_update ev) \<in> set bybit_hours"
  shows "fst (adapter_events ct hash ai evs) = [] \<and> (fst evs \<noteq> [] \<longrightarrow> snd (adapter_events ct hash ai evs) \<noteq> None)"
  using canonical_events_refused [of "fst evs", OF hourly_event_refused] assms
  by (cases evs) (auto simp: adapter_events_def split: sum.splits)

text \<open>
  C18. The adapter of live streams delivers nothing for the hourly timeframes of Bybit: the updates of its topics carry the
  interval in minutes as their timeframe, 60 for an hour, whose canonical name is not one a canonical
  bar may have, so the first update ends the stream with an error. This holds for every sequence of messages of
  such a topic, among acknowledgements and failures of the connection.
\<close>

theorem bybit_hours_never_delivered:
  assumes "to_bybit_interval tf = Inr interval" and "interval \<in> set bybit_hours" and "lc_exchange c = ''bybit''"
    and "\<And>payload at. WsMessage payload at \<in> set inputs \<Longrightarrow>
      obj_get payload ''op'' = JStr ''subscribe'' \<or> map_of payload ''topic'' = Some (JStr (topic_of interval s))"
  shows "fst (adapter_events ct hash ai (live_events allowed installed c max_messages inputs)) = [] \<and>
    (fst (live_events allowed installed c max_messages inputs) \<noteq> [] \<longrightarrow>
       snd (adapter_events ct hash ai (live_events allowed installed c max_messages inputs)) \<noteq> None)"
proof (rule adapter_refused)
  fix ev assume "ev \<in> set (fst (live_events allowed installed c max_messages inputs))"
  then have "ev \<in> set (fst (live_loop c max_messages inputs))" by (simp add: live_events_def split: if_splits)
  then obtain payload at us where m: "WsMessage payload at \<in> set inputs" "message_updates c payload at = Inr us" "le_update ev \<in> set us"
    using live_loop_events by blast
  have "CHR ''.'' \<notin> set interval" using assms(2) by (auto simp: bybit_hours_def)
  moreover have "obj_get payload ''op'' \<noteq> JStr ''subscribe''" using m(2,3) assms(3) by (auto simp: message_updates_def)
  ultimately have "ku_timeframe (le_update ev) = interval"
    using assms(3,4) m bybit_update_timeframe [of payload "lc_market c" "lc_source_kind c" "Some at" us "le_update ev" interval s]
    by (auto simp: message_updates_def)
  with assms(2) show "ku_timeframe (le_update ev) \<in> set bybit_hours" by simp
qed

definition sample_message :: "(string \<times> json) list" where
  "sample_message =
     [(''topic'', JStr ''kline.60.BTCUSDT''), (''ts'', JInt 1),
      (''data'', JArr [JObj [(''start'', JInt 0), (''end'', JInt 3599999), (''timestamp'', JInt 1), (''open'', JStr ''1''), (''high'', JStr ''2''),
         (''low'', JStr ''1''), (''close'', JStr ''2''), (''volume'', JStr ''3''), (''confirm'', JBool True)]])]"

definition sample_client :: live_client where
  "sample_client = \<lparr>lc_exchange = ''bybit'', lc_market = ''linear'', lc_symbol = ''BTCUSDT'', lc_timeframe = ''1h'', lc_source_kind = ''trade_kline''\<rparr>"

lemma sample_stream:
  "length (fst (live_events True True sample_client None [WsMessage [(''op'', JStr ''subscribe'')] 0, WsMessage sample_message 1, WsTimeout])) = 1"
  by code_simp

theorem bybit_hours_never_delivered_witness:
  "\<forall>ct hash ai. \<exists>inputs. length (fst (live_events True True sample_client None inputs)) = 1 \<and>
     fst (adapter_events ct hash ai (live_events True True sample_client None inputs)) = [] \<and>
     snd (adapter_events ct hash ai (live_events True True sample_client None inputs)) \<noteq> None"
proof (intro allI)
  fix ct hash ai
  let ?in = "[WsMessage [(''op'', JStr ''subscribe'')] 0, WsMessage sample_message 1, WsTimeout]"
  let ?evs = "live_events True True sample_client None ?in"
  have t: "to_bybit_interval ''1h'' = Inr ''60''" "topic_of ''60'' ''BTCUSDT'' = ''kline.60.BTCUSDT''" by code_simp+
  have h: "''60'' \<in> set bybit_hours" "lc_exchange sample_client = ''bybit''" by (simp_all add: bybit_hours_def sample_client_def)
  have topics: "obj_get p ''op'' = JStr ''subscribe'' \<or> map_of p ''topic'' = Some (JStr (topic_of ''60'' ''BTCUSDT''))"
    if "WsMessage p a \<in> set ?in" for p a
    using that by (auto simp: t(2) sample_message_def obj_get_def)
  note r = bybit_hours_never_delivered [where inputs = ?in and s = "''BTCUSDT''" and ct = ct and hash = hash and ai = ai
    and allowed = True and installed = True and max_messages = None, OF t(1) h topics]
  have "length (fst ?evs) \<noteq> 0" unfolding sample_stream by simp
  then have "fst ?evs \<noteq> []" unfolding length_0_conv .
  with r have "length (fst ?evs) = 1 \<and> fst (adapter_events ct hash ai ?evs) = [] \<and> snd (adapter_events ct hash ai ?evs) \<noteq> None"
    by (intro conjI sample_stream conjunct1 [OF r] mp [OF conjunct2 [OF r]])
  then show "\<exists>inputs. length (fst (live_events True True sample_client None inputs)) = 1 \<and>
     fst (adapter_events ct hash ai (live_events True True sample_client None inputs)) = [] \<and>
     snd (adapter_events ct hash ai (live_events True True sample_client None inputs)) \<noteq> None"
    by (rule exI [of _ ?in])
qed

end
