(* ===== verification/Acceptance.thy ===== *)
theory Acceptance
  imports Providers Archive PageSafety
begin

section \<open>Acceptance evidence\<close>

text \<open>
  Models \<^verbatim>\<open>acceptance_models.py\<close> and \<^verbatim>\<open>acceptance.py\<close>: the checks and their report, the probes of the REST and
  WebSocket interfaces, the evidence taken from an exception and the runs that put the checks together. The network and the
  clients of a stream are arguments, and so are the checks \<^verbatim>\<open>_deterministic_integrity_checks\<close> returns, which are made
  in a temporary directory. Evidence is kept as the object it is written as.
\<close>

record acceptance_check =
  ac_capability :: string
  ac_passed :: bool
  ac_evidence :: "(string \<times> json) list"
  ac_error :: "string option"

record acceptance_report =
  rp_mode :: string
  rp_started_at_ms :: int
  rp_finished_at_ms :: int
  rp_checks :: "acceptance_check list"

definition required_phase2_capabilities :: "string list" where
  "required_phase2_capabilities =
     [''binance_rest'', ''binance_ws'', ''bybit_rest'', ''bybit_ws'', ''reconnect'', ''gap_detection'', ''checksum_validation'',
      ''segment_repair'', ''timezone_normalization'']"

definition failed_capabilities :: "acceptance_report \<Rightarrow> string list" where
  "failed_capabilities r =
     filter (\<lambda>c. case filter (\<lambda>k. ac_capability k = c) (rp_checks r) of
                   [k] \<Rightarrow> \<not> ac_passed k \<or> ac_evidence k = []
                 | _ \<Rightarrow> True) required_phase2_capabilities"

definition report_ok :: "acceptance_report \<Rightarrow> bool" where
  "report_ok r \<longleftrightarrow>
     failed_capabilities r = [] \<and> length (rp_checks r) = card (set required_phase2_capabilities) \<and>
     set (map ac_capability (rp_checks r)) = set required_phase2_capabilities"

definition check_json :: "acceptance_check \<Rightarrow> json" where
  "check_json k =
     JObj [(''capability'', JStr (ac_capability k)), (''passed'', JBool (ac_passed k)), (''evidence'', JObj (ac_evidence k)),
           (''error'', case ac_error k of None \<Rightarrow> JNull | Some e \<Rightarrow> JStr e)]"

definition report_to_dict :: "acceptance_report \<Rightarrow> (string \<times> json) list" where
  "report_to_dict r =
     [(''schema_version'', JStr ''phase2-acceptance-v1''), (''mode'', JStr (rp_mode r)), (''started_at_ms'', JInt (rp_started_at_ms r)),
      (''finished_at_ms'', JInt (rp_finished_at_ms r)), (''ok'', JBool (report_ok r)),
      (''failed_capabilities'', JArr (map JStr (failed_capabilities r))), (''checks'', JArr (map check_json (rp_checks r)))]"

definition acceptance_exit_code :: "acceptance_report \<Rightarrow> int" where
  "acceptance_exit_code r = (if report_ok r then 0 else 1)"

subsection \<open>The probe of a stream\<close>

text \<open>
  The client of the n-th attempt: the events it yields and the error that ends them. Errors of the package are caught, and so
  are those of the operating system.
\<close>

type_synonym event_client = "nat \<Rightarrow> live_event list \<times> error option"

fun is_market_data_error :: "error \<Rightarrow> bool" where
  "is_market_data_error (MarketDataError m) = True"
| "is_market_data_error (MDSymbolAmbiguous m) = True"
| "is_market_data_error (MDSymbolUnsupported m) = True"
| "is_market_data_error (MDTimeframeUnsupported m) = True"
| "is_market_data_error (MDInvalidExchangeResponse m) = True"
| "is_market_data_error (MDPaginationStalled m) = True"
| "is_market_data_error (MDValidationError m) = True"
| "is_market_data_error (MDMissingFinality m) = True"
| "is_market_data_error (MDBarConflict m) = True"
| "is_market_data_error (MDIntrabarDataUnavailable m) = True"
| "is_market_data_error (MDRuntimeIntrabarUnsupported m) = True"
| "is_market_data_error (MDNetworkUnavailable m) = True"
| "is_market_data_error (MDUnsupportedFeature m) = True"
| "is_market_data_error (MDCacheConflict m) = True"
| "is_market_data_error (MDWsRestCandleMismatch m) = True"
| "is_market_data_error (MDSymbolNotTradableForStream m) = True"
| "is_market_data_error e = False"

fun probe_catches :: "error \<Rightarrow> bool" where
  "probe_catches (PyFileNotFoundError m) = True"
| "probe_catches e = is_market_data_error e"

record probe =
  pb_attempts :: nat
  pb_retries :: nat
  pb_messages :: nat
  pb_latest :: "int option"

text \<open>The first event of an attempt, which must be of the market that is probed.\<close>

definition received_update :: "string \<Rightarrow> string \<Rightarrow> live_event list \<times> error option \<Rightarrow> kline_update res" where
  "received_update exchange market yielded =
     (case yielded of
        (ev # _, _) \<Rightarrow>
          (if ku_exchange (le_update ev) \<noteq> exchange \<or> ku_market (le_update ev) \<noteq> market
           then Inl (MDInvalidExchangeResponse ''WebSocket event identity mismatch'') else Inr (le_update ev))
      | ([], Some e) \<Rightarrow> Inl e
      | ([], None) \<Rightarrow> Inl (MDNetworkUnavailable ''WebSocket produced no kline before timeout''))"

text \<open>The attempts of one connection: whether it connected, and the counts after it.\<close>

primrec connect :: "event_client \<Rightarrow> string \<Rightarrow> string \<Rightarrow> nat \<Rightarrow> probe \<Rightarrow> (bool \<times> probe) res" where
  "connect clients exchange market 0 p = Inr (False, p)"
| "connect clients exchange market (Suc left) p =
     (let p' = p\<lparr>pb_attempts := pb_attempts p + 1\<rparr> in
      case received_update exchange market (clients (pb_attempts p)) of
        Inr u \<Rightarrow> Inr (True, p'\<lparr>pb_latest := Some (ku_open_time u), pb_messages := pb_messages p + 1\<rparr>)
      | Inl e \<Rightarrow>
          if \<not> probe_catches e then Inl e
          else connect clients exchange market left (if 0 < left then p'\<lparr>pb_retries := pb_retries p + 1\<rparr> else p'))"

primrec connect_all :: "event_client \<Rightarrow> string \<Rightarrow> string \<Rightarrow> nat \<Rightarrow> nat \<Rightarrow> probe \<Rightarrow> probe res" where
  "connect_all clients exchange market per 0 p = Inr p"
| "connect_all clients exchange market per (Suc connections) p =
     bindR (connect clients exchange market per p) (\<lambda>(connected, p').
     if connected then connect_all clients exchange market per connections p'
     else Inl (MDNetworkUnavailable ''WebSocket reconnect retries exhausted''))"

definition no_probe :: probe where
  "no_probe = \<lparr>pb_attempts = 0, pb_retries = 0, pb_messages = 0, pb_latest = None\<rparr>"

definition run_probe :: "event_client \<Rightarrow> string \<Rightarrow> string \<Rightarrow> int \<Rightarrow> int \<Rightarrow> probe res" where
  "run_probe clients exchange market connections per =
     (if connections < 1 \<or> per < 1 then Inl (PyValueError ''connections and attempts_per_connection must be positive'')
      else connect_all clients exchange market (nat per) (nat connections) no_probe)"

text \<open>\<open>datetime.fromtimestamp(ms / 1000, UTC).isoformat(timespec="seconds")\<close>, for the years a \<open>datetime\<close> has.\<close>

definition utc_iso :: "int \<Rightarrow> string res" where
  "utc_iso ms =
     (let days = ms div 86400000 + 719163; s = (ms div 1000) mod 86400 in
      if days < 1 \<or> 3652059 < days then Inl (PyValueError ''year is out of range'')
      else Inr (day_suffix (ord2ymd days) @ ''T'' @ padded 2 (s div 3600) @ '':'' @ padded 2 (s div 60 mod 60) @ '':'' @
                padded 2 (s mod 60) @ ''Z''))"

definition probe_evidence :: "string \<Rightarrow> string \<Rightarrow> int \<Rightarrow> probe \<Rightarrow> (string \<times> json) list res" where
  "probe_evidence exchange market connections p =
     (case pb_latest p of
        None \<Rightarrow> Inl PyAssertionError
      | Some t \<Rightarrow>
          bindR (utc_iso t) (\<lambda>iso.
          Inr [(''exchange'', JStr exchange), (''market'', JStr market), (''connections'', JInt connections),
               (''reconnects'', JInt (max 0 (connections - 1))), (''attempts'', JInt (int (pb_attempts p))),
               (''retries'', JInt (int (pb_retries p))), (''messages'', JInt (int (pb_messages p))),
               (''latest_open_time_ms'', JInt t), (''latest_open_time_utc'', JStr iso)]))"

definition probe_websocket_reconnect :: "event_client \<Rightarrow> string \<Rightarrow> string \<Rightarrow> int \<Rightarrow> int \<Rightarrow> (string \<times> json) list res" where
  "probe_websocket_reconnect clients exchange market connections per =
     bindR (run_probe clients exchange market connections per) (probe_evidence exchange market connections)"

text \<open>The client every attempt makes when none is given; what each reads from its socket is an argument.\<close>

definition default_client :: "bool \<Rightarrow> bool \<Rightarrow> (nat \<Rightarrow> ws_input list) \<Rightarrow> string \<Rightarrow> string \<Rightarrow> event_client" where
  "default_client allowed installed inputs exchange market n =
     (case stream_endpoint exchange market ''BTCUSDT'' ''1m'' of
        Inl e \<Rightarrow> ([], Some e)
      | Inr _ \<Rightarrow>
          live_events allowed installed
            \<lparr>lc_exchange = exchange, lc_market = py_lower market, lc_symbol = ''BTCUSDT'', lc_timeframe = ''1m'', lc_source_kind = ''trade_kline''\<rparr>
            (Some 1) (inputs n))"

subsection \<open>The probe of the REST interfaces\<close>

definition probe_bars :: "network \<Rightarrow> string \<Rightarrow> string \<Rightarrow> market_bar list res option" where
  "probe_bars net exchange market =
     (if exchange = ''binance''
      then binance_get_bars net binance_defaults ''BTCUSDT'' ''1m'' None None (Some market) 2 (Some 3) False
      else if exchange = ''bybit''
      then bybit_get_bars net (Pagination.bybit_config.make ''https://api.bybit.com'' 1000) ''BTCUSDT'' ''1m'' None None (Some market) 2 (Some 3) False
      else Some (Inl (PyValueError ''unsupported exchange'')))"

definition rest_evidence :: "string \<Rightarrow> string \<Rightarrow> market_bar list \<Rightarrow> (string \<times> json) list res" where
  "rest_evidence exchange market bars =
     (if bars = [] then Inl (MDInvalidExchangeResponse ''REST returned no closed bars'')
      else if \<not> sorted_wrt (<) (map b_time bars) then Inl (MDInvalidExchangeResponse ''REST bars are not strictly ordered'')
      else Inr [(''exchange'', JStr exchange), (''market'', JStr market), (''bars'', JInt (int (length bars))),
                (''first_time_ms'', JInt (b_time (hd bars))), (''last_time_ms'', JInt (b_time (last bars))), (''strictly_sorted'', JBool True)])"

definition probe_live_rest :: "network \<Rightarrow> string \<Rightarrow> string \<Rightarrow> (string \<times> json) list res option" where
  "probe_live_rest net exchange market = map_option (\<lambda>r. bindR r (rest_evidence exchange market)) (probe_bars net exchange market)"

subsection \<open>The evidence of a failure\<close>

text \<open>
  The objects an exception leads to, by identity: an exception with the names of the classes it is an instance of (its own
  first), its text, its details, its cause and its context; a dictionary; a list, tuple or set; and a scalar.
\<close>

datatype py_object =
    ExcObject "string list" string nat "nat option" "nat option"
  | DictObject "(string \<times> nat) list"
  | SeqObject "nat list"
  | ScalarObject json

record failure_text =
  ft_text :: "string list"
  ft_statuses :: "int list"
  ft_exceptions :: "string list list"

fun status_of :: "py_object \<Rightarrow> int option res" where
  "status_of (ScalarObject v) =
     (case json_int v of
        Inr n \<Rightarrow> Inr (Some n)
      | Inl (PyTypeError m) \<Rightarrow> Inr None
      | Inl (PyValueError m) \<Rightarrow> Inr None
      | Inl e \<Rightarrow> Inl e)"
| "status_of v = Inr None"

text \<open>Reading the items of a dictionary: the text of its keys and the numbers of its statuses.\<close>

fun read_items :: "(nat \<Rightarrow> py_object) \<Rightarrow> (string \<times> nat) list \<Rightarrow> failure_text \<Rightarrow> failure_text res" where
  "read_items objects [] ft = Inr ft"
| "read_items objects ((key, i) # items) ft =
     (let ft' = ft\<lparr>ft_text := ft_text ft @ [key]\<rparr> in
      if key = ''status'' \<or> key = ''status_code''
      then bindR (status_of (objects i)) (\<lambda>n.
           read_items objects items (ft'\<lparr>ft_statuses := ft_statuses ft' @ (case n of None \<Rightarrow> [] | Some n \<Rightarrow> [n])\<rparr>))
      else read_items objects items ft')"

text \<open>What one object adds, and the objects it leads to in the order they are taken next.\<close>

definition opt_list :: "'a option \<Rightarrow> 'a list" where
  "opt_list v = (case v of None \<Rightarrow> [] | Some x \<Rightarrow> [x])"

definition read_object :: "(nat \<Rightarrow> py_object) \<Rightarrow> nat \<Rightarrow> failure_text \<Rightarrow> (failure_text \<times> nat list) res" where
  "read_object objects i ft =
     (case objects i of
        ExcObject classes txt details cause context \<Rightarrow>
          Inr (ft\<lparr>ft_text := ft_text ft @ [hd classes, txt], ft_exceptions := ft_exceptions ft @ [classes]\<rparr>,
               opt_list context @ opt_list cause @ (if ''MarketDataError'' \<in> set classes then [details] else []))
      | DictObject items \<Rightarrow> bindR (read_items objects items ft) (\<lambda>ft'. Inr (ft', rev (map snd items)))
      | SeqObject items \<Rightarrow> Inr (ft, rev items)
      | ScalarObject v \<Rightarrow> Inr (if v = JNull then ft else ft\<lparr>ft_text := ft_text ft @ [json_str v]\<rparr>, []))"

text \<open>
  The loop over the objects still to be read, with their depths: 64 objects at most, each once and none deeper than 8, so
  that it ends on chains of exceptions that are cyclic.
\<close>

function gather_failure ::
  "(nat \<Rightarrow> py_object) \<Rightarrow> (nat \<times> nat) list \<Rightarrow> nat list \<Rightarrow> failure_text \<Rightarrow> (failure_text \<times> nat list) res" where
  "gather_failure objects pending seen ft =
     (case pending of
        [] \<Rightarrow> Inr (ft, seen)
      | (i, depth) # rest \<Rightarrow>
          if 64 \<le> length seen then Inr (ft, seen)
          else if i \<in> set seen \<or> 8 < depth then gather_failure objects rest seen ft
          else
            (case read_object objects i ft of
               Inl e \<Rightarrow> Inl e
             | Inr (ft', next_objects) \<Rightarrow>
                 gather_failure objects (map (\<lambda>j. (j, depth + 1)) next_objects @ rest) (i # seen) ft'))"
  by pat_completeness auto

termination
  by (relation "measures [\<lambda>(objects, pending, seen, ft). 64 - length seen, \<lambda>(objects, pending, seen, ft). length pending]") auto

declare gather_failure.simps [simp del]

definition failure_evidence :: "(nat \<Rightarrow> py_object) \<Rightarrow> nat \<Rightarrow> (string \<times> int list \<times> string list list) res" where
  "failure_evidence objects exc =
     bindR (gather_failure objects [(exc, 0)] [] \<lparr>ft_text = [], ft_statuses = [], ft_exceptions = []\<rparr>) (\<lambda>(ft, seen).
     Inr (py_lower (join_with '' '' (ft_text ft)), ft_statuses ft, ft_exceptions ft))"

definition has_marker :: "string list \<Rightarrow> string \<Rightarrow> bool" where
  "has_marker markers text \<longleftrightarrow> list_ex (\<lambda>m. within m text) markers"

definition has_class :: "string list \<Rightarrow> string list list \<Rightarrow> bool" where
  "has_class names exceptions \<longleftrightarrow> list_ex (\<lambda>classes. list_ex (\<lambda>n. n \<in> set classes) names) exceptions"

definition classify_live_failure :: "(nat \<Rightarrow> py_object) \<Rightarrow> nat \<Rightarrow> string res" where
  "classify_live_failure objects exc =
     bindR (failure_evidence objects exc) (\<lambda>(text, statuses, exceptions).
     Inr (if 451 \<in> set statuses \<or>
             has_marker [''http 451'', ''legal reasons'', ''restricted location'', ''restricted country'', ''not available in your region''] text
          then ''GEO_RESTRICTED''
          else if has_class [''TimeoutError''] exceptions \<or> has_marker [''timed out'', ''timeout'', ''readtimeout'', ''connecttimeout''] text
          then ''TIMEOUT''
          else if has_class [''gaierror''] exceptions \<or> has_marker [''name resolution'', ''dns'', ''getaddrinfo'', ''nodename nor servname''] text
          then ''DNS_FAILURE''
          else if has_class [''MDNetworkUnavailable'', ''OSError''] exceptions then ''NETWORK_UNAVAILABLE''
          else ''PROBE_FAILED''))"

subsection \<open>The runs\<close>

text \<open>
  An operation of a live check gives its evidence or raises: the objects of the exception, the exception, and the text
  \<^verbatim>\<open>_error_text\<close> makes of it. An error inside the classification escapes the check.
\<close>

datatype live_outcome =
    Observed "(string \<times> json) list"
  | Raised "nat \<Rightarrow> py_object" nat string

fun run_live_check :: "string \<Rightarrow> live_outcome \<Rightarrow> acceptance_check res" where
  "run_live_check capability (Observed evidence) =
     Inr \<lparr>ac_capability = capability, ac_passed = (evidence \<noteq> []), ac_evidence = evidence, ac_error = None\<rparr>"
| "run_live_check capability (Raised objects exc message) =
     bindR (classify_live_failure objects exc) (\<lambda>classification.
     Inr \<lparr>ac_capability = capability, ac_passed = False,
          ac_evidence = [(''attempted'', JBool True), (''failure_classification'', JStr classification)], ac_error = Some message\<rparr>)"

text \<open>What an operation that returned or raised is to the check; \<open>explain\<close> gives the exception of an error of the model.\<close>

definition outcome_of :: "(error \<Rightarrow> (nat \<Rightarrow> py_object) \<times> nat \<times> string) \<Rightarrow> (string \<times> json) list res \<Rightarrow> live_outcome" where
  "outcome_of explain r = (case r of Inr evidence \<Rightarrow> Observed evidence | Inl e \<Rightarrow> (case explain e of (objects, exc, message) \<Rightarrow> Raised objects exc message))"

definition reconnects_of :: "acceptance_check \<Rightarrow> json" where
  "reconnects_of k = obj_get (ac_evidence k) ''reconnects''"

definition reconnect_check :: "acceptance_check \<Rightarrow> acceptance_check \<Rightarrow> acceptance_check" where
  "reconnect_check binance bybit =
     \<lparr>ac_capability = ''reconnect'',
      ac_passed = list_all (\<lambda>k. ac_passed k \<and> reconnects_of k = JInt 1) [binance, bybit],
      ac_evidence = [(''binance_reconnects'', reconnects_of binance), (''bybit_reconnects'', reconnects_of bybit)], ac_error = None\<rparr>"

definition integrity_capabilities :: "string list" where
  "integrity_capabilities = drop 5 required_phase2_capabilities"

definition attempted_check :: "string \<Rightarrow> string \<Rightarrow> acceptance_check" where
  "attempted_check message capability =
     \<lparr>ac_capability = capability, ac_passed = False, ac_evidence = [(''attempted'', JBool True)], ac_error = Some message\<rparr>"

definition live_integrity_checks :: "string + acceptance_check list \<Rightarrow> acceptance_check list" where
  "live_integrity_checks raw =
     (case raw of
        Inl message \<Rightarrow> map (attempted_check message) integrity_capabilities
      | Inr checks \<Rightarrow>
          map (\<lambda>c. case filter (\<lambda>k. ac_capability k = c) checks of
                     [k] \<Rightarrow> k
                   | _ \<Rightarrow> attempted_check ''deterministic integrity evidence was missing or duplicated'' c) integrity_capabilities)"

record live_outcomes =
  lo_binance_rest :: live_outcome
  lo_binance_ws :: live_outcome
  lo_bybit_rest :: live_outcome
  lo_bybit_ws :: live_outcome

definition run_live_acceptance :: "int \<Rightarrow> int \<Rightarrow> live_outcomes \<Rightarrow> string + acceptance_check list \<Rightarrow> acceptance_report res" where
  "run_live_acceptance started finished lo integrity =
     bindR (run_live_check ''binance_rest'' (lo_binance_rest lo)) (\<lambda>binance_rest.
     bindR (run_live_check ''binance_ws'' (lo_binance_ws lo)) (\<lambda>binance_ws.
     bindR (run_live_check ''bybit_rest'' (lo_bybit_rest lo)) (\<lambda>bybit_rest.
     bindR (run_live_check ''bybit_ws'' (lo_bybit_ws lo)) (\<lambda>bybit_ws.
     Inr \<lparr>rp_mode = ''live'', rp_started_at_ms = started, rp_finished_at_ms = finished,
          rp_checks = [binance_rest, binance_ws, bybit_rest, bybit_ws, reconnect_check binance_ws bybit_ws] @ live_integrity_checks integrity\<rparr>))))"

text \<open>The four operations of a live run over a network and the sockets; \<open>None\<close> where a request never ends.\<close>

definition live_operations ::
  "(error \<Rightarrow> (nat \<Rightarrow> py_object) \<times> nat \<times> string) \<Rightarrow> network \<Rightarrow> network \<Rightarrow> event_client \<Rightarrow> event_client \<Rightarrow> live_outcomes option" where
  "live_operations explain binance_net bybit_net binance_clients bybit_clients =
     (case (probe_live_rest binance_net ''binance'' ''spot'', probe_live_rest bybit_net ''bybit'' ''linear'') of
        (Some binance, Some bybit) \<Rightarrow>
          Some \<lparr>lo_binance_rest = outcome_of explain binance,
                lo_binance_ws = outcome_of explain (probe_websocket_reconnect binance_clients ''binance'' ''spot'' 2 2),
                lo_bybit_rest = outcome_of explain bybit,
                lo_bybit_ws = outcome_of explain (probe_websocket_reconnect bybit_clients ''bybit'' ''linear'' 2 2)\<rparr>
      | _ \<Rightarrow> None)"

subsection \<open>The deterministic checks\<close>

definition fixture_base :: int where
  "fixture_base = 1704067200000"

definition binance_fixture_row :: json where
  "binance_fixture_row =
     JArr [JInt fixture_base, JStr ''1'', JStr ''2'', JStr ''0.5'', JStr ''1.5'', JStr ''10'', JInt (fixture_base + 59999), JStr ''15'',
           JInt 7, JStr ''4'', JStr ''6'']"

definition bybit_fixture_payload :: json where
  "bybit_fixture_payload =
     JObj [(''result'', JObj [(''list'',
       JArr [JArr [JInt fixture_base, JStr ''1'', JStr ''2'', JStr ''0.5'', JStr ''1.5'', JStr ''10'', JStr ''15'']])])]"

definition binance_kline_fixture :: "int \<Rightarrow> (string \<times> json) list \<Rightarrow> bool \<Rightarrow> (string \<times> json) list" where
  "binance_kline_fixture event_time extra closed =
     [(''E'', JInt event_time), (''s'', JStr ''BTCUSDT''),
      (''k'', JObj ([(''s'', JStr ''BTCUSDT''), (''i'', JStr ''1m''), (''t'', JInt fixture_base), (''T'', JInt (fixture_base + 59999)),
                   (''o'', JStr ''1''), (''h'', JStr ''2''), (''l'', JStr ''0.5''), (''c'', JStr ''1.5''), (''v'', JStr ''10'')] @ extra @
                   [(''x'', JBool closed)]))]"

definition bybit_kline_fixture :: "(string \<times> json) list" where
  "bybit_kline_fixture =
     [(''topic'', JStr ''kline.1.BTCUSDT''), (''ts'', JInt (fixture_base + 5000)),
      (''data'', JArr [JObj [(''start'', JInt fixture_base), (''end'', JInt (fixture_base + 59999)), (''timestamp'', JInt (fixture_base + 5000)),
        (''open'', JStr ''1''), (''high'', JStr ''2''), (''low'', JStr ''0.5''), (''close'', JStr ''1.5''), (''volume'', JStr ''10''),
        (''turnover'', JStr ''15''), (''confirm'', JBool True)]])]"

text \<open>\<open>bars[0].time\<close>, which raises on an empty list.\<close>

definition first_time :: "market_bar list \<Rightarrow> int res" where
  "first_time bars = (case bars of [] \<Rightarrow> Inl (PyIndexError ''list index out of range'') | b # _ \<Rightarrow> Inr (b_time b))"

definition rest_check :: "string \<Rightarrow> market_bar list \<Rightarrow> acceptance_check res" where
  "rest_check capability bars =
     bindR (first_time bars) (\<lambda>t.
     Inr \<lparr>ac_capability = capability, ac_passed = (length bars = 1 \<and> t = fixture_base),
          ac_evidence = [(''bars'', JInt (int (length bars))), (''time_ms'', JInt t)], ac_error = None\<rparr>)"

definition deterministic_transport_checks :: "acceptance_check list res" where
  "deterministic_transport_checks =
     bindR (normalize_binance_klines [binance_fixture_row] ''BTCUSDT'' ''spot'' ''1m'' (Some (fixture_base + 60000)) False) (\<lambda>binance_rest.
     bindR (normalize_bybit_klines bybit_fixture_payload ''BTCUSDT'' ''linear'' ''1m'' (Some (fixture_base + 60000)) False) (\<lambda>bybit_rest.
     bindR (normalize_binance_kline
       (binance_kline_fixture (fixture_base + 5000) [(''q'', JStr ''15''), (''n'', JInt 7), (''V'', JStr ''4''), (''Q'', JStr ''6'')] True)
       ''spot'' None ''trade_kline'' (Some (fixture_base + 5100))) (\<lambda>binance_ws.
     bindR (normalize_bybit_kline bybit_kline_fixture ''linear'' ''trade_kline'' (Some (fixture_base + 5100))) (\<lambda>bybit_ws.
     bindR (rest_check ''binance_rest'' binance_rest) (\<lambda>c1.
     bindR (rest_check ''bybit_rest'' bybit_rest) (\<lambda>c3.
     case bybit_ws of
       [] \<Rightarrow> Inl (PyIndexError ''list index out of range'')
     | u # _ \<Rightarrow>
         Inr [c1,
              \<lparr>ac_capability = ''binance_ws'', ac_passed = (ku_is_closed binance_ws \<and> ku_open_time binance_ws = fixture_base),
               ac_evidence = [(''messages'', JInt 1), (''time_ms'', JInt (ku_open_time binance_ws))], ac_error = None\<rparr>,
              c3,
              \<lparr>ac_capability = ''bybit_ws'', ac_passed = (length bybit_ws = 1 \<and> ku_is_closed u),
               ac_evidence = [(''messages'', JInt (int (length bybit_ws))), (''time_ms'', JInt (ku_open_time u))], ac_error = None\<rparr>]))))))"

definition fixture_client :: event_client where
  "fixture_client n =
     (case normalize_binance_kline (binance_kline_fixture fixture_base [] False) ''spot'' None ''trade_kline'' (Some fixture_base) of
        Inl e \<Rightarrow> ([], Some e)
      | Inr u \<Rightarrow> ([\<lparr>le_update = u, le_raw_payload = [(''fixture'', JBool True)], le_diagnostic = None\<rparr>], None))"

definition deterministic_reconnect_check :: "acceptance_check res" where
  "deterministic_reconnect_check =
     bindR (probe_websocket_reconnect fixture_client ''binance'' ''spot'' 2 1) (\<lambda>evidence.
     Inr \<lparr>ac_capability = ''reconnect'', ac_passed = (obj_get evidence ''reconnects'' = JInt 1), ac_evidence = evidence, ac_error = None\<rparr>)"

definition run_deterministic_acceptance :: "acceptance_check list res \<Rightarrow> acceptance_report res" where
  "run_deterministic_acceptance integrity =
     bindR deterministic_transport_checks (\<lambda>transport.
     bindR deterministic_reconnect_check (\<lambda>reconnect.
     bindR integrity (\<lambda>integrity.
     Inr \<lparr>rp_mode = ''deterministic'', rp_started_at_ms = 0, rp_finished_at_ms = 0, rp_checks = transport @ [reconnect] @ integrity\<rparr>)))"

subsection \<open>The report\<close>

lemma filter_single:
  assumes "distinct (map f xs)" and "k \<in> set xs"
  shows "filter (\<lambda>x. f x = f k) xs = [k]"
  using assms by (induction xs) (auto simp: filter_empty_conv image_iff)

lemma required_distinct: "distinct required_phase2_capabilities"
  by (simp add: required_phase2_capabilities_def)

lemma report_names:
  "report_ok r \<Longrightarrow> distinct (map ac_capability (rp_checks r)) \<and> set (map ac_capability (rp_checks r)) = set required_phase2_capabilities"
  unfolding report_ok_def by (metis card_distinct length_map)

lemma failed_none:
  assumes "distinct (map ac_capability (rp_checks r))" and "set (map ac_capability (rp_checks r)) = set required_phase2_capabilities"
  shows "failed_capabilities r = [] \<longleftrightarrow> (\<forall>k \<in> set (rp_checks r). ac_passed k \<and> ac_evidence k \<noteq> [])"
proof -
  have "failed_capabilities r = [] \<longleftrightarrow>
      (\<forall>c \<in> ac_capability ` set (rp_checks r). \<not> (case filter (\<lambda>k. ac_capability k = c) (rp_checks r) of [k] \<Rightarrow> \<not> ac_passed k \<or> ac_evidence k = [] | _ \<Rightarrow> True))"
    using assms(2) by (simp add: failed_capabilities_def filter_empty_conv)
  also have "\<dots> \<longleftrightarrow> (\<forall>k \<in> set (rp_checks r). ac_passed k \<and> ac_evidence k \<noteq> [])"
    by (simp add: filter_single [OF assms(1)])
  finally show ?thesis .
qed

lemma report_ok_iff:
  "report_ok r \<longleftrightarrow>
     mset (map ac_capability (rp_checks r)) = mset required_phase2_capabilities \<and>
     (\<forall>k \<in> set (rp_checks r). ac_passed k \<and> ac_evidence k \<noteq> [])"
proof
  assume ok: "report_ok r"
  note n = report_names [OF ok]
  have "mset (map ac_capability (rp_checks r)) = mset required_phase2_capabilities"
    using n required_distinct set_eq_iff_mset_eq_distinct by blast
  with ok failed_none [of r] n show "mset (map ac_capability (rp_checks r)) = mset required_phase2_capabilities \<and>
     (\<forall>k \<in> set (rp_checks r). ac_passed k \<and> ac_evidence k \<noteq> [])" by (simp add: report_ok_def)
next
  assume a: "mset (map ac_capability (rp_checks r)) = mset required_phase2_capabilities \<and>
     (\<forall>k \<in> set (rp_checks r). ac_passed k \<and> ac_evidence k \<noteq> [])"
  then have "distinct (map ac_capability (rp_checks r))" "set (map ac_capability (rp_checks r)) = set required_phase2_capabilities"
      "length (map ac_capability (rp_checks r)) = length required_phase2_capabilities"
    using required_distinct by (blast intro: mset_eq_imp_distinct_iff [THEN iffD2] dest: mset_eq_setD mset_eq_length)+
  with a failed_none [of r] show "report_ok r" by (simp add: report_ok_def distinct_card [OF required_distinct])
qed

lemma live_check_name: "run_live_check c o' = Inr k \<Longrightarrow> ac_capability k = c"
  by (cases o') (auto simp: res_simps)

lemma integrity_names: "map ac_capability (live_integrity_checks raw) = integrity_capabilities"
proof -
  have "ac_capability (case filter (\<lambda>k. ac_capability k = c) checks of [k] \<Rightarrow> k | _ \<Rightarrow> attempted_check m c) = c" for c m checks
  proof -
    have named: "list_all (\<lambda>k. ac_capability k = c) ks \<Longrightarrow> ac_capability (case ks of [k] \<Rightarrow> k | _ \<Rightarrow> attempted_check m c) = c" for ks
      by (auto simp: attempted_check_def split: list.splits)
    show ?thesis by (rule named) (simp add: list_all_iff)
  qed
  then show ?thesis
    by (cases raw) (simp_all add: live_integrity_checks_def comp_def attempted_check_def)
qed

text \<open>
  A live run reports all nine capabilities, each once and in their order, whatever its operations observed or
  raised and whatever became of the integrity checks. So its report is accepted exactly when every check of it passed
  with evidence.
\<close>

theorem live_report_complete:
  assumes "run_live_acceptance started finished lo integrity = Inr r"
  shows "map ac_capability (rp_checks r) = required_phase2_capabilities \<and>
    (acceptance_exit_code r = 0 \<longleftrightarrow> (\<forall>k \<in> set (rp_checks r). ac_passed k \<and> ac_evidence k \<noteq> []))"
proof -
  have "map ac_capability (rp_checks r) = take 5 required_phase2_capabilities @ integrity_capabilities"
    using assms
    by (auto simp: run_live_acceptance_def res_simps integrity_names reconnect_check_def required_phase2_capabilities_def dest!: live_check_name)
  then have "map ac_capability (rp_checks r) = required_phase2_capabilities" by (simp add: integrity_capabilities_def)
  then show ?thesis using report_ok_iff [of r] by (simp add: acceptance_exit_code_def)
qed

subsection \<open>The probe counts what it saw\<close>

definition accepted :: "event_client \<Rightarrow> string \<Rightarrow> string \<Rightarrow> nat \<Rightarrow> bool" where
  "accepted clients exchange market n \<longleftrightarrow> (\<exists>u. received_update exchange market (clients n) = Inr u)"

definition probe_extends :: "event_client \<Rightarrow> string \<Rightarrow> string \<Rightarrow> nat \<Rightarrow> nat \<Rightarrow> probe \<Rightarrow> probe \<Rightarrow> bool" where
  "probe_extends clients exchange market per n p p' \<longleftrightarrow>
     pb_messages p' = pb_messages p + n \<and> pb_attempts p' + pb_retries p = pb_attempts p + n + pb_retries p' \<and>
     pb_attempts p \<le> pb_attempts p' \<and> pb_attempts p' \<le> pb_attempts p + n * per \<and>
     length (filter (accepted clients exchange market) [pb_attempts p..<pb_attempts p']) = n \<and>
     (if n = 0 then p' = p else (\<exists>u. 0 < pb_attempts p' \<and> received_update exchange market (clients (pb_attempts p' - 1)) = Inr u \<and> pb_latest p' = Some (ku_open_time u)))"

lemma connect_counts:
  assumes "connect clients exchange market left p = Inr (True, p')"
  shows "probe_extends clients exchange market left 1 p p'"
  using assms
proof (induction left arbitrary: p)
  case 0
  then show ?case by simp
next
  case (Suc left)
  show ?case
  proof (cases "received_update exchange market (clients (pb_attempts p))")
    case (Inr u)
    then have "accepted clients exchange market (pb_attempts p)" by (simp add: accepted_def)
    with Suc.prems Inr show ?thesis by (auto simp: probe_extends_def Let_def)
  next
    case (Inl e)
    define q where "q = (if 0 < left then p\<lparr>pb_attempts := pb_attempts p + 1, pb_retries := pb_retries p + 1\<rparr>
      else p\<lparr>pb_attempts := pb_attempts p + 1\<rparr>)"
    from Inl Suc.prems have c: "connect clients exchange market left q = Inr (True, p')"
      by (auto simp: Let_def q_def split: if_splits)
    then have "0 < left" by (cases left) auto
    then have q: "pb_messages q = pb_messages p" "pb_attempts q = pb_attempts p + 1" "pb_retries q = pb_retries p + 1"
      by (simp_all add: q_def)
    have "\<not> accepted clients exchange market (pb_attempts p)" using Inl by (simp add: accepted_def)
    with Suc.IH [OF c] show ?thesis by (auto simp: probe_extends_def q upt_conv_Cons)
  qed
qed

lemma filter_upt_split:
  "a \<le> b \<Longrightarrow> b \<le> c \<Longrightarrow> length (filter P [a..<c]) = length (filter P [a..<b]) + length (filter P [b..<(c::nat)])"
  by (metis filter_append le_Suc_ex length_append upt_add_eq_append)

lemma probe_extends_trans:
  assumes "probe_extends clients exchange market per 1 p q" and "probe_extends clients exchange market per n q p'"
  shows "probe_extends clients exchange market per (Suc n) p p'"
  using assms filter_upt_split [of "pb_attempts p" "pb_attempts q" "pb_attempts p'" "accepted clients exchange market"]
  by (cases "n = 0") (auto simp: probe_extends_def)

lemma connect_all_counts:
  "connect_all clients exchange market per n p = Inr p' \<Longrightarrow> probe_extends clients exchange market per n p p'"
proof (induction n arbitrary: p)
  case 0
  then show ?case by (simp add: probe_extends_def)
next
  case (Suc n)
  then obtain q where q: "connect clients exchange market per p = Inr (True, q)" "connect_all clients exchange market per n q = Inr p'"
    by (auto simp: res_simps split: if_splits)
  show ?case by (rule probe_extends_trans [OF connect_counts [OF q(1)] Suc.IH [OF q(2)]])
qed

text \<open>
  A probe of a stream that succeeds has read one event of the market it probes for every connection: of the attempts
  it made exactly that many gave such an event, the last one among them, whose time it reports; the others are its
  retries, and no connection took more attempts than it was allowed.
\<close>

theorem reconnect_probe_counts:
  assumes "run_probe clients exchange market connections per = Inr p"
  shows "int (pb_messages p) = connections \<and> pb_attempts p = pb_messages p + pb_retries p \<and>
    int (pb_attempts p) \<le> connections * per \<and>
    length (filter (accepted clients exchange market) [0..<pb_attempts p]) = pb_messages p \<and>
    (\<exists>u. received_update exchange market (clients (pb_attempts p - 1)) = Inr u \<and> pb_latest p = Some (ku_open_time u))"
proof -
  from assms have pos: "1 \<le> connections" "1 \<le> per" and run: "connect_all clients exchange market (nat per) (nat connections) no_probe = Inr p"
    by (auto simp: run_probe_def split: if_splits)
  have x: "probe_extends clients exchange market (nat per) (nat connections) no_probe p" by (rule connect_all_counts [OF run])
  then have "pb_attempts p \<le> nat connections * nat per" by (simp add: probe_extends_def no_probe_def)
  also have "nat connections * nat per = nat (connections * per)" using pos by (simp add: nat_mult_distrib)
  finally have "int (pb_attempts p) \<le> connections * per" using pos by (simp add: le_nat_iff)
  with x pos show ?thesis by (auto simp: probe_extends_def no_probe_def)
qed

subsection \<open>The deterministic run\<close>

lemma fixture_probe: "run_probe fixture_client ''binance'' ''spot'' 2 1 = Inr \<lparr>pb_attempts = 2, pb_retries = 0, pb_messages = 2, pb_latest = Some fixture_base\<rparr>"
  by code_simp

theorem reconnect_probe_counts_witness:
  "length (filter (accepted fixture_client ''binance'' ''spot'') [0..<2]) = 2"
  using reconnect_probe_counts [OF fixture_probe] by simp

lemma reconnect_check_passes:
  "\<exists>k. deterministic_reconnect_check = Inr k \<and> ac_capability k = ''reconnect'' \<and> ac_passed k \<and> ac_evidence k \<noteq> []"
proof -
  have "case deterministic_reconnect_check of Inl e \<Rightarrow> False | Inr k \<Rightarrow> ac_capability k = ''reconnect'' \<and> ac_passed k \<and> ac_evidence k \<noteq> []" by code_simp
  then show ?thesis by (auto split: sum.splits)
qed

lemma transport_checks_pass:
  "\<exists>cs. deterministic_transport_checks = Inr cs \<and> map ac_capability cs = take 4 required_phase2_capabilities \<and>
     (\<forall>k \<in> set cs. ac_passed k \<and> ac_evidence k \<noteq> [])"
proof -
  have "case deterministic_transport_checks of Inl e \<Rightarrow> False
     | Inr cs \<Rightarrow> map ac_capability cs = take 4 required_phase2_capabilities \<and> list_all (\<lambda>k. ac_passed k \<and> ac_evidence k \<noteq> []) cs" by code_simp
  then show ?thesis by (auto simp: list_all_iff split: sum.splits)
qed

text \<open>
  The normalisers and the probe pass the deterministic checks, so that the deterministic run is accepted exactly when
  the integrity checks are the four required ones and each passed with evidence.
\<close>

theorem deterministic_run_ok:
  "\<exists>r. run_deterministic_acceptance (Inr integrity) = Inr r \<and>
    (acceptance_exit_code r = 0 \<longleftrightarrow>
       mset (map ac_capability integrity) = mset integrity_capabilities \<and> (\<forall>k \<in> set integrity. ac_passed k \<and> ac_evidence k \<noteq> []))"
proof -
  obtain cs where cs: "deterministic_transport_checks = Inr cs" "map ac_capability cs = take 4 required_phase2_capabilities"
      "\<forall>k \<in> set cs. ac_passed k \<and> ac_evidence k \<noteq> []" using transport_checks_pass by blast
  obtain k where k: "deterministic_reconnect_check = Inr k" "ac_capability k = ''reconnect''" "ac_passed k" "ac_evidence k \<noteq> []"
    using reconnect_check_passes by blast
  let ?r = "\<lparr>rp_mode = ''deterministic'', rp_started_at_ms = 0, rp_finished_at_ms = 0, rp_checks = cs @ [k] @ integrity\<rparr>"
  have run: "run_deterministic_acceptance (Inr integrity) = Inr ?r"
    by (simp add: run_deterministic_acceptance_def cs(1) k(1))
  have "map ac_capability (cs @ [k]) = take 5 required_phase2_capabilities"
    using cs(2) k(2) by (simp add: required_phase2_capabilities_def)
  moreover have "required_phase2_capabilities = take 5 required_phase2_capabilities @ integrity_capabilities"
    by (simp add: integrity_capabilities_def)
  ultimately have "mset (map ac_capability (rp_checks ?r)) = mset required_phase2_capabilities \<longleftrightarrow>
      mset (map ac_capability integrity) = mset integrity_capabilities"
    by (metis add_left_cancel append_assoc acceptance_report.select_convs(4) map_append mset_append)
  then have "report_ok ?r \<longleftrightarrow> mset (map ac_capability integrity) = mset integrity_capabilities \<and>
      (\<forall>k \<in> set integrity. ac_passed k \<and> ac_evidence k \<noteq> [])"
    using cs(3) k(3,4) by (auto simp: report_ok_iff)
  with run show ?thesis by (auto simp: acceptance_exit_code_def)
qed

subsection \<open>The objects of a failure\<close>

lemma read_object_one: "read_object objects i ft = Inr (ft', os) \<Longrightarrow> length (ft_exceptions ft') \<le> Suc (length (ft_exceptions ft))"
proof -
  have "read_items objects items ft = Inr ft' \<Longrightarrow> ft_exceptions ft' = ft_exceptions ft" for items ft
    by (induction objects items ft rule: read_items.induct) (auto simp: res_simps Let_def split: if_splits)
  then show "read_object objects i ft = Inr (ft', os) \<Longrightarrow> length (ft_exceptions ft') \<le> Suc (length (ft_exceptions ft))"
    by (auto simp: read_object_def res_simps split: py_object.splits if_splits)
qed

lemma gather_bounded:
  "gather_failure objects pending seen ft = Inr (ft', seen') \<Longrightarrow> distinct seen \<Longrightarrow> length seen \<le> 64 \<Longrightarrow>
   distinct seen' \<and> length seen' \<le> 64 \<and> length (ft_exceptions ft') + length seen \<le> length (ft_exceptions ft) + length seen'"
proof (induction objects pending seen ft rule: gather_failure.induct)
  case (1 objects pending seen ft)
  show ?case
  proof (cases pending)
    case Nil
    with 1 show ?thesis by (simp add: gather_failure.simps)
  next
    case (Cons p rest)
    obtain i depth where p: "p = (i, depth)" by fastforce
    consider "64 \<le> length seen" | "length seen < 64" "i \<in> set seen \<or> 8 < depth" | "length seen < 64" "\<not> (i \<in> set seen \<or> 8 < depth)" by linarith
    then show ?thesis
    proof cases
      case 1
      with "1.prems" Cons p show ?thesis by (simp add: gather_failure.simps)
    next
      case 2
      with "1.prems"(1) Cons p have "gather_failure objects rest seen ft = Inr (ft', seen')"
        by (simp add: gather_failure.simps [of objects "(i, depth) # rest"])
      with 2 "1.prems"(2) "1.IH"(1) [OF Cons p [symmetric]] show ?thesis by simp
    next
      case 3
      from 3 "1.prems"(1) Cons p obtain ft1 os where o: "read_object objects i ft = Inr (ft1, os)"
          "gather_failure objects (map (\<lambda>j. (j, depth + 1)) os @ rest) (i # seen) ft1 = Inr (ft', seen')"
        by (auto simp: gather_failure.simps [of objects "(i, depth) # rest"] split: sum.splits)
      from 3 "1.prems"(2) o "1.IH"(2) [OF Cons p [symmetric] _ _ o(1) refl] read_object_one [OF o(1)] show ?thesis by simp
    qed
  qed
qed

text \<open>
  Whatever objects an exception leads to, cycles included, its evidence is taken from at most 64 of them, each read once.
\<close>

theorem failure_evidence_bounded:
  assumes "failure_evidence objects exc = Inr (text, statuses, exceptions)"
  shows "length exceptions \<le> 64"
proof -
  from assms obtain ft seen where
    "gather_failure objects [(exc, 0)] [] \<lparr>ft_text = [], ft_statuses = [], ft_exceptions = []\<rparr> = Inr (ft, seen)" "exceptions = ft_exceptions ft"
    by (auto simp: failure_evidence_def res_simps)
  with gather_bounded [OF this(1)] show ?thesis by simp
qed

text \<open>An exception that is its own cause, of a request that was refused by law, classified; and a run in which everything failed so.\<close>

definition sample_objects :: "nat \<Rightarrow> py_object" where
  "sample_objects i =
     (if i = 0 then ExcObject [''MDNetworkUnavailable'', ''MarketDataError'', ''Exception''] ''refused'' 1 (Some 0) (Some 0)
      else if i = 1 then DictObject [(''status'', 2), (''url'', 3)]
      else ScalarObject (if i = 2 then JStr ''451'' else JStr ''https://api.binance.com''))"

lemma sample_classified: "classify_live_failure sample_objects 0 = Inr ''GEO_RESTRICTED''"
  by code_simp

theorem live_report_complete_witness:
  "\<exists>r. run_live_acceptance 0 1
       \<lparr>lo_binance_rest = Raised sample_objects 0 ''refused'', lo_binance_ws = Observed [(''reconnects'', JInt 1)],
        lo_bybit_rest = Observed [], lo_bybit_ws = Observed [(''reconnects'', JInt 1)]\<rparr> (Inl ''failed'') = Inr r \<and>
     map ac_capability (rp_checks r) = required_phase2_capabilities"
proof -
  obtain r where r: "run_live_acceptance 0 1
       \<lparr>lo_binance_rest = Raised sample_objects 0 ''refused'', lo_binance_ws = Observed [(''reconnects'', JInt 1)],
        lo_bybit_rest = Observed [], lo_bybit_ws = Observed [(''reconnects'', JInt 1)]\<rparr> (Inl ''failed'') = Inr r"
    by (simp add: run_live_acceptance_def sample_classified)
  from live_report_complete [OF r] r show ?thesis by blast
qed

end
