(* ===== verification/Cli.thy ===== *)
theory Cli
  imports ProviderSafety Registry PageSafety Repair Service
begin

section \<open>The command line\<close>

text \<open>
  Models the commands of \<^verbatim>\<open>cli/main.py\<close>. A command takes the parsed arguments and gives the object it
  prints with its exit code; \<^verbatim>\<open>main\<close> prints an error of the package as an object too and lets others through. The
  files named by the arguments, the network and the environment variables are a record. Of an error the printed object
  keeps the code: its message and details are those of the exception.
\<close>

record cli_args =
  ca_symbol :: string
  ca_timeframe :: string
  ca_start :: "int option"
  ca_end :: "int option"
  ca_max_bars :: "int option"
  ca_exchange :: "string option"
  ca_market :: "string option"
  ca_path :: "string option"
  ca_cache :: bool
  ca_live :: bool
  ca_cache_dir :: string

record cli_env =
  ce_sha :: "byte list \<Rightarrow> byte list"
  ce_file :: "string \<Rightarrow> offline_file"
  ce_allow_network :: bool
  ce_binance :: network
  ce_bybit :: network

type_synonym printed = "(string \<times> json) list"

subsection \<open>Errors\<close>

fun error_code :: "error \<Rightarrow> string option" where
  "error_code (MarketDataError m) = Some ''MD_ERROR''"
| "error_code (MDSymbolAmbiguous m) = Some ''MD_SYMBOL_AMBIGUOUS''"
| "error_code (MDSymbolUnsupported m) = Some ''MD_SYMBOL_UNSUPPORTED''"
| "error_code (MDTimeframeUnsupported m) = Some ''MD_TIMEFRAME_UNSUPPORTED''"
| "error_code (MDInvalidExchangeResponse m) = Some ''MD_INVALID_EXCHANGE_RESPONSE''"
| "error_code (MDPaginationStalled m) = Some ''MD_PAGINATION_STALLED''"
| "error_code (MDValidationError m) = Some ''MD_VALIDATION_ERROR''"
| "error_code (MDMissingFinality m) = Some ''MD_MISSING_FINALITY''"
| "error_code (MDBarConflict m) = Some ''MD_BAR_CONFLICT''"
| "error_code (MDIntrabarDataUnavailable m) = Some ''MD_INTRABAR_DATA_UNAVAILABLE''"
| "error_code (MDRuntimeIntrabarUnsupported m) = Some ''MD_RUNTIME_INTRABAR_UNSUPPORTED''"
| "error_code (MDNetworkUnavailable m) = Some ''MD_NETWORK_UNAVAILABLE''"
| "error_code (MDUnsupportedFeature m) = Some ''MD_UNSUPPORTED_FEATURE''"
| "error_code (MDCacheConflict m) = Some ''MD_CACHE_CONFLICT''"
| "error_code (MDWsRestCandleMismatch m) = Some ''MD_WS_REST_CANDLE_MISMATCH''"
| "error_code (MDSymbolNotTradableForStream m) = Some ''MD_SYMBOL_NOT_TRADABLE_FOR_STREAM''"
| "error_code e = None"

datatype cli_exit =
    Exited int printed
  | Uncaught error

definition main_exit :: "(printed \<times> int) res \<Rightarrow> cli_exit" where
  "main_exit r =
     (case r of
        Inr (out, code) \<Rightarrow> Exited code out
      | Inl e \<Rightarrow>
          (case error_code e of
             Some code \<Rightarrow> Exited 2 [(''ok'', JBool False), (''code'', JStr code)]
           | None \<Rightarrow> Uncaught e))"

subsection \<open>Where bars come from\<close>

definition cli_symbol :: "cli_args \<Rightarrow> normalized_symbol res" where
  "cli_symbol a = normalize_symbol (ca_symbol a) (ca_exchange a) (ca_market a)"

definition cli_cache_key :: "cli_args \<Rightarrow> normalized_symbol \<Rightarrow> cache_key" where
  "cli_cache_key a ns =
     \<lparr>ck_exchange = ns_exchange ns, ck_market = ns_market ns, ck_symbol = ns_exchange_symbol ns, ck_timeframe = ca_timeframe a\<rparr>"

definition no_source :: error where
  "no_source = MDUnsupportedFeature ''Choose an explicit data source: --path for offline, --cache for local cache, or --live with network env opt-in''"

definition live_bars :: "cli_env \<Rightarrow> cli_args \<Rightarrow> normalized_symbol \<Rightarrow> market_bar list res option" where
  "live_bars env a ns =
     (if \<not> ce_allow_network env then Some (Inl (MDNetworkUnavailable ''Live REST is disabled''))
      else if ca_end a = None \<and> ca_max_bars a = None
      then Some (Inl (MDUnsupportedFeature ''Live REST requires --end or --max-bars to avoid unbounded history fetches''))
      else if ns_exchange ns = ''binance''
      then binance_get_bars (ce_binance env) binance_defaults (ca_symbol a) (ca_timeframe a) (ca_start a) (ca_end a) (Some (ns_market ns)) 3
             (ca_max_bars a) False
      else if ns_exchange ns = ''bybit''
      then bybit_get_bars (ce_bybit env) (Pagination.bybit_config.make ''https://api.bybit.com'' 1000) (ca_symbol a) (ca_timeframe a) (ca_start a)
             (ca_end a) (Some (ns_market ns)) 3 (ca_max_bars a) False
      else Some (Inl no_source))"

text \<open>The commands read of a bar what every bar has; the cache files are those of the directory of the arguments; \<open>None\<close> where a request never ends.\<close>

definition bars_from_source :: "cli_env \<Rightarrow> cli_args \<Rightarrow> cache_files \<Rightarrow> bar list res option" where
  "bars_from_source env a files =
     (if \<not> no_text (ca_path a)
      then Some (offline_get_bars (ce_file env (the (ca_path a))) (ca_timeframe a) (ca_start a) (ca_end a) (ca_max_bars a))
      else
        (case cli_symbol a of
           Inl e \<Rightarrow> Some (Inl e)
         | Inr ns \<Rightarrow>
             if ca_cache a
             then Some (read_cache_segment (ce_sha env) (cli_cache_key a ns) (ca_start a) (ca_end a) (ca_max_bars a) files)
             else if ca_live a then map_option (\<lambda>r. bindR r (\<lambda>bars. Inr (map bar.truncate bars))) (live_bars env a ns)
             else Some (Inl no_source)))"

definition with_bars :: "cli_env \<Rightarrow> cli_args \<Rightarrow> cache_files \<Rightarrow> (bar list \<Rightarrow> printed res) \<Rightarrow> (printed \<times> int) res option" where
  "with_bars env a files f = map_option (\<lambda>r. bindR r (\<lambda>bars. bindR (f bars) (\<lambda>out. Inr (out, 0)))) (bars_from_source env a files)"

subsection \<open>Commands over bars\<close>

definition bar_times :: "bar list \<Rightarrow> printed" where
  "bar_times bars =
     [(''ok'', JBool True), (''bars'', JInt (int (length bars))),
      (''first'', if bars = [] then JNull else JInt (b_time (hd bars))), (''last'', if bars = [] then JNull else JInt (b_time (last bars)))]"

definition cmd_validate :: "cli_env \<Rightarrow> cli_args \<Rightarrow> cache_files \<Rightarrow> (printed \<times> int) res option" where
  "cmd_validate env a files = with_bars env a files (\<lambda>bars. bindR (validate_bars bars False) (\<lambda>_. Inr (bar_times bars)))"

fun count_gaps :: "bar list \<Rightarrow> int" where
  "count_gaps (p # c # bars) =
     (case b_time_close p of Some t \<Rightarrow> if b_time c \<noteq> t + 1 then 1 else 0 | None \<Rightarrow> 0) + count_gaps (c # bars)"
| "count_gaps bars = 0"

definition cmd_coverage :: "cli_env \<Rightarrow> cli_args \<Rightarrow> cache_files \<Rightarrow> (printed \<times> int) res option" where
  "cmd_coverage env a files = with_bars env a files (\<lambda>bars. Inr (bar_times bars @ [(''gaps'', JInt (count_gaps bars))]))"

definition cmd_fetch :: "cli_env \<Rightarrow> cli_args \<Rightarrow> cache_files \<Rightarrow> ((printed \<times> int) res \<times> cache_files) option" where
  "cmd_fetch env a files =
     (if \<not> ca_live a \<and> no_text (ca_path a)
      then Some (Inl (MDUnsupportedFeature ''fetch requires --path offline source or --live with explicit network env opt-in''), files)
      else
        map_option (\<lambda>r.
          case bindR r (\<lambda>bars. bindR (cli_symbol a) (\<lambda>ns. Inr (bars, ns))) of
            Inl e \<Rightarrow> (Inl e, files)
          | Inr (bars, ns) \<Rightarrow>
              (let (m, files') = write_cache_segment (ce_sha env) (cli_cache_key a ns) bars (ca_start a) (ca_end a) files in
               (bindR m (\<lambda>m. Inr ([(''ok'', JBool True), (''bars'', JInt (cm_bars m)), (''cache_dir'', JStr (ca_cache_dir a)), (''checksum'', JStr (cm_checksum m))], 0)), files')))
          (bars_from_source env a files))"

text \<open>The CSV file of an export has the columns and texts of a cached segment.\<close>

definition export_bar_json :: "bar \<Rightarrow> json" where
  "export_bar_json b =
     JObj [(''time'', JInt (b_time b)), (''open'', JFloat (b_open b)), (''high'', JFloat (b_high b)), (''low'', JFloat (b_low b)),
           (''close'', JFloat (b_close b)), (''volume'', JFloat (b_volume b)), (''time_close'', int_json (b_time_close b))]"

datatype exported =
    CsvFile string
  | JsonFile json

definition export_csv :: "bar list \<Rightarrow> string" where
  "export_csv bars = csv_text (cache_fields # map cache_row bars)"

definition export_file :: "string \<Rightarrow> bar list \<Rightarrow> exported res" where
  "export_file data_format bars =
     (if data_format = ''csv'' then Inr (CsvFile (export_csv bars))
      else if data_format = ''json'' then Inr (JsonFile (JArr (map export_bar_json bars)))
      else Inl (MDUnsupportedFeature ''Unsupported export format: ''))"

definition cmd_export :: "cli_env \<Rightarrow> cli_args \<Rightarrow> string \<Rightarrow> string \<Rightarrow> cache_files \<Rightarrow> ((printed \<times> int) \<times> exported) res option" where
  "cmd_export env a data_format output files =
     map_option (\<lambda>r. bindR r (\<lambda>bars. bindR (export_file data_format bars) (\<lambda>f.
       Inr (([(''ok'', JBool True), (''bars'', JInt (int (length bars))), (''output'', JStr output)], 0), f)))) (bars_from_source env a files)"

subsection \<open>Commands over the registry and the stores\<close>

text \<open>A \<open>KeyError\<close> of the registry is reported as an unsupported feature.\<close>

fun key_unsupported :: "'a res \<Rightarrow> 'a res" where
  "key_unsupported (Inl (PyKeyError m)) = Inl (MDUnsupportedFeature m)"
| "key_unsupported r = r"

definition cmd_exchanges :: "string option \<Rightarrow> bool \<Rightarrow> (printed \<times> int) res" where
  "cmd_exchanges exchange native_only =
     bindR (key_unsupported
       (if no_text exchange then Inr (exchange_payloads native_only)
        else bindR (get_exchange (the exchange)) (\<lambda>e. Inr [exchange_json e]))) (\<lambda>payload.
     Inr ([(''ok'', JBool True), (''exchanges'', JArr (map JObj payload))], 0))"

definition cmd_market_types :: "string option \<Rightarrow> (printed \<times> int) res" where
  "cmd_market_types exchange =
     bindR (key_unsupported (market_type_payloads exchange)) (\<lambda>payload.
     Inr ([(''ok'', JBool True), (''exchange'', case exchange of None \<Rightarrow> JNull | Some e \<Rightarrow> JStr e), (''market_types'', JArr (map JObj payload))], 0))"

text \<open>The series of a store that a command names; bars of trades are meant.\<close>

definition cli_series :: "cli_args \<Rightarrow> series_key res" where
  "cli_series a =
     bindR (cli_symbol a) (\<lambda>ns.
     Inr \<lparr>sk_exchange = ns_exchange ns, sk_market = ns_market ns, sk_symbol = ns_exchange_symbol ns, sk_timeframe = ca_timeframe a,
          sk_source_kind = ''trade_kline''\<rparr>)"

definition current_json :: "market_bar option \<Rightarrow> json" where
  "current_json cur =
     (case cur of
        None \<Rightarrow> JNull
      | Some b \<Rightarrow>
          JObj [(''time'', JInt (b_time b)), (''time_close'', int_json (b_time_close b)), (''open'', JFloat (b_open b)), (''high'', JFloat (b_high b)),
                (''low'', JFloat (b_low b)), (''close'', JFloat (b_close b)), (''volume'', JFloat (b_volume b))])"

definition cmd_current :: "(revision_state \<Rightarrow> string) \<Rightarrow> cli_args \<Rightarrow> candle_state \<Rightarrow> (printed \<times> int) res" where
  "cmd_current rs a cs =
     bindR (cli_series a) (\<lambda>key. bindR (get_current_market_candle rs key cs) (\<lambda>cur.
     Inr ([(''ok'', JBool True), (''current'', current_json cur)], 0)))"

definition audit_issue_json :: "audit_issue \<Rightarrow> json" where
  "audit_issue_json i = JObj [(''code'', JStr (ai_code i)), (''time'', JInt (ai_time i)), (''message'', JStr (ai_message i))]"

text \<open>\<open>opened\<close> is the text of the source file, \<open>finality_of\<close> the reading of its finality.\<close>

definition cmd_audit ::
  "(byte list \<Rightarrow> byte list) \<Rightarrow> (revision_state \<Rightarrow> string) \<Rightarrow> (string \<Rightarrow> bool option) \<Rightarrow> cli_args \<Rightarrow> string \<Rightarrow> string res \<Rightarrow> bool \<Rightarrow>
   (printed \<times> int) cio" where
  "cmd_audit sha rs finality_of a path opened strict cs =
     (case bindR (cli_series a) (\<lambda>key. bindR (load_repair_source rs finality_of path opened key ''rest'') (\<lambda>source. Inr (key, source))) of
        Inl e \<Rightarrow> (Inl e, cs)
      | Inr (key, source) \<Rightarrow>
          and_then (audit_against_source sha rs key strict source) (\<lambda>report cs.
            (Inr ([(''ok'', JBool (ar_ok report)), (''checked'', JInt (ar_checked report)),
                   (''issues'', JArr (map audit_issue_json (ar_issues report)))], if ar_ok report then 0 else 3), cs)) cs)"

definition cmd_repair ::
  "(byte list \<Rightarrow> byte list) \<Rightarrow> (revision_state \<Rightarrow> string) \<Rightarrow> (string \<Rightarrow> bool option) \<Rightarrow> cli_args \<Rightarrow> string \<Rightarrow> string res \<Rightarrow> string \<Rightarrow>
   string \<Rightarrow> string option \<Rightarrow> (string \<rightharpoonup> json) \<times> candle_state \<Rightarrow> (printed \<times> int) res \<times> (string \<rightharpoonup> json) \<times> candle_state" where
  "cmd_repair sha rs finality_of a path opened policy store_dir log_path state =
     (case bindR (cli_series a) (\<lambda>key. bindR (load_repair_source rs finality_of path opened key ''rest'') (\<lambda>source.
             bindR (case log_path of Some p \<Rightarrow> Inr p | None \<Rightarrow> repair_log_path store_dir key) (\<lambda>p. Inr (key, source, p)))) of
        Inl e \<Rightarrow> (Inl e, state)
      | Inr (key, source, p) \<Rightarrow>
          (let (log, state') = repair_from_source sha rs key policy (Some p) source state in
           (bindR log (\<lambda>l. Inr ([(''ok'', JBool True), (''changed'', JInt (rl_changed l)), (''applied'', JBool (rl_applied l)),
              (''log_path'', JStr p)], 0)), state')))"

definition cmd_precompute :: "service \<Rightarrow> cli_args \<Rightarrow> string \<Rightarrow> (printed \<times> int) cio" where
  "cmd_precompute sv a store_dir cs =
     (case bindR (cli_symbol a) (\<lambda>ns.
           case (ca_start a, ca_end a) of
             (Some start, Some stop) \<Rightarrow>
               bindR (make_instrument (ns_exchange ns) (ns_market ns) (ns_exchange_symbol ns)) (\<lambda>i.
               bindR (parse_timeframe (ca_timeframe a)) (\<lambda>tf.
               post_init_bar_query \<lparr>q_instrument = i, q_timeframe = tf, q_start_ms = start, q_end_ms = stop, q_source = ''auto'',
                 q_gap_policy = ''fail'', q_error_policy = ''raise''\<rparr>))
           | _ \<Rightarrow> Inl (MDUnsupportedFeature ''precompute requires --start and --end'')) of
        Inl e \<Rightarrow> (Inl e, cs)
      | Inr q \<Rightarrow>
          and_then (materialize_bars sv q) (\<lambda>m cs.
            (Inr ([(''ok'', JBool (mt_ok m)), (''span_ok'', JBool (mt_span_ok m)), (''changed'', JBool (mt_changed m)),
                   (''bars_returned'', JInt (int (mt_bars_returned m)))] @
                  (case mt_rows_written m of None \<Rightarrow> [] | Some n \<Rightarrow> [(''rows_written'', JInt (int n))]) @
                  [(''store_dir'', JStr store_dir), (''timeframe'', JStr (tf_canonical (q_timeframe q)))], 0), cs)) cs)"

definition cmd_ws_info :: "cli_args \<Rightarrow> (printed \<times> int) res" where
  "cmd_ws_info a =
     bindR (cli_symbol a) (\<lambda>ns.
     bindR (stream_endpoint (ns_exchange ns) (ns_market ns) (ns_exchange_symbol ns) (ca_timeframe a)) (\<lambda>(url, topic).
     Inr ([(''ok'', JBool True), (''exchange'', JStr (ns_exchange ns)), (''market'', JStr (ns_market ns)), (''url'', JStr url),
           (''subscribe'', case topic of None \<Rightarrow> JNull | Some t \<Rightarrow> JObj [(''op'', JStr ''subscribe''), (''args'', JArr [JStr t])])], 0)))"

subsection \<open>What the commands promise\<close>

lemma error_code_iff: "error_code e \<noteq> None \<longleftrightarrow> e \<notin> range InvalidInstrumentError \<union> range InvalidTimeframeError \<union> range InvalidBarError \<union>
    range InvalidBarQueryError \<union> range CoverageValidationError \<union> range PyValueError \<union> range PyTypeError \<union> range PyKeyError \<union>
    range PyStructError \<union> range PyZeroDivisionError \<union> range PyOverflowError \<union> range PyIndexError \<union> range PyRuntimeError \<union>
    {PyStopIteration, PyAssertionError, PyInvalidOperation} \<union> range SqlIntegrityError \<union> range PyAttributeError \<union> range PyFileNotFoundError"
  by (cases e) auto

lemma live_returns: "\<exists>r. live_bars env a ns = Some r"
  by (auto simp: live_bars_def intro!: get_bars_return)

text \<open>
  A command over bars ends, whatever the network answers: a live source without an end and without a maximum is
  refused before its first request.
\<close>

theorem bars_from_source_returns: "\<exists>r. bars_from_source env a files = Some r"
  using live_returns [of env a] by (auto simp: bars_from_source_def split: sum.split)

text \<open>The same arguments, reading the cache.\<close>

definition from_cache :: "cli_args \<Rightarrow> int option \<Rightarrow> int option \<Rightarrow> int option \<Rightarrow> cli_args" where
  "from_cache a start stop max_bars = a\<lparr>ca_path := None, ca_cache := True, ca_start := start, ca_end := stop, ca_max_bars := max_bars\<rparr>"

lemma from_cache_simps [simp]:
  "cli_symbol (from_cache a start stop max_bars) = cli_symbol a"
  "cli_cache_key (from_cache a start stop max_bars) ns = cli_cache_key a ns"
  by (simp_all add: from_cache_def cli_symbol_def cli_cache_key_def)

lemma fetched:
  assumes "cmd_fetch env a files = Some (Inr out, files')"
  obtains bars ns m where "bars_from_source env a files = Some (Inr bars)" "cli_symbol a = Inr ns"
    "write_cache_segment (ce_sha env) (cli_cache_key a ns) bars (ca_start a) (ca_end a) files = (Inr m, files')"
proof -
  from assms obtain r where r: "bars_from_source env a files = Some r" by (auto simp: cmd_fetch_def split: if_splits)
  with assms obtain bars ns where b: "bindR r (\<lambda>bars. bindR (cli_symbol a) (\<lambda>ns. Inr (bars, ns))) = Inr (bars, ns)"
    by (auto simp: cmd_fetch_def split: if_splits sum.splits)
  moreover obtain w files'' where w: "write_cache_segment (ce_sha env) (cli_cache_key a ns) bars (ca_start a) (ca_end a) files = (w, files'')"
    by fastforce
  ultimately obtain m where "w = Inr m" "files'' = files'" using assms r
    by (auto simp: cmd_fetch_def res_simps split: if_splits)
  with b w r show thesis by (intro that [of bars ns m]) (auto simp: res_simps)
qed

text \<open>
  What \<open>fetch\<close> fetched is what the commands read from the cache afterwards, cut to the window and the number of bars
  they ask for, when the floats are ones whose text reads back.
\<close>

theorem fetch_then_cached:
  assumes "cmd_fetch env a files = Some (Inr out, files')"
  shows "\<exists>bars. bars_from_source env a files = Some (Inr bars) \<and>
    (list_all exact_floats bars \<longrightarrow>
      (\<forall>start stop max_bars. bars_from_source env (from_cache a start stop max_bars) files' =
         Some (Inr (py_prefix max_bars (filter (in_window start stop) bars)))))"
proof -
  obtain bars ns m where f: "bars_from_source env a files = Some (Inr bars)" "cli_symbol a = Inr ns"
    "write_cache_segment (ce_sha env) (cli_cache_key a ns) bars (ca_start a) (ca_end a) files = (Inr m, files')"
    using assms by (rule fetched)
  have "bars_from_source env (from_cache a start stop max_bars) files' =
      Some (read_cache_segment (ce_sha env) (cli_cache_key a ns) start stop max_bars files')" for start stop max_bars
    unfolding bars_from_source_def from_cache_simps f(2) by (simp add: from_cache_def no_text_def)
  with f(1) read_written [OF f(3)] show ?thesis by auto
qed

text \<open>An exported CSV file is an offline source of the same bars, when they have close times.\<close>

theorem export_then_offline:
  assumes "cmd_export env a ''csv'' output files = Some (Inr (out, CsvFile body))"
    and "validate_bars bars False = Inr ()" and "list_all exact_floats bars" and "list_all (\<lambda>b. b_time_close b \<noteq> None) bars"
    and "bars_from_source env a files = Some (Inr bars)"
    and "py_lower (path_suffix (off_path file)) = ''.csv''" and "off_csv file = Inr body"
  shows "offline_get_bars file timeframe None None None = Inr bars"
proof -
  from assms(1,5) have "body = cache_text bars"
    by (auto simp: cmd_export_def export_file_def export_csv_def cache_text_def)
  then have "offline_read_csv (off_csv file) timeframe = Inr bars"
    using sort_validated [OF assms(2)] offline_rows_read [OF assms(3,4)] assms(7) by (simp add: offline_read_csv_def cache_rows)
  moreover have "filter (in_window None None) bars = bars" by (simp add: in_window_def)
  ultimately show ?thesis using assms(2,6) by (simp add: offline_get_bars_def py_prefix_def)
qed

text \<open>
  Errors of the contracts are \<open>ValueError\<close>s: an empty window given to \<open>precompute\<close> ends in a traceback and not in the
  object other errors are printed as.
\<close>

theorem precompute_window_uncaught:
  assumes "ca_start a = Some start" and "ca_end a = Some stop" and "stop \<le> start" and "cli_symbol a = Inr ns"
    and "make_instrument (ns_exchange ns) (ns_market ns) (ns_exchange_symbol ns) = Inr i" and "parse_timeframe (ca_timeframe a) = Inr tf"
  shows "\<exists>m. main_exit (fst (cmd_precompute sv a dir cs)) = Uncaught (InvalidBarQueryError m)"
  using assms by (auto simp: cmd_precompute_def post_init_bar_query_def main_exit_def)

lemma count_gaps_zero:
  "count_gaps bars = 0 \<longleftrightarrow> (\<forall>i. Suc i < length bars \<longrightarrow> (case b_time_close (bars ! i) of Some t \<Rightarrow> b_time (bars ! Suc i) = t + 1 | None \<Rightarrow> True))"
  (is "?g bars = 0 \<longleftrightarrow> ?adjoin bars")
proof (induction bars rule: count_gaps.induct)
  case (1 p c bars)
  have nonneg: "0 \<le> count_gaps xs" for xs by (induction xs rule: count_gaps.induct) (auto split: option.splits)
  have "?adjoin (p # c # bars) \<longleftrightarrow> (case b_time_close p of Some t \<Rightarrow> b_time c = t + 1 | None \<Rightarrow> True) \<and> ?adjoin (c # bars)"
    by (auto simp: less_Suc_eq_0_disj split: option.splits; metis Suc_less_eq nth_Cons_Suc)
  with 1 nonneg [of "c # bars"] show ?case by (auto split: option.splits)
qed simp_all

end
