(* ===== verification/Spec2Isabelle.thy ===== *)
theory Spec2Isabelle
  imports Adapters Footprint Supervisor ServiceSafety PublicSymbols ServiceClients Repair FootprintService AdapterSafety ArchiveSafety ProviderSafety Acceptance Cli
begin

text \<open>
  A verification library for \<^verbatim>\<open>marketdata-provider\<close>: candles of exchanges are fetched or
  streamed, checked, and kept in a crash-safe store from which series are served.

  \<^bold>\<open>The program and the theories.\<close> Paths are under \<^verbatim>\<open>src/marketdata_provider\<close>.

  \<^item> \<^verbatim>\<open>Prelude\<close>: the exceptions of the program and of Python as one datatype, results
    as sums with \<open>bindR\<close>, strings, digits and dictionaries, and the facts the components share.
  \<^item> \<^verbatim>\<open>Calendar\<close>, \<^verbatim>\<open>Timeframes\<close>: days and months of
    the proleptic Gregorian calendar; timeframe names, durations, close times, exchange intervals and the pagination
    cursor (\<^verbatim>\<open>timeframes/__init__.py\<close>, \<^verbatim>\<open>pagination/__init__.py\<close>).
  \<^item> \<^verbatim>\<open>PyFloat\<close>: Python floats as 64-bit words: comparison, rounding arithmetic, \<open>repr\<close>
    and parsing.
  \<^item> \<^verbatim>\<open>Contracts\<close>, \<^verbatim>\<open>Bars\<close>: the public dataclasses with their constructor
    checks (\<^verbatim>\<open>contracts/\<close>), the bars and their validation (\<^verbatim>\<open>core/bar.py\<close>,
    \<^verbatim>\<open>validation/__init__.py\<close>, \<^verbatim>\<open>diagnostics/__init__.py\<close>).
  \<^item> \<^verbatim>\<open>Adapters\<close>: conversion of bars and the coverage report of a window
    (\<^verbatim>\<open>_adapters.py\<close>).
  \<^item> \<^verbatim>\<open>JsonValues\<close>, \<^verbatim>\<open>Streaming\<close>: JSON values, kline updates of the two exchanges
    and the coalescing queue (\<^verbatim>\<open>streaming/kline.py\<close>, \<^verbatim>\<open>streaming/live.py\<close>).
  \<^item> \<^verbatim>\<open>Footprint\<close>: aggregation of trades into footprint bars and their store
    (\<^verbatim>\<open>footprint/aggregate.py\<close>, \<^verbatim>\<open>store/footprint_store.py\<close>).
  \<^item> \<^verbatim>\<open>Csv\<close>, \<^verbatim>\<open>SegmentRows\<close>, \<^verbatim>\<open>Checksums\<close>: the CSV dialect,
    the rows of a segment (\<^verbatim>\<open>store/segment_rows.py\<close>) and the binary canonical form under its digests
    (\<^verbatim>\<open>store/segment_checksums.py\<close>).
  \<^item> \<^verbatim>\<open>SegmentState\<close>: one series directory as a state: data files, manifest, journals, index
    rows and the trusted generation; the disk operations of the writers and their crashes
    (\<^verbatim>\<open>store/segment_manifest.py\<close>, \<^verbatim>\<open>store/segment_integrity.py\<close>).
  \<^item> \<^verbatim>\<open>SegmentCsv\<close>, \<^verbatim>\<open>SegmentReplace\<close>, \<^verbatim>\<open>SegmentAppend\<close>,
    \<^verbatim>\<open>SegmentStore\<close>: the bisecting reader, the two journalled writers with their recoveries, and the
    store over them (the files of those names under \<^verbatim>\<open>store/\<close>).
  \<^item> \<^verbatim>\<open>SegmentSafety\<close>: what the store promises: exact reads and writes, and atomicity under crashes.
  \<^item> \<^verbatim>\<open>CurrentStore\<close>, \<^verbatim>\<open>CandleStore\<close>, \<^verbatim>\<open>Supervisor\<close>: open candles
    and checkpoints, closed and open candles together, and a stream of updates into them
    (\<^verbatim>\<open>store/current_store.py\<close>, \<^verbatim>\<open>store/candle_store.py\<close>,
    \<^verbatim>\<open>streaming/supervisor.py\<close>).
  \<^item> \<^verbatim>\<open>Decimals\<close>, \<^verbatim>\<open>Aggregation\<close>, \<^verbatim>\<open>Service\<close>: decimal numbers as Python adds
    and compares them, bars of a longer timeframe built from shorter ones, and the service that fetches, stores, derives
    and serves bars (\<^verbatim>\<open>service.py\<close>, \<^verbatim>\<open>canonical/source_identity.py\<close>).
  \<^item> \<^verbatim>\<open>ServiceSafety\<close>: what the service promises over the store: complete or empty answers,
    answers from the store alone, and the identity of fetched bars.
  \<^item> \<^verbatim>\<open>Symbols\<close>, \<^verbatim>\<open>PublicSymbols\<close>: normal forms of symbols and the listings
    and searches of all exchanges (\<^verbatim>\<open>symbols/__init__.py\<close>, \<^verbatim>\<open>symbols/public_markets.py\<close>).
  \<^item> \<^verbatim>\<open>Klines\<close>, \<^verbatim>\<open>PublicKlines\<close>: the candles and trades in the responses of the
    exchanges, and the requests for them (\<^verbatim>\<open>exchanges/binance/rest.py\<close>, \<^verbatim>\<open>exchanges/bybit/rest.py\<close>,
    \<^verbatim>\<open>exchanges/public_spot.py\<close>, \<^verbatim>\<open>exchanges/public_intervals.py\<close>).
  \<^item> \<^verbatim>\<open>Pagination\<close>, \<^verbatim>\<open>PageSafety\<close>: retried requests and windows fetched page by page
    over a network oracle (\<^verbatim>\<open>exchanges/binance/provider.py\<close>, \<^verbatim>\<open>exchanges/bybit/provider.py\<close>,
    \<^verbatim>\<open>exchanges/binance/trades.py\<close>), and what they promise: they return, and against an exchange that
    honours its interface they return every closed candle once.
  \<^item> \<^verbatim>\<open>ServiceClients\<close>: the service with these clients as its sources.
  \<^item> \<^verbatim>\<open>Repair\<close>: the audit of a series against a source and its repair
    (\<^verbatim>\<open>store/repair.py\<close>), and that a repaired series passes the audit.
  \<^item> \<^verbatim>\<open>RawStore\<close>, \<^verbatim>\<open>FootprintService\<close>: batches of raw payloads by day and the
    pipeline from trades to footprints over them (\<^verbatim>\<open>store/raw_store.py\<close>, \<^verbatim>\<open>footprint/service.py\<close>).
  \<^item> \<^verbatim>\<open>Canonical\<close>, \<^verbatim>\<open>Snapshots\<close>, \<^verbatim>\<open>PublicSnapshots\<close>,
    \<^verbatim>\<open>SnapshotStore\<close>, \<^verbatim>\<open>SnapshotSafety\<close>: canonical bars, the resolution of revisions into a snapshot
    with its coverage and gaps, snapshots of provider and store bars, and the check of a snapshot that comes back
    (\<^verbatim>\<open>canonical/\<close>, \<^verbatim>\<open>compat/v4.py\<close>).
  \<^item> \<^verbatim>\<open>Registry\<close>, \<^verbatim>\<open>CandleAdapters\<close>, \<^verbatim>\<open>AdapterSafety\<close>: the tables of exchanges
    and the adapters that write series and snapshots to the candle store and read them (\<^verbatim>\<open>exchanges/registry.py\<close>,
    \<^verbatim>\<open>factories.py\<close>); a batch of closed candles is merged whole or refused.
  \<^item> \<^verbatim>\<open>Archive\<close>, \<^verbatim>\<open>ArchiveSafety\<close>: the files of a window in the archive of an exchange, their
    rows as bars, and the filling of gaps from them (\<^verbatim>\<open>exchanges/binance/archive.py\<close>).
  \<^item> \<^verbatim>\<open>Cache\<close>, \<^verbatim>\<open>Providers\<close>, \<^verbatim>\<open>ProviderSafety\<close>: cached segments, the
    configuration, offline files, the loop of a live stream and the adapters over both (\<^verbatim>\<open>cache/local.py\<close>,
    \<^verbatim>\<open>config/__init__.py\<close>, \<^verbatim>\<open>providers/offline.py\<close>, \<^verbatim>\<open>streaming/live.py\<close>,
    \<^verbatim>\<open>factories.py\<close>), and what they deliver.
  \<^item> \<^verbatim>\<open>Acceptance\<close>: the checks of an acceptance run and their report, the probes of streams and REST
    interfaces, and the classification of the exceptions they end in (\<^verbatim>\<open>acceptance.py\<close>,
    \<^verbatim>\<open>acceptance_models.py\<close>).
  \<^item> \<^verbatim>\<open>Cli\<close>: the commands over bars, the registry and the stores, composed of the parts above, with what
    \<^verbatim>\<open>main\<close> makes of their errors (\<^verbatim>\<open>cli/main.py\<close>); a command over bars ends, and what is fetched is what the
    cache gives back.
  \<^item> \<^verbatim>\<open>Samples\<close>: the two bars and the digest on which hypotheses are shown satisfiable.

  \<^bold>\<open>How state and effects are modelled.\<close> An operation on a directory is a function of type
  \<open>'a io\<close>: the state to its result, or exception, and the state it leaves. A write is planned as a list of
  disk operations, which \<open>run_ops\<close> performs and which the inductive \<open>crash\<close> stops after any of them, a data append
  possibly after any part of its bytes. The candle store holds one such state per series path, one shared index, and
  the tables of the current store; its operations compose with \<open>and_then\<close>, so what was written before an
  exception stays written.

  \<^bold>\<open>What the lemmas show.\<close> The locale \<open>journaled\<close> states the contract of a journalled
  write (a pending state has a recovery that settles it, and a crash of the recovery leaves a pending state); it is
  interpreted for the append and the replacement journal, and the two crash theorems rest on it. The locale
  \<open>coalescing_buffer\<close> states the contract of the stream queue. \<open>contains\<close> relates a directory to the bars it
  holds; every operation is proved against it, \<open>commit_spec\<close> and \<open>deliver_spec\<close> are the specifications over it, and
  the replay and order theorems of the supervisor follow from these alone.

  \<^bold>\<open>Parameters.\<close> The digest \<open>sha\<close> (the hashlib function), the names of
  revision states \<open>rs\<close> and the content hash of a payload (openpine_contracts) are not under
  \<^verbatim>\<open>src/\<close>; the record \<open>service\<close> holds them together with the network clients, the sum of floats and
  midnight of the current day. The other functions of openpine_contracts are the record \<open>contracts\<close>; the bytes behind a
  URL of the archive and the text of a ZIP file are the record \<open>archive_env\<close>. Digests are assumed to have 32 bytes, and to be injective only where a
  statement says so; \<open>rs_ok\<close> says the names of revision states are distinct and nonempty.

  \<^bold>\<open>Bounds.\<close> \<open>storable\<close> bars have integers below \<open>2 ^ 53\<close> in magnitude, which JSON and SQLite
  keep exactly, and floats whose \<open>repr\<close> parses back. A row is one line of at most a million characters, the limit
  of the tail reader. The read lock is a loop and its termination is a theorem; no fuel is used there. The bisection of
  the reader makes the 24 rounds the code gives it, and its exactness does not depend on their number; the tail search
  recurses on its file position. The loops over pages are partial functions; a window with an end, or a maximum of
  bars, makes the loops over candles return, which is a theorem. A request makes as many attempts as its list of
  attempts is long.

  \<^bold>\<open>Not modelled.\<close> The HTTP library itself, the asynchronous client of \<^verbatim>\<open>transport/\<close>,
  the parser, the tables, the mock stream and the remaining listings of the command line, and the release and quality tooling
  are I/O or glue around the modelled core; the integrity checks of an
  acceptance run, made on files of a temporary directory, are an argument of the runs; a
  network is an oracle that answers each attempt of each request, and a socket is the list of what it gives. The ISO text
  of an instant, which one exchange is asked with, is a parameter. The rows of a Parquet file are given, since the
  package that reads them is not under \<^verbatim>\<open>src/\<close>. File locks and threads are
  outside the model: an operation under its lock is one step. Symbolic-link checks and the copying fallback of the
  replacement journal are outside the model of the file system. String parsing of ISO dates is left out. Messages of
  exceptions are kept only where another part reads them. Smaller idealisations: the limit of 131072 characters the csv
  module puts on a field; JSON files as the values their text parses to; the class of the error for an instant outside the
  calendar, a \<open>ValueError\<close> here, which Python may make an \<open>OverflowError\<close>; files that share their content through a
  hard link; and milliseconds, which the code of the archive divides to a float, exactly for the years files exist for.
\<close>

end
